(* ===== verification/Prelude.thy ===== *)
theory Prelude
  imports Main "HOL-Library.Finite_Map" "HOL-Library.Char_ord" "HOL-Library.List_Lexorder"
begin

text \<open>
  What every component of the model shares: Python exceptions as values, the state and
  exception monad the operations are written in, a weakest-precondition style calculus for it,
  JSON values and Python's dictionary operations on them, and Python's string operations.

  Strings are lists of \<open>char\<close>, so the model covers texts whose code points are below 256. An
  exception carries the constant text of its message: the values an f-string interpolates are
  left out, as no code under src/ reads them back.
\<close>

subsection \<open>Exceptions\<close>

text \<open>
  One constructor per exception class the modelled code raises or catches.
  \<open>StoreConflict\<close> is a subclass of \<open>StoreError\<close> in the source, and \<open>TransitionError\<close> and
  \<open>LeaseError\<close> are subclasses of \<open>ValueError\<close>: the predicates below are the \<open>except\<close> clauses.
\<close>

datatype exn =
    StoreError string
  | StoreConflict string
  | TransitionError string
  | LeaseError string
  | ValueError string
  | TypeError
  | KeyError string
  | AttributeError
  | IndexError
  | OverflowError
  | RecursionError
  | OSError string
  | ExecutorUnavailable string
  | RuntimeReaderError string
  | StepsError string
  | AccessError string string

fun is_store_error :: "exn \<Rightarrow> bool" where
  "is_store_error (StoreError m) = True"
| "is_store_error (StoreConflict m) = True"
| "is_store_error e = False"

fun is_value_error :: "exn \<Rightarrow> bool" where
  "is_value_error (ValueError m) = True"
| "is_value_error (TransitionError m) = True"
| "is_value_error (LeaseError m) = True"
| "is_value_error (StepsError m) = True"
| "is_value_error e = False"

fun is_os_error :: "exn \<Rightarrow> bool" where
  "is_os_error (OSError m) = True"
| "is_os_error e = False"

fun exn_text :: "exn \<Rightarrow> string" where
  "exn_text (StoreError m) = m"
| "exn_text (StoreConflict m) = m"
| "exn_text (TransitionError m) = m"
| "exn_text (LeaseError m) = m"
| "exn_text (ValueError m) = m"
| "exn_text (OSError m) = m"
| "exn_text (ExecutorUnavailable m) = m"
| "exn_text (RuntimeReaderError m) = m"
| "exn_text (StepsError m) = m"
| "exn_text (AccessError s m) = m"
| "exn_text (KeyError k) = k"
| "exn_text e = []"

type_synonym 'a res = "exn + 'a"

definition rbind :: "'a res \<Rightarrow> ('a \<Rightarrow> 'b res) \<Rightarrow> 'b res" where
  "rbind r f = (case r of Inl e \<Rightarrow> Inl e | Inr x \<Rightarrow> f x)"

lemma rbind_simps [simp]:
  "rbind (Inl e) f = Inl e"
  "rbind (Inr x) f = f x"
  by (simp_all add: rbind_def)

lemma rbind_Inr_iff: "rbind r f = Inr y \<longleftrightarrow> (\<exists>x. r = Inr x \<and> f x = Inr y)"
  by (cases r) auto

lemma rbind_split: "P (rbind r f) \<longleftrightarrow> (\<forall>e. r = Inl e \<longrightarrow> P (Inl e)) \<and> (\<forall>x. r = Inr x \<longrightarrow> P (f x))"
  by (cases r) auto

text \<open>The first exception of a guard that must hold.\<close>

definition ensure :: "bool \<Rightarrow> exn \<Rightarrow> unit res" where
  "ensure b e = (if b then Inr () else Inl e)"

lemma ensure_simps [simp]:
  "ensure True e = Inr ()"
  "ensure False e = Inl e"
  "ensure b e = Inr u \<longleftrightarrow> b"
  "ensure b e = Inl e' \<longleftrightarrow> \<not> b \<and> e' = e"
  by (auto simp: ensure_def)

text \<open>A sequence of guards: the exception of the first that fails.\<close>

fun checks :: "(bool \<times> exn) list \<Rightarrow> unit res" where
  "checks [] = Inr ()"
| "checks ((b, e) # cs) = (if b then checks cs else Inl e)"

lemma checks_Inr [simp]: "checks cs = Inr u \<longleftrightarrow> (\<forall>(b, e)\<in>set cs. b)"
  by (induction cs rule: checks.induct) auto

fun rmap :: "('a \<Rightarrow> 'b res) \<Rightarrow> 'a list \<Rightarrow> 'b list res" where
  "rmap f [] = Inr []"
| "rmap f (x # xs) = rbind (f x) (\<lambda>y. rbind (rmap f xs) (\<lambda>ys. Inr (y # ys)))"

lemma rmap_all_Inr: "(\<And>x. x \<in> set xs \<Longrightarrow> f x = Inr (g x)) \<Longrightarrow> rmap f xs = Inr (map g xs)"
  by (induction xs) auto

subsection \<open>State and exceptions\<close>

text \<open>
  A computation reads and replaces the state and returns a value or an exception. As in the
  source, what was written before an exception stays written.
\<close>

type_synonym ('s, 'a) cmd = "'s \<Rightarrow> 'a res \<times> 's"

definition ret :: "'a \<Rightarrow> ('s, 'a) cmd" where
  "ret x s = (Inr x, s)"

definition throw :: "exn \<Rightarrow> ('s, 'a) cmd" where
  "throw e s = (Inl e, s)"

definition bnd :: "('s, 'a) cmd \<Rightarrow> ('a \<Rightarrow> ('s, 'b) cmd) \<Rightarrow> ('s, 'b) cmd" where
  "bnd m f s = (case m s of (r, s') \<Rightarrow> (case r of Inl e \<Rightarrow> (Inl e, s') | Inr x \<Rightarrow> f x s'))"

definition seq :: "('s, unit) cmd \<Rightarrow> ('s, 'b) cmd \<Rightarrow> ('s, 'b) cmd" where
  "seq m k = bnd m (\<lambda>_. k)"

definition pure :: "'a res \<Rightarrow> ('s, 'a) cmd" where
  "pure r s = (r, s)"

definition gets :: "('s \<Rightarrow> 'a) \<Rightarrow> ('s, 'a) cmd" where
  "gets f s = (Inr (f s), s)"

text \<open>A read that may raise.\<close>

definition asks :: "('s \<Rightarrow> 'a res) \<Rightarrow> ('s, 'a) cmd" where
  "asks f s = (f s, s)"

definition modify :: "('s \<Rightarrow> 's) \<Rightarrow> ('s, unit) cmd" where
  "modify f s = (Inr (), f s)"

definition guard :: "bool \<Rightarrow> exn \<Rightarrow> ('s, unit) cmd" where
  "guard b e = pure (ensure b e)"

definition handle :: "('s, 'a) cmd \<Rightarrow> (exn \<Rightarrow> ('s, 'a) cmd) \<Rightarrow> ('s, 'a) cmd" where
  "handle m h s = (case m s of (r, s') \<Rightarrow> (case r of Inl e \<Rightarrow> h e s' | Inr x \<Rightarrow> (Inr x, s')))"

fun for_each :: "'a list \<Rightarrow> ('a \<Rightarrow> ('s, unit) cmd) \<Rightarrow> ('s, unit) cmd" where
  "for_each [] f = ret ()"
| "for_each (x # xs) f = seq (f x) (for_each xs f)"

lemmas cmd_defs = ret_def throw_def bnd_def seq_def pure_def gets_def asks_def modify_def guard_def handle_def

subsection \<open>Weakest preconditions\<close>

text \<open>
  \<open>wp m Q s\<close>: running \<open>m\<close> from \<open>s\<close> gives a result and a state that satisfy \<open>Q\<close>. The rules
  are equations, so that the simplifier runs them over a whole operation.
\<close>

named_theorems wp_rules

definition wp :: "('s, 'a) cmd \<Rightarrow> ('a res \<Rightarrow> 's \<Rightarrow> bool) \<Rightarrow> 's \<Rightarrow> bool" where
  "wp m Q s = (case m s of (r, s') \<Rightarrow> Q r s')"

lemma wp_ret [wp_rules]: "wp (ret x) Q s = Q (Inr x) s"
  by (simp add: wp_def ret_def)

lemma wp_throw [wp_rules]: "wp (throw e) Q s = Q (Inl e) s"
  by (simp add: wp_def throw_def)

lemma wp_bnd [wp_rules]:
  "wp (bnd m f) Q s =
     wp m (\<lambda>r s'. (\<forall>e. r = Inl e \<longrightarrow> Q (Inl e) s') \<and> (\<forall>x. r = Inr x \<longrightarrow> wp (f x) Q s')) s"
  by (auto simp: wp_def bnd_def split: prod.splits sum.splits)

lemma wp_seq [wp_rules]:
  "wp (seq m k) Q s =
     wp m (\<lambda>r s'. (\<forall>e. r = Inl e \<longrightarrow> Q (Inl e) s') \<and> (\<forall>x. r = Inr x \<longrightarrow> wp k Q s')) s"
  by (simp add: seq_def wp_bnd)

lemma wp_pure [wp_rules]: "wp (pure r) Q s = Q r s"
  by (simp add: wp_def pure_def)

lemma wp_gets [wp_rules]: "wp (gets f) Q s = Q (Inr (f s)) s"
  by (simp add: wp_def gets_def)

lemma wp_asks [wp_rules]: "wp (asks f) Q s = Q (f s) s"
  by (simp add: wp_def asks_def)

lemma wp_modify [wp_rules]: "wp (modify f) Q s = Q (Inr ()) (f s)"
  by (simp add: wp_def modify_def)

lemma wp_guard [wp_rules]: "wp (guard b e) Q s = ((b \<longrightarrow> Q (Inr ()) s) \<and> (\<not> b \<longrightarrow> Q (Inl e) s))"
  by (simp add: guard_def wp_pure ensure_def)

lemma wp_handle [wp_rules]:
  "wp (handle m h) Q s =
     wp m (\<lambda>r s'. (\<forall>e. r = Inl e \<longrightarrow> wp (h e) Q s') \<and> (\<forall>x. r = Inr x \<longrightarrow> Q (Inr x) s')) s"
  by (auto simp: wp_def handle_def split: prod.splits sum.splits)

lemma wp_if [wp_rules]:
  "wp (if b then m else n) Q s = ((b \<longrightarrow> wp m Q s) \<and> (\<not> b \<longrightarrow> wp n Q s))"
  by simp

lemma wp_option [wp_rules]:
  "wp (case x of None \<Rightarrow> m | Some y \<Rightarrow> f y) Q s =
     ((x = None \<longrightarrow> wp m Q s) \<and> (\<forall>y. x = Some y \<longrightarrow> wp (f y) Q s))"
  by (cases x) auto

lemma wp_bool [wp_rules]:
  "wp (case b of True \<Rightarrow> m | False \<Rightarrow> n) Q s = ((b \<longrightarrow> wp m Q s) \<and> (\<not> b \<longrightarrow> wp n Q s))"
  by (cases b) auto

lemma wp_sum [wp_rules]:
  "wp (case r of Inl e \<Rightarrow> f e | Inr x \<Rightarrow> g x) Q s =
     ((\<forall>e. r = Inl e \<longrightarrow> wp (f e) Q s) \<and> (\<forall>x. r = Inr x \<longrightarrow> wp (g x) Q s))"
  by (cases r) auto

lemma wp_mono: "wp m Q s \<Longrightarrow> (\<And>r s'. Q r s' \<Longrightarrow> R r s') \<Longrightarrow> wp m R s"
  by (auto simp: wp_def)

lemma wp_conj: "wp m Q s \<Longrightarrow> wp m R s \<Longrightarrow> wp m (\<lambda>r s'. Q r s' \<and> R r s') s"
  by (auto simp: wp_def)

lemma wpD: "wp m Q s \<Longrightarrow> m s = (r, s') \<Longrightarrow> Q r s'"
  by (simp add: wp_def)

lemma wpI: "(\<And>r s'. m s = (r, s') \<Longrightarrow> Q r s') \<Longrightarrow> wp m Q s"
  by (auto simp: wp_def)

text \<open>Running a computation to a normal result, step by step.\<close>

named_theorems run_Inr

lemma bnd_run_Inr [run_Inr]:
  "bnd m f s = (Inr y, s') \<longleftrightarrow> (\<exists>x u. m s = (Inr x, u) \<and> f x u = (Inr y, s'))"
  by (auto simp: bnd_def split: prod.splits sum.splits)

lemma seq_run_Inr [run_Inr]:
  "seq m k s = (Inr y, s') \<longleftrightarrow> (\<exists>u. m s = (Inr (), u) \<and> k u = (Inr y, s'))"
  by (auto simp: seq_def bnd_run_Inr)

lemma basic_run_Inr [run_Inr]:
  "ret x s = (r, s') \<longleftrightarrow> r = Inr x \<and> s' = s"
  "throw e s = (r, s') \<longleftrightarrow> r = Inl e \<and> s' = s"
  "pure r2 s = (r, s') \<longleftrightarrow> r2 = r \<and> s' = s"
  "gets g s = (r, s') \<longleftrightarrow> r = Inr (g s) \<and> s' = s"
  "asks g' s = (r', s') \<longleftrightarrow> g' s = r' \<and> s' = s"
  "modify h s = (r1, s') \<longleftrightarrow> r1 = Inr () \<and> s' = h s"
  "guard b e s = (Inr z, s') \<longleftrightarrow> b \<and> s' = s"
  by (auto simp: cmd_defs ensure_def)

subsection \<open>Invariants of computations\<close>

text \<open>
  \<open>keeps P m\<close>: whatever \<open>m\<close> returns or raises, it takes a state with \<open>P\<close> to a state with
  \<open>P\<close>. The introduction rules follow the structure of the computation.
\<close>

named_theorems keeps_rules

definition keeps :: "('s \<Rightarrow> bool) \<Rightarrow> ('s, 'a) cmd \<Rightarrow> bool" where
  "keeps P m \<longleftrightarrow> (\<forall>s. P s \<longrightarrow> wp m (\<lambda>_. P) s)"

lemma keepsI: "(\<And>s. P s \<Longrightarrow> wp m (\<lambda>_. P) s) \<Longrightarrow> keeps P m"
  by (simp add: keeps_def)

lemma keepsD: "keeps P m \<Longrightarrow> m s = (r, s') \<Longrightarrow> P s \<Longrightarrow> P s'"
  by (auto simp: keeps_def dest: wpD)

lemma keeps_ret [keeps_rules]: "keeps P (ret x)"
  by (simp add: keeps_def wp_rules)

lemma keeps_throw [keeps_rules]: "keeps P (throw e)"
  by (simp add: keeps_def wp_rules)

lemma keeps_pure [keeps_rules]: "keeps P (pure r)"
  by (simp add: keeps_def wp_rules)

lemma keeps_gets [keeps_rules]: "keeps P (gets f)"
  by (simp add: keeps_def wp_rules)

lemma keeps_asks [keeps_rules]: "keeps P (asks f)"
  by (simp add: keeps_def wp_rules)

lemma keeps_guard [keeps_rules]: "keeps P (guard b e)"
  by (simp add: keeps_def wp_rules)

lemma keeps_bnd [keeps_rules]: "keeps P m \<Longrightarrow> (\<And>x. keeps P (f x)) \<Longrightarrow> keeps P (bnd m f)"
proof (rule keepsI)
  fix s assume "keeps P m" "\<And>x. keeps P (f x)" "P s"
  then have "wp m (\<lambda>_. P) s" by (simp add: keeps_def)
  then show "wp (bnd m f) (\<lambda>_. P) s"
    unfolding wp_bnd by (rule wp_mono) (use \<open>\<And>x. keeps P (f x)\<close> in \<open>auto simp: keeps_def\<close>)
qed

lemma keeps_seq [keeps_rules]: "keeps P m \<Longrightarrow> keeps P k \<Longrightarrow> keeps P (seq m k)"
  by (simp add: seq_def keeps_bnd)

lemma keeps_handle [keeps_rules]: "keeps P m \<Longrightarrow> (\<And>e. keeps P (h e)) \<Longrightarrow> keeps P (handle m h)"
proof (rule keepsI)
  fix s assume "keeps P m" "\<And>e. keeps P (h e)" "P s"
  then have "wp m (\<lambda>_. P) s" by (simp add: keeps_def)
  then show "wp (handle m h) (\<lambda>_. P) s"
    unfolding wp_handle by (rule wp_mono) (use \<open>\<And>e. keeps P (h e)\<close> in \<open>auto simp: keeps_def\<close>)
qed

lemma keeps_if [keeps_rules]:
  "(b \<Longrightarrow> keeps P m) \<Longrightarrow> (\<not> b \<Longrightarrow> keeps P n) \<Longrightarrow> keeps P (if b then m else n)"
  by simp

lemma keeps_option [keeps_rules]:
  "(x = None \<Longrightarrow> keeps P m) \<Longrightarrow> (\<And>y. x = Some y \<Longrightarrow> keeps P (f y)) \<Longrightarrow>
   keeps P (case x of None \<Rightarrow> m | Some y \<Rightarrow> f y)"
  by (cases x) auto

lemma keeps_bool [keeps_rules]:
  "(b \<Longrightarrow> keeps P m) \<Longrightarrow> (\<not> b \<Longrightarrow> keeps P n) \<Longrightarrow> keeps P (case b of True \<Rightarrow> m | False \<Rightarrow> n)"
  by (cases b) auto

lemma keeps_sum [keeps_rules]:
  "(\<And>e. r = Inl e \<Longrightarrow> keeps P (f e)) \<Longrightarrow> (\<And>x. r = Inr x \<Longrightarrow> keeps P (g x)) \<Longrightarrow>
   keeps P (case r of Inl e \<Rightarrow> f e | Inr x \<Rightarrow> g x)"
  by (cases r) auto

lemma keeps_modify: "(\<And>s. P s \<Longrightarrow> P (f s)) \<Longrightarrow> keeps P (modify f)"
  by (simp add: keeps_def wp_rules)

lemma keeps_for_each [keeps_rules]:
  "(\<And>x. x \<in> set xs \<Longrightarrow> keeps P (f x)) \<Longrightarrow> keeps P (for_each xs f)"
  by (induction xs) (auto intro: keeps_rules)

text \<open>A value bound by \<open>pure\<close> is known to come from that result.\<close>

lemma keeps_bnd_pure: "(\<And>x. r = Inr x \<Longrightarrow> keeps P (f x)) \<Longrightarrow> keeps P (bnd (pure r) f)"
  by (cases r) (auto simp: keeps_def wp_rules)

lemma keeps_seq_guard: "(b \<Longrightarrow> keeps P k) \<Longrightarrow> keeps P (seq (guard b e) k)"
  by (cases b) (auto simp: keeps_def wp_rules)

subsection \<open>JSON values and dictionaries\<close>

text \<open>
  A parsed JSON document. A Python dictionary with string keys is a finite map: the source
  compares dictionaries with \<open>==\<close>, which ignores the order of the keys, and writes each
  of them with \<open>sort_keys=True\<close>. Finite floats are rationals; no arithmetic is done on them
  beyond comparisons and one difference.
\<close>

datatype pyfloat = Finite rat | Infinite bool | NaN

datatype json =
    JNull
  | JBool bool
  | JInt int
  | JFloat pyfloat
  | JStr string
  | JList "json list"
  | JObj "(string, json) fmap"

type_synonym dict = "(string, json) fmap"

fun truthy :: "json \<Rightarrow> bool" where
  "truthy JNull = False"
| "truthy (JBool b) = b"
| "truthy (JInt i) = (i \<noteq> 0)"
| "truthy (JFloat f) = (f \<noteq> Finite 0)"
| "truthy (JStr s) = (s \<noteq> [])"
| "truthy (JList xs) = (xs \<noteq> [])"
| "truthy (JObj d) = (d \<noteq> fmempty)"

text \<open>\<open>d.get(k)\<close>, \<open>d.get(k, v)\<close> and \<open>d[k]\<close>.\<close>

definition dget :: "dict \<Rightarrow> string \<Rightarrow> json" where
  "dget d k = (case fmlookup d k of None \<Rightarrow> JNull | Some v \<Rightarrow> v)"

definition dget_or :: "dict \<Rightarrow> string \<Rightarrow> json \<Rightarrow> json" where
  "dget_or d k v = (case fmlookup d k of None \<Rightarrow> v | Some w \<Rightarrow> w)"

definition dindex :: "dict \<Rightarrow> string \<Rightarrow> json res" where
  "dindex d k = (case fmlookup d k of None \<Rightarrow> Inl (KeyError k) | Some v \<Rightarrow> Inr v)"

text \<open>\<open>{**d, **e}\<close>, \<open>d.update(e)\<close> with a literal \<open>e\<close>: the later binding wins.\<close>

definition dput :: "dict \<Rightarrow> (string \<times> json) list \<Rightarrow> dict" where
  "dput d kvs = foldl (\<lambda>m (k, v). fmupd k v m) d kvs"

abbreviation obj :: "(string \<times> json) list \<Rightarrow> dict" where
  "obj kvs \<equiv> dput fmempty kvs"

lemma dput_simps [simp]:
  "dput d [] = d"
  "dput d ((k, v) # kvs) = dput (fmupd k v d) kvs"
  by (simp_all add: dput_def)

lemma dput_append [simp]: "dput d (a @ b) = dput (dput d a) b"
  by (simp add: dput_def)

lemma dget_simps [simp]:
  "dget fmempty k = JNull"
  "dget (fmupd k' v d) k = (if k' = k then v else dget d k)"
  "dget (d ++\<^sub>f e) k = (case fmlookup e k of None \<Rightarrow> dget d k | Some v \<Rightarrow> v)"
  "dget (fmdrop k' d) k = (if k' = k then JNull else dget d k)"
  by (auto simp: dget_def fmlookup_dom_iff split: option.splits)

lemma dget_or_simps [simp]:
  "dget_or fmempty k w = w"
  "dget_or (fmupd k' v d) k w = (if k' = k then v else dget_or d k w)"
  "dget_or (d ++\<^sub>f e) k w = (case fmlookup e k of None \<Rightarrow> dget_or d k w | Some v \<Rightarrow> v)"
  by (auto simp: dget_or_def fmlookup_dom_iff split: option.splits)

lemma dget_or_JNull [simp]: "dget_or d k JNull = dget d k"
  by (simp add: dget_or_def dget_def)

text \<open>
  Attribute and item access on a JSON value of unknown shape, with the exception Python raises
  on the wrong one.
\<close>

fun as_obj :: "json \<Rightarrow> dict res" where
  "as_obj (JObj d) = Inr d"
| "as_obj j = Inl AttributeError"

fun as_list :: "json \<Rightarrow> json list res" where
  "as_list (JList xs) = Inr xs"
| "as_list j = Inl TypeError"

fun as_str :: "json \<Rightarrow> string res" where
  "as_str (JStr s) = Inr s"
| "as_str j = Inl TypeError"

fun as_int :: "json \<Rightarrow> int res" where
  "as_int (JInt i) = Inr i"
| "as_int (JBool b) = Inr (if b then 1 else 0)"
| "as_int j = Inl TypeError"

fun is_obj :: "json \<Rightarrow> bool" where
  "is_obj (JObj d) = True"
| "is_obj j = False"

fun is_str :: "json \<Rightarrow> bool" where
  "is_str (JStr s) = True"
| "is_str j = False"

text \<open>\<open>a or b\<close> of two values.\<close>

definition jor :: "json \<Rightarrow> json \<Rightarrow> json" where
  "jor a b = (if truthy a then a else b)"

definition jget :: "json \<Rightarrow> string \<Rightarrow> json res" where
  "jget j k = rbind (as_obj j) (\<lambda>d. Inr (dget d k))"

definition jindex :: "json \<Rightarrow> string \<Rightarrow> json res" where
  "jindex j k = (case j of JObj d \<Rightarrow> dindex d k | _ \<Rightarrow> Inl TypeError)"

fun jopt :: "string option \<Rightarrow> json" where
  "jopt None = JNull"
| "jopt (Some s) = JStr s"

lemma jopt_inject [simp]: "jopt a = jopt b \<longleftrightarrow> a = b"
  by (cases a; cases b) auto

subsection \<open>Python strings\<close>

text \<open>Whitespace of \<open>str.strip()\<close> and \<open>str.split()\<close> among the code points below 256.\<close>

definition is_space :: "char \<Rightarrow> bool" where
  "is_space c \<longleftrightarrow> (let n = of_char c :: nat in
     n = 32 \<or> (9 \<le> n \<and> n \<le> 13) \<or> (28 \<le> n \<and> n \<le> 31) \<or> n = 133 \<or> n = 160)"

definition lstrip :: "string \<Rightarrow> string" where
  "lstrip s = dropWhile is_space s"

definition rstrip :: "string \<Rightarrow> string" where
  "rstrip s = rev (dropWhile is_space (rev s))"

definition strip :: "string \<Rightarrow> string" where
  "strip s = rstrip (lstrip s)"

text \<open>\<open>s.rstrip(c)\<close> and \<open>s.strip(c)\<close> for one character.\<close>

definition rstrip_char :: "char \<Rightarrow> string \<Rightarrow> string" where
  "rstrip_char c s = rev (dropWhile (\<lambda>x. x = c) (rev s))"

definition strip_char :: "char \<Rightarrow> string \<Rightarrow> string" where
  "strip_char c s = rstrip_char c (dropWhile (\<lambda>x. x = c) s)"

text \<open>\<open>s.split()\<close>: the maximal runs of non-space characters.\<close>

function split_ws :: "string \<Rightarrow> string list" where
  "split_ws s = (let t = dropWhile is_space s in
     if t = [] then [] else takeWhile (\<lambda>c. \<not> is_space c) t # split_ws (dropWhile (\<lambda>c. \<not> is_space c) t))"
  by pat_completeness auto
termination
proof (relation "measure length", simp)
  fix s t :: string
  assume t: "t = dropWhile is_space s" and ne: "t \<noteq> []"
  have "\<not> is_space (hd t)" using t ne by (metis hd_dropWhile)
  then have "length (dropWhile (\<lambda>c. \<not> is_space c) t) < length t"
    using ne by (cases t) (auto simp: le_imp_less_Suc length_dropWhile_le)
  also have "length t \<le> length s" by (simp add: t length_dropWhile_le)
  finally show "(dropWhile (\<lambda>c. \<not> is_space c) t, s) \<in> measure length" by simp
qed

declare split_ws.simps [simp del]

text \<open>\<open>s.partition(c)\<close> for one character: the part before its first occurrence and after it.\<close>

definition before :: "char \<Rightarrow> string \<Rightarrow> string" where
  "before c s = takeWhile (\<lambda>x. x \<noteq> c) s"

definition after :: "char \<Rightarrow> string \<Rightarrow> string" where
  "after c s = tl (dropWhile (\<lambda>x. x \<noteq> c) s)"

definition split_on :: "char \<Rightarrow> string \<Rightarrow> string list" where
  "split_on c s = foldr (\<lambda>x acc. if x = c then [] # acc else (x # hd acc) # tl acc) s [[]]"

definition starts_with :: "string \<Rightarrow> string \<Rightarrow> bool" where
  "starts_with p s \<longleftrightarrow> take (length p) s = p"

definition ends_with :: "string \<Rightarrow> string \<Rightarrow> bool" where
  "ends_with p s \<longleftrightarrow> starts_with (rev p) (rev s)"

fun join :: "string \<Rightarrow> string list \<Rightarrow> string" where
  "join sep [] = []"
| "join sep [x] = x"
| "join sep (x # y # zs) = x @ sep @ join sep (y # zs)"

text \<open>\<open>sub in s\<close>.\<close>

fun contains :: "string \<Rightarrow> string \<Rightarrow> bool" where
  "contains p [] = (p = [])"
| "contains p (c # s) = (starts_with p (c # s) \<or> contains p s)"

lemma starts_with_append [simp]: "starts_with p (p @ s)"
  by (simp add: starts_with_def)

lemma starts_with_iff: "starts_with p s \<longleftrightarrow> (\<exists>t. s = p @ t)"
  by (metis append_take_drop_id starts_with_append starts_with_def)

lemma before_after_sep [simp]:
  "c \<notin> set a \<Longrightarrow> before c (a @ c # b) = a"
  "c \<notin> set a \<Longrightarrow> after c (a @ c # b) = b"
  by (induction a) (auto simp: before_def after_def)

lemma before_no_sep [simp]: "c \<notin> set a \<Longrightarrow> before c a = a"
  by (induction a) (auto simp: before_def)

lemma after_no_sep [simp]: "c \<notin> set a \<Longrightarrow> after c a = []"
  by (induction a) (auto simp: after_def)

text \<open>Decimal digits, \<open>str(n)\<close> for a natural number, and \<open>int(s)\<close> on a digit string.\<close>

definition is_digit :: "char \<Rightarrow> bool" where
  "is_digit c \<longleftrightarrow> (let n = of_char c :: nat in 48 \<le> n \<and> n \<le> 57)"

definition digit_char :: "nat \<Rightarrow> char" where
  "digit_char n = char_of (48 + n)"

fun nat_digits :: "nat \<Rightarrow> nat \<Rightarrow> string" where
  "nat_digits 0 n = []"
| "nat_digits (Suc k) n = (if n < 10 then [digit_char n] else nat_digits k (n div 10) @ [digit_char (n mod 10)])"

definition nat_str :: "nat \<Rightarrow> string" where
  "nat_str n = nat_digits (n + 1) n"

definition int_str :: "int \<Rightarrow> string" where
  "int_str i = (if i < 0 then CHR ''-'' # nat_str (nat (- i)) else nat_str (nat i))"

definition digits_nat :: "string \<Rightarrow> nat" where
  "digits_nat s = foldl (\<lambda>n c. 10 * n + (of_char c - 48)) 0 s"

lemma digits_nat_append: "digits_nat (s @ [c]) = 10 * digits_nat s + (of_char c - 48)"
  by (simp add: digits_nat_def)

lemma digits_nat_str:
  assumes "n < k"
  shows "digits_nat (nat_digits k n) = n"
  using assms
proof (induction k arbitrary: n)
  case (Suc k)
  have d: "(of_char (digit_char m) :: nat) - 48 = m" if "m < 10" for m
    using that by (simp add: digit_char_def of_char_of take_bit_eq_mod)
  show ?case
  proof (cases "n < 10")
    case True
    then show ?thesis using d by (simp add: digits_nat_def)
  next
    case False
    then have "n div 10 < k" using Suc.prems by linarith
    then show ?thesis using False Suc.IH d [of "n mod 10"] by (simp add: digits_nat_append)
  qed
qed simp

lemma nat_str_inject: "nat_str m = nat_str n \<longleftrightarrow> m = n"
  using digits_nat_str [of m "m + 1"] digits_nat_str [of n "n + 1"] by (auto simp: nat_str_def)

lemma nat_digits_digits: "n < k \<Longrightarrow> list_all is_digit (nat_digits k n) \<and> nat_digits k n \<noteq> []"
proof (induction k arbitrary: n)
  case (Suc k)
  have d: "is_digit (digit_char m)" if "m < 10" for m
    using that by (simp add: is_digit_def digit_char_def of_char_of take_bit_eq_mod Let_def)
  show ?case
  proof (cases "n < 10")
    case False
    then have "n div 10 < k" using Suc.prems by linarith
    then show ?thesis using False Suc.IH d [of "n mod 10"] by simp
  qed (simp add: d)
qed simp

lemma nat_str_digits: "list_all is_digit (nat_str n)" "nat_str n \<noteq> []" "digits_nat (nat_str n) = n"
  using nat_digits_digits [of n "n + 1"] digits_nat_str [of n "n + 1"] by (simp_all add: nat_str_def)

end
