(* ===== verification/Regex.thy ===== *)
theory Regex
  imports Prelude
begin

text \<open>
  The regular expressions the code gives to \<open>re.fullmatch\<close>: character classes, sequence,
  alternative, star and bounded repetition. \<open>fullmatch\<close> decides by derivatives and
  \<open>fullmatch_lang\<close> shows that it accepts exactly the language of the expression. The patterns
  that several modules share are at the end, written as in the source.
\<close>

datatype rx =
    Eps
  | Empty
  | Cls "char \<Rightarrow> bool"
  | Seq rx rx
  | Alt rx rx
  | Star rx
  | Rep rx nat nat

subsection \<open>Languages\<close>

definition conc :: "string set \<Rightarrow> string set \<Rightarrow> string set" where
  "conc A B = {u @ v | u v. u \<in> A \<and> v \<in> B}"

fun lpow :: "string set \<Rightarrow> nat \<Rightarrow> string set" where
  "lpow A 0 = {[]}"
| "lpow A (Suc n) = conc A (lpow A n)"

fun lang :: "rx \<Rightarrow> string set" where
  "lang Eps = {[]}"
| "lang Empty = {}"
| "lang (Cls p) = {[c] | c. p c}"
| "lang (Seq r s) = conc (lang r) (lang s)"
| "lang (Alt r s) = lang r \<union> lang s"
| "lang (Star r) = (\<Union>n. lpow (lang r) n)"
| "lang (Rep r m n) = (\<Union>k\<in>{m..n}. lpow (lang r) k)"

subsection \<open>Matching by derivatives\<close>

fun nullable :: "rx \<Rightarrow> bool" where
  "nullable Eps = True"
| "nullable Empty = False"
| "nullable (Cls p) = False"
| "nullable (Seq r s) = (nullable r \<and> nullable s)"
| "nullable (Alt r s) = (nullable r \<or> nullable s)"
| "nullable (Star r) = True"
| "nullable (Rep r m n) = (m \<le> n \<and> (m = 0 \<or> nullable r))"

fun deriv :: "char \<Rightarrow> rx \<Rightarrow> rx" where
  "deriv c Eps = Empty"
| "deriv c Empty = Empty"
| "deriv c (Cls p) = (if p c then Eps else Empty)"
| "deriv c (Seq r s) = (if nullable r then Alt (Seq (deriv c r) s) (deriv c s) else Seq (deriv c r) s)"
| "deriv c (Alt r s) = Alt (deriv c r) (deriv c s)"
| "deriv c (Star r) = Seq (deriv c r) (Star r)"
| "deriv c (Rep r m n) = (if n = 0 \<or> n < m then Empty else Seq (deriv c r) (Rep r (m - 1) (n - 1)))"

fun fullmatch :: "rx \<Rightarrow> string \<Rightarrow> bool" where
  "fullmatch r [] = nullable r"
| "fullmatch r (c # s) = fullmatch (deriv c r) s"

subsection \<open>Correctness of the matcher\<close>

lemma Nil_in_conc [simp]: "[] \<in> conc A B \<longleftrightarrow> [] \<in> A \<and> [] \<in> B"
  by (auto simp: conc_def)

lemma Nil_in_lpow: "[] \<in> lpow A n \<longleftrightarrow> n = 0 \<or> [] \<in> A"
  by (induction n) auto

lemma nullable_lang: "nullable r \<longleftrightarrow> [] \<in> lang r"
  by (induction r) (auto simp: Nil_in_lpow Suc_le_eq)

lemma Cons_in_conc:
  "c # s \<in> conc A B \<longleftrightarrow> (s \<in> conc {u. c # u \<in> A} B) \<or> ([] \<in> A \<and> c # s \<in> B)"
proof
  assume "c # s \<in> conc A B"
  then obtain u v where uv: "c # s = u @ v" "u \<in> A" "v \<in> B" by (auto simp: conc_def)
  then show "(s \<in> conc {u. c # u \<in> A} B) \<or> ([] \<in> A \<and> c # s \<in> B)"
    by (cases u) (auto simp: conc_def)
next
  assume "(s \<in> conc {u. c # u \<in> A} B) \<or> ([] \<in> A \<and> c # s \<in> B)"
  then show "c # s \<in> conc A B"
  proof
    assume "s \<in> conc {u. c # u \<in> A} B"
    then obtain u v where "s = u @ v" "c # u \<in> A" "v \<in> B" by (auto simp: conc_def)
    then have "c # s = (c # u) @ v" by simp
    then show ?thesis using \<open>c # u \<in> A\<close> \<open>v \<in> B\<close> unfolding conc_def by blast
  next
    assume "[] \<in> A \<and> c # s \<in> B"
    then show ?thesis unfolding conc_def by (metis (mono_tags, lifting) CollectI append_Nil)
  qed
qed

lemma conc_mono: "A \<subseteq> A' \<Longrightarrow> B \<subseteq> B' \<Longrightarrow> conc A B \<subseteq> conc A' B'"
  by (auto simp: conc_def)

lemma lpow_nullable_Suc: "[] \<in> A \<Longrightarrow> lpow A n \<subseteq> lpow A (Suc n)"
  by (auto simp: conc_def)

lemma Cons_in_lpow_Suc:
  "c # s \<in> lpow A (Suc n) \<longleftrightarrow> s \<in> conc {u. c # u \<in> A} (lpow A n)"
proof (induction n)
  case 0
  show ?case by (auto simp: conc_def)
next
  case (Suc n)
  have "c # s \<in> lpow A (Suc (Suc n)) \<longleftrightarrow>
      s \<in> conc {u. c # u \<in> A} (lpow A (Suc n)) \<or> ([] \<in> A \<and> c # s \<in> lpow A (Suc n))"
    using Cons_in_conc [of c s A "lpow A (Suc n)"] by simp
  moreover have "[] \<in> A \<and> c # s \<in> lpow A (Suc n) \<Longrightarrow> s \<in> conc {u. c # u \<in> A} (lpow A (Suc n))"
    using Suc conc_mono [OF subset_refl lpow_nullable_Suc [of A n]] by blast
  ultimately show ?case by blast
qed

lemma conc_UN: "conc A (\<Union>i\<in>I. B i) = (\<Union>i\<in>I. conc A (B i))"
  by (auto simp: conc_def)

lemma Cons_in_star: "c # s \<in> (\<Union>n. lpow A n) \<longleftrightarrow> s \<in> conc {u. c # u \<in> A} (\<Union>n. lpow A n)"
proof -
  have "c # s \<in> (\<Union>n. lpow A n) \<longleftrightarrow> (\<exists>n. c # s \<in> lpow A (Suc n))"
    by (metis (full_types) UN_iff UNIV_I insertE list.distinct(1) lpow.elims lpow.simps(1) singletonD)
  then show ?thesis by (simp only: Cons_in_lpow_Suc conc_UN UN_iff) simp
qed

lemma Cons_in_rep:
  "c # s \<in> (\<Union>k\<in>{m..n}. lpow A k) \<longleftrightarrow>
     n \<noteq> 0 \<and> m \<le> n \<and> s \<in> conc {u. c # u \<in> A} (\<Union>k\<in>{m - 1..n - 1}. lpow A k)"
proof -
  have idx: "(m \<le> Suc k \<and> Suc k \<le> n \<and> Q) \<longleftrightarrow> (n \<noteq> 0 \<and> m \<le> n \<and> k \<in> {m - 1..n - 1} \<and> Q)" for k Q
    by auto
  have "c # s \<in> (\<Union>k\<in>{m..n}. lpow A k) \<longleftrightarrow> (\<exists>k. m \<le> Suc k \<and> Suc k \<le> n \<and> c # s \<in> lpow A (Suc k))"
  proof
    assume "c # s \<in> (\<Union>k\<in>{m..n}. lpow A k)"
    then obtain k where k: "m \<le> k" "k \<le> n" "c # s \<in> lpow A k" by auto
    then obtain j where "k = Suc j" by (cases k) auto
    with k show "\<exists>k. m \<le> Suc k \<and> Suc k \<le> n \<and> c # s \<in> lpow A (Suc k)" by blast
  next
    assume "\<exists>k. m \<le> Suc k \<and> Suc k \<le> n \<and> c # s \<in> lpow A (Suc k)"
    then obtain k where "Suc k \<in> {m..n}" "c # s \<in> lpow A (Suc k)" by auto
    then show "c # s \<in> (\<Union>k\<in>{m..n}. lpow A k)" by blast
  qed
  also have "\<dots> \<longleftrightarrow> (\<exists>k. m \<le> Suc k \<and> Suc k \<le> n \<and> s \<in> conc {u. c # u \<in> A} (lpow A k))"
    by (simp only: Cons_in_lpow_Suc)
  also have "\<dots> \<longleftrightarrow> n \<noteq> 0 \<and> m \<le> n \<and> s \<in> conc {u. c # u \<in> A} (\<Union>k\<in>{m - 1..n - 1}. lpow A k)"
    unfolding conc_UN UN_iff idx by blast
  finally show ?thesis .
qed

lemma deriv_lang: "lang (deriv c r) = {s. c # s \<in> lang r}"
proof (induction r)
  case (Seq r s)
  then show ?case by (auto simp: Cons_in_conc nullable_lang)
next
  case (Star r)
  then show ?case using Cons_in_star [of c _ "lang r"] by (auto simp del: lpow.simps)
next
  case (Rep r m n)
  show ?case
  proof (cases "n = 0 \<or> n < m")
    case True
    then have "\<not> (n \<noteq> 0 \<and> m \<le> n)" by auto
    with True show ?thesis by (simp only: lang.simps deriv.simps if_True Cons_in_rep) auto
  next
    case False
    then have "n \<noteq> 0 \<and> m \<le> n" by auto
    with False Rep show ?thesis by (simp only: lang.simps deriv.simps if_False Cons_in_rep) auto
  qed
qed auto

theorem fullmatch_lang: "fullmatch r s \<longleftrightarrow> s \<in> lang r"
  by (induction s arbitrary: r) (simp_all add: nullable_lang deriv_lang)

subsection \<open>Derived forms and character classes\<close>

fun lit :: "string \<Rightarrow> rx" where
  "lit [] = Eps"
| "lit (c # s) = Seq (Cls (\<lambda>x. x = c)) (lit s)"

definition Opt :: "rx \<Rightarrow> rx" where
  "Opt r = Alt r Eps"

definition Plus :: "rx \<Rightarrow> rx" where
  "Plus r = Seq r (Star r)"

lemma lang_lit: "lang (lit s) = {s}"
  by (induction s) (auto simp: conc_def)

definition in_range :: "char \<Rightarrow> char \<Rightarrow> char \<Rightarrow> bool" where
  "in_range a b c \<longleftrightarrow> a \<le> c \<and> c \<le> b"

definition alnum :: "char \<Rightarrow> bool" where
  "alnum c \<longleftrightarrow> in_range CHR ''A'' CHR ''Z'' c \<or> in_range CHR ''a'' CHR ''z'' c \<or> is_digit c"

text \<open>\<open>[A-Za-z0-9_.-]\<close>\<close>

definition id_char :: "char \<Rightarrow> bool" where
  "id_char c \<longleftrightarrow> alnum c \<or> c = CHR ''_'' \<or> c = CHR ''.'' \<or> c = CHR ''-''"

definition hex_char :: "char \<Rightarrow> bool" where
  "hex_char c \<longleftrightarrow> is_digit c \<or> in_range CHR ''a'' CHR ''f'' c"

text \<open>\<open>[A-Za-z0-9][A-Za-z0-9_.-]*\<close> and \<open>[A-Za-z0-9][A-Za-z0-9_.-]{0,127}\<close>\<close>

definition task_id_rx :: rx where
  "task_id_rx = Seq (Cls alnum) (Star (Cls id_char))"

definition request_id_rx :: rx where
  "request_id_rx = Seq (Cls alnum) (Rep (Cls id_char) 0 127)"

text \<open>\<open>[0-9]+(?:_[0-9]+)?\<close>\<close>

definition job_id_rx :: rx where
  "job_id_rx = Seq (Plus (Cls is_digit)) (Opt (Seq (lit ''_'') (Plus (Cls is_digit))))"

text \<open>\<open>[0-9a-f]{64}\<close> and \<open>[0-9a-f]{32}\<close>\<close>

definition sha256_rx :: rx where
  "sha256_rx = Rep (Cls hex_char) 64 64"

definition hex32_rx :: rx where
  "hex32_rx = Rep (Cls hex_char) 32 32"

lemma lpow_Cls: "lpow {[c] | c. p c} n = {s. length s = n \<and> (\<forall>c\<in>set s. p c)}"
proof (induction n)
  case (Suc n)
  have "conc {[c] | c. p c} {s. length s = n \<and> (\<forall>c\<in>set s. p c)} =
      {s. length s = Suc n \<and> (\<forall>c\<in>set s. p c)}"
    by (auto simp: conc_def length_Suc_conv) (metis append_Cons append_Nil)
  with Suc show ?case by simp
qed auto

lemma fullmatch_star_Cls: "fullmatch (Star (Cls p)) s \<longleftrightarrow> (\<forall>c\<in>set s. p c)"
  by (simp add: fullmatch_lang lpow_Cls)

lemma fullmatch_rep_Cls:
  "fullmatch (Rep (Cls p) m n) s \<longleftrightarrow> m \<le> length s \<and> length s \<le> n \<and> (\<forall>c\<in>set s. p c)"
  by (simp add: fullmatch_lang lpow_Cls)

lemma fullmatch_Cls_Seq:
  "fullmatch (Seq (Cls p) r) s \<longleftrightarrow> (\<exists>c t. s = c # t \<and> p c \<and> fullmatch r t)"
proof
  show "fullmatch (Seq (Cls p) r) s \<Longrightarrow> \<exists>c t. s = c # t \<and> p c \<and> fullmatch r t"
    by (auto simp: fullmatch_lang conc_def)
next
  assume "\<exists>c t. s = c # t \<and> p c \<and> fullmatch r t"
  then obtain c t where "s = [c] @ t" "[c] \<in> {[c] | c. p c}" "t \<in> lang r"
    by (auto simp: fullmatch_lang)
  then show "fullmatch (Seq (Cls p) r) s"
    unfolding fullmatch_lang lang.simps conc_def by blast
qed

text \<open>The identifiers spelled out, without the regular expression.\<close>

lemma task_id_chars:
  "fullmatch task_id_rx s \<longleftrightarrow> (\<exists>c t. s = c # t \<and> alnum c \<and> (\<forall>x\<in>set t. id_char x))"
  by (simp only: task_id_rx_def fullmatch_Cls_Seq fullmatch_star_Cls)

lemma request_id_chars:
  "fullmatch request_id_rx s \<longleftrightarrow>
     (\<exists>c t. s = c # t \<and> alnum c \<and> length t \<le> 127 \<and> (\<forall>x\<in>set t. id_char x))"
  by (simp only: request_id_rx_def fullmatch_Cls_Seq fullmatch_rep_Cls) auto

end
