(* ===== verification/Models.thy ===== *)
theory Models
  imports Regex
begin

text \<open>
  The on-disk records of \<open>agent_farm_runtime/models.py\<close>: task and worker states, leases, tasks,
  workers, audit events and receipts, with their \<open>to_dict\<close> and \<open>from_dict\<close>. The round trip
  lemmas justify that the rest of the model keeps tasks as records where the code compares
  the dictionaries of \<open>to_dict\<close>.
\<close>

subsection \<open>States\<close>

datatype task_state = READY | RUNNING | WAITING | SUBMITTED | DONE | BLOCKED | FAILED

fun state_value :: "task_state \<Rightarrow> string" where
  "state_value READY = ''READY''"
| "state_value RUNNING = ''RUNNING''"
| "state_value WAITING = ''WAITING''"
| "state_value SUBMITTED = ''SUBMITTED''"
| "state_value DONE = ''DONE''"
| "state_value BLOCKED = ''BLOCKED''"
| "state_value FAILED = ''FAILED''"

definition all_states :: "task_state list" where
  "all_states = [READY, RUNNING, WAITING, SUBMITTED, DONE, BLOCKED, FAILED]"

text \<open>\<open>TaskState(x)\<close>: the member with that value, or \<open>ValueError\<close>.\<close>

definition state_of_value :: "json \<Rightarrow> task_state res" where
  "state_of_value j = (case find (\<lambda>s. JStr (state_value s) = j) all_states of
     Some s \<Rightarrow> Inr s | None \<Rightarrow> Inl (ValueError ''not a valid TaskState''))"

datatype worker_state = IDLE | BUSY | DEAD

fun worker_state_value :: "worker_state \<Rightarrow> string" where
  "worker_state_value IDLE = ''IDLE''"
| "worker_state_value BUSY = ''BUSY''"
| "worker_state_value DEAD = ''DEAD''"

definition worker_state_of_value :: "json \<Rightarrow> worker_state res" where
  "worker_state_of_value j = (case find (\<lambda>s. JStr (worker_state_value s) = j) [IDLE, BUSY, DEAD] of
     Some s \<Rightarrow> Inr s | None \<Rightarrow> Inl (ValueError ''not a valid WorkerState''))"

lemma all_states_complete [simp]: "s \<in> set all_states"
  by (cases s) (simp_all add: all_states_def)

lemma state_value_inject [simp]: "state_value a = state_value b \<longleftrightarrow> a = b"
  by (cases a; cases b) simp_all

lemma state_of_value_value [simp]: "state_of_value (JStr (state_value s)) = Inr s"
  by (cases s) (simp_all add: state_of_value_def all_states_def)

lemma state_of_value_Inr: "state_of_value j = Inr s \<longleftrightarrow> j = JStr (state_value s)"
proof
  show "j = JStr (state_value s) \<Longrightarrow> state_of_value j = Inr s" by simp
next
  assume "state_of_value j = Inr s"
  then show "j = JStr (state_value s)"
    by (auto simp: state_of_value_def find_Some_iff split: option.splits)
qed

lemma worker_state_of_value_value [simp]: "worker_state_of_value (JStr (worker_state_value s)) = Inr s"
  by (cases s) (simp_all add: worker_state_of_value_def)

subsection \<open>Leases\<close>

record lease =
  l_worker :: string
  l_id :: string
  l_expiry :: "string option"

text \<open>
  \<open>cls(**data)\<close> of a dataclass: every key must be a field and every field without a default
  must be present. The generated constructor does not look at the types of the values; the
  typed fields below reject a value that is not of the field's declared type.
\<close>

definition dataclass_keys :: "dict \<Rightarrow> string list \<Rightarrow> string list \<Rightarrow> bool" where
  "dataclass_keys d req opt \<longleftrightarrow>
     list_all (\<lambda>k. fmlookup d k \<noteq> None) req \<and> fset (fmdom d) \<subseteq> set (req @ opt)"

fun as_str_opt :: "json \<Rightarrow> string option res" where
  "as_str_opt JNull = Inr None"
| "as_str_opt (JStr s) = Inr (Some s)"
| "as_str_opt j = Inl TypeError"

lemma as_str_opt_jopt [simp]: "as_str_opt (jopt x) = Inr x"
  by (cases x) auto

definition lease_to_dict :: "lease \<Rightarrow> dict" where
  "lease_to_dict l = obj [(''worker_id'', JStr (l_worker l)), (''lease_id'', JStr (l_id l)),
     (''expiry'', jopt (l_expiry l))]"

definition lease_from_dict :: "json \<Rightarrow> lease res" where
  "lease_from_dict j = (case j of
     JObj d \<Rightarrow>
       rbind (ensure (dataclass_keys d [''worker_id'', ''lease_id''] [''expiry'']) TypeError) (\<lambda>_.
       rbind (as_str (dget d ''worker_id'')) (\<lambda>w.
       rbind (as_str (dget d ''lease_id'')) (\<lambda>i.
       rbind (as_str_opt (dget d ''expiry'')) (\<lambda>e.
       Inr \<lparr>l_worker = w, l_id = i, l_expiry = e\<rparr>))))
   | _ \<Rightarrow> Inl TypeError)"

lemma lease_roundtrip [simp]: "lease_from_dict (JObj (lease_to_dict l)) = Inr l"
  by (simp add: lease_from_dict_def lease_to_dict_def dataclass_keys_def)

subsection \<open>Tasks\<close>

record task =
  t_id :: string
  t_objective :: string
  t_deliverable :: string
  t_acceptance :: string
  t_state :: task_state
  t_lease :: "lease option"
  t_meta :: dict

text \<open>\<open>Task(id, objective, deliverable, acceptance, metadata=m)\<close> with the dataclass defaults.\<close>

definition new_task :: "string \<Rightarrow> string \<Rightarrow> string \<Rightarrow> string \<Rightarrow> dict \<Rightarrow> task" where
  "new_task i ob dl ac m = \<lparr>t_id = i, t_objective = ob, t_deliverable = dl, t_acceptance = ac,
     t_state = READY, t_lease = None, t_meta = m\<rparr>"

definition task_to_dict :: "task \<Rightarrow> dict" where
  "task_to_dict t = obj [(''id'', JStr (t_id t)), (''objective'', JStr (t_objective t)),
     (''deliverable'', JStr (t_deliverable t)), (''acceptance'', JStr (t_acceptance t)),
     (''state'', JStr (state_value (t_state t))),
     (''lease'', (case t_lease t of None \<Rightarrow> JNull | Some l \<Rightarrow> JObj (lease_to_dict l))),
     (''metadata'', JObj (t_meta t))]"

definition task_from_dict :: "json \<Rightarrow> task res" where
  "task_from_dict j = (case j of
     JObj d \<Rightarrow>
       rbind (dindex d ''state'') (\<lambda>sj.
       rbind (state_of_value sj) (\<lambda>st.
       rbind (case dget d ''lease'' of JNull \<Rightarrow> Inr None
              | lj \<Rightarrow> rbind (lease_from_dict lj) (\<lambda>l. Inr (Some l))) (\<lambda>ls.
       rbind (ensure (dataclass_keys d [''id'', ''objective'', ''deliverable'', ''acceptance'']
                 [''state'', ''lease'', ''metadata'']) TypeError) (\<lambda>_.
       rbind (as_str (dget d ''id'')) (\<lambda>i.
       rbind (as_str (dget d ''objective'')) (\<lambda>ob.
       rbind (as_str (dget d ''deliverable'')) (\<lambda>dl.
       rbind (as_str (dget d ''acceptance'')) (\<lambda>ac.
       rbind (case dget_or d ''metadata'' (JObj fmempty) of JObj m \<Rightarrow> Inr m | _ \<Rightarrow> Inl TypeError) (\<lambda>m.
       Inr \<lparr>t_id = i, t_objective = ob, t_deliverable = dl, t_acceptance = ac,
            t_state = st, t_lease = ls, t_meta = m\<rparr>)))))))))
   | _ \<Rightarrow> Inl TypeError)"

lemma dindex_simps [simp]:
  "dindex fmempty k = Inl (KeyError k)"
  "dindex (fmupd k' v d) k = (if k' = k then Inr v else dindex d k)"
  by (simp_all add: dindex_def)

text \<open>A task survives \<open>to_dict\<close> and \<open>from_dict\<close> unchanged, whatever its state, lease and
  metadata.\<close>

theorem task_roundtrip: "task_from_dict (JObj (task_to_dict t)) = Inr t"
  by (cases "t_lease t")
    (simp_all add: task_from_dict_def task_to_dict_def dataclass_keys_def)

lemma task_to_dict_inject [simp]: "task_to_dict a = task_to_dict b \<longleftrightarrow> a = b"
proof
  assume eq: "task_to_dict a = task_to_dict b"
  have l: "lease_to_dict x = lease_to_dict y \<Longrightarrow> x = y" for x y
    by (metis lease_roundtrip sum.inject(2))
  note k = arg_cong [OF eq, of "\<lambda>d. dget d _"]
  have "t_lease a = t_lease b" using k [of "''lease''"] l
    by (auto simp: task_to_dict_def split: option.splits)
  then show "a = b"
    using k [of "''id''"] k [of "''objective''"] k [of "''deliverable''"] k [of "''acceptance''"]
      k [of "''state''"] k [of "''metadata''"]
    by (simp add: task_to_dict_def)
qed simp

text \<open>Shorthands for \<open>task.metadata.get(k)\<close> and \<open>task.metadata.get(k, v)\<close>.\<close>

abbreviation meta :: "task \<Rightarrow> string \<Rightarrow> json" where
  "meta t k \<equiv> dget (t_meta t) k"

abbreviation meta_or :: "task \<Rightarrow> string \<Rightarrow> json \<Rightarrow> json" where
  "meta_or t k v \<equiv> dget_or (t_meta t) k v"

subsection \<open>Workers\<close>

record worker =
  w_id :: string
  w_handle :: "string option"
  w_heartbeat :: "string option"
  w_lease :: "dict option"
  w_state :: worker_state

definition worker_to_dict :: "worker \<Rightarrow> dict" where
  "worker_to_dict w = obj [(''id'', JStr (w_id w)), (''session_handle'', jopt (w_handle w)),
     (''heartbeat'', jopt (w_heartbeat w)),
     (''lease'', (case w_lease w of None \<Rightarrow> JNull | Some d \<Rightarrow> JObj d)),
     (''state'', JStr (worker_state_value (w_state w)))]"

definition worker_from_dict :: "json \<Rightarrow> worker res" where
  "worker_from_dict j = (case j of
     JObj d \<Rightarrow>
       rbind (dindex d ''state'') (\<lambda>sj.
       rbind (worker_state_of_value sj) (\<lambda>st.
       rbind (ensure (dataclass_keys d [''id''] [''session_handle'', ''heartbeat'', ''lease'', ''state'']) TypeError) (\<lambda>_.
       rbind (as_str (dget d ''id'')) (\<lambda>i.
       rbind (as_str_opt (dget d ''session_handle'')) (\<lambda>h.
       rbind (as_str_opt (dget d ''heartbeat'')) (\<lambda>b.
       rbind (case dget d ''lease'' of JNull \<Rightarrow> Inr None | JObj l \<Rightarrow> Inr (Some l) | _ \<Rightarrow> Inl TypeError) (\<lambda>l.
       Inr \<lparr>w_id = i, w_handle = h, w_heartbeat = b, w_lease = l, w_state = st\<rparr>)))))))
   | _ \<Rightarrow> Inl TypeError)"

lemma worker_roundtrip: "worker_from_dict (JObj (worker_to_dict w)) = Inr w"
  by (cases "w_lease w")
    (simp_all add: worker_from_dict_def worker_to_dict_def dataclass_keys_def)

subsection \<open>Events\<close>

record event =
  e_id :: string
  e_task :: string
  e_type :: string
  e_actor :: string
  e_payload :: dict
  e_ts :: string

definition event_to_dict :: "event \<Rightarrow> dict" where
  "event_to_dict e = obj [(''id'', JStr (e_id e)), (''task_id'', JStr (e_task e)),
     (''type'', JStr (e_type e)), (''actor'', JStr (e_actor e)),
     (''payload'', JObj (e_payload e)), (''ts'', JStr (e_ts e))]"

text \<open>\<open>Event(**data)\<close>, as the recovery code builds it from a stored record.\<close>

definition event_from_dict :: "json \<Rightarrow> event res" where
  "event_from_dict j = (case j of
     JObj d \<Rightarrow>
       rbind (ensure (dataclass_keys d [''id'', ''task_id'', ''type'', ''actor'', ''payload'', ''ts''] []) TypeError) (\<lambda>_.
       rbind (as_str (dget d ''id'')) (\<lambda>i.
       rbind (as_str (dget d ''task_id'')) (\<lambda>t.
       rbind (as_str (dget d ''type'')) (\<lambda>y.
       rbind (as_str (dget d ''actor'')) (\<lambda>a.
       rbind (case dget d ''payload'' of JObj p \<Rightarrow> Inr p | _ \<Rightarrow> Inl TypeError) (\<lambda>p.
       rbind (as_str (dget d ''ts'')) (\<lambda>ts.
       Inr \<lparr>e_id = i, e_task = t, e_type = y, e_actor = a, e_payload = p, e_ts = ts\<rparr>)))))))
   | _ \<Rightarrow> Inl TypeError)"

lemma event_roundtrip [simp]: "event_from_dict (JObj (event_to_dict e)) = Inr e"
  by (simp add: event_from_dict_def event_to_dict_def dataclass_keys_def)

subsection \<open>Receipts\<close>

datatype receipt_status = R_RUNNING | R_AWAITING | R_SUBMITTED | R_FAILED

fun receipt_value :: "receipt_status \<Rightarrow> string" where
  "receipt_value R_RUNNING = ''RUNNING''"
| "receipt_value R_AWAITING = ''AWAITING''"
| "receipt_value R_SUBMITTED = ''SUBMITTED''"
| "receipt_value R_FAILED = ''FAILED''"

definition receipt_status_of_value :: "json \<Rightarrow> receipt_status res" where
  "receipt_status_of_value j =
     (case find (\<lambda>s. JStr (receipt_value s) = j) [R_RUNNING, R_AWAITING, R_SUBMITTED, R_FAILED] of
       Some s \<Rightarrow> Inr s | None \<Rightarrow> Inl (ValueError ''not a valid ReceiptStatus''))"

lemma receipt_status_of_value_value [simp]: "receipt_status_of_value (JStr (receipt_value s)) = Inr s"
  by (cases s) (simp_all add: receipt_status_of_value_def)

text \<open>
  A receipt is written by the worker, so nothing but its status has been checked: the other
  fields are JSON values.
\<close>

record receipt =
  r_worker :: json
  r_task :: json
  r_lease :: json
  r_status :: receipt_status
  r_ts :: json
  r_note :: json
  r_waiting_on :: json
  r_rotation :: json
  r_checkpoint :: json

definition receipt_required :: "string list" where
  "receipt_required = [''worker_id'', ''task_id'', ''lease_id'', ''status'', ''ts'']"

definition receipt_optional :: "string list" where
  "receipt_optional = [''note'', ''waiting_on'', ''rotation_id'', ''checkpoint'']"

definition receipt_to_dict :: "receipt \<Rightarrow> dict" where
  "receipt_to_dict r = obj [(''worker_id'', r_worker r), (''task_id'', r_task r),
     (''lease_id'', r_lease r), (''status'', JStr (receipt_value (r_status r))), (''ts'', r_ts r),
     (''note'', r_note r), (''waiting_on'', r_waiting_on r), (''rotation_id'', r_rotation r),
     (''checkpoint'', r_checkpoint r)]"

definition receipt_from_dict :: "json \<Rightarrow> receipt res" where
  "receipt_from_dict j = (case j of
     JObj d \<Rightarrow>
       rbind (dindex d ''status'') (\<lambda>sj.
       rbind (receipt_status_of_value sj) (\<lambda>st.
       rbind (ensure (dataclass_keys d receipt_required receipt_optional) TypeError) (\<lambda>_.
       Inr \<lparr>r_worker = dget d ''worker_id'', r_task = dget d ''task_id'', r_lease = dget d ''lease_id'',
            r_status = st, r_ts = dget d ''ts'', r_note = dget_or d ''note'' (JStr []),
            r_waiting_on = dget d ''waiting_on'', r_rotation = dget d ''rotation_id'',
            r_checkpoint = dget d ''checkpoint''\<rparr>)))
   | _ \<Rightarrow> Inl TypeError)"

lemma receipt_roundtrip: "receipt_from_dict (JObj (receipt_to_dict r)) = Inr r"
  by (simp add: receipt_from_dict_def receipt_to_dict_def dataclass_keys_def
      receipt_required_def receipt_optional_def)

text \<open>
  A receipt with only the required fields parses, with the defaults: what an older helper of
  the same protocol writes stays valid (\<open>protocol/__init__.py\<close>).
\<close>

lemma receipt_required_suffices:
  "receipt_from_dict (JObj (obj [(''worker_id'', w), (''task_id'', t), (''lease_id'', l),
      (''status'', JStr (receipt_value st)), (''ts'', ts)])) =
   Inr \<lparr>r_worker = w, r_task = t, r_lease = l, r_status = st, r_ts = ts, r_note = JStr [],
        r_waiting_on = JNull, r_rotation = JNull, r_checkpoint = JNull\<rparr>"
  by (simp add: receipt_from_dict_def dataclass_keys_def receipt_required_def receipt_optional_def)

end
