(* ===== verification/Transitions.thy ===== *)
theory Transitions
  imports Models
begin

text \<open>
  \<open>agent_farm_runtime/transitions.py\<close>: the legal task transitions, their validation and the
  pure functions that acquire and rotate leases; then the life of a task under any sequence of these calls.
\<close>

subsection \<open>The transition table\<close>

fun legal_transitions :: "task_state \<Rightarrow> task_state list" where
  "legal_transitions READY = [RUNNING, FAILED]"
| "legal_transitions RUNNING = [WAITING, SUBMITTED, BLOCKED, FAILED]"
| "legal_transitions WAITING = [RUNNING, BLOCKED, FAILED]"
| "legal_transitions SUBMITTED = [RUNNING, DONE, FAILED]"
| "legal_transitions BLOCKED = [READY, RUNNING, FAILED]"
| "legal_transitions DONE = []"
| "legal_transitions FAILED = []"

definition execution_scoped :: "task \<Rightarrow> bool" where
  "execution_scoped t \<longleftrightarrow> t_state t = RUNNING \<or> t_state t = WAITING"

definition validate_transition ::
    "task \<Rightarrow> task_state \<Rightarrow> string option \<Rightarrow> bool \<Rightarrow> unit res" where
  "validate_transition t target lid accepted =
     rbind (ensure (target \<in> set (legal_transitions (t_state t)))
              (TransitionError ''illegal task transition'')) (\<lambda>_.
     rbind (case t_lease t of
              Some l \<Rightarrow> ensure (execution_scoped t \<longrightarrow> lid = Some (l_id l))
                         (TransitionError ''stale or missing lease id'')
            | None \<Rightarrow> Inr ()) (\<lambda>_.
     ensure (target = DONE \<longrightarrow> accepted) (TransitionError ''DONE requires recorded acceptance'')))"

text \<open>The \<open>new_lease\<close> argument: \<open>...\<close> (keep the task's lease) or a lease or None.\<close>

datatype lease_arg = Keep | Put "lease option"

fun lease_after :: "lease option \<Rightarrow> lease_arg \<Rightarrow> lease option" where
  "lease_after l Keep = l"
| "lease_after l (Put l') = l'"

definition transition_task ::
    "task \<Rightarrow> task_state \<Rightarrow> string option \<Rightarrow> bool \<Rightarrow> dict \<Rightarrow> lease_arg \<Rightarrow> task res" where
  "transition_task t target lid accepted patch nl =
     rbind (validate_transition t target lid accepted) (\<lambda>_.
     let m = t_meta t ++\<^sub>f patch in
     rbind (ensure (target = DONE \<longrightarrow> truthy (dget m ''acceptance_receipt''))
              (TransitionError ''DONE requires nonempty acceptance_receipt evidence, not only a boolean'')) (\<lambda>_.
     Inr (t\<lparr>t_state := target, t_meta := m, t_lease := lease_after (t_lease t) nl\<rparr>)))"

subsection \<open>Leases\<close>

definition acquire_lease :: "task \<Rightarrow> lease \<Rightarrow> dict \<Rightarrow> task res" where
  "acquire_lease t l patch =
     (case t_lease t of
        Some l' \<Rightarrow> Inl (LeaseError ''already leased; rotate off the dead holder before re-acquiring'')
      | None \<Rightarrow> Inr (t\<lparr>t_lease := Some l, t_meta := t_meta t ++\<^sub>f patch\<rparr>))"

definition rotate_lease :: "task \<Rightarrow> string \<Rightarrow> string \<Rightarrow> task res" where
  "rotate_lease t dead reason =
     rbind (ensure (reason \<noteq> []) (LeaseError ''rotate_lease requires a reason establishing death'')) (\<lambda>_.
     case t_lease t of
       None \<Rightarrow> Inl (LeaseError ''holds no lease to rotate'')
     | Some l \<Rightarrow>
         rbind (ensure (l_worker l = dead)
                  (LeaseError ''refusing to rotate lease: never rotate away from a possibly-live worker'')) (\<lambda>_.
         Inr (t\<lparr>t_lease := None\<rparr>)))"

subsection \<open>What a successful transition means\<close>

lemma transition_task_Inr_iff:
  "transition_task t target lid accepted patch nl = Inr t' \<longleftrightarrow>
     target \<in> set (legal_transitions (t_state t)) \<and>
     (\<forall>l. t_lease t = Some l \<longrightarrow> execution_scoped t \<longrightarrow> lid = Some (l_id l)) \<and>
     (target = DONE \<longrightarrow> accepted \<and> truthy (dget (t_meta t ++\<^sub>f patch) ''acceptance_receipt'')) \<and>
     t' = t\<lparr>t_state := target, t_meta := t_meta t ++\<^sub>f patch, t_lease := lease_after (t_lease t) nl\<rparr>"
  by (auto simp: transition_task_def validate_transition_def Let_def rbind_Inr_iff split: option.splits)

lemma transition_task_frame:
  assumes "transition_task t target lid accepted patch nl = Inr t'"
  shows "t_id t' = t_id t" "t_objective t' = t_objective t" "t_deliverable t' = t_deliverable t"
    "t_acceptance t' = t_acceptance t" "t_state t' = target"
    "t_meta t' = t_meta t ++\<^sub>f patch" "t_lease t' = lease_after (t_lease t) nl"
  using assms by (auto simp: transition_task_Inr_iff)

text \<open>A stale or missing lease id is refused, whatever the target.\<close>

lemma transition_stale_lease:
  assumes "t_lease t = Some l" and "execution_scoped t" and "lid \<noteq> Some (l_id l)"
  shows "transition_task t target lid accepted patch nl \<noteq> Inr t'"
  using assms by (auto simp: transition_task_Inr_iff)

lemma acquire_lease_Inr_iff:
  "acquire_lease t l patch = Inr t' \<longleftrightarrow>
     t_lease t = None \<and> t' = t\<lparr>t_lease := Some l, t_meta := t_meta t ++\<^sub>f patch\<rparr>"
  by (auto simp: acquire_lease_def split: option.splits)

lemma rotate_lease_Inr_iff:
  "rotate_lease t dead reason = Inr t' \<longleftrightarrow>
     reason \<noteq> [] \<and> (\<exists>l. t_lease t = Some l \<and> l_worker l = dead) \<and> t' = t\<lparr>t_lease := None\<rparr>"
  by (auto simp: rotate_lease_def rbind_Inr_iff split: option.splits)

text \<open>Rotation off the holder followed by an acquisition replaces the lease, and only then.\<close>

lemma rotate_then_acquire:
  "rbind (rotate_lease t dead reason) (\<lambda>u. acquire_lease u l patch) = Inr t' \<longleftrightarrow>
     reason \<noteq> [] \<and> (\<exists>h. t_lease t = Some h \<and> l_worker h = dead) \<and>
     t' = t\<lparr>t_lease := Some l, t_meta := t_meta t ++\<^sub>f patch\<rparr>"
  by (auto simp: rbind_Inr_iff rotate_lease_Inr_iff acquire_lease_Inr_iff)

subsection \<open>The life of a task\<close>

text \<open>The states a task can pass through, one legal transition at a time.\<close>

inductive state_path :: "task_state \<Rightarrow> task_state \<Rightarrow> bool" where
  here: "state_path s s"
| there: "state_path s t \<Longrightarrow> u \<in> set (legal_transitions t) \<Longrightarrow> state_path s u"

definition terminal_state :: "task_state \<Rightarrow> bool" where
  "terminal_state s \<longleftrightarrow> s = DONE \<or> s = FAILED"

lemma terminal_no_transition: "terminal_state s \<longleftrightarrow> legal_transitions s = []"
  by (cases s) (auto simp: terminal_state_def)

lemma terminal_absorbing: "state_path s t \<Longrightarrow> terminal_state s \<Longrightarrow> t = s"
  by (induction rule: state_path.induct) (auto simp: terminal_no_transition)

lemma state_path_trans: "state_path t u \<Longrightarrow> state_path s t \<Longrightarrow> state_path s u"
  by (induction rule: state_path.induct) (auto intro: state_path.there)

lemma into_DONE: "DONE \<in> set (legal_transitions s) \<Longrightarrow> s = SUBMITTED"
  by (cases s) auto

lemma into_SUBMITTED: "SUBMITTED \<in> set (legal_transitions s) \<Longrightarrow> s = RUNNING"
  by (cases s) auto

text \<open>Every state that is not terminal can still fail, and can still be accepted.\<close>

lemma failed_reachable: "\<not> terminal_state s \<Longrightarrow> FAILED \<in> set (legal_transitions s)"
  by (cases s) (auto simp: terminal_state_def)

lemma ready_to_done: "state_path READY DONE"
proof -
  have "state_path READY RUNNING" by (rule state_path.there [OF state_path.here]) simp
  then have "state_path READY SUBMITTED" by (rule state_path.there) simp
  then show ?thesis by (rule state_path.there) simp
qed

lemma running_to_done: "state_path RUNNING DONE"
proof -
  have "state_path RUNNING SUBMITTED" by (rule state_path.there [OF state_path.here]) simp
  then show ?thesis by (rule state_path.there) simp
qed

lemma done_reachable: "\<not> terminal_state s \<Longrightarrow> state_path s DONE"
proof -
  assume "\<not> terminal_state s"
  then have "RUNNING \<in> set (legal_transitions s) \<or> s = RUNNING"
    by (cases s) (auto simp: terminal_state_def)
  then have "state_path s RUNNING"
    by (auto intro: state_path.there [OF state_path.here] state_path.here)
  then show ?thesis by (rule state_path_trans [OF running_to_done])
qed

text \<open>On every legal path, a task that reached DONE or FAILED stays there, and a task that
  has not can still reach both: no state of the table is a dead end.\<close>

theorem lifecycle_no_dead_end:
  "(terminal_state s \<longrightarrow> (state_path s t \<longleftrightarrow> t = s)) \<and>
   (\<not> terminal_state s \<longrightarrow> state_path s DONE \<and> state_path s FAILED)"
  using terminal_absorbing [of s t] done_reachable [of s] failed_reachable [of s]
  by (auto intro: state_path.here state_path.there [OF state_path.here])

text \<open>Acceptance is the only way in: a path from elsewhere to DONE ends SUBMITTED, DONE, and one
  to SUBMITTED ends RUNNING, SUBMITTED.\<close>

lemma path_to_DONE: "state_path s t \<Longrightarrow> t = DONE \<Longrightarrow> s \<noteq> DONE \<Longrightarrow> state_path s SUBMITTED"
  by (induction rule: state_path.induct) (auto dest: into_DONE)

lemma path_to_SUBMITTED: "state_path s t \<Longrightarrow> t = SUBMITTED \<Longrightarrow> s \<noteq> SUBMITTED \<Longrightarrow> state_path s RUNNING"
  by (induction rule: state_path.induct) (auto dest: into_SUBMITTED)

subsection \<open>Histories of a task\<close>

text \<open>The calls a caller can make on a task, in any order and with any arguments. A call that is refused
  leaves the task as it was.\<close>

datatype task_call =
    Transition task_state "string option" bool dict lease_arg
  | Acquire lease dict
  | Rotate string string

fun perform :: "task \<Rightarrow> task_call \<Rightarrow> task res" where
  "perform t (Transition target lid accepted patch nl) = transition_task t target lid accepted patch nl"
| "perform t (Acquire l patch) = acquire_lease t l patch"
| "perform t (Rotate dead reason) = rotate_lease t dead reason"

definition after_call :: "task \<Rightarrow> task_call \<Rightarrow> task" where
  "after_call t c = (case perform t c of Inl e \<Rightarrow> t | Inr u \<Rightarrow> u)"

definition lived :: "task \<Rightarrow> task_call list \<Rightarrow> task" where
  "lived t cs = foldl after_call t cs"

lemma lived_simps [simp]:
  "lived t [] = t"
  "lived t (c # cs) = lived (after_call t c) cs"
  "lived t (cs @ ds) = lived (lived t cs) ds"
  by (simp_all add: lived_def)

text \<open>A call that names the lease: a transition that presents its id, or a rotation off its holder.\<close>

fun names_lease :: "lease \<Rightarrow> task_call \<Rightarrow> bool" where
  "names_lease l (Transition target lid accepted patch nl) \<longleftrightarrow> lid = Some (l_id l)"
| "names_lease l (Acquire l' patch) \<longleftrightarrow> False"
| "names_lease l (Rotate dead reason) \<longleftrightarrow> dead = l_worker l"

lemma after_call_fenced:
  assumes "t_lease t = Some l" and "t_state t \<in> {RUNNING, WAITING}" and "\<not> names_lease l c"
  shows "after_call t c = t"
  using assms
  by (cases c) (auto simp: after_call_def transition_task_Inr_iff execution_scoped_def acquire_lease_Inr_iff
    rotate_lease_Inr_iff split: sum.split)

lemma lived_fenced:
  assumes "t_lease t = Some l" and "t_state t \<in> {RUNNING, WAITING}" and "\<forall>c\<in>set cs. \<not> names_lease l c"
  shows "lived t cs = t"
  using assms by (induction cs) (auto simp: after_call_fenced)

lemma after_call_state:
  "t_state (after_call t c) = t_state t \<or>
   (\<exists>lid acc p nl. c = Transition (t_state (after_call t c)) lid acc p nl \<and>
      transition_task t (t_state (after_call t c)) lid acc p nl = Inr (after_call t c))"
  by (cases c)
    (auto simp: after_call_def acquire_lease_Inr_iff rotate_lease_Inr_iff transition_task_frame split: sum.split)

lemma lived_ended: "t_state t \<in> {DONE, FAILED} \<Longrightarrow> t_state (lived t cs) = t_state t"
proof (induction cs arbitrary: t)
  case (Cons c cs)
  then have "t_state (after_call t c) = t_state t"
    using after_call_state [of t c] by (auto simp: transition_task_Inr_iff)
  then show ?case using Cons by simp
qed simp

text \<open>How a task came to be SUBMITTED: it was RUNNING, the call named its lease, and it has been SUBMITTED since.\<close>

definition submitted_since :: "task \<Rightarrow> task_call list \<Rightarrow> task_call list \<Rightarrow> bool" where
  "submitted_since t as bs \<longleftrightarrow> (\<exists>lid acc p nl bs'. bs = Transition SUBMITTED lid acc p nl # bs' \<and>
     t_state (lived t as) = RUNNING \<and>
     (\<forall>l. t_lease (lived t as) = Some l \<longrightarrow> lid = Some (l_id l)) \<and>
     (\<forall>k. 0 < k \<longrightarrow> t_state (lived t (as @ take k bs)) = SUBMITTED))"

lemma submitted_history:
  assumes "t_state t = READY" and "t_state (lived t cs) = SUBMITTED"
  obtains as bs where "cs = as @ bs" "submitted_since t as bs"
  using assms(2)
proof (induction cs arbitrary: thesis rule: rev_induct)
  case Nil
  then show ?case using assms(1) by simp
next
  case (snoc c cs)
  show ?case
  proof (cases "t_state (lived t cs) = SUBMITTED")
    case True
    then obtain as bs where ih: "cs = as @ bs" "submitted_since t as bs" using snoc.IH by blast
    moreover have "submitted_since t as (bs @ [c])"
      using ih snoc.prems(2) by (auto simp: submitted_since_def take_Cons' take_append)
    ultimately show ?thesis using snoc.prems(1) [of as "bs @ [c]"] by simp
  next
    case False
    then obtain lid acc p nl where c: "c = Transition SUBMITTED lid acc p nl"
      "transition_task (lived t cs) SUBMITTED lid acc p nl = Inr (after_call (lived t cs) c)"
      using after_call_state [of "lived t cs" c] snoc.prems(2) by auto
    then have "t_state (lived t cs) = RUNNING" "\<forall>l. t_lease (lived t cs) = Some l \<longrightarrow> lid = Some (l_id l)"
      by (auto simp: transition_task_Inr_iff execution_scoped_def dest: into_SUBMITTED)
    then have "submitted_since t cs [c]"
      using c(1) snoc.prems(2) by (auto simp: submitted_since_def take_Cons')
    then show ?thesis using snoc.prems(1) [of cs "[c]"] by simp
  qed
qed

lemma done_history:
  assumes "t_state t = READY" and "t_state (lived t cs) = DONE"
  obtains as bs lid p nl ds where "cs = as @ bs @ Transition DONE lid True p nl # ds" "submitted_since t as bs"
    "t_state (lived t (as @ bs @ [Transition DONE lid True p nl])) = DONE"
    "truthy (meta (lived t (as @ bs @ [Transition DONE lid True p nl])) ''acceptance_receipt'')"
  using assms(2)
proof (induction cs arbitrary: thesis rule: rev_induct)
  case Nil
  then show ?case using assms(1) by simp
next
  case (snoc c cs)
  show ?case
  proof (cases "t_state (lived t cs) = DONE")
    case True
    then obtain as bs lid p nl ds where "cs = as @ bs @ Transition DONE lid True p nl # ds" "submitted_since t as bs"
      "t_state (lived t (as @ bs @ [Transition DONE lid True p nl])) = DONE"
      "truthy (meta (lived t (as @ bs @ [Transition DONE lid True p nl])) ''acceptance_receipt'')"
      using snoc.IH by blast
    then show ?thesis using snoc.prems(1) [of as bs lid p nl "ds @ [c]"] by simp
  next
    case False
    then obtain lid acc p nl where c: "c = Transition DONE lid acc p nl"
      "transition_task (lived t cs) DONE lid acc p nl = Inr (after_call (lived t cs) c)"
      using after_call_state [of "lived t cs" c] snoc.prems(2) by auto
    then have s: "t_state (lived t cs) = SUBMITTED" "acc" "truthy (meta (after_call (lived t cs) c) ''acceptance_receipt'')"
      by (auto simp: transition_task_Inr_iff dest: into_DONE)
    obtain as bs where "cs = as @ bs" "submitted_since t as bs" by (rule submitted_history [OF assms(1) s(1)])
    then show ?thesis using snoc.prems(1) [of as bs lid p nl "[]"] snoc.prems(2) c(1) s(2,3) by simp
  qed
qed

text \<open>The diagram of the states, as the set of its arrows.\<close>

definition arrows :: "(task_state \<times> task_state) set" where
  "arrows = {(READY, RUNNING), (RUNNING, WAITING), (WAITING, RUNNING), (RUNNING, SUBMITTED), (SUBMITTED, RUNNING),
     (SUBMITTED, DONE), (RUNNING, BLOCKED), (WAITING, BLOCKED), (BLOCKED, READY), (BLOCKED, RUNNING)} \<union>
     {READY, RUNNING, WAITING, SUBMITTED, BLOCKED} \<times> {FAILED}"

lemma after_call_arrow: "t_state (after_call t c) = t_state t \<or> (t_state t, t_state (after_call t c)) \<in> arrows"
proof (cases "t_state (after_call t c) = t_state t")
  case False
  then have "t_state (after_call t c) \<in> set (legal_transitions (t_state t))"
    using after_call_state [of t c] by (auto simp: transition_task_Inr_iff)
  then show ?thesis by (cases "t_state t") (auto simp: arrows_def)
qed simp

lemma arrow_taken:
  assumes "(t_state v, st) \<in> arrows"
  shows "\<exists>c. t_state (after_call v c) = st"
proof -
  let ?p = "fmupd ''acceptance_receipt'' (JBool True) fmempty"
  have "st \<in> set (legal_transitions (t_state v))"
    using assms by (cases "t_state v") (auto simp: arrows_def)
  then have "\<exists>u. transition_task v st (map_option l_id (t_lease v)) True ?p Keep = Inr u"
    by (simp add: transition_task_Inr_iff dget_def)
  then obtain u where u: "transition_task v st (map_option l_id (t_lease v)) True ?p Keep = Inr u" ..
  then have "after_call v (Transition st (map_option l_id (t_lease v)) True ?p Keep) = u"
    by (simp add: after_call_def)
  then show ?thesis using transition_task_frame(5) [OF u] by blast
qed

text \<open>C21: the life of a task, whatever calls are made on it in whatever order. Its state moves only along
  the arrows of the diagram, each of which some call can take, and DONE and FAILED are never left. A task that is DONE got there
  from SUBMITTED by a call that recorded acceptance, with nonempty evidence in its metadata, and
  it had stayed SUBMITTED since it was submitted while RUNNING, by a call that presented the id
  of its lease if it held one. And a lease fences: while a task is RUNNING or WAITING under a
  lease, no sequence of calls that neither present its id nor name its holder as dead changes
  anything of the task.\<close>

theorem transition_fenced:
  assumes "t_state t = READY"
  shows "(t_state (lived t (cs @ [c])) = t_state (lived t cs) \<or> (t_state (lived t cs), t_state (lived t (cs @ [c]))) \<in> arrows) \<and>
    ((t_state (lived t cs), st) \<in> arrows \<longrightarrow> (\<exists>b. t_state (lived t (cs @ [b])) = st)) \<and>
    (t_state (lived t cs) \<in> {DONE, FAILED} \<longrightarrow> t_state (lived t (cs @ ds)) = t_state (lived t cs)) \<and>
    (t_state (lived t cs) = DONE \<longrightarrow> (\<exists>as bs lid p nl es. cs = as @ bs @ Transition DONE lid True p nl # es \<and>
       submitted_since t as bs \<and>
       t_state (lived t (as @ bs @ [Transition DONE lid True p nl])) = DONE \<and>
       truthy (meta (lived t (as @ bs @ [Transition DONE lid True p nl])) ''acceptance_receipt''))) \<and>
    (\<forall>l. t_lease (lived t cs) = Some l \<and> t_state (lived t cs) \<in> {RUNNING, WAITING} \<and> (\<forall>b\<in>set ds. \<not> names_lease l b) \<longrightarrow>
       lived t (cs @ ds) = lived t cs)"
proof (intro conjI impI allI)
  show "t_state (lived t (cs @ [c])) = t_state (lived t cs) \<or> (t_state (lived t cs), t_state (lived t (cs @ [c]))) \<in> arrows"
    using after_call_arrow [of "lived t cs" c] by simp
  show "\<exists>as bs lid p nl es. cs = as @ bs @ Transition DONE lid True p nl # es \<and> submitted_since t as bs \<and>
      t_state (lived t (as @ bs @ [Transition DONE lid True p nl])) = DONE \<and>
      truthy (meta (lived t (as @ bs @ [Transition DONE lid True p nl])) ''acceptance_receipt'')"
    if "t_state (lived t cs) = DONE"
    by (rule done_history [OF assms that]) blast
qed (use arrow_taken [of "lived t cs" st] lived_ended [of "lived t cs" ds] lived_fenced [of "lived t cs" _ ds] in auto)

end
