(* ===== verification/Farm.thy ===== *)
theory Farm
  imports Transitions
begin

text \<open>
  The durable state of a farm (the files under \<open>.farm/\<close>) and what the runtime reads from its
  host: random identifiers, the clock, digests, paths and files outside \<open>.farm/\<close>, and the
  identity of the running build. The host is a parameter of every operation.
\<close>

subsection \<open>The host\<close>

text \<open>
  \<open>env_uuid n\<close> and \<open>env_clock n\<close> are the \<open>n\<close>th values drawn from \<open>uuid.uuid4().hex\<close> and
  from the clock (microseconds since the epoch); \<open>env_iso\<close> and \<open>env_parse_time\<close> are
  \<open>isoformat()\<close> and \<open>fromisoformat()\<close>; \<open>env_sha256\<close> hashes bytes, \<open>env_encode\<close> and
  \<open>env_decode\<close> are the UTF-8 codec, \<open>env_json_sha\<close> the file a
  dictionary is written to and \<open>env_digest\<close> its compact canonical form; \<open>env_read\<close> is
  \<open>read_bytes\<close> of a resolved path; \<open>env_notes\<close> lists the \<open>MASTER_*.md\<close> files of a directory
  in name order with their contents, \<open>None\<close> for an unreadable one; \<open>env_identity\<close> is
  \<open>provenance.runtime_identity()\<close>.
\<close>

record env =
  env_uuid :: "nat \<Rightarrow> string"
  env_clock :: "nat \<Rightarrow> int"
  env_iso :: "int \<Rightarrow> string"
  env_parse_time :: "string \<Rightarrow> int option"
  env_sha256 :: "string \<Rightarrow> string"
  env_encode :: "string \<Rightarrow> string"
  env_decode :: "string \<Rightarrow> string option"
  env_json_sha :: "dict \<Rightarrow> string"
  env_digest :: "dict \<Rightarrow> string"
  env_resolve :: "string \<Rightarrow> string"
  env_read :: "string \<Rightarrow> string res"
  env_exists :: "string \<Rightarrow> bool"
  env_is_dir :: "string \<Rightarrow> bool"
  env_notes :: "string \<Rightarrow> (string \<times> string option) list"
  env_identity :: dict

subsection \<open>The files\<close>

text \<open>
  \<open>pending-task-commit.json\<close> holds a prepared commit; \<open>pending-recovery.json\<close> an offline
  recovery with its reviewed plan. \<open>f_log_damaged\<close> stands for an audit log with an incomplete
  or unreadable record, which \<open>EventLog.ids\<close> refuses.
\<close>

record txn =
  x_before :: "task option"
  x_after :: task
  x_event :: event

record recovery_plan =
  p_root :: string
  p_before :: dict
  p_target :: dict
  p_tasks :: "task list"

record recovery_txn =
  v_id :: string
  v_plan :: recovery_plan
  v_changes :: "(string \<times> task) list"
  v_after :: dict
  v_actor :: string
  v_evidence :: dict
  v_ts :: string

record farm =
  f_n :: nat
  f_root :: string
  f_tasks :: "(string, task) fmap"
  f_workers :: "(string, worker) fmap"
  f_log :: "event list"
  f_log_damaged :: bool
  f_journal :: "txn option"
  f_recovery :: "recovery_txn option"
  f_deploy :: "json option"
  f_handoffs :: "(string, dict) fmap"
  f_recoveries :: "(string, recovery_txn) fmap"

text \<open>Drawing an identifier or reading the clock.\<close>

definition fresh_uuid :: "env \<Rightarrow> ('z farm_scheme, string) cmd" where
  "fresh_uuid E = bnd (gets f_n) (\<lambda>n. seq (modify (\<lambda>s. s\<lparr>f_n := Suc n\<rparr>)) (ret (env_uuid E n)))"

definition now :: "env \<Rightarrow> ('z farm_scheme, int) cmd" where
  "now E = bnd (gets f_n) (\<lambda>n. seq (modify (\<lambda>s. s\<lparr>f_n := Suc n\<rparr>)) (ret (env_clock E n)))"

definition now_iso :: "env \<Rightarrow> ('z farm_scheme, string) cmd" where
  "now_iso E = bnd (now E) (\<lambda>t. ret (env_iso E t))"

lemma wp_fresh_uuid [wp_rules]:
  "wp (fresh_uuid E) Q s = Q (Inr (env_uuid E (f_n s))) (s\<lparr>f_n := Suc (f_n s)\<rparr>)"
  by (simp add: fresh_uuid_def wp_rules)

lemma wp_now [wp_rules]: "wp (now E) Q s = Q (Inr (env_clock E (f_n s))) (s\<lparr>f_n := Suc (f_n s)\<rparr>)"
  by (simp add: now_def wp_rules)

lemma wp_now_iso [wp_rules]:
  "wp (now_iso E) Q s = Q (Inr (env_iso E (env_clock E (f_n s)))) (s\<lparr>f_n := Suc (f_n s)\<rparr>)"
  by (simp add: now_iso_def wp_rules)

lemma draw_run_Inr [run_Inr]:
  "fresh_uuid E s = (r, s') \<longleftrightarrow> r = Inr (env_uuid E (f_n s)) \<and> s' = s\<lparr>f_n := Suc (f_n s)\<rparr>"
  "now E s = (r1, s') \<longleftrightarrow> r1 = Inr (env_clock E (f_n s)) \<and> s' = s\<lparr>f_n := Suc (f_n s)\<rparr>"
  "now_iso E s = (r, s') \<longleftrightarrow> r = Inr (env_iso E (env_clock E (f_n s))) \<and> s' = s\<lparr>f_n := Suc (f_n s)\<rparr>"
  by (auto simp: fresh_uuid_def now_def now_iso_def cmd_defs)

subsection \<open>Directories of JSON files\<close>

text \<open>
  \<open>sorted(dir.glob("*.json"))\<close>: the files by name, the name being the key with \<open>.json\<close>
  appended.
\<close>

definition file_order :: "(string, 'v) fmap \<Rightarrow> string list" where
  "file_order d = sort_key (\<lambda>k. k @ ''.json'') (sorted_list_of_fset (fmdom d))"

definition file_list :: "(string, 'v) fmap \<Rightarrow> 'v list" where
  "file_list d = map (\<lambda>k. the (fmlookup d k)) (file_order d)"

lemma set_file_order [simp]: "set (file_order d) = fset (fmdom d)"
  by (simp add: file_order_def)

lemma distinct_file_order [simp]: "distinct (file_order d)"
  by (simp add: file_order_def sorted_list_of_fset.rep_eq)

lemma set_file_list: "set (file_list d) = {v. \<exists>k. fmlookup d k = Some v}"
  by (auto simp: file_list_def fmlookup_dom_iff image_iff) (metis fmlookup_dom_iff option.sel)

lemma file_list_iff: "v \<in> set (file_list d) \<longleftrightarrow> (\<exists>k. fmlookup d k = Some v)"
  by (simp add: set_file_list)

text \<open>
  The interface the components use of a keyed directory: what is read after a write, and what
  listing it returns. The task directory and the worker registry both satisfy it.
\<close>

locale keyed_files =
  fixes get :: "'d \<Rightarrow> string \<Rightarrow> 'v option"
    and put :: "string \<Rightarrow> 'v \<Rightarrow> 'd \<Rightarrow> 'd"
    and listing :: "'d \<Rightarrow> 'v list"
  assumes get_put: "get (put k v d) k' = (if k' = k then Some v else get d k')"
    and listing_get: "v \<in> set (listing d) \<longleftrightarrow> (\<exists>k. get d k = Some v)"
begin

lemma get_put_same [simp]: "get (put k v d) k = Some v"
  by (simp add: get_put)

lemma get_put_other: "k' \<noteq> k \<Longrightarrow> get (put k v d) k' = get d k'"
  by (simp add: get_put)

lemma listing_put:
  "x \<in> set (listing (put k v d)) \<longleftrightarrow> x = v \<or> (\<exists>k'. k' \<noteq> k \<and> get d k' = Some x)"
  by (auto simp: listing_get get_put split: if_splits)

lemma listing_put_subset: "x \<in> set (listing (put k v d)) \<Longrightarrow> x = v \<or> x \<in> set (listing d)"
  by (auto simp: listing_get get_put split: if_splits)

lemma all_put: "(\<forall>x\<in>set (listing d). P x) \<Longrightarrow> P v \<Longrightarrow> (\<forall>x\<in>set (listing (put k v d)). P x)"
  by (auto dest: listing_put_subset)

end

interpretation task_dir: keyed_files "fmlookup :: (string, task) fmap \<Rightarrow> string \<Rightarrow> task option" fmupd file_list
  by unfold_locales (auto simp: file_list_iff)

interpretation worker_dir: keyed_files "fmlookup :: (string, worker) fmap \<Rightarrow> string \<Rightarrow> worker option" fmupd file_list
  by unfold_locales (auto simp: file_list_iff)

subsection \<open>The audit log\<close>

text \<open>\<open>EventLog.ids\<close>, \<open>append\<close> and \<open>sync\<close>.\<close>

definition log_ids :: "'z farm_scheme \<Rightarrow> string set res" where
  "log_ids s = rbind (ensure (\<not> f_log_damaged s) (ValueError ''audit log has an incomplete final record''))
     (\<lambda>_. Inr (e_id ` set (f_log s)))"

definition log_append :: "event \<Rightarrow> ('z farm_scheme, unit) cmd" where
  "log_append e = modify (\<lambda>s. s\<lparr>f_log := f_log s @ [e]\<rparr>)"

definition log_sync :: "('z farm_scheme, unit) cmd" where
  "log_sync = modify (\<lambda>s. s)"

text \<open>The recurring step of the recovery code: append an event unless its id is already there.\<close>

definition log_once :: "event \<Rightarrow> ('z farm_scheme, unit) cmd" where
  "log_once e = bnd (gets log_ids) (\<lambda>r. bnd (pure r) (\<lambda>ids.
     if e_id e \<notin> ids then log_append e else log_sync))"

lemma log_ids_Inr [simp]: "log_ids s = Inr ids \<longleftrightarrow> \<not> f_log_damaged s \<and> ids = e_id ` set (f_log s)"
  by (auto simp: log_ids_def rbind_Inr_iff)

lemma log_ids_Inl [simp]: "log_ids s = Inl e \<longleftrightarrow> f_log_damaged s \<and> e = ValueError ''audit log has an incomplete final record''"
  by (auto simp: log_ids_def rbind_def split: sum.splits)

definition distinct_ids :: "'z farm_scheme \<Rightarrow> bool" where
  "distinct_ids s \<longleftrightarrow> distinct (map e_id (f_log s))"

lemma log_once_distinct: "keeps distinct_ids (log_once e)"
  by (auto simp: keeps_def log_once_def log_append_def log_sync_def wp_rules distinct_ids_def)

lemma wp_log_append [wp_rules]: "wp (log_append e) Q s = Q (Inr ()) (s\<lparr>f_log := f_log s @ [e]\<rparr>)"
  by (simp add: log_append_def wp_rules)

lemma wp_log_sync [wp_rules]: "wp log_sync Q s = Q (Inr ()) s"
  by (simp add: log_sync_def wp_rules)

lemma wp_log_once [wp_rules]:
  "wp (log_once e) Q s =
     ((f_log_damaged s \<longrightarrow> Q (Inl (ValueError ''audit log has an incomplete final record'')) s) \<and>
      (\<not> f_log_damaged s \<longrightarrow>
         (e_id e \<in> e_id ` set (f_log s) \<longrightarrow> Q (Inr ()) s) \<and>
         (e_id e \<notin> e_id ` set (f_log s) \<longrightarrow> Q (Inr ()) (s\<lparr>f_log := f_log s @ [e]\<rparr>))))"
  by (auto simp: log_once_def wp_rules)

end
