(* ===== verification/Deployment.thy ===== *)
theory Deployment
  imports Farm
begin

text \<open>
  The deployment manifest and the checks every writer makes before it changes anything:
  \<open>deployment\<close>, \<open>execution_epoch\<close> and \<open>require_task_writer\<close> of \<open>turnover.py\<close> and
  \<open>require_no_pending_recovery\<close> of \<open>store.py\<close>.
\<close>

text \<open>\<open>str(x)\<close> of a JSON value, as far as an identifier check reads it: a list or an object
  starts with a bracket, which no identifier pattern accepts.\<close>

fun py_str :: "json \<Rightarrow> string" where
  "py_str JNull = ''None''"
| "py_str (JBool b) = (if b then ''True'' else ''False'')"
| "py_str (JInt i) = int_str i"
| "py_str (JFloat f) = (case f of NaN \<Rightarrow> ''nan'' | Infinite s \<Rightarrow> (if s then ''inf'' else ''-inf'') | Finite r \<Rightarrow> ''0.0'')"
| "py_str (JStr s) = s"
| "py_str (JList xs) = ''[''"
| "py_str (JObj d) = ''{''"

definition phases :: "json list" where
  "phases = [JStr ''draining'', JStr ''released'', JStr ''claimed'']"

definition valid_control :: "json \<Rightarrow> bool" where
  "valid_control c = (case c of
     JObj d \<Rightarrow> dget d ''phase'' \<in> set phases \<and>
       fullmatch request_id_rx (py_str (dget_or d ''id'' (JStr [])))
   | _ \<Rightarrow> False)"

definition deployment :: "'z farm_scheme \<Rightarrow> dict res" where
  "deployment s = (case f_deploy s of
     None \<Rightarrow> Inr fmempty
   | Some (JObj d) \<Rightarrow>
       (case fmlookup d ''handoff'' of
          None \<Rightarrow> Inr d
        | Some c \<Rightarrow> rbind (ensure (valid_control c)
            (StoreError ''invalid handoff control; preserve deployment and inspect'')) (\<lambda>_. Inr d))
   | Some j \<Rightarrow> Inl (StoreError ''invalid deployment manifest''))"

text \<open>\<open>manifest.get("handoff", {})\<close>, of a manifest that \<open>deployment\<close> accepted.\<close>

definition handoff_of :: "dict \<Rightarrow> dict" where
  "handoff_of m = (case fmlookup m ''handoff'' of Some (JObj c) \<Rightarrow> c | _ \<Rightarrow> fmempty)"

definition phase_of :: "dict \<Rightarrow> json" where
  "phase_of m = dget (handoff_of m) ''phase''"

definition execution_epoch :: "dict \<Rightarrow> json" where
  "execution_epoch m = jor (jor (dget m ''execution_epoch'') (dget m ''recovery_id'')) (JStr ''initial'')"

definition require_no_pending_recovery :: "'z farm_scheme \<Rightarrow> unit res" where
  "require_no_pending_recovery s = ensure (f_recovery s = None)
     (StoreError ''offline recovery pending: finish the recorded recovery before ordinary writes'')"

text \<open>\<open>upgrade_from_source or current["source_sha256"]\<close>\<close>

definition expected_source :: "env \<Rightarrow> string option \<Rightarrow> json" where
  "expected_source E up = jor (jopt up) (dget (env_identity E) ''source_sha256'')"

text \<open>The guards of \<open>require_task_writer\<close>, in order; the second group applies under a handoff only.\<close>

definition handoff_guards :: "env \<Rightarrow> string option \<Rightarrow> dict \<Rightarrow> (bool \<times> exn) list" where
  "handoff_guards E up m =
     [(dget m ''protocol_version'' = dget (env_identity E) ''protocol_version'',
       StoreError ''writer/deployment protocol mismatch''),
      (truthy (jopt up) \<longrightarrow> phase_of m = JStr ''claimed'',
       StoreError ''finish the handoff before a separate source upgrade''),
      (dget m ''host'' = dget (env_identity E) ''host'' \<and> dget m ''source_sha256'' = expected_source E up,
       StoreConflict ''handoff writer host/source mismatch'')]"

definition writer_guards :: "env \<Rightarrow> bool \<Rightarrow> json option \<Rightarrow> string option \<Rightarrow> dict \<Rightarrow> (bool \<times> exn) list" where
  "writer_guards E dispatch epoch up m =
     [(\<not> truthy (dget m ''pending_event''),
       StoreError ''deployment audit pending; retry handoff or reconciler startup'')] @
     (if truthy (dget m ''handoff'') then handoff_guards E up m else []) @
     [(case epoch of None \<Rightarrow> True | Some e \<Rightarrow> execution_epoch m = e,
       StoreConflict ''execution epoch changed; retire the old reconciler''),
      (phase_of m \<noteq> JStr ''released'' \<and> \<not> (dispatch \<and> phase_of m = JStr ''draining''),
       StoreConflict ''farm handoff withholds writes/dispatch; use the recorded handoff'')]"

definition require_task_writer ::
    "env \<Rightarrow> bool \<Rightarrow> json option \<Rightarrow> string option \<Rightarrow> 'z farm_scheme \<Rightarrow> dict res" where
  "require_task_writer E dispatch epoch up s =
     rbind (require_no_pending_recovery s) (\<lambda>_.
     rbind (deployment s) (\<lambda>m.
     rbind (checks (writer_guards E dispatch epoch up m)) (\<lambda>_. Inr m)))"

lemma deployment_frame:
  "f_deploy s' = f_deploy s \<Longrightarrow> deployment s' = deployment s"
  by (simp add: deployment_def)

lemma deployment_handoff_obj:
  "deployment s = Inr m \<Longrightarrow> fmlookup m ''handoff'' = Some j \<Longrightarrow> \<exists>c. j = JObj c \<and> dget c ''phase'' \<in> set phases"
  by (auto simp: deployment_def valid_control_def rbind_Inr_iff split: option.splits json.splits)

lemma phase_truthy:
  "deployment s = Inr m \<Longrightarrow> phase_of m = JStr p \<Longrightarrow> truthy (dget m ''handoff'')"
  by (auto simp: phase_of_def handoff_of_def dget_def split: option.splits json.splits)

text \<open>What a writer that got past the check knows.\<close>

lemma require_task_writer_Inr:
  assumes "require_task_writer E dispatch epoch up s = Inr m"
  shows "f_recovery s = None" "deployment s = Inr m" "\<not> truthy (dget m ''pending_event'')"
    "phase_of m \<noteq> JStr ''released''" "dispatch \<Longrightarrow> phase_of m \<noteq> JStr ''draining''"
    "epoch = Some e \<Longrightarrow> execution_epoch m = e"
    "truthy (dget m ''handoff'') \<Longrightarrow> dget m ''host'' = dget (env_identity E) ''host''"
    "truthy (dget m ''handoff'') \<Longrightarrow> dget m ''source_sha256'' = expected_source E up"
  using assms
  by (auto simp: require_task_writer_def require_no_pending_recovery_def writer_guards_def handoff_guards_def
      rbind_Inr_iff split: if_splits)

text \<open>While a recovery is pending, while a sealed release waits for its claimant and, for a
  dispatch, while the farm drains, every writer is refused.\<close>

lemma writer_refused:
  assumes "f_recovery s \<noteq> None \<or> (deployment s = Inr m \<and> (phase_of m = JStr ''released'' \<or>
      (dispatch \<and> phase_of m = JStr ''draining'')))"
  shows "\<exists>e. require_task_writer E dispatch epoch up s = Inl e"
proof (cases "require_task_writer E dispatch epoch up s")
  case (Inr m')
  with require_task_writer_Inr [OF Inr] assms show ?thesis by auto
qed simp

end
