(* ===== verification/Store.thy ===== *)
theory Store
  imports Deployment
begin

text \<open>
  \<open>store.py\<close>: the task store. A commit compares the expected snapshot with the file, checks
  the transition and the workspace reservation, advances the revision, and makes one
  journalled write of the task and its audit event, which a later writer finishes if the
  process dies in between. \<open>recover_on\<close> and \<open>commit_on\<close> are the code with its way of writing as an argument: the
  program takes writes that happen, a run that dies takes \<open>dying\<close> ones. What a recovery writes is a list of disk
  operations (\<open>recover_ops\<close>).
\<close>

subsection \<open>Identifiers and reservations\<close>

definition reserved :: "task_state \<Rightarrow> bool" where
  "reserved st \<longleftrightarrow> st \<in> {READY, RUNNING, WAITING, SUBMITTED}"

definition path_for :: "string \<Rightarrow> string res" where
  "path_for i = (if fullmatch task_id_rx i then Inr i else Inl (StoreError ''invalid task id''))"

lemma path_for_Inr [simp]: "path_for i = Inr k \<longleftrightarrow> fullmatch task_id_rx i \<and> k = i"
  by (auto simp: path_for_def)

definition workspace_key :: "env \<Rightarrow> task \<Rightarrow> string option res" where
  "workspace_key E t =
     (if \<not> truthy (meta t ''workspace'') then Inr None
      else rbind (as_str (meta t ''workspace'')) (\<lambda>p. Inr (Some (env_resolve E p))))"

lemma workspace_key_meta:
  "meta a ''workspace'' = meta b ''workspace'' \<Longrightarrow> workspace_key E a = workspace_key E b"
  by (simp add: workspace_key_def)

subsection \<open>Reading\<close>

definition store_get :: "string \<Rightarrow> 'z farm_scheme \<Rightarrow> task res" where
  "store_get i s = rbind (path_for i) (\<lambda>k. case fmlookup (f_tasks s) k of
     None \<Rightarrow> Inl (StoreError ''task not found'') | Some t \<Rightarrow> Inr t)"

definition store_list :: "'z farm_scheme \<Rightarrow> task list" where
  "store_list s = file_list (f_tasks s)"

definition registry_list :: "'z farm_scheme \<Rightarrow> worker list" where
  "registry_list s = file_list (f_workers s)"

definition put_observed :: "worker \<Rightarrow> ('z farm_scheme, unit) cmd" where
  "put_observed w = modify (\<lambda>s. s\<lparr>f_workers := fmupd (w_id w) w (f_workers s)\<rparr>)"

lemma store_get_Inr: "store_get i s = Inr t \<longleftrightarrow> fullmatch task_id_rx i \<and> fmlookup (f_tasks s) i = Some t"
  by (auto simp: store_get_def rbind_Inr_iff split: option.splits)

lemma store_list_iff: "t \<in> set (store_list s) \<longleftrightarrow> (\<exists>k. fmlookup (f_tasks s) k = Some t)"
  by (simp add: store_list_def task_dir.listing_get)

subsection \<open>The journal\<close>

datatype disk_op =
    WriteJournal txn
  | WriteTask task
  | AppendEvent event
  | SyncLog
  | DropJournal

fun apply_op :: "disk_op \<Rightarrow> 'z farm_scheme \<Rightarrow> 'z farm_scheme" where
  "apply_op (WriteJournal x) s = s\<lparr>f_journal := Some x\<rparr>"
| "apply_op (WriteTask t) s = s\<lparr>f_tasks := fmupd (t_id t) t (f_tasks s)\<rparr>"
| "apply_op (AppendEvent e) s = s\<lparr>f_log := f_log s @ [e]\<rparr>"
| "apply_op SyncLog s = s"
| "apply_op DropJournal s = s\<lparr>f_journal := None\<rparr>"

definition run_ops :: "disk_op list \<Rightarrow> 'z farm_scheme \<Rightarrow> 'z farm_scheme" where
  "run_ops ops s = fold apply_op ops s"

lemma run_ops_simps [simp]:
  "run_ops [] s = s"
  "run_ops (x # xs) s = run_ops xs (apply_op x s)"
  by (simp_all add: run_ops_def)

text \<open>\<open>TaskStore._recover_locked\<close>: check the pending journal against the files, then list its writes.\<close>

definition recover_ops :: "'z farm_scheme \<Rightarrow> disk_op list res" where
  "recover_ops s = (case f_journal s of
     None \<Rightarrow> Inr []
   | Some x \<Rightarrow>
       rbind (path_for (t_id (x_after x))) (\<lambda>k.
       rbind (ensure (fmlookup (f_tasks s) k = x_before x \<or> fmlookup (f_tasks s) k = Some (x_after x))
                (StoreConflict ''pending transaction conflicts with disk; stop writers and inspect'')) (\<lambda>_.
       rbind (log_ids s) (\<lambda>ids.
       Inr [WriteTask (x_after x),
            (if e_id (x_event x) \<notin> ids then AppendEvent (x_event x) else SyncLog),
            DropJournal]))))"

text \<open>
  The procedures that write take the write as an argument \<open>W\<close>. The program's own is
  \<open>modify \<circ> apply_op\<close>, which makes the write; \<open>dying apply_op dies\<close> is the one of a process that
  dies (or gets an error from the system) before any write that the arbitrary predicate \<open>dies\<close>
  names, and leaves the disk there. What a crash can leave is what such a run can leave.
\<close>

definition recover_on :: "(disk_op \<Rightarrow> ('z farm_scheme, unit) cmd) \<Rightarrow> ('z farm_scheme, unit) cmd" where
  "recover_on W = bnd (gets recover_ops) (\<lambda>r. bnd (pure r) (\<lambda>ops. for_each ops W))"

definition recover_locked :: "('z farm_scheme, unit) cmd" where
  "recover_locked = recover_on (\<lambda>op. modify (apply_op op))"

definition dying :: "('o \<Rightarrow> 's \<Rightarrow> 's) \<Rightarrow> ('o \<Rightarrow> 's \<Rightarrow> bool) \<Rightarrow> 'o \<Rightarrow> ('s, unit) cmd" where
  "dying ap dies op = (\<lambda>s. if dies op s then (Inl (OSError ''died before a write''), s) else (Inr (), ap op s))"

definition recover :: "env \<Rightarrow> ('z farm_scheme, unit) cmd" where
  "recover E = bnd (gets (require_task_writer E False None None)) (\<lambda>r. bnd (pure r) (\<lambda>_. recover_locked))"

lemma for_each_modify: "for_each ops (\<lambda>op. modify (ap op)) s = (Inr (), fold ap ops s)"
  by (induction ops arbitrary: s) (simp_all add: cmd_defs)

lemma recover_locked_eq:
  "recover_locked s = (case recover_ops s of Inl e \<Rightarrow> (Inl e, s) | Inr ops \<Rightarrow> (Inr (), run_ops ops s))"
  by (cases "recover_ops s") (simp_all add: recover_locked_def recover_on_def bnd_def gets_def pure_def for_each_modify run_ops_def)

lemma dying_never: "(\<And>op u. \<not> dies op u) \<Longrightarrow> dying ap dies = (\<lambda>op. modify (ap op))"
  by (simp add: dying_def modify_def fun_eq_iff)

lemma wp_dying: "wp (dying ap dies op) Q s =
    (if dies op s then Q (Inl (OSError ''died before a write'')) s else Q (Inr ()) (ap op s))"
  by (simp add: wp_def dying_def)

lemma wp_for_each_dying:
  assumes "\<And>n e. n < length ops \<Longrightarrow> \<exists>op u. dies op u \<Longrightarrow> Q (Inl e) (fold ap (take n ops) s)"
    and "Q (Inr ()) (fold ap ops s)"
  shows "wp (for_each ops (dying ap dies)) Q s"
  using assms
proof (induction ops arbitrary: s)
  case Nil
  then show ?case by (simp add: wp_ret)
next
  case (Cons op ops)
  have "Q (Inl e) s" if "dies op s" for e using Cons.prems(1) [of 0] that by auto
  moreover have "wp (for_each ops (dying ap dies)) Q (ap op s)"
    using Cons.prems(1) [of "Suc n" for n] Cons.prems(2) by (intro Cons.IH) auto
  ultimately show ?case by (simp add: wp_seq wp_dying)
qed

lemma wp_recover_locked [wp_rules]:
  "wp recover_locked Q s =
     ((\<forall>e. recover_ops s = Inl e \<longrightarrow> Q (Inl e) s) \<and>
      (\<forall>ops. recover_ops s = Inr ops \<longrightarrow> Q (Inr ()) (run_ops ops s)))"
  by (simp add: wp_def recover_locked_eq split: sum.splits)

lemma recover_ops_none [simp]: "f_journal s = None \<Longrightarrow> recover_ops s = Inr []"
  by (simp add: recover_ops_def)

lemma recover_ops_some:
  "f_journal s = Some x \<Longrightarrow> recover_ops s = Inr ops \<longleftrightarrow>
     fullmatch task_id_rx (t_id (x_after x)) \<and>
     (fmlookup (f_tasks s) (t_id (x_after x)) = x_before x \<or>
      fmlookup (f_tasks s) (t_id (x_after x)) = Some (x_after x)) \<and>
     \<not> f_log_damaged s \<and>
     ops = [WriteTask (x_after x),
            (if e_id (x_event x) \<notin> e_id ` set (f_log s) then AppendEvent (x_event x) else SyncLog),
            DropJournal]"
  by (auto simp: recover_ops_def rbind_Inr_iff)

text \<open>The state a recovery of a valid journal ends in.\<close>

definition settled :: "txn \<Rightarrow> 'z farm_scheme \<Rightarrow> 'z farm_scheme" where
  "settled x s = s\<lparr>f_tasks := fmupd (t_id (x_after x)) (x_after x) (f_tasks s),
     f_log := (if e_id (x_event x) \<in> e_id ` set (f_log s) then f_log s else f_log s @ [x_event x]),
     f_journal := None\<rparr>"

lemma recover_runs:
  assumes "f_journal s = Some x" and "recover_ops s = Inr ops"
  shows "run_ops ops s = settled x s"
  using assms by (auto simp: recover_ops_some settled_def)

lemma recover_after_take:
  assumes "f_journal s = Some x" and "recover_ops s = Inr ops"
  shows "recover_locked (run_ops (take n ops) s) = (Inr (), settled x s)"
proof -
  let ?w = "fmupd (t_id (x_after x)) (x_after x) (f_tasks s)"
  let ?ev = "if e_id (x_event x) \<notin> e_id ` set (f_log s) then AppendEvent (x_event x) else SyncLog"
  from assms have valid: "fullmatch task_id_rx (t_id (x_after x))" "\<not> f_log_damaged s"
      "fmlookup (f_tasks s) (t_id (x_after x)) = x_before x \<or>
       fmlookup (f_tasks s) (t_id (x_after x)) = Some (x_after x)"
    and ops: "ops = [WriteTask (x_after x), ?ev, DropJournal]"
    by (auto simp: recover_ops_some)
  have step: "recover_locked u = (Inr (), settled x u)"
    if "f_journal u = Some x" "\<not> f_log_damaged u"
       "fmlookup (f_tasks u) (t_id (x_after x)) = x_before x \<or>
        fmlookup (f_tasks u) (t_id (x_after x)) = Some (x_after x)" for u :: "'a farm_scheme"
  proof -
    have "\<exists>ops. recover_ops u = Inr ops" using that valid by (simp add: recover_ops_some)
    then show ?thesis using recover_runs that(1) by (auto simp: recover_locked_eq)
  qed
  consider "n = 0" | "n = 1" | "n = 2" | "n \<ge> 3" by arith
  then show ?thesis
  proof cases
    case 1
    then show ?thesis using step [of s] assms valid by simp
  next
    case 2
    then have "run_ops (take n ops) s = s\<lparr>f_tasks := ?w\<rparr>" by (simp add: ops)
    moreover have "recover_locked (s\<lparr>f_tasks := ?w\<rparr>) = (Inr (), settled x (s\<lparr>f_tasks := ?w\<rparr>))"
      using assms valid by (intro step) auto
    ultimately show ?thesis by (simp add: settled_def)
  next
    case 3
    then have "run_ops (take n ops) s = apply_op ?ev (s\<lparr>f_tasks := ?w\<rparr>)"
      by (simp add: ops numeral_2_eq_2)
    moreover have "recover_locked (apply_op ?ev (s\<lparr>f_tasks := ?w\<rparr>)) =
        (Inr (), settled x (apply_op ?ev (s\<lparr>f_tasks := ?w\<rparr>)))"
      using assms valid by (intro step) auto
    ultimately show ?thesis by (auto simp: settled_def)
  next
    case 4
    then have "run_ops (take n ops) s = settled x s" using recover_runs [OF assms] by (simp add: ops)
    then show ?thesis by (simp add: recover_locked_eq settled_def)
  qed
qed

text \<open>C2: a recovery that dies after any number of its writes and is run again ends in the very
  state an undisturbed recovery ends in: the task file holds the after-image, its event is in
  the log once, however often its append was repeated, and the journal is gone.\<close>

theorem recovery_crash_safe:
  assumes "f_journal s = Some x" and "recover_ops s = Inr ops"
  shows "recover_locked (run_ops (take n ops) s) = (Inr (), settled x s)"
  using assms by (rule recover_after_take)

text \<open>A damaged audit log, or a task file that is neither image, stops the recovery before its
  first write.\<close>

lemma recovery_fails_closed:
  assumes "f_journal s = Some x"
    and "f_log_damaged s \<or> fmlookup (f_tasks s) (t_id (x_after x)) \<notin> {x_before x, Some (x_after x)}"
  shows "\<exists>e. recover_locked s = (Inl e, s)"
proof (cases "recover_ops s")
  case (Inl e)
  then show ?thesis by (simp add: recover_locked_eq)
next
  case (Inr ops)
  with assms show ?thesis by (auto simp: recover_ops_some)
qed

subsection \<open>Committing\<close>

fun ws_free :: "env \<Rightarrow> task \<Rightarrow> string \<Rightarrow> task list \<Rightarrow> unit res" where
  "ws_free E t ws [] = Inr ()"
| "ws_free E t ws (u # us) =
     (if t_id u \<noteq> t_id t \<and> reserved (t_state u) then
        rbind (workspace_key E u) (\<lambda>k.
          if k = Some ws then Inl (StoreConflict ''workspace reserved'') else ws_free E t ws us)
      else ws_free E t ws us)"

lemma ws_free_Inr:
  "ws_free E t ws us = Inr () \<longleftrightarrow>
     (\<forall>u\<in>set us. t_id u \<noteq> t_id t \<longrightarrow> reserved (t_state u) \<longrightarrow>
        (\<exists>k. workspace_key E u = Inr k \<and> k \<noteq> Some ws))"
  by (induction us) (auto simp: rbind_Inr_iff split: if_splits)

text \<open>The checks of \<open>_commit_locked\<close>, and the revision the saved task gets.\<close>

definition commit_checks :: "env \<Rightarrow> task \<Rightarrow> task option \<Rightarrow> 'z farm_scheme \<Rightarrow> int res" where
  "commit_checks E t expected s =
     rbind (path_for (t_id t)) (\<lambda>k.
     rbind (ensure (case expected of None \<Rightarrow> True | Some e \<Rightarrow> t_id e = t_id t)
              (StoreError ''cannot change task id'')) (\<lambda>_.
     rbind (ensure (fmlookup (f_tasks s) k = expected)
              (StoreConflict ''stale snapshot or task already exists; reread task-show'')) (\<lambda>_.
     rbind (case expected of
              None \<Rightarrow> Inr ()
            | Some e \<Rightarrow>
                if t_state t = t_state e then Inr ()
                else rbind (transition_task e (t_state t) (map_option l_id (t_lease e))
                              (truthy (meta t ''acceptance_receipt'')) (t_meta t) (Put (t_lease t)))
                       (\<lambda>_. Inr ())) (\<lambda>_.
     rbind (workspace_key E t) (\<lambda>ws.
     rbind (case ws of
              None \<Rightarrow> Inr ()
            | Some w \<Rightarrow> if reserved (t_state t) then ws_free E t w (store_list s) else Inr ()) (\<lambda>_.
     rbind (as_int (case expected of None \<Rightarrow> JInt 0 | Some e \<Rightarrow> meta_or e ''revision'' (JInt 0))) (\<lambda>r.
     Inr (r + 1))))))))"

definition with_revision :: "int \<Rightarrow> task \<Rightarrow> task" where
  "with_revision r t = t\<lparr>t_meta := fmupd ''revision'' (JInt r) (t_meta t)\<rparr>"

definition commit_on ::
    "(disk_op \<Rightarrow> ('z farm_scheme, unit) cmd) \<Rightarrow>
     env \<Rightarrow> task \<Rightarrow> task option \<Rightarrow> string \<Rightarrow> string \<Rightarrow> dict \<Rightarrow> string option \<Rightarrow> ('z farm_scheme, task) cmd" where
  "commit_on W E t expected ty actor payload ts =
     seq (recover_on W)
     (bnd (gets (commit_checks E t expected)) (\<lambda>c.
      bnd (pure c) (\<lambda>rev.
      bnd (fresh_uuid E) (\<lambda>i.
      bnd (case ts of Some x \<Rightarrow> ret x | None \<Rightarrow> now_iso E) (\<lambda>stamp.
      let saved = with_revision rev t;
          ev = \<lparr>e_id = i, e_task = t_id t, e_type = ty, e_actor = actor,
                e_payload = fmupd ''revision'' (JInt rev) payload, e_ts = stamp\<rparr>
      in seq (W (WriteJournal \<lparr>x_before = expected, x_after = saved, x_event = ev\<rparr>))
         (seq (recover_on W) (ret saved)))))))"

definition commit_locked ::
    "env \<Rightarrow> task \<Rightarrow> task option \<Rightarrow> string \<Rightarrow> string \<Rightarrow> dict \<Rightarrow> string option \<Rightarrow> ('z farm_scheme, task) cmd" where
  "commit_locked = commit_on (\<lambda>op. modify (apply_op op))"

lemmas commit_locked_unfold = fun_cong [OF fun_cong [OF fun_cong [OF fun_cong [OF fun_cong [OF fun_cong
  [OF fun_cong [OF commit_locked_def]]]]]], unfolded commit_on_def recover_locked_def [symmetric]]

definition commit ::
    "env \<Rightarrow> task \<Rightarrow> task option \<Rightarrow> string \<Rightarrow> string \<Rightarrow> dict \<Rightarrow> string option \<Rightarrow>
     (task \<Rightarrow> ('z farm_scheme, unit) cmd) option \<Rightarrow> json option \<Rightarrow> ('z farm_scheme, task) cmd" where
  "commit E t expected ty actor payload ts dispatch epoch =
     bnd (gets (require_task_writer E (\<not> Option.is_none dispatch) epoch None)) (\<lambda>r.
     bnd (pure r) (\<lambda>_.
     bnd (commit_locked E t expected ty actor payload ts) (\<lambda>saved.
     case dispatch of None \<Rightarrow> ret saved | Some d \<Rightarrow> seq (d saved) (ret saved))))"

text \<open>\<open>TaskStore.create\<close> and \<open>TaskStore.put_authoritative\<close>.\<close>

definition create :: "env \<Rightarrow> task \<Rightarrow> ('z farm_scheme, task) cmd" where
  "create E t = commit E t None ''TASK_CREATED'' ''master'' fmempty None None None"

definition put_authoritative :: "env \<Rightarrow> task \<Rightarrow> task \<Rightarrow> ('z farm_scheme, task) cmd" where
  "put_authoritative E t expected = commit E t (Some expected) ''TASK_UPDATED'' ''api'' fmempty None None None"

lemma with_revision_simps [simp]:
  "t_id (with_revision r t) = t_id t" "t_state (with_revision r t) = t_state t"
  "t_lease (with_revision r t) = t_lease t" "t_acceptance (with_revision r t) = t_acceptance t"
  "meta (with_revision r t) k = (if k = ''revision'' then JInt r else meta t k)"
  "workspace_key E (with_revision r t) = workspace_key E t"
  by (auto simp: with_revision_def workspace_key_def)

lemma commit_checks_Inr:
  assumes "commit_checks E t expected s = Inr r"
  shows "fullmatch task_id_rx (t_id t)"
    and "fmlookup (f_tasks s) (t_id t) = expected"
    and "expected = Some e \<Longrightarrow> t_id e = t_id t"
    and "expected = Some e \<Longrightarrow> t_state t \<noteq> t_state e \<Longrightarrow> t_state t \<in> set (legal_transitions (t_state e))"
    and "workspace_key E t = Inr (Some w) \<Longrightarrow> reserved (t_state t) \<Longrightarrow> ws_free E t w (store_list s) = Inr ()"
    and "as_int (case expected of None \<Rightarrow> JInt 0 | Some e \<Rightarrow> meta_or e ''revision'' (JInt 0)) = Inr (r - 1)"
    and "expected = Some e \<Longrightarrow> t_state t \<noteq> t_state e \<Longrightarrow> t_state t = DONE \<Longrightarrow> truthy (meta t ''acceptance_receipt'')"
  using assms
  by (auto simp: commit_checks_def rbind_Inr_iff transition_task_Inr_iff split: option.splits if_splits)


subsection \<open>What a commit does\<close>

definition recovered :: "'z farm_scheme \<Rightarrow> 'z farm_scheme" where
  "recovered s = (case f_journal s of None \<Rightarrow> s | Some x \<Rightarrow> settled x s)"

lemma recovered_none [simp]: "f_journal s = None \<Longrightarrow> recovered s = s"
  by (simp add: recovered_def)

lemma recovered_journal [simp]: "f_journal (recovered s) = None"
  by (simp add: recovered_def settled_def split: option.split)

lemma recover_ops_recovered: "recover_ops s = Inr ops \<Longrightarrow> run_ops ops s = recovered s"
  using recover_runs by (cases "f_journal s") (auto simp: recovered_def)

text \<open>The parts of a farm that no commit touches.\<close>

definition same_rest :: "'z farm_scheme \<Rightarrow> 'z farm_scheme \<Rightarrow> bool" where
  "same_rest s s' \<longleftrightarrow> f_root s' = f_root s \<and> f_workers s' = f_workers s \<and> f_recovery s' = f_recovery s \<and>
     f_deploy s' = f_deploy s \<and> f_handoffs s' = f_handoffs s \<and> f_recoveries s' = f_recoveries s \<and>
     f_log_damaged s' = f_log_damaged s \<and> farm.more s' = farm.more s"

lemma same_rest_refl [simp]: "same_rest s s"
  by (simp add: same_rest_def)

lemma same_rest_trans: "same_rest s t \<Longrightarrow> same_rest t u \<Longrightarrow> same_rest s u"
  by (simp add: same_rest_def)

lemma same_rest_upd [simp]:
  "same_rest s (s'\<lparr>f_n := n\<rparr>) = same_rest s s'"
  "same_rest s (s'\<lparr>f_journal := j\<rparr>) = same_rest s s'"
  "same_rest s (s'\<lparr>f_tasks := ts\<rparr>) = same_rest s s'"
  "same_rest s (s'\<lparr>f_log := l\<rparr>) = same_rest s s'"
  by (simp_all add: same_rest_def)

lemma same_rest_settled [simp]: "same_rest s (settled x s') = same_rest s s'"
  by (simp add: settled_def)

lemma same_rest_recovered [simp]: "same_rest s (recovered s') = same_rest s s'"
  by (simp add: recovered_def split: option.split)

text \<open>
  The outcome of \<open>commit_locked\<close>. On success the farm is the recovered one with the saved task
  in its file and its event logged; after an exception the task files are those of before or
  of after the recovery of an earlier journal.
\<close>

definition commit_done ::
    "env \<Rightarrow> task \<Rightarrow> task option \<Rightarrow> string \<Rightarrow> string \<Rightarrow> dict \<Rightarrow> 'z farm_scheme \<Rightarrow> task \<Rightarrow> 'z farm_scheme \<Rightarrow> bool" where
  "commit_done E t expected ty actor payload s saved s' \<longleftrightarrow>
     (\<exists>r ev. commit_checks E t expected (recovered s) = Inr r \<and> saved = with_revision r t \<and>
        f_tasks s' = fmupd (t_id t) saved (f_tasks (recovered s)) \<and> f_journal s' = None \<and>
        e_id ev = env_uuid E (f_n s) \<and> e_task ev = t_id t \<and> e_type ev = ty \<and> e_actor ev = actor \<and>
        e_payload ev = fmupd ''revision'' (JInt r) payload \<and>
        f_log s' = (if e_id ev \<in> e_id ` set (f_log (recovered s)) then f_log (recovered s)
                    else f_log (recovered s) @ [ev]) \<and>
        f_n s < f_n s' \<and> same_rest s s')"

definition commit_failed :: "env \<Rightarrow> task \<Rightarrow> task option \<Rightarrow> 'z farm_scheme \<Rightarrow> 'z farm_scheme \<Rightarrow> bool" where
  "commit_failed E t expected s s' \<longleftrightarrow>
     f_tasks s' \<in> {f_tasks s, f_tasks (recovered s)} \<and> f_n s \<le> f_n s' \<and> same_rest s s' \<and>
     (f_tasks (recovered s') = f_tasks (recovered s) \<or>
      (\<exists>r. commit_checks E t expected (recovered s) = Inr r \<and>
           f_tasks (recovered s') = fmupd (t_id t) (with_revision r t) (f_tasks (recovered s))))"

lemma f_n_recovered [simp]: "f_n (recovered s) = f_n s"
  by (simp add: recovered_def settled_def split: option.split)

lemma commit_locked_outcome:
  "wp (commit_locked E t expected ty actor payload ts) (\<lambda>r s'. case r of
     Inl e \<Rightarrow> commit_failed E t expected s s'
   | Inr saved \<Rightarrow> commit_done E t expected ty actor payload s saved s') s"
proof -
  have step: "wp (seq (modify (apply_op (WriteJournal \<lparr>x_before = expected, x_after = with_revision r t,
        x_event = ev\<rparr>))) (seq recover_locked (ret (with_revision r t)))) (\<lambda>res s'. case res of
     Inl e \<Rightarrow> commit_failed E t expected s s'
   | Inr saved \<Rightarrow> commit_done E t expected ty actor payload s saved s') u"
    if "commit_checks E t expected (recovered s) = Inr r" "e_id ev = env_uuid E (f_n s)"
      "e_task ev = t_id t" "e_type ev = ty" "e_actor ev = actor"
      "e_payload ev = fmupd ''revision'' (JInt r) payload"
      "f_tasks u = f_tasks (recovered s)" "f_log u = f_log (recovered s)" "f_n s < f_n u" "same_rest s u"
    for r ev u
  proof -
    let ?x = "\<lparr>x_before = expected, x_after = with_revision r t, x_event = ev\<rparr>"
    have j: "f_journal (u\<lparr>f_journal := Some ?x\<rparr>) = Some ?x" by simp
    have run: "commit_done E t expected ty actor payload s (with_revision r t) (settled ?x (u\<lparr>f_journal := Some ?x\<rparr>))"
      unfolding commit_done_def using that by (intro exI [of _ r] exI [of _ ev]) (simp add: settled_def)
    have pend: "commit_failed E t expected s (u\<lparr>f_journal := Some ?x\<rparr>)"
      using that by (auto simp: commit_failed_def recovered_def settled_def)
    show ?thesis
      using that run pend by (simp add: wp_rules recover_runs [OF j])
  qed
  show ?thesis
  proof (cases "recover_ops s")
    case (Inl e)
    then show ?thesis by (simp add: commit_locked_unfold wp_rules commit_failed_def)
  next
    case (Inr ops)
    then have wpeq: "wp (commit_locked E t expected ty actor payload ts) R s =
        wp (bnd (gets (commit_checks E t expected)) (\<lambda>c.
          bnd (pure c) (\<lambda>rev. bnd (fresh_uuid E) (\<lambda>i.
          bnd (case ts of Some x \<Rightarrow> ret x | None \<Rightarrow> now_iso E) (\<lambda>stamp.
            let saved = with_revision rev t;
                ev = \<lparr>e_id = i, e_task = t_id t, e_type = ty, e_actor = actor,
                      e_payload = fmupd ''revision'' (JInt rev) payload, e_ts = stamp\<rparr>
            in seq (modify (apply_op (WriteJournal \<lparr>x_before = expected, x_after = saved, x_event = ev\<rparr>)))
               (seq recover_locked (ret saved))))))) R (recovered s)" for R
      by (simp add: commit_locked_unfold wp_seq wp_recover_locked recover_ops_recovered)
    have "commit_failed E t expected s (recovered s)"
      by (simp add: commit_failed_def)
    with wpeq show ?thesis
      by (cases ts) (auto simp: wp_bnd wp_gets wp_pure wp_fresh_uuid wp_now_iso wp_ret Let_def intro!: step)
  qed
qed

lemma commit_locked_Inr:
  "commit_locked E t expected ty actor payload ts s = (Inr saved, s') \<Longrightarrow>
   commit_done E t expected ty actor payload s saved s'"
  using wpD [OF commit_locked_outcome] by fastforce

lemma commit_locked_Inl:
  "commit_locked E t expected ty actor payload ts s = (Inl e, s') \<Longrightarrow> commit_failed E t expected s s'"
  using wpD [OF commit_locked_outcome] by fastforce


text \<open>C17: a commit is a compare-and-set. It succeeds only if the file still holds the expected
  snapshot (or, for a creation, does not exist); then that one file holds the task with the
  next revision, every other task file is untouched, the log has grown by at most the one event
  of this commit, no journal is left, and workers and deployment are as before.\<close>

theorem commit_compare_and_set:
  assumes "f_journal s = None"
    and "commit_locked E t expected ty actor payload ts s = (Inr saved, s')"
  shows "fmlookup (f_tasks s) (t_id t) = expected \<and>
    (\<exists>r. as_int (case expected of None \<Rightarrow> JInt 0 | Some e \<Rightarrow> meta_or e ''revision'' (JInt 0)) = Inr r \<and>
         saved = with_revision (r + 1) t) \<and>
    f_tasks s' = fmupd (t_id t) saved (f_tasks s) \<and> f_journal s' = None \<and>
    f_workers s' = f_workers s \<and> f_deploy s' = f_deploy s \<and>
    (\<exists>ev. e_id ev = env_uuid E (f_n s) \<and> e_task ev = t_id t \<and> e_type ev = ty \<and>
          dget (e_payload ev) ''revision'' = meta saved ''revision'' \<and>
          f_log s' = (if e_id ev \<in> e_id ` set (f_log s) then f_log s else f_log s @ [ev]))"
proof -
  from commit_locked_Inr [OF assms(2)] assms(1) obtain r ev
    where c: "commit_checks E t expected s = Inr r" and "saved = with_revision r t"
      and "f_tasks s' = fmupd (t_id t) saved (f_tasks s)" "f_journal s' = None" "same_rest s s'"
      and "e_id ev = env_uuid E (f_n s)" "e_task ev = t_id t" "e_type ev = ty"
        "e_payload ev = fmupd ''revision'' (JInt r) payload"
        "f_log s' = (if e_id ev \<in> e_id ` set (f_log s) then f_log s else f_log s @ [ev])"
    unfolding commit_done_def by auto
  moreover from commit_checks_Inr(2,6) [OF c] have "fmlookup (f_tasks s) (t_id t) = expected"
    "as_int (case expected of None \<Rightarrow> JInt 0 | Some e \<Rightarrow> meta_or e ''revision'' (JInt 0)) = Inr (r - 1)"
    by simp_all
  ultimately show ?thesis
    by (intro conjI exI [of _ "r - 1"] exI [of _ ev]) (simp_all add: same_rest_def)
qed

lemma commit_run_Inr:
  "commit E t expected ty actor payload ts None epoch s = (Inr saved, s') \<Longrightarrow>
   commit_done E t expected ty actor payload s saved s'"
  by (auto simp: commit_def run_Inr dest: commit_locked_Inr)

lemma commit_stale_refused:
  assumes "f_journal s = None" and "fmlookup (f_tasks s) (t_id t) \<noteq> expected"
  shows "\<exists>e. commit_locked E t expected ty actor payload ts s = (Inl e, s)"
proof (cases "commit_checks E t expected s")
  case (Inl e)
  then show ?thesis using assms
    by (simp add: commit_locked_unfold seq_def bnd_def recover_locked_eq gets_def pure_def)
next
  case (Inr r)
  with assms commit_checks_Inr(2) show ?thesis by blast
qed

text \<open>When the checks pass and nothing is pending or damaged, a commit succeeds.\<close>

lemma recover_ops_exists:
  assumes "f_journal u = Some x" and "fullmatch task_id_rx (t_id (x_after x))" and "\<not> f_log_damaged u"
    and "fmlookup (f_tasks u) (t_id (x_after x)) = x_before x"
  shows "recover_ops u \<noteq> Inl e"
proof -
  have "\<exists>ops. recover_ops u = Inr ops" using assms by (simp add: recover_ops_some)
  then show ?thesis by auto
qed

lemma commit_locked_succeeds:
  assumes "f_journal s = None" and "\<not> f_log_damaged s" and "commit_checks E t expected s = Inr r"
  shows "\<exists>s'. commit_locked E t expected ty actor payload ts s = (Inr (with_revision r t), s')"
proof -
  have ok: "recover_ops (s\<lparr>f_n := n, f_journal := Some \<lparr>x_before = expected, x_after = with_revision r t, x_event = ev\<rparr>\<rparr>) \<noteq> Inl e"
    for n ev e
    using assms commit_checks_Inr(1,2) [OF assms(3)] by (intro recover_ops_exists) auto
  have "wp (commit_locked E t expected ty actor payload ts) (\<lambda>res s'. res = Inr (with_revision r t)) s"
    using assms ok by (cases ts) (simp_all add: commit_locked_unfold wp_rules Let_def)
  then show ?thesis by (auto simp: wp_def split: prod.splits)
qed

lemma commit_succeeds:
  assumes "f_journal s = None" and "\<not> f_log_damaged s" and "commit_checks E t expected s = Inr r"
    and "require_task_writer E False epoch None s = Inr m"
  shows "\<exists>s'. commit E t expected ty actor payload ts None epoch s = (Inr (with_revision r t), s')"
  using commit_locked_succeeds [OF assms(1-3)] assms(4)
  by (auto simp: commit_def run_Inr)

subsection \<open>Crash atomicity of a whole commit\<close>

lemma settled_journal [simp]:
  "settled x (s\<lparr>f_journal := j\<rparr>) = settled x s"
  "f_journal (settled x s) = None"
  by (simp_all add: settled_def)

lemma recover_recovered:
  assumes "recover_ops s = Inr ops"
  shows "recover_locked (run_ops (take n ops) s) = (Inr (), recovered s)"
proof (cases "f_journal s")
  case None
  then show ?thesis using assms by (simp add: recover_locked_eq)
next
  case (Some x)
  then show ?thesis using recover_after_take [OF Some assms, of n] by (simp add: recovered_def)
qed

lemma wp_recover_on_dying:
  assumes "recover_ops s = Inr ops"
    and "\<And>n e. n < length ops \<Longrightarrow> \<exists>op u. dies op u \<Longrightarrow> Q (Inl e) (run_ops (take n ops) s)"
    and "Q (Inr ()) (recovered s)"
  shows "wp (recover_on (dying apply_op dies)) Q s"
  using assms recover_ops_recovered [OF assms(1)]
  by (auto simp: recover_on_def wp_bnd wp_gets wp_pure run_ops_def intro!: wp_for_each_dying)

text \<open>The journal a commit writes, and the number of identifiers and clock readings drawn by then.\<close>

definition commit_txn ::
    "env \<Rightarrow> nat \<Rightarrow> task \<Rightarrow> task option \<Rightarrow> string \<Rightarrow> string \<Rightarrow> dict \<Rightarrow> string option \<Rightarrow> int \<Rightarrow> txn" where
  "commit_txn E n t expected ty actor payload ts r =
     \<lparr>x_before = expected, x_after = with_revision r t,
      x_event = \<lparr>e_id = env_uuid E n, e_task = t_id t, e_type = ty, e_actor = actor,
        e_payload = fmupd ''revision'' (JInt r) payload, e_ts = (case ts of Some z \<Rightarrow> z | None \<Rightarrow> env_iso E (env_clock E (Suc n)))\<rparr>\<rparr>"

definition commit_drawn :: "string option \<Rightarrow> nat \<Rightarrow> nat" where
  "commit_drawn ts n = (case ts of Some z \<Rightarrow> Suc n | None \<Rightarrow> Suc (Suc n))"

lemma commit_txn_simps [simp]:
  "x_before (commit_txn E n t expected ty actor payload ts r) = expected"
  "x_after (commit_txn E n t expected ty actor payload ts r) = with_revision r t"
  "e_type (x_event (commit_txn E n t expected ty actor payload ts r)) = ty"
  "e_payload (x_event (commit_txn E n t expected ty actor payload ts r)) = fmupd ''revision'' (JInt r) payload"
  by (simp_all add: commit_txn_def)

text \<open>
  A commit run with either write, from a farm whose earlier journal can be recovered: the writes of
  that recovery; then, if the checks pass, the journal, and the writes of its recovery.
\<close>

lemma wp_commit_on_dying:
  fixes s :: "'z farm_scheme"
  assumes ops: "recover_ops s = Inr ops" and c: "commit_checks E t expected (recovered s) = Inr r"
    and dmg: "\<not> f_log_damaged s"
    and early: "\<And>n e. n < length ops \<Longrightarrow> \<exists>op u. dies op u \<Longrightarrow> Q (Inl e) (run_ops (take n ops) s)"
    and none: "\<And>m e. \<exists>op u. dies op u \<Longrightarrow> Q (Inl e) ((recovered s)\<lparr>f_n := m\<rparr>)"
    and late: "\<And>ops' n e. let x = commit_txn E (f_n s) t expected ty actor payload ts r;
        u = (recovered s)\<lparr>f_n := commit_drawn ts (f_n s), f_journal := Some x\<rparr> in
      recover_ops u = Inr ops' \<longrightarrow> (\<exists>op u. dies op u) \<longrightarrow> Q (Inl e) (run_ops (take n ops') u)"
    and fin: "let x = commit_txn E (f_n s) t expected ty actor payload ts r in
      Q (Inr (with_revision r t)) (settled x ((recovered s)\<lparr>f_n := commit_drawn ts (f_n s)\<rparr>))"
  shows "wp (commit_on (dying apply_op dies) E t expected ty actor payload ts) Q s"
proof -
  have go: "wp (seq (dying apply_op dies (WriteJournal (commit_txn E (f_n s) t expected ty actor payload ts r)))
      (seq (recover_on (dying apply_op dies)) (ret (with_revision r t)))) Q ((recovered s)\<lparr>f_n := commit_drawn ts (f_n s)\<rparr>)"
  proof -
    let ?x = "commit_txn E (f_n s) t expected ty actor payload ts r"
    let ?m = "commit_drawn ts (f_n s)"
    let ?u = "(recovered s)\<lparr>f_n := ?m, f_journal := Some ?x\<rparr>"
    have "f_log_damaged (recovered s) = f_log_damaged s"
      by (simp add: recovered_def settled_def split: option.split)
    then obtain ops' where ops': "recover_ops ?u = Inr ops'"
      using commit_checks_Inr(1,2) [OF c] dmg by (auto simp: recover_ops_some)
    have "recovered ?u = settled ?x ((recovered s)\<lparr>f_n := ?m\<rparr>)" by (simp add: recovered_def)
    then have "wp (recover_on (dying apply_op dies)) (\<lambda>q s'. (\<forall>e. q = Inl e \<longrightarrow> Q (Inl e) s') \<and>
        (\<forall>v. q = Inr v \<longrightarrow> wp (ret (with_revision r t)) Q s')) ?u"
      using late fin ops'
      by (intro wp_recover_on_dying [OF ops']) (auto simp: wp_ret Let_def)
    then show ?thesis using none [of _ ?m] by (auto simp: wp_seq wp_dying)
  qed
  have "wp (recover_on (dying apply_op dies)) (\<lambda>q s'. (\<forall>e. q = Inl e \<longrightarrow> Q (Inl e) s') \<and>
      (\<forall>v. q = Inr v \<longrightarrow> s' = recovered s)) s"
    using early by (intro wp_recover_on_dying [OF ops]) auto
  moreover have "wp (bnd (gets (commit_checks E t expected)) (\<lambda>c. bnd (pure c) (\<lambda>rev.
      bnd (fresh_uuid E) (\<lambda>i. bnd (case ts of Some x \<Rightarrow> ret x | None \<Rightarrow> now_iso E) (\<lambda>stamp.
      let saved = with_revision rev t;
          ev = \<lparr>e_id = i, e_task = t_id t, e_type = ty, e_actor = actor,
                e_payload = fmupd ''revision'' (JInt rev) payload, e_ts = stamp\<rparr>
      in seq (dying apply_op dies (WriteJournal \<lparr>x_before = expected, x_after = saved, x_event = ev\<rparr>))
         (seq (recover_on (dying apply_op dies)) (ret saved))))))) Q (recovered s)"
    using c go [unfolded commit_txn_def]
    by (cases ts) (simp_all add: commit_drawn_def wp_bnd wp_gets wp_pure wp_fresh_uuid wp_now_iso wp_ret Let_def)
  ultimately show ?thesis
    unfolding commit_on_def wp_seq by (elim wp_mono) auto
qed

lemma commit_locked_needs:
  assumes "commit_locked E t expected ty actor payload ts s = (Inr saved, s')"
  obtains ops r where "recover_ops s = Inr ops" "commit_checks E t expected (recovered s) = Inr r"
    "\<not> f_log_damaged s" "saved = with_revision r t"
proof -
  have "wp (commit_locked E t expected ty actor payload ts) (\<lambda>res s'. \<forall>v. res = Inr v \<longrightarrow>
      (\<exists>ops r. recover_ops s = Inr ops \<and> commit_checks E t expected (recovered s) = Inr r \<and>
        \<not> f_log_damaged s \<and> v = with_revision r t)) s"
  proof (cases "recover_ops s")
    case (Inl e)
    then show ?thesis by (simp add: commit_locked_unfold wp_seq wp_recover_locked)
  next
    case (Inr ops)
    have "\<not> f_log_damaged s" if "recover_ops ((recovered s)\<lparr>f_n := n, f_journal := Some x\<rparr>) = Inr os" for n x os
    proof -
      have "f_journal ((recovered s)\<lparr>f_n := n, f_journal := Some x\<rparr>) = Some x" by simp
      from that [unfolded recover_ops_some [OF this]] show ?thesis
        by (simp add: recovered_def settled_def split: option.splits)
    qed
    then show ?thesis using Inr
      by (cases ts; cases "commit_checks E t expected (recovered s)")
        (auto simp: commit_locked_unfold wp_rules Let_def recover_ops_recovered)
  qed
  from wpD [OF this assms] that show thesis by blast
qed

text \<open>C1: a commit is all or nothing under a crash at any of its writes. Take any commit that
  succeeds, and run it again from the same farm in a process that may die, or be refused by the
  system, before any of its writes (those of the recovery of an earlier journal, the journal, the
  task file, the event, the removal of the journal). Whatever it leaves on the disk, the next
  writer's recovery gives either the farm of before the commit (with an earlier journal
  recovered and identifiers drawn) or the very farm of the finished commit; and a run that did
  report the saved task, or that did not die, is the finished commit. The finished commit itself keeps
  what an earlier journal held: its tasks are those of the recovered farm but for the one saved, its log extends
  the recovered log, and no journal is left.\<close>

theorem commit_atomic:
  assumes "commit_locked E t expected ty actor payload ts s = (Inr saved, s')"
    and "commit_on (dying apply_op dies) E t expected ty actor payload ts s = (r, d)"
  shows "((\<exists>n. recover_locked d = (Inr (), (recovered s)\<lparr>f_n := n\<rparr>)) \<or> recover_locked d = (Inr (), s')) \<and>
    ((\<exists>v. r = Inr v) \<or> (\<forall>op u. \<not> dies op u) \<longrightarrow> r = Inr saved \<and> d = s') \<and>
    f_tasks s' = fmupd (t_id t) saved (f_tasks (recovered s)) \<and> take (length (f_log (recovered s))) (f_log s') = f_log (recovered s) \<and> f_journal s' = None"
proof -
  obtain ops q where ops: "recover_ops s = Inr ops" and q: "commit_checks E t expected (recovered s) = Inr q"
    and dmg: "\<not> f_log_damaged s" and saved: "saved = with_revision q t"
    by (rule commit_locked_needs [OF assms(1)])
  let ?x = "commit_txn E (f_n s) t expected ty actor payload ts q"
  let ?v = "(recovered s)\<lparr>f_n := commit_drawn ts (f_n s)\<rparr>"
  have "wp (commit_on (dying apply_op (\<lambda>_ _. False)) E t expected ty actor payload ts)
      (\<lambda>r d. r = Inr saved \<and> d = settled ?x ?v) s"
    by (rule wp_commit_on_dying [OF ops q dmg]) (simp_all add: saved Let_def)
  then have s': "s' = settled ?x ?v"
    using assms(1) by (simp add: dying_never commit_locked_def wp_def)
  have idle: "recover_locked ((recovered s)\<lparr>f_n := n\<rparr>) = (Inr (), (recovered s)\<lparr>f_n := n\<rparr>)" for n
    by (simp add: recover_locked_eq)
  have "wp (commit_on (dying apply_op dies) E t expected ty actor payload ts) (\<lambda>r d.
      ((\<exists>n. recover_locked d = (Inr (), (recovered s)\<lparr>f_n := n\<rparr>)) \<or> recover_locked d = (Inr (), s')) \<and>
      ((\<exists>v. r = Inr v) \<or> (\<forall>op u. \<not> dies op u) \<longrightarrow> r = Inr saved \<and> d = s')) s"
  proof (rule wp_commit_on_dying [OF ops q dmg])
    show "let x = ?x; u = (recovered s)\<lparr>f_n := commit_drawn ts (f_n s), f_journal := Some x\<rparr> in
        recover_ops u = Inr ops' \<longrightarrow> (\<exists>op u. dies op u) \<longrightarrow>
        ((\<exists>m. recover_locked (run_ops (take n ops') u) = (Inr (), (recovered s)\<lparr>f_n := m\<rparr>)) \<or>
           recover_locked (run_ops (take n ops') u) = (Inr (), s')) \<and>
        ((\<exists>v. Inl e = Inr v) \<or> (\<forall>op u. \<not> dies op u) \<longrightarrow> Inl e = Inr saved \<and> run_ops (take n ops') u = s')"
      for ops' n and e :: exn
      using recover_recovered [of "?v\<lparr>f_journal := Some ?x\<rparr>" ops' n] s' by (auto simp: Let_def recovered_def [of "?v\<lparr>f_journal := Some ?x\<rparr>"])
  next
    fix n and e :: exn
    assume "\<exists>op u. dies op u"
    moreover have "recover_locked (run_ops (take n ops) s) = (Inr (), (recovered s)\<lparr>f_n := f_n s\<rparr>)"
      using recover_recovered [OF ops] by simp
    ultimately show "((\<exists>m. recover_locked (run_ops (take n ops) s) = (Inr (), (recovered s)\<lparr>f_n := m\<rparr>)) \<or>
           recover_locked (run_ops (take n ops) s) = (Inr (), s')) \<and>
        ((\<exists>v. Inl e = Inr v) \<or> (\<forall>op u. \<not> dies op u) \<longrightarrow> Inl e = Inr saved \<and> run_ops (take n ops) s = s')"
      by blast
  qed (use idle saved s' in \<open>auto simp: Let_def recover_locked_eq\<close>)
  note crash = wpD [OF this assms(2)]
  have "f_tasks s' = fmupd (t_id t) saved (f_tasks (recovered s))"
    "take (length (f_log (recovered s))) (f_log s') = f_log (recovered s)" "f_journal s' = None"
    unfolding s' saved settled_def by simp_all
  with crash show ?thesis by blast
qed

end
