(* ===== verification/Invariant.thy ===== *)
theory Invariant
  imports Store
begin

text \<open>
  The invariant of the task directory and that every store operation keeps it: a file's name is
  the id of the task in it, and no two tasks that hold a workspace reservation name the same
  workspace. The invariant covers the pending journal too: it holds of the files and of what
  they become when a later writer finishes the journal.
\<close>

definition exclusive :: "env \<Rightarrow> (string, task) fmap \<Rightarrow> bool" where
  "exclusive E ts \<longleftrightarrow> (\<forall>i j t u w. fmlookup ts i = Some t \<longrightarrow> fmlookup ts j = Some u \<longrightarrow>
     reserved (t_state t) \<longrightarrow> reserved (t_state u) \<longrightarrow>
     workspace_key E t = Inr (Some w) \<longrightarrow> workspace_key E u = Inr (Some w) \<longrightarrow> i = j)"

definition named :: "(string, task) fmap \<Rightarrow> bool" where
  "named ts \<longleftrightarrow> (\<forall>i t. fmlookup ts i = Some t \<longrightarrow> t_id t = i \<and> fullmatch task_id_rx i)"

definition tasks_ok :: "env \<Rightarrow> (string, task) fmap \<Rightarrow> bool" where
  "tasks_ok E ts \<longleftrightarrow> named ts \<and> exclusive E ts"

definition farm_ok :: "env \<Rightarrow> 'z farm_scheme \<Rightarrow> bool" where
  "farm_ok E s \<longleftrightarrow> tasks_ok E (f_tasks s) \<and> tasks_ok E (f_tasks (recovered s))"

lemma namedD: "named ts \<Longrightarrow> fmlookup ts i = Some t \<Longrightarrow> t_id t = i \<and> fullmatch task_id_rx i"
  by (simp add: named_def)

lemma exclusiveD:
  "exclusive E ts \<Longrightarrow> fmlookup ts i = Some t \<Longrightarrow> fmlookup ts j = Some u \<Longrightarrow>
   reserved (t_state t) \<Longrightarrow> reserved (t_state u) \<Longrightarrow>
   workspace_key E t = Inr (Some w) \<Longrightarrow> workspace_key E u = Inr (Some w) \<Longrightarrow> i = j"
  unfolding exclusive_def by blast

lemma tasks_ok_empty [simp]: "tasks_ok E fmempty"
  by (simp add: tasks_ok_def named_def exclusive_def)

text \<open>Writing a task whose workspace is free keeps the directory well formed.\<close>

lemma tasks_ok_upd:
  assumes ok: "tasks_ok E ts" and "fullmatch task_id_rx (t_id t)"
    and free: "\<And>i u w. fmlookup ts i = Some u \<Longrightarrow> i \<noteq> t_id t \<Longrightarrow> reserved (t_state t) \<Longrightarrow>
      reserved (t_state u) \<Longrightarrow> workspace_key E t = Inr (Some w) \<Longrightarrow> workspace_key E u \<noteq> Inr (Some w)"
  shows "tasks_ok E (fmupd (t_id t) t ts)"
proof -
  have "exclusive E (fmupd (t_id t) t ts)"
    unfolding exclusive_def
  proof (intro allI impI)
    fix i j u v w
    assume u: "fmlookup (fmupd (t_id t) t ts) i = Some u" and v: "fmlookup (fmupd (t_id t) t ts) j = Some v"
      and r: "reserved (t_state u)" "reserved (t_state v)"
      and k: "workspace_key E u = Inr (Some w)" "workspace_key E v = Inr (Some w)"
    show "i = j"
    proof (rule ccontr)
      assume "i \<noteq> j"
      then consider "i = t_id t" "j \<noteq> t_id t" | "j = t_id t" "i \<noteq> t_id t" | "i \<noteq> t_id t" "j \<noteq> t_id t"
        by blast
      then show False
      proof cases
        case 1
        then show False using u v r k free by simp
      next
        case 2
        then show False using u v r k free by simp
      next
        case 3
        then have "i = j" using u v r k ok by (auto simp: tasks_ok_def intro: exclusiveD)
        then show False using \<open>i \<noteq> j\<close> by simp
      qed
    qed
  qed
  with assms(1,2) show ?thesis by (auto simp: tasks_ok_def named_def)
qed

lemma workspace_key_obtain:
  assumes "commit_checks E t expected s = Inr r"
  shows "\<exists>k. workspace_key E t = Inr k"
  using assms by (auto simp: commit_checks_def rbind_Inr_iff)

lemma tasks_ok_commit:
  assumes ok: "tasks_ok E (f_tasks s)" and c: "commit_checks E t expected s = Inr r"
  shows "tasks_ok E (fmupd (t_id t) (with_revision r t) (f_tasks s))"
proof -
  have "tasks_ok E (fmupd (t_id (with_revision r t)) (with_revision r t) (f_tasks s))"
  proof (rule tasks_ok_upd [OF ok])
    show "fullmatch task_id_rx (t_id (with_revision r t))" using commit_checks_Inr(1) [OF c] by simp
    fix i u w
    assume u: "fmlookup (f_tasks s) i = Some u" "i \<noteq> t_id (with_revision r t)"
      and "reserved (t_state (with_revision r t))" and ru: "reserved (t_state u)"
      and "workspace_key E (with_revision r t) = Inr (Some w)"
    then have "ws_free E t w (store_list s) = Inr ()" using commit_checks_Inr(5) [OF c] by simp
    moreover have "u \<in> set (store_list s)" using u by (auto simp: store_list_iff)
    moreover have "t_id u \<noteq> t_id t" using u ok by (auto simp: tasks_ok_def dest: namedD)
    ultimately show "workspace_key E u \<noteq> Inr (Some w)" using ru by (auto simp: ws_free_Inr)
  qed
  then show ?thesis by simp
qed

lemma recover_locked_outcome:
  "recover_locked s = (r, s') \<Longrightarrow> s' = s \<or> s' = recovered s"
  by (auto simp: recover_locked_eq recover_ops_recovered split: sum.splits)

lemma recovered_idem [simp]: "recovered (recovered s) = recovered s"
  by simp

lemma keeps_recover_locked [keeps_rules]: "keeps (farm_ok E) recover_locked"
  by (rule keepsI, rule wpI) (auto dest!: recover_locked_outcome simp: farm_ok_def)

lemma keeps_commit_locked [keeps_rules]: "keeps (farm_ok E) (commit_locked E t expected ty actor payload ts)"
proof (rule keepsI, rule wpI)
  fix s r s'
  assume ok: "farm_ok E s" and run: "commit_locked E t expected ty actor payload ts s = (r, s')"
  have new: "tasks_ok E (fmupd (t_id t) (with_revision k t) (f_tasks (recovered s)))"
    if "commit_checks E t expected (recovered s) = Inr k" for k
    using ok that by (auto simp: farm_ok_def intro: tasks_ok_commit)
  show "farm_ok E s'"
  proof (cases r)
    case (Inl e)
    then have "commit_failed E t expected s s'" using run commit_locked_Inl by blast
    then show ?thesis using ok new by (auto simp: commit_failed_def farm_ok_def)
  next
    case (Inr saved)
    then have "commit_done E t expected ty actor payload s saved s'" using run commit_locked_Inr by blast
    then show ?thesis using new by (auto simp: commit_done_def farm_ok_def)
  qed
qed

text \<open>The farm's other files do not matter to the invariant.\<close>

lemma farm_ok_frame:
  "f_tasks s' = f_tasks s \<Longrightarrow> f_journal s' = f_journal s \<Longrightarrow> farm_ok E s' = farm_ok E s"
  by (simp add: farm_ok_def recovered_def settled_def split: option.split)

lemma keeps_frame:
  "(\<And>s. f_tasks (f s) = f_tasks s \<and> f_journal (f s) = f_journal s) \<Longrightarrow> keeps (farm_ok E) (modify f)"
  by (rule keeps_modify) (metis farm_ok_frame)

lemma farm_ok_upd [simp]:
  "farm_ok E (s\<lparr>f_n := n\<rparr>) = farm_ok E s" "farm_ok E (s\<lparr>f_log := l\<rparr>) = farm_ok E s"
  "farm_ok E (s\<lparr>f_workers := ws\<rparr>) = farm_ok E s" "farm_ok E (s\<lparr>f_deploy := d\<rparr>) = farm_ok E s"
  "farm_ok E (s\<lparr>f_handoffs := h\<rparr>) = farm_ok E s" "farm_ok E (s\<lparr>f_recovery := v\<rparr>) = farm_ok E s"
  "farm_ok E (s\<lparr>f_recoveries := vs\<rparr>) = farm_ok E s"
  by (rule farm_ok_frame; simp)+

lemma keeps_draws [keeps_rules]:
  "keeps (farm_ok E) (fresh_uuid E')" "keeps (farm_ok E) (now E')" "keeps (farm_ok E) (now_iso E')"
  by (auto simp: keeps_def wp_rules)

lemma keeps_put_observed [keeps_rules]: "keeps (farm_ok E) (put_observed w)"
  unfolding put_observed_def by (rule keeps_frame) simp

lemma keeps_log_append [keeps_rules]: "keeps (farm_ok E) (log_append e)"
  unfolding log_append_def by (rule keeps_modify) simp

lemma keeps_log_sync [keeps_rules]: "keeps (farm_ok E) log_sync"
  unfolding log_sync_def by (rule keeps_frame) simp

lemma keeps_log_once [keeps_rules]: "keeps (farm_ok E) (log_once e)"
  unfolding log_once_def by (intro keeps_rules)

lemma keeps_recover [keeps_rules]: "keeps (farm_ok E) (recover E')"
  unfolding recover_def by (intro keeps_rules)

lemma keeps_farm_commit [keeps_rules]:
  assumes "\<And>d x. dispatch = Some d \<Longrightarrow> keeps (farm_ok E) (d x)"
  shows "keeps (farm_ok E) (commit E t expected ty actor payload ts dispatch epoch)"
  unfolding commit_def using assms by (intro keeps_rules) auto

text \<open>C18: INV-12, one reserved task per workspace, with every task in the file of its name, is
  kept by every commit, whatever the caller's task, snapshot and event, whether the commit
  succeeds or raises, and by the recovery of any journal it leaves behind.\<close>

theorem workspace_exclusive:
  assumes "farm_ok E s" and "commit E t expected ty actor payload ts None epoch s = (r, s')"
  shows "farm_ok E s' \<and> farm_ok E (snd (recover_locked s'))"
proof -
  have "keeps (farm_ok E) (commit E t expected ty actor payload ts None epoch)"
    by (intro keeps_rules) simp
  with assms have "farm_ok E s'" by (auto dest: keepsD)
  then show ?thesis using keepsD [OF keeps_recover_locked, of s'] by (metis prod.collapse)
qed

subsection \<open>What every task satisfies\<close>

text \<open>
  A running task has a lease and a done one nonempty acceptance evidence. The store alone does not
  enforce the first (a caller of \<open>put_authoritative\<close> may save anything the transition table
  allows), so the operations that commit prove it: \<open>sound\<close> is kept by a commit whose task is
  well formed if the snapshot it replaces is.
\<close>

definition task_ok :: "task \<Rightarrow> bool" where
  "task_ok t \<longleftrightarrow> (t_state t = RUNNING \<longrightarrow> t_lease t \<noteq> None) \<and>
     (t_state t = DONE \<longrightarrow> truthy (meta t ''acceptance_receipt''))"

definition all_ok :: "(string, task) fmap \<Rightarrow> bool" where
  "all_ok ts \<longleftrightarrow> (\<forall>i t. fmlookup ts i = Some t \<longrightarrow> task_ok t)"

definition sound :: "env \<Rightarrow> 'z farm_scheme \<Rightarrow> bool" where
  "sound E s \<longleftrightarrow> farm_ok E s \<and> all_ok (f_tasks s) \<and> all_ok (f_tasks (recovered s))"

lemma task_ok_revision [simp]: "task_ok (with_revision r t) = task_ok t"
  by (simp add: task_ok_def)

lemma task_ok_new [simp]: "task_ok (new_task i ob dl ac m)"
  by (simp add: task_ok_def new_task_def)

lemma all_ok_upd: "all_ok ts \<Longrightarrow> task_ok t \<Longrightarrow> all_ok (fmupd i t ts)"
  by (simp add: all_ok_def)

lemma all_ok_empty [simp]: "all_ok fmempty"
  by (simp add: all_ok_def)

lemma sound_task_ok: "sound E s \<Longrightarrow> t \<in> set (store_list s) \<Longrightarrow> task_ok t"
  by (auto simp: sound_def all_ok_def store_list_iff)

lemma sound_frame:
  "f_tasks s' = f_tasks s \<Longrightarrow> f_journal s' = f_journal s \<Longrightarrow> sound E s' = sound E s"
  using farm_ok_frame [of s' s E] by (simp add: sound_def recovered_def settled_def split: option.split)

lemma sound_upd [simp]:
  "sound E (s\<lparr>f_n := n\<rparr>) = sound E s" "sound E (s\<lparr>f_log := l\<rparr>) = sound E s"
  "sound E (s\<lparr>f_workers := ws\<rparr>) = sound E s" "sound E (s\<lparr>f_deploy := d\<rparr>) = sound E s"
  "sound E (s\<lparr>f_handoffs := h\<rparr>) = sound E s" "sound E (s\<lparr>f_recovery := v\<rparr>) = sound E s"
  "sound E (s\<lparr>f_recoveries := vs\<rparr>) = sound E s"
  by (rule sound_frame; simp)+

lemma keeps_sound_modify:
  "(\<And>s. f_tasks (f s) = f_tasks s \<and> f_journal (f s) = f_journal s) \<Longrightarrow> keeps (sound E) (modify f)"
  by (rule keeps_modify) (metis sound_frame)

lemma sound_recovered: "sound E s \<Longrightarrow> sound E (recovered s)"
  by (simp add: sound_def farm_ok_def)

lemma keeps_sound_recover_locked [keeps_rules]: "keeps (sound E) recover_locked"
  by (rule keepsI, rule wpI) (auto dest!: recover_locked_outcome intro: sound_recovered)

lemma keeps_sound_recover [keeps_rules]: "keeps (sound E) (recover E')"
  unfolding recover_def by (intro keeps_rules)

lemma keeps_sound_commit_locked:
  assumes new: "case expected of None \<Rightarrow> task_ok t | Some e \<Rightarrow> task_ok e \<longrightarrow> task_ok t"
  shows "keeps (sound E) (commit_locked E t expected ty actor payload ts)"
proof (rule keepsI, rule wpI)
  fix s r s'
  assume ok: "sound E s" and run: "commit_locked E t expected ty actor payload ts s = (r, s')"
  have all: "all_ok (f_tasks (recovered s))" using ok by (simp add: sound_def)
  have upd: "all_ok (fmupd (t_id t) (with_revision k t) (f_tasks (recovered s)))"
    if c: "commit_checks E t expected (recovered s) = Inr k" for k
  proof -
    have "task_ok t"
      using new all commit_checks_Inr(2) [OF c] by (cases expected) (auto simp: all_ok_def)
    then show ?thesis using all by (simp add: all_ok_upd)
  qed
  have farm: "farm_ok E s'" using keepsD [OF keeps_commit_locked run] ok by (simp add: sound_def)
  show "sound E s'"
  proof (cases r)
    case (Inl e)
    then have "commit_failed E t expected s s'" using run commit_locked_Inl by blast
    then show ?thesis using ok upd farm by (auto simp: commit_failed_def sound_def)
  next
    case (Inr saved)
    then have "commit_done E t expected ty actor payload s saved s'" using run commit_locked_Inr by blast
    then show ?thesis using upd farm by (auto simp: commit_done_def sound_def)
  qed
qed

lemma keeps_sound_commit [keeps_rules]:
  assumes "case expected of None \<Rightarrow> task_ok t | Some e \<Rightarrow> task_ok e \<longrightarrow> task_ok t"
    and "\<And>d x. dispatch = Some d \<Longrightarrow> keeps (sound E) (d x)"
  shows "keeps (sound E) (commit E t expected ty actor payload ts dispatch epoch)"
  unfolding commit_def using assms by (intro keeps_rules keeps_sound_commit_locked) auto

lemma keeps_sound_misc [keeps_rules]:
  "keeps (sound E) (fresh_uuid E')" "keeps (sound E) (now E')" "keeps (sound E) (now_iso E')"
  "keeps (sound E) (put_observed w)" "keeps (sound E) (log_append e)" "keeps (sound E) log_sync"
  "keeps (sound E) (log_once e)"
  by (auto simp: keeps_def wp_rules put_observed_def)

end
