(* ===== verification/Slurm.thy ===== *)
theory Slurm
  imports Regex
begin

text \<open>
  Read-only Slurm observation: \<open>agent_farm_runtime/adapters/slurm.py\<close> (the reconciler's side) and
  \<open>farmkit/observe.py\<close> (the worker's side). The host's commands are parameters: \<open>which\<close> says
  whether a program is installed, \<open>run\<close> gives its return code and standard output, \<open>None\<close> when
  it cannot be started or times out.
\<close>

type_synonym which = "string \<Rightarrow> bool"
type_synonym run = "string list \<Rightarrow> (int \<times> string) option"

subsection \<open>Text\<close>

definition is_break :: "char \<Rightarrow> bool" where
  "is_break c \<longleftrightarrow> (of_char c :: nat) \<in> {10, 11, 12, 13, 28, 29, 30, 133}"

text \<open>\<open>str.splitlines()\<close>; a carriage return before a line feed is one line end.\<close>

fun drop_break :: "string \<Rightarrow> string" where
  "drop_break [] = []"
| "drop_break (c # s) = (if c = char_of (13::nat) \<and> s \<noteq> [] \<and> hd s = char_of (10::nat) then tl s else s)"

lemma drop_break_length: "s \<noteq> [] \<Longrightarrow> length (drop_break s) < length s"
  by (cases s) auto

function splitlines :: "string \<Rightarrow> string list" where
  "splitlines s = (if s = [] then []
     else takeWhile (\<lambda>c. \<not> is_break c) s #
            (let r = dropWhile (\<lambda>c. \<not> is_break c) s in if r = [] then [] else splitlines (drop_break r)))"
  by pat_completeness auto
termination
proof (relation "measure length", simp)
  fix s r :: string
  assume "r = dropWhile (\<lambda>c. \<not> is_break c) s" "r \<noteq> []"
  then have "length (drop_break r) < length r" "length r \<le> length s"
    by (simp_all add: drop_break_length length_dropWhile_le)
  then show "(drop_break r, s) \<in> measure length" by simp
qed

declare splitlines.simps [simp del]

text \<open>\<open>str.upper()\<close> on ASCII letters; other letters never spell one of the states compared with.\<close>

definition upper_char :: "char \<Rightarrow> char" where
  "upper_char c = (let n = of_char c :: nat in if 97 \<le> n \<and> n \<le> 122 then char_of (n - 32) else c)"

definition upper :: "string \<Rightarrow> string" where
  "upper s = map upper_char s"

text \<open>\<open>line.strip().split()[0]\<close> of a line that is not blank.\<close>

definition first_word :: "string \<Rightarrow> string" where
  "first_word line = hd (split_ws (strip line))"

subsection \<open>States\<close>

definition active_states :: "string list" where
  "active_states = [''PENDING'', ''RUNNING'', ''CONFIGURING'', ''COMPLETING'', ''SUSPENDED'', ''RESIZING'']"

definition terminal_states :: "string list" where
  "terminal_states = [''COMPLETED'', ''FAILED'', ''TIMEOUT'', ''OUT_OF_MEMORY'', ''NODE_FAIL'',
     ''CANCELLED'', ''BOOT_FAIL'', ''DEADLINE'']"

definition normalized_slurm_state :: "string option \<Rightarrow> string" where
  "normalized_slurm_state st =
     (case split_ws (strip (case st of None \<Rightarrow> [] | Some s \<Rightarrow> s)) of
        [] \<Rightarrow> [] | w # _ \<Rightarrow> rstrip_char (CHR ''+'') (upper w))"

definition slurm_job_terminal :: "string option \<Rightarrow> bool" where
  "slurm_job_terminal st \<longleftrightarrow> normalized_slurm_state st \<in> set terminal_states"

definition slurm_job_active :: "string option \<Rightarrow> bool" where
  "slurm_job_active st \<longleftrightarrow> normalized_slurm_state st \<in> set active_states"

lemma split_ws_Nil [simp]: "split_ws [] = []"
  by (simp add: split_ws.simps)

lemma strip_Nil [simp]: "strip [] = []"
  by (simp add: strip_def rstrip_def lstrip_def)

lemma unknown_is_neither [simp]: "\<not> slurm_job_terminal None" "\<not> slurm_job_active None"
  by (simp_all add: slurm_job_terminal_def slurm_job_active_def normalized_slurm_state_def
      terminal_states_def active_states_def)

lemma states_disjoint: "set terminal_states \<inter> set active_states = {}"
  by (simp add: terminal_states_def active_states_def)

lemma terminal_not_active: "slurm_job_terminal st \<Longrightarrow> \<not> slurm_job_active st"
  using states_disjoint by (auto simp: slurm_job_terminal_def slurm_job_active_def)

subsection \<open>One job\<close>

definition squeue_argv :: "string \<Rightarrow> string list" where
  "squeue_argv j = [''squeue'', ''-h'', ''-j'', j, ''-o'', ''%T'']"

definition sacct_argv :: "string \<Rightarrow> string list" where
  "sacct_argv j = [''sacct'', ''-n'', ''-j'', j, ''--format=State%30'', ''-X'']"

definition worker_sacct_argv :: "string \<Rightarrow> string list" where
  "worker_sacct_argv j = [''sacct'', ''-n'', ''-X'', ''-j'', j, ''--format=State%30'']"

text \<open>The answer of squeue: a state, several rows, or nothing usable.\<close>

datatype squeue_answer = One string | Several | Nothing

definition ask_squeue :: "which \<Rightarrow> run \<Rightarrow> string \<Rightarrow> squeue_answer" where
  "ask_squeue which run j =
     (if \<not> which ''squeue'' then Nothing
      else case run (squeue_argv j) of
        None \<Rightarrow> Nothing
      | Some (rc, out) \<Rightarrow>
          if rc \<noteq> 0 then Nothing
          else case splitlines (strip out) of [] \<Rightarrow> Nothing | [l] \<Rightarrow> One l | _ \<Rightarrow> Several)"

definition ask_sacct :: "which \<Rightarrow> run \<Rightarrow> string list \<Rightarrow> string option" where
  "ask_sacct which run argv =
     (if \<not> which ''sacct'' then None
      else case run argv of
        None \<Rightarrow> None
      | Some (rc, out) \<Rightarrow>
          if rc \<noteq> 0 then None
          else case map first_word (filter (\<lambda>l. strip l \<noteq> []) (splitlines out)) of [w] \<Rightarrow> Some w | _ \<Rightarrow> None)"

definition slurm_state :: "which \<Rightarrow> run \<Rightarrow> string \<Rightarrow> string option" where
  "slurm_state which run j =
     (if \<not> fullmatch job_id_rx j then None
      else case ask_squeue which run j of
        One l \<Rightarrow> Some l
      | Several \<Rightarrow> None
      | Nothing \<Rightarrow> ask_sacct which run (sacct_argv j))"

definition worker_slurm_state :: "which \<Rightarrow> run \<Rightarrow> string \<Rightarrow> string option" where
  "worker_slurm_state which run j =
     (if \<not> fullmatch job_id_rx j then None
      else case ask_squeue which run j of
        One l \<Rightarrow> Some l
      | Several \<Rightarrow> None
      | Nothing \<Rightarrow> ask_sacct which run (worker_sacct_argv j))"

text \<open>A job state is never invented. A terminal or active reading of one job element comes from a
  row that squeue or, only when squeue had no row to give, sacct printed with return code 0 for
  that very job; an id that is not one job element, a missing program, an error exit, a timeout
  and several rows all read as unknown, which is neither terminal nor active.\<close>

theorem slurm_state_observed:
  "(slurm_job_terminal (slurm_state which run j) \<or> slurm_job_active (slurm_state which run j) \<longrightarrow>
      fullmatch job_id_rx j \<and>
      ((\<exists>out. which ''squeue'' \<and> run (squeue_argv j) = Some (0, out) \<and>
              (\<exists>l. splitlines (strip out) = [l] \<and> slurm_state which run j = Some l)) \<or>
       (\<exists>out. which ''sacct'' \<and> run (sacct_argv j) = Some (0, out) \<and>
              (\<exists>l. filter (\<lambda>l. strip l \<noteq> []) (splitlines out) = [l] \<and>
                   slurm_state which run j = Some (first_word l)) \<and>
              ask_squeue which run j = Nothing))) \<and>
   \<not> (slurm_job_terminal (slurm_state which run j) \<and> slurm_job_active (slurm_state which run j))"
proof -
  have sacct: "\<exists>out l. which ''sacct'' \<and> run argv = Some (0, out) \<and>
      filter (\<lambda>l. strip l \<noteq> []) (splitlines out) = [l] \<and> w = first_word l"
    if "ask_sacct which run argv = Some w" for argv w
    using that by (auto simp: ask_sacct_def map_eq_Cons_conv split: if_splits option.splits prod.splits list.splits)
  have squeue: "which ''squeue'' \<and> (\<exists>out. run (squeue_argv j) = Some (0, out) \<and> splitlines (strip out) = [l])"
    if "ask_squeue which run j = One l" for l
    using that by (auto simp: ask_squeue_def split: if_splits option.splits prod.splits list.splits)
  show ?thesis
    using terminal_not_active
    by (auto simp: slurm_state_def split: if_splits squeue_answer.splits dest: squeue)
      (cases "ask_sacct which run (sacct_argv j)"; force dest: sacct)+
qed

text \<open>The two copies of the observer agree, on a host whose sacct does not care about the order of its
  options.\<close>

lemma observers_agree:
  assumes "run (sacct_argv j) = run (worker_sacct_argv j)"
  shows "slurm_state which run j = worker_slurm_state which run j"
  using assms by (simp add: slurm_state_def worker_slurm_state_def ask_sacct_def split: squeue_answer.split)

definition sacct_row :: "which \<Rightarrow> run \<Rightarrow> string \<Rightarrow> string option" where
  "sacct_row which run j =
     (if \<not> fullmatch job_id_rx j \<or> \<not> which ''sacct'' then None
      else case run [''sacct'', ''-n'', ''-X'', ''-P'', ''-j'', j,
                     ''--format=JobID,JobName%40,State,ExitCode,Elapsed,End,Comment%60''] of
        None \<Rightarrow> None
      | Some (rc, out) \<Rightarrow>
          if rc \<noteq> 0 then None
          else case filter (\<lambda>l. strip l \<noteq> []) (splitlines out) of [l] \<Rightarrow> Some l | _ \<Rightarrow> None)"


subsection \<open>Batches with a cache\<close>

type_synonym answers = "(string, string option) fmap"

text \<open>\<open>",".join(job_ids)\<close>, the rows of squeue, then the rows of sacct for the ids squeue did not have.\<close>

definition squeue_row :: "string fset \<Rightarrow> answers \<times> string list \<Rightarrow> string \<Rightarrow> answers \<times> string list" where
  "squeue_row ids acc line = (case split_ws line of
     [i, st] \<Rightarrow> if i |\<in>| ids then (fmupd i (Some st) (fst acc), snd acc @ [i]) else acc
   | _ \<Rightarrow> acc)"

definition sacct_state :: "string fset \<Rightarrow> string \<Rightarrow> (string \<times> string) option" where
  "sacct_state ids line = (case split_on (CHR ''|'') (strip line) of
     i # st # _ \<Rightarrow> if i |\<in>| ids then Some (i, if strip st \<noteq> [] then hd (split_ws st) else []) else None
   | _ \<Rightarrow> None)"

text \<open>\<open>states[0] if len(states) == 1 and states[0] else None\<close>, for every id seen in the rows.\<close>

definition single_state :: "(string \<times> string) list \<Rightarrow> string \<Rightarrow> string option" where
  "single_state rows i = (case filter (\<lambda>(k, _). k = i) rows of [(_, st)] \<Rightarrow> if st \<noteq> [] then Some st else None | _ \<Rightarrow> None)"

definition batch :: "which \<Rightarrow> run \<Rightarrow> string list \<Rightarrow> answers" where
  "batch which run ids =
     (let out = fmap_of_list (map (\<lambda>j. (j, None)) ids);
          (out, queued) =
            (if which ''squeue'' then
               case run [''squeue'', ''-h'', ''-j'', join '','' ids, ''-o'', ''%i %T''] of
                 Some (rc, text) \<Rightarrow>
                   if rc = 0 then foldl (squeue_row (fset_of_list ids)) (out, []) (splitlines text) else (out, [])
               | None \<Rightarrow> (out, [])
             else (out, []));
          rest = filter (\<lambda>j. j \<notin> set queued) ids
      in if rest \<noteq> [] \<and> which ''sacct'' then
           case run [''sacct'', ''-n'', ''-X'', ''-P'', ''-j'', join '','' rest, ''--format=JobID,State''] of
             Some (rc, text) \<Rightarrow>
               if rc = 0 then
                 let rows = List.map_filter (sacct_state (fset_of_list ids)) (splitlines text)
                 in foldl (\<lambda>m (i, _). fmupd i (single_state rows i) m) out rows
               else out
           | None \<Rightarrow> out
         else out)"

type_synonym state_cache = "(string, rat \<times> string option) fmap"

text \<open>The entry of a job that is a well-formed id and has not expired.\<close>

definition cached :: "rat \<Rightarrow> rat \<Rightarrow> state_cache \<Rightarrow> string \<Rightarrow> string option option" where
  "cached ttl now c j = (case fmlookup c j of
     Some (t, v) \<Rightarrow> if fullmatch job_id_rx j \<and> now - t < ttl then Some v else None
   | None \<Rightarrow> None)"

text \<open>\<open>d.get(j)\<close> of a dictionary of states that may hold \<open>None\<close>.\<close>

definition got :: "string option option \<Rightarrow> string option" where
  "got x = (case x of Some v \<Rightarrow> v | None \<Rightarrow> None)"

text \<open>\<open>StateCache.states\<close> at time \<open>now\<close>: the answers and the cache afterwards.\<close>

definition cache_states ::
    "rat \<Rightarrow> which \<Rightarrow> run \<Rightarrow> rat \<Rightarrow> string list \<Rightarrow> state_cache \<Rightarrow> (string \<times> string option) list \<times> state_cache" where
  "cache_states ttl which run now ids c =
     (let missing = filter (\<lambda>j. fullmatch job_id_rx j \<and> cached ttl now c j = None) ids;
          found = (if missing = [] then fmempty else batch which run missing);
          c' = foldl (\<lambda>m j. fmupd j (now, got (fmlookup found j)) m) c missing
      in (map (\<lambda>j. (j, if j \<in> set missing then got (fmlookup found j) else got (cached ttl now c j))) ids, c'))"

lemma fold_upd_lookup:
  "fmlookup (foldl (\<lambda>m j. fmupd j (f j) m) c js) k = (if k \<in> set js then Some (f k) else fmlookup c k)"
  by (induction js arbitrary: c) auto

text \<open>Within the time to live a job is asked for once. After a call, asking again for the same
  ids before the entries expire gives the same answers without running any command, whatever the
  commands would now print, and leaves the cache as it is.\<close>

theorem cache_asks_once:
  assumes "cache_states ttl which run t0 ids c = (answers, c')"
    and "t1 - t0 < ttl"
    and "\<And>j t v. fmlookup c j = Some (t, v) \<Longrightarrow> t0 - t < ttl \<Longrightarrow> t1 - t < ttl"
  shows "cache_states ttl which' run' t1 ids c' = (answers, c')"
proof -
  define missing where "missing = filter (\<lambda>j. fullmatch job_id_rx j \<and> cached ttl t0 c j = None) ids"
  define answer where
    "answer j = got (fmlookup (if missing = [] then fmempty else batch which run missing) j)" for j
  have c': "c' = foldl (\<lambda>m j. fmupd j (t0, answer j) m) c missing"
    and answers: "answers = map (\<lambda>j. (j, if j \<in> set missing then answer j else got (cached ttl t0 c j))) ids"
    using assms(1) unfolding cache_states_def Let_def missing_def [symmetric] answer_def [symmetric]
    by (simp_all only: prod.inject)
  have look: "fmlookup c' j = (if j \<in> set missing then Some (t0, answer j) else fmlookup c j)" for j
    unfolding c' by (rule fold_upd_lookup)
  have ok: "fullmatch job_id_rx j" if "j \<in> set missing" for j
    using that by (simp add: missing_def)
  have hit: "cached ttl t1 c' j = Some (answer j)" if "j \<in> set missing" for j
    using that ok assms(2) by (simp add: cached_def look)
  have old: "cached ttl t1 c' j = cached ttl t0 c j" if "j \<notin> set missing" "cached ttl t0 c j \<noteq> None" for j
    using that assms(3) by (auto simp: cached_def look split: option.splits if_splits)
  have fresh: "\<not> (fullmatch job_id_rx j \<and> cached ttl t1 c' j = None)" if "j \<in> set ids" for j
    using that hit [of j] old [of j] by (cases "j \<in> set missing") (auto simp: missing_def)
  then have none: "filter (\<lambda>j. fullmatch job_id_rx j \<and> cached ttl t1 c' j = None) ids = []"
    by (simp add: filter_empty_conv)
  have "got (cached ttl t1 c' j) = (if j \<in> set missing then answer j else got (cached ttl t0 c j))"
    if "j \<in> set ids" for j
  proof (cases "fullmatch job_id_rx j")
    case True
    then show ?thesis
      using that hit [of j] old [of j] by (cases "j \<in> set missing") (auto simp: got_def missing_def)
  next
    case False
    then show ?thesis by (auto simp: cached_def dest: ok split: option.splits)
  qed
  then have "map (\<lambda>j. (j, got (cached ttl t1 c' j))) ids = answers"
    unfolding answers by (intro map_cong) simp_all
  then show ?thesis
    unfolding cache_states_def Let_def none by simp
qed

end
