(* ===== verification/Observers.thy ===== *)
theory Observers
  imports Invariant Slurm "HOL-Library.Product_Lexorder"
begin

text \<open>
  \<open>observers.py\<close>: when a WAITING task may run again. Only explicit conditions recorded in the
  task's \<open>waiting_on\<close> are evaluated; a ruling stays the master's. Also \<open>clean_surrender\<close> of
  \<open>turnover.py\<close>, which the predicate consults.
\<close>

subsection \<open>References a task can wait on\<close>

text \<open>\<open>[0-9]+(?:_[0-9]+)?(?::(?:start|end))?\<close> and \<open>[A-Za-z0-9][A-Za-z0-9_.-]*(?:#[^\s]+)?\<close>\<close>

definition wait_job_rx :: rx where
  "wait_job_rx = Seq job_id_rx (Opt (Seq (lit '':'') (Alt (lit ''start'') (lit ''end''))))"

definition wait_task_rx :: rx where
  "wait_task_rx = Seq task_id_rx (Opt (Seq (lit ''#'') (Plus (Cls (\<lambda>c. \<not> is_space c)))))"

definition wait_ref_error :: "string \<Rightarrow> string \<Rightarrow> string option" where
  "wait_ref_error kind rest =
     (if kind = ''job'' then
        (if fullmatch wait_job_rx rest then None
         else Some ''job requires one numeric job/array-element id and optional :start or :end'')
      else if kind = ''artifact'' \<or> kind = ''file'' then
        (if rest \<noteq> [] \<and> starts_with ''/'' rest then None else Some ''artifact/file path must be absolute'')
      else if kind = ''task'' then
        (if fullmatch wait_task_rx rest then None else Some ''invalid dependency task id'')
      else if kind = ''ruling'' then
        (if strip rest \<noteq> [] then None else Some ''ruling requires a name'')
      else if kind = ''rotation'' then
        (if fullmatch request_id_rx rest then None else Some ''invalid rotation ID'')
      else Some ''unsupported wait kind'')"

definition waiting_on_error :: "json \<Rightarrow> string option" where
  "waiting_on_error v = (case v of
     JStr s \<Rightarrow>
       if CHR '':'' \<notin> set s then Some ''expected job:, artifact:, file:, task:, or ruling: reference''
       else wait_ref_error (before (CHR '':'') s) (after (CHR '':'') s)
   | _ \<Rightarrow> Some ''expected job:, artifact:, file:, task:, or ruling: reference'')"

definition evaluate_waiting_on ::
    "env \<Rightarrow> (string \<Rightarrow> string option) \<Rightarrow> 'z farm_scheme \<Rightarrow> json \<Rightarrow> bool" where
  "evaluate_waiting_on E slurm s v =
     (if waiting_on_error v \<noteq> None then False
      else case v of
        JStr w \<Rightarrow>
          (let kind = before (CHR '':'') w; rest = after (CHR '':'') w in
           if kind = ''job'' then
             (let st = slurm (before (CHR '':'') rest) in
              if after (CHR '':'') rest = ''start'' then normalized_slurm_state st = ''RUNNING''
              else slurm_job_terminal st)
           else if kind = ''artifact'' \<or> kind = ''file'' then env_exists E rest
           else if kind = ''task'' then
             (case store_get (hd (split_on (CHR ''#'') rest)) s of
                Inr t \<Rightarrow> t_state t = DONE | Inl e \<Rightarrow> False)
           else False)
      | _ \<Rightarrow> False)"

lemma waiting_on_okD:
  assumes "waiting_on_error v = None"
  obtains w where "v = JStr w" "CHR '':'' \<in> set w"
    "wait_ref_error (before (CHR '':'') w) (after (CHR '':'') w) = None"
  using assms by (auto simp: waiting_on_error_def split: json.splits if_splits)

lemma split_on_hd: "hd (split_on c s) = before c s"
  by (induction s) (auto simp: split_on_def before_def)

text \<open>What a fired condition means, kind by kind.\<close>

definition wait_holds :: "env \<Rightarrow> (string \<Rightarrow> string option) \<Rightarrow> 'z farm_scheme \<Rightarrow> string \<Rightarrow> string \<Rightarrow> bool" where
  "wait_holds E slurm s kind rest \<longleftrightarrow>
     (kind = ''job'' \<and> (let st = slurm (before (CHR '':'') rest) in
        if after (CHR '':'') rest = ''start'' then normalized_slurm_state st = ''RUNNING'' else slurm_job_terminal st)) \<or>
     (kind \<in> {''artifact'', ''file''} \<and> env_exists E rest) \<or>
     (kind = ''task'' \<and> (\<exists>t. fmlookup (f_tasks s) (before (CHR ''#'') rest) = Some t \<and> t_state t = DONE))"

lemma evaluate_holds:
  assumes "evaluate_waiting_on E slurm s v"
  obtains w where "v = JStr w" "waiting_on_error v = None"
    "wait_holds E slurm s (before (CHR '':'') w) (after (CHR '':'') w)"
proof -
  have ok: "waiting_on_error v = None" using assms by (auto simp: evaluate_waiting_on_def split: if_splits)
  then obtain w where v: "v = JStr w" by (auto elim: waiting_on_okD)
  have "wait_holds E slurm s (before (CHR '':'') w) (after (CHR '':'') w)"
    using assms
    by (auto simp: evaluate_waiting_on_def wait_holds_def v Let_def split_on_hd store_get_Inr
        split: if_splits sum.splits)
  then show thesis using that v ok by blast
qed

lemma rulings_never_fire: "before (CHR '':'') w \<in> {''ruling'', ''rotation''} \<Longrightarrow> \<not> evaluate_waiting_on E slurm s (JStr w)"
  by (auto simp: evaluate_waiting_on_def Let_def split: if_splits)

subsection \<open>Master notes\<close>

text \<open>Every readable \<open>MASTER_*.md\<close> with the digest of its contents.\<close>

fun note_entries :: "env \<Rightarrow> (string \<times> string option) list \<Rightarrow> (string \<times> string) list" where
  "note_entries E [] = []"
| "note_entries E ((name, Some raw) # ns) = (name, env_sha256 E raw) # note_entries E ns"
| "note_entries E ((name, None) # ns) = note_entries E ns"

definition master_note_digest :: "env \<Rightarrow> json \<Rightarrow> string option res" where
  "master_note_digest E ws =
     (if \<not> truthy ws then Inr None
      else rbind (as_str ws) (\<lambda>root.
        if \<not> env_is_dir E root then Inr None
        else let entries = sort (note_entries E (env_notes E root)) in
          if entries = [] then Inr None
          else Inr (Some (env_sha256 E (env_encode E (join [char_of (10::nat)]
                 (map (\<lambda>(name, digest). name @ '':'' @ digest) entries)))))))"

definition unread_master_note :: "env \<Rightarrow> task \<Rightarrow> bool res" where
  "unread_master_note E t = rbind (master_note_digest E (meta t ''workspace'')) (\<lambda>cur.
     case cur of None \<Rightarrow> Inr False | Some d \<Rightarrow> Inr (JStr d \<noteq> meta t ''master_notes_digest''))"

subsection \<open>Clean surrender\<close>

text \<open>\<open>turnover.clean_surrender\<close>: a WAITING task whose lease its worker gave up with a checkpoint.\<close>

definition clean_surrender :: "task \<Rightarrow> bool" where
  "clean_surrender t =
     (if t_state t \<noteq> WAITING \<or> t_lease t \<noteq> None then False
      else case meta t ''clean_surrender'' of
        JObj r \<Rightarrow>
          (case dget_or r ''checkpoint'' (JObj fmempty) of
             JObj c \<Rightarrow>
               list_all (\<lambda>k. truthy (dget r k)) [''id'', ''worker_id'', ''lease_id'', ''ts''] \<and>
               (case dget c ''text'' of JStr x \<Rightarrow> strip x \<noteq> [] | _ \<Rightarrow> False) \<and>
               dget r ''waiting_on'' = meta t ''waiting_on''
           | _ \<Rightarrow> False)
      | _ \<Rightarrow> False)"

lemma clean_surrenderD: "clean_surrender t \<Longrightarrow> t_state t = WAITING \<and> t_lease t = None"
  by (auto simp: clean_surrender_def split: if_splits)

subsection \<open>The unblock predicate\<close>

definition unblock :: "env \<Rightarrow> (string \<Rightarrow> string option) \<Rightarrow> 'z farm_scheme \<Rightarrow> task \<Rightarrow> bool res" where
  "unblock E slurm s t =
     (if truthy (meta t ''resume_requested'') then Inr True
      else if evaluate_waiting_on E slurm s (meta t ''waiting_on'') then Inr True
      else if clean_surrender t then Inr False
      else unread_master_note E t)"

text \<open>C22: a WAITING task is released only on a recorded ground. Either the master asked for its
  resumption, or its well-formed \<open>waiting_on\<close> names a condition that holds now (a terminal job,
  a running job for \<open>:start\<close>, an existing path, a DONE task; never a ruling or a rotation), or,
  for a task that did not surrender cleanly, the readable master notes in its workspace have a
  digest it has not seen.\<close>

theorem unblock_grounds:
  "unblock E slurm s t = Inr True \<longrightarrow>
     truthy (meta t ''resume_requested'') \<or>
     (\<exists>w. meta t ''waiting_on'' = JStr w \<and> waiting_on_error (JStr w) = None \<and>
          before (CHR '':'') w \<notin> {''ruling'', ''rotation''} \<and>
          wait_holds E slurm s (before (CHR '':'') w) (after (CHR '':'') w)) \<or>
     (\<not> clean_surrender t \<and> (\<exists>d. master_note_digest E (meta t ''workspace'') = Inr (Some d) \<and>
          JStr d \<noteq> meta t ''master_notes_digest''))"
proof
  assume un: "unblock E slurm s t = Inr True"
  show "truthy (meta t ''resume_requested'') \<or>
     (\<exists>w. meta t ''waiting_on'' = JStr w \<and> waiting_on_error (JStr w) = None \<and>
          before (CHR '':'') w \<notin> {''ruling'', ''rotation''} \<and>
          wait_holds E slurm s (before (CHR '':'') w) (after (CHR '':'') w)) \<or>
     (\<not> clean_surrender t \<and> (\<exists>d. master_note_digest E (meta t ''workspace'') = Inr (Some d) \<and>
          JStr d \<noteq> meta t ''master_notes_digest''))"
  proof (cases "evaluate_waiting_on E slurm s (meta t ''waiting_on'')")
    case True
    then obtain w where "meta t ''waiting_on'' = JStr w" "waiting_on_error (meta t ''waiting_on'') = None"
      "wait_holds E slurm s (before (CHR '':'') w) (after (CHR '':'') w)"
      by (rule evaluate_holds)
    moreover from this True have "before (CHR '':'') w \<notin> {''ruling'', ''rotation''}"
      using rulings_never_fire [of w] by auto
    ultimately show ?thesis by auto
  next
    case False
    with un show ?thesis
      by (auto simp: unblock_def unread_master_note_def rbind_Inr_iff split: if_splits option.splits)
  qed
qed

end
