(* ===== verification/Verify.thy ===== *)
theory Verify
  imports Prelude
begin

text \<open>
  \<open>farmkit/verify.py\<close>: the default verification of an attempt's outputs. It rejects broken
  output, another attempt's output and metrics that are not finite numbers, and compares the
  code that ran with the code a gate certified; a project verifier that raises has failed.
\<close>

record verdict =
  d_ok :: bool
  d_reasons :: "string list"
  d_checked :: "string list"

definition passed :: verdict where
  "passed = \<lparr>d_ok = True, d_reasons = [], d_checked = []\<rparr>"

definition merge :: "verdict \<Rightarrow> verdict \<Rightarrow> verdict" where
  "merge a b = \<lparr>d_ok = (d_ok a \<and> d_ok b), d_reasons = d_reasons a @ d_reasons b, d_checked = d_checked a @ d_checked b\<rparr>"

text \<open>\<open>resolve\<close>: a dotted path into a JSON document.\<close>

fun resolve_parts :: "json \<Rightarrow> string list \<Rightarrow> json option" where
  "resolve_parts cur [] = Some cur"
| "resolve_parts cur (p # ps) = (case cur of
     JObj d \<Rightarrow> (case fmlookup d p of Some v \<Rightarrow> resolve_parts v ps | None \<Rightarrow> None)
   | JList xs \<Rightarrow>
       if p \<noteq> [] \<and> list_all is_digit p \<and> digits_nat p < length xs then resolve_parts (xs ! digits_nat p) ps else None
   | _ \<Rightarrow> None)"

definition resolve :: "json \<Rightarrow> string \<Rightarrow> json option" where
  "resolve payload dotted = resolve_parts payload (split_on (CHR ''.'') dotted)"

text \<open>\<open>isinstance(value, (int, float)) and not isinstance(value, bool) and math.isfinite(value)\<close>; an
  integer too large for a float makes \<open>isfinite\<close> raise.\<close>

definition float_bound :: int where
  "float_bound = 2 ^ 1024 - 2 ^ 970"

fun finite_number :: "json \<Rightarrow> bool res" where
  "finite_number (JInt i) = (if \<bar>i\<bar> < float_bound then Inr True else Inl OverflowError)"
| "finite_number (JFloat (Finite r)) = Inr True"
| "finite_number j = Inr False"

fun json_type :: "json \<Rightarrow> string" where
  "json_type JNull = ''NoneType''"
| "json_type (JBool b) = ''bool''"
| "json_type (JInt i) = ''int''"
| "json_type (JFloat f) = ''float''"
| "json_type (JStr s) = ''str''"
| "json_type (JList xs) = ''list''"
| "json_type (JObj d) = ''dict''"

text \<open>The failing and the passing outcome of one check.\<close>

definition failing :: "string \<Rightarrow> string list \<Rightarrow> verdict" where
  "failing reason checked = \<lparr>d_ok = False, d_reasons = [reason], d_checked = checked\<rparr>"

definition ticked :: "string list \<Rightarrow> verdict" where
  "ticked checked = \<lparr>d_ok = True, d_reasons = [], d_checked = checked\<rparr>"

definition merge_all :: "verdict list \<Rightarrow> verdict" where
  "merge_all vs = foldl merge passed vs"

text \<open>An artifact is a name with the path it is read from; \<open>there\<close> tells which paths exist and \<open>load\<close> is
  \<open>json.loads(path.read_text())\<close>.\<close>

definition check_required :: "(string \<Rightarrow> bool) \<Rightarrow> (string \<times> string) list \<Rightarrow> string \<Rightarrow> verdict" where
  "check_required there arts name = (case map_of arts name of
     Some p \<Rightarrow> if there p then ticked [''required:'' @ name]
       else failing (''required output missing: '' @ name) [''required:'' @ name]
   | None \<Rightarrow> failing (''required output missing: '' @ name) [''required:'' @ name])"

definition check_owner :: "string \<Rightarrow> string \<Rightarrow> dict \<Rightarrow> verdict" where
  "check_owner name aid payload =
     (let seen = (case dget payload ''provenance'' of JObj d \<Rightarrow> dget d ''attempt_id'' | _ \<Rightarrow> JNull) in
      if seen = JStr aid then ticked [''attempt-match'']
      else failing (name @ '' belongs to a different attempt (expected this run, found '' @
             (if truthy seen then ''an earlier one'' else ''none'') @ '')'') [''attempt-match''])"

definition check_finite :: "string \<Rightarrow> dict \<Rightarrow> string \<Rightarrow> verdict res" where
  "check_finite name payload key =
     rbind (case resolve (JObj payload) key of None \<Rightarrow> Inr False | Some v \<Rightarrow> finite_number v) (\<lambda>ok.
     Inr (if ok then ticked [''finite:'' @ key]
          else failing (key @ '' is missing or not a finite number in '' @ name) [''finite:'' @ key]))"

definition check_payload :: "string \<Rightarrow> string \<Rightarrow> string list \<Rightarrow> json \<Rightarrow> verdict res" where
  "check_payload name aid metrics payload = (case payload of
     JObj d \<Rightarrow> rbind (rmap (check_finite name d) metrics) (\<lambda>vs. Inr (merge_all (check_owner name aid d # vs)))
   | _ \<Rightarrow> Inr (failing (name @ '' is not a JSON object (got '' @ json_type payload @ ''); attempt and metric checks cannot run'')
            [''attempt-match'']))"

definition check_main ::
    "(string \<Rightarrow> bool) \<Rightarrow> (string \<Rightarrow> json res) \<Rightarrow> string \<Rightarrow> string list \<Rightarrow> (string \<times> string) list \<Rightarrow> string option \<Rightarrow> verdict res" where
  "check_main there load aid metrics arts main =
     (case (if main \<noteq> None \<and> main \<noteq> Some [] then main else (case arts of [] \<Rightarrow> None | a # as \<Rightarrow> Some (fst a))) of
        None \<Rightarrow> Inr passed
      | Some name \<Rightarrow>
          (case (if name = [] then None else map_of arts name) of
             None \<Rightarrow> Inr passed
           | Some p \<Rightarrow>
               if \<not> there p then Inr passed
               else (case load p of
                 Inr payload \<Rightarrow> check_payload name aid metrics payload
               | Inl e \<Rightarrow>
                   if is_value_error e \<or> is_os_error e
                   then Inr (failing (name @ '' is not readable JSON: '' @ exn_text e) []) else Inl e)))"

definition differing :: "(string, string) fmap \<Rightarrow> (string, string) fmap \<Rightarrow> string list" where
  "differing a b = sorted_list_of_fset (ffilter (\<lambda>f. fmlookup a f \<noteq> fmlookup b f) (fmdom a |\<union>| fmdom b))"

definition check_gate :: "(string, string) fmap option \<Rightarrow> (string, string) fmap \<Rightarrow> verdict" where
  "check_gate gate used = (case gate of
     None \<Rightarrow> passed
   | Some certified \<Rightarrow>
       (case differing certified used of
          [] \<Rightarrow> ticked [''gate'']
        | fs \<Rightarrow> failing (''code differs from the certified gate: '' @ join '', '' fs) [''gate'']))"

definition default_checks ::
    "(string \<Rightarrow> bool) \<Rightarrow> (string \<Rightarrow> json res) \<Rightarrow> string \<Rightarrow> (string, string) fmap \<Rightarrow> (string \<times> string) list \<Rightarrow>
     string list \<Rightarrow> string list \<Rightarrow> (string, string) fmap option \<Rightarrow> string option \<Rightarrow> verdict res" where
  "default_checks there load aid code arts required metrics gate main =
     rbind (check_main there load aid metrics arts main) (\<lambda>v.
     Inr (merge_all (map (check_required there arts) required @ [v, check_gate gate code])))"

text \<open>\<open>run_verifier\<close>: what a project verifier returned, or the text of what it raised.\<close>

datatype verifier_result = Returned verdict | Truth bool | Raised string

fun run_verifier :: "verifier_result \<Rightarrow> verdict" where
  "run_verifier (Returned v) = v"
| "run_verifier (Truth b) = \<lparr>d_ok = b, d_reasons = (if b then [] else [''verifier returned false'']), d_checked = [''verifier'']\<rparr>"
| "run_verifier (Raised m) = failing (''verifier raised '' @ m) [''verifier'']"

subsection \<open>What a passing verdict means\<close>

lemma merge_all_simps:
  "d_ok (merge a b) \<longleftrightarrow> d_ok a \<and> d_ok b"
  "d_ok passed" "\<not> d_ok (failing r c)" "d_ok (ticked c)"
  by (simp_all add: merge_def passed_def failing_def ticked_def)

lemma foldl_merge_ok: "d_ok (foldl merge v vs) \<longleftrightarrow> d_ok v \<and> (\<forall>w\<in>set vs. d_ok w)"
  by (induction vs arbitrary: v) (auto simp: merge_all_simps)

lemma merge_all_ok [simp]: "d_ok (merge_all vs) \<longleftrightarrow> (\<forall>v\<in>set vs. d_ok v)"
  by (simp add: merge_all_def foldl_merge_ok merge_all_simps)

text \<open>A verdict fails exactly when it gives a reason.\<close>

definition reasoned :: "verdict \<Rightarrow> bool" where
  "reasoned v \<longleftrightarrow> (d_ok v \<longleftrightarrow> d_reasons v = [])"

lemma reasoned_basic [simp]: "reasoned passed" "reasoned (failing r c)" "reasoned (ticked c)"
  "reasoned a \<Longrightarrow> reasoned b \<Longrightarrow> reasoned (merge a b)"
  by (auto simp: reasoned_def passed_def failing_def ticked_def merge_def)

lemma reasoned_foldl: "reasoned v \<Longrightarrow> list_all reasoned vs \<Longrightarrow> reasoned (foldl merge v vs)"
  by (induction vs arbitrary: v) simp_all

lemma reasoned_merge_all: "list_all reasoned vs \<Longrightarrow> reasoned (merge_all vs)"
  by (simp add: merge_all_def reasoned_foldl)

lemma set_differing: "set (differing a b) = {f. fmlookup a f \<noteq> fmlookup b f}"
  by (auto simp: differing_def fmlookup_dom_iff)

lemma differing_Nil [simp]: "differing a b = [] \<longleftrightarrow> a = b"
proof -
  have "differing a b = [] \<longleftrightarrow> (\<forall>f. fmlookup a f = fmlookup b f)"
    using set_differing [of a b] by (metis (mono_tags) Collect_empty_eq set_empty)
  then show ?thesis by (auto intro: fmap_ext)
qed

lemma rmap_Inr_all: "rmap f xs = Inr ys \<Longrightarrow> x \<in> set xs \<Longrightarrow> \<exists>y\<in>set ys. f x = Inr y"
  by (induction xs arbitrary: ys) (auto simp: rbind_Inr_iff)

lemma rmap_Inr_back: "rmap f xs = Inr ys \<Longrightarrow> y \<in> set ys \<Longrightarrow> \<exists>x\<in>set xs. f x = Inr y"
  by (induction xs arbitrary: ys) (auto simp: rbind_Inr_iff)

lemma check_payload_ok:
  assumes "check_payload name aid metrics payload = Inr v"
  shows "d_ok v \<longleftrightarrow> (\<exists>d p. payload = JObj d \<and> dget d ''provenance'' = JObj p \<and> dget p ''attempt_id'' = JStr aid \<and>
      (\<forall>k\<in>set metrics. \<exists>x. resolve payload k = Some x \<and> finite_number x = Inr True))"
    and "reasoned v"
proof -
  have fin: "d_ok w \<longleftrightarrow> (\<exists>x. resolve (JObj d) k = Some x \<and> finite_number x = Inr True)"
    and fin': "reasoned w" if w: "check_finite name d k = Inr w" for d k w
  proof -
    obtain ok r c where ok: "(case resolve (JObj d) k of None \<Rightarrow> Inr False | Some v \<Rightarrow> finite_number v) = Inr ok"
      and "w = (if ok then ticked c else failing r c)"
      using w unfolding check_finite_def rbind_Inr_iff by blast
    then show "d_ok w \<longleftrightarrow> (\<exists>x. resolve (JObj d) k = Some x \<and> finite_number x = Inr True)" "reasoned w"
      by (cases ok; cases "resolve (JObj d) k"; auto simp: merge_all_simps)+
  qed
  have own: "d_ok (check_owner name aid d) \<longleftrightarrow> (\<exists>p. dget d ''provenance'' = JObj p \<and> dget p ''attempt_id'' = JStr aid)" for d
    by (auto simp: check_owner_def Let_def merge_all_simps split: json.splits)
  have own': "reasoned (check_owner name aid d)" for d by (simp add: check_owner_def Let_def)
  show "d_ok v \<longleftrightarrow> (\<exists>d p. payload = JObj d \<and> dget d ''provenance'' = JObj p \<and> dget p ''attempt_id'' = JStr aid \<and>
      (\<forall>k\<in>set metrics. \<exists>x. resolve payload k = Some x \<and> finite_number x = Inr True))"
  proof (cases "\<exists>d. payload = JObj d")
    case True
    then obtain d vs where d: "payload = JObj d" "rmap (check_finite name d) metrics = Inr vs"
      "v = merge_all (check_owner name aid d # vs)"
      using assms by (auto simp: check_payload_def rbind_Inr_iff)
    have "(\<forall>w\<in>set vs. d_ok w) \<longleftrightarrow> (\<forall>k\<in>set metrics. \<exists>x. resolve (JObj d) k = Some x \<and> finite_number x = Inr True)"
      using rmap_Inr_all [OF d(2)] rmap_Inr_back [OF d(2)] fin by metis
    then show ?thesis using d own by auto
  next
    case False
    then show ?thesis using assms by (cases payload) (auto simp: check_payload_def merge_all_simps)
  qed
  show "reasoned v"
  proof (cases "\<exists>d. payload = JObj d")
    case True
    then obtain d vs where d: "rmap (check_finite name d) metrics = Inr vs"
      "v = merge_all (check_owner name aid d # vs)"
      using assms by (auto simp: check_payload_def rbind_Inr_iff)
    have "\<forall>w\<in>set vs. reasoned w" using rmap_Inr_back [OF d(1)] fin' by blast
    then show ?thesis using own' unfolding d(2) by (intro reasoned_merge_all) (simp add: list_all_iff)
  next
    case False
    then show ?thesis using assms by (cases payload) (auto simp: check_payload_def)
  qed
qed

lemma check_main_reasoned:
  "check_main there load aid metrics arts main = Inr v \<Longrightarrow> reasoned v"
  unfolding check_main_def Let_def
  by (auto split: option.splits sum.splits if_splits dest: check_payload_ok(2))

text \<open>The main artifact on the disk, if the step names one (or has any output) and it is there.\<close>

definition main_artifact :: "(string \<Rightarrow> bool) \<Rightarrow> (string \<times> string) list \<Rightarrow> string option \<Rightarrow> string option" where
  "main_artifact there arts main =
     (let first = (case arts of [] \<Rightarrow> None | a # as \<Rightarrow> Some (fst a));
          name = (case main of Some m \<Rightarrow> if m = [] then first else Some m | None \<Rightarrow> first) in
      case name of None \<Rightarrow> None
      | Some m \<Rightarrow> (case map_of arts m of Some p \<Rightarrow> if m \<noteq> [] \<and> there p then Some p else None | None \<Rightarrow> None))"

lemma check_main_by:
  "check_main there load aid metrics arts main = Inr w \<Longrightarrow>
   (main_artifact there arts main = None \<and> w = passed) \<or>
   (\<exists>p name. main_artifact there arts main = Some p \<and>
      ((\<exists>payload. load p = Inr payload \<and> check_payload name aid metrics payload = Inr w) \<or>
       (\<exists>e. load p = Inl e \<and> w = failing (name @ '' is not readable JSON: '' @ exn_text e) [])))"
  unfolding check_main_def main_artifact_def Let_def
  by (cases main; cases arts; auto split: if_splits option.splits sum.splits)

text \<open>C23: what a verdict of the default verification certifies, whatever the step declares and whatever is on
  the disk. It is good exactly when every required output exists; the main artifact, where there
  is one on the disk, is a JSON object that carries the id of this very attempt and in which
  every declared metric is a finite number; and, under a gate, the code that ran is the certified
  code file by file. So a missing main artifact that is not required is not held against the
  attempt, and its metrics are then not looked at. A verdict is bad exactly when it states a
  reason.\<close>

theorem verdict_certifies:
  assumes "default_checks there load aid code arts required metrics gate main = Inr v"
  shows "(d_ok v \<longleftrightarrow>
      (\<forall>name\<in>set required. \<exists>q. map_of arts name = Some q \<and> there q) \<and>
      (\<forall>p. main_artifact there arts main = Some p \<longrightarrow>
         (\<exists>d pr. load p = Inr (JObj d) \<and> dget d ''provenance'' = JObj pr \<and> dget pr ''attempt_id'' = JStr aid \<and>
            (\<forall>k\<in>set metrics. \<exists>x. resolve (JObj d) k = Some x \<and> finite_number x = Inr True))) \<and>
      (\<forall>certified. gate = Some certified \<longrightarrow> code = certified)) \<and>
    (d_ok v \<longleftrightarrow> d_reasons v = [])"
proof -
  from assms(1) obtain w where w: "check_main there load aid metrics arts main = Inr w"
    and v: "v = merge_all (map (check_required there arts) required @ [w, check_gate gate code])"
    by (auto simp: default_checks_def rbind_Inr_iff)
  have req: "d_ok (check_required there arts name) \<longleftrightarrow> (\<exists>q. map_of arts name = Some q \<and> there q)"
    "reasoned (check_required there arts name)" for name
    by (auto simp: check_required_def merge_all_simps split: option.split)
  have gate: "d_ok (check_gate gate code) \<longleftrightarrow> (\<forall>certified. gate = Some certified \<longrightarrow> code = certified)"
    using differing_Nil [of "the gate" code]
    by (cases gate; cases "differing (the gate) code") (auto simp: check_gate_def merge_all_simps simp del: differing_Nil)
  have gate': "reasoned (check_gate gate code)"
    by (cases gate; cases "differing (the gate) code") (simp_all add: check_gate_def del: differing_Nil)
  have main: "d_ok w \<longleftrightarrow> (\<forall>p. main_artifact there arts main = Some p \<longrightarrow>
      (\<exists>d pr. load p = Inr (JObj d) \<and> dget d ''provenance'' = JObj pr \<and> dget pr ''attempt_id'' = JStr aid \<and>
         (\<forall>k\<in>set metrics. \<exists>x. resolve (JObj d) k = Some x \<and> finite_number x = Inr True)))"
    using check_main_by [OF w] by (auto simp: check_payload_ok(1) merge_all_simps)
  have "reasoned v"
    unfolding v by (rule reasoned_merge_all) (simp add: list_all_iff req gate' check_main_reasoned [OF w])
  then show ?thesis using req(1) gate main by (auto simp: v reasoned_def)
qed

text \<open>The one verdict-less outcome: an integer metric that no float can hold makes the check raise.\<close>

lemma huge_metric_raises:
  "float_bound \<le> i \<Longrightarrow> check_finite name (obj [(''m'', JInt i)]) ''m'' = Inl OverflowError"
  by (simp add: check_finite_def resolve_def split_on_def)

end
