(* ===== verification/Classify.thy ===== *)
theory Classify
  imports Observers Verify
begin

text \<open>
  \<open>farmkit/classify.py\<close> and \<open>farmkit/waits.py\<close>: failure classes, retry budgets, the names under
  which a failure is parked for a ruling and how the watchers read them back, and the reference
  a worker waits on after it has submitted jobs.
\<close>

subsection \<open>Failure classes\<close>

definition infra_states :: "string list" where
  "infra_states = [''NODE_FAIL'', ''BOOT_FAIL'', ''PREEMPTED'']"

definition failure_classes :: "string list" where
  "failure_classes = [''code'', ''science'', ''budget'', ''infra'', ''unknown'']"

definition code_markers :: "string list" where
  "code_markers = [''belongs to a different attempt'', ''required output missing'', ''is not readable JSON'']"

definition max_auto :: "string \<Rightarrow> nat" where
  "max_auto cls = (if cls = ''infra'' then 1 else 0)"

definition unusable :: "verdict \<Rightarrow> bool" where
  "unusable v \<longleftrightarrow> list_ex (\<lambda>r. list_ex (\<lambda>m. contains m r) code_markers) (d_reasons v)"

definition classify :: "string option \<Rightarrow> verdict option \<Rightarrow> bool \<Rightarrow> int option \<Rightarrow> string option" where
  "classify state v present exit_code =
     (let norm = normalized_slurm_state state in
      if norm = [] then Some ''unknown''
      else if norm \<in> set infra_states then Some ''infra''
      else if norm = ''TIMEOUT'' then Some ''budget''
      else if norm \<in> {''FAILED'', ''OUT_OF_MEMORY'', ''CANCELLED'', ''DEADLINE''} then Some ''code''
      else if norm = ''COMPLETED'' then
        (if exit_code \<noteq> None \<and> exit_code \<noteq> Some 0 then Some ''code''
         else if \<not> present then Some ''code''
         else case v of
           Some d \<Rightarrow> if d_ok d then None else if unusable d then Some ''code'' else Some ''science''
         | None \<Rightarrow> None)
      else Some ''unknown'')"

definition retry_allowed :: "string \<Rightarrow> nat \<Rightarrow> bool" where
  "retry_allowed cls used \<longleftrightarrow> used < max_auto cls"

subsection \<open>Ruling names\<close>

text \<open>\<open>re.sub(r"[^A-Za-z0-9_.-]+", "-", text)\<close>\<close>

fun squash :: "bool \<Rightarrow> string \<Rightarrow> string" where
  "squash inside [] = []"
| "squash inside (c # cs) =
     (if id_char c then c # squash False cs
      else if inside then squash True cs else CHR ''-'' # squash True cs)"

definition sanitize :: "string \<Rightarrow> string \<Rightarrow> string" where
  "sanitize alt s = (let t = strip_char CHR ''-'' (squash False s) in if t = [] then alt else t)"

definition task_prefix :: "string option \<Rightarrow> string" where
  "task_prefix t = (case t of None \<Rightarrow> ''task'' | Some i \<Rightarrow> if i = [] then ''task'' else sanitize ''x'' i)"

definition ruling_name :: "string option \<Rightarrow> string \<Rightarrow> string \<Rightarrow> string \<Rightarrow> string" where
  "ruling_name t cls step aid =
     ''ruling:'' @ join ''-'' [task_prefix t, cls, sanitize ''x'' step, take 8 aid]"

text \<open>The class of a parked task and whether only the owner may resolve it.\<close>

definition parse_ruling :: "string option \<Rightarrow> string option \<Rightarrow> (string \<times> bool) option" where
  "parse_ruling waiting_on t = (case waiting_on of
     None \<Rightarrow> None
   | Some w \<Rightarrow>
       if w = [] \<or> \<not> starts_with ''ruling:'' w then None
       else (let name = drop 7 w; prefix = task_prefix t @ ''-'' in
         if starts_with ''owner'' name then Some (''owner'', True)
         else if \<not> starts_with prefix name then Some (''unknown'', True)
         else (let head = before CHR ''-'' (drop (length prefix) name);
                   cls = (if head \<in> set failure_classes then head else ''unknown'')
               in Some (cls, cls \<noteq> ''code''))))"

lemma dash_not_in_classes: "cls \<in> set failure_classes \<Longrightarrow> CHR ''-'' \<notin> set cls"
  by (auto simp: failure_classes_def)

lemma starts_with_dash:
  assumes "CHR ''-'' \<notin> set p"
  shows "starts_with p (a @ CHR ''-'' # b) \<longleftrightarrow> starts_with p a"
proof (cases "length p \<le> length a")
  case True
  then show ?thesis by (simp add: starts_with_def)
next
  case False
  then have "take (length p) (a @ CHR ''-'' # b) = a @ CHR ''-'' # take (length p - Suc (length a)) b"
    by (simp add: take_Cons')
  then have "CHR ''-'' \<in> set (take (length p) (a @ CHR ''-'' # b))" by (metis in_set_conv_decomp)
  then have "\<not> starts_with p (a @ CHR ''-'' # b)" using assms unfolding starts_with_def by metis
  moreover have "\<not> starts_with p a" using False by (metis starts_with_def length_take min.cobounded1)
  ultimately show ?thesis by simp
qed

text \<open>A ruling name is read back as what it was made from. The class survives whatever the task and
  step are called, the park is open to the master exactly when the class is \<open>code\<close>, and the one
  exception, a task whose name begins with \<open>owner\<close>, errs on the owner's side.\<close>

theorem ruling_roundtrip:
  assumes "cls \<in> set failure_classes"
  shows "parse_ruling (Some (ruling_name t cls step aid)) t =
    Some (if starts_with ''owner'' (task_prefix t) then (''owner'', True) else (cls, cls \<noteq> ''code''))"
proof -
  let ?rest = "sanitize ''x'' step @ ''-'' @ take 8 aid"
  let ?name = "task_prefix t @ CHR ''-'' # cls @ CHR ''-'' # ?rest"
  have w: "ruling_name t cls step aid = ''ruling:'' @ ?name" by (simp add: ruling_name_def)
  have "starts_with ''ruling:'' (ruling_name t cls step aid)" "drop 7 (ruling_name t cls step aid) = ?name"
    unfolding w by (simp_all only: starts_with_append) simp
  moreover have "starts_with ''owner'' ?name \<longleftrightarrow> starts_with ''owner'' (task_prefix t)"
    by (rule starts_with_dash) simp
  moreover have "starts_with (task_prefix t @ ''-'') ?name"
    using starts_with_append [of "task_prefix t @ ''-''" "cls @ CHR ''-'' # ?rest"] by simp
  moreover have "drop (length (task_prefix t @ ''-'')) ?name = cls @ CHR ''-'' # ?rest" by simp
  moreover have "before CHR ''-'' (cls @ CHR ''-'' # ?rest) = cls"
    using dash_not_in_classes [OF assms] by simp
  moreover have "ruling_name t cls step aid \<noteq> []" by (simp add: w)
  ultimately show ?thesis using assms unfolding parse_ruling_def Let_def by simp
qed

text \<open>What the master may resolve on its own.\<close>

lemma master_resolves_code_only:
  assumes "parse_ruling w t = Some (c, False)"
  shows "c = ''code'' \<and> (\<exists>rest. w = Some (''ruling:'' @ task_prefix t @ ''-code'' @ rest))"
proof -
  from assms obtain x where w: "w = Some (''ruling:'' @ x)" and own: "\<not> starts_with ''owner'' x"
    and p: "starts_with (task_prefix t @ ''-'') x"
    by (auto simp: parse_ruling_def starts_with_iff Let_def split: option.splits if_splits)
  from p obtain y where x: "x = task_prefix t @ CHR ''-'' # y" by (auto simp: starts_with_iff)
  from assms own have "c = ''code'' \<and> before CHR ''-'' y = ''code''"
    by (auto simp: parse_ruling_def w x Let_def starts_with_def split: if_splits)
  then have "\<exists>rest. y = ''code'' @ rest" by (metis before_def takeWhile_dropWhile_id)
  then show ?thesis using w x \<open>c = ''code'' \<and> _\<close> by auto
qed

subsection \<open>What a worker waits on\<close>

text \<open>A string that may be missing, used as a truth value.\<close>

definition given :: "string option \<Rightarrow> string option" where
  "given x = (if x = Some [] then None else x)"

definition forbid_artifact_wait :: "string \<Rightarrow> unit res" where
  "forbid_artifact_wait w = ensure (\<not> starts_with ''artifact:'' w \<and> \<not> starts_with ''file:'' w)
     (ValueError ''job outputs are verified after the job ends; wait on job:<id>, not on the file'')"

definition job_number :: "string \<Rightarrow> nat" where
  "job_number j = digits_nat (takeWhile is_digit j)"

text \<open>\<open>expected\<close> gives the expected ends, of any ordered type.\<close>

definition wait_reference :: "string list \<Rightarrow> (string, 'e::linorder) fmap \<Rightarrow> string option \<Rightarrow> string res" where
  "wait_reference ids expected barrier =
     (case (case barrier of Some b \<Rightarrow> if b = [] then None else Some b | None \<Rightarrow> None) of
        Some b \<Rightarrow> Inr (''job:'' @ b)
      | None \<Rightarrow>
          if ids = [] then Inl (ValueError ''nothing to wait on'')
          else (case filter (\<lambda>j. j |\<in>| fmdom expected) ids of
            [] \<Rightarrow> Inr (''job:'' @ arg_min_list job_number ids)
          | known \<Rightarrow> Inr (''job:'' @ arg_min_list (\<lambda>j. (the (fmlookup expected j), job_number j)) known)))"

definition barrier_argv :: "string \<Rightarrow> string list \<Rightarrow> string option \<Rightarrow> string \<Rightarrow> string \<Rightarrow> string list" where
  "barrier_argv grp ids part time_limit aid =
     [''sbatch'', ''--parsable'', ''--job-name=barrier-'' @ grp @ ''-'' @ take 8 aid,
      ''--comment=attempt:'' @ aid, ''--dependency=afterany:'' @ join '':'' ids,
      ''--time='' @ time_limit, ''-c'', ''1''] @
     (case part of Some p \<Rightarrow> if p = [] then [] else [''-p'', p] | None \<Rightarrow> []) @ [''--wrap'', ''exit 0'']"

lemma arg_min_list_in: "xs \<noteq> [] \<Longrightarrow> arg_min_list f xs \<in> set xs"
  by (induction xs rule: induct_list012) (auto simp: Let_def)

lemma wait_reference_job:
  assumes "wait_reference ids expected barrier = Inr w"
  shows "\<exists>j. w = ''job:'' @ j \<and> (j \<in> set ids \<or> barrier = Some j)"
  using assms arg_min_list_in [of ids job_number]
    arg_min_list_in [of "filter (\<lambda>j. j |\<in>| fmdom expected) ids" "\<lambda>j. (the (fmlookup expected j), job_number j)"]
  by (auto simp: wait_reference_def split: option.splits if_splits list.splits)

lemma fullmatch_Seq: "fullmatch (Seq r q) s \<longleftrightarrow> (\<exists>u v. s = u @ v \<and> fullmatch r u \<and> fullmatch q v)"
  by (auto simp: fullmatch_lang conc_def)

lemma fullmatch_Opt: "fullmatch (Opt r) s \<longleftrightarrow> s = [] \<or> fullmatch r s"
  by (auto simp: fullmatch_lang Opt_def)

lemma job_chars:
  assumes "fullmatch job_id_rx j"
  shows "CHR '':'' \<notin> set j" "j \<noteq> []"
proof -
  have plus: "u \<noteq> [] \<and> (\<forall>c\<in>set u. is_digit c)" if "fullmatch (Plus (Cls is_digit)) u" for u
    using that by (auto simp: Plus_def fullmatch_Cls_Seq fullmatch_star_Cls)
  from assms obtain u v where j: "j = u @ v" and u: "fullmatch (Plus (Cls is_digit)) u"
    and v: "v = [] \<or> fullmatch (Seq (lit ''_'') (Plus (Cls is_digit))) v"
    by (auto simp: job_id_rx_def fullmatch_Seq [of "Plus _"] fullmatch_Opt)
  from v have "\<forall>c\<in>set v. is_digit c \<or> c = CHR ''_''"
    by (auto simp: fullmatch_Seq [of "lit ''_''"] fullmatch_lang [of "lit _"] lang_lit dest: plus simp del: lit.simps)
  then show "CHR '':'' \<notin> set j" "j \<noteq> []"
    using plus [OF u] by (auto simp: j is_digit_def)
qed

lemma sanitize_nonempty: "alt \<noteq> [] \<Longrightarrow> sanitize alt s \<noteq> []"
  by (simp add: sanitize_def Let_def)

lemma squash_chars: "c \<in> set (squash b s) \<Longrightarrow> id_char c"
  by (induction b s rule: squash.induct) (auto split: if_splits simp: id_char_def)

lemma sanitize_chars: "\<forall>c\<in>set alt. id_char c \<Longrightarrow> c \<in> set (sanitize alt s) \<Longrightarrow> id_char c"
  by (auto simp: sanitize_def Let_def strip_char_def rstrip_char_def dest!: set_dropWhileD squash_chars split: if_splits)

lemma id_char_not_space: "id_char c \<Longrightarrow> \<not> is_space c"
  by (auto simp: id_char_def alnum_def in_range_def is_digit_def is_space_def less_eq_char_def Let_def)

lemma strip_nonempty:
  assumes "c \<in> set s" and "\<not> is_space c"
  shows "strip s \<noteq> []"
proof -
  have "\<exists>c\<in>set (dropWhile is_space s). \<not> is_space c" using assms by (induction s) auto
  then show ?thesis by (auto simp: strip_def rstrip_def lstrip_def)
qed

lemma job_wait_accepted:
  assumes "fullmatch job_id_rx j"
  shows "waiting_on_error (JStr (''job:'' @ j)) = None"
    and "evaluate_waiting_on E slurm s (JStr (''job:'' @ j)) \<longleftrightarrow> slurm_job_terminal (slurm j)"
proof -
  note c = job_chars [OF assms]
  have parts: "before CHR '':'' (''job:'' @ j) = ''job''" "after CHR '':'' (''job:'' @ j) = j" "CHR '':'' \<in> set (''job:'' @ j)"
    by (simp_all add: before_def after_def)
  have "fullmatch wait_job_rx j"
    using assms by (auto simp: wait_job_rx_def fullmatch_Seq fullmatch_Opt)
  then show ok: "waiting_on_error (JStr (''job:'' @ j)) = None"
    unfolding waiting_on_error_def wait_ref_error_def using parts by simp
  show "evaluate_waiting_on E slurm s (JStr (''job:'' @ j)) \<longleftrightarrow> slurm_job_terminal (slurm j)"
    using ok parts c unfolding evaluate_waiting_on_def by simp
qed

lemma ruling_accepted:
  "waiting_on_error (JStr (ruling_name t cls step aid)) = None"
  "\<not> evaluate_waiting_on E slurm s (JStr (ruling_name t cls step aid))"
proof -
  let ?w = "ruling_name t cls step aid"
  have parts: "before CHR '':'' ?w = ''ruling''" "CHR '':'' \<in> set ?w"
    "after CHR '':'' ?w = task_prefix t @ ''-'' @ cls @ ''-'' @ sanitize ''x'' step @ ''-'' @ take 8 aid"
    by (simp_all add: ruling_name_def before_def after_def)
  have "strip (after CHR '':'' ?w) \<noteq> []"
    unfolding parts by (rule strip_nonempty [of "CHR ''-''"]) (simp_all add: is_space_def)
  then show ok: "waiting_on_error (JStr ?w) = None"
    using parts(1,2) by (simp add: waiting_on_error_def wait_ref_error_def)
  show "\<not> evaluate_waiting_on E slurm s (JStr ?w)"
    using ok parts(1) by (simp add: evaluate_waiting_on_def)
qed

text \<open>The runtime accepts every wait a worker is told to report. A wait on submitted jobs is a
  well-formed job reference that the runtime releases exactly when that job is observed
  terminal, never on a file; a parked failure is a well-formed ruling, which no observation
  releases.\<close>

theorem proposed_waits_accepted:
  "(\<forall>w. (\<forall>j\<in>set ids. fullmatch job_id_rx j) \<longrightarrow> wait_reference ids expected None = Inr w \<longrightarrow>
      waiting_on_error (JStr w) = None \<and> forbid_artifact_wait w = Inr () \<and>
      (\<exists>j\<in>set ids. w = ''job:'' @ j \<and>
         (evaluate_waiting_on E slurm s (JStr w) \<longleftrightarrow> slurm_job_terminal (slurm j)))) \<and>
   waiting_on_error (JStr (ruling_name t cls step aid)) = None \<and>
   \<not> evaluate_waiting_on E slurm s (JStr (ruling_name t cls step aid))"
proof (intro conjI allI impI ruling_accepted)
  fix w assume jobs: "\<forall>j\<in>set ids. fullmatch job_id_rx j" and w: "wait_reference ids expected None = Inr w"
  from wait_reference_job [OF w] obtain j where j: "j \<in> set ids" "w = ''job:'' @ j" by auto
  note ok = job_wait_accepted [OF bspec [OF jobs j(1)]]
  show "waiting_on_error (JStr w) = None" unfolding j(2) by (rule ok)
  show "forbid_artifact_wait w = Inr ()" by (simp add: forbid_artifact_wait_def j(2) starts_with_def)
  show "\<exists>j\<in>set ids. w = ''job:'' @ j \<and>
      (evaluate_waiting_on E slurm s (JStr w) \<longleftrightarrow> slurm_job_terminal (slurm j))"
    using j ok(2) by blast
qed

end
