(* ===== verification/Health.thy ===== *)
theory Health
  imports Classify
begin

text \<open>
  \<open>farmkit/health.py\<close>: findings from the runtime's status dictionary. Times and intervals are
  finite numbers, as the runtime writes them; the numbers in the texts are left out.
\<close>

datatype level = Ok | Unknown | Warn | Fail

text \<open>The table \<open>order\<close> of \<open>worst\<close>.\<close>

fun severity :: "level \<Rightarrow> nat" where
  "severity Fail = 3"
| "severity Warn = 2"
| "severity Unknown = 1"
| "severity Ok = 0"

lemma severity_inject [simp]: "severity a = severity b \<longleftrightarrow> a = b"
  by (cases a; cases b) simp_all

instantiation level :: linorder
begin

definition less_eq_level :: "level \<Rightarrow> level \<Rightarrow> bool" where
  "less_eq_level a b \<longleftrightarrow> severity a \<le> severity b"

definition less_level :: "level \<Rightarrow> level \<Rightarrow> bool" where
  "less_level a b \<longleftrightarrow> severity a < severity b"

instance
proof
  fix a b :: level
  assume "a \<le> b" "b \<le> a"
  then have "severity a = severity b" by (simp add: less_eq_level_def)
  then show "a = b" by simp
qed (auto simp: less_eq_level_def less_level_def)

end

record finding =
  h_check :: string
  h_level :: level
  h_detail :: string

definition finding_of :: "string \<Rightarrow> level \<Rightarrow> string \<Rightarrow> finding" where
  "finding_of c l d = \<lparr>h_check = c, h_level = l, h_detail = d\<rparr>"

definition level_of :: "bool \<Rightarrow> level" where
  "level_of ok = (if ok then Ok else Fail)"

text \<open>\<open>float(v)\<close>\<close>

fun number :: "json \<Rightarrow> rat res" where
  "number (JInt i) = Inr (of_int i)"
| "number (JBool b) = Inr (if b then 1 else 0)"
| "number (JFloat (Finite r)) = Inr r"
| "number (JFloat f) = Inl OverflowError"
| "number (JStr s) = Inl (ValueError ''could not convert string to float'')"
| "number j = Inl TypeError"

text \<open>\<open>(d.get(k) or {})\<close> used as a dictionary.\<close>

definition sub_obj :: "dict \<Rightarrow> string \<Rightarrow> dict res" where
  "sub_obj d k = (if truthy (dget d k) then as_obj (dget d k) else Inr fmempty)"

definition process_finding :: "json \<Rightarrow> finding" where
  "process_finding alive = finding_of ''daemon process''
     (if truthy alive then Ok else if alive = JBool False then Fail else Unknown)
     (if truthy alive then ''pid'' else ''no live reconciler process recorded'')"

definition interval_of :: "dict \<Rightarrow> rat res" where
  "interval_of status = number (jor (dget status ''interval'') (JFloat (Finite 30)))"

definition loop_finding :: "rat \<Rightarrow> rat \<Rightarrow> dict \<Rightarrow> finding res" where
  "loop_finding tm interval tick =
     (if dget tick ''epoch'' = JNull then Inr (finding_of ''loop advancing'' Unknown ''no last_tick record (older release?)'')
      else rbind (number (dget tick ''epoch'')) (\<lambda>epoch.
        Inr (finding_of ''loop advancing'' (level_of (tm - epoch \<le> 3 * interval)) ''last tick'')))"

definition source_finding :: "dict \<Rightarrow> finding" where
  "source_finding status = (let m = dget status ''source_matches'' in
     finding_of ''code matches manifest'' (if m = JNull then Unknown else level_of (truthy m))
       (if m = JNull
        then (if truthy (dget status ''deployment'') then ''source comparison unavailable'' else ''no daemon manifest yet'')
        else if truthy m then ''CLI source equals the daemon's recorded source''
        else ''CLI and daemon run different code; controlled restart required''))"

definition pending_markers :: "string list" where
  "pending_markers = [''pending_task_commit'', ''pending_recovery'', ''pending_deployment_event'']"

definition assemble :: "dict \<Rightarrow> finding \<Rightarrow> dict \<Rightarrow> dict \<Rightarrow> finding list" where
  "assemble status advancing handoff counts =
     (let phase = dget handoff ''phase'' in
       [process_finding (dget status ''pid_alive''), advancing, source_finding status] @
       (if truthy phase
        then [finding_of ''handoff'' (if phase = JStr ''draining'' \<or> phase = JStr ''released'' then Warn else Ok) ''phase'']
        else []) @
       map (\<lambda>m. finding_of m Fail ''durable marker present; ordinary writes may be blocked'')
         (filter (\<lambda>m. truthy (dget status m)) pending_markers) @
       (if counts = fmempty then [] else [finding_of ''tasks'' Ok ''counts'']))"

definition findings :: "rat \<Rightarrow> dict \<Rightarrow> finding list res" where
  "findings tm status =
     rbind (sub_obj status ''last_tick'') (\<lambda>tick.
     rbind (interval_of status) (\<lambda>interval.
     rbind (loop_finding tm interval tick) (\<lambda>advancing.
     rbind (sub_obj status ''handoff'') (\<lambda>handoff.
     rbind (sub_obj status ''task_counts'') (\<lambda>counts.
     Inr (assemble status advancing handoff counts))))))"

definition worst :: "finding list \<Rightarrow> level" where
  "worst fs = foldl max Ok (map h_level fs)"

lemma worst_le: "worst fs \<le> l \<longleftrightarrow> (\<forall>f\<in>set fs. h_level f \<le> l)"
proof -
  have "foldl max a xs \<le> l \<longleftrightarrow> a \<le> l \<and> (\<forall>x\<in>set xs. x \<le> l)" for a and xs :: "level list"
    by (induction xs arbitrary: a) auto
  moreover have "Ok \<le> l" by (simp add: less_eq_level_def)
  ultimately show ?thesis by (simp add: worst_def)
qed

lemma worst_Ok: "worst fs = Ok \<longleftrightarrow> (\<forall>f\<in>set fs. h_level f = Ok)"
proof -
  have bot: "l \<le> Ok \<longleftrightarrow> l = Ok" for l by (cases l) (simp_all add: less_eq_level_def)
  then show ?thesis using worst_le [of fs Ok] by simp
qed

lemma finding_of_level [simp]: "h_level (finding_of c l d) = l"
  by (simp add: finding_of_def)

text \<open>A healthy report. The worst finding is \<open>ok\<close> exactly when the daemon was positively seen alive,
  its last tick is recorded and at most three intervals old, the running source was compared
  with the recorded one and equals it, no handoff is draining or released and no durable marker
  is pending; anything merely unknown makes the report less than healthy.\<close>

theorem healthy_iff:
  assumes "findings tm status = Inr fs" and "interval_of status = Inr interval"
  shows "worst fs = Ok \<longleftrightarrow>
    truthy (dget status ''pid_alive'') \<and>
    (\<exists>tick epoch. sub_obj status ''last_tick'' = Inr tick \<and> dget tick ''epoch'' \<noteq> JNull \<and>
       number (dget tick ''epoch'') = Inr epoch \<and> tm - epoch \<le> 3 * interval) \<and>
    truthy (dget status ''source_matches'') \<and>
    (\<forall>h. sub_obj status ''handoff'' = Inr h \<longrightarrow> dget h ''phase'' \<noteq> JStr ''draining'' \<and> dget h ''phase'' \<noteq> JStr ''released'') \<and>
    (\<forall>m\<in>set pending_markers. \<not> truthy (dget status m))"
proof -
  let ?d = "JStr ''draining''" let ?r = "JStr ''released''"
  have dr: "truthy ?d" "truthy ?r" by simp_all
  from assms obtain tick advancing h counts where
    tick: "sub_obj status ''last_tick'' = Inr tick" and
    adv: "loop_finding tm interval tick = Inr advancing" and
    h: "sub_obj status ''handoff'' = Inr h" and
    fs: "fs = assemble status advancing h counts"
    by (auto simp: findings_def rbind_Inr_iff)
  have p: "h_level (process_finding (dget status ''pid_alive'')) = Ok \<longleftrightarrow> truthy (dget status ''pid_alive'')"
    by (simp add: process_finding_def)
  have s: "h_level (source_finding status) = Ok \<longleftrightarrow> truthy (dget status ''source_matches'')"
    by (auto simp: source_finding_def Let_def level_of_def)
  have a: "h_level advancing = Ok \<longleftrightarrow> dget tick ''epoch'' \<noteq> JNull \<and>
      (\<exists>epoch. number (dget tick ''epoch'') = Inr epoch \<and> tm - epoch \<le> 3 * interval)"
    using adv by (auto simp: loop_finding_def rbind_Inr_iff level_of_def finding_of_def split: if_splits)
  have hl: "(\<forall>f\<in>set (if truthy (dget h ''phase'')
        then [finding_of ''handoff'' (if dget h ''phase'' = ?d \<or> dget h ''phase'' = ?r then Warn else Ok) ''phase'']
        else []). h_level f = Ok) \<longleftrightarrow> dget h ''phase'' \<noteq> ?d \<and> dget h ''phase'' \<noteq> ?r"
    using dr by (cases "dget h ''phase'' = ?d"; cases "dget h ''phase'' = ?r") auto
  have m: "(\<forall>f\<in>set (map (\<lambda>m. finding_of m Fail ''durable marker present; ordinary writes may be blocked'')
         (filter (\<lambda>m. truthy (dget status m)) pending_markers)). h_level f = Ok) \<longleftrightarrow>
      (\<forall>m\<in>set pending_markers. \<not> truthy (dget status m))"
    by auto
  have t: "\<forall>f\<in>set (if counts = fmempty then [] else [finding_of ''tasks'' Ok ''counts'']). h_level f = Ok"
    by simp
  have "worst fs = Ok \<longleftrightarrow> truthy (dget status ''pid_alive'') \<and> h_level advancing = Ok \<and>
      truthy (dget status ''source_matches'') \<and> (dget h ''phase'' \<noteq> ?d \<and> dget h ''phase'' \<noteq> ?r) \<and>
      (\<forall>m\<in>set pending_markers. \<not> truthy (dget status m))"
    unfolding worst_Ok fs assemble_def Let_def set_append ball_Un hl m using t p s by simp
  then show ?thesis using tick h a by auto
qed

end
