(* ===== verification/Eventlog.thy ===== *)
theory Eventlog
  imports Farm Slurm
begin

text \<open>
  The audit log as the bytes of \<open>log.ndjson\<close>: \<open>EventLog.ids\<close> (\<open>events.py\<close>) on the text of the file,
  and the two read-only views of \<open>status.py\<close> that watchers use, \<open>events_after\<close> (pages behind a
  byte cursor) and \<open>events_tail\<close> (the last records, read from the end). The JSON codec is a
  parameter.
\<close>

subsection \<open>Lines\<close>

definition nl :: char where
  "nl = char_of (10::nat)"

lemma split_on_simps:
  "split_on c [] = [[]]"
  "split_on c (x # s) = (if x = c then [] # split_on c s else (x # hd (split_on c s)) # tl (split_on c s))"
  by (simp_all add: split_on_def)

lemma split_on_ne [simp]: "split_on c s \<noteq> []"
  by (cases s) (simp_all add: split_on_simps)

lemma split_on_line: "c \<notin> set l \<Longrightarrow> split_on c (l @ c # s) = l # split_on c s"
  by (induction l) (auto simp: split_on_simps)

lemma split_on_append: "split_on c (v @ c # p) = split_on c v @ split_on c p"
  by (induction v) (auto simp: split_on_simps)

lemma split_on_rest: "c \<notin> set p \<Longrightarrow> split_on c p = [p]"
  by (induction p) (auto simp: split_on_simps)

lemma split_on_parts: "\<forall>l\<in>set (split_on c s). c \<notin> set l"
proof (induction s)
  case (Cons x s)
  then have "\<forall>l\<in>set (tl (split_on c s)). c \<notin> set l" "c \<notin> set (hd (split_on c s))"
    by (auto simp: list.set_sel)
  then show ?case using Cons by (auto simp: split_on_simps)
qed (simp add: split_on_simps)

text \<open>\<open>data[: data.rfind(b"\n") + 1]\<close>, and the complete lines \<open>complete.split(b"\n")[:-1]\<close>.\<close>

definition complete_part :: "string \<Rightarrow> string" where
  "complete_part s = rev (dropWhile (\<lambda>c. c \<noteq> nl) (rev s))"

definition complete_lines :: "string \<Rightarrow> string list" where
  "complete_lines s = butlast (split_on nl (complete_part s))"

definition partial_part :: "string \<Rightarrow> string" where
  "partial_part s = rev (takeWhile (\<lambda>c. c \<noteq> nl) (rev s))"

lemma complete_partial: "complete_part s @ partial_part s = s"
  unfolding complete_part_def partial_part_def rev_append [symmetric] by simp

lemma partial_no_nl: "nl \<notin> set (partial_part s)"
  by (auto simp: partial_part_def dest: set_takeWhileD)

lemma complete_part_cases: "complete_part s = [] \<or> (\<exists>v. complete_part s = v @ [nl])"
proof (cases "dropWhile (\<lambda>c. c \<noteq> nl) (rev s)")
  case (Cons x xs)
  then have "x = nl" by (metis (mono_tags) dropWhile_eq_Cons_conv)
  then show ?thesis using Cons by (simp add: complete_part_def)
qed (simp add: complete_part_def)

lemma complete_lines_split: "complete_lines s = butlast (split_on nl s)"
proof -
  have "butlast (split_on nl (complete_part s @ partial_part s)) = complete_lines s"
    using complete_part_cases [of s]
  proof
    assume "complete_part s = []"
    then show ?thesis
      using split_on_rest [OF partial_no_nl [of s]] by (simp add: complete_lines_def split_on_simps)
  next
    assume "\<exists>v. complete_part s = v @ [nl]"
    then obtain v where v: "complete_part s = v @ [nl]" ..
    have "split_on nl (v @ nl # partial_part s) = split_on nl v @ [partial_part s]"
      by (simp add: split_on_append split_on_rest [OF partial_no_nl])
    moreover have "split_on nl (v @ [nl]) = split_on nl v @ [[]]"
      using split_on_append [of nl v "[]"] by (simp add: split_on_simps)
    ultimately show ?thesis by (simp add: v complete_lines_def)
  qed
  then show ?thesis by (simp add: complete_partial)
qed

definition unlines :: "string list \<Rightarrow> string" where
  "unlines ls = concat (map (\<lambda>l. l @ [nl]) ls)"

lemma unlines_simps [simp]: "unlines [] = []" "unlines (l # ls) = l @ nl # unlines ls"
  "unlines (a @ b) = unlines a @ unlines b"
  by (simp_all add: unlines_def)

lemma split_unlines: "\<forall>l\<in>set ls. nl \<notin> set l \<Longrightarrow> split_on nl (unlines ls @ s) = ls @ split_on nl s"
  by (induction ls) (simp_all add: split_on_line)

lemma lines_unlines: "\<forall>l\<in>set ls. nl \<notin> set l \<Longrightarrow> complete_lines (unlines ls @ s) = ls @ complete_lines s"
  by (simp add: complete_lines_split split_unlines butlast_append)

lemma complete_lines_no_nl: "\<forall>l\<in>set (complete_lines s). nl \<notin> set l"
  using split_on_parts by (auto simp: complete_lines_split dest: in_set_butlastD)

lemma unlines_split: "unlines (butlast (split_on nl s)) @ last (split_on nl s) = s"
proof (induction s)
  case (Cons x s)
  have "split_on nl s = butlast (split_on nl s) @ [last (split_on nl s)]" by simp
  then obtain a b where ab: "split_on nl s = a @ [b]" by blast
  then show ?case
    using Cons by (cases a) (auto simp: split_on_simps)
qed (simp add: split_on_simps)

text \<open>A text is its complete lines and a partial one.\<close>

lemma lines_data: "unlines (complete_lines s) @ partial_part s = s"
proof -
  have "last (split_on nl s) = partial_part s"
  proof (cases "complete_part s = []")
    case True
    then have "s = partial_part s" using complete_partial [of s] by simp
    then show ?thesis using split_on_rest [OF partial_no_nl [of s]] by (metis last.simps)
  next
    case False
    then obtain v where v: "complete_part s = v @ [nl]" using complete_part_cases by blast
    have "s = v @ nl # partial_part s" using complete_partial [of s] v by simp
    then have "split_on nl s = split_on nl v @ [partial_part s]"
      by (metis split_on_append split_on_rest partial_no_nl)
    then show ?thesis by simp
  qed
  then show ?thesis using unlines_split [of s] by (simp add: complete_lines_split)
qed

lemma lines_prefix: "\<exists>rest. complete_lines (s @ x) = complete_lines s @ rest"
proof -
  have "s @ x = unlines (complete_lines s) @ (partial_part s @ x)" using lines_data [of s] by (metis append.assoc)
  then show ?thesis using lines_unlines [OF complete_lines_no_nl] by metis
qed

subsection \<open>Pages\<close>

datatype reported = Event_line json | Malformed string nat

record codec =
  cd_parse :: "string \<Rightarrow> json option"
  cd_lossy :: "string \<Rightarrow> string"

definition blank :: "string \<Rightarrow> bool" where
  "blank raw \<longleftrightarrow> list_all (\<lambda>c. let n = of_char c :: nat in n = 32 \<or> 9 \<le> n \<and> n \<le> 13) raw"

definition report_line :: "codec \<Rightarrow> nat \<Rightarrow> string \<Rightarrow> reported list" where
  "report_line J pos raw = (if blank raw then []
     else [case cd_parse J raw of Some j \<Rightarrow> Event_line j | None \<Rightarrow> Malformed (cd_lossy J raw) pos])"

fun page_lines :: "codec \<Rightarrow> nat \<Rightarrow> reported list \<Rightarrow> nat \<Rightarrow> string list \<Rightarrow> reported list \<times> nat \<times> bool" where
  "page_lines J limit evs pos [] = (evs, pos, False)"
| "page_lines J limit evs pos (raw # raws) =
     (if limit \<le> length evs then (evs, pos, True)
      else page_lines J limit (evs @ report_line J pos raw) (pos + length raw + 1) raws)"

definition events_after :: "codec \<Rightarrow> string option \<Rightarrow> int \<Rightarrow> nat \<Rightarrow> (reported list \<times> nat \<times> bool) res" where
  "events_after J log cursor limit =
     (if cursor < 0 then Inl (ValueError ''cursor must be nonnegative'')
      else case log of
        None \<Rightarrow> Inr ([], 0, False)
      | Some data \<Rightarrow>
          if length data < nat cursor
          then Inl (ValueError ''cursor is beyond the end of the event log; the log may have been replaced'')
          else Inr (page_lines J limit [] (nat cursor) (complete_lines (drop (nat cursor) data))))"

text \<open>What a reader with no limit sees behind a position.\<close>

fun report_lines :: "codec \<Rightarrow> nat \<Rightarrow> string list \<Rightarrow> reported list" where
  "report_lines J pos [] = []"
| "report_lines J pos (raw # raws) = report_line J pos raw @ report_lines J (pos + length raw + 1) raws"

definition reports :: "codec \<Rightarrow> string \<Rightarrow> nat \<Rightarrow> reported list" where
  "reports J data c = report_lines J c (complete_lines (drop c data))"

lemma report_lines_append:
  "report_lines J pos (a @ b) = report_lines J pos a @ report_lines J (pos + length (unlines a)) b"
  by (induction a arbitrary: pos) (simp_all add: add.assoc)

lemma report_line_length: "length (report_line J pos raw) \<le> 1"
  by (simp add: report_line_def)

text \<open>A page takes some of the lines and stops behind them.\<close>

lemma page_lines_takes:
  assumes "page_lines J limit evs pos ls = (evs', pos', tr)" and "length evs \<le> limit"
  shows "\<exists>a b. ls = a @ b \<and> evs' = evs @ report_lines J pos a \<and> pos' = pos + length (unlines a) \<and>
    length evs' \<le> limit \<and> (tr \<longleftrightarrow> b \<noteq> []) \<and> (ls \<noteq> [] \<longrightarrow> length evs < limit \<longrightarrow> a \<noteq> [])"
  using assms
proof (induction J limit evs pos ls rule: page_lines.induct)
  case (2 J limit evs pos raw raws)
  show ?case
  proof (cases "limit \<le> length evs")
    case True
    then show ?thesis using 2(2,3) by (intro exI [of _ "[]"] exI [of _ "raw # raws"]) auto
  next
    case False
    then have "length (evs @ report_line J pos raw) \<le> limit" using report_line_length [of J pos raw] by simp
    moreover have "page_lines J limit (evs @ report_line J pos raw) (pos + length raw + 1) raws = (evs', pos', tr)"
      using 2(2) False by simp
    ultimately obtain a b where ab: "raws = a @ b"
      "evs' = (evs @ report_line J pos raw) @ report_lines J (pos + length raw + 1) a"
      "pos' = pos + length raw + 1 + length (unlines a)" "length evs' \<le> limit" "tr \<longleftrightarrow> b \<noteq> []"
      using 2(1) [OF False] by blast
    then show ?thesis by (intro exI [of _ "raw # a"] exI [of _ b]) simp
  qed
qed simp

lemma page_spec:
  assumes "events_after J (Some data) (int c) limit = Inr (evs, c', tr)"
  shows "c \<le> c' \<and> c' \<le> length data \<and> length evs \<le> limit \<and>
    (\<forall>grown. reports J (data @ grown) c = evs @ reports J (data @ grown) c') \<and>
    (tr \<longleftrightarrow> complete_lines (drop c' data) \<noteq> []) \<and>
    (0 < limit \<longrightarrow> complete_lines (drop c data) \<noteq> [] \<longrightarrow> c < c')"
proof -
  from assms have c: "c \<le> length data"
    and pg: "page_lines J limit [] c (complete_lines (drop c data)) = (evs, c', tr)"
    by (auto simp: events_after_def split: if_splits)
  from page_lines_takes [OF pg] obtain a b where ab: "complete_lines (drop c data) = a @ b"
    "evs = report_lines J c a" "c' = c + length (unlines a)" "length evs \<le> limit" "tr \<longleftrightarrow> b \<noteq> []"
    "complete_lines (drop c data) \<noteq> [] \<Longrightarrow> 0 < limit \<Longrightarrow> a \<noteq> []"
    by auto
  have no_nl: "\<forall>l\<in>set a. nl \<notin> set l" "\<forall>l\<in>set b. nl \<notin> set l"
    using complete_lines_no_nl [of "drop c data"] by (auto simp: ab(1))
  have d: "drop c data = unlines a @ unlines b @ partial_part (drop c data)"
    using lines_data [of "drop c data"] by (simp add: ab(1))
  then have len: "length (unlines a) \<le> length (drop c data)" by (metis le_add1 length_append)
  have after: "drop c' data = unlines b @ partial_part (drop c data)"
    unfolding ab(3) using d by (metis add.commute append_eq_conv_conj drop_drop)
  have left: "complete_lines (drop c' data) = b"
    using lines_unlines [OF no_nl(2), of "partial_part (drop c data)"]
    by (simp add: after complete_lines_split [of "partial_part _"] split_on_rest [OF partial_no_nl])
  have "reports J (data @ grown) c = evs @ reports J (data @ grown) c'" for grown
  proof -
    let ?r = "unlines b @ partial_part (drop c data) @ grown"
    have "drop c (data @ grown) = unlines a @ ?r" using c d by simp
    moreover have "drop c' (data @ grown) = ?r" using c len after by (simp add: ab(3))
    ultimately show ?thesis
      by (simp add: reports_def lines_unlines [OF no_nl(1)] report_lines_append ab(2,3))
  qed
  moreover have "c < c'" if "0 < limit" "complete_lines (drop c data) \<noteq> []"
    using ab(3,6) that by (cases a) auto
  ultimately show ?thesis using c len ab(3,4,5) left by auto
qed

text \<open>C29: paging never skips and never repeats a record. A page that starts at any accepted cursor reports
  exactly the next records of the log and leaves a cursor behind which the rest is found, also
  after any number of further appends, complete or in progress; it is at most \<open>limit\<close> records
  long, it advances whenever a complete line is there, and it says truncated exactly when
  complete lines are left.\<close>

theorem paging_complete:
  assumes "events_after J (Some data) (int c) limit = Inr (evs, c', tr)"
  shows "c \<le> c' \<and> c' \<le> length data \<and> length evs \<le> limit \<and>
    (\<forall>grown. reports J (data @ grown) c = evs @ reports J (data @ grown) c') \<and>
    (tr \<longleftrightarrow> complete_lines (drop c' data) \<noteq> []) \<and>
    (0 < limit \<longrightarrow> complete_lines (drop c data) \<noteq> [] \<longrightarrow> c < c')"
  using assms by (rule page_spec)

subsection \<open>The last records\<close>

text \<open>The loop reads blocks backwards until more than \<open>n\<close> line ends are in sight; \<open>pos\<close> is the file
  position of \<open>data\<close>.\<close>

function tail_read :: "string \<Rightarrow> nat \<Rightarrow> nat \<Rightarrow> string \<Rightarrow> string" where
  "tail_read log n pos data =
     (if 0 < pos \<and> count_list data nl \<le> n
      then (let step = min 65536 pos in tail_read log n (pos - step) (take step (drop (pos - step) log) @ data))
      else data)"
  by pat_completeness auto
termination by (relation "measure (\<lambda>(_, _, pos, _). pos)") auto

declare tail_read.simps [simp del]

text \<open>\<open>xs[-n:]\<close>\<close>

definition last_n :: "nat \<Rightarrow> 'a list \<Rightarrow> 'a list" where
  "last_n n xs = (if n = 0 then xs else drop (length xs - n) xs)"

definition tail_line :: "codec \<Rightarrow> string \<Rightarrow> reported" where
  "tail_line J line = (case cd_parse J line of Some j \<Rightarrow> Event_line j | None \<Rightarrow> Malformed (cd_lossy J (take 200 line)) 0)"

definition events_tail :: "codec \<Rightarrow> string option \<Rightarrow> nat \<Rightarrow> reported list \<times> nat" where
  "events_tail J log n = (case log of
     None \<Rightarrow> ([], 0)
   | Some all \<Rightarrow>
       (let data = tail_read all n (length all) [] in
        (map (tail_line J) (last_n n (complete_lines data)),
         if nl \<in> set data then length all - length (partial_part data) else 0)))"

lemma tail_read_drop:
  assumes "data = drop pos log" and "pos \<le> length log"
  shows "\<exists>p. tail_read log n pos data = drop p log \<and> (p = 0 \<or> n < count_list (drop p log) nl)"
  using assms
proof (induction log n pos data rule: tail_read.induct)
  case (1 log n pos data)
  show ?case
  proof (cases "0 < pos \<and> count_list data nl \<le> n")
    case True
    define step where "step = min 65536 pos"
    have le: "step \<le> pos" by (simp add: step_def)
    have "take step (drop (pos - step) log) @ drop pos log = drop (pos - step) log"
    proof -
      have "drop pos log = drop step (drop (pos - step) log)" using le by simp
      then show ?thesis by (simp only: append_take_drop_id)
    qed
    moreover have "tail_read log n pos data = tail_read log n (pos - step) (take step (drop (pos - step) log) @ data)"
      by (subst tail_read.simps) (simp only: True simp_thms if_True Let_def step_def [symmetric])
    ultimately show ?thesis
      using 1(1) [OF True step_def] 1(2,3) by simp
  next
    case False
    then show ?thesis
      using 1(2) by (intro exI [of _ pos]) (subst tail_read.simps, auto)
  qed
qed

lemma count_lines: "length (complete_lines s) = count_list s nl"
proof -
  have "length (split_on nl s) = Suc (count_list s nl)"
  proof (induction s)
    case (Cons x s)
    then show ?case by (cases "split_on nl s") (auto simp: split_on_simps)
  qed (simp add: split_on_simps)
  then show ?thesis by (simp add: complete_lines_split)
qed

lemma last_n_suffix: "0 < n \<Longrightarrow> n \<le> length b \<Longrightarrow> last_n n (a @ b) = last_n n b"
  by (simp add: last_n_def)

lemma lines_of_drop:
  "\<exists>a b x. complete_lines s = a @ b \<and> (p = 0 \<and> a = [] \<and> complete_lines (drop p s) = b \<or> complete_lines (drop p s) = x # b
     \<or> complete_lines (drop p s) = [] \<and> b = [])"
proof (cases "complete_lines (drop p s)")
  case Nil
  then show ?thesis by (intro exI [of _ "complete_lines s"] exI [of _ "[]"]) simp
next
  case (Cons x b)
  have "s = take p s @ unlines (x # b) @ partial_part (drop p s)"
    using lines_data [of "drop p s"] Cons by (metis append_take_drop_id)
  then have s: "s = (take p s @ x) @ nl # (unlines b @ partial_part (drop p s))" by simp
  have nb: "\<forall>l\<in>set b. nl \<notin> set l" using complete_lines_no_nl [of "drop p s"] Cons by simp
  have "split_on nl s = split_on nl (take p s @ x) @ split_on nl (unlines b @ partial_part (drop p s))"
    by (subst s) (rule split_on_append)
  also have "split_on nl (unlines b @ partial_part (drop p s)) = b @ [partial_part (drop p s)]"
    by (simp add: split_unlines [OF nb] split_on_rest [OF partial_no_nl])
  finally have "complete_lines s = split_on nl (take p s @ x) @ b"
    by (simp add: complete_lines_split butlast_append)
  then show ?thesis using Cons by blast
qed

lemma partial_of_drop:
  assumes "nl \<in> set (drop p s)"
  shows "partial_part (drop p s) = partial_part s"
proof -
  have "takeWhile (\<lambda>c. c \<noteq> nl) (rev (drop p s) @ rev (take p s)) = takeWhile (\<lambda>c. c \<noteq> nl) (rev (drop p s))"
    using assms by (intro takeWhile_append1 [of nl]) auto
  then show ?thesis by (metis append_take_drop_id partial_part_def rev_append)
qed

text \<open>Reading the log from its end gives what reading all of it gives. For n greater than zero the
  result is the last n of the complete lines of the whole file, whatever its size and wherever
  the block boundaries fall, and the cursor is the position behind the last complete line.\<close>

theorem tail_equals_full_read:
  assumes "0 < n"
  shows "events_tail J (Some log) n =
    (map (tail_line J) (last_n n (complete_lines log)), if nl \<in> set log then length log - length (partial_part log) else 0)"
proof -
  obtain p where p: "tail_read log n (length log) [] = drop p log" "p = 0 \<or> n < count_list (drop p log) nl"
    using tail_read_drop [of "[]" "length log" log n] by auto
  show ?thesis
  proof (cases "p = 0")
    case True
    then show ?thesis using p(1) by (simp add: events_tail_def Let_def)
  next
    case False
    with p(2) have cnt: "n < length (complete_lines (drop p log))" by (simp add: count_lines)
    obtain a b x where ab: "complete_lines log = a @ b" "complete_lines (drop p log) = x # b"
      using lines_of_drop [of log p] cnt False by auto
    have "n \<le> length b" using cnt ab(2) by simp
    then have "last_n n (complete_lines (drop p log)) = last_n n (complete_lines log)"
      using last_n_suffix [OF assms, of b "[x]"] last_n_suffix [OF assms, of b a] ab by simp
    moreover have m: "nl \<in> set (drop p log)"
      using p(2) False by (metis count_notin less_nat_zero_code)
    moreover have "nl \<in> set log" using m by (rule in_set_dropD)
    ultimately show ?thesis using p(1) partial_of_drop [OF m] by (simp add: events_tail_def Let_def)
  qed
qed

subsection \<open>The ids of a log, and a torn append\<close>

text \<open>\<open>json.loads(line)["id"]\<close>\<close>

definition line_id :: "(string \<Rightarrow> json option) \<Rightarrow> string \<Rightarrow> string res" where
  "line_id parse l = (case parse l of
     None \<Rightarrow> Inl (ValueError ''not JSON'') | Some j \<Rightarrow> rbind (jindex j ''id'') as_str)"

definition event_ids :: "(string \<Rightarrow> json option) \<Rightarrow> string option \<Rightarrow> string list res" where
  "event_ids parse contents = (case contents of
     None \<Rightarrow> Inr []
   | Some s \<Rightarrow>
       if s \<noteq> [] \<and> last s \<noteq> nl then Inl (ValueError ''audit log has an incomplete final record'')
       else rmap (line_id parse) (filter (\<lambda>l. strip l \<noteq> []) (splitlines s)))"

text \<open>The record \<open>EventLog.append\<close> writes with \<open>open("a")\<close>.\<close>

definition record_line :: "(json \<Rightarrow> string) \<Rightarrow> event \<Rightarrow> string" where
  "record_line dump e = dump (JObj (event_to_dict e)) @ [nl]"

definition log_text :: "(json \<Rightarrow> string) \<Rightarrow> event list \<Rightarrow> string" where
  "log_text dump es = concat (map (record_line dump) es)"

lemma nl_break [simp]: "is_break nl"
  by (simp add: is_break_def nl_def)

lemma splitlines_line:
  assumes "\<forall>c\<in>set l. \<not> is_break c"
  shows "splitlines (l @ nl # s) = l # splitlines s"
proof -
  have "takeWhile (\<lambda>c. \<not> is_break c) (l @ nl # s) = l" "dropWhile (\<lambda>c. \<not> is_break c) (l @ nl # s) = nl # s"
    using assms by (simp_all add: takeWhile_append dropWhile_append)
  moreover have "drop_break (nl # s) = s" by (simp add: nl_def)
  ultimately show ?thesis
    by (subst splitlines.simps) (auto simp: splitlines.simps [of "[]"])
qed

lemma splitlines_log:
  assumes "\<forall>e\<in>set es. \<forall>c\<in>set (dump (JObj (event_to_dict e))). \<not> is_break c"
  shows "splitlines (log_text dump es) = map (\<lambda>e. dump (JObj (event_to_dict e))) es"
  using assms
proof (induction es)
  case Nil
  show ?case by (simp add: log_text_def splitlines.simps)
next
  case (Cons e es)
  then show ?case by (simp add: log_text_def record_line_def splitlines_line)
qed

text \<open>C30: the log as a list of events is what the bytes mean, and a torn append is always noticed.
  With a codec that reads back what it writes and writes one line, the ids read from the file
  are those of the appended events in order, as in the model of the store; and if an append
  stops inside its record, after any number of its bytes but not all of them, reading the ids
  raises instead of missing or inventing one.\<close>

theorem log_bytes_refine:
  assumes "\<And>x. x \<in> set (e # es) \<Longrightarrow> parse (dump (JObj (event_to_dict x))) = Some (JObj (event_to_dict x))"
    and "\<And>x c. x \<in> set (e # es) \<Longrightarrow> c \<in> set (dump (JObj (event_to_dict x))) \<Longrightarrow> \<not> is_break c"
    and "\<And>x. x \<in> set (e # es) \<Longrightarrow> strip (dump (JObj (event_to_dict x))) \<noteq> []"
  shows "event_ids parse (Some (log_text dump es)) = Inr (map e_id es) \<and>
    (\<not> f_log_damaged s \<longrightarrow> f_log s = es \<longrightarrow>
       log_ids s = Inr (set (map e_id es)) \<and>
       log_text dump (f_log (snd (log_append e s))) = log_text dump es @ record_line dump e) \<and>
    (0 < k \<longrightarrow> k < length (record_line dump e) \<longrightarrow>
       event_ids parse (Some (log_text dump es @ take k (record_line dump e))) =
         Inl (ValueError ''audit log has an incomplete final record''))"
proof (intro conjI impI)
  have ends: "log_text dump es = [] \<or> last (log_text dump es) = nl"
    by (induction es rule: rev_induct) (simp_all add: log_text_def record_line_def)
  have "jindex (JObj (event_to_dict x)) ''id'' = Inr (JStr (e_id x))" for x
    by (simp add: jindex_def dindex_def event_to_dict_def)
  then have "line_id parse (dump (JObj (event_to_dict x))) = Inr (e_id x)" if "x \<in> set es" for x
    using that by (simp add: line_id_def assms(1))
  then have "rmap (line_id parse) (map (\<lambda>e. dump (JObj (event_to_dict e))) es) = Inr (map e_id es)"
    by (induction es) simp_all
  moreover have "filter (\<lambda>l. strip l \<noteq> []) (map (\<lambda>e. dump (JObj (event_to_dict e))) es) =
      map (\<lambda>e. dump (JObj (event_to_dict e))) es"
    using assms(3) by (simp add: filter_id_conv)
  moreover have sp: "splitlines (log_text dump es) = map (\<lambda>e. dump (JObj (event_to_dict e))) es"
    by (rule splitlines_log) (use assms(2) in auto)
  ultimately show "event_ids parse (Some (log_text dump es)) = Inr (map e_id es)"
    using ends sp by (auto simp: event_ids_def)
next
  assume "\<not> f_log_damaged s" "f_log s = es"
  then show "log_ids s = Inr (set (map e_id es))" by simp
next
  assume "\<not> f_log_damaged s" "f_log s = es"
  then show "log_text dump (f_log (snd (log_append e s))) = log_text dump es @ record_line dump e"
    by (simp add: log_append_def cmd_defs log_text_def)
next
  assume k: "0 < k" "k < length (record_line dump e)"
  let ?d = "dump (JObj (event_to_dict e))"
  have t: "take k (record_line dump e) = take k ?d" "take k ?d \<noteq> []"
    using k assms(3) [of e] by (auto simp: record_line_def strip_def rstrip_def lstrip_def)
  then have "last (take k ?d) \<in> set ?d" by (metis in_set_takeD last_in_set)
  then have "last (take k ?d) \<noteq> nl" using assms(2) [of e] nl_break by (metis list.set_intros(1))
  then show "event_ids parse (Some (log_text dump es @ take k (record_line dump e))) =
      Inl (ValueError ''audit log has an incomplete final record'')"
    using t by (simp add: event_ids_def)
qed

end
