(* ===== verification/Watch.thy ===== *)
theory Watch
  imports Health Eventlog
begin

text \<open>
  \<open>farmkit/watch.py\<close> and the page reader of \<open>farmkit/runtime_reader.py\<close>: the loop that wakes the
  master. The reader is an interface that \<open>events_after\<close> of the runtime, reached through the
  command line, provides; the loop is a function of the number of polls it may make, and what
  it reads at each poll is a parameter.
\<close>

subsection \<open>Cursor tokens\<close>

definition split_cursor :: "string option \<Rightarrow> string option \<times> string fset" where
  "split_cursor token = (case token of
     None \<Rightarrow> (None, {||})
   | Some t \<Rightarrow>
       if t = [] then (None, {||})
       else (let parts = split_on CHR ''+'' t in
         (if hd parts = [] then None else Some (hd parts), fset_of_list (filter (\<lambda>p. p \<noteq> []) (tl parts)))))"

definition join_cursor :: "string option \<Rightarrow> string fset \<Rightarrow> string" where
  "join_cursor c ids = join ''+'' ((case c of None \<Rightarrow> ''0'' | Some t \<Rightarrow> if t = [] then ''0'' else t) # sorted_list_of_fset ids)"

lemma split_join:
  assumes "\<forall>p\<in>set ps. c \<notin> set p" and "ps \<noteq> []"
  shows "split_on c (join [c] ps) = ps"
  using assms
proof (induction "[c]" ps rule: join.induct)
  case (2 x)
  then show ?case by (simp add: split_on_rest)
next
  case (3 x y zs)
  then show ?case by (simp add: split_on_line del: join.simps(3)) (simp add: split_on_line)
qed simp

text \<open>A cursor token is read back as it was written: the position in the log (zero when there was
  none) and exactly the acknowledged state ids.\<close>

lemma cursor_roundtrip:
  assumes "\<forall>t. c = Some t \<longrightarrow> CHR ''+'' \<notin> set t" and "\<forall>i. i |\<in>| ids \<longrightarrow> CHR ''+'' \<notin> set i \<and> i \<noteq> []"
  shows "split_cursor (Some (join_cursor c ids)) = (case c of None \<Rightarrow> Some ''0'' | Some t \<Rightarrow> Some (if t = [] then ''0'' else t), ids)"
proof -
  let ?h = "case c of None \<Rightarrow> ''0'' | Some t \<Rightarrow> if t = [] then ''0'' else t"
  let ?l = "sorted_list_of_fset ids"
  have h: "CHR ''+'' \<notin> set ?h" "?h \<noteq> []" using assms(1) by (auto split: option.splits)
  have l: "\<forall>p\<in>set ?l. CHR ''+'' \<notin> set p \<and> p \<noteq> []" using assms(2) by simp
  have parts: "split_on CHR ''+'' (join ''+'' (?h # ?l)) = ?h # ?l"
    using h(1) l by (intro split_join) auto
  have "join ''+'' (?h # ?l) \<noteq> []" using h(2) by (cases ?l) simp_all
  moreover have "filter (\<lambda>p. p \<noteq> []) ?l = ?l" using l by (simp add: filter_id_conv)
  moreover have "fset_of_list ?l = ids" by (metis fset_of_list.rep_eq fset_inverse sorted_list_of_fset_simps(1))
  ultimately show ?thesis
    using h(2) assms(2) by (auto simp: split_cursor_def join_cursor_def parts split: option.splits)
qed

subsection \<open>Hits\<close>

text \<open>\<open>parse_ruling\<close> on the values of a status or an event.\<close>

definition ruling_in :: "json \<Rightarrow> json \<Rightarrow> (string \<times> bool) option res" where
  "ruling_in w t = (if \<not> truthy w then Inr None else case w of
     JStr s \<Rightarrow>
       if \<not> truthy t then Inr (parse_ruling (Some s) None)
       else (case t of
         JStr i \<Rightarrow> Inr (parse_ruling (Some s) (Some i))
       | _ \<Rightarrow> if starts_with ''ruling:'' s \<and> \<not> starts_with ''owner'' (drop 7 s) then Inl TypeError
              else Inr (parse_ruling (Some s) None))
   | _ \<Rightarrow> Inl AttributeError)"

definition ruling_hit :: "json \<Rightarrow> json \<Rightarrow> string \<times> bool \<Rightarrow> dict" where
  "ruling_hit t w r = obj [(''reason'', JStr ''ruling''), (''task'', t), (''waiting_on'', w), (''class'', JStr (fst r)),
     (''master_may_resolve'', JBool (\<not> snd r)), (''suggest'', JStr (if snd r then ''leave to Owner'' else ''task-ruling''))]"

definition classify_event :: "json \<Rightarrow> dict option res" where
  "classify_event e =
     rbind (as_obj e) (\<lambda>d.
     rbind (sub_obj d ''payload'') (\<lambda>payload.
     let task = dget d ''task_id''; etype = dget d ''type'' in
     if etype = JStr ''RECEIPT_APPLIED'' then
       (if dget payload ''to'' = JStr ''SUBMITTED'' then
          Inr (Some (obj [(''reason'', JStr ''submitted''), (''task'', task), (''suggest'', JStr ''review then task-accept or task-rework'')]))
        else rbind (ruling_in (dget payload ''waiting_on'') task) (\<lambda>p.
          Inr (map_option (ruling_hit task (dget payload ''waiting_on'')) p)))
     else if etype = JStr ''RESTART_LIMIT_REACHED'' then
       Inr (Some (obj [(''reason'', JStr ''restart-limit''), (''task'', task), (''suggest'', JStr ''inspect worker logs, then task-ruling'')]))
     else if etype = JStr ''WORKER_ADOPTED'' then
       Inr (Some (obj [(''reason'', JStr ''adopted''), (''task'', task), (''worker'', dget payload ''worker_id''),
         (''dead_worker'', dget payload ''dead_worker_id''), (''suggest'', JStr ''no action unless it repeats'')]))
     else Inr None))"

text \<open>The text of an f-string value; what is neither a string, an integer nor null is \<open>repr\<close>, a parameter.\<close>

fun shown :: "(json \<Rightarrow> string) \<Rightarrow> json \<Rightarrow> string" where
  "shown repr (JStr s) = s"
| "shown repr (JInt i) = int_str i"
| "shown repr JNull = ''None''"
| "shown repr j = repr j"

definition ruling_park :: "(json \<Rightarrow> string) \<Rightarrow> json \<Rightarrow> (string \<times> dict) option res" where
  "ruling_park repr t =
     rbind (as_obj t) (\<lambda>d.
     if dget d ''state'' \<noteq> JStr ''WAITING'' then Inr None
     else rbind (ruling_in (dget d ''waiting_on'') (dget d ''id'')) (\<lambda>p. Inr (case p of
       None \<Rightarrow> None
     | Some r \<Rightarrow>
         (let sid = ''ruling:'' @ shown repr (dget d ''id'') @ '':'' @ shown repr (dget d ''revision'') in
          Some (sid, dput (ruling_hit (dget d ''id'') (dget d ''waiting_on'') r) [(''state_id'', JStr sid)])))))"

definition ruling_parks :: "(json \<Rightarrow> string) \<Rightarrow> dict \<Rightarrow> (string \<times> dict) list res" where
  "ruling_parks repr status =
     rbind (as_list (dget_or status ''tasks'' (JList []))) (\<lambda>ts.
     rbind (rmap (ruling_park repr) ts) (\<lambda>hs. Inr (List.map_filter (\<lambda>h. h) hs)))"

definition daemon_down :: "(json \<Rightarrow> string) \<Rightarrow> rat \<Rightarrow> dict \<Rightarrow> (string \<times> dict) option res" where
  "daemon_down repr tm status =
     (let hit = (\<lambda>reason sid. Inr (Some (sid, obj [(''reason'', JStr reason), (''state_id'', JStr sid)]))) in
      if dget status ''pid_alive'' = JBool False then hit ''daemon-down'' (''daemon-down:'' @ shown repr (dget status ''pid''))
      else rbind (sub_obj status ''last_tick'') (\<lambda>tick.
        rbind (interval_of status) (\<lambda>interval.
        if dget tick ''epoch'' = JNull then Inr None
        else rbind (number (dget tick ''epoch'')) (\<lambda>ts.
          if 3 * interval < tm - ts then hit ''daemon-stalled'' (''daemon-stalled:'' @ shown repr (dget tick ''epoch''))
          else Inr None))))"

text \<open>The first entry of a status list that satisfies the condition of the loop.\<close>

fun first_entry :: "(dict \<Rightarrow> dict option) \<Rightarrow> json list \<Rightarrow> dict option res" where
  "first_entry f [] = Inr None"
| "first_entry f (x # xs) = rbind (as_obj x) (\<lambda>d. case f d of Some h \<Rightarrow> Inr (Some h) | None \<Rightarrow> first_entry f xs)"

definition until_hit :: "(string \<Rightarrow> bool) \<Rightarrow> string option \<Rightarrow> dict \<Rightarrow> dict option res" where
  "until_hit there until status = (case given until of
     None \<Rightarrow> Inr None
   | Some u \<Rightarrow>
       (let kind = before CHR '':'' u; arg = after CHR '':'' u in
        if kind = ''job'' then
          rbind (as_list (dget_or status ''observed_jobs'' (JList []))) (first_entry (\<lambda>j.
            if dget j ''job_id'' = JStr arg \<and> truthy (dget j ''terminal'')
            then Some (obj [(''reason'', JStr ''job''), (''job'', JStr arg), (''state'', dget j ''state'')]) else None))
        else if kind = ''file'' then
          Inr (if there arg then Some (obj [(''reason'', JStr ''file''), (''path'', JStr arg)]) else None)
        else if kind = ''task'' then
          rbind (as_list (dget_or status ''tasks'' (JList []))) (first_entry (\<lambda>t.
            if dget t ''id'' = JStr arg \<and> (dget t ''state'' = JStr ''SUBMITTED'' \<or> dget t ''state'' = JStr ''DONE'')
            then Some (obj [(''reason'', JStr ''task''), (''task'', JStr arg), (''state'', dget t ''state'')]) else None))
        else Inr None))"

subsection \<open>The loop\<close>

record result =
  w_reason :: json
  w_hits :: "dict list"
  w_cursor :: string

text \<open>What the loop reads: the status and the pages at poll \<open>n\<close>, and the clock.\<close>

record reader =
  r_status :: "nat \<Rightarrow> dict res"
  r_page :: "nat \<Rightarrow> string option \<Rightarrow> (json list \<times> string) res"
  r_clock :: "nat \<Rightarrow> rat"
  r_there :: "nat \<Rightarrow> string \<Rightarrow> bool"

definition page_hits :: "json list \<Rightarrow> dict list res" where
  "page_hits evs = rbind (rmap classify_event evs) (\<lambda>hs. Inr (List.map_filter (\<lambda>h. h) hs))"

text \<open>Draining the backlog at one poll: a page with hits, or the position behind the last page. The
  fuel bounds the number of pages.\<close>

fun drain :: "nat \<Rightarrow> (string option \<Rightarrow> (json list \<times> string) res) \<Rightarrow> dict option \<Rightarrow> string option \<Rightarrow>
    ((dict list \<times> string) + string option) res option" where
  "drain 0 page u scan = None"
| "drain (Suc n) page u scan = (case page scan of
     Inl e \<Rightarrow> Some (Inl e)
   | Inr (evs, c) \<Rightarrow> (case page_hits evs of
       Inl e \<Rightarrow> Some (Inl e)
     | Inr hs \<Rightarrow>
         (let hits = hs @ (case u of Some h \<Rightarrow> [h] | None \<Rightarrow> []) in
          if hits \<noteq> [] then Some (Inr (Inl (hits, c)))
          else if evs = [] \<or> Some c = scan then Some (Inr (Inr scan))
          else drain n page u (Some c))))"

definition tell :: "dict list \<Rightarrow> string option \<Rightarrow> string fset \<Rightarrow> result" where
  "tell hits c ids = \<lparr>w_reason = (case hits of h # _ \<Rightarrow> dget h ''reason'' | [] \<Rightarrow> JStr ''timeout''),
     w_hits = hits, w_cursor = join_cursor c ids\<rparr>"

definition poll_state ::
    "(json \<Rightarrow> string) \<Rightarrow> dict \<Rightarrow> rat \<Rightarrow> string option \<Rightarrow> string fset \<Rightarrow> result option res" where
  "poll_state repr status tm scan acked =
     rbind (daemon_down repr tm status) (\<lambda>down.
     case (case down of Some h \<Rightarrow> if fst h |\<in>| acked then None else Some h | None \<Rightarrow> None) of
       Some h \<Rightarrow> Inr (Some (tell [snd h] scan (finsert (fst h) acked)))
     | None \<Rightarrow>
         rbind (ruling_parks repr status) (\<lambda>all.
         let parks = filter (\<lambda>p. fst p |\<notin>| acked) all in
         Inr (if parks \<noteq> [] then Some (tell (map snd parks) scan (acked |\<union>| fset_of_list (map fst parks))) else None)))"

text \<open>\<open>k\<close> bounds the polls and \<open>pages\<close> the pages drained at one of them.\<close>

fun watch_loop :: "nat \<Rightarrow> nat \<Rightarrow> reader \<Rightarrow> (json \<Rightarrow> string) \<Rightarrow> string option \<Rightarrow> rat \<Rightarrow> string fset \<Rightarrow> string option \<Rightarrow> nat \<Rightarrow>
    result res option" where
  "watch_loop 0 pages R repr until deadline acked scan n = None"
| "watch_loop (Suc k) pages R repr until deadline acked scan n =
     (case rbind (r_status R n) (\<lambda>st. rbind (until_hit (r_there R n) until st) (\<lambda>u. Inr (st, u))) of
        Inl e \<Rightarrow> Some (Inl e)
      | Inr (status, u) \<Rightarrow> (case drain pages (r_page R n) u scan of
          None \<Rightarrow> None
        | Some (Inl e) \<Rightarrow> Some (Inl e)
        | Some (Inr (Inl (hits, c))) \<Rightarrow> Some (Inr (tell hits (Some c) acked))
        | Some (Inr (Inr scan')) \<Rightarrow> (case poll_state repr status (r_clock R (2 * n + 1)) scan' acked of
            Inl e \<Rightarrow> Some (Inl e)
          | Inr (Some w) \<Rightarrow> Some (Inr w)
          | Inr None \<Rightarrow>
              if deadline \<le> r_clock R (2 * n + 2) then Some (Inr (tell [] scan' acked))
              else watch_loop k pages R repr until deadline acked scan' (Suc n))))"

definition watch :: "nat \<Rightarrow> nat \<Rightarrow> reader \<Rightarrow> (json \<Rightarrow> string) \<Rightarrow> string option \<Rightarrow> rat \<Rightarrow> string option \<Rightarrow> result res option" where
  "watch k pages R repr until timeout token =
     (case split_cursor token of (c, acked) \<Rightarrow>
        watch_loop k pages R repr until (r_clock R 0 + timeout) acked c 0)"

subsection \<open>A reader of a growing log\<close>

text \<open>What the loop relies on: a page holds the next events behind its cursor, also in a log that has
  grown since, and an empty page or an unmoved cursor means that none were left.\<close>

locale paged_log =
  fixes page :: "'l \<Rightarrow> string option \<Rightarrow> (json list \<times> string) res"
    and behind :: "'l \<Rightarrow> string option \<Rightarrow> json list"
    and grows :: "'l \<Rightarrow> 'l \<Rightarrow> bool"
  assumes grows_refl: "grows l l"
    and page_next: "page l c = Inr (evs, c') \<Longrightarrow> grows l L \<Longrightarrow> behind L c = evs @ behind L (Some c')"
    and page_empty: "page l c = Inr ([], c') \<Longrightarrow> behind l c = []"
    and page_stuck: "page l c = Inr (evs, c') \<Longrightarrow> Some c' = c \<Longrightarrow> evs = []"
begin

lemma rmap_append: "rmap f (a @ b) = rbind (rmap f a) (\<lambda>x. rbind (rmap f b) (\<lambda>y. Inr (x @ y)))"
proof (induction a)
  case (Cons a as)
  then show ?case by (cases "f a"; cases "rmap f as"; cases "rmap f b") auto
qed (cases "rmap f b"; simp)

lemma page_hits_append: "page_hits a = Inr x \<Longrightarrow> page_hits b = Inr y \<Longrightarrow> page_hits (a @ b) = Inr (x @ y)"
  by (auto simp: page_hits_def rbind_Inr_iff rmap_append List.map_filter_def)

text \<open>A drained backlog: what was passed over holds no hit, and hits come from the page before the cursor.\<close>

lemma drain_hits:
  "drain n (page l) u scan = Some (Inr (Inl (hits, c))) \<Longrightarrow> grows l L \<Longrightarrow>
   \<exists>gone evs hs. behind L scan = gone @ evs @ behind L (Some c) \<and> page_hits gone = Inr [] \<and>
     page_hits evs = Inr hs \<and> hits = hs @ (case u of Some h \<Rightarrow> [h] | None \<Rightarrow> [])"
proof (induction n arbitrary: scan)
  case (Suc n)
  from Suc.prems obtain evs c' hs where pg: "page l scan = Inr (evs, c')" "page_hits evs = Inr hs"
    by (auto split: sum.splits prod.splits)
  note nx = page_next [OF pg(1) Suc.prems(2)]
  let ?hits = "hs @ (case u of Some h \<Rightarrow> [h] | None \<Rightarrow> [])"
  show ?case
  proof (cases "?hits \<noteq> []")
    case True
    then have "hits = ?hits" "c = c'" using Suc.prems(1) pg by (auto simp: Let_def)
    then show ?thesis using nx pg(2) by (intro exI [of _ "[]"] exI [of _ evs] exI [of _ hs]) (simp add: page_hits_def)
  next
    case False
    then have hs: "hs = []" by simp
    have rest: "drain n (page l) u (Some c') = Some (Inr (Inl (hits, c)))"
      using Suc.prems(1) pg False by (auto simp: Let_def split: if_splits)
    obtain gone evs' hs' where "behind L (Some c') = gone @ evs' @ behind L (Some c)"
      "page_hits gone = Inr []" "page_hits evs' = Inr hs'" "hits = hs' @ (case u of Some h \<Rightarrow> [h] | None \<Rightarrow> [])"
      using Suc.IH [OF rest Suc.prems(2)] by blast
    then show ?thesis
      using nx pg(2) hs page_hits_append [of evs "[]" gone "[]"]
      by (intro exI [of _ "evs @ gone"] exI [of _ evs'] exI [of _ hs']) simp
  qed
qed simp

lemma drain_behind:
  "drain n (page l) u scan = Some (Inr (Inr scan')) \<Longrightarrow> grows l L \<Longrightarrow>
   \<exists>gone. behind L scan = gone @ behind L scan' \<and> page_hits gone = Inr []"
proof (induction n arbitrary: scan)
  case (Suc n)
  from Suc.prems obtain evs c' hs where pg: "page l scan = Inr (evs, c')" "page_hits evs = Inr hs"
    by (auto split: sum.splits prod.splits)
  have hs: "hs = []" using Suc.prems(1) pg by (auto simp: Let_def split: if_splits)
  show ?case
  proof (cases "evs = [] \<or> Some c' = scan")
    case True
    then have "scan' = scan" using Suc.prems(1) pg by (auto simp: Let_def split: if_splits)
    then show ?thesis by (intro exI [of _ "[]"]) (simp add: page_hits_def)
  next
    case False
    then have rest: "drain n (page l) u (Some c') = Some (Inr (Inr scan'))"
      using Suc.prems(1) pg by (auto simp: Let_def split: if_splits)
    obtain gone where "behind L (Some c') = gone @ behind L scan'" "page_hits gone = Inr []"
      using Suc.IH [OF rest Suc.prems(2)] by blast
    then show ?thesis
      using page_next [OF pg(1) Suc.prems(2)] pg(2) hs page_hits_append [of evs "[]" gone "[]"]
      by (intro exI [of _ "evs @ gone"]) simp
  qed
qed simp

text \<open>Every page of a log takes something off what is behind it.\<close>

lemma drain_ends: "length (behind l scan) < n \<Longrightarrow> drain n (page l) u scan \<noteq> None"
proof (induction n arbitrary: scan)
  case (Suc n)
  show ?case
  proof (cases "page l scan")
    case (Inr p)
    obtain evs c' where p: "p = (evs, c')" by (cases p)
    have "length (behind l (Some c')) < n" if "evs \<noteq> []"
      using page_next [OF Inr [unfolded p] grows_refl] Suc.prems that by (cases evs) auto
    then show ?thesis using Inr p Suc.IH by (auto simp: Let_def split: sum.split option.split)
  qed simp
qed simp

lemma page_hits_Nil [simp]: "page_hits [] = Inr []"
  by (simp add: page_hits_def)

text \<open>What a finished watch has seen of the log: from where it started to its cursor everything was
  gone over without a hit or reported.\<close>

definition covered :: "'l \<Rightarrow> string option \<Rightarrow> string fset \<Rightarrow> result \<Rightarrow> bool" where
  "covered L scan acked w \<longleftrightarrow> (\<exists>gone evs hs c ids. behind L scan = gone @ evs @ behind L c \<and>
     page_hits gone = Inr [] \<and> page_hits evs = Inr hs \<and> set hs \<subseteq> set (w_hits w) \<and>
     w_cursor w = join_cursor c ids \<and> acked |\<subseteq>| ids)"

lemma covered_passed:
  assumes "behind L scan = gone @ behind L scan'" "page_hits gone = Inr []" "covered L scan' acked w"
  shows "covered L scan acked w"
proof -
  from assms(3) obtain p evs hs c ids where "behind L scan' = p @ evs @ behind L c" "page_hits p = Inr []"
    "page_hits evs = Inr hs" "set hs \<subseteq> set (w_hits w)" "w_cursor w = join_cursor c ids" "acked |\<subseteq>| ids"
    by (auto simp: covered_def)
  then show ?thesis
    using assms(1,2) page_hits_append [of gone "[]" p "[]"] unfolding covered_def
    by (intro exI [of _ "gone @ p"] exI [of _ evs] exI [of _ hs] exI [of _ c] exI [of _ ids]) simp
qed

lemma covered_here: "acked |\<subseteq>| ids \<Longrightarrow> covered L scan acked (tell hits scan ids)"
  unfolding covered_def by (intro exI [of _ "[]"] exI [of _ "[]"] exI [of _ scan] exI [of _ ids]) (simp add: tell_def)

lemma poll_state_covered: "poll_state repr status tm scan acked = Inr (Some w) \<Longrightarrow> covered L scan acked w"
  by (auto simp: poll_state_def rbind_Inr_iff Let_def split: option.splits if_splits intro!: covered_here)

lemma watch_covers:
  assumes "\<And>m. n \<le> m \<Longrightarrow> r_page R m = page (logs m)" and "\<And>m. grows (logs m) L"
    and "watch_loop k pages R repr until deadline acked scan n = Some (Inr w)"
  shows "covered L scan acked w"
  using assms(1,3)
proof (induction k arbitrary: scan n)
  case (Suc k)
  from Suc.prems(2) obtain status u d where st: "r_status R n = Inr status" "until_hit (r_there R n) until status = Inr u"
    and d: "drain pages (page (logs n)) u scan = Some (Inr d)"
    using Suc.prems(1) [of n] by (auto simp: rbind_def split: sum.splits option.splits)
  show ?case
  proof (cases d)
    case (Inl hc)
    obtain hits c where hc: "hc = (hits, c)" by (cases hc)
    have w: "w = tell hits (Some c) acked"
      using Suc.prems(2) Suc.prems(1) [of n] st d Inl hc by simp
    obtain gone evs hs where b: "behind L scan = gone @ evs @ behind L (Some c)" "page_hits gone = Inr []"
      "page_hits evs = Inr hs" "hits = hs @ (case u of Some h \<Rightarrow> [h] | None \<Rightarrow> [])"
      using drain_hits [OF d [unfolded Inl hc] assms(2)] by blast
    then show ?thesis
      unfolding covered_def w tell_def
      by (intro exI [of _ gone] exI [of _ evs] exI [of _ hs] exI [of _ "Some c"] exI [of _ acked]) simp
  next
    case (Inr scan')
    obtain gone where p: "behind L scan = gone @ behind L scan'" "page_hits gone = Inr []"
      using drain_behind [OF d [unfolded Inr] assms(2)] by blast
    have "covered L scan' acked w"
    proof (cases "\<exists>w'. poll_state repr status (r_clock R (2 * n + 1)) scan' acked = Inr (Some w')")
      case True
      then show ?thesis
        using Suc.prems(2) Suc.prems(1) [of n] st d Inr poll_state_covered by auto
    next
      case False
      then have None: "poll_state repr status (r_clock R (2 * n + 1)) scan' acked = Inr None"
        using Suc.prems(2) Suc.prems(1) [of n] st d Inr by (auto split: sum.splits option.splits)
      show ?thesis
      proof (cases "deadline \<le> r_clock R (2 * n + 2)")
        case True
        then show ?thesis
          using Suc.prems(2) Suc.prems(1) [of n] st d Inr None by (auto intro!: covered_here)
      next
        case False
        then have rest: "watch_loop k pages R repr until deadline acked scan' (Suc n) = Some (Inr w)"
          using Suc.prems(2) Suc.prems(1) [of n] st d Inr None by auto
        show ?thesis by (rule Suc.IH [OF _ rest]) (simp add: Suc.prems(1))
      qed
    qed
    then show ?thesis by (rule covered_passed [OF p])
  qed
qed simp

lemma watch_open:
  assumes "\<And>u scan. drain pages (r_page R n) u scan \<noteq> None"
    and "watch_loop (Suc k) pages R repr until deadline acked scan n = None"
  shows "\<not> deadline \<le> r_clock R (2 * n + 2) \<and>
    (\<exists>scan'. watch_loop k pages R repr until deadline acked scan' (Suc n) = None)"
proof -
  from assms(2) obtain status u where
    st: "rbind (r_status R n) (\<lambda>st. rbind (until_hit (r_there R n) until st) (\<lambda>u. Inr (st, u))) = Inr (status, u)"
    by (auto split: sum.splits)
  from assms(1) obtain d where d: "drain pages (r_page R n) u scan = Some d" by blast
  show ?thesis
    using assms(2) st d by (auto split: sum.splits option.splits if_splits)
qed

lemma watch_ends:
  assumes "\<And>m. r_page R m = page (logs m)" and "\<And>m c. length (behind (logs m) c) < pages"
    and "deadline \<le> r_clock R (2 * m + 2)" and "n \<le> m"
  shows "watch_loop (Suc (m - n)) pages R repr until deadline acked scan n \<noteq> None"
  using assms(4)
proof (induction "m - n" arbitrary: n scan)
  case 0
  then have n: "n = m" by simp
  have "drain pages (r_page R n) u scan \<noteq> None" for u scan
    unfolding assms(1) by (rule drain_ends [OF assms(2)])
  from watch_open [OF this] show ?case using assms(3) n by blast
next
  case (Suc d)
  then have e: "m - n = Suc (m - Suc n)" "Suc n \<le> m" "d = m - Suc n" by simp_all
  have "drain pages (r_page R n) u scan \<noteq> None" for u scan
    unfolding assms(1) by (rule drain_ends [OF assms(2)])
  from watch_open [OF this] show ?case using Suc.hyps(1) [OF e(3,2)] unfolding e(1) by blast
qed

end

subsection \<open>The runtime's log is such a reader\<close>

text \<open>\<open>farm events --after c\<close>: the pages of \<open>events_after\<close> with the default limit, the cursor as text; a
  command that fails is a \<open>RuntimeReaderError\<close>.\<close>

fun report_json :: "reported \<Rightarrow> json" where
  "report_json (Event_line j) = j"
| "report_json (Malformed raw pos) = JObj (obj [(''malformed'', JStr raw), (''offset'', JInt (int pos))])"

definition cli_cursor :: "string option \<Rightarrow> nat res" where
  "cli_cursor c = (case c of
     None \<Rightarrow> Inr 0
   | Some s \<Rightarrow> if s \<noteq> [] \<and> list_all is_digit s then Inr (digits_nat s)
              else Inl (StoreError ''--after expects the integer cursor returned by a previous call''))"

definition cli_page :: "codec \<Rightarrow> string \<Rightarrow> string option \<Rightarrow> (json list \<times> string) res" where
  "cli_page J log c =
     (case rbind (cli_cursor c) (\<lambda>n. events_after J (Some log) (int n) 1000) of
        Inl e \<Rightarrow> Inl (RuntimeReaderError ''events failed'')
      | Inr (evs, c', tr) \<Rightarrow> Inr (map report_json evs, nat_str c'))"

text \<open>The events behind a cursor.\<close>

definition unread :: "codec \<Rightarrow> string \<Rightarrow> string option \<Rightarrow> json list" where
  "unread J log c = map report_json (reports J log (case cli_cursor c of Inr n \<Rightarrow> n | Inl e \<Rightarrow> 0))"

lemma cli_cursor_str [simp]: "cli_cursor (Some (nat_str n)) = Inr n"
  by (simp add: cli_cursor_def nat_str_digits)

lemma page_truncated: "page_lines J limit evs pos ls = (evs', pos', True) \<Longrightarrow> limit \<le> length evs'"
  by (induction J limit evs pos ls rule: page_lines.induct) (auto split: if_splits)

lemma cli_page_next:
  assumes "cli_page J log c = Inr (evs, c')"
  shows "unread J (log @ x) c = evs @ unread J (log @ x) (Some c')"
    and "evs = [] \<or> Some c' \<noteq> c" and "evs = [] \<Longrightarrow> unread J log c = []"
proof -
  from assms obtain n rs m tr where n: "cli_cursor c = Inr n" and
    p: "events_after J (Some log) (int n) 1000 = Inr (rs, m, tr)" and
    e: "evs = map report_json rs" "c' = nat_str m"
    by (auto simp: cli_page_def rbind_def split: sum.splits prod.splits)
  note pc = page_spec [OF p]
  show "unread J (log @ x) c = evs @ unread J (log @ x) (Some c')"
    using pc by (simp add: unread_def n e)
  have "rs = []" if "complete_lines (drop n log) = []"
    using pc that by (auto simp: reports_def dest: spec [of _ "[]"])
  moreover have "complete_lines (drop n log) = []" if "Some c' = c"
  proof -
    have "n = m" using n that by (auto simp: e)
    then show ?thesis using pc by (metis less_irrefl_nat zero_less_numeral)
  qed
  ultimately show "evs = [] \<or> Some c' \<noteq> c" by (auto simp: e)
  show "unread J log c = []" if "evs = []"
  proof -
    have rs: "rs = []" using that e by simp
    have "tr = False"
      using p rs page_truncated [of J 1000 "[]" n "complete_lines (drop n log)" rs m]
      by (cases tr) (simp_all add: events_after_def split: if_splits)
    then have "reports J log m = []" using pc by (simp add: reports_def)
    moreover have "reports J log n = reports J log m" using pc rs by (metis append_Nil append_Nil2)
    ultimately show ?thesis by (simp add: unread_def n)
  qed
qed

interpretation runtime_log: paged_log "cli_page J" "unread J" "\<lambda>log full. \<exists>x. full = log @ x"
proof
  show "\<exists>x. l = l @ x" for l :: string by (rule exI [of _ "[]"]) simp
  show "unread J L c = evs @ unread J L (Some c')"
    if "cli_page J l c = Inr (evs, c')" "\<exists>x. L = l @ x" for l L c evs c'
    using that cli_page_next(1) by blast
  show "unread J l c = []" if "cli_page J l c = Inr ([], c')" for l c c'
    using cli_page_next(3) [OF that] by simp
  show "evs = []" if "cli_page J l c = Inr (evs, c')" "Some c' = c" for l c evs c'
    using cli_page_next(2) [OF that(1)] that(2) by simp
qed

text \<open>C27: a watch loses no event. Whatever a finished watch returns, between the cursor it started from
  and the cursor it offers for acknowledgement every record of the log, as it is in any later
  state of the log, was passed over because the master has nothing to do for it or is among
  the returned hits; what was acknowledged before stays acknowledged.\<close>

theorem watch_loses_nothing:
  assumes "\<And>m. r_page R m = cli_page J (logs m)" and "\<And>m. \<exists>x. full = logs m @ x"
    and "watch k pages R repr until timeout token = Some (Inr w)"
    and "split_cursor token = (start, acked)"
  shows "\<exists>gone evs hs c ids. unread J full start = gone @ evs @ unread J full c \<and>
    page_hits gone = Inr [] \<and> page_hits evs = Inr hs \<and> set hs \<subseteq> set (w_hits w) \<and>
    w_cursor w = join_cursor c ids \<and> acked |\<subseteq>| ids"
proof -
  have "runtime_log.covered J full start acked w"
    by (rule runtime_log.watch_covers [of 0 R J logs]) (use assms in \<open>auto simp: watch_def\<close>)
  then show ?thesis unfolding runtime_log.covered_def .
qed

text \<open>C28: a watch returns. If the clock has reached the deadline at the m-th poll and each log has fewer
  than \<open>pages\<close> records, then m + 1 polls and that many pages per poll are enough fuel: there is a
  result or an exception of one of the reads.\<close>

theorem watch_returns:
  assumes "\<And>m. r_page R m = cli_page J (logs m)" and "\<And>m c. length (unread J (logs m) c) < pages"
    and "r_clock R 0 + timeout \<le> r_clock R (2 * m + 2)"
  shows "\<exists>r. watch (Suc m) pages R repr until timeout token = Some r"
proof -
  obtain c acked where t: "split_cursor token = (c, acked)" by (cases "split_cursor token")
  have "watch_loop (Suc (m - 0)) pages R repr until (r_clock R 0 + timeout) acked c 0 \<noteq> None"
    by (rule runtime_log.watch_ends [of R J logs]) (use assms in auto)
  then show ?thesis by (auto simp: watch_def t)
qed

end
