(* ===== verification/Ledger.thy ===== *)
theory Ledger
  imports Classify
begin

text \<open>
  \<open>farmkit/ledger.py\<close>: the attempt ledger of a workspace, one record per execution of one step.
  The files are the truth; the listing a \<open>Ledger\<close> object remembers and \<open>INDEX.json\<close> are derived
  from them. An attempt is a typed record with the keys of \<open>new_record\<close> and those the runner
  adds later; a key that may hold None is an option.
\<close>

subsection \<open>Records\<close>

record submission =
  s_intent :: string
  s_argv :: "string list"
  s_cwd :: "string option"
  s_job :: "string option"
  s_status :: string
  s_error :: "string option"

record observed =
  ob_state :: "string option"
  ob_ts :: string
  ob_end :: "string option"

record verdict_entry =
  vr_ok :: bool
  vr_reasons :: "string list"
  vr_checked :: "string list"
  vr_verifier :: "string option"
  vr_ts :: string

record failure =
  fl_class :: string
  fl_reasons :: "string list"
  fl_ts :: string
  fl_retried :: bool
  fl_parked :: bool
  fl_ruling :: "string option"
  fl_released :: "(string \<times> string) option"
  fl_evidence :: "string option"

record budget =
  bg_class :: "string option"
  bg_max :: int
  bg_used :: int
  bg_prior :: int

text \<open>An input as described at submission or verification: its identity is what two descriptions are
  compared by, \<open>ie_changed\<close> the identity of a later, different file.\<close>

type_synonym input_identity = "string option \<times> int option \<times> string option \<times> string option"

record input_entry =
  ie_path :: string
  ie_exists :: bool
  ie_identity :: input_identity
  ie_resolved :: "string option"
  ie_recorded :: "string option"
  ie_changed :: "input_identity option"

record attempt =
  a_schema :: string
  a_id :: string
  a_task :: "string option"
  a_lease :: "string option"
  a_step :: string
  a_n :: nat
  a_code :: "(string, string) fmap"
  a_snapshot :: "string option"
  a_env :: "string option"
  a_inputs :: "(string, input_entry) fmap"
  a_submit :: "submission option"
  a_wait :: "string option"
  a_observed :: "observed option"
  a_verdict :: "verdict_entry option"
  a_artifacts :: "(string \<times> string) list"
  a_failure :: "failure option"
  a_budget :: budget
  a_site :: "string option"
  a_created :: string
  a_updated :: "string option"
  a_run_dir :: "string option"
  a_stderr :: "string option"
  a_exit :: "int option"
  a_published :: "(string \<times> string) list"

definition schema :: string where
  "schema = ''farmkit.attempt.v1''"

definition no_budget :: budget where
  "no_budget = \<lparr>bg_class = None, bg_max = 0, bg_used = 0, bg_prior = 0\<rparr>"

definition new_record ::
    "string \<Rightarrow> string option \<Rightarrow> string option \<Rightarrow> nat \<Rightarrow> string option \<Rightarrow> string \<Rightarrow> string \<Rightarrow> attempt" where
  "new_record step task lease n site aid created =
     \<lparr>a_schema = schema, a_id = aid, a_task = task, a_lease = lease, a_step = step, a_n = n,
      a_code = fmempty, a_snapshot = None, a_env = None, a_inputs = fmempty, a_submit = None, a_wait = None,
      a_observed = None, a_verdict = None, a_artifacts = [], a_failure = None, a_budget = no_budget,
      a_site = site, a_created = created, a_updated = None, a_run_dir = None, a_stderr = None, a_exit = None,
      a_published = []\<rparr>"

subsection \<open>Files, the remembered listing and the index\<close>

type_synonym index = "(string \<times> string list) list"

record ledger =
  g_files :: "(string, attempt) fmap"
  g_memo :: "attempt list option"
  g_index :: "index option"

text \<open>\<open>_read_all\<close>: the records of the schema, by creation time and id.\<close>

definition read_all :: "(string, attempt) fmap \<Rightarrow> attempt list" where
  "read_all fs = sort_key (\<lambda>r. (a_created r, a_id r)) (filter (\<lambda>r. a_schema r = schema) (file_list fs))"

definition invalidate :: "ledger \<Rightarrow> ledger" where
  "invalidate g = g\<lparr>g_memo := None\<rparr>"

definition ledger_all :: "ledger \<Rightarrow> attempt list \<times> ledger" where
  "ledger_all g = (case g_memo g of
     Some rs \<Rightarrow> (rs, g)
   | None \<Rightarrow> (read_all (g_files g), g\<lparr>g_memo := Some (read_all (g_files g))\<rparr>))"

text \<open>\<open>steps.setdefault(step, []).append(id)\<close>\<close>

fun index_add :: "string \<Rightarrow> string \<Rightarrow> index \<Rightarrow> index" where
  "index_add st i [] = [(st, [i])]"
| "index_add st i ((k, v) # xs) = (if k = st then (k, v @ [i]) # xs else (k, v) # index_add st i xs)"

definition index_of :: "attempt list \<Rightarrow> index" where
  "index_of rs = foldl (\<lambda>x r. index_add (a_step r) (a_id r) x) [] rs"

definition rebuild_index :: "ledger \<Rightarrow> ledger" where
  "rebuild_index g = (case ledger_all (invalidate g) of (rs, g') \<Rightarrow> g'\<lparr>g_index := Some (index_of rs)\<rparr>)"

definition ledger_save :: "string \<Rightarrow> attempt \<Rightarrow> ledger \<Rightarrow> (attempt \<times> ledger) res" where
  "ledger_save ts r g =
     rbind (ensure (a_schema r = schema) (ValueError ''not a farmkit attempt record'')) (\<lambda>_.
     let r' = r\<lparr>a_updated := Some ts\<rparr> in
     Inr (r', rebuild_index (invalidate (g\<lparr>g_files := fmupd (a_id r) r' (g_files g)\<rparr>))))"

definition ledger_get :: "string \<Rightarrow> ledger \<Rightarrow> attempt res" where
  "ledger_get i g = (case fmlookup (g_files g) i of None \<Rightarrow> Inl (OSError ''no such file'') | Some r \<Rightarrow> Inr r)"

subsection \<open>Queries\<close>

definition by_step :: "attempt list \<Rightarrow> string \<Rightarrow> attempt list" where
  "by_step rs st = filter (\<lambda>r. a_step r = st) rs"

definition latest :: "attempt list \<Rightarrow> string \<Rightarrow> attempt option" where
  "latest rs st = (case by_step rs st of [] \<Rightarrow> None | xs \<Rightarrow> Some (last xs))"

definition status_of :: "attempt \<Rightarrow> string option" where
  "status_of r = map_option s_status (a_submit r)"

definition job_of :: "attempt \<Rightarrow> string option" where
  "job_of r = (case a_submit r of None \<Rightarrow> None | Some s \<Rightarrow> (case s_job s of Some j \<Rightarrow> if j = [] then None else Some j | None \<Rightarrow> None))"

definition seen_state :: "attempt \<Rightarrow> string option" where
  "seen_state r = (case a_observed r of None \<Rightarrow> None | Some ob \<Rightarrow> ob_state ob)"

definition unverified_intents :: "attempt list \<Rightarrow> attempt list" where
  "unverified_intents rs = filter (\<lambda>r. status_of r = Some ''intent'' \<or> status_of r = Some ''unverified'') rs"

definition unfinalized :: "attempt list \<Rightarrow> attempt list" where
  "unfinalized rs = filter (\<lambda>r. slurm_job_terminal (seen_state r) \<and> a_verdict r = None \<and> a_failure r = None) rs"

definition in_flight :: "attempt list \<Rightarrow> attempt list" where
  "in_flight rs = filter (\<lambda>r. (status_of r = Some ''submitted'' \<or> status_of r = Some ''adopted'') \<and>
     job_of r \<noteq> None \<and> \<not> slurm_job_terminal (seen_state r)) rs"

definition is_parked :: "attempt \<Rightarrow> bool" where
  "is_parked r = (case a_failure r of Some f \<Rightarrow> fl_parked f | None \<Rightarrow> False)"

definition parked :: "attempt list \<Rightarrow> attempt list" where
  "parked rs = filter is_parked rs"

definition verdict_ok :: "attempt \<Rightarrow> bool" where
  "verdict_ok r = (case a_verdict r of Some v \<Rightarrow> vr_ok v | None \<Rightarrow> False)"

definition step_ok :: "attempt list \<Rightarrow> string \<Rightarrow> bool" where
  "step_ok rs st = (case latest rs st of Some r \<Rightarrow> verdict_ok r | None \<Rightarrow> False)"

text \<open>\<open>Ledger.new\<close>: the record of the next attempt of a step.\<close>

definition ledger_new ::
    "attempt list \<Rightarrow> string \<Rightarrow> string option \<Rightarrow> string option \<Rightarrow> string option \<Rightarrow> string \<Rightarrow> string \<Rightarrow> attempt" where
  "ledger_new rs st task lease site aid created =
     new_record st task lease (length (by_step rs st) + 1) site aid created"

definition release :: "string \<Rightarrow> attempt list \<Rightarrow> string \<Rightarrow> string \<Rightarrow> attempt res" where
  "release ts rs st ruling = (case latest rs st of
     None \<Rightarrow> Inl (ValueError ''latest attempt is not parked; nothing to release'')
   | Some r \<Rightarrow> (case a_failure r of
       None \<Rightarrow> Inl (ValueError ''latest attempt is not parked; nothing to release'')
     | Some f \<Rightarrow>
         if \<not> fl_parked f then Inl (ValueError ''latest attempt is not parked; nothing to release'')
         else if strip ruling = [] then Inl (ValueError ''release needs the ruling text (who decided what)'')
         else Inr (r\<lparr>a_failure := Some (f\<lparr>fl_parked := False, fl_released := Some (ts, strip ruling)\<rparr>)\<rparr>)))"

subsection \<open>The listing is coherent\<close>

text \<open>What is remembered is what the files say.\<close>

definition coherent :: "ledger \<Rightarrow> bool" where
  "coherent g \<longleftrightarrow> (case g_memo g of None \<Rightarrow> True | Some rs \<Rightarrow> rs = read_all (g_files g))"

lemma ledger_all_coherent:
  "coherent g \<Longrightarrow> fst (ledger_all g) = read_all (g_files g) \<and> coherent (snd (ledger_all g)) \<and>
     g_files (snd (ledger_all g)) = g_files g"
  by (auto simp: coherent_def ledger_all_def split: option.splits)

lemma coherent_rebuild: "coherent (rebuild_index g) \<and> g_files (rebuild_index g) = g_files g \<and>
    g_index (rebuild_index g) = Some (index_of (read_all (g_files g)))"
  by (simp add: rebuild_index_def ledger_all_def invalidate_def coherent_def)

datatype ledger_op = Save string attempt | Listing | Rebuild | Forget

fun ledger_do :: "ledger_op \<Rightarrow> ledger \<Rightarrow> ledger" where
  "ledger_do (Save ts r) g = (case ledger_save ts r g of Inr (r', g') \<Rightarrow> g' | Inl e \<Rightarrow> g)"
| "ledger_do Listing g = snd (ledger_all g)"
| "ledger_do Rebuild g = rebuild_index g"
| "ledger_do Forget g = invalidate g"

lemma ledger_do_coherent: "coherent g \<Longrightarrow> coherent (ledger_do d g)"
proof (cases d)
  case (Save ts r)
  then show "coherent g \<Longrightarrow> coherent (ledger_do d g)"
    using coherent_rebuild by (auto simp: ledger_save_def Let_def ensure_def)
qed (use ledger_all_coherent coherent_rebuild in \<open>auto simp: invalidate_def coherent_def\<close>)

lemma ledger_dos_coherent: "coherent g \<Longrightarrow> coherent (fold ledger_do ops g)"
  by (induction ops arbitrary: g) (simp_all add: ledger_do_coherent)

text \<open>The index lists, under each step, the ids of its attempts in the order of the listing.\<close>

lemma map_of_index_add:
  "map_of (index_add st i x) k =
    (if k = st then Some ((case map_of x st of None \<Rightarrow> [] | Some is \<Rightarrow> is) @ [i]) else map_of x k)"
  by (induction st i x rule: index_add.induct) auto

lemma foldl_index:
  "map_of (foldl (\<lambda>x r. index_add (a_step r) (a_id r) x) x rs) st =
    (if by_step rs st = [] then map_of x st
     else Some ((case map_of x st of None \<Rightarrow> [] | Some is \<Rightarrow> is) @ map a_id (by_step rs st)))"
  by (induction rs arbitrary: x) (auto simp: by_step_def map_of_index_add split: option.splits)

lemma map_of_index:
  "map_of (index_of rs) st = (if by_step rs st = [] then None else Some (map a_id (by_step rs st)))"
  by (simp add: index_of_def foldl_index)

lemma set_read_all: "set (read_all fs) = {r. a_schema r = schema \<and> (\<exists>i. fmlookup fs i = Some r)}"
  by (auto simp: read_all_def set_file_list)

lemma ledger_save_Inr:
  "ledger_save ts r g = Inr (r', g') \<longleftrightarrow> a_schema r = schema \<and> r' = r\<lparr>a_updated := Some ts\<rparr> \<and>
     g' = rebuild_index (invalidate (g\<lparr>g_files := fmupd (a_id r) r' (g_files g)\<rparr>))"
  by (auto simp: ledger_save_def rbind_Inr_iff Let_def)

text \<open>C26: reading through the remembered listing is reading the files. However saves, listings and
  explicit rebuilds followed each other, a listing returns exactly what a fresh reader of the
  directory would see, so an attempt once saved is listed; and a save changes that one file and
  leaves an index that lists, for every step, the ids of exactly its attempts in order.\<close>

theorem ledger_coherent:
  assumes "coherent g" and "h = fold ledger_do ops g"
  shows "fst (ledger_all h) = read_all (g_files h) \<and>
    (ledger_save ts r h = Inr (r', k) \<longrightarrow>
       g_files k = fmupd (a_id r) r' (g_files h) \<and>
       r' \<in> set (fst (ledger_all k)) \<and> r' = r\<lparr>a_updated := Some ts\<rparr> \<and>
       (\<exists>x. g_index k = Some x \<and> (\<forall>st. map_of x st =
          (if by_step (fst (ledger_all k)) st = [] then None
           else Some (map a_id (by_step (fst (ledger_all k)) st))))))"
proof -
  have "coherent h" using assms ledger_dos_coherent by blast
  moreover have "coherent k \<and> g_files k = fmupd (a_id r) r' (g_files h) \<and>
      g_index k = Some (index_of (read_all (g_files k))) \<and> r' = r\<lparr>a_updated := Some ts\<rparr> \<and> a_schema r = schema"
    if "ledger_save ts r h = Inr (r', k)"
    using that coherent_rebuild [of "invalidate (h\<lparr>g_files := fmupd (a_id r) r' (g_files h)\<rparr>)"]
    by (simp add: ledger_save_Inr invalidate_def)
  moreover have "r' \<in> set (read_all (g_files k))"
    if "g_files k = fmupd (a_id r) r' (g_files h)" "r' = r\<lparr>a_updated := Some ts\<rparr>" "a_schema r = schema"
    unfolding set_read_all using that by (simp add: exI [of _ "a_id r"])
  ultimately show ?thesis
    using ledger_all_coherent [of h] ledger_all_coherent [of k] by (auto simp: map_of_index)
qed

subsection \<open>The latest attempt of a step\<close>

text \<open>Every record is in the file of its id.\<close>

definition keyed :: "(string, attempt) fmap \<Rightarrow> bool" where
  "keyed fs \<longleftrightarrow> (\<forall>i r. fmlookup fs i = Some r \<longrightarrow> a_id r = i)"

definition age :: "attempt \<Rightarrow> string \<times> string" where
  "age r = (a_created r, a_id r)"

lemma keyed_upd: "keyed fs \<Longrightarrow> keyed (fmupd (a_id r) r fs)"
  by (auto simp: keyed_def)

lemma in_read_all: "keyed fs \<Longrightarrow> r \<in> set (read_all fs) \<longleftrightarrow> a_schema r = schema \<and> fmlookup fs (a_id r) = Some r"
  by (auto simp: set_read_all keyed_def)

lemma sorted_last_max:
  assumes "sorted (map f xs)" and "y \<in> set xs"
  shows "f y \<le> f (last xs)"
proof -
  obtain i where i: "i < length xs" "y = xs ! i" using assms(2) by (metis in_set_conv_nth)
  then have "map f xs ! i \<le> map f xs ! (length xs - 1)"
    by (intro sorted_nth_mono [OF assms(1)]) auto
  then show ?thesis using i by (metis (no_types, lifting) Suc_lessD Suc_pred diff_less length_0_conv
    length_greater_0_conv less_nat_zero_code last_conv_nth nth_map zero_less_one)
qed

lemma read_all_def': "read_all fs = sort_key age (filter (\<lambda>r. a_schema r = schema) (file_list fs))"
  by (simp add: read_all_def age_def [abs_def])

lemma sorted_by_step: "sorted (map age (by_step (read_all fs) st))"
  unfolding by_step_def read_all_def' by (rule sorted_filter) simp

lemma set_by_step: "r \<in> set (by_step rs st) \<longleftrightarrow> r \<in> set rs \<and> a_step r = st"
  by (auto simp: by_step_def)

text \<open>The latest attempt is the youngest of the step, the id deciding between equal times.\<close>

lemma latest_iff:
  assumes "keyed fs"
  shows "latest (read_all fs) st = Some r \<longleftrightarrow>
    r \<in> set (read_all fs) \<and> a_step r = st \<and> (\<forall>q\<in>set (read_all fs). a_step q = st \<longrightarrow> age q \<le> age r)"
proof
  assume "latest (read_all fs) st = Some r"
  then have ne: "by_step (read_all fs) st \<noteq> []" and r: "r = last (by_step (read_all fs) st)"
    by (auto simp: latest_def split: list.splits)
  then have "r \<in> set (by_step (read_all fs) st)" by simp
  moreover have "age q \<le> age r" if "q \<in> set (by_step (read_all fs) st)" for q
    unfolding r by (rule sorted_last_max [OF sorted_by_step that])
  ultimately show "r \<in> set (read_all fs) \<and> a_step r = st \<and>
      (\<forall>q\<in>set (read_all fs). a_step q = st \<longrightarrow> age q \<le> age r)" by (auto simp: set_by_step)
next
  assume R: "r \<in> set (read_all fs) \<and> a_step r = st \<and> (\<forall>q\<in>set (read_all fs). a_step q = st \<longrightarrow> age q \<le> age r)"
  then have mem: "r \<in> set (by_step (read_all fs) st)" by (simp add: set_by_step)
  let ?l = "last (by_step (read_all fs) st)"
  from mem have ne: "by_step (read_all fs) st \<noteq> []" by auto
  then have l: "?l \<in> set (by_step (read_all fs) st)" by simp
  have "age r \<le> age ?l" by (rule sorted_last_max [OF sorted_by_step mem])
  moreover have "age ?l \<le> age r" using R l by (simp add: set_by_step)
  ultimately have "age ?l = age r" by simp
  then have "a_id ?l = a_id r" by (simp add: age_def)
  then have "?l = r" using l mem in_read_all [OF assms] by (metis option.inject set_by_step)
  then show "latest (read_all fs) st = Some r"
    using ne by (auto simp: latest_def split: list.splits)
qed

lemma latest_None: "latest rs st = None \<longleftrightarrow> (\<forall>q\<in>set rs. a_step q \<noteq> st)"
proof -
  have "latest rs st = None \<longleftrightarrow> by_step rs st = []" by (simp add: latest_def split: list.split)
  then show ?thesis by (auto simp: by_step_def filter_empty_conv)
qed

lemma latest_in:
  assumes "latest rs st = Some r"
  shows "r \<in> set rs \<and> a_step r = st"
proof -
  have "by_step rs st \<noteq> []" "r = last (by_step rs st)" using assms by (auto simp: latest_def split: list.splits)
  then have "r \<in> set (by_step rs st)" by simp
  then show ?thesis by (simp add: set_by_step)
qed

text \<open>Saving a record of the same step, time and id in place of the latest one makes it the latest.\<close>

lemma latest_update:
  assumes "keyed fs" and "latest (read_all fs) st = Some r"
    and "a_schema r' = schema" "a_step r' = st" "age r' = age r"
  shows "latest (read_all (fmupd (a_id r') r' fs)) st = Some r'"
proof -
  have id: "a_id r' = a_id r" using assms(5) by (simp add: age_def)
  note k = keyed_upd [OF assms(1), of r']
  from assms(2) have old: "\<forall>q\<in>set (read_all fs). a_step q = st \<longrightarrow> age q \<le> age r"
    using latest_iff [OF assms(1)] by blast
  have "age q \<le> age r'" if q: "q \<in> set (read_all (fmupd (a_id r') r' fs))" and "a_step q = st" for q
  proof (cases "a_id q = a_id r'")
    case True
    then show ?thesis using q by (simp add: in_read_all [OF k])
  next
    case False
    then have "q \<in> set (read_all fs)" using q by (simp add: in_read_all [OF k] in_read_all [OF assms(1)])
    then show ?thesis using old that(2) assms(5) by simp
  qed
  then show ?thesis using assms(3,4) by (simp add: latest_iff [OF k] in_read_all [OF k])
qed

lemma latest_other:
  assumes "keyed fs" and "\<forall>r. fmlookup fs (a_id r') = Some r \<longrightarrow> a_step r \<noteq> st" and "a_step r' \<noteq> st"
  shows "latest (read_all (fmupd (a_id r') r' fs)) st = latest (read_all fs) st"
proof -
  note k = keyed_upd [OF assms(1), of r']
  have same: "q \<in> set (read_all (fmupd (a_id r') r' fs)) \<and> a_step q = st \<longleftrightarrow> q \<in> set (read_all fs) \<and> a_step q = st" for q
    using assms(2,3) by (auto simp: in_read_all [OF k] in_read_all [OF assms(1)] split: if_splits)
  have "latest (read_all (fmupd (a_id r') r' fs)) st = Some q \<longleftrightarrow> latest (read_all fs) st = Some q" for q
    unfolding latest_iff [OF k] latest_iff [OF assms(1)] using same by blast
  then show ?thesis by (metis option.exhaust)
qed

end
