(* ===== verification/Steps.thy ===== *)
theory Steps
  imports Ledger "HOL-Library.AList"
begin

text \<open>
  \<open>farmkit/steps.py\<close>: the step table of a project and what it says, with the ledger, about the
  work that is ready. The parsed TOML file is a parameter; tables keep the order of their
  keys, as the order of the steps is the order in which they are launched.
\<close>

subsection \<open>TOML values\<close>

datatype toml =
    TStr string
  | TInt int
  | TFloat pyfloat
  | TBool bool
  | TArr "toml list"
  | TTab "(string \<times> toml) list"

type_synonym table = "(string \<times> toml) list"

fun toml_truthy :: "toml \<Rightarrow> bool" where
  "toml_truthy (TStr s) = (s \<noteq> [])"
| "toml_truthy (TInt i) = (i \<noteq> 0)"
| "toml_truthy (TFloat f) = (f \<noteq> Finite 0)"
| "toml_truthy (TBool b) = b"
| "toml_truthy (TArr xs) = (xs \<noteq> [])"
| "toml_truthy (TTab kvs) = (kvs \<noteq> [])"

text \<open>\<open>str(v)\<close>; the text of a float or a container is Python's \<open>repr\<close>, a parameter.\<close>

fun toml_str :: "(toml \<Rightarrow> string) \<Rightarrow> toml \<Rightarrow> string" where
  "toml_str repr (TStr s) = s"
| "toml_str repr (TInt i) = int_str i"
| "toml_str repr (TBool b) = (if b then ''True'' else ''False'')"
| "toml_str repr v = repr v"

text \<open>A value used as a string, iterated over, or used as a table.\<close>

fun text_of :: "toml \<Rightarrow> string res" where
  "text_of (TStr s) = Inr s"
| "text_of v = Inl TypeError"

fun elements :: "toml \<Rightarrow> toml list res" where
  "elements (TArr xs) = Inr xs"
| "elements (TStr s) = Inr (map (\<lambda>c. TStr [c]) s)"
| "elements (TTab kvs) = Inr (map (\<lambda>(k, _). TStr k) kvs)"
| "elements v = Inl TypeError"

fun table_of :: "toml \<Rightarrow> table res" where
  "table_of (TTab kvs) = Inr kvs"
| "table_of v = Inl AttributeError"

definition texts_of :: "toml option \<Rightarrow> string list res" where
  "texts_of v = (case v of None \<Rightarrow> Inr [] | Some w \<Rightarrow> rbind (elements w) (rmap text_of))"

definition opt_text :: "toml option \<Rightarrow> string option res" where
  "opt_text v = (case v of None \<Rightarrow> Inr None | Some w \<Rightarrow> if toml_truthy w then rbind (text_of w) (\<lambda>s. Inr (Some s)) else Inr None)"

definition opt_table :: "toml option \<Rightarrow> table res" where
  "opt_table v = (case v of None \<Rightarrow> Inr [] | Some w \<Rightarrow> if toml_truthy w then table_of w else Inr [])"

text \<open>\<open>int(v)\<close>\<close>

fun int_of :: "toml \<Rightarrow> int res" where
  "int_of (TInt i) = Inr i"
| "int_of (TBool b) = Inr (if b then 1 else 0)"
| "int_of (TFloat (Finite r)) = Inr (if r < 0 then - \<lfloor>- r\<rfloor> else \<lfloor>r\<rfloor>)"
| "int_of (TStr s) = (if s \<noteq> [] \<and> list_all is_digit s then Inr (int (digits_nat s)) else Inl (ValueError ''invalid literal for int()''))"
| "int_of v = Inl TypeError"

subsection \<open>Placeholders\<close>

definition name_start :: "char \<Rightarrow> bool" where
  "name_start c \<longleftrightarrow> alnum c \<and> \<not> is_digit c \<or> c = CHR ''_''"

definition name_char :: "char \<Rightarrow> bool" where
  "name_char c \<longleftrightarrow> alnum c \<or> c = CHR ''_''"

text \<open>The match of \<open>_VAR\<close> that begins with the brace before \<open>s\<close>: the name and what follows.\<close>

definition placeholder :: "string \<Rightarrow> (string \<times> string) option" where
  "placeholder s = (let name = takeWhile name_char s; tail = dropWhile name_char s in
     if name \<noteq> [] \<and> name_start (hd name) \<and> tail \<noteq> [] \<and> hd tail = CHR ''}'' then Some (name, tl tail) else None)"

lemma placeholder_length: "placeholder s = Some (name, tail) \<Longrightarrow> length tail < length s"
proof -
  assume "placeholder s = Some (name, tail)"
  then have "tail = tl (dropWhile name_char s)" "dropWhile name_char s \<noteq> []"
    by (auto simp: placeholder_def Let_def split: if_splits)
  then have "length tail < length (dropWhile name_char s)" by (cases "dropWhile name_char s") auto
  then show ?thesis using length_dropWhile_le [of name_char s] by linarith
qed

function fmt :: "bool \<Rightarrow> (string \<Rightarrow> string option) \<Rightarrow> string \<Rightarrow> string res" where
  "fmt strict vars [] = Inr []"
| "fmt strict vars (c # s) =
     (case (if c = CHR ''{'' then placeholder s else None) of
        None \<Rightarrow> rbind (fmt strict vars s) (\<lambda>t. Inr (c # t))
      | Some (name, tail) \<Rightarrow> (case vars name of
          Some v \<Rightarrow> rbind (fmt strict vars tail) (\<lambda>t. Inr (v @ t))
        | None \<Rightarrow>
            if strict then Inl (StepsError ''unknown variable'')
            else rbind (fmt strict vars tail) (\<lambda>t. Inr (c # name @ CHR ''}'' # t))))"
  by pat_completeness auto
termination
  by (relation "measure (\<lambda>(_, _, s). length s)")
    (auto dest!: placeholder_length split: if_splits)

text \<open>\<open>o.replace("{seg}", s)\<close>\<close>

function replace_seg :: "string \<Rightarrow> string \<Rightarrow> string" where
  "replace_seg v [] = []"
| "replace_seg v (c # s) =
     (if starts_with ''{seg}'' (c # s) then v @ replace_seg v (drop 4 s) else c # replace_seg v s)"
  by pat_completeness auto
termination by (relation "measure (\<lambda>(_, s). length s)") auto

subsection \<open>Steps\<close>

record step_spec =
  p_id :: string
  p_template :: string
  p_run :: string
  p_sbatch :: bool
  p_env :: "(string \<times> string) list"
  p_inputs :: "string list"
  p_outputs :: "string list"
  p_group :: "string option"
  p_after :: "string list"
  p_verify :: "string option"
  p_gate :: "string option"
  p_segments :: int
  p_segment :: "nat option"
  p_chain :: string
  p_concurrency :: "int option"
  p_wait :: string
  p_finite :: "string list"
  p_retry :: table
  p_snapshot :: "string list"
  p_timeout :: "toml option"

definition main_output :: "step_spec \<Rightarrow> string option" where
  "main_output s = (case p_outputs s of [] \<Rightarrow> None | x # _ \<Rightarrow> Some x)"

definition pool :: "step_spec \<Rightarrow> string" where
  "pool s = p_template s"

definition chain_root :: "step_spec \<Rightarrow> string" where
  "chain_root s = before CHR ''#'' (p_id s)"

text \<open>The rows of a matrix: its list of tables, or the product of its columns, the last fastest.\<close>

definition rows :: "toml option \<Rightarrow> table list res" where
  "rows m = (case m of
     None \<Rightarrow> Inr [[]]
   | Some (TArr rs) \<Rightarrow> rmap (\<lambda>r. case r of TTab kvs \<Rightarrow> Inr kvs | _ \<Rightarrow> Inl TypeError) rs
   | Some (TTab cols) \<Rightarrow> rbind (rmap (\<lambda>(k, v). elements v) cols) (\<lambda>vss. Inr (map (zip (map fst cols)) (product_lists vss)))
   | Some v \<Rightarrow> Inl TypeError)"

definition tget :: "table \<Rightarrow> string \<Rightarrow> toml option" where
  "tget t k = map_of t k"

definition tget_or :: "table \<Rightarrow> table \<Rightarrow> string \<Rightarrow> toml option" where
  "tget_or body defaults k = (case tget body k of Some v \<Rightarrow> Some v | None \<Rightarrow> tget defaults k)"

definition base_spec :: "(toml \<Rightarrow> string) \<Rightarrow> string \<Rightarrow> table \<Rightarrow> table \<Rightarrow> table \<Rightarrow> step_spec res" where
  "base_spec repr template body row defaults =
     (let vars = (\<lambda>k. map_option (toml_str repr) (tget row k)) in
      rbind (fmt True vars template) (\<lambda>sid.
      rbind (rbind (case tget body ''run'' of None \<Rightarrow> Inr [] | Some v \<Rightarrow> text_of v) (fmt False vars)) (\<lambda>run.
      rbind (rbind (opt_table (tget body ''env'')) (rmap (\<lambda>(k, v). rbind (fmt False vars (toml_str repr v)) (\<lambda>t. Inr (k, t))))) (\<lambda>env.
      rbind (rbind (texts_of (tget body ''inputs'')) (rmap (fmt True vars))) (\<lambda>ins.
      rbind (rbind (texts_of (tget body ''outputs'')) (rmap (fmt True (vars(''seg'' \<mapsto> ''{seg}''))))) (\<lambda>outs.
      rbind (rbind (opt_text (tget body ''group'')) (\<lambda>g. case g of None \<Rightarrow> Inr None | Some t \<Rightarrow> rbind (fmt True vars t) (\<lambda>u. Inr (Some u)))) (\<lambda>grp.
      rbind (rbind (texts_of (tget body ''after'')) (rmap (fmt True vars))) (\<lambda>after.
      rbind (opt_text (tget body ''verify'')) (\<lambda>verify.
      rbind (opt_text (tget body ''gate'')) (\<lambda>gate.
      rbind (int_of (case tget body ''segments'' of None \<Rightarrow> TInt 1 | Some v \<Rightarrow> v)) (\<lambda>segs.
      rbind (case tget body ''chain'' of None \<Rightarrow> Inr ''afterok'' | Some v \<Rightarrow> text_of v) (\<lambda>chain.
      rbind (case tget body ''concurrency'' of None \<Rightarrow> Inr None | Some v \<Rightarrow> rbind (int_of v) (\<lambda>i. Inr (Some i))) (\<lambda>conc.
      rbind (case tget_or body defaults ''wait'' of None \<Rightarrow> Inr ''earliest'' | Some v \<Rightarrow> text_of v) (\<lambda>wait.
      rbind (texts_of (tget_or body defaults ''finite'')) (\<lambda>fin.
      rbind (case tget defaults ''retry'' of None \<Rightarrow> Inr [] | Some v \<Rightarrow> table_of v) (\<lambda>r1.
      rbind (case tget body ''retry'' of None \<Rightarrow> Inr [] | Some v \<Rightarrow> table_of v) (\<lambda>r2.
      rbind (texts_of (tget_or body defaults ''snapshot'')) (\<lambda>snap.
      Inr \<lparr>p_id = sid, p_template = template, p_run = run,
           p_sbatch = (ends_with ''.sbatch'' run \<or> starts_with ''sbatch '' run), p_env = env, p_inputs = ins,
           p_outputs = outs, p_group = grp, p_after = after, p_verify = verify, p_gate = gate,
           p_segments = segs, p_segment = None, p_chain = chain, p_concurrency = conc, p_wait = wait,
           p_finite = fin, p_retry = foldl (\<lambda>t (k, v). AList.update k v t) r1 r2, p_snapshot = snap,
           p_timeout = tget_or body defaults ''timeout_s''\<rparr>))))))))))))))))))"

definition segment_of :: "step_spec \<Rightarrow> nat \<Rightarrow> step_spec" where
  "segment_of b k = b\<lparr>p_id := p_id b @ CHR ''#'' # nat_str k, p_segment := Some k,
     p_outputs := map (replace_seg (nat_str k)) (p_outputs b),
     p_env := AList.update ''SEGMENT'' (nat_str k) (p_env b),
     p_after := (if k = 1 then p_after b else [''chain:'' @ p_id b @ CHR ''#'' # nat_str (k - 1)])\<rparr>"

definition segments_of :: "step_spec \<Rightarrow> step_spec list" where
  "segments_of b = (if p_segments b \<le> 1 then [b] else map (segment_of b) [1..<Suc (nat (p_segments b))])"

definition expand :: "(toml \<Rightarrow> string) \<Rightarrow> string \<Rightarrow> table \<Rightarrow> table \<Rightarrow> table \<Rightarrow> step_spec list res" where
  "expand repr template body row defaults =
     rbind (base_spec repr template body row defaults) (\<lambda>b. Inr (segments_of b))"

subsection \<open>The table\<close>

definition known_step_keys :: "string list" where
  "known_step_keys = [''matrix'', ''run'', ''env'', ''inputs'', ''outputs'', ''group'', ''after'', ''verify'', ''gate'',
     ''segments'', ''chain'', ''concurrency'', ''wait'', ''finite'', ''retry'', ''snapshot'', ''timeout_s'']"

definition known_default_keys :: "string list" where
  "known_default_keys = [''retry'', ''snapshot'', ''finite'', ''wait'', ''timeout_s'']"

text \<open>The project's verifier module, when one was loaded: the names that are callable in it.\<close>

record steps =
  t_specs :: "step_spec list"
  t_verifiers :: "string list option"
  t_problems :: "string list"

definition spec_by_id :: "step_spec list \<Rightarrow> string \<Rightarrow> step_spec option" where
  "spec_by_id specs i = find (\<lambda>s. p_id s = i) (rev specs)"

text \<open>The specs and problems of one row of a step: a \<open>StepsError\<close> becomes a problem.\<close>

definition expand_row :: "(toml \<Rightarrow> string) \<Rightarrow> table \<Rightarrow> string \<Rightarrow> table \<Rightarrow> table \<Rightarrow> (step_spec list \<times> string list) res" where
  "expand_row repr defaults template body row = (case expand repr template body row defaults of
     Inr ss \<Rightarrow> Inr (ss, [])
   | Inl (StepsError m) \<Rightarrow> Inr ([], [''step.'' @ template @ '': '' @ m])
   | Inl e \<Rightarrow> Inl e)"

definition expand_step :: "(toml \<Rightarrow> string) \<Rightarrow> table \<Rightarrow> string \<times> toml \<Rightarrow> (step_spec list \<times> string list) res" where
  "expand_step repr defaults step =
     rbind (table_of (snd step)) (\<lambda>body.
     rbind (rows (tget body ''matrix'')) (\<lambda>rs.
     rbind (rmap (expand_row repr defaults (fst step) body) rs) (\<lambda>es.
     Inr (concat (map fst es),
          map (\<lambda>k. ''step.'' @ fst step @ ''.'' @ k @ '': unknown key'')
            (filter (\<lambda>k. k \<notin> set known_step_keys) (map fst body)) @ concat (map snd es)))))"

definition repeated :: "string list \<Rightarrow> string list" where
  "repeated ids = sorted_list_of_fset (fset_of_list (filter (\<lambda>i. 1 < length (filter (\<lambda>j. j = i) ids)) ids))"

definition from_table :: "(toml \<Rightarrow> string) \<Rightarrow> table \<Rightarrow> string list option \<Rightarrow> steps res" where
  "from_table repr data verifiers =
     rbind (opt_table (tget data ''defaults'')) (\<lambda>defaults.
     rbind (opt_table (tget data ''step'')) (\<lambda>entries.
     rbind (rmap (expand_step repr defaults) entries) (\<lambda>es.
     let specs = concat (map fst es) in
     Inr \<lparr>t_specs = specs, t_verifiers = verifiers,
          t_problems =
            map (\<lambda>k. ''defaults.'' @ k @ '': unknown key'') (filter (\<lambda>k. k \<notin> set known_default_keys) (map fst defaults)) @
            concat (map snd es) @ map (\<lambda>i. ''duplicate step id '' @ i) (repeated (map p_id specs))\<rparr>)))"

definition groups :: "step_spec list \<Rightarrow> index" where
  "groups specs = foldl (\<lambda>x s. case p_group s of
     Some g \<Rightarrow> if g = [] then x else index_add g (p_id s) x | None \<Rightarrow> x) [] specs"

definition members :: "step_spec list \<Rightarrow> string \<Rightarrow> string list" where
  "members specs g = (case map_of (groups specs) g of Some is \<Rightarrow> is | None \<Rightarrow> [])"

definition verifier_for :: "steps \<Rightarrow> step_spec \<Rightarrow> string option res" where
  "verifier_for t s = (case given (p_verify s) of
     None \<Rightarrow> Inr None
   | Some v \<Rightarrow> (case t_verifiers t of
       None \<Rightarrow> Inl (StepsError ''verifier declared but no verifier module was loaded (pass --verifiers)'')
     | Some names \<Rightarrow> if v \<in> set names then Inr (Some v) else Inl (StepsError ''verifier not found in the verifier module'')))"

subsection \<open>Declared paths\<close>

text \<open>\<open>Path(s).parts\<close> without the root of an absolute path.\<close>

definition path_parts :: "string \<Rightarrow> string list" where
  "path_parts s = filter (\<lambda>c. c \<noteq> [] \<and> c \<noteq> ''.'') (split_on CHR ''/'' s)"

definition is_absolute :: "string \<Rightarrow> bool" where
  "is_absolute s \<longleftrightarrow> starts_with ''/'' s"

definition relative_ok :: "string \<Rightarrow> string option res" where
  "relative_ok rel =
     (if rel = [] \<or> rel = ''.'' \<or> is_absolute rel
      then Inr (Some ''must be a relative path inside the workspace, not the workspace itself or absolute'')
      else if ''..'' \<in> set (path_parts rel) then Inr (Some ''must not contain dot-dot'')
      else case path_parts rel of
        [] \<Rightarrow> Inl IndexError
      | c # _ \<Rightarrow> Inr (if c = ''attempts'' then Some ''must not point into attempts/ (the ledger)'' else None))"

definition overlaps :: "string \<Rightarrow> string \<Rightarrow> bool" where
  "overlaps rel name \<longleftrightarrow> rel = name \<or> take (length (path_parts name)) (path_parts rel) = path_parts name"

definition output_problem :: "string \<Rightarrow> string list res" where
  "output_problem name = rbind (relative_ok name) (\<lambda>why. Inr (case why of Some w \<Rightarrow> [''output '' @ name @ '' '' @ w] | None \<Rightarrow> []))"

definition input_problem :: "string list \<Rightarrow> string \<Rightarrow> string list res" where
  "input_problem outs rel =
     (if is_absolute rel then Inr []
      else rbind (relative_ok rel) (\<lambda>why. Inr (case why of
        Some w \<Rightarrow> [''input '' @ rel @ '' '' @ w]
      | None \<Rightarrow> map (\<lambda>name. ''input '' @ rel @ '' overlaps output '' @ name) (filter (overlaps rel) outs))))"

definition path_problems :: "step_spec \<Rightarrow> string list res" where
  "path_problems s =
     rbind (rmap output_problem (p_outputs s)) (\<lambda>os.
     rbind (rmap (input_problem (p_outputs s)) (p_inputs s)) (\<lambda>is. Inr (concat os @ concat is)))"

subsection \<open>Validation\<close>

definition dep_problem :: "step_spec list \<Rightarrow> string \<Rightarrow> string \<Rightarrow> string list" where
  "dep_problem specs sid dep =
     (let kind = before CHR '':'' dep; arg = after CHR '':'' dep in
      if kind = ''group'' \<and> arg \<notin> set (map fst (groups specs)) then [sid @ '': after refers to unknown group '' @ arg]
      else if kind = ''chain'' \<and> spec_by_id specs arg = None then [sid @ '': chain refers to unknown segment '' @ arg]
      else if kind \<noteq> ''group'' \<and> kind \<noteq> ''chain'' \<and> spec_by_id specs dep = None then [sid @ '': after refers to unknown step '' @ dep]
      else [])"

definition spec_problems :: "(string \<Rightarrow> bool) option \<Rightarrow> steps \<Rightarrow> step_spec \<Rightarrow> string list res" where
  "spec_problems there t s =
     rbind (path_problems s) (\<lambda>ps.
     Inr (concat (map (dep_problem (t_specs t) (p_id s)) (p_after s)) @
       (case given (p_gate s) of
          Some g \<Rightarrow> if spec_by_id (t_specs t) g = None then [p_id s @ '': gate refers to unknown step '' @ g] else []
        | None \<Rightarrow> []) @
       (case verifier_for t s of Inl e \<Rightarrow> [exn_text e] | Inr v \<Rightarrow> []) @
       (if p_wait s = ''earliest'' \<or> p_wait s = ''barrier'' then [] else [p_id s @ '': wait must be earliest or barrier'']) @
       (case there of
          Some f \<Rightarrow> if p_sbatch s \<and> \<not> f (p_run s) then [p_id s @ '': run script '' @ p_run s @ '' not found in workspace''] else []
        | None \<Rightarrow> []) @
       (if p_sbatch s \<and> p_outputs s = [] then [p_id s @ '': sbatch step declares no outputs; nothing could be verified''] else []) @
       map (\<lambda>p. p_id s @ '': '' @ p) ps))"

definition check :: "(string \<Rightarrow> bool) option \<Rightarrow> steps \<Rightarrow> string list res" where
  "check there t = rbind (rmap (spec_problems there t) (t_specs t)) (\<lambda>ps. Inr (t_problems t @ concat ps))"

subsection \<open>What is ready\<close>

definition released :: "attempt \<Rightarrow> bool" where
  "released r = (case a_failure r of Some f \<Rightarrow> fl_released f \<noteq> None | None \<Rightarrow> False)"

definition retried :: "attempt \<Rightarrow> bool" where
  "retried r = (case a_failure r of Some f \<Rightarrow> fl_retried f | None \<Rightarrow> False)"

definition unresolved :: "attempt list \<Rightarrow> string \<Rightarrow> bool" where
  "unresolved rs i = (case latest rs i of
     None \<Rightarrow> False
   | Some r \<Rightarrow> \<not> verdict_ok r \<and> \<not> (is_parked r \<or> released r) \<and> \<not> (retried r \<and> \<not> is_parked r))"

definition dependency_met :: "step_spec list \<Rightarrow> attempt list \<Rightarrow> string \<Rightarrow> bool" where
  "dependency_met specs rs dep =
     (let kind = before CHR '':'' dep; arg = after CHR '':'' dep in
      if kind = ''group'' then list_all (step_ok rs) (members specs arg) \<and> members specs arg \<noteq> []
      else if kind = ''chain'' then (case latest rs arg of Some r \<Rightarrow> job_of r \<noteq> None \<and> \<not> is_parked r | None \<Rightarrow> False)
      else step_ok rs dep)"

definition active_in_pool :: "step_spec list \<Rightarrow> attempt list \<Rightarrow> step_spec \<Rightarrow> nat" where
  "active_in_pool specs rs s =
     length (remdups (map chain_root (filter (\<lambda>u. pool u = pool s \<and> p_segment u \<noteq> None \<and> unresolved rs (p_id u)) specs)))"

definition pool_full :: "step_spec list \<Rightarrow> attempt list \<Rightarrow> step_spec \<Rightarrow> bool" where
  "pool_full specs rs s = (case p_concurrency s of
     Some n \<Rightarrow> n \<noteq> 0 \<and> p_segment s = Some 1 \<and> n \<le> int (active_in_pool specs rs s)
   | None \<Rightarrow> False)"

definition latest_parked :: "attempt list \<Rightarrow> string \<Rightarrow> bool" where
  "latest_parked rs i = (case latest rs i of Some r \<Rightarrow> is_parked r | None \<Rightarrow> False)"

definition is_ready :: "step_spec list \<Rightarrow> attempt list \<Rightarrow> step_spec \<Rightarrow> bool" where
  "is_ready specs rs s \<longleftrightarrow> \<not> (step_ok rs (p_id s) \<or> unresolved rs (p_id s)) \<and> \<not> latest_parked rs (p_id s) \<and>
     list_all (dependency_met specs rs) (p_after s) \<and> \<not> pool_full specs rs s"

definition ready :: "step_spec list \<Rightarrow> attempt list \<Rightarrow> step_spec list" where
  "ready specs rs = filter (is_ready specs rs) specs"

definition all_steps_ok :: "step_spec list \<Rightarrow> attempt list \<Rightarrow> bool" where
  "all_steps_ok specs rs = list_all (\<lambda>s. step_ok rs (p_id s)) specs"

definition previous_job :: "attempt list \<Rightarrow> step_spec \<Rightarrow> string option res" where
  "previous_job rs s = (case filter (starts_with ''chain:'') (p_after s) of
     [] \<Rightarrow> Inr None
   | dep # _ \<Rightarrow> (case latest rs (after CHR '':'' dep) of
       None \<Rightarrow> Inr None
     | Some r \<Rightarrow> (case a_submit r of None \<Rightarrow> Inl AttributeError | Some sub \<Rightarrow> Inr (s_job sub))))"

subsection \<open>Chains\<close>

lemma segment_of_simps [simp]:
  "p_id (segment_of b k) = p_id b @ CHR ''#'' # nat_str k"
  "p_segment (segment_of b k) = Some k"
  "p_after (segment_of b k) = (if k = 1 then p_after b else [''chain:'' @ p_id b @ CHR ''#'' # nat_str (k - 1)])"
  "p_template (segment_of b k) = p_template b"
  by (simp_all add: segment_of_def)

text \<open>What a chain dependency refers to.\<close>

lemma chain_dep [simp]:
  "before CHR '':'' (''chain:'' @ i) = ''chain''" "after CHR '':'' (''chain:'' @ i) = i"
  by (simp_all add: before_def after_def)

lemma dependency_met_chain: "dependency_met specs rs (''chain:'' @ i) \<longleftrightarrow>
    (\<exists>r. latest rs i = Some r \<and> job_of r \<noteq> None \<and> \<not> is_parked r)"
  unfolding dependency_met_def Let_def chain_dep by (simp split: option.split)

text \<open>How a chain is expanded. A step of n segments becomes n specs with pairwise different ids in
  the order of the segments; the first waits for what the step waits for, and every later one
  for exactly its predecessor: it is ready only when the predecessor's latest attempt has a job
  id and is not parked.\<close>

lemma chain_expansion:
  assumes "1 < p_segments b"
  shows "length (segments_of b) = nat (p_segments b) \<and> distinct (map p_id (segments_of b)) \<and>
    p_after (segments_of b ! 0) = p_after b \<and>
    (\<forall>k. Suc k < nat (p_segments b) \<longrightarrow>
       (\<forall>specs rs. is_ready specs rs (segments_of b ! Suc k) \<longrightarrow>
          (\<exists>r. latest rs (p_id (segments_of b ! k)) = Some r \<and> job_of r \<noteq> None \<and> \<not> is_parked r)))"
proof -
  have s: "segments_of b = map (segment_of b) [1..<Suc (nat (p_segments b))]"
    using assms by (simp add: segments_of_def)
  have nth: "segments_of b ! k = segment_of b (Suc k)" if "k < nat (p_segments b)" for k
    using that unfolding s by (subst nth_map) (simp_all del: upt_Suc add: nth_upt)
  have "inj_on (\<lambda>k. p_id b @ CHR ''#'' # nat_str k) A" for A
    by (rule inj_onI) (simp add: nat_str_inject)
  then have "distinct (map p_id (segments_of b))"
    by (simp add: s comp_def distinct_map del: upt_Suc)
  moreover have "p_after (segments_of b ! 0) = p_after b"
    using nth [of 0] assms by simp
  moreover have "\<exists>r. latest rs (p_id (segments_of b ! k)) = Some r \<and> job_of r \<noteq> None \<and> \<not> is_parked r"
    if "Suc k < nat (p_segments b)" "is_ready specs rs (segments_of b ! Suc k)" for k specs rs
  proof -
    have "dependency_met specs rs (''chain:'' @ p_id (segments_of b ! k))"
      using that nth [of k] nth [of "Suc k"] by (simp add: is_ready_def)
    then show ?thesis unfolding dependency_met_chain .
  qed
  ultimately show ?thesis by (simp add: s)
qed

text \<open>A chain of local segments: a local run records no job id, so its successor is never ready.\<close>

lemma local_chain_never_ready:
  assumes "p_after s = [''chain:'' @ i]" and "latest rs i = Some r" and "a_submit r = Some sub" and "s_job sub = None"
  shows "\<not> is_ready specs rs s"
proof -
  have "\<not> dependency_met specs rs (''chain:'' @ i)"
    unfolding dependency_met_chain using assms by (simp add: job_of_def)
  then show ?thesis unfolding is_ready_def assms(1) list.pred_inject by blast
qed

subsection \<open>Declared paths\<close>

text \<open>A path strictly inside the workspace and outside the ledger.\<close>

definition inside :: "string \<Rightarrow> bool" where
  "inside p \<longleftrightarrow> \<not> is_absolute p \<and> ''..'' \<notin> set (path_parts p) \<and> path_parts p \<noteq> [] \<and> hd (path_parts p) \<noteq> ''attempts''"

lemma path_parts_trivial [simp]: "path_parts [] = []" "path_parts ''.'' = []"
  by (simp_all add: path_parts_def split_on_def)

lemma relative_ok_None: "relative_ok p = Inr None \<longleftrightarrow> inside p"
proof (cases "p = [] \<or> p = ''.'' \<or> is_absolute p")
  case True
  then show ?thesis by (auto simp: relative_ok_def inside_def)
next
  case False
  then show ?thesis by (cases "path_parts p") (simp_all add: relative_ok_def inside_def)
qed

lemma relative_ok_raises: "relative_ok p = Inl e \<longleftrightarrow>
    e = IndexError \<and> path_parts p = [] \<and> p \<noteq> [] \<and> p \<noteq> ''.'' \<and> \<not> is_absolute p"
  by (cases "p = [] \<or> p = ''.'' \<or> is_absolute p"; cases "path_parts p") (auto simp: relative_ok_def)

lemma rmap_Inl: "rmap f xs = Inl e \<Longrightarrow> \<exists>x\<in>set xs. f x = Inl e"
proof (induction xs)
  case (Cons x xs)
  then show ?case by (cases "f x"; cases "rmap f xs") auto
qed simp

lemma output_problem_Nil: "output_problem p = Inr [] \<longleftrightarrow> inside p"
  by (cases "relative_ok p") (auto simp: output_problem_def relative_ok_None [symmetric] split: option.splits)

lemma path_problem_Inl:
  "output_problem p = Inl e \<Longrightarrow> relative_ok p = Inl e" "input_problem outs p = Inl e \<Longrightarrow> relative_ok p = Inl e"
  by (cases "relative_ok p"; simp add: output_problem_def)
    (cases "relative_ok p"; simp add: input_problem_def split: if_splits)

lemma input_problem_Nil:
  "input_problem outs p = Inr [] \<longleftrightarrow> is_absolute p \<or> inside p \<and> (\<forall>q\<in>set outs. \<not> overlaps p q)"
  by (cases "relative_ok p")
    (auto simp: input_problem_def relative_ok_None [symmetric] filter_empty_conv inside_def split: option.splits)

lemma rmap_concat_Nil: "rmap f xs = Inr ys \<Longrightarrow> concat ys = [] \<longleftrightarrow> (\<forall>x\<in>set xs. f x = Inr [])"
proof -
  assume r: "rmap f xs = Inr ys"
  have "concat ys = [] \<longleftrightarrow> (\<forall>y\<in>set ys. y = [])" by simp
  then show ?thesis using rmap_Inr_all [OF r] rmap_Inr_back [OF r] by (metis sum.inject(2))
qed

text \<open>C25: the path rules and their one hole. A spec has no path problem exactly when every output lies
  strictly inside the workspace and outside the ledger and every relative input does so and
  neither is, nor lies in, an output. The check itself fails in one way only: a declared path of
  empty components, such as dot-slash, makes it raise IndexError instead of reporting a problem.\<close>

theorem path_rules:
  "(path_problems s = Inr [] \<longleftrightarrow>
      (\<forall>p\<in>set (p_outputs s). inside p) \<and>
      (\<forall>p\<in>set (p_inputs s). is_absolute p \<or> inside p \<and> (\<forall>q\<in>set (p_outputs s). \<not> overlaps p q))) \<and>
   (\<forall>e. path_problems s = Inl e \<longrightarrow> e = IndexError \<and>
      (\<exists>p\<in>set (p_outputs s) \<union> set (p_inputs s). path_parts p = [] \<and> p \<noteq> [] \<and> p \<noteq> ''.'' \<and> \<not> is_absolute p)) \<and>
   (''./'' \<in> set (p_outputs s) \<longrightarrow> path_problems s = Inl IndexError)"
proof (intro conjI allI impI)
  show "path_problems s = Inr [] \<longleftrightarrow>
      (\<forall>p\<in>set (p_outputs s). inside p) \<and>
      (\<forall>p\<in>set (p_inputs s). is_absolute p \<or> inside p \<and> (\<forall>q\<in>set (p_outputs s). \<not> overlaps p q))"
    (is "_ \<longleftrightarrow> ?R")
  proof
    assume "path_problems s = Inr []"
    then obtain os "is" where "rmap output_problem (p_outputs s) = Inr os"
      "rmap (input_problem (p_outputs s)) (p_inputs s) = Inr is" "concat os = []" "concat is = []"
      by (auto simp: path_problems_def rbind_Inr_iff)
    then show ?R using rmap_concat_Nil by (metis input_problem_Nil output_problem_Nil)
  next
    assume R: ?R
    have "rmap output_problem (p_outputs s) = Inr (map (\<lambda>_. []) (p_outputs s))"
      by (rule rmap_all_Inr) (use R in \<open>simp add: output_problem_Nil\<close>)
    moreover have "rmap (input_problem (p_outputs s)) (p_inputs s) = Inr (map (\<lambda>_. []) (p_inputs s))"
      by (rule rmap_all_Inr) (use R in \<open>simp add: input_problem_Nil\<close>)
    ultimately show "path_problems s = Inr []" by (simp add: path_problems_def)
  qed
next
  fix e assume "path_problems s = Inl e"
  then have "(\<exists>p\<in>set (p_outputs s). output_problem p = Inl e) \<or>
      (\<exists>p\<in>set (p_inputs s). input_problem (p_outputs s) p = Inl e)"
    by (cases "rmap output_problem (p_outputs s)"; cases "rmap (input_problem (p_outputs s)) (p_inputs s)")
      (auto simp: path_problems_def dest!: rmap_Inl)
  then obtain p where p: "p \<in> set (p_outputs s) \<union> set (p_inputs s)" "relative_ok p = Inl e"
    using path_problem_Inl by blast
  then show "e = IndexError"
    "\<exists>p\<in>set (p_outputs s) \<union> set (p_inputs s). path_parts p = [] \<and> p \<noteq> [] \<and> p \<noteq> ''.'' \<and> \<not> is_absolute p"
    unfolding relative_ok_raises by blast+
next
  assume m: "''./'' \<in> set (p_outputs s)"
  have bad: "output_problem ''./'' = Inl IndexError"
    by (simp add: output_problem_def relative_ok_def is_absolute_def starts_with_def path_parts_def split_on_def)
  have "\<exists>e. rmap output_problem (p_outputs s) = Inl e"
  proof (cases "rmap output_problem (p_outputs s)")
    case (Inr ys)
    then show ?thesis using rmap_Inr_all [OF Inr m] bad by simp
  qed simp
  then obtain e where e: "rmap output_problem (p_outputs s) = Inl e" by blast
  then obtain p where "output_problem p = Inl e" using rmap_Inl by blast
  then have "relative_ok p = Inl e" by (rule path_problem_Inl)
  then show "path_problems s = Inl IndexError" using e by (simp add: path_problems_def relative_ok_raises)
qed

subsection \<open>Progress\<close>

text \<open>The step ids a dependency needs.\<close>

definition needs :: "step_spec list \<Rightarrow> string \<Rightarrow> string set" where
  "needs specs dep =
     (let kind = before CHR '':'' dep; arg = after CHR '':'' dep in
      if kind = ''group'' then set (members specs arg) else if kind = ''chain'' then {arg} else {dep})"

text \<open>Nothing of the table is under way or parked.\<close>

definition table_settled :: "step_spec list \<Rightarrow> attempt list \<Rightarrow> bool" where
  "table_settled specs rs \<longleftrightarrow> (\<forall>s\<in>set specs. \<not> unresolved rs (p_id s) \<and> \<not> latest_parked rs (p_id s))"

text \<open>Dependencies point backwards: there is no cycle among them.\<close>

definition acyclic_by :: "(string \<Rightarrow> nat) \<Rightarrow> step_spec list \<Rightarrow> bool" where
  "acyclic_by rank specs \<longleftrightarrow> (\<forall>s\<in>set specs. \<forall>dep\<in>set (p_after s). \<forall>i\<in>needs specs dep. rank i < rank (p_id s))"

text \<open>The two ways in which a step can be barred for good although nothing of the table is under way: its
  predecessor in a chain is verified but ran without a Slurm job, or its pool has a negative limit.\<close>

definition barred :: "attempt list \<Rightarrow> step_spec \<Rightarrow> bool" where
  "barred rs s \<longleftrightarrow>
     (\<exists>dep\<in>set (p_after s). before CHR '':'' dep = ''chain'' \<and>
        (\<exists>r. latest rs (after CHR '':'' dep) = Some r \<and> verdict_ok r \<and> job_of r = None)) \<or>
     (p_segment s = Some 1 \<and> (\<exists>n. p_concurrency s = Some n \<and> n < 0))"

lemma groups_index:
  "map_of (foldl (\<lambda>x s. case p_group s of Some g \<Rightarrow> if g = [] then x else index_add g (p_id s) x | None \<Rightarrow> x) x specs) g =
    (let is = map p_id (filter (\<lambda>s. p_group s = Some g \<and> g \<noteq> []) specs) in
     if is = [] then map_of x g else Some ((case map_of x g of None \<Rightarrow> [] | Some js \<Rightarrow> js) @ is))"
  by (induction specs arbitrary: x)
    (auto simp: map_of_index_add Let_def split: option.splits if_splits)

lemma members_eq: "members specs g = map p_id (filter (\<lambda>s. p_group s = Some g \<and> g \<noteq> []) specs)"
  by (simp add: members_def groups_def groups_index Let_def)

lemma known_group: "g \<in> set (map fst (groups specs)) \<Longrightarrow> members specs g \<noteq> []"
proof -
  assume "g \<in> set (map fst (groups specs))"
  then have "map_of (groups specs) g \<noteq> None" by (simp add: map_of_eq_None_iff)
  then show ?thesis by (auto simp: members_eq groups_def groups_index Let_def split: if_splits)
qed

lemma spec_by_id_Some: "spec_by_id specs i \<noteq> None \<longleftrightarrow> i \<in> p_id ` set specs"
  by (auto simp: spec_by_id_def find_None_iff)

lemma check_deps:
  assumes "check there t = Inr []" and "s \<in> set (t_specs t)" and "dep \<in> set (p_after s)"
  shows "dep_problem (t_specs t) (p_id s) dep = []"
proof -
  from assms(1) obtain ps where ps: "rmap (spec_problems there t) (t_specs t) = Inr ps" "concat ps = []"
    by (auto simp: check_def rbind_Inr_iff)
  then have "spec_problems there t s = Inr []" using assms(2) rmap_concat_Nil by blast
  then have "concat (map (dep_problem (t_specs t) (p_id s)) (p_after s)) = []"
    by (auto simp: spec_problems_def rbind_Inr_iff)
  then show ?thesis using assms(3) by simp
qed

lemma needs_known:
  assumes "dep_problem specs j dep = []" and "i \<in> needs specs dep"
  shows "i \<in> p_id ` set specs"
proof -
  define kind arg where k: "kind = before CHR '':'' dep" "arg = after CHR '':'' dep"
  consider (grp) "kind = ''group''" | (chain) "kind = ''chain''" | (step) "kind \<noteq> ''group''" "kind \<noteq> ''chain''" by blast
  then show ?thesis
  proof cases
    case grp
    then show ?thesis using assms(2) by (auto simp: needs_def Let_def k [symmetric] members_eq)
  next
    case chain
    then have "spec_by_id specs arg \<noteq> None" "i = arg"
      using assms unfolding dep_problem_def needs_def Let_def k [symmetric] by (simp_all split: if_splits)
    then show ?thesis by (simp only: spec_by_id_Some)
  next
    case step
    then have "spec_by_id specs dep \<noteq> None" "i = dep"
      using assms unfolding dep_problem_def needs_def Let_def k [symmetric] by (simp_all split: if_splits)
    then show ?thesis by (simp only: spec_by_id_Some)
  qed
qed

lemma active_settled: "table_settled specs rs \<Longrightarrow> active_in_pool specs rs s = 0"
  by (auto simp: active_in_pool_def table_settled_def filter_empty_conv)

text \<open>C24: when a checked table can get stuck. Let a table pass its check, let its dependencies be without
  cycle (which the check does not ask for), and let nothing be under way or parked. Then every
  step is verified, or some step is ready to be launched, or there is a step that is barred
  exactly as follows: all steps it depends on are verified, and a chain predecessor among them
  ran without a Slurm job, or its pool limit is negative. In particular a table without chained
  local steps and without negative limits never gets stuck.\<close>

theorem table_progress:
  assumes "check there t = Inr []" and "acyclic_by rank (t_specs t)" and "table_settled (t_specs t) rs"
  shows "all_steps_ok (t_specs t) rs \<or> ready (t_specs t) rs \<noteq> [] \<or>
    (\<exists>s\<in>set (t_specs t). \<not> step_ok rs (p_id s) \<and> barred rs s \<and>
       (\<forall>dep\<in>set (p_after s). \<forall>i\<in>needs (t_specs t) dep. step_ok rs i))"
proof -
  let ?S = "t_specs t"
  let ?bad = "\<lambda>s. s \<in> set ?S \<and> \<not> step_ok rs (p_id s)"
  have "all_steps_ok ?S rs" if "\<not> ready ?S rs \<noteq> []"
    "\<not> (\<exists>s\<in>set ?S. \<not> step_ok rs (p_id s) \<and> barred rs s \<and> (\<forall>dep\<in>set (p_after s). \<forall>i\<in>needs ?S dep. step_ok rs i))"
  proof -
    note none = that(1) note free = that(2)
  have False if ex: "\<exists>s. ?bad s"
  proof -
    from ex obtain s where s: "?bad s" and least: "\<And>u. ?bad u \<Longrightarrow> rank (p_id s) \<le> rank (p_id u)"
      using ex_has_least_nat [of ?bad _ "\<lambda>s. rank (p_id s)"] by blast
    have ok: "step_ok rs i" if "i \<in> p_id ` set ?S" "rank i < rank (p_id s)" for i
      using that least by force
    have known: "i \<in> p_id ` set ?S" if "dep \<in> set (p_after s)" "i \<in> needs ?S dep" for dep i
      using needs_known [OF check_deps [OF assms(1) conjunct1 [OF s] that(1)] that(2)] .
    have met: "\<forall>dep\<in>set (p_after s). \<forall>i\<in>needs ?S dep. step_ok rs i"
      using ok known s assms(2) unfolding acyclic_by_def by blast
    then have unbarred: "\<not> barred rs s" using free s by blast
    have "dependency_met ?S rs dep" if d: "dep \<in> set (p_after s)" for dep
    proof -
      have np: "dep_problem ?S (p_id s) dep = []" using assms(1) s d by (blast intro: check_deps)
      have g: "\<forall>i\<in>needs ?S dep. rank i < rank (p_id s)"
        using assms(2) s d unfolding acyclic_by_def by blast
      have c: "before CHR '':'' dep = ''chain'' \<Longrightarrow>
          (\<forall>r. latest rs (after CHR '':'' dep) = Some r \<longrightarrow> verdict_ok r \<longrightarrow> job_of r \<noteq> None)"
        using unbarred d unfolding barred_def by auto
      define kind arg where k: "kind = before CHR '':'' dep" "arg = after CHR '':'' dep"
      consider (grp) "kind = ''group''" | (chain) "kind = ''chain''" | (step) "kind \<noteq> ''group''" "kind \<noteq> ''chain''" by blast
      then show ?thesis
      proof cases
        case grp
        have m: "members ?S arg \<noteq> []"
          using np grp unfolding dep_problem_def Let_def k [symmetric] by (intro known_group) (simp split: if_splits)
        have "step_ok rs i" if "i \<in> set (members ?S arg)" for i
          using that g grp ok by (auto simp: needs_def Let_def k [symmetric] members_eq)
        then show ?thesis using m grp unfolding dependency_met_def Let_def k [symmetric] by (simp add: list_all_iff)
      next
        case chain
        then have ne: "kind \<noteq> ''group''" by simp
        have "spec_by_id ?S arg \<noteq> None"
          using np chain ne unfolding dep_problem_def Let_def k [symmetric] by (simp split: if_splits)
        then have i: "arg \<in> p_id ` set ?S" by (simp only: spec_by_id_Some)
        have "rank arg < rank (p_id s)" using g chain ne by (simp add: needs_def Let_def k [symmetric])
        then obtain r where r: "latest rs arg = Some r" "verdict_ok r"
          using ok [OF i] by (auto simp: step_ok_def split: option.splits)
        then have "job_of r \<noteq> None" using c chain by (simp add: k)
        moreover have "\<not> is_parked r" using assms(3) i r(1) by (auto simp: table_settled_def latest_parked_def)
        ultimately show ?thesis using chain ne r(1) unfolding dependency_met_def Let_def k [symmetric] by simp
      next
        case step
        have "spec_by_id ?S dep \<noteq> None"
          using np step unfolding dep_problem_def Let_def k [symmetric] by (simp split: if_splits)
        then have i: "dep \<in> p_id ` set ?S" by (simp only: spec_by_id_Some)
        moreover have "rank dep < rank (p_id s)" using g step by (simp add: needs_def Let_def k [symmetric])
        ultimately show ?thesis using ok step unfolding dependency_met_def Let_def k [symmetric] by simp
      qed
    qed
    moreover have "\<not> pool_full ?S rs s"
    proof -
      have "0 \<le> n" if "p_segment s = Some 1" "p_concurrency s = Some n" for n
        using unbarred that unfolding barred_def by force
      then show ?thesis using active_settled [OF assms(3)] by (force simp: pool_full_def split: option.splits)
    qed
    ultimately have "is_ready ?S rs s"
      using s assms(3) by (simp add: is_ready_def table_settled_def list_all_iff)
    then show False using none s by (simp add: ready_def filter_empty_conv)
  qed
  then show ?thesis by (auto simp: all_steps_ok_def list_all_iff)
  qed
  then show ?thesis by blast
qed

subsection \<open>Release\<close>

text \<open>What a ruling changes about a step: before it the step cannot be launched whatever else is done,
  after it the step is held back only by its dependencies and its pool; and the new attempt
  that is then recorded holds it again.\<close>

lemma fresh_holds:
  assumes "latest rs i = Some r" and "a_verdict r = None" and "a_failure r = None"
  shows "unresolved rs i"
  using assms by (simp add: unresolved_def verdict_ok_def is_parked_def released_def retried_def)

lemma release_Inr:
  assumes "release ts rs i ruling = Inr r'"
  obtains r f where "latest rs i = Some r" "a_failure r = Some f" "fl_parked f" "strip ruling \<noteq> []"
    "r' = r\<lparr>a_failure := Some (f\<lparr>fl_parked := False, fl_released := Some (ts, strip ruling)\<rparr>)\<rparr>"
  using assms by (auto simp: release_def split: option.splits if_splits)

text \<open>A parked step moves only by a ruling, and then may run exactly once more. Release needs a
  latest attempt that is parked and a ruling that says something; until then the step is not
  ready, whatever its dependencies. Once the released record is saved the step is ready exactly
  when its dependencies and its pool allow it, its failure keeps its class for the budget; and
  when the next, younger attempt of the step is saved it is held again.\<close>

theorem release_admits_one_more:
  assumes "keyed fs" and "release ts (read_all fs) (p_id s) ruling = Inr r'"
    and "\<not> verdict_ok r'" and "fs' = fmupd (a_id r') r' fs"
    and "n = ledger_new (read_all fs') (p_id s) task lease site aid created"
    and "age r' < (created, aid)"
  shows "\<not> is_ready specs (read_all fs) s \<and> strip ruling \<noteq> [] \<and>
    (is_ready specs (read_all fs') s \<longleftrightarrow>
       list_all (dependency_met specs (read_all fs')) (p_after s) \<and> \<not> pool_full specs (read_all fs') s) \<and>
    (\<exists>r f f'. latest (read_all fs) (p_id s) = Some r \<and> a_failure r = Some f \<and> a_failure r' = Some f' \<and>
       fl_class f' = fl_class f) \<and>
    \<not> is_ready specs (read_all (fmupd (a_id n) n fs')) s"
proof -
  from assms(2) obtain r f where r: "latest (read_all fs) (p_id s) = Some r" "a_failure r = Some f" "fl_parked f"
    "strip ruling \<noteq> []"
    and r': "r' = r\<lparr>a_failure := Some (f\<lparr>fl_parked := False, fl_released := Some (ts, strip ruling)\<rparr>)\<rparr>"
    by (rule release_Inr)
  have mem: "a_schema r = schema" "a_step r = p_id s"
    using latest_in [OF r(1)] in_read_all [OF assms(1)] by auto
  have keep: "a_schema r' = schema" "a_step r' = p_id s" "age r' = age r" "a_verdict r' = a_verdict r"
    using mem by (simp_all add: r' age_def)
  have now: "latest (read_all fs') (p_id s) = Some r'"
    unfolding assms(4) by (rule latest_update [OF assms(1) r(1) keep(1-3)])
  have n: "a_schema n = schema" "a_step n = p_id s" "a_verdict n = None" "a_failure n = None"
    and an: "age n = (created, aid)"
    by (simp_all add: assms(5) ledger_new_def new_record_def age_def)
  have k: "keyed fs'" unfolding assms(4) by (rule keyed_upd [OF assms(1)])
  have "latest (read_all (fmupd (a_id n) n fs')) (p_id s) = Some n"
  proof -
    have "age q \<le> age n" if q: "q \<in> set (read_all (fmupd (a_id n) n fs'))" "a_step q = p_id s" for q
    proof (cases "a_id q = a_id n")
      case True
      then show ?thesis using q by (simp add: in_read_all [OF keyed_upd [OF k]])
    next
      case False
      then have "q \<in> set (read_all fs')" using q by (simp add: in_read_all [OF keyed_upd [OF k]] in_read_all [OF k])
      then have "age q \<le> age r'" using now latest_iff [OF k] q(2) by blast
      then show ?thesis using assms(6) by (simp add: an)
    qed
    then show ?thesis using n by (simp add: latest_iff [OF keyed_upd [OF k]] in_read_all [OF keyed_upd [OF k]])
  qed
  then have "unresolved (read_all (fmupd (a_id n) n fs')) (p_id s)" using n by (intro fresh_holds)
  moreover have "\<not> step_ok (read_all fs') (p_id s)" "\<not> unresolved (read_all fs') (p_id s)"
    "\<not> latest_parked (read_all fs') (p_id s)"
    using assms(3) by (simp_all add: step_ok_def now unresolved_def latest_parked_def is_parked_def released_def r')
  moreover have "latest_parked (read_all fs) (p_id s)" by (simp add: latest_parked_def r is_parked_def)
  ultimately show ?thesis using r r' by (auto simp: is_ready_def)
qed

end
