(* ===== verification/Master.thy ===== *)
theory Master
  imports Observers
begin

text \<open>
  \<open>master.py\<close>: the decisions of the master. A decision records a snapshot of its evidence file and
  makes at most one change of state: accept, amend, rule, rework or release after a recovery.
\<close>

subsection \<open>Evidence snapshots\<close>

definition ascii_space :: "char \<Rightarrow> bool" where
  "ascii_space c \<longleftrightarrow> (let n = of_char c :: nat in n = 32 \<or> (9 \<le> n \<and> n \<le> 13))"

text \<open>\<open>snapshot_file\<close>; \<open>raw.strip()\<close> of bytes is nonempty when some byte is not white space.\<close>

definition snapshot_file :: "env \<Rightarrow> string \<Rightarrow> dict res" where
  "snapshot_file E path =
     rbind (ensure (env_exists E path) (OSError ''no such file'')) (\<lambda>_.
     let source = env_resolve E path in
     rbind (env_read E source) (\<lambda>raw.
     rbind (ensure ((\<exists>c\<in>set raw. \<not> ascii_space c) \<and> length raw \<le> 65536)
              (StoreError ''expected nonempty UTF-8 evidence/context of at most 64 KiB'')) (\<lambda>_.
     case env_decode E raw of
       None \<Rightarrow> Inl (ValueError ''invalid utf-8'')
     | Some text \<Rightarrow> Inr (obj [(''path'', JStr source), (''sha256'', JStr (env_sha256 E raw)),
                              (''text'', JStr text)]))))"

lemma snapshot_file_Inr:
  assumes "snapshot_file E path = Inr d"
  obtains raw body where "env_read E (env_resolve E path) = Inr raw" "length raw \<le> 65536"
    "env_decode E raw = Some body"
    "d = obj [(''path'', JStr (env_resolve E path)), (''sha256'', JStr (env_sha256 E raw)), (''text'', JStr body)]"
  using assms by (auto simp: snapshot_file_def Let_def rbind_Inr_iff split: option.splits)

lemma snapshot_file_text: "snapshot_file E path = Inr d \<Longrightarrow> as_str (dget d ''text'') = Inr x \<longleftrightarrow> dget d ''text'' = JStr x"
  by (cases "dget d ''text''") auto

subsection \<open>The changes a decision makes\<close>

text \<open>
  One definition per branch of \<open>record_decision\<close>. \<open>rec\<close> is the decision record, \<open>decided\<close> the
  recorded list with it appended; the code updates the record after it has put it into that
  list, so the list holds the updated record.
\<close>

definition decided :: "task \<Rightarrow> dict \<Rightarrow> json res" where
  "decided t rec = rbind (as_list (meta_or t ''master_decisions'' (JList []))) (\<lambda>ds. Inr (JList (ds @ [JObj rec])))"

definition contract_count :: "task \<Rightarrow> nat res" where
  "contract_count t = rbind (as_list (meta_or t ''contract_revisions'' (JList []))) (\<lambda>cs. Inr (length cs))"

type_synonym decision = "task \<times> dict \<times> string"

definition decide_accept :: "env \<Rightarrow> task \<Rightarrow> dict \<Rightarrow> string option \<Rightarrow> decision res" where
  "decide_accept E t rec outcome =
     rbind (ensure (t_state t = SUBMITTED \<and> \<not> truthy (meta t ''rework_requested''))
              (StoreError ''accept requires SUBMITTED with no pending rework request'')) (\<lambda>_.
     let out = (case outcome of None \<Rightarrow> ''accepted'' | Some x \<Rightarrow> x) in
     rbind (ensure (strip out \<noteq> []) (StoreError ''outcome must be a nonempty project-defined label'')) (\<lambda>_.
     rbind (contract_count t) (\<lambda>n.
     let rec' = dput rec [(''outcome'', JStr out), (''effective_acceptance'', JStr (t_acceptance t)),
                  (''contract_revision'', JInt (int n)),
                  (''contract_sha256'', JStr (env_sha256 E (env_encode E (t_acceptance t))))]
     in rbind (decided t rec') (\<lambda>ds.
        rbind (transition_task t DONE None True
                 (obj [(''master_decisions'', ds), (''acceptance_receipt'', JObj rec'), (''outcome'', JStr out)])
                 (Put None)) (\<lambda>u.
        Inr (u, rec', ''ACCEPTED''))))))"

definition decide_amend :: "env \<Rightarrow> task \<Rightarrow> dict \<Rightarrow> string option \<Rightarrow> decision res" where
  "decide_amend E t rec acceptance_file =
     rbind (ensure (t_state t \<in> {READY, WAITING, SUBMITTED, BLOCKED})
              (StoreError ''amend requires a non-running, non-terminal task; wait for a safe boundary'')) (\<lambda>_.
     rbind (case acceptance_file of
              Some f \<Rightarrow> (if f \<noteq> [] then Inr f else Inl (StoreError ''amend requires --acceptance-file''))
            | None \<Rightarrow> Inl (StoreError ''amend requires --acceptance-file'')) (\<lambda>f.
     rbind (snapshot_file E f) (\<lambda>repl.
     let rec' = dput rec [(''previous_acceptance'', JStr (t_acceptance t)), (''replacement'', JObj repl)] in
     rbind (decided t rec') (\<lambda>ds.
     rbind (as_list (meta_or t ''contract_revisions'' (JList []))) (\<lambda>cs.
     rbind (as_str (dget repl ''text'')) (\<lambda>text.
     Inr (t\<lparr>t_acceptance := text,
            t_meta := dput (t_meta t) [(''master_decisions'', ds),
                        (''contract_revisions'', JList (cs @ [JObj rec']))]\<rparr>, rec', ''CONTRACT_AMENDED'')))))))"

definition decide_release :: "task \<Rightarrow> dict \<Rightarrow> decision res" where
  "decide_release t rec =
     rbind (ensure (t_lease t = None) (StoreError ''recovery ruling requires a released lease'')) (\<lambda>_.
     rbind (decided t rec) (\<lambda>ds.
     rbind (transition_task t READY None False
              (obj [(''master_decisions'', ds), (''recovery_hold'', JNull),
                    (''latest_master_instruction'', JObj rec), (''resume_requested'', JNull),
                    (''automatic_restarts'', JInt 0), (''restart_limit_reached'', JBool False)]) Keep) (\<lambda>u.
     Inr (u, rec, ''RECOVERY_RELEASED''))))"

definition decide_instruct :: "task \<Rightarrow> dict \<Rightarrow> bool \<Rightarrow> decision res" where
  "decide_instruct t rec ruling =
     rbind (ensure (t_state t = (if ruling then WAITING else SUBMITTED) \<and>
                    (ruling \<longrightarrow> t_lease t \<noteq> None \<or> clean_surrender t))
              (StoreError ''the decision requires another state'')) (\<lambda>_.
     let key = (if ruling then ''resume_requested'' else ''rework_requested'') in
     rbind (ensure (\<not> truthy (meta t key)) (StoreError ''request already pending'')) (\<lambda>_.
     rbind (decided t rec) (\<lambda>ds.
     Inr (t\<lparr>t_meta := dput (t_meta t) [(''master_decisions'', ds), (key, dget rec ''sha256''),
               (''latest_master_instruction'', JObj rec)]\<rparr>, rec,
          if ruling then ''RULING_RECORDED'' else ''REWORK_REQUESTED''))))"

text \<open>The branch by action, in the order of the code's tests.\<close>

definition decide ::
    "env \<Rightarrow> task \<Rightarrow> dict \<Rightarrow> string \<Rightarrow> string option \<Rightarrow> string option \<Rightarrow> decision res" where
  "decide E t rec action outcome acceptance_file =
     rbind (decided t rec) (\<lambda>_.
     if action = ''accept'' then decide_accept E t rec outcome
     else if action = ''amend'' then decide_amend E t rec acceptance_file
     else if action = ''ruling'' \<and> t_state t = BLOCKED \<and> truthy (meta t ''recovery_hold'') then decide_release t rec
     else if action = ''ruling'' \<or> action = ''rework'' then decide_instruct t rec (action = ''ruling'')
     else Inl (StoreError ''unknown decision''))"

definition record_decision ::
    "env \<Rightarrow> string \<Rightarrow> int \<Rightarrow> string \<Rightarrow> string \<Rightarrow> string \<Rightarrow> string option \<Rightarrow> string option \<Rightarrow> ('z farm_scheme, task) cmd" where
  "record_decision E i rv action evidence actor outcome acceptance_file =
     bnd (gets (store_get i)) (\<lambda>r. bnd (pure r) (\<lambda>t.
     seq (guard (meta_or t ''revision'' (JInt 0) = JInt rv)
            (StoreConflict ''revision changed; reread task-show before deciding''))
     (seq (guard (strip actor \<noteq> []) (StoreError ''master actor must be nonempty''))
     (bnd (pure (snapshot_file E evidence)) (\<lambda>snap.
      bnd (now_iso E) (\<lambda>ts.
      let rec = dput snap [(''actor'', JStr actor), (''ts'', JStr ts), (''action'', JStr action),
                  (''based_on_revision'', JInt rv)]
      in bnd (pure (decide E t rec action outcome acceptance_file)) (\<lambda>(u, rec', ev).
         commit E u (Some t) ev actor (obj [(''decision'', JObj rec')]) None None None)))))))"

subsection \<open>What a decision can and cannot do\<close>

lemmas decide_branches = decide_def decide_accept_def decide_amend_def decide_release_def decide_instruct_def

definition recorded_last :: "task \<Rightarrow> task \<Rightarrow> dict \<Rightarrow> bool" where
  "recorded_last t u rec \<longleftrightarrow> (\<exists>ds. meta_or t ''master_decisions'' (JList []) = JList ds \<and>
     meta u ''master_decisions'' = JList (ds @ [JObj rec]))"

lemma decided_Inr: "decided t rec = Inr j \<longleftrightarrow> (\<exists>ds. meta_or t ''master_decisions'' (JList []) = JList ds \<and> j = JList (ds @ [JObj rec]))"
  by (cases "meta_or t ''master_decisions'' (JList [])") (auto simp: decided_def)

text \<open>What each branch returns, as equations.\<close>

lemma decide_accept_Inr:
  assumes "decide_accept E t rec outcome = Inr (u, rec', ev)"
  obtains ds n out where "t_state t = SUBMITTED" "decided t rec' = Inr ds"
    "rec' = dput rec [(''outcome'', JStr out), (''effective_acceptance'', JStr (t_acceptance t)),
       (''contract_revision'', JInt n), (''contract_sha256'', JStr (env_sha256 E (env_encode E (t_acceptance t))))]"
    "u = t\<lparr>t_state := DONE, t_meta := t_meta t ++\<^sub>f obj [(''master_decisions'', ds),
       (''acceptance_receipt'', JObj rec'), (''outcome'', JStr out)], t_lease := None\<rparr>"
    "truthy (meta u ''acceptance_receipt'')"
  using assms by (auto simp: decide_accept_def Let_def rbind_Inr_iff transition_task_Inr_iff)

lemma decide_amend_Inr:
  assumes "decide_amend E t rec af = Inr (u, rec', ev)"
  obtains ds cs repl x where "t_state t \<in> {READY, WAITING, SUBMITTED, BLOCKED}" "decided t rec' = Inr ds"
    "rec' = dput rec [(''previous_acceptance'', JStr (t_acceptance t)), (''replacement'', JObj repl)]"
    "u = t\<lparr>t_acceptance := x, t_meta := dput (t_meta t) [(''master_decisions'', ds),
       (''contract_revisions'', cs)]\<rparr>"
  using assms by (auto simp: decide_amend_def Let_def rbind_Inr_iff)

lemma decide_release_Inr:
  assumes "decide_release t rec = Inr (u, rec', ev)"
  obtains ds where "t_lease t = None" "decided t rec = Inr ds" "rec' = rec"
    "u = t\<lparr>t_state := READY, t_meta := t_meta t ++\<^sub>f obj [(''master_decisions'', ds), (''recovery_hold'', JNull),
       (''latest_master_instruction'', JObj rec), (''resume_requested'', JNull),
       (''automatic_restarts'', JInt 0), (''restart_limit_reached'', JBool False)]\<rparr>"
  using assms by (auto simp: decide_release_def rbind_Inr_iff transition_task_Inr_iff)

lemma decide_instruct_Inr:
  assumes "decide_instruct t rec b = Inr (u, rec', ev)"
  obtains ds k where "t_state t = (if b then WAITING else SUBMITTED)" "b \<longrightarrow> t_lease t \<noteq> None \<or> clean_surrender t"
    "decided t rec = Inr ds" "rec' = rec" "k \<in> {''resume_requested'', ''rework_requested''}"
    "u = t\<lparr>t_meta := dput (t_meta t) [(''master_decisions'', ds), (k, dget rec ''sha256''),
       (''latest_master_instruction'', JObj rec)]\<rparr>"
  using assms by (auto simp: decide_instruct_def Let_def rbind_Inr_iff split: if_splits)

definition same_evidence :: "dict \<Rightarrow> dict \<Rightarrow> bool" where
  "same_evidence a b \<longleftrightarrow> list_all (\<lambda>k. dget a k = dget b k)
     [''sha256'', ''text'', ''path'', ''actor'', ''action'', ''based_on_revision'']"

lemma decide_spec:
  assumes "decide E t rec action outcome af = Inr (u, rec', ev)"
  shows "t_id u = t_id t \<and> (task_ok t \<longrightarrow> task_ok u) \<and> recorded_last t u rec' \<and> same_evidence rec' rec \<and>
    (t_state u \<noteq> t_state t \<longrightarrow>
       (action = ''accept'' \<and> t_state t = SUBMITTED \<and> t_state u = DONE) \<or>
       (action = ''ruling'' \<and> t_state t = BLOCKED \<and> truthy (meta t ''recovery_hold'') \<and> t_state u = READY)) \<and>
    (t_lease u \<noteq> t_lease t \<longrightarrow> action = ''accept'' \<and> t_lease u = None) \<and>
    (t_acceptance u \<noteq> t_acceptance t \<longrightarrow> action = ''amend'')"
proof -
  from assms consider (accept) "action = ''accept''" "decide_accept E t rec outcome = Inr (u, rec', ev)"
    | (amend) "action = ''amend''" "decide_amend E t rec af = Inr (u, rec', ev)"
    | (release) "action = ''ruling''" "t_state t = BLOCKED" "truthy (meta t ''recovery_hold'')"
        "decide_release t rec = Inr (u, rec', ev)"
    | (instruct) "decide_instruct t rec (action = ''ruling'') = Inr (u, rec', ev)"
    by (auto simp: decide_def rbind_Inr_iff split: if_splits)
  then show ?thesis
  proof cases
    case accept
    from accept(2) show ?thesis
      by (rule decide_accept_Inr) (use accept(1) in \<open>auto simp: decided_Inr recorded_last_def task_ok_def same_evidence_def\<close>)
  next
    case amend
    from amend(2) show ?thesis
      by (rule decide_amend_Inr) (use amend(1) in \<open>auto simp: decided_Inr recorded_last_def task_ok_def same_evidence_def\<close>)
  next
    case release
    from release(4) show ?thesis
      by (rule decide_release_Inr) (use release in \<open>auto simp: decided_Inr recorded_last_def task_ok_def same_evidence_def\<close>)
  next
    case instruct
    then show ?thesis
      by (rule decide_instruct_Inr)
        (auto simp: decided_Inr recorded_last_def task_ok_def same_evidence_def split: if_splits)
  qed
qed

lemma keeps_record_decision [keeps_rules]:
  "keeps (sound E) (record_decision E i rv action evidence actor outcome af)"
  unfolding record_decision_def Let_def
  by (intro keeps_rules keeps_bnd_pure) (auto dest: decide_spec intro!: keeps_rules)

text \<open>A recorded decision rests on the snapshot it names. It succeeds only against the task's
  current revision; then the saved task's decision list is the old one with one record at its
  end, that record holds the path, text and digest of the evidence file together with the
  actor, the action and the revision it was based on, the revision advances by one, and the
  state changes only by accepting a submitted task or by releasing one held after a recovery.\<close>

theorem decision_recorded:
  assumes "f_journal s = None"
    and "record_decision E i rv action evidence actor outcome af s = (Inr u, s')"
  shows "\<exists>t raw rec. fmlookup (f_tasks s) i = Some t \<and> meta_or t ''revision'' (JInt 0) = JInt rv \<and>
    fmlookup (f_tasks s') (t_id t) = Some u \<and> meta u ''revision'' = JInt (rv + 1) \<and> recorded_last t u rec \<and>
    env_read E (env_resolve E evidence) = Inr raw \<and> dget rec ''sha256'' = JStr (env_sha256 E raw) \<and>
    dget rec ''actor'' = JStr actor \<and> dget rec ''action'' = JStr action \<and>
    dget rec ''based_on_revision'' = JInt rv \<and>
    (t_state u = t_state t \<or> (action = ''accept'' \<and> t_state t = SUBMITTED \<and> t_state u = DONE) \<or>
     (action = ''ruling'' \<and> t_state t = BLOCKED \<and> truthy (meta t ''recovery_hold'') \<and> t_state u = READY))"
proof -
  from assms(2) obtain t snap ts v rec' ev where
      t: "fmlookup (f_tasks s) i = Some t" and rv: "meta_or t ''revision'' (JInt 0) = JInt rv"
    and snap: "snapshot_file E evidence = Inr snap"
    and dec: "decide E t (dput snap [(''actor'', JStr actor), (''ts'', JStr ts), (''action'', JStr action),
          (''based_on_revision'', JInt rv)]) action outcome af = Inr (v, rec', ev)"
    and com: "commit E v (Some t) ev actor (obj [(''decision'', JObj rec')]) None None None
          (s\<lparr>f_n := Suc (f_n s)\<rparr>) = (Inr u, s')"
    by (auto simp: record_decision_def Let_def run_Inr store_get_Inr)
  from commit_run_Inr [OF com] assms(1) obtain r where
      c: "commit_checks E v (Some t) (s\<lparr>f_n := Suc (f_n s)\<rparr>) = Inr r"
    and u: "u = with_revision r v" and s': "f_tasks s' = fmupd (t_id v) u (f_tasks s)"
    by (auto simp: commit_done_def)
  note spec = decide_spec [OF dec]
  from commit_checks_Inr(2,6) [OF c] rv have "r = rv + 1" and "fmlookup (f_tasks s) (t_id v) = Some t"
    by simp_all
  moreover obtain raw where "env_read E (env_resolve E evidence) = Inr raw"
      "dget snap ''sha256'' = JStr (env_sha256 E raw)"
    using snap by (auto elim: snapshot_file_Inr)
  ultimately show ?thesis
    using spec t rv u s' by (auto simp: recorded_last_def same_evidence_def)
qed

end
