(* ===== verification/Executor.thy ===== *)
theory Executor
  imports Master
begin

text \<open>
  The boundary to the worker backends: \<open>adapters/base.py\<close>, the scriptable \<open>adapters/fake.py\<close> and
  the per-task router \<open>adapters/multi.py\<close>. A backend is a record of operations on a state of its
  own, so that no operation of it can touch the farm's files; the task list it may read is an
  argument.
\<close>

subsection \<open>The interface\<close>

record observation =
  o_worker :: string
  o_alive :: "bool option"
  o_receipt :: "receipt option"
  o_detail :: "string option"

text \<open>\<open>ex_launch\<close> returns the session handle of the \<open>LaunchHandle\<close>; \<open>ex_validate\<close> is the optional
  \<open>validate_task\<close>.\<close>

record 'x executor =
  ex_launch :: "task \<Rightarrow> lease \<Rightarrow> ('x, string) cmd"
  ex_resume :: "task \<Rightarrow> string \<Rightarrow> lease \<Rightarrow> ('x, unit) cmd"
  ex_poll :: "task list \<Rightarrow> string \<Rightarrow> ('x, observation) cmd"
  ex_stop :: "task list \<Rightarrow> string \<Rightarrow> ('x, unit) cmd"
  ex_validate :: "(task \<Rightarrow> ('x, unit) cmd) option"

text \<open>
  What the reconciler relies on: a poll reports on the worker it was asked about and does not
  change what a later poll of any worker reports; a worker whose launch or resumption returned
  is not reported positively dead by the next poll.
\<close>

locale worker_executor =
  fixes X :: "'x executor"
  assumes poll_names: "ex_poll X ts w x = (Inr obs, x') \<Longrightarrow> o_worker obs = w"
    and poll_reads: "ex_poll X ts w x = (r, x') \<Longrightarrow> fst (ex_poll X ts w' x') = fst (ex_poll X ts w' x)"
    and launch_not_dead: "ex_launch X t l x = (Inr h, x') \<Longrightarrow>
      ex_poll X ts (l_worker l) x' = (Inr obs, x'') \<Longrightarrow> o_alive obs \<noteq> Some False"
    and resume_not_dead: "ex_resume X t w l x = (Inr (), x') \<Longrightarrow>
      ex_poll X ts w x' = (Inr obs, x'') \<Longrightarrow> o_alive obs \<noteq> Some False"
begin

lemma poll_twice: "ex_poll X ts w x = (r, x') \<Longrightarrow> fst (ex_poll X ts w x') = r"
  by (metis fst_conv poll_reads)

lemma dead_not_launched:
  assumes "ex_poll X ts (l_worker l) x' = (Inr obs, x'')" and "o_alive obs = Some False"
  shows "ex_launch X t l x \<noteq> (Inr h, x')" and "ex_resume X t (l_worker l) l x \<noteq> (Inr (), x')"
  using assms launch_not_dead resume_not_dead by blast+

end

subsection \<open>The scriptable executor\<close>

record fake =
  k_launched :: "(string \<times> string) list"
  k_resumed :: "string list"
  k_stopped :: "string list"
  k_alive :: "(string, bool) fmap"
  k_receipt :: "(string, receipt) fmap"

definition fake_init :: fake where
  "fake_init = \<lparr>k_launched = [], k_resumed = [], k_stopped = [], k_alive = fmempty, k_receipt = fmempty\<rparr>"

definition fake_launch :: "task \<Rightarrow> lease \<Rightarrow> (fake, string) cmd" where
  "fake_launch t l = seq (modify (\<lambda>k. k\<lparr>k_launched := k_launched k @ [(l_worker l, t_id t)],
       k_alive := fmupd (l_worker l) True (k_alive k)\<rparr>)) (ret (''fake:'' @ l_worker l))"

definition fake_resume :: "task \<Rightarrow> string \<Rightarrow> lease \<Rightarrow> (fake, unit) cmd" where
  "fake_resume t w l = modify (\<lambda>k. k\<lparr>k_resumed := k_resumed k @ [w], k_alive := fmupd w True (k_alive k)\<rparr>)"

definition fake_poll :: "task list \<Rightarrow> string \<Rightarrow> (fake, observation) cmd" where
  "fake_poll ts w = gets (\<lambda>k. \<lparr>o_worker = w,
     o_alive = Some (case fmlookup (k_alive k) w of Some b \<Rightarrow> b | None \<Rightarrow> False),
     o_receipt = fmlookup (k_receipt k) w, o_detail = None\<rparr>)"

definition fake_stop :: "task list \<Rightarrow> string \<Rightarrow> (fake, unit) cmd" where
  "fake_stop ts w = modify (\<lambda>k. k\<lparr>k_stopped := k_stopped k @ [w], k_alive := fmupd w False (k_alive k)\<rparr>)"

definition set_receipt :: "string \<Rightarrow> receipt \<Rightarrow> fake \<Rightarrow> fake" where
  "set_receipt w r k = k\<lparr>k_receipt := fmupd w r (k_receipt k)\<rparr>"

definition clear_receipt :: "string \<Rightarrow> fake \<Rightarrow> fake" where
  "clear_receipt w k = k\<lparr>k_receipt := fmdrop w (k_receipt k)\<rparr>"

definition kill :: "string \<Rightarrow> fake \<Rightarrow> fake" where
  "kill w k = k\<lparr>k_alive := fmupd w False (k_alive k)\<rparr>"

definition fake_executor :: "fake executor" where
  "fake_executor = \<lparr>ex_launch = fake_launch, ex_resume = fake_resume, ex_poll = fake_poll,
     ex_stop = fake_stop, ex_validate = None\<rparr>"

interpretation fake: worker_executor fake_executor
  by unfold_locales
    (auto simp: fake_executor_def fake_launch_def fake_resume_def fake_poll_def cmd_defs)

subsection \<open>Per-task selection\<close>

record 'x multi =
  m_instances :: "(string, 'x) fmap"
  m_backend :: "(string, string) fmap"

text \<open>A factory table gives the backend of a name and the state a new instance starts in.\<close>

type_synonym 'x factories = "string \<Rightarrow> ('x executor \<times> 'x) option"

definition multi_init :: "string \<Rightarrow> 'x factories \<Rightarrow> 'x multi res" where
  "multi_init d F = (if F d = None then Inl (ValueError ''default executor is not among the known ones'')
     else Inr \<lparr>m_instances = fmempty, m_backend = fmempty\<rparr>)"

definition name_for_task :: "string \<Rightarrow> 'x factories \<Rightarrow> task \<Rightarrow> string res" where
  "name_for_task d F t = (case jor (meta t ''executor'') (JStr d) of
     JStr n \<Rightarrow> if F n = None then Inl (ValueError ''task names unknown executor'') else Inr n
   | _ \<Rightarrow> Inl (ValueError ''task names unknown executor''))"

text \<open>\<open>backend(name)\<close> followed by one call on it: the instance is created on first use.\<close>

definition on_backend :: "'x factories \<Rightarrow> string \<Rightarrow> ('x executor \<Rightarrow> ('x, 'a) cmd) \<Rightarrow> ('x multi, 'a) cmd" where
  "on_backend F n call m = (case F n of
     None \<Rightarrow> (Inl (KeyError n), m)
   | Some (X, x0) \<Rightarrow>
       (case call X (case fmlookup (m_instances m) n of Some x \<Rightarrow> x | None \<Rightarrow> x0) of
          (r, x') \<Rightarrow> (r, m\<lparr>m_instances := fmupd n x' (m_instances m)\<rparr>)))"

text \<open>The task whose lease or issued workers name the worker, the first in the order of the store;
  an unknown worker goes to the default backend.\<close>

definition holds_lease :: "task \<Rightarrow> string \<Rightarrow> bool" where
  "holds_lease t w = (case t_lease t of Some l \<Rightarrow> l_worker l = w | None \<Rightarrow> False)"

fun owner_name :: "string \<Rightarrow> 'x factories \<Rightarrow> task list \<Rightarrow> string \<Rightarrow> string res" where
  "owner_name d F [] w = Inr d"
| "owner_name d F (t # ts) w =
     rbind (as_obj (jor (meta t ''dispatches'') (JObj fmempty))) (\<lambda>issued.
       if holds_lease t w then name_for_task d F t
       else rbind (as_list (dget_or issued ''workers'' (JList []))) (\<lambda>ws.
         if JStr w \<in> set ws then name_for_task d F t else owner_name d F ts w))"

definition remember :: "string \<Rightarrow> string \<Rightarrow> ('x multi, unit) cmd" where
  "remember w n = modify (\<lambda>m. m\<lparr>m_backend := fmupd w n (m_backend m)\<rparr>)"

definition for_worker :: "string \<Rightarrow> 'x factories \<Rightarrow> task list \<Rightarrow> string \<Rightarrow> ('x multi, string) cmd" where
  "for_worker d F ts w = bnd (gets (\<lambda>m. fmlookup (m_backend m) w)) (\<lambda>known.
     case known of
       Some n \<Rightarrow> ret n
     | None \<Rightarrow> bnd (pure (owner_name d F ts w)) (\<lambda>n. seq (remember w n) (ret n)))"

definition multi_launch :: "string \<Rightarrow> 'x factories \<Rightarrow> task \<Rightarrow> lease \<Rightarrow> ('x multi, string) cmd" where
  "multi_launch d F t l = bnd (pure (name_for_task d F t)) (\<lambda>n.
     seq (remember (l_worker l) n) (on_backend F n (\<lambda>X. ex_launch X t l)))"

definition multi_resume :: "string \<Rightarrow> 'x factories \<Rightarrow> task \<Rightarrow> string \<Rightarrow> lease \<Rightarrow> ('x multi, unit) cmd" where
  "multi_resume d F t w l = bnd (pure (name_for_task d F t)) (\<lambda>n.
     seq (remember w n) (on_backend F n (\<lambda>X. ex_resume X t w l)))"

definition multi_poll :: "string \<Rightarrow> 'x factories \<Rightarrow> task list \<Rightarrow> string \<Rightarrow> ('x multi, observation) cmd" where
  "multi_poll d F ts w = bnd (for_worker d F ts w) (\<lambda>n. on_backend F n (\<lambda>X. ex_poll X ts w))"

definition multi_stop :: "string \<Rightarrow> 'x factories \<Rightarrow> task list \<Rightarrow> string \<Rightarrow> ('x multi, unit) cmd" where
  "multi_stop d F ts w = bnd (for_worker d F ts w) (\<lambda>n. on_backend F n (\<lambda>X. ex_stop X ts w))"

definition multi_validate :: "string \<Rightarrow> 'x factories \<Rightarrow> task \<Rightarrow> ('x multi, unit) cmd" where
  "multi_validate d F t = bnd (pure (name_for_task d F t)) (\<lambda>n.
     on_backend F n (\<lambda>X. case ex_validate X of None \<Rightarrow> ret () | Some v \<Rightarrow> v t))"

definition multi_executor :: "string \<Rightarrow> 'x factories \<Rightarrow> 'x multi executor" where
  "multi_executor d F = \<lparr>ex_launch = multi_launch d F, ex_resume = multi_resume d F,
     ex_poll = multi_poll d F, ex_stop = multi_stop d F, ex_validate = Some (multi_validate d F)\<rparr>"

lemmas multi_defs = multi_executor_def multi_launch_def multi_resume_def multi_poll_def multi_stop_def
  for_worker_def on_backend_def remember_def


subsection \<open>The router keeps the contract of its backends\<close>

definition instance_of :: "'x factories \<Rightarrow> string \<Rightarrow> 'x multi \<Rightarrow> 'x" where
  "instance_of F n m = (case fmlookup (m_instances m) n of Some x \<Rightarrow> x | None \<Rightarrow> snd (the (F n)))"

definition route :: "string \<Rightarrow> 'x factories \<Rightarrow> task list \<Rightarrow> string \<Rightarrow> 'x multi \<Rightarrow> string res" where
  "route d F ts w m = (case fmlookup (m_backend m) w of Some n \<Rightarrow> Inr n | None \<Rightarrow> owner_name d F ts w)"

text \<open>The answer of a poll depends on the backend the worker is routed to and on its instance.\<close>

lemma multi_poll_result:
  "fst (multi_poll d F ts w m) = rbind (route d F ts w m) (\<lambda>n. case F n of
     None \<Rightarrow> Inl (KeyError n) | Some (X, x0) \<Rightarrow> fst (ex_poll X ts w (instance_of F n m)))"
  by (auto simp: multi_poll_def for_worker_def on_backend_def remember_def route_def instance_of_def cmd_defs
      rbind_def split: option.splits prod.splits sum.splits)

lemma multi_poll_effect:
  assumes "multi_poll d F ts w m = (r, m')"
  shows "route d F ts w' m' = route d F ts w' m" and
    "instance_of F k m' = instance_of F k m \<or>
     (\<exists>X x0 r. F k = Some (X, x0) \<and> ex_poll X ts w (instance_of F k m) = (r, instance_of F k m'))"
  using assms
  by (auto simp: multi_poll_def for_worker_def on_backend_def remember_def route_def instance_of_def cmd_defs
      split: option.splits prod.splits sum.splits if_splits)

lemma multi_poll_after:
  assumes "name_for_task d F t = Inr n" and "F n = Some (X, x0)"
    and "fmlookup (m_backend m) w = Some n" and "fmlookup (m_instances m) n = Some x"
    and "multi_poll d F ts w m = (Inr obs, m'')"
  shows "\<exists>x''. ex_poll X ts w x = (Inr obs, x'')"
proof -
  have "fst (ex_poll X ts w x) = Inr obs"
    using assms multi_poll_result [of d F ts w m] by (simp add: route_def instance_of_def)
  then show ?thesis by (metis prod.collapse)
qed

text \<open>The router is a worker executor whenever every backend of its table is: polls name the
  worker asked about and change no later answer, and a worker just launched or resumed through
  the router is not polled as dead, whichever backend its task selects.\<close>

theorem multi_executor_contract:
  assumes backends: "\<And>n X x0. F n = Some (X, x0) \<Longrightarrow> worker_executor X"
  shows "worker_executor (multi_executor d F)"
proof (unfold_locales, goal_cases)
  case (1 ts w m obs m')
  have "fst (multi_poll d F ts w m) = Inr obs" using 1 by (simp add: multi_executor_def)
  then obtain n X x0 where "F n = Some (X, x0)" "fst (ex_poll X ts w (instance_of F n m)) = Inr obs"
    unfolding multi_poll_result by (auto simp: rbind_Inr_iff split: option.splits prod.splits)
  then show ?case using worker_executor.poll_names [OF backends] by (metis prod.collapse)
next
  case (2 ts w m r m' w')
  then have run: "multi_poll d F ts w m = (r, m')" by (simp add: multi_executor_def)
  have "fst (ex_poll X ts w' (instance_of F k m')) = fst (ex_poll X ts w' (instance_of F k m))"
    if "F k = Some (X, x0)" for k X x0
    using multi_poll_effect(2) [OF run, of k] that worker_executor.poll_reads [OF backends [OF that]]
    by fastforce
  then have "fst (multi_poll d F ts w' m') = fst (multi_poll d F ts w' m)"
    unfolding multi_poll_result multi_poll_effect(1) [OF run]
    by (auto simp: rbind_def split: sum.splits option.splits prod.splits)
  then show ?case by (simp add: multi_executor_def)
next
  case (3 t l m h m' ts obs m'')
  then obtain n where n: "name_for_task d F t = Inr n"
    by (auto simp: multi_executor_def multi_launch_def run_Inr)
  with 3 obtain X x0 x x' where X: "F n = Some (X, x0)" "ex_launch X t l x = (Inr h, x')"
      "fmlookup (m_backend m') (l_worker l) = Some n" "fmlookup (m_instances m') n = Some x'"
    by (auto simp: multi_executor_def multi_launch_def run_Inr remember_def on_backend_def
        split: option.splits prod.splits)
  have "multi_poll d F ts (l_worker l) m' = (Inr obs, m'')" using 3(2) by (simp add: multi_executor_def)
  then obtain x'' where "ex_poll X ts (l_worker l) x' = (Inr obs, x'')" using multi_poll_after [OF n X(1,3,4)] by blast
  then show ?case using worker_executor.launch_not_dead [OF backends [OF X(1)] X(2)] by blast
next
  case (4 t w l m m' ts obs m'')
  then obtain n where n: "name_for_task d F t = Inr n"
    by (auto simp: multi_executor_def multi_resume_def run_Inr)
  with 4 obtain X x0 x x' where X: "F n = Some (X, x0)" "ex_resume X t w l x = (Inr (), x')"
      "fmlookup (m_backend m') w = Some n" "fmlookup (m_instances m') n = Some x'"
    by (auto simp: multi_executor_def multi_resume_def run_Inr remember_def on_backend_def
        split: option.splits prod.splits)
  have "multi_poll d F ts w m' = (Inr obs, m'')" using 4(2) by (simp add: multi_executor_def)
  then obtain x'' where "ex_poll X ts w x' = (Inr obs, x'')" using multi_poll_after [OF n X(1,3,4)] by blast
  then show ?case using worker_executor.resume_not_dead [OF backends [OF X(1)] X(2)] by blast
qed

definition fake_factories :: "fake factories" where
  "fake_factories n = (if n = ''fake'' then Some (fake_executor, fake_init) else None)"

lemma fake_factories_ok: "fake_factories n = Some (X, x0) \<Longrightarrow> worker_executor X"
  using fake.worker_executor_axioms by (simp add: fake_factories_def split: if_splits)

subsection \<open>A farm with its executor\<close>

record 'x world = farm +
  w_exec :: 'x

text \<open>One call on the executor, which may read the task files and changes only its own state.\<close>

definition exec_call :: "(task list \<Rightarrow> ('x, 'a) cmd) \<Rightarrow> (('x, 'z) world_scheme, 'a) cmd" where
  "exec_call f s = (case f (store_list s) (w_exec s) of (r, x') \<Rightarrow> (r, s\<lparr>w_exec := x'\<rparr>))"

lemma wp_exec_call [wp_rules]:
  "wp (exec_call f) Q s = (\<forall>r x'. f (store_list s) (w_exec s) = (r, x') \<longrightarrow> Q r (s\<lparr>w_exec := x'\<rparr>))"
  by (auto simp: wp_def exec_call_def split: prod.splits)

lemma exec_call_run_Inr [run_Inr]:
  "exec_call f s = (r, s') \<longleftrightarrow> (\<exists>x'. f (store_list s) (w_exec s) = (r, x') \<and> s' = s\<lparr>w_exec := x'\<rparr>)"
  by (auto simp: exec_call_def split: prod.splits)

lemma sound_exec [simp]: "sound E (s\<lparr>w_exec := x\<rparr>) = sound E s"
  by (rule sound_frame) simp_all

lemma keeps_exec_call [keeps_rules]: "keeps (sound E) (exec_call f)"
  by (simp add: keeps_def wp_rules)

end
