(* ===== verification/Turnover.thy ===== *)
theory Turnover
  imports Executor
begin

text \<open>
  \<open>turnover.py\<close>: the planned handover of a farm to another host. A deployment record moves
  through the phases draining, released and claimed; every change of it is published with an
  audit event that a crash cannot lose, because the record carries the event until it is logged.
\<close>

subsection \<open>Requesting a rotation\<close>

definition request_rotation ::
    "env \<Rightarrow> string \<Rightarrow> json \<Rightarrow> string \<Rightarrow> string \<Rightarrow> string option \<Rightarrow> ('z farm_scheme, task) cmd" where
  "request_rotation E i rv rid actor checkpoint_file =
     seq (guard (fullmatch request_id_rx rid \<and> strip actor \<noteq> [])
            (StoreError ''rotation requires a short stable request ID and nonempty actor''))
     (bnd (asks (store_get i)) (\<lambda>t.
      seq (guard (meta_or t ''revision'' (JInt 0) = rv)
             (StoreConflict ''rotation revision changed; reread task-show''))
      (let previous = meta t ''rotation_request'' in
       bnd (pure (as_obj (meta_or t ''clean_surrender'' (JObj fmempty)))) (\<lambda>done.
       if dget done ''id'' = JStr rid then ret t
       else case t_lease t of
         None \<Rightarrow> throw (StoreError ''rotation requires a RUNNING/WAITING lease'')
       | Some l \<Rightarrow>
         seq (guard (t_state t = RUNNING \<or> t_state t = WAITING)
                (StoreError ''rotation requires a RUNNING/WAITING lease''))
         (bnd (pure (if truthy previous then jindex previous ''id'' else Inr (JStr rid))) (\<lambda>pid.
          seq (guard (pid = JStr rid) (StoreConflict ''rotation already requested; reuse the recorded ID''))
         (seq (guard (truthy (jopt checkpoint_file) \<longrightarrow> t_state t = WAITING)
                (StoreError ''master checkpoint attachment requires WAITING; a running worker must yield itself''))
         (bnd (pure (case checkpoint_file of
                None \<Rightarrow> Inr None
              | Some f \<Rightarrow> if f = [] then Inr None else rbind (snapshot_file E f) (\<lambda>d. Inr (Some d)))) (\<lambda>checkpoint.
          bnd (pure (if truthy previous then as_obj previous else Inr fmempty)) (\<lambda>prev.
          if truthy previous \<and> (case checkpoint of None \<Rightarrow> True | Some c \<Rightarrow> dget prev ''checkpoint'' = JObj c)
          then ret t
          else
            bnd (if truthy previous then ret prev
                 else bnd (now_iso E) (\<lambda>ts. ret (obj [(''id'', JStr rid), (''actor'', JStr actor),
                        (''worker_id'', JStr (l_worker l)), (''lease_id'', JStr (l_id l)),
                        (''requested_state'', JStr (state_value (t_state t))),
                        (''based_on_revision'', rv), (''ts'', JStr ts)]))) (\<lambda>base.
            let record = (case checkpoint of Some c \<Rightarrow> fmupd ''checkpoint'' (JObj c) base | None \<Rightarrow> base)
            in commit E (t\<lparr>t_meta := fmupd ''rotation_request'' (JObj record) (t_meta t)\<rparr>) (Some t)
                 ''ROTATION_REQUESTED'' actor record None None None)))))))))))"

lemma keeps_sound_rotation [keeps_rules]: "keeps (sound E) (request_rotation E i rv rid actor cf)"
  unfolding request_rotation_def Let_def
  by (intro keeps_rules) (auto simp: task_ok_def)

subsection \<open>The deployment record and its audit event\<close>

text \<open>\<open>any(manifest.get(k) != current[k] for k in keys)\<close>\<close>

definition same_build :: "env \<Rightarrow> string list \<Rightarrow> dict \<Rightarrow> bool" where
  "same_build E keys m \<longleftrightarrow> list_all (\<lambda>k. dget m k = dget (env_identity E) k) keys"

definition write_deployment :: "dict \<Rightarrow> ('z farm_scheme, unit) cmd" where
  "write_deployment m = modify (\<lambda>s. s\<lparr>f_deploy := Some (JObj m)\<rparr>)"

definition finish_deployment_event :: "env \<Rightarrow> bool \<Rightarrow> ('z farm_scheme, dict) cmd" where
  "finish_deployment_event E claiming =
     bnd (asks deployment) (\<lambda>m.
     if \<not> truthy (dget m ''pending_event'') then ret m
     else
       seq (guard ((if claiming then dget (handoff_of m) ''target_host'' else dget m ''host'')
                     = dget (env_identity E) ''host'' \<and>
                   same_build E [''source_sha256'', ''protocol_version''] m)
              (StoreError ''pending deployment audit requires its recorded host/build (or exact claimant)''))
       (bnd (pure (event_from_dict (dget m ''pending_event''))) (\<lambda>ev.
        seq (log_once ev)
        (let m' = fmdrop ''pending_event'' m in seq (write_deployment m') (ret m')))))"

definition handoff_event :: "dict \<Rightarrow> string \<Rightarrow> string \<Rightarrow> event res" where
  "handoff_event control kind actor =
     rbind (dindex control ''id'') (\<lambda>i. rbind (dindex control ''ts'') (\<lambda>ts. rbind (as_str ts) (\<lambda>ts.
     Inr \<lparr>e_id = py_str i @ ''-'' @ kind, e_task = ''*'', e_type = kind, e_actor = actor,
          e_payload = obj [(''handoff'', JObj control)], e_ts = ts\<rparr>)))"

definition publish :: "env \<Rightarrow> dict \<Rightarrow> dict \<Rightarrow> string \<Rightarrow> string \<Rightarrow> ('z farm_scheme, dict) cmd" where
  "publish E m control kind actor =
     bnd (pure (handoff_event control kind actor)) (\<lambda>ev.
     bnd (asks log_ids) (\<lambda>_.
     seq (write_deployment (dput m [(''handoff'', JObj control), (''pending_event'', JObj (event_to_dict ev))]))
     (finish_deployment_event E False)))"

definition handoff_status :: "'z farm_scheme \<Rightarrow> dict res" where
  "handoff_status s = rbind (deployment s) (\<lambda>m.
     Inr (obj [(''handoff'', dget m ''handoff''), (''audit_pending'', JBool (truthy (dget m ''pending_event''))),
       (''leased_tasks'', JList (map (\<lambda>t. JStr (t_id t)) (filter (\<lambda>t. t_lease t \<noteq> None) (store_list s))))]))"

subsection \<open>Drain\<close>

definition drain_farm :: "env \<Rightarrow> string \<Rightarrow> string \<Rightarrow> string \<Rightarrow> ('z farm_scheme, dict) cmd" where
  "drain_farm E rid target actor =
     seq (guard (fullmatch request_id_rx rid \<and> strip actor \<noteq> [])
            (StoreError ''handoff requires a short stable ID and nonempty actor''))
     (bnd (asks require_no_pending_recovery) (\<lambda>_.
     (bnd (finish_deployment_event E False) (\<lambda>m.
      seq (guard (same_build E [''host'', ''source_sha256'', ''protocol_version''] m)
             (StoreError ''drain requires the current deployment host and exact build''))
     (seq (guard (strip target \<noteq> [] \<and> JStr target \<noteq> dget (env_identity E) ''host'')
             (StoreError ''provide the exact, different destination hostname; master-only turnover needs no drain''))
     (let prior = handoff_of m in
      if truthy (dget m ''handoff'') \<and> phase_of m \<noteq> JStr ''claimed'' then
        bnd (pure (if dget prior ''id'' \<noteq> JStr rid then Inr False
                   else rbind (dindex prior ''target_host'') (\<lambda>h. Inr (h = JStr target)))) (\<lambda>same.
        seq (guard same (StoreConflict ''handoff already pending; reuse its ID and target''))
        (ret prior))
      else
        bnd (asks log_ids) (\<lambda>ids.
        seq (guard (rid @ ''-FARM_DRAINED'' \<notin> ids) (StoreConflict ''handoff ID already used''))
        (seq recover_locked
        (bnd (now_iso E) (\<lambda>ts.
         let control = obj [(''id'', JStr rid), (''phase'', JStr ''draining''), (''target_host'', JStr target),
                            (''from_host'', dget (env_identity E) ''host''), (''actor'', JStr actor), (''ts'', JStr ts)]
         in bnd (publish E m control ''FARM_DRAINED'' actor) (\<lambda>_. ret control)))))))))))"

subsection \<open>Release\<close>

text \<open>\<open>t.lease or t.state is RUNNING or (t.state is WAITING and not clean_surrender(t))\<close>\<close>

definition unreleased :: "task \<Rightarrow> bool" where
  "unreleased t \<longleftrightarrow> t_lease t \<noteq> None \<or> t_state t = RUNNING \<or> (t_state t = WAITING \<and> \<not> clean_surrender t)"

text \<open>The workers dispatched in this epoch, as recorded in the tasks.\<close>

definition issued_in :: "json \<Rightarrow> task \<Rightarrow> string list res" where
  "issued_in epoch t = rbind (as_obj (meta_or t ''dispatches'' (JObj fmempty))) (\<lambda>d.
     if dget d ''epoch'' \<noteq> epoch then Inr []
     else rbind (dindex d ''workers'') (\<lambda>ws. rbind (as_list ws) (rmap as_str)))"

definition issued_workers :: "json \<Rightarrow> task list \<Rightarrow> string list res" where
  "issued_workers epoch ts = rbind (rmap (issued_in epoch) ts) (\<lambda>wss. Inr (sorted_list_of_set (set (concat wss))))"

fun poll_uncertain :: "'x executor \<Rightarrow> string list \<Rightarrow> ('x world, string list) cmd" where
  "poll_uncertain X [] = ret []"
| "poll_uncertain X (w # ws) = bnd (exec_call (\<lambda>ts. ex_poll X ts w)) (\<lambda>obs.
     bnd (poll_uncertain X ws) (\<lambda>us. ret (if o_alive obs \<noteq> Some False then w # us else us)))"

definition archive_path :: "env \<Rightarrow> string \<Rightarrow> string \<Rightarrow> string" where
  "archive_path E root rid = env_resolve E (root @ ''/runtime/handoffs/'' @ rid @ ''.json'')"

definition sealed_proof :: "env \<Rightarrow> string \<Rightarrow> dict \<Rightarrow> task list \<Rightarrow> string list \<Rightarrow> dict" where
  "sealed_proof E root m ts ws = obj [(''root'', JStr (env_resolve E root)), (''deployment'', JObj m),
     (''tasks'', JList (map (\<lambda>t. JObj (task_to_dict t)) ts)), (''quiesced_workers'', JList (map JStr ws))]"

definition release_farm :: "env \<Rightarrow> 'x executor \<Rightarrow> string \<Rightarrow> string \<Rightarrow> ('x world, dict) cmd" where
  "release_farm E X rid actor =
     seq (guard (strip actor \<noteq> []) (StoreError ''release requires a nonempty actor''))
     (bnd (asks require_no_pending_recovery) (\<lambda>_.
     (bnd (finish_deployment_event E False) (\<lambda>m.
      seq (guard (same_build E [''host'', ''source_sha256'', ''protocol_version''] m)
             (StoreError ''release must run on the draining deployment host/build''))
     (let control = handoff_of m in
      seq (guard (dget control ''kind'' \<noteq> JStr ''stop'')
             (StoreError ''this farm is being stopped (farm stop --drain), not handed off; nothing to release''))
     (seq (guard (dget control ''id'' = JStr rid \<and>
                  (dget control ''phase'' = JStr ''draining'' \<or> dget control ''phase'' = JStr ''released''))
             (StoreConflict ''no matching drain to release''))
     (if dget control ''phase'' = JStr ''released'' then ret control
      else
        seq recover_locked
        (bnd (gets store_list) (\<lambda>ts.
         seq (guard (\<not> list_ex unreleased ts)
                (StoreError ''release requires all leases cleanly surrendered and no unidentified WAITING task''))
        (bnd (pure (issued_workers (execution_epoch m) ts)) (\<lambda>ws.
         bnd (poll_uncertain X ws) (\<lambda>uncertain.
         seq (guard (uncertain = []) (StoreError ''release withheld: live/UNKNOWN issued workers or queued dispatches''))
        (bnd (gets f_root) (\<lambda>root.
         let proof = sealed_proof E root m ts ws;
             sealed = dput control [(''phase'', JStr ''released''), (''archive'', JStr (archive_path E root rid)),
                        (''archive_sha256'', JStr (env_json_sha E proof))]
         in seq (modify (\<lambda>s. s\<lparr>f_handoffs := fmupd rid proof (f_handoffs s)\<rparr>))
            (bnd (publish E m sealed ''FARM_RELEASED'' actor) (\<lambda>_. ret sealed))))))))))))))))"

subsection \<open>Claim\<close>

text \<open>The sealed archive must be the recorded one, of this root and of exactly the tasks on disk, and
  no task commit may be pending.\<close>

definition check_archive :: "env \<Rightarrow> string \<Rightarrow> dict \<Rightarrow> 'z farm_scheme \<Rightarrow> unit res" where
  "check_archive E rid control s =
     (case fmlookup (f_handoffs s) rid of
        None \<Rightarrow> Inl (OSError ''no such file'')
      | Some proof \<Rightarrow>
          let changed = Inl (StoreConflict ''sealed tasks/root/checkpoints changed; preserve handoff and inspect'') in
          if JStr (env_json_sha E proof) \<noteq> dget control ''archive_sha256'' then changed
          else rbind (dindex proof ''root'') (\<lambda>root.
            if root \<noteq> JStr (env_resolve E (f_root s)) then changed
            else rbind (dindex proof ''tasks'') (\<lambda>tasks.
              if tasks \<noteq> JList (map (\<lambda>t. JObj (task_to_dict t)) (store_list s)) \<or> f_journal s \<noteq> None then changed
              else Inr ())))"

definition claim_farm :: "env \<Rightarrow> string \<Rightarrow> string \<Rightarrow> ('z farm_scheme, dict) cmd" where
  "claim_farm E rid actor =
     seq (guard (strip actor \<noteq> []) (StoreError ''claim requires a nonempty actor''))
     (bnd (asks require_no_pending_recovery) (\<lambda>_.
     (bnd (asks deployment) (\<lambda>m0.
     (let control = handoff_of m0 in
      seq (guard (dget control ''kind'' \<noteq> JStr ''stop'')
             (StoreError ''a stopped farm is not claimable; start a new farm (D5) or restart the same release''))
     (seq (guard (dget control ''id'' = JStr rid \<and> dget control ''target_host'' = dget (env_identity E) ''host'' \<and>
                  same_build E [''source_sha256'', ''protocol_version''] m0)
             (StoreConflict ''claim requires the exact handoff, target host and unchanged build/protocol''))
     (seq (guard (dget control ''phase'' = JStr ''released'' \<or> dget control ''phase'' = JStr ''claimed'')
             (StoreError ''old plane has not sealed a clean release; unavailable is not dead''))
     (bnd (finish_deployment_event E True) (\<lambda>m.
      if dget control ''phase'' = JStr ''claimed'' then ret control
      else
        bnd (asks (check_archive E rid control)) (\<lambda>_.
        let claimed = dput control [(''phase'', JStr ''claimed''), (''claimed_by'', JStr actor)];
            m' = dput (m ++\<^sub>f env_identity E) [(''pid'', JNull), (''pid_namespace'', JNull), (''started_at'', JNull),
                   (''loop'', JBool False), (''execution_epoch'', JStr rid), (''scheduler_attestation'', JNull),
                   (''writer_policy'', JStr ''pinned-host'')]
        in bnd (publish E m' claimed ''FARM_CLAIMED'' actor) (\<lambda>_. ret claimed)))))))))))"

subsection \<open>Publishing\<close>

text \<open>What publishing and finishing an event leave alone.\<close>

definition control_frame :: "'z farm_scheme \<Rightarrow> 'z farm_scheme \<Rightarrow> bool" where
  "control_frame s s' \<longleftrightarrow> f_tasks s' = f_tasks s \<and> f_journal s' = f_journal s \<and> f_workers s' = f_workers s \<and>
     f_root s' = f_root s \<and> f_recovery s' = f_recovery s \<and> f_log_damaged s' = f_log_damaged s \<and>
     f_handoffs s' = f_handoffs s \<and> f_recoveries s' = f_recoveries s \<and> farm.more s' = farm.more s"

lemma control_frame_refl [simp]: "control_frame s s"
  by (simp add: control_frame_def)

lemma control_frame_upd [simp]:
  "control_frame s (u\<lparr>f_log := l\<rparr>) = control_frame s u"
  "control_frame s (u\<lparr>f_deploy := d\<rparr>) = control_frame s u"
  "control_frame s (u\<lparr>f_n := n\<rparr>) = control_frame s u"
  by (simp_all add: control_frame_def)

lemma log_once_run_Inr [run_Inr]:
  "log_once e s = (Inr (), s') \<longleftrightarrow> \<not> f_log_damaged s \<and>
     s' = s\<lparr>f_log := (if e_id e \<in> e_id ` set (f_log s) then f_log s else f_log s @ [e])\<rparr>"
  by (cases "f_log_damaged s"; cases "e_id e \<in> e_id ` set (f_log s)")
    (simp_all add: log_once_def log_append_def log_sync_def cmd_defs log_ids_def eq_commute)

lemma deployment_drop:
  assumes "deployment s = Inr m" and "f_deploy s' = Some (JObj (fmdrop ''pending_event'' m))"
  shows "deployment s' = Inr (fmdrop ''pending_event'' m)"
  using assms by (auto simp: deployment_def rbind_Inr_iff split: option.splits json.splits)

text \<open>Finishing leaves a record without a pending event; the event is then in the log.\<close>

lemma finish_cases:
  assumes "finish_deployment_event E c s = (Inr m, s')"
  obtains (idle) "deployment s = Inr m" "\<not> truthy (dget m ''pending_event'')" "s' = s"
  | (pending) m0 ev where "deployment s = Inr m0" "truthy (dget m0 ''pending_event'')"
      "event_from_dict (dget m0 ''pending_event'') = Inr ev" "m = fmdrop ''pending_event'' m0"
      "\<not> f_log_damaged s"
      "s' = s\<lparr>f_log := (if e_id ev \<in> e_id ` set (f_log s) then f_log s else f_log s @ [ev]),
              f_deploy := Some (JObj m)\<rparr>"
proof -
  from assms obtain m0 where m0: "deployment s = Inr m0"
    by (auto simp: finish_deployment_event_def bnd_run_Inr basic_run_Inr)
  show thesis
  proof (cases "truthy (dget m0 ''pending_event'')")
    case False
    then show thesis using assms m0 idle by (simp add: finish_deployment_event_def run_Inr)
  next
    case True
    from assms True obtain ev where "event_from_dict (dget m0 ''pending_event'') = Inr ev"
      "m = fmdrop ''pending_event'' m0" "\<not> f_log_damaged s"
      "s' = s\<lparr>f_log := (if e_id ev \<in> e_id ` set (f_log s) then f_log s else f_log s @ [ev]),
              f_deploy := Some (JObj m)\<rparr>"
      unfolding finish_deployment_event_def write_deployment_def Let_def
      by (simp only: run_Inr m0 if_True if_False simp_thms) (auto simp: run_Inr)
    then show thesis using pending m0 True by blast
  qed
qed

lemma finish_spec:
  assumes "finish_deployment_event E c s = (Inr m, s')"
  shows "deployment s' = Inr m \<and> \<not> truthy (dget m ''pending_event'') \<and> control_frame s s' \<and>
    (\<forall>m0. deployment s = Inr m0 \<longrightarrow> handoff_of m = handoff_of m0 \<and>
      m = (if truthy (dget m0 ''pending_event'') then fmdrop ''pending_event'' m0 else m0))"
  using assms
proof (cases rule: finish_cases)
  case idle
  then show ?thesis by simp
next
  case (pending m1 ev)
  have "f_deploy s' = Some (JObj (fmdrop ''pending_event'' m1))" using pending(4,6) by simp
  then have "deployment s' = Inr m" using deployment_drop [OF pending(1)] pending(4) by simp
  then show ?thesis using pending(1,2,4,6) by (simp add: handoff_of_def)
qed

lemma finish_run_Inr:
  assumes "finish_deployment_event E c s = (Inr m, s')"
  shows "deployment s' = Inr m" and "\<not> truthy (dget m ''pending_event'')" and "control_frame s s'"
    and "deployment s = Inr m0 \<Longrightarrow> handoff_of m = handoff_of m0"
    and "deployment s = Inr m0 \<Longrightarrow>
      m = (if truthy (dget m0 ''pending_event'') then fmdrop ''pending_event'' m0 else m0)"
  using finish_spec [OF assms] by blast+

lemma finish_logs:
  assumes "finish_deployment_event E c s = (Inr m, s')" and "deployment s = Inr m0"
    and "dget m0 ''pending_event'' = JObj (event_to_dict ev)" and "event_to_dict ev \<noteq> fmempty"
  shows "e_id ev \<in> e_id ` set (f_log s')"
  using assms(1) by (cases rule: finish_cases) (use assms(2-4) in auto)

lemma event_to_dict_nonempty [simp]: "event_to_dict ev \<noteq> fmempty"
proof
  assume "event_to_dict ev = fmempty"
  then have "dget (event_to_dict ev) ''id'' = dget fmempty ''id''" by simp
  then show False by (simp add: event_to_dict_def)
qed

lemma publish_obtain:
  assumes "publish E m control kind actor s = (Inr m', s')"
  obtains ev u where "handoff_event control kind actor = Inr ev" "\<not> f_log_damaged s"
    "u = s\<lparr>f_deploy := Some (JObj (dput m [(''handoff'', JObj control), (''pending_event'', JObj (event_to_dict ev))]))\<rparr>"
    "deployment u = Inr (dput m [(''handoff'', JObj control), (''pending_event'', JObj (event_to_dict ev))])"
    "finish_deployment_event E False u = (Inr m', s')"
proof -
  from assms obtain ev u where *: "handoff_event control kind actor = Inr ev" "\<not> f_log_damaged s"
    "u = s\<lparr>f_deploy := Some (JObj (dput m [(''handoff'', JObj control), (''pending_event'', JObj (event_to_dict ev))]))\<rparr>"
    "finish_deployment_event E False u = (Inr m', s')"
    unfolding publish_def write_deployment_def by (auto simp: run_Inr)
  then obtain m0 where "deployment u = Inr m0"
    by (auto simp: finish_deployment_event_def bnd_run_Inr basic_run_Inr)
  with * have "deployment u = Inr (dput m [(''handoff'', JObj control), (''pending_event'', JObj (event_to_dict ev))])"
    by (auto simp: deployment_def rbind_Inr_iff)
  with * that show thesis by blast
qed

lemma publish_run_Inr:
  assumes "publish E m control kind actor s = (Inr m', s')"
  shows "deployment s' = Inr m'" and "\<not> truthy (dget m' ''pending_event'')" and "control_frame s s'"
    and "handoff_of m' = control" and "\<exists>ev\<in>set (f_log s'). e_id ev = py_str (dget control ''id'') @ ''-'' @ kind"
    and "k \<noteq> ''handoff'' \<Longrightarrow> k \<noteq> ''pending_event'' \<Longrightarrow> dget m' k = dget m k"
proof -
  from assms obtain ev u where ev: "handoff_event control kind actor = Inr ev"
    and u: "u = s\<lparr>f_deploy := Some (JObj (dput m [(''handoff'', JObj control), (''pending_event'', JObj (event_to_dict ev))]))\<rparr>"
    and dep: "deployment u = Inr (dput m [(''handoff'', JObj control), (''pending_event'', JObj (event_to_dict ev))])"
    and fin: "finish_deployment_event E False u = (Inr m', s')"
    by (rule publish_obtain)
  show "deployment s' = Inr m'" "\<not> truthy (dget m' ''pending_event'')"
    using finish_run_Inr [OF fin] by simp_all
  show "control_frame s s'" using finish_run_Inr(3) [OF fin] by (simp add: control_frame_def u)
  show "handoff_of m' = control"
    using finish_run_Inr(4) [OF fin dep] by (simp add: handoff_of_def)
  have m': "m' = fmdrop ''pending_event'' (dput m [(''handoff'', JObj control), (''pending_event'', JObj (event_to_dict ev))])"
    using finish_run_Inr(5) [OF fin dep] by simp
  show "k \<noteq> ''handoff'' \<Longrightarrow> k \<noteq> ''pending_event'' \<Longrightarrow> dget m' k = dget m k" using m' by simp
  have "e_id ev \<in> e_id ` set (f_log s')" by (rule finish_logs [OF fin dep]) simp_all
  moreover have "e_id ev = py_str (dget control ''id'') @ ''-'' @ kind"
    using ev by (auto simp: handoff_event_def rbind_Inr_iff dindex_def dget_def split: option.splits)
  ultimately show "\<exists>ev\<in>set (f_log s'). e_id ev = py_str (dget control ''id'') @ ''-'' @ kind" by auto
qed

subsection \<open>What a release and a claim guarantee\<close>

lemma frame_store_list [simp]:
  "store_list (s\<lparr>w_exec := x\<rparr>) = store_list s" "store_list (s\<lparr>f_handoffs := h\<rparr>) = store_list s"
  "store_list (s\<lparr>f_n := n\<rparr>) = store_list s"
  by (simp_all add: store_list_def)

lemma control_frame_store_list: "control_frame s s' \<Longrightarrow> store_list s' = store_list s"
  by (simp add: control_frame_def store_list_def)

lemma poll_uncertain_run:
  "poll_uncertain X ws s = (Inr us, s') \<Longrightarrow> (\<exists>x. s' = s\<lparr>w_exec := x\<rparr>) \<and>
     (us = [] \<longrightarrow> (\<forall>w\<in>set ws. \<exists>x x' obs. ex_poll X (store_list s) w x = (Inr obs, x') \<and> o_alive obs = Some False))"
proof (induction ws arbitrary: s us s')
  case Nil
  then show ?case by (auto simp: run_Inr intro: exI [of _ "w_exec s"])
next
  case (Cons w ws)
  then obtain obs x' us' where poll: "ex_poll X (store_list s) w (w_exec s) = (Inr obs, x')"
    and rest: "poll_uncertain X ws (s\<lparr>w_exec := x'\<rparr>) = (Inr us', s')"
    and us: "us = (if o_alive obs \<noteq> Some False then w # us' else us')"
    by (auto simp: run_Inr)
  from Cons.IH [OF rest] poll us show ?case
    by (auto split: if_splits)
qed

lemma recover_locked_frame:
  assumes "recover_locked s = (r, s')"
  shows "f_deploy s' = f_deploy s" "f_handoffs s' = f_handoffs s" "f_root s' = f_root s" "f_recovery s' = f_recovery s"
proof -
  have "s' = s \<or> s' = recovered s" using assms by (rule recover_locked_outcome)
  moreover have "same_rest s (recovered s)" by simp
  ultimately show "f_deploy s' = f_deploy s" "f_handoffs s' = f_handoffs s" "f_root s' = f_root s" "f_recovery s' = f_recovery s"
    by (auto simp: same_rest_def)
qed

text \<open>The steps of a release from a drain, made explicit.\<close>

lemma release_obtain:
  assumes run: "release_farm E X rid actor s = (Inr sealed, s')"
    and m0: "deployment s = Inr m0" and draining: "phase_of m0 = JStr ''draining''"
  obtains m s1 ws s2 m' where
    "store_list s1 = store_list s2" "\<not> list_ex unreleased (store_list s1)"
    "issued_workers (execution_epoch m) (store_list s1) = Inr ws"
    "execution_epoch m = execution_epoch m0"
    "poll_uncertain X ws s1 = (Inr [], s2)"
    "sealed = dput (handoff_of m0) [(''phase'', JStr ''released''),
       (''archive'', JStr (archive_path E (f_root s2) rid)),
       (''archive_sha256'', JStr (env_json_sha E (sealed_proof E (f_root s2) m (store_list s1) ws)))]"
    "publish E m sealed ''FARM_RELEASED'' actor
       (s2\<lparr>f_handoffs := fmupd rid (sealed_proof E (f_root s2) m (store_list s1) ws) (f_handoffs s2)\<rparr>) = (Inr m', s')"
proof -
  from run obtain m u where fin: "finish_deployment_event E False s = (Inr m, u)"
    by (auto simp: release_farm_def run_Inr)
  have m: "handoff_of m = handoff_of m0" "execution_epoch m = execution_epoch m0"
    using finish_run_Inr(4,5) [OF fin m0] by (simp_all add: execution_epoch_def)
  then have ph: "dget (handoff_of m) ''phase'' = JStr ''draining''" using draining by (simp add: phase_of_def)
  from run fin ph obtain s1 ws s2 m' where
    s1: "recover_locked u = (Inr (), s1)" "\<not> list_ex unreleased (store_list s1)"
      "issued_workers (execution_epoch m) (store_list s1) = Inr ws"
    and s2: "poll_uncertain X ws s1 = (Inr [], s2)"
    and sealed: "sealed = dput (handoff_of m) [(''phase'', JStr ''released''),
       (''archive'', JStr (archive_path E (f_root s2) rid)),
       (''archive_sha256'', JStr (env_json_sha E (sealed_proof E (f_root s2) m (store_list s1) ws)))]"
    and pub: "publish E m sealed ''FARM_RELEASED'' actor
       (s2\<lparr>f_handoffs := fmupd rid (sealed_proof E (f_root s2) m (store_list s1) ws) (f_handoffs s2)\<rparr>) = (Inr m', s')"
    unfolding release_farm_def Let_def by (auto simp: run_Inr)
  have lists: "store_list s1 = store_list s2" using poll_uncertain_run [OF s2] by auto
  show thesis
    by (rule that [OF lists s1(2,3) m(2) s2 sealed [unfolded m(1)] pub])
qed

text \<open>C9: a release seals only a quiescent farm. When it turns a drain into a release, no task on disk
  holds a lease or runs, every waiting task has surrendered with a checkpoint, every worker
  dispatched in this epoch has been polled positively dead, the archive the record points to by
  digest holds exactly these tasks, and from then on every task writer, on any host, is refused.\<close>

theorem release_seals_quiescent_farm:
  assumes "release_farm E X rid actor s = (Inr sealed, s')"
    and "deployment s = Inr m0" and "phase_of m0 = JStr ''draining''"
  shows "(\<forall>t\<in>set (store_list s'). t_lease t = None \<and> t_state t \<noteq> RUNNING \<and> (t_state t = WAITING \<longrightarrow> clean_surrender t)) \<and>
    (\<exists>ws. issued_workers (execution_epoch m0) (store_list s') = Inr ws \<and>
       (\<forall>w\<in>set ws. \<exists>x x' obs. ex_poll X (store_list s') w x = (Inr obs, x') \<and> o_alive obs = Some False) \<and>
       (\<exists>m. fmlookup (f_handoffs s') rid = Some (sealed_proof E (f_root s') m (store_list s') ws) \<and>
            dget sealed ''archive_sha256'' = JStr (env_json_sha E (sealed_proof E (f_root s') m (store_list s') ws)))) \<and>
    (\<forall>E' dispatch epoch up. \<exists>e. require_task_writer E' dispatch epoch up s' = Inl e)"
  using assms
proof (rule release_obtain)
  fix m s1 ws s2 m'
  assume lists: "store_list s1 = store_list s2" and quiet: "\<not> list_ex unreleased (store_list s1)"
    and ws: "issued_workers (execution_epoch m) (store_list s1) = Inr ws" "execution_epoch m = execution_epoch m0"
    and polled: "poll_uncertain X ws s1 = (Inr [], s2)"
    and sealed: "sealed = dput (handoff_of m0) [(''phase'', JStr ''released''),
       (''archive'', JStr (archive_path E (f_root s2) rid)),
       (''archive_sha256'', JStr (env_json_sha E (sealed_proof E (f_root s2) m (store_list s1) ws)))]"
    and pub: "publish E m sealed ''FARM_RELEASED'' actor
       (s2\<lparr>f_handoffs := fmupd rid (sealed_proof E (f_root s2) m (store_list s1) ws) (f_handoffs s2)\<rparr>) = (Inr m', s')"
  have frame: "store_list s' = store_list s1" "f_root s' = f_root s2"
    "fmlookup (f_handoffs s') rid = Some (sealed_proof E (f_root s2) m (store_list s1) ws)"
    using publish_run_Inr(3) [OF pub] lists by (simp_all add: control_frame_def store_list_def)
  have "phase_of m' = JStr ''released''"
    using publish_run_Inr(4) [OF pub] by (simp add: phase_of_def sealed)
  then have refused: "\<exists>e. require_task_writer E' dispatch epoch up s' = Inl e" for E' dispatch epoch up
    using publish_run_Inr(1) [OF pub] by (intro writer_refused) auto
  have dead: "\<forall>w\<in>set ws. \<exists>x x' obs. ex_poll X (store_list s') w x = (Inr obs, x') \<and> o_alive obs = Some False"
    using poll_uncertain_run [OF polled] frame(1) by simp
  have arch: "dget sealed ''archive_sha256'' = JStr (env_json_sha E (sealed_proof E (f_root s') m (store_list s') ws))"
    by (simp add: sealed frame)
  have tasks: "\<forall>t\<in>set (store_list s'). t_lease t = None \<and> t_state t \<noteq> RUNNING \<and> (t_state t = WAITING \<longrightarrow> clean_surrender t)"
    using quiet by (auto simp: frame(1) list_ex_iff unreleased_def)
  show ?thesis
    using tasks ws dead arch frame refused by (intro conjI exI [of _ ws] exI [of _ m]) auto
qed

lemma check_archive_Inr:
  "check_archive E rid control s = Inr () \<longleftrightarrow> (\<exists>proof. fmlookup (f_handoffs s) rid = Some proof \<and>
     dget control ''archive_sha256'' = JStr (env_json_sha E proof) \<and>
     dindex proof ''root'' = Inr (JStr (env_resolve E (f_root s))) \<and>
     dindex proof ''tasks'' = Inr (JList (map (\<lambda>t. JObj (task_to_dict t)) (store_list s))) \<and>
     f_journal s = None)"
  by (auto simp: check_archive_def Let_def rbind_Inr_iff split: option.splits if_splits)

lemma map_task_to_dict_inject:
  "map (\<lambda>t. JObj (task_to_dict t)) xs = map (\<lambda>t. JObj (task_to_dict t)) ys \<longleftrightarrow> xs = ys"
  by (rule inj_map_eq_map) (auto simp: inj_def)

lemma claim_obtain:
  assumes run: "claim_farm E rid actor s = (Inr c, s')"
    and m0: "deployment s = Inr m0" and sealed: "phase_of m0 = JStr ''released''"
  obtains m u m' where "finish_deployment_event E True s = (Inr m, u)"
    "check_archive E rid (handoff_of m0) u = Inr ()"
    "dget (handoff_of m0) ''target_host'' = dget (env_identity E) ''host''"
    "dget (handoff_of m0) ''id'' = JStr rid"
    "c = dput (handoff_of m0) [(''phase'', JStr ''claimed''), (''claimed_by'', JStr actor)]"
    "publish E (dput (m ++\<^sub>f env_identity E) [(''pid'', JNull), (''pid_namespace'', JNull), (''started_at'', JNull),
       (''loop'', JBool False), (''execution_epoch'', JStr rid), (''scheduler_attestation'', JNull),
       (''writer_policy'', JStr ''pinned-host'')]) c ''FARM_CLAIMED'' actor u = (Inr m', s')"
proof -
  have ph: "dget (handoff_of m0) ''phase'' = JStr ''released''" using sealed by (simp add: phase_of_def)
  from run m0 ph obtain m u m' where *: "finish_deployment_event E True s = (Inr m, u)"
    "check_archive E rid (handoff_of m0) u = Inr ()"
    "dget (handoff_of m0) ''target_host'' = dget (env_identity E) ''host''"
    "dget (handoff_of m0) ''id'' = JStr rid"
    "c = dput (handoff_of m0) [(''phase'', JStr ''claimed''), (''claimed_by'', JStr actor)]"
    "publish E (dput (m ++\<^sub>f env_identity E) [(''pid'', JNull), (''pid_namespace'', JNull), (''started_at'', JNull),
       (''loop'', JBool False), (''execution_epoch'', JStr rid), (''scheduler_attestation'', JNull),
       (''writer_policy'', JStr ''pinned-host'')]) c ''FARM_CLAIMED'' actor u = (Inr m', s')"
    unfolding claim_farm_def Let_def by (auto simp: run_Inr)
  show thesis by (rule that [OF *])
qed

text \<open>C10: a claim takes over exactly what was released. It succeeds on a sealed farm only on the recorded
  target host, when the archive of that handoff still has the recorded digest, names this root
  and lists exactly the tasks on disk, and no task commit is pending; it changes no task. After
  it the execution epoch is the handoff's id, and every task writer on another host, as well as
  a reconciler still bound to another epoch, is refused.\<close>

theorem claim_takes_over:
  assumes "claim_farm E rid actor s = (Inr c, s')"
    and "deployment s = Inr m0" and "phase_of m0 = JStr ''released''"
    and "fmlookup (env_identity E) ''host'' = Some host"
  shows "dget (handoff_of m0) ''target_host'' = host \<and> f_tasks s' = f_tasks s \<and> f_journal s' = None \<and>
    (\<exists>proof. fmlookup (f_handoffs s') rid = Some proof \<and>
       dget (handoff_of m0) ''archive_sha256'' = JStr (env_json_sha E proof) \<and>
       dget proof ''tasks'' = JList (map (\<lambda>t. JObj (task_to_dict t)) (store_list s'))) \<and>
    (\<exists>m'. deployment s' = Inr m' \<and> handoff_of m' = c \<and> execution_epoch m' = JStr rid \<and> dget m' ''host'' = host) \<and>
    (\<forall>E' dispatch epoch up. dget (env_identity E') ''host'' \<noteq> host \<or> (epoch \<noteq> None \<and> epoch \<noteq> Some (JStr rid)) \<longrightarrow>
       (\<exists>e. require_task_writer E' dispatch epoch up s' = Inl e))"
  using assms(1-3)
proof (rule claim_obtain)
  fix m u m'
  let ?m = "dput (m ++\<^sub>f env_identity E) [(''pid'', JNull), (''pid_namespace'', JNull), (''started_at'', JNull),
       (''loop'', JBool False), (''execution_epoch'', JStr rid), (''scheduler_attestation'', JNull),
       (''writer_policy'', JStr ''pinned-host'')]"
  assume fin: "finish_deployment_event E True s = (Inr m, u)"
    and arch: "check_archive E rid (handoff_of m0) u = Inr ()"
    and target: "dget (handoff_of m0) ''target_host'' = dget (env_identity E) ''host''"
    and c: "c = dput (handoff_of m0) [(''phase'', JStr ''claimed''), (''claimed_by'', JStr actor)]"
    and rid: "dget (handoff_of m0) ''id'' = JStr rid"
    and pub: "publish E ?m c ''FARM_CLAIMED'' actor u = (Inr m', s')"
  have u: "f_tasks u = f_tasks s" "f_journal u = f_journal s"
    using finish_run_Inr(3) [OF fin] by (simp_all add: control_frame_def)
  have s': "f_tasks s' = f_tasks u" "f_journal s' = f_journal u" "f_handoffs s' = f_handoffs u"
      "store_list s' = store_list u"
    using publish_run_Inr(3) [OF pub] by (simp_all add: control_frame_def control_frame_store_list store_list_def)
  have host: "dget (env_identity E) ''host'' = host" using assms(4) by (simp add: dget_def)
  have m': "deployment s' = Inr m'" "handoff_of m' = c" "dget m' ''host'' = host"
    using publish_run_Inr(1,4) [OF pub] publish_run_Inr(6) [OF pub, of "''host''"] assms(4) by simp_all
  have ep: "dget m' ''execution_epoch'' = JStr rid"
    using publish_run_Inr(6) [OF pub, of "''execution_epoch''"] by simp
  have "dget (handoff_of m') ''phase'' = JStr ''claimed''" by (simp add: m'(2) c)
  then have "handoff_of m' \<noteq> fmempty" by auto
  then have handoff: "truthy (dget m' ''handoff'')"
    by (auto simp: handoff_of_def dget_def split: option.splits json.splits)
  have rid_ne: "rid \<noteq> []"
  proof
    assume "rid = []"
    then have "py_str (dget c ''id'') = []" using rid by (simp add: c)
    moreover have "valid_control (JObj c)"
      using m' handoff by (auto simp: deployment_def handoff_of_def rbind_Inr_iff dget_def valid_control_def
          split: option.splits json.splits)
    then have "fullmatch request_id_rx (py_str (dget_or c ''id'' (JStr [])))" by (simp add: valid_control_def)
    moreover have "dget_or c ''id'' (JStr []) = dget c ''id''" using rid \<open>rid = []\<close>
      by (auto simp: c dget_or_def dget_def split: option.splits)
    moreover have "\<not> fullmatch request_id_rx []" unfolding request_id_chars by simp
    ultimately show False by metis
  qed
  then have epoch: "execution_epoch m' = JStr rid" using ep by (simp add: execution_epoch_def jor_def)
  have refused: "\<exists>e. require_task_writer E' dispatch epoch up s' = Inl e"
    if "dget (env_identity E') ''host'' \<noteq> host \<or> (epoch \<noteq> None \<and> epoch \<noteq> Some (JStr rid))"
    for E' dispatch epoch up
  proof (cases "require_task_writer E' dispatch epoch up s'")
    case (Inr m2)
    note w = require_task_writer_Inr [OF Inr]
    have "m2 = m'" using w(2) m'(1) by simp
    then have "dget (env_identity E') ''host'' = host" using w(7) handoff m'(3) by simp
    moreover have "epoch = None \<or> epoch = Some (JStr rid)"
      using w(6) \<open>m2 = m'\<close> \<open>execution_epoch m' = JStr rid\<close> by (cases epoch) auto
    ultimately show ?thesis using that by blast
  qed simp
  obtain pf where "fmlookup (f_handoffs u) rid = Some pf"
      "dget (handoff_of m0) ''archive_sha256'' = JStr (env_json_sha E pf)"
      "dindex pf ''tasks'' = Inr (JList (map (\<lambda>t. JObj (task_to_dict t)) (store_list u)))" "f_journal u = None"
    using arch by (auto simp: check_archive_Inr)
  then have arch': "\<exists>pf. fmlookup (f_handoffs s') rid = Some pf \<and>
       dget (handoff_of m0) ''archive_sha256'' = JStr (env_json_sha E pf) \<and>
       dget pf ''tasks'' = JList (map (\<lambda>t. JObj (task_to_dict t)) (store_list s'))"
    and j: "f_journal u = None"
    using s' by (simp_all add: dindex_def dget_def split: option.splits)
  show ?thesis
    using target host u s' m' epoch refused arch' j by simp
qed

subsection \<open>The task files are never at risk\<close>

lemma keeps_write_deployment [keeps_rules]: "keeps (sound E) (write_deployment m)"
  unfolding write_deployment_def by (rule keeps_sound_modify) simp

lemma keeps_finish_deployment_event [keeps_rules]: "keeps (sound E) (finish_deployment_event E' c)"
  unfolding finish_deployment_event_def Let_def by (intro keeps_rules)

lemma keeps_publish [keeps_rules]: "keeps (sound E) (publish E' m control kind actor)"
  unfolding publish_def by (intro keeps_rules)

lemma keeps_poll_uncertain [keeps_rules]: "keeps (sound E) (poll_uncertain X ws)"
  by (induction ws) (auto intro!: keeps_rules)

lemma keeps_put_proof [keeps_rules]: "keeps (sound E) (modify (\<lambda>s. s\<lparr>f_handoffs := h s\<rparr>))"
  by (rule keeps_sound_modify) simp

lemma keeps_turnover [keeps_rules]:
  "keeps (sound E) (drain_farm E' rid target actor)"
  "keeps (sound E) (release_farm E' X rid actor)"
  "keeps (sound E) (claim_farm E' rid actor)"
  unfolding drain_farm_def release_farm_def claim_farm_def Let_def by (intro keeps_rules)+

end
