(* ===== verification/Reconciler.thy ===== *)
theory Reconciler
  imports Turnover
begin

text \<open>
  \<open>reconciler.py\<close>: the control loop. One pass recovers the store, lists the tasks and moves each of
  them at most one step, through the single commit boundary; an external effect is only ever the
  dispatch of a commit. The definitions follow the methods one by one.
\<close>

subsection \<open>Configuration and report\<close>

record report =
  rp_launched :: "string list"
  rp_adopted :: "string list"
  rp_advanced :: "(string \<times> string) list"
  rp_resumed :: "string list"
  rp_heartbeats :: "string list"
  rp_ignored_stale :: "json list"
  rp_waiting_grace :: "string list"
  rp_conflicts :: "string list"
  rp_preflight_failures :: "string list"
  rp_observation_errors :: "string list"
  rp_executor_errors :: "string list"

definition empty_report :: report where
  "empty_report = \<lparr>rp_launched = [], rp_adopted = [], rp_advanced = [], rp_resumed = [], rp_heartbeats = [],
     rp_ignored_stale = [], rp_waiting_grace = [], rp_conflicts = [], rp_preflight_failures = [],
     rp_observation_errors = [], rp_executor_errors = []\<rparr>"

text \<open>The report is written while a pass runs and survives an exception, so it is part of the state.\<close>

record 'x pass = "'x world" +
  p_report :: report

record 'x config =
  c_env :: env
  c_exec :: "'x executor"
  c_actor :: string
  c_unblock :: "('x pass \<Rightarrow> task \<Rightarrow> bool res) option"
  c_grace :: pyfloat
  c_max :: int
  c_epoch :: json

text \<open>\<open>Reconciler.__init__\<close>: the bounds are checked and the execution epoch is read once.\<close>

definition reconciler ::
    "env \<Rightarrow> 'x executor \<Rightarrow> string \<Rightarrow> ('x pass \<Rightarrow> task \<Rightarrow> bool res) option \<Rightarrow> pyfloat \<Rightarrow> int \<Rightarrow> 'x pass \<Rightarrow> 'x config res" where
  "reconciler E X actor ub grace mx s =
     rbind (ensure (case grace of Finite g \<Rightarrow> g \<ge> 0 | _ \<Rightarrow> False)
              (ValueError ''grace must be finite and nonnegative'')) (\<lambda>_.
     rbind (ensure (mx \<ge> 0) (ValueError ''max_auto_restarts must be a nonnegative integer'')) (\<lambda>_.
     rbind (deployment s) (\<lambda>m.
     Inr \<lparr>c_env = E, c_exec = X, c_actor = actor, c_unblock = ub, c_grace = grace, c_max = mx,
          c_epoch = execution_epoch m\<rparr>)))"

definition reporting :: "(report \<Rightarrow> report) \<Rightarrow> ('x pass, unit) cmd" where
  "reporting f = modify (\<lambda>s. s\<lparr>p_report := f (p_report s)\<rparr>)"

subsection \<open>Boundaries\<close>

definition rc_commit ::
    "'x config \<Rightarrow> task \<Rightarrow> string \<Rightarrow> dict \<Rightarrow> task \<Rightarrow> (task \<Rightarrow> ('x pass, unit) cmd) option \<Rightarrow> ('x pass, unit) cmd" where
  "rc_commit C t ev payload expected dispatch =
     bnd (now_iso (c_env C)) (\<lambda>ts.
     bnd (commit (c_env C) t (Some expected) ev (c_actor C) payload (Some ts) dispatch (Some (c_epoch C))) (\<lambda>_.
     ret ()))"

definition mint :: "'x config \<Rightarrow> string \<Rightarrow> ('x pass, lease) cmd" where
  "mint C i =
     bnd (fresh_uuid (c_env C)) (\<lambda>a.
     bnd (fresh_uuid (c_env C)) (\<lambda>b.
     ret \<lparr>l_worker = ''W-'' @ i @ ''-'' @ take 6 a, l_id = b, l_expiry = None\<rparr>))"

definition observe :: "'x config \<Rightarrow> string \<Rightarrow> string option \<Rightarrow> string \<Rightarrow> string \<Rightarrow> bool \<Rightarrow> ('x pass, unit) cmd" where
  "observe C wid h i lid alive =
     bnd (now_iso (c_env C)) (\<lambda>ts.
     put_observed \<lparr>w_id = wid, w_handle = h, w_heartbeat = Some ts,
       w_lease = Some (obj [(''task_id'', JStr i), (''lease_id'', JStr lid)]),
       w_state = (if alive then BUSY else DEAD)\<rparr>)"

definition withheld :: "'z farm_scheme \<Rightarrow> bool res" where
  "withheld s = rbind (deployment s) (\<lambda>m. Inr (phase_of m = JStr ''draining'' \<or> phase_of m = JStr ''released''))"

definition preflight :: "'x config \<Rightarrow> task \<Rightarrow> ('x pass, bool) cmd" where
  "preflight C t = (case ex_validate (c_exec C) of
     None \<Rightarrow> ret True
   | Some v \<Rightarrow>
       handle (seq (exec_call (\<lambda>_. v t)) (ret True))
         (\<lambda>e. if is_value_error e \<or> is_os_error e \<or> is_store_error e
              then seq (reporting (\<lambda>r. r\<lparr>rp_preflight_failures := rp_preflight_failures r @ [t_id t @ '': '' @ exn_text e]\<rparr>))
                     (ret False)
              else throw e))"

subsection \<open>Starting and adopting\<close>

text \<open>The part of the launch patch that does not depend on the identifiers drawn.\<close>

definition issued_before :: "json \<Rightarrow> task \<Rightarrow> json list res" where
  "issued_before epoch t = rbind (as_obj (meta_or t ''dispatches'' (JObj fmempty))) (\<lambda>prior.
     if dget prior ''epoch'' = epoch then as_list (dget_or prior ''workers'' (JList [])) else Inr [])"

definition restarts :: "task \<Rightarrow> int res" where
  "restarts t = as_int (meta_or t ''automatic_restarts'' (JInt 0))"

definition launch_fields :: "'x config \<Rightarrow> json list \<Rightarrow> string \<Rightarrow> string \<Rightarrow> (string \<times> json) list" where
  "launch_fields C issued wid ts = [(''launched_ts'', JStr ts), (''runtime_error'', JNull), (''worker_checkpoint'', JNull),
     (''dispatches'', JObj (obj [(''epoch'', c_epoch C), (''workers'', JList (issued @ [JStr wid]))]))]"

definition surrender_reset :: "task \<Rightarrow> (string \<times> json) list" where
  "surrender_reset t = (if clean_surrender t then
     [(''rotation_request'', JNull), (''resume_requested'', JNull)] @
     (if truthy (meta t ''restart_limit_reached'') \<and> truthy (meta t ''resume_requested'')
      then [(''restart_limit_reached'', JBool False), (''automatic_restarts'', JInt 0)] else [])
   else [])"

definition adoption_count :: "task \<Rightarrow> bool \<Rightarrow> (string \<times> json) list res" where
  "adoption_count t adopting =
     (if adopting then rbind (restarts t) (\<lambda>n. Inr [(''automatic_restarts'', JInt (n + 1))]) else Inr [])"

definition rework_reset :: "task \<Rightarrow> (string \<times> json) list" where
  "rework_reset t = (if truthy (meta t ''rework_requested'')
     then [(''rework_requested'', JNull), (''automatic_restarts'', JInt 0)] else [])"

definition digest_field :: "string option \<Rightarrow> (string \<times> json) list" where
  "digest_field digest = (case digest of None \<Rightarrow> [] | Some d \<Rightarrow> [(''master_notes_digest'', JStr d)])"

definition launch_patch ::
    "'x config \<Rightarrow> task \<Rightarrow> bool \<Rightarrow> string \<Rightarrow> string \<Rightarrow> dict res" where
  "launch_patch C t adopting wid ts =
     rbind (issued_before (c_epoch C) t) (\<lambda>issued.
     rbind (adoption_count t adopting) (\<lambda>count.
     rbind (master_note_digest (c_env C) (meta t ''workspace'')) (\<lambda>digest.
     Inr (obj (launch_fields C issued wid ts @ surrender_reset t @ count @ rework_reset t @ digest_field digest)))))"

text \<open>The one persisted mutation: acquisition and, unless already RUNNING, the transition.\<close>

definition leased_task :: "task \<Rightarrow> task \<Rightarrow> lease \<Rightarrow> dict \<Rightarrow> task res" where
  "leased_task t base l patch =
     rbind (acquire_lease base l patch) (\<lambda>u.
     if t_state base \<in> {READY, SUBMITTED, WAITING}
     then transition_task u RUNNING (Some (l_id l)) False fmempty (Put (Some l))
     else Inr u)"

definition start_event :: "task \<Rightarrow> bool \<Rightarrow> string \<times> bool" where
  "start_event base adopting =
     (if t_state base \<in> {READY, SUBMITTED, WAITING} then
        ((if t_state base = SUBMITTED then ''REWORK_STARTED'' else ''WORKER_LAUNCHED''), False)
      else if adopting then (''WORKER_ADOPTED'', True) else (''WORKER_RELAUNCHED'', False))"

definition dispatch_start :: "'x config \<Rightarrow> string option \<Rightarrow> string \<Rightarrow> lease \<Rightarrow> task \<Rightarrow> ('x pass, unit) cmd" where
  "dispatch_start C dead i l saved =
     seq (case dead of Some d \<Rightarrow> exec_call (\<lambda>ts. ex_stop (c_exec C) ts d) | None \<Rightarrow> ret ())
     (bnd (exec_call (\<lambda>_. ex_launch (c_exec C) saved l)) (\<lambda>h.
      observe C (l_worker l) (Some h) i (l_id l) True))"

text \<open>\<open>adopting_from\<close>, when given, is the worker of the task's own lease; an empty name counts as absent
  wherever the code tests it for truth.\<close>

definition pause_restarts :: "'x config \<Rightarrow> task \<Rightarrow> ('x pass, unit) cmd" where
  "pause_restarts C t =
     bnd (pure (transition_task t WAITING (map_option l_id (t_lease t)) False
            (obj [(''waiting_on'', JStr ''ruling:runtime-restart-limit''), (''restart_limit_reached'', JBool True)])
            (Put (t_lease t)))) (\<lambda>paused.
     seq (rc_commit C paused ''RESTART_LIMIT_REACHED'' (obj [(''limit'', JInt (c_max C))]) t None)
     (reporting (\<lambda>r. r\<lparr>rp_executor_errors := rp_executor_errors r @
        [t_id t @ '': automatic restart limit reached; explicit ruling required'']\<rparr>)))"

definition launch :: "'x config \<Rightarrow> task \<Rightarrow> string option \<Rightarrow> string option \<Rightarrow> ('x pass, unit) cmd" where
  "launch C t from dead =
     bnd (pure (case from of None \<Rightarrow> Inr t | Some d \<Rightarrow> rotate_lease t d ''no heartbeat within the grace period'')) (\<lambda>base.
     bnd (mint C (t_id t)) (\<lambda>l.
     bnd (now_iso (c_env C)) (\<lambda>ts.
     bnd (pure (launch_patch C t (dead \<noteq> None) (l_worker l) ts)) (\<lambda>patch.
     bnd (pure (leased_task t base l patch)) (\<lambda>u.
     seq (rc_commit C u (fst (start_event base (dead \<noteq> None)))
            (obj ([(''worker_id'', JStr (l_worker l)), (''lease_id'', JStr (l_id l))] @
                  (case dead of Some d \<Rightarrow> [(''dead_worker_id'', JStr d)] | None \<Rightarrow> [])))
            t (Some (dispatch_start C dead (t_id t) l)))
     (reporting (\<lambda>r. if snd (start_event base (dead \<noteq> None)) then r\<lparr>rp_adopted := rp_adopted r @ [t_id t]\<rparr>
                  else r\<lparr>rp_launched := rp_launched r @ [t_id t]\<rparr>)))))))"

definition start :: "'x config \<Rightarrow> task \<Rightarrow> string option \<Rightarrow> ('x pass, unit) cmd" where
  "start C t from =
     (let dead = (case from of Some d \<Rightarrow> if d \<noteq> [] then Some d else None | None \<Rightarrow> None) in
      bnd (asks withheld) (\<lambda>held.
      if held then ret ()
      else
        bnd (pure (if dead = None then Inr False else rbind (restarts t) (\<lambda>n. Inr (n \<ge> c_max C)))) (\<lambda>spent.
        if spent then pause_restarts C t
        else bnd (preflight C t) (\<lambda>ok. if ok then launch C t from dead else ret ()))))"

subsection \<open>Receipts\<close>

definition note_error :: "string \<Rightarrow> ('x pass, unit) cmd" where
  "note_error m = reporting (\<lambda>r. r\<lparr>rp_observation_errors := rp_observation_errors r @ [m]\<rparr>)"

fun receipt_target :: "receipt_status \<Rightarrow> task_state res" where
  "receipt_target R_AWAITING = Inr WAITING"
| "receipt_target R_SUBMITTED = Inr SUBMITTED"
| "receipt_target R_FAILED = Inr FAILED"
| "receipt_target R_RUNNING = Inl (KeyError ''RUNNING'')"

text \<open>The snapshot of the worker's checkpoint: absent, taken, or refused with a reason.\<close>

definition receipt_checkpoint :: "env \<Rightarrow> receipt \<Rightarrow> json res" where
  "receipt_checkpoint E r =
     (if \<not> truthy (r_checkpoint r) then Inr JNull
      else case r_checkpoint r of
        JStr p \<Rightarrow>
          if starts_with ''/'' p
          then rbind (snapshot_file E p) (\<lambda>d. Inr (JObj (dput d [(''worker_id'', r_worker r),
                 (''lease_id'', r_lease r), (''rotation_id'', r_rotation r)])))
          else Inl (StoreError ''receipt checkpoint must be an absolute path'')
      | _ \<Rightarrow> Inl (StoreError ''receipt checkpoint must be an absolute path''))"

definition waiting_value :: "receipt \<Rightarrow> json" where
  "waiting_value r = jor (r_waiting_on r)
     (JStr (if truthy (r_rotation r) then ''rotation:'' @ py_str (r_rotation r) else ''unspecified''))"

text \<open>A rotation id that the task's request does not carry makes the receipt stale.\<close>

definition foreign_rotation :: "task \<Rightarrow> receipt \<Rightarrow> bool res" where
  "foreign_rotation t r =
     (if \<not> truthy (r_rotation r) then Inr False
      else if \<not> truthy (meta t ''rotation_request'') then Inr True
      else rbind (jindex (meta t ''rotation_request'') ''id'') (\<lambda>i. Inr (r_rotation r \<noteq> i)))"

definition advance ::
    "'x config \<Rightarrow> task \<Rightarrow> lease \<Rightarrow> receipt \<Rightarrow> bool option \<Rightarrow> task_state \<Rightarrow> dict \<Rightarrow> ('x pass, unit) cmd" where
  "advance C t l r alive target patch =
     bnd (pure (transition_task t target (Some (l_id l)) False patch
            (Put (if target = WAITING then t_lease t else None)))) (\<lambda>u.
     seq (rc_commit C u ''RECEIPT_APPLIED'' (obj [(''worker_id'', r_worker r),
            (''status'', JStr (receipt_value (r_status r))), (''to'', JStr (state_value target))]) t None)
     (seq (case alive of None \<Rightarrow> ret () | Some b \<Rightarrow> observe C (l_worker l) None (t_id t) (l_id l) b)
     (seq (reporting (\<lambda>p. p\<lparr>rp_advanced := rp_advanced p @ [(t_id t, state_value target)]\<rparr>))
     (if target \<noteq> WAITING then exec_call (\<lambda>ts. ex_stop (c_exec C) ts (l_worker l)) else ret ()))))"

definition apply_receipt :: "'x config \<Rightarrow> task \<Rightarrow> lease \<Rightarrow> receipt \<Rightarrow> bool option \<Rightarrow> ('x pass, unit) cmd" where
  "apply_receipt C t l r alive =
     bnd (pure (receipt_target (r_status r))) (\<lambda>target.
     if target \<noteq> WAITING then
       advance C t l r alive target (obj [(''last_receipt_note'', r_note r), (''runtime_error'', JNull),
         (''rotation_request'', JNull)])
     else
       bnd (pure (foreign_rotation t r)) (\<lambda>foreign.
       if foreign then reporting (\<lambda>p. p\<lparr>rp_ignored_stale := rp_ignored_stale p @ [r_worker r]\<rparr>)
       else
         (case receipt_checkpoint (c_env C) r of
            Inl e \<Rightarrow>
              if is_store_error e \<or> is_value_error e \<or> is_os_error e
              then reporting (\<lambda>p. p\<lparr>rp_preflight_failures := rp_preflight_failures p @ [t_id t @ '': checkpoint: '' @ exn_text e]\<rparr>)
              else throw e
          | Inr cp \<Rightarrow>
              advance C t l r alive target (obj [(''last_receipt_note'', r_note r), (''runtime_error'', JNull),
                (''worker_checkpoint'', cp), (''waiting_on'', waiting_value r)]))))"

subsection \<open>Resuming and surrendering\<close>

definition resume_patch :: "'x config \<Rightarrow> task \<Rightarrow> string \<Rightarrow> dict res" where
  "resume_patch C t ts =
     rbind (master_note_digest (c_env C) (meta t ''workspace'')) (\<lambda>digest.
     Inr (obj ([(''launched_ts'', JStr ts), (''resume_requested'', JNull), (''runtime_error'', JNull),
                (''worker_checkpoint'', JNull)] @
       (if truthy (meta t ''restart_limit_reached'')
        then [(''restart_limit_reached'', JBool False), (''automatic_restarts'', JInt 0)] else []) @
       digest_field digest)))"

definition dispatch_resume :: "'x config \<Rightarrow> string \<Rightarrow> lease \<Rightarrow> task \<Rightarrow> ('x pass, unit) cmd" where
  "dispatch_resume C i l saved =
     seq (exec_call (\<lambda>_. ex_resume (c_exec C) saved (l_worker l) l))
       (observe C (l_worker l) None i (l_id l) True)"

definition resume :: "'x config \<Rightarrow> task \<Rightarrow> lease \<Rightarrow> ('x pass, unit) cmd" where
  "resume C t l =
     bnd (asks withheld) (\<lambda>held.
     if held then ret ()
     else bnd (preflight C t) (\<lambda>ok.
     if \<not> ok then ret ()
     else bnd (exec_call (\<lambda>ts. ex_poll (c_exec C) ts (l_worker l))) (\<lambda>obs.
     case o_alive obs of
       None \<Rightarrow> note_error (t_id t @ '': worker identity unknown; resume withheld'')
     | Some True \<Rightarrow> reporting (\<lambda>p. p\<lparr>rp_waiting_grace := rp_waiting_grace p @ [t_id t]\<rparr>)
     | Some False \<Rightarrow>
         bnd (now_iso (c_env C)) (\<lambda>ts.
         bnd (pure (resume_patch C t ts)) (\<lambda>patch.
         bnd (pure (transition_task t RUNNING (Some (l_id l)) False patch (Put (Some l)))) (\<lambda>u.
         seq (rc_commit C u ''RESUMED'' (obj [(''worker_id'', JStr (l_worker l))]) t
                (Some (dispatch_resume C (t_id t) l)))
         (reporting (\<lambda>p. p\<lparr>rp_resumed := rp_resumed p @ [t_id t]\<rparr>))))))))"

text \<open>The checkpoint a surrender may use: the one attached to the request, or the worker's own if it
  belongs to this lease and either the task was already waiting when the rotation was asked for
  or the worker named this rotation.\<close>

definition surrender_checkpoint :: "task \<Rightarrow> lease \<Rightarrow> dict \<Rightarrow> json res" where
  "surrender_checkpoint t l request =
     (if truthy (dget request ''checkpoint'') then Inr (dget request ''checkpoint'')
      else rbind (as_obj (jor (meta t ''worker_checkpoint'') (JObj fmempty))) (\<lambda>cand.
        if dget cand ''worker_id'' = JStr (l_worker l) \<and> dget cand ''lease_id'' = JStr (l_id l) then
          rbind (dindex request ''requested_state'') (\<lambda>rs.
            if rs = JStr ''WAITING'' then Inr (JObj cand)
            else rbind (dindex request ''id'') (\<lambda>i.
              Inr (if dget cand ''rotation_id'' = i then JObj cand else JNull)))
        else Inr JNull))"

definition surrender :: "'x config \<Rightarrow> task \<Rightarrow> lease \<Rightarrow> ('x pass, unit) cmd" where
  "surrender C t l =
     bnd (pure (case meta t ''rotation_request'' of JObj d \<Rightarrow> Inr d | _ \<Rightarrow> Inl TypeError)) (\<lambda>request.
     bnd (pure (rbind (dindex request ''worker_id'') (\<lambda>w.
            if w \<noteq> JStr (l_worker l) then Inr False
            else rbind (dindex request ''lease_id'') (\<lambda>i. Inr (i = JStr (l_id l)))))) (\<lambda>mine.
     if \<not> mine then note_error (t_id t @ '': stale rotation identity'')
     else bnd (pure (surrender_checkpoint t l request)) (\<lambda>cp.
     if \<not> truthy cp
     then note_error (t_id t @ '': rotation needs a checkpoint; do not wake a held task to get one'')
     else bnd (exec_call (\<lambda>ts. ex_poll (c_exec C) ts (l_worker l))) (\<lambda>obs.
     if o_alive obs \<noteq> Some False
     then note_error (t_id t @ '': rotation awaits positively observed exit'')
     else
       bnd (pure (dindex request ''id'')) (\<lambda>rid.
       bnd (now_iso (c_env C)) (\<lambda>ts.
       let record = obj [(''id'', rid), (''worker_id'', JStr (l_worker l)), (''lease_id'', JStr (l_id l)),
                         (''checkpoint'', cp), (''waiting_on'', meta t ''waiting_on''), (''ts'', JStr ts)]
       in bnd (pure (rotate_lease t (l_worker l) ''clean checkpoint and confirmed exit'')) (\<lambda>retired.
          seq (rc_commit C (retired\<lparr>t_meta := dput (t_meta retired) [(''clean_surrender'', JObj record),
                 (''rotation_request'', JNull), (''runtime_error'', JNull)]\<rparr>) ''WORKER_SURRENDERED'' record t None)
          (reporting (\<lambda>p. p\<lparr>rp_advanced := rp_advanced p @ [(t_id t, ''WAITING'')]\<rparr>)))))))))"

subsection \<open>Death detection\<close>

definition parse_ts :: "env \<Rightarrow> json \<Rightarrow> int option res" where
  "parse_ts E j = (if \<not> truthy j then Inr None else rbind (as_str j) (\<lambda>x. Inr (env_parse_time E x)))"

definition registered :: "worker list \<Rightarrow> string \<Rightarrow> worker option" where
  "registered ws w = find (\<lambda>x. w_id x = w) (rev ws)"

text \<open>Whether the last sign of life is at least the grace period (in seconds) old; the clock counts
  microseconds. An unknown age is not old enough.\<close>

definition old_enough :: "pyfloat \<Rightarrow> int \<Rightarrow> int \<Rightarrow> bool" where
  "old_enough grace n b = (case grace of
     Finite g \<Rightarrow> of_int (n - b) / 1000000 \<ge> g
   | Infinite up \<Rightarrow> \<not> up
   | NaN \<Rightarrow> False)"

definition baseline :: "'x config \<Rightarrow> task \<Rightarrow> lease \<Rightarrow> worker list \<Rightarrow> int option res" where
  "baseline C t l ws =
     rbind (parse_ts (c_env C) (case registered ws (l_worker l) of None \<Rightarrow> JNull | Some w \<Rightarrow> jopt (w_heartbeat w))) (\<lambda>b.
     case b of Some x \<Rightarrow> Inr (Some x) | None \<Rightarrow> parse_ts (c_env C) (meta t ''launched_ts''))"

definition durably_dead :: "'x config \<Rightarrow> task \<Rightarrow> lease \<Rightarrow> worker list \<Rightarrow> ('x pass, bool) cmd" where
  "durably_dead C t l ws =
     bnd (now (c_env C)) (\<lambda>n.
     bnd (pure (baseline C t l ws)) (\<lambda>b.
     ret (case b of None \<Rightarrow> False | Some x \<Rightarrow> old_enough (c_grace C) n x)))"

subsection \<open>One task\<close>

text \<open>A receipt counts only if it names this lease, its worker and this task.\<close>

definition fenced :: "task \<Rightarrow> lease \<Rightarrow> receipt \<Rightarrow> bool" where
  "fenced t l r \<longleftrightarrow> r_lease r = JStr (l_id l) \<and> r_worker r = JStr (l_worker l) \<and> r_task r = JStr (t_id t)"

definition usable_receipt :: "task \<Rightarrow> lease \<Rightarrow> observation \<Rightarrow> receipt option" where
  "usable_receipt t l obs = (case o_receipt obs of
     Some r \<Rightarrow> if fenced t l r then Some r else None | None \<Rightarrow> None)"

definition heartbeat :: "'x config \<Rightarrow> task \<Rightarrow> lease \<Rightarrow> ('x pass, unit) cmd" where
  "heartbeat C t l =
     seq (if truthy (meta t ''runtime_error'')
          then rc_commit C (t\<lparr>t_meta := fmupd ''runtime_error'' JNull (t_meta t)\<rparr>) ''EXECUTOR_VERIFIED'' fmempty t None
          else ret ())
     (seq (observe C (l_worker l) None (t_id t) (l_id l) True)
     (reporting (\<lambda>p. p\<lparr>rp_heartbeats := rp_heartbeats p @ [l_worker l]\<rparr>)))"

definition reconcile_dead :: "'x config \<Rightarrow> worker list \<Rightarrow> task \<Rightarrow> lease \<Rightarrow> ('x pass, unit) cmd" where
  "reconcile_dead C ws t l =
     (if truthy (meta t ''runtime_error'')
      then reporting (\<lambda>p. p\<lparr>rp_executor_errors := rp_executor_errors p @
             [t_id t @ '': unresolved executor error; automatic restart withheld'']\<rparr>)
      else if truthy (meta t ''rotation_request'')
      then note_error (t_id t @ '': exited without a clean rotation receipt; inspect checkpoint'')
      else bnd (durably_dead C t l ws) (\<lambda>dead.
        if dead then start C t (Some (l_worker l))
        else reporting (\<lambda>p. p\<lparr>rp_waiting_grace := rp_waiting_grace p @ [t_id t]\<rparr>)))"

definition by_liveness :: "'x config \<Rightarrow> worker list \<Rightarrow> task \<Rightarrow> lease \<Rightarrow> bool option \<Rightarrow> ('x pass, unit) cmd" where
  "by_liveness C ws t l alive = (case alive of
     Some True \<Rightarrow> heartbeat C t l
   | None \<Rightarrow> note_error (t_id t @ '': worker identity unknown; ownership unchanged'')
   | Some False \<Rightarrow> reconcile_dead C ws t l)"

definition act_on :: "'x config \<Rightarrow> worker list \<Rightarrow> task \<Rightarrow> lease \<Rightarrow> observation \<Rightarrow> ('x pass, unit) cmd" where
  "act_on C ws t l obs = (case usable_receipt t l obs of
     Some r \<Rightarrow> if r_status r \<noteq> R_RUNNING then apply_receipt C t l r (o_alive obs)
       else by_liveness C ws t l (o_alive obs)
   | None \<Rightarrow> by_liveness C ws t l (o_alive obs))"

definition drop_stale :: "task \<Rightarrow> lease \<Rightarrow> observation \<Rightarrow> ('x pass, unit) cmd" where
  "drop_stale t l obs = (case o_receipt obs of
     Some r \<Rightarrow> if fenced t l r then ret ()
       else reporting (\<lambda>p. p\<lparr>rp_ignored_stale := rp_ignored_stale p @ [r_worker r]\<rparr>)
   | None \<Rightarrow> ret ())"

definition reconcile_running :: "'x config \<Rightarrow> worker list \<Rightarrow> task \<Rightarrow> lease \<Rightarrow> ('x pass, unit) cmd" where
  "reconcile_running C ws t l =
     bnd (exec_call (\<lambda>ts. ex_poll (c_exec C) ts (l_worker l))) (\<lambda>obs.
     seq (drop_stale t l obs) (act_on C ws t l obs))"

definition unblocked :: "'x config \<Rightarrow> task \<Rightarrow> ('x pass, bool) cmd" where
  "unblocked C t = (case c_unblock C of None \<Rightarrow> ret False | Some f \<Rightarrow> asks (\<lambda>s. f s t))"

text \<open>\<open>task.metadata.get("waiting_on") == f"rotation:{...['id']}"\<close>\<close>

definition waits_for_own_rotation :: "task \<Rightarrow> bool" where
  "waits_for_own_rotation t = (case meta t ''clean_surrender'' of
     JObj d \<Rightarrow> meta t ''waiting_on'' = JStr (''rotation:'' @ py_str (dget d ''id'')) | _ \<Rightarrow> False)"

definition reconcile_waiting :: "'x config \<Rightarrow> task \<Rightarrow> ('x pass, unit) cmd" where
  "reconcile_waiting C t =
     (case t_lease t of
        Some l \<Rightarrow>
          if truthy (meta t ''rotation_request'') then surrender C t l
          else if truthy (meta t ''restart_limit_reached'') \<and> \<not> truthy (meta t ''resume_requested'') then ret ()
          else if c_unblock C = None then ret ()
          else bnd (unblocked C t) (\<lambda>go. if go then resume C t l else ret ())
      | None \<Rightarrow>
          if truthy (meta t ''restart_limit_reached'') \<and> \<not> truthy (meta t ''resume_requested'') then ret ()
          else if \<not> clean_surrender t \<or> c_unblock C = None then ret ()
          else if waits_for_own_rotation t then start C t None
          else bnd (unblocked C t) (\<lambda>go. if go then start C t None else ret ()))"

text \<open>While the farm drains, a task that still holds a lease is first asked to rotate off.\<close>

definition drain_request :: "'x config \<Rightarrow> task \<Rightarrow> ('x pass, task) cmd" where
  "drain_request C t =
     bnd (asks deployment) (\<lambda>m.
     if phase_of m = JStr ''draining'' \<and> t_lease t \<noteq> None \<and> \<not> truthy (meta t ''rotation_request'') then
       bnd (pure (rbind (dindex (handoff_of m) ''id'') as_str)) (\<lambda>rid.
       request_rotation (c_env C) (t_id t) (meta_or t ''revision'' (JInt 0)) rid (c_actor C) None)
     else ret t)"

definition reconcile_state :: "'x config \<Rightarrow> worker list \<Rightarrow> task \<Rightarrow> ('x pass, unit) cmd" where
  "reconcile_state C ws t = (case t_state t of
     READY \<Rightarrow> start C t None
   | SUBMITTED \<Rightarrow> if truthy (meta t ''rework_requested'') then start C t None else ret ()
   | RUNNING \<Rightarrow> (case t_lease t of None \<Rightarrow> start C t None | Some l \<Rightarrow> reconcile_running C ws t l)
   | WAITING \<Rightarrow> reconcile_waiting C t
   | _ \<Rightarrow> ret ())"

definition reconcile_task :: "'x config \<Rightarrow> worker list \<Rightarrow> task \<Rightarrow> ('x pass, unit) cmd" where
  "reconcile_task C ws t = bnd (drain_request C t) (reconcile_state C ws)"

subsection \<open>One pass\<close>

definition record_error :: "'x config \<Rightarrow> task \<Rightarrow> exn \<Rightarrow> ('x pass, unit) cmd" where
  "record_error C t e =
     seq (reporting (\<lambda>p. p\<lparr>rp_executor_errors := rp_executor_errors p @ [t_id t @ '': '' @ exn_text e]\<rparr>))
     (bnd (asks (store_get (t_id t))) (\<lambda>cur.
      let err = obj [(''worker_id'', (case t_lease cur of Some l \<Rightarrow> JStr (l_worker l) | None \<Rightarrow> JNull)),
                     (''message'', JStr (take 1000 (exn_text e)))]
      in if meta cur ''runtime_error'' \<noteq> JObj err then
           handle (rc_commit C (cur\<lparr>t_meta := fmupd ''runtime_error'' (JObj err) (t_meta cur)\<rparr>)
                     ''EXECUTOR_ERROR'' err cur None)
             (\<lambda>x. case x of
                StoreConflict m \<Rightarrow> reporting (\<lambda>p. p\<lparr>rp_conflicts := rp_conflicts p @ [m]\<rparr>)
              | _ \<Rightarrow> throw x)
         else ret ()))"

fun is_executor_error :: "exn \<Rightarrow> bool" where
  "is_executor_error (ExecutorUnavailable m) = True"
| "is_executor_error (OSError m) = True"
| "is_executor_error e = False"

definition reconcile_guarded :: "'x config \<Rightarrow> worker list \<Rightarrow> task \<Rightarrow> ('x pass, unit) cmd" where
  "reconcile_guarded C ws t =
     handle (reconcile_task C ws t)
       (\<lambda>e. case e of
          StoreConflict m \<Rightarrow> reporting (\<lambda>p. p\<lparr>rp_conflicts := rp_conflicts p @ [m]\<rparr>)
        | _ \<Rightarrow> if is_executor_error e then record_error C t e else throw e)"

definition reconcile_once :: "'x config \<Rightarrow> ('x pass, report) cmd" where
  "reconcile_once C =
     seq (recover (c_env C))
     (seq (reporting (\<lambda>_. empty_report))
     (bnd (gets registry_list) (\<lambda>ws.
      bnd (gets store_list) (\<lambda>ts.
      seq (for_each ts (reconcile_guarded C ws))
      (gets p_report)))))"

end
