(* ===== verification/Ownership.thy ===== *)
theory Ownership
  imports Reconciler
begin

text \<open>
  What the control loop guarantees. \<open>task_step\<close> is the specification of its commits: every task
  update a pass makes is one of its steps. The locale \<open>pass_invariant\<close> states once what a
  property of farms must satisfy to survive a pass; its interpretations give the soundness of
  the store, the stability of the tasks a pass does not process and the restart budget.
\<close>

subsection \<open>The steps of a task\<close>

text \<open>\<open>startable\<close>: not held by a worker and in a state \<open>_start\<close> is called in.\<close>

definition startable :: "task \<Rightarrow> bool" where
  "startable t \<longleftrightarrow> t_lease t = None \<and>
     (t_state t = READY \<or> (t_state t = SUBMITTED \<and> truthy (meta t ''rework_requested'')) \<or>
      (t_state t = WAITING \<and> clean_surrender t) \<or> t_state t = RUNNING)"

text \<open>\<open>moves t st m l u\<close>: \<open>u\<close> is \<open>t\<close> with this state, metadata and lease.\<close>

definition moves :: "task \<Rightarrow> task_state \<Rightarrow> dict \<Rightarrow> lease option \<Rightarrow> task \<Rightarrow> bool" where
  "moves t st m l u \<longleftrightarrow> t_id u = t_id t \<and> t_objective u = t_objective t \<and> t_deliverable u = t_deliverable t \<and>
     t_acceptance u = t_acceptance t \<and> t_state u = st \<and> t_meta u = m \<and> t_lease u = l"

inductive task_step :: "'x config \<Rightarrow> task \<Rightarrow> task \<Rightarrow> bool" for C where
  launch: "startable t \<Longrightarrow> launch_patch C t False (l_worker l) ts = Inr patch \<Longrightarrow>
    moves t RUNNING (t_meta t ++\<^sub>f patch) (Some l) u \<Longrightarrow> task_step C t u"
| adopt: "t_state t = RUNNING \<Longrightarrow> t_lease t = Some dead \<Longrightarrow>
    (b \<Longrightarrow> \<exists>n. restarts t = Inr n \<and> n < c_max C) \<Longrightarrow> b = (l_worker dead \<noteq> []) \<Longrightarrow>
    launch_patch C t b (l_worker l) ts = Inr patch \<Longrightarrow>
    moves t RUNNING (t_meta t ++\<^sub>f patch) (Some l) u \<Longrightarrow> task_step C t u"
| pause: "t_state t = RUNNING \<Longrightarrow> t_lease t = Some l \<Longrightarrow>
    moves t WAITING (t_meta t ++\<^sub>f obj [(''waiting_on'', JStr ''ruling:runtime-restart-limit''),
      (''restart_limit_reached'', JBool True)]) (Some l) u \<Longrightarrow> task_step C t u"
| await: "t_state t = RUNNING \<Longrightarrow> t_lease t = Some l \<Longrightarrow>
    moves t WAITING (t_meta t ++\<^sub>f obj [(''last_receipt_note'', note), (''runtime_error'', JNull),
      (''worker_checkpoint'', cp), (''waiting_on'', w)]) (Some l) u \<Longrightarrow> task_step C t u"
| close: "t_state t = RUNNING \<Longrightarrow> t_lease t = Some l \<Longrightarrow> target \<in> {SUBMITTED, FAILED} \<Longrightarrow>
    moves t target (t_meta t ++\<^sub>f obj [(''last_receipt_note'', note), (''runtime_error'', JNull),
      (''rotation_request'', JNull)]) None u \<Longrightarrow> task_step C t u"
| resume: "t_state t = WAITING \<Longrightarrow> t_lease t = Some l \<Longrightarrow> resume_patch C t ts = Inr patch \<Longrightarrow>
    moves t RUNNING (t_meta t ++\<^sub>f patch) (Some l) u \<Longrightarrow> task_step C t u"
| surrender: "t_state t = WAITING \<Longrightarrow> t_lease t = Some l \<Longrightarrow>
    moves t WAITING (dput (t_meta t) [(''clean_surrender'', JObj rec), (''rotation_request'', JNull),
      (''runtime_error'', JNull)]) None u \<Longrightarrow> task_step C t u"
| annotate: "k \<in> {''runtime_error'', ''rotation_request''} \<Longrightarrow>
    moves t (t_state t) (fmupd k v (t_meta t)) (t_lease t) u \<Longrightarrow> task_step C t u"

inductive_cases task_stepE: "task_step C t u"

lemma task_step_id: "task_step C t u \<Longrightarrow> t_id u = t_id t"
  by (erule task_stepE) (auto simp: moves_def)

lemma task_step_ok: "task_step C t u \<Longrightarrow> task_ok t \<Longrightarrow> task_ok u"
  by (erule task_stepE) (auto simp: task_ok_def startable_def moves_def)

lemma task_step_terminal:
  "task_step C t u \<Longrightarrow> terminal_state (t_state t) \<Longrightarrow> t_state u = t_state t \<and> t_lease u = t_lease t"
  by (erule task_stepE) (auto simp: startable_def terminal_state_def moves_def)

text \<open>The task updates the methods prepare are steps.\<close>

lemma launch_is_step:
  assumes base: "(case from of None \<Rightarrow> Inr t | Some d \<Rightarrow> rotate_lease t d r) = Inr base"
    and leased: "leased_task t base l patch = Inr u"
    and patch: "launch_patch C t (dead \<noteq> None) (l_worker l) ts = Inr patch"
    and dead: "dead = (case from of Some d \<Rightarrow> if d \<noteq> [] then Some d else None | None \<Rightarrow> None)"
    and none: "from = None \<Longrightarrow> t_lease t = None \<Longrightarrow> startable t"
    and some: "from \<noteq> None \<Longrightarrow> t_state t = RUNNING"
    and budget: "dead \<noteq> None \<Longrightarrow> \<exists>n. restarts t = Inr n \<and> n < c_max C"
  shows "task_step C t u"
proof (cases "from")
  case None
  then have b: "base = t" using base by simp
  with leased have "t_lease t = None"
    by (auto simp: leased_task_def acquire_lease_Inr_iff rbind_Inr_iff)
  then have st: "startable t" using none None by simp
  with leased b have "moves t RUNNING (t_meta t ++\<^sub>f patch) (Some l) u"
    by (auto simp: leased_task_def acquire_lease_Inr_iff rbind_Inr_iff transition_task_Inr_iff startable_def
        moves_def split: if_splits)
  moreover have "launch_patch C t False (l_worker l) ts = Inr patch" using patch dead None by simp
  ultimately show ?thesis using st task_step.launch by metis
next
  case (Some d)
  then obtain h where h: "t_lease t = Some h" "l_worker h = d" "base = t\<lparr>t_lease := None\<rparr>"
    using base by (auto simp: rotate_lease_Inr_iff)
  have run: "t_state t = RUNNING" using some Some by simp
  with leased h have u: "moves t RUNNING (t_meta t ++\<^sub>f patch) (Some l) u"
    by (auto simp: leased_task_def acquire_lease_Inr_iff rbind_Inr_iff moves_def)
  have d: "(dead \<noteq> None) = (l_worker h \<noteq> [])" using dead Some h by simp
  show ?thesis
    by (rule task_step.adopt [OF run h(1) _ refl _ u]) (use patch budget d in auto)
qed

subsection \<open>Properties a pass keeps\<close>

lemma commit_id:
  assumes "commit E u (Some t) ev actor payload ts None epoch s = (Inr saved, s')"
  shows "t_id saved = t_id t"
proof -
  from commit_run_Inr [OF assms] obtain r where
    "commit_checks E u (Some t) (recovered s) = Inr r" "saved = with_revision r u"
    by (auto simp: commit_done_def)
  then show ?thesis using commit_checks_Inr(3) [of E u "Some t" "recovered s" r t] by simp
qed

lemma request_rotation_id:
  assumes "named (f_tasks s)" and "request_rotation E i rv rid actor cf s = (Inr u, s')"
  shows "t_id u = i"
proof -
  from assms(2) obtain t where t: "fmlookup (f_tasks s) i = Some t"
    by (auto simp: request_rotation_def run_Inr store_get_Inr)
  then have i: "t_id t = i" using namedD [OF assms(1)] by blast
  from assms(2) t have "u = t \<or> (\<exists>v ev p s0. commit E v (Some t) ev actor p None None None s0 = (Inr u, s'))"
    by (auto simp: request_rotation_def Let_def run_Inr store_get_Inr split: option.splits if_splits)
  then show ?thesis using i commit_id by metis
qed

lemma drain_request_id:
  assumes "named (f_tasks s)" and "drain_request C t s = (Inr u, s')"
  shows "t_id u = t_id t"
  using assms(2) request_rotation_id [OF assms(1)]
  by (auto simp: drain_request_def run_Inr split: if_splits)

text \<open>\<open>ok\<close> selects the ids of the tasks the property lets a pass process.\<close>

locale pass_invariant =
  fixes C :: "'x config" and P :: "'x pass \<Rightarrow> bool" and ok :: "string \<Rightarrow> bool"
  assumes names: "P s \<Longrightarrow> named (f_tasks s)"
    and frame: "P s \<Longrightarrow> f_tasks s' = f_tasks s \<Longrightarrow> f_journal s' = f_journal s \<Longrightarrow> P s'"
    and recovery: "keeps P recover_locked"
    and step: "task_step C t u \<Longrightarrow> ok (t_id t) \<Longrightarrow>
      keeps P (commit_locked (c_env C) u (Some t) ev actor payload ts)"
begin

lemma keeps_modify_frame:
  "(\<And>s. f_tasks (f s) = f_tasks s \<and> f_journal (f s) = f_journal s) \<Longrightarrow> keeps P (modify f)"
  by (rule keeps_modify) (metis frame)

lemma keeps_basics [keeps_rules]:
  "keeps P (fresh_uuid E)" "keeps P (now E)" "keeps P (now_iso E)" "keeps P (put_observed w)"
  "keeps P (reporting f)" "keeps P (note_error m)" "keeps P (exec_call g)"
  unfolding keeps_def put_observed_def reporting_def note_error_def
  by (auto simp: wp_rules elim!: frame)

lemma keeps_mint [keeps_rules]: "keeps P (mint C' i)"
  unfolding mint_def by (intro keeps_rules)

lemma keeps_observe [keeps_rules]: "keeps P (observe C' w h i lid b)"
  unfolding observe_def by (intro keeps_rules)

lemma keeps_preflight [keeps_rules]: "keeps P (preflight C' t)"
  unfolding preflight_def by (intro keeps_rules)

lemma keeps_commit [keeps_rules]:
  assumes "task_step C t u" and "ok (t_id t)" and "\<And>d x. dispatch = Some d \<Longrightarrow> keeps P (d x)"
  shows "keeps P (commit (c_env C) u (Some t) ev actor payload ts dispatch epoch)"
  unfolding commit_def using assms by (intro keeps_rules step) auto

lemma keeps_rc_commit [keeps_rules]:
  assumes "task_step C t u" and "ok (t_id t)" and "\<And>d x. dispatch = Some d \<Longrightarrow> keeps P (d x)"
  shows "keeps P (rc_commit C u ev payload t dispatch)"
  unfolding rc_commit_def using assms by (intro keeps_rules)

lemma keeps_dispatch [keeps_rules]:
  "keeps P (dispatch_start C' d i l saved)" "keeps P (dispatch_resume C' i l saved)"
  unfolding dispatch_start_def dispatch_resume_def by (intro keeps_rules)+

lemma keeps_unblocked [keeps_rules]: "keeps P (unblocked C' t)"
  unfolding unblocked_def by (intro keeps_rules)

lemma keeps_durably_dead [keeps_rules]: "keeps P (durably_dead C' t l ws)"
  unfolding durably_dead_def by (intro keeps_rules)

lemma keeps_pause [keeps_rules]:
  assumes "ok (t_id t)" and "t_state t = RUNNING" and "t_lease t = Some l"
  shows "keeps P (pause_restarts C t)"
proof -
  have "task_step C t u" if "transition_task t WAITING lid False
      (obj [(''waiting_on'', JStr ''ruling:runtime-restart-limit''), (''restart_limit_reached'', JBool True)])
      (Put (t_lease t)) = Inr u" for lid u
    by (rule task_step.pause [OF assms(2,3)])
      (use that assms in \<open>auto simp: transition_task_Inr_iff moves_def\<close>)
  then show ?thesis
    unfolding pause_restarts_def using assms(1) by (intro keeps_bnd_pure keeps_rules) auto
qed

lemma keeps_start [keeps_rules]:
  assumes "ok (t_id t)" and "from = None \<Longrightarrow> t_lease t = None \<Longrightarrow> startable t"
    and "from \<noteq> None \<Longrightarrow> t_state t = RUNNING \<and> t_lease t \<noteq> None"
  shows "keeps P (start C t from)"
proof -
  let ?dead = "case from of Some d \<Rightarrow> if d \<noteq> [] then Some d else None | None \<Rightarrow> None"
  have launch: "keeps P (launch C t from ?dead)" if "?dead \<noteq> None \<Longrightarrow> \<exists>n. restarts t = Inr n \<and> n < c_max C"
    unfolding launch_def using assms that
    by (intro keeps_bnd_pure keeps_rules launch_is_step) (auto intro: keeps_rules)
  show ?thesis
    unfolding start_def Let_def
  proof (intro keeps_bnd_pure keeps_bnd keeps_asks keeps_ret keeps_if keeps_preflight, goal_cases)
    case (1 held spent)
    then show ?case using assms by (auto split: option.splits if_splits intro: keeps_pause)
  next
    case (2 held spent ok')
    then show ?case by (intro launch) (auto simp: rbind_Inr_iff split: if_splits)
  qed
qed

lemma keeps_advance [keeps_rules]:
  assumes "ok (t_id t)" and "\<And>u. transition_task t target (Some (l_id l)) False patch
      (Put (if target = WAITING then t_lease t else None)) = Inr u \<Longrightarrow> task_step C t u"
  shows "keeps P (advance C t l r alive target patch)"
  unfolding advance_def using assms by (intro keeps_bnd_pure keeps_rules) auto

lemma keeps_apply_receipt [keeps_rules]:
  assumes "ok (t_id t)" and "t_state t = RUNNING" and "t_lease t = Some l"
  shows "keeps P (apply_receipt C t l r alive)"
  unfolding apply_receipt_def
proof (intro keeps_bnd_pure keeps_rules assms(1), goal_cases)
  case (1 target u)
  then have "target \<in> {SUBMITTED, FAILED}" by (cases "r_status r") auto
  then show ?case
    by (rule task_step.close [OF assms(2,3)]) (use 1 in \<open>auto simp: transition_task_Inr_iff moves_def\<close>)
next
  case 2
  show ?case
    by (rule task_step.await [OF assms(2,3)]) (use 2 assms in \<open>auto simp: transition_task_Inr_iff moves_def\<close>)
qed

lemma keeps_resume [keeps_rules]:
  assumes "ok (t_id t)" and "t_state t = WAITING" and "t_lease t = Some l"
  shows "keeps P (resume C t l)"
proof -
  have "task_step C t u" if "resume_patch C t ts = Inr patch"
      "transition_task t RUNNING (Some (l_id l)) False patch (Put (Some l)) = Inr u" for ts patch u
    by (rule task_step.resume [OF assms(2,3) that(1)])
      (use that(2) assms(3) in \<open>auto simp: transition_task_Inr_iff moves_def\<close>)
  then show ?thesis
    unfolding resume_def using assms(1) by (intro keeps_bnd_pure keeps_rules) (auto intro: keeps_rules)
qed

lemma keeps_surrender [keeps_rules]:
  assumes "ok (t_id t)" and "t_state t = WAITING" and "t_lease t = Some l"
  shows "keeps P (surrender C t l)"
proof -
  have "task_step C t (v\<lparr>t_meta := dput (t_meta v) [(''clean_surrender'', JObj rcd),
      (''rotation_request'', JNull), (''runtime_error'', JNull)]\<rparr>)"
    if "rotate_lease t w why = Inr v" for w why v rcd
    by (rule task_step.surrender [OF assms(2,3)])
      (use that assms in \<open>auto simp: rotate_lease_Inr_iff moves_def\<close>)
  then show ?thesis
    unfolding surrender_def Let_def using assms(1) by (intro keeps_bnd_pure keeps_rules) auto
qed

lemma keeps_heartbeat [keeps_rules]: "ok (t_id t) \<Longrightarrow> keeps P (heartbeat C t l)"
  unfolding heartbeat_def by (intro keeps_rules task_step.annotate [of "''runtime_error''"]) (auto simp: moves_def)

lemma keeps_reconcile_dead [keeps_rules]:
  "ok (t_id t) \<Longrightarrow> t_state t = RUNNING \<Longrightarrow> t_lease t = Some l \<Longrightarrow> keeps P (reconcile_dead C ws t l)"
  unfolding reconcile_dead_def by (intro keeps_rules) auto

lemma keeps_reconcile_running [keeps_rules]:
  "ok (t_id t) \<Longrightarrow> t_state t = RUNNING \<Longrightarrow> t_lease t = Some l \<Longrightarrow> keeps P (reconcile_running C ws t l)"
  unfolding reconcile_running_def drop_stale_def act_on_def by_liveness_def by (intro keeps_rules) auto

lemma keeps_reconcile_waiting [keeps_rules]:
  assumes "ok (t_id t)" and "t_state t = WAITING"
  shows "keeps P (reconcile_waiting C t)"
  unfolding reconcile_waiting_def using assms by (intro keeps_rules) (auto simp: startable_def)

lemma keeps_reconcile_state [keeps_rules]: "ok (t_id t) \<Longrightarrow> keeps P (reconcile_state C ws t)"
  unfolding reconcile_state_def
  by (cases "t_state t") (auto intro!: keeps_rules simp: startable_def)

lemma keeps_request_rotation [keeps_rules]:
  assumes "ok i"
  shows "keeps P (request_rotation (c_env C) i rv rid actor cf)"
proof -
  have get: "keeps P (bnd (asks (store_get i)) f)"
    if "\<And>t. t_id t = i \<Longrightarrow> keeps P (f t)" for f :: "task \<Rightarrow> ('x pass, task) cmd"
  proof (rule keepsI)
    fix s assume P: "P s"
    then show "wp (bnd (asks (store_get i)) f) (\<lambda>_. P) s"
      using names [OF P] that by (auto simp: wp_rules store_get_Inr keeps_def dest: namedD)
  qed
  then show ?thesis
    unfolding request_rotation_def Let_def using assms
    by (intro get keeps_rules task_step.annotate [of "''rotation_request''"]) (auto simp: moves_def)
qed

lemma keeps_reconcile_task [keeps_rules]: "ok (t_id t) \<Longrightarrow> keeps P (reconcile_task C ws t)"
proof -
  assume ok: "ok (t_id t)"
  have state: "wp (reconcile_state C ws u) (\<lambda>_. P) s" if "P s" "t_id u = t_id t" for u s
    using keeps_reconcile_state [of u] that ok by (simp add: keeps_def)
  show "keeps P (reconcile_task C ws t)"
  proof (rule keepsI)
    fix s assume P: "P s"
    have "wp (drain_request C t) (\<lambda>r s'. P s' \<and> (\<forall>u. r = Inr u \<longrightarrow> t_id u = t_id t)) s"
    proof (rule wp_conj)
      have "keeps P (drain_request C t)"
        unfolding drain_request_def using ok by (intro keeps_rules)
      then show "wp (drain_request C t) (\<lambda>_. P) s" using P by (simp add: keeps_def)
      show "wp (drain_request C t) (\<lambda>r s'. \<forall>u. r = Inr u \<longrightarrow> t_id u = t_id t) s"
        by (rule wpI) (auto dest: drain_request_id [OF names [OF P]])
    qed
    then show "wp (reconcile_task C ws t) (\<lambda>_. P) s"
      unfolding reconcile_task_def wp_bnd by (rule wp_mono) (auto intro: state)
  qed
qed

lemma keeps_record_error [keeps_rules]:
  assumes "ok (t_id t)"
  shows "keeps P (record_error C t e)"
proof -
  have get: "keeps P (bnd (asks (store_get (t_id t))) f)"
    if "\<And>u. t_id u = t_id t \<Longrightarrow> keeps P (f u)" for f :: "task \<Rightarrow> ('x pass, unit) cmd"
  proof (rule keepsI)
    fix s assume P: "P s"
    then show "wp (bnd (asks (store_get (t_id t))) f) (\<lambda>_. P) s"
      using names [OF P] that by (auto simp: wp_rules store_get_Inr keeps_def dest: namedD)
  qed
  show ?thesis
    unfolding record_error_def Let_def using assms
    by (intro keeps_seq get keeps_if keeps_handle keeps_rc_commit task_step.annotate [of "''runtime_error''"] keeps_basics keeps_ret)
      (auto simp: moves_def intro: keeps_rules split: exn.split)
qed

lemma keeps_reconcile_guarded [keeps_rules]: "ok (t_id t) \<Longrightarrow> keeps P (reconcile_guarded C ws t)"
  unfolding reconcile_guarded_def
  by (intro keeps_rules) (auto intro!: keeps_rules split: exn.split)

lemma keeps_reconcile_once:
  assumes rest: "\<And>s t ws. P s \<Longrightarrow> t \<in> set (store_list s) \<Longrightarrow> \<not> ok (t_id t) \<Longrightarrow>
    keeps P (reconcile_guarded C ws t)"
  shows "keeps P (reconcile_once C)"
proof -
  have list: "keeps P (bnd (gets store_list) f)"
    if "\<And>s. P s \<Longrightarrow> keeps P (f (store_list s))" for f :: "task list \<Rightarrow> ('x pass, report) cmd"
    using that by (auto simp: keeps_def wp_rules)
  have each: "keeps P (for_each (store_list s) (reconcile_guarded C ws))" if "P s" for s ws
    using rest [OF that] by (intro keeps_for_each) (metis keeps_reconcile_guarded)
  show ?thesis
    unfolding reconcile_once_def recover_def by (intro list keeps_rules recovery each)
qed

end

subsection \<open>A pass keeps the store sound\<close>

interpretation sound_pass: pass_invariant C "sound (c_env C)" "\<lambda>_. True" for C
proof (unfold_locales, goal_cases)
  case (1 s)
  then show ?case by (simp add: sound_def farm_ok_def tasks_ok_def)
next
  case (2 s s')
  then show ?case using sound_frame by metis
next
  case 3
  show ?case by (rule keeps_sound_recover_locked)
next
  case (4 t u ev actor payload ts)
  then show ?case by (intro keeps_sound_commit_locked) (simp add: task_step_ok)
qed

text \<open>C3: whatever the executor answers, raises or leaves undone, a pass of the control loop keeps the
  store sound: every task in the file of its name, one reserved task per workspace, a lease on
  every running task and acceptance evidence on every done one, in the files and in what a
  pending journal will make of them.\<close>

theorem pass_keeps_store_sound:
  assumes "sound (c_env C) s" and "reconcile_once C s = (r, s')"
  shows "sound (c_env C) s'"
  using assms sound_pass.keeps_reconcile_once by (blast dest: keepsD)

subsection \<open>A pass leaves finished tasks alone\<close>

definition stays :: "string \<Rightarrow> task \<Rightarrow> 'z farm_scheme \<Rightarrow> bool" where
  "stays j d s \<longleftrightarrow> fmlookup (f_tasks s) j = Some d \<and> fmlookup (f_tasks (recovered s)) j = Some d"

lemma stays_commit_locked:
  assumes "t_id u \<noteq> j"
  shows "keeps (stays j d) (commit_locked E u expected ev actor payload ts)"
proof (rule keepsI, rule wpI)
  fix s r s'
  assume st: "stays j d s" and run: "commit_locked E u expected ev actor payload ts s = (r, s')"
  show "stays j d s'"
  proof (cases r)
    case (Inl e)
    then have "commit_failed E u expected s s'" using run commit_locked_Inl by blast
    then show ?thesis using st assms by (auto simp: commit_failed_def stays_def)
  next
    case (Inr saved)
    then have "commit_done E u expected ev actor payload s saved s'" using run commit_locked_Inr by blast
    then show ?thesis using st assms by (auto simp: commit_done_def stays_def)
  qed
qed

lemma keeps_both: "keeps P m \<Longrightarrow> keeps Q m \<Longrightarrow> keeps (\<lambda>s. P s \<and> Q s) m"
  by (auto simp: keeps_def intro: wp_conj)

lemma stays_recover_locked: "keeps (stays j d) recover_locked"
  by (rule keepsI, rule wpI) (auto dest!: recover_locked_outcome simp: stays_def)

lemma recovered_frame:
  "f_tasks s' = f_tasks s \<Longrightarrow> f_journal s' = f_journal s \<Longrightarrow> f_tasks (recovered s') = f_tasks (recovered s)"
  by (simp add: recovered_def settled_def split: option.split)

interpretation stable_pass: pass_invariant C "\<lambda>s. sound (c_env C) s \<and> stays j d s" "\<lambda>i. i \<noteq> j" for C j d
proof (unfold_locales, goal_cases)
  case (1 s)
  then show ?case by (simp add: sound_def farm_ok_def tasks_ok_def)
next
  case (2 s s')
  then show ?case using sound_frame [of s' s] recovered_frame [of s' s] by (simp add: stays_def)
next
  case 3
  show ?case by (intro keeps_both keeps_sound_recover_locked stays_recover_locked)
next
  case (4 t u ev actor payload ts)
  then show ?case
    by (intro keeps_both keeps_sound_commit_locked stays_commit_locked) (auto simp: task_step_ok task_step_id)
qed

lemma request_rotation_terminal:
  assumes "fmlookup (f_tasks s) i = Some d" and "terminal_state (t_state d)"
    and "request_rotation E i rv rid actor None s = (r, s')"
  shows "s' = s \<and> (\<forall>u. r = Inr u \<longrightarrow> u = d) \<and> (\<forall>e. r = Inl e \<longrightarrow> \<not> is_executor_error e)"
proof -
  have get: "store_get i s = Inr d \<or> (\<exists>m. store_get i s = Inl (StoreError m))"
    using assms(1) by (auto simp: store_get_def path_for_def)
  have obj: "as_obj (meta_or d ''clean_surrender'' (JObj fmempty)) = Inl e \<Longrightarrow> \<not> is_executor_error e" for e
    by (cases "meta_or d ''clean_surrender'' (JObj fmempty)") auto
  have "wp (request_rotation E i rv rid actor None) (\<lambda>r s'. s' = s \<and> (\<forall>u. r = Inr u \<longrightarrow> u = d) \<and>
      (\<forall>e. r = Inl e \<longrightarrow> \<not> is_executor_error e)) s"
    using get assms(2) obj
    by (auto simp: request_rotation_def Let_def wp_rules terminal_state_def)
  then show ?thesis using assms(3) by (rule wpD)
qed

lemma drain_request_terminal:
  assumes "fmlookup (f_tasks s) (t_id d) = Some d" and "terminal_state (t_state d)"
    and "drain_request C d s = (r, s')"
  shows "s' = s \<and> (\<forall>u. r = Inr u \<longrightarrow> u = d) \<and> (\<forall>e. r = Inl e \<longrightarrow> \<not> is_executor_error e)"
proof -
  have dep: "deployment s = Inl e \<Longrightarrow> \<not> is_executor_error e" for e
    by (auto simp: deployment_def rbind_def ensure_def split: option.splits json.splits if_splits)
  have idx: "rbind (dindex x k) as_str = Inl e \<Longrightarrow> \<not> is_executor_error e" for x k e
    by (auto simp: dindex_def rbind_def split: option.splits elim!: as_str.elims)
  have "wp (drain_request C d) (\<lambda>r s'. s' = s \<and> (\<forall>u. r = Inr u \<longrightarrow> u = d) \<and>
      (\<forall>e. r = Inl e \<longrightarrow> \<not> is_executor_error e)) s"
    using dep idx by (auto simp: drain_request_def wp_rules
        intro!: wpI dest: request_rotation_terminal [OF assms(1,2)])
  then show ?thesis using assms(3) by (rule wpD)
qed

lemma guarded_terminal:
  assumes "terminal_state (t_state d)" and "t_id d = j"
  shows "keeps (\<lambda>s. sound (c_env C) s \<and> stays j d s) (reconcile_guarded (C :: 'x config) ws d)"
proof (rule keepsI)
  fix s :: "'x pass"
  assume P: "sound (c_env C) s \<and> stays j d s"
  then have at: "fmlookup (f_tasks s) (t_id d) = Some d" using assms(2) by (simp add: stays_def)
  have P': "sound (c_env C) (s\<lparr>p_report := x\<rparr>) \<and> stays j d (s\<lparr>p_report := x\<rparr>)" for x
    using P recovered_frame [of "s\<lparr>p_report := x\<rparr>" s] sound_frame [of "s\<lparr>p_report := x\<rparr>" s]
    by (simp add: stays_def)
  have "wp (reconcile_task C ws d) (\<lambda>r s'. s' = s \<and> (\<forall>e. r = Inl e \<longrightarrow> \<not> is_executor_error e)) s"
    unfolding reconcile_task_def wp_bnd
  proof (rule wpI, intro conjI allI impI)
    fix r s' e assume "drain_request C d s = (r, s')" "r = Inl e"
    then show "s' = s" "\<And>e'. Inl e = Inl e' \<Longrightarrow> \<not> is_executor_error e'"
      using drain_request_terminal [OF at assms(1)] by auto
  next
    fix r s' u assume "drain_request C d s = (r, s')" "r = Inr u"
    then have "u = d" "s' = s" using drain_request_terminal [OF at assms(1)] by auto
    then show "wp (reconcile_state C ws u) (\<lambda>r s'. s' = s \<and> (\<forall>e. r = Inl e \<longrightarrow> \<not> is_executor_error e)) s'"
      using assms(1) by (auto simp: reconcile_state_def terminal_state_def wp_rules)
  qed
  then show "wp (reconcile_guarded C ws d) (\<lambda>_ s. sound (c_env C) s \<and> stays j d s) s"
    unfolding reconcile_guarded_def wp_handle
    by (rule wp_mono) (use P P' in \<open>auto simp: wp_rules reporting_def split: exn.split\<close>)
qed

text \<open>A finished task is never touched again: through any pass, whatever the executor does, the
  file of a DONE or FAILED task keeps its contents, metadata included.\<close>

theorem finished_tasks_untouched:
  assumes "sound (c_env C) s" and "f_journal s = None"
    and "fmlookup (f_tasks s) j = Some d" and "terminal_state (t_state d)"
    and "reconcile_once C s = (r, s')"
  shows "fmlookup (f_tasks s') j = Some d"
proof -
  have "keeps (\<lambda>s. sound (c_env C) s \<and> stays j d s) (reconcile_once C)"
  proof (rule stable_pass.keeps_reconcile_once)
    fix u t ws
    assume P: "sound (c_env C) u \<and> stays j d u" and t: "t \<in> set (store_list u)" "\<not> t_id t \<noteq> j"
    have "named (f_tasks u)" using P by (simp add: sound_def farm_ok_def tasks_ok_def)
    with P t have "t = d" by (auto simp: stays_def store_list_iff dest: namedD)
    then show "keeps (\<lambda>s. sound (c_env C) s \<and> stays j d s) (reconcile_guarded C ws t)"
      using guarded_terminal assms(4) t by metis
  qed
  moreover have "sound (c_env C) s \<and> stays j d s" using assms by (simp add: stays_def)
  ultimately show ?thesis using assms(5) by (auto dest: keepsD simp: stays_def)
qed

end
