(* ===== verification/Leases.thy ===== *)
theory Leases
  imports Ownership
begin

text \<open>
  Who may hold a task: the restart budget, the conditions under which a pass revokes a lease, and
  the order of persistence and dispatch.
\<close>

subsection \<open>The restart budget\<close>

definition within :: "int \<Rightarrow> (string, task) fmap \<Rightarrow> bool" where
  "within mx ts \<longleftrightarrow> (\<forall>i t n. fmlookup ts i = Some t \<longrightarrow> restarts t = Inr n \<longrightarrow> n \<le> mx)"

definition budget_ok :: "'x config \<Rightarrow> 'x pass \<Rightarrow> bool" where
  "budget_ok C s \<longleftrightarrow> sound (c_env C) s \<and> 0 \<le> c_max C \<and> within (c_max C) (f_tasks s) \<and>
     within (c_max C) (f_tasks (recovered s))"

lemma within_upd: "within mx ts \<Longrightarrow> (\<And>n. restarts t = Inr n \<Longrightarrow> n \<le> mx) \<Longrightarrow> within mx (fmupd i t ts)"
  by (simp add: within_def)

lemma dget_or_append: "dget_or (m ++\<^sub>f p) k v = (case fmlookup p k of Some w \<Rightarrow> w | None \<Rightarrow> dget_or m k v)"
  by (simp split: option.split)

lemma restarts_patch:
  "restarts (t\<lparr>t_meta := t_meta t ++\<^sub>f p\<rparr>) =
     (case fmlookup p ''automatic_restarts'' of Some w \<Rightarrow> as_int w | None \<Rightarrow> restarts t)"
  by (auto simp: restarts_def dget_or_append split: option.split)

text \<open>The values the counter can take in a patch.\<close>

definition counter_in :: "json set \<Rightarrow> dict \<Rightarrow> bool" where
  "counter_in V d \<longleftrightarrow> (\<forall>v. fmlookup d ''automatic_restarts'' = Some v \<longrightarrow> v \<in> V)"

lemma counter_in_parts:
  "counter_in V (obj (launch_fields C issued w ts))"
  "counter_in V d \<Longrightarrow> JInt 0 \<in> V \<Longrightarrow> counter_in V (dput d (surrender_reset t))"
  "counter_in V d \<Longrightarrow> JInt 0 \<in> V \<Longrightarrow> counter_in V (dput d (rework_reset t))"
  "counter_in V d \<Longrightarrow> counter_in V (dput d (digest_field digest))"
  by (auto simp: counter_in_def launch_fields_def surrender_reset_def rework_reset_def digest_field_def
      split: option.split)

lemma launch_patch_restarts:
  assumes "launch_patch C t b w ts = Inr p"
  shows "fmlookup p ''automatic_restarts'' = None \<or> fmlookup p ''automatic_restarts'' = Some (JInt 0) \<or>
    (b \<and> (\<exists>n. restarts t = Inr n \<and> fmlookup p ''automatic_restarts'' = Some (JInt (n + 1))))"
proof -
  let ?V = "{JInt 0} \<union> (if b then {JInt (n + 1) | n. restarts t = Inr n} else {})"
  from assms obtain issued count digest where count: "adoption_count t b = Inr count"
    and p: "p = obj (launch_fields C issued w ts @ surrender_reset t @ count @ rework_reset t @ digest_field digest)"
    by (auto simp: launch_patch_def rbind_Inr_iff)
  have counted: "counter_in ?V (dput d count)" if "counter_in ?V d" for d
    using count that by (auto simp: counter_in_def adoption_count_def rbind_Inr_iff split: if_splits)
  have "counter_in ?V p"
    unfolding p dput_append by (intro counter_in_parts counted) simp_all
  then show ?thesis
    by (cases "fmlookup p ''automatic_restarts''") (auto simp: counter_in_def split: if_splits)
qed

lemma resume_patch_restarts:
  assumes "resume_patch C t ts = Inr p"
  shows "fmlookup p ''automatic_restarts'' = None \<or> fmlookup p ''automatic_restarts'' = Some (JInt 0)"
  using assms
  by (auto simp: resume_patch_def rbind_Inr_iff digest_field_def split: if_splits option.splits)

lemma restarts_meta: "t_meta u = m \<Longrightarrow> restarts u = as_int (dget_or m ''automatic_restarts'' (JInt 0))"
  by (simp add: restarts_def)

lemma task_step_budget:
  assumes "task_step C t u" and "0 \<le> c_max C" and "\<And>n. restarts t = Inr n \<Longrightarrow> n \<le> c_max C"
    and "restarts u = Inr n"
  shows "n \<le> c_max C"
  using assms(1)
proof (cases rule: task_step.cases)
  case (launch l ts patch)
  then have "restarts u = (case fmlookup patch ''automatic_restarts'' of Some w \<Rightarrow> as_int w | None \<Rightarrow> restarts t)"
    using restarts_patch [of t patch] by (simp add: moves_def restarts_def)
  then show ?thesis using launch_patch_restarts [OF launch(2)] assms(2-4) by auto
next
  case (adopt dead b l ts patch)
  then have "restarts u = (case fmlookup patch ''automatic_restarts'' of Some w \<Rightarrow> as_int w | None \<Rightarrow> restarts t)"
    using restarts_patch [of t patch] by (simp add: moves_def restarts_def)
  then show ?thesis using launch_patch_restarts [OF adopt(5)] adopt(3) assms(2-4) by auto
next
  case (resume l ts patch)
  then have "restarts u = (case fmlookup patch ''automatic_restarts'' of Some w \<Rightarrow> as_int w | None \<Rightarrow> restarts t)"
    using restarts_patch [of t patch] by (simp add: moves_def restarts_def)
  then show ?thesis using resume_patch_restarts [OF resume(3)] assms(2-4) by auto
qed (use assms(3,4) in \<open>auto simp: moves_def restarts_def\<close>)

lemma restarts_revision [simp]: "restarts (with_revision r t) = restarts t"
  by (simp add: restarts_def with_revision_def)

lemma within_commit_locked:
  assumes "\<And>e n. expected = Some e \<Longrightarrow> (\<And>k. restarts e = Inr k \<Longrightarrow> k \<le> mx) \<Longrightarrow> restarts u = Inr n \<Longrightarrow> n \<le> mx"
    and "expected \<noteq> None"
  shows "keeps (\<lambda>s. within mx (f_tasks s) \<and> within mx (f_tasks (recovered s)))
    (commit_locked E u expected ev actor payload ts)"
proof (rule keepsI, rule wpI)
  fix s r s'
  assume w: "within mx (f_tasks s) \<and> within mx (f_tasks (recovered s))"
    and run: "commit_locked E u expected ev actor payload ts s = (r, s')"
  have new: "within mx (fmupd (t_id u) (with_revision k u) (f_tasks (recovered s)))"
    if "commit_checks E u expected (recovered s) = Inr k" for k
  proof -
    from assms(2) obtain e where e: "expected = Some e" by auto
    then have "fmlookup (f_tasks (recovered s)) (t_id u) = Some e" using commit_checks_Inr(2) [OF that] by simp
    then have "\<And>k. restarts e = Inr k \<Longrightarrow> k \<le> mx" using w by (auto simp: within_def)
    then show ?thesis using w assms(1) [OF e] by (intro within_upd) auto
  qed
  show "within mx (f_tasks s') \<and> within mx (f_tasks (recovered s'))"
  proof (cases r)
    case (Inl e)
    then have "commit_failed E u expected s s'" using run commit_locked_Inl by blast
    then show ?thesis using w new by (auto simp: commit_failed_def)
  next
    case (Inr saved)
    then have "commit_done E u expected ev actor payload s saved s'" using run commit_locked_Inr by blast
    then show ?thesis using new by (auto simp: commit_done_def)
  qed
qed

lemma keeps_budget:
  assumes "keeps (sound (c_env C)) m"
    and "0 \<le> c_max C \<Longrightarrow> keeps (\<lambda>s. within (c_max C) (f_tasks s) \<and> within (c_max C) (f_tasks (recovered s))) m"
  shows "keeps (budget_ok C) m"
proof (rule keepsI)
  fix s assume b: "budget_ok C s"
  then have "wp m (\<lambda>r s. sound (c_env C) s \<and> within (c_max C) (f_tasks s) \<and> within (c_max C) (f_tasks (recovered s))) s"
    using assms by (intro wp_conj [where Q = "\<lambda>_. sound (c_env C)"]) (auto simp: keeps_def budget_ok_def)
  then show "wp m (\<lambda>_. budget_ok C) s"
    by (rule wp_mono) (use b in \<open>auto simp: budget_ok_def\<close>)
qed

interpretation budget_pass: pass_invariant C "budget_ok C" "\<lambda>_. True" for C
proof (unfold_locales, goal_cases)
  case (1 s)
  then show ?case by (simp add: budget_ok_def sound_def farm_ok_def tasks_ok_def)
next
  case (2 s s')
  then show ?case using sound_frame [of s' s] recovered_frame [of s' s] by (simp add: budget_ok_def)
next
  case 3
  show ?case
  proof (rule keeps_budget [OF keeps_sound_recover_locked])
    show "keeps (\<lambda>s. within (c_max C) (f_tasks s) \<and> within (c_max C) (f_tasks (recovered s))) recover_locked"
      by (rule keepsI, rule wpI) (auto dest!: recover_locked_outcome)
  qed
next
  case (4 t u ev actor payload ts)
  show ?case
    by (intro keeps_budget keeps_sound_commit_locked within_commit_locked)
      (use task_step_ok [OF 4(1)] task_step_budget [OF 4(1)] in auto)
qed

text \<open>C19: automatic restarts are bounded. If no task on disk has counted more than the configured
  maximum, none has after a pass: an adoption counts one up from below the maximum, and only a
  start on the master's word sets the count back.\<close>

theorem restart_budget_kept:
  assumes "budget_ok C s" and "reconcile_once C s = (r, s')"
  shows "budget_ok C s'"
  using assms budget_pass.keeps_reconcile_once by (blast dest: keepsD)

subsection \<open>Revoking a lease\<close>

text \<open>\<open>held i l s\<close>: whatever the file of task \<open>i\<close> holds, its lease is \<open>l\<close>.\<close>

definition held :: "string \<Rightarrow> lease \<Rightarrow> 'z farm_scheme \<Rightarrow> bool" where
  "held i l s \<longleftrightarrow> (\<forall>u. fmlookup (f_tasks s) i = Some u \<longrightarrow> t_lease u = Some l)"

lemma held_frame: "f_tasks s' = f_tasks s \<Longrightarrow> held i l s' = held i l s"
  by (simp add: held_def)

lemma keeps_held [keeps_rules]:
  "keeps (held i l) (now_iso E)" "keeps (held i l) (put_observed w)" "keeps (held i l) (reporting f)"
  "keeps (held i l) (note_error m)" "keeps (held i l) (exec_call g)"
  unfolding keeps_def put_observed_def reporting_def note_error_def
  by (auto simp: wp_rules held_def)

lemma keeps_held_observe [keeps_rules]: "keeps (held i l) (observe C w h j lid b)"
  unfolding observe_def by (intro keeps_rules)

text \<open>A commit on a farm without a journal either leaves the files or writes the one task.\<close>

lemma commit_locked_held:
  assumes "f_journal s = None" and "held i l s" and "t_id u = i \<Longrightarrow> t_lease u = Some l"
  shows "wp (commit_locked E u expected ev actor payload ts) (\<lambda>_. held i l) s"
proof (rule wpI)
  fix r s' assume run: "commit_locked E u expected ev actor payload ts s = (r, s')"
  show "held i l s'"
  proof (cases r)
    case (Inl e)
    then have "commit_failed E u expected s s'" using run commit_locked_Inl by blast
    then show ?thesis using assms by (auto simp: commit_failed_def held_def)
  next
    case (Inr saved)
    then have "commit_done E u expected ev actor payload s saved s'" using run commit_locked_Inr by blast
    then show ?thesis using assms by (auto simp: commit_done_def held_def split: if_splits)
  qed
qed

lemma rc_commit_held:
  assumes "f_journal s = None" and "held i l s" and "t_id u = i \<Longrightarrow> t_lease u = Some l"
  shows "wp (rc_commit C u ev payload t None) (\<lambda>_. held i l) s"
proof -
  let ?s = "s\<lparr>f_n := Suc (f_n s)\<rparr>"
  have h: "held i l ?s" using assms(2) by (simp add: held_def)
  have c: "wp (commit_locked E u ex ev actor payload ts) (\<lambda>_. held i l) ?s" for E ex actor ts
    by (rule commit_locked_held) (use assms h in auto)
  show ?thesis
    using h by (simp add: rc_commit_def commit_def wp_rules) (auto intro!: wp_mono [OF c])
qed

lemma wp_then: "wp m (\<lambda>_. P) s \<Longrightarrow> keeps P k \<Longrightarrow> wp (seq m k) (\<lambda>_. P) s"
  unfolding wp_seq by (erule wp_mono) (auto simp: keeps_def)

lemma heartbeat_held:
  assumes "f_journal s = None" and "held (t_id t) l s" and "t_lease t = Some l"
  shows "wp (heartbeat C t l) (\<lambda>_. held (t_id t) l) s"
  unfolding heartbeat_def
  by (intro wp_then keeps_rules) (use assms in \<open>auto simp: wp_ret intro: rc_commit_held\<close>)

lemma advance_held:
  assumes "f_journal s = None" and "held (t_id t) l s" and "t_lease t = Some l"
  shows "wp (advance C t l r alive WAITING patch) (\<lambda>_. held (t_id t) l) s"
  unfolding advance_def wp_bnd wp_pure
  using assms(2)
  by (auto simp: transition_task_Inr_iff assms(3) intro!: wp_then keeps_rules rc_commit_held assms(1))

lemma apply_receipt_held:
  assumes "f_journal s = None" and "held (t_id t) l s" and "t_lease t = Some l" and "r_status r = R_AWAITING"
  shows "wp (apply_receipt C t l r alive) (\<lambda>_. held (t_id t) l) s"
  using advance_held [OF assms(1-3)] assms(2)
  by (auto simp: apply_receipt_def wp_rules assms(4) reporting_def held_def split: sum.split)

text \<open>The ground on which a pass may take a lease away.\<close>

definition revocable :: "'x config \<Rightarrow> worker list \<Rightarrow> task \<Rightarrow> lease \<Rightarrow> observation \<Rightarrow> nat \<Rightarrow> bool" where
  "revocable C ws t l obs n \<longleftrightarrow>
     (\<exists>r. usable_receipt t l obs = Some r \<and> r_status r \<in> {R_SUBMITTED, R_FAILED}) \<or>
     (o_alive obs = Some False \<and> \<not> truthy (meta t ''runtime_error'') \<and> \<not> truthy (meta t ''rotation_request'') \<and>
      (\<exists>b. baseline C t l ws = Inr (Some b) \<and> old_enough (c_grace C) (env_clock (c_env C) n) b))"

lemma reconcile_dead_held:
  assumes "held (t_id t) l s"
    and "truthy (meta t ''runtime_error'') \<or> truthy (meta t ''rotation_request'') \<or>
      \<not> (\<exists>b. baseline C t l ws = Inr (Some b) \<and> old_enough (c_grace C) (env_clock (c_env C) (f_n s)) b)"
  shows "wp (reconcile_dead C ws t l) (\<lambda>_. held (t_id t) l) s"
  using assms
  by (auto simp: reconcile_dead_def durably_dead_def wp_rules reporting_def note_error_def held_def split: option.splits)

lemma by_liveness_held:
  assumes "f_journal s = None" and "held (t_id t) l s" and "t_lease t = Some l"
    and "alive = Some False \<Longrightarrow> truthy (meta t ''runtime_error'') \<or> truthy (meta t ''rotation_request'') \<or>
      \<not> (\<exists>b. baseline C t l ws = Inr (Some b) \<and> old_enough (c_grace C) (env_clock (c_env C) (f_n s)) b)"
  shows "wp (by_liveness C ws t l alive) (\<lambda>_. held (t_id t) l) s"
  unfolding by_liveness_def
  using heartbeat_held [OF assms(1-3)] reconcile_dead_held [OF assms(2)] assms(2,4)
  by (auto simp: note_error_def reporting_def wp_rules held_def split: option.split bool.split)

lemma act_on_held:
  assumes "f_journal s = None" and "held (t_id t) l s" and "t_lease t = Some l"
    and "\<not> revocable C ws t l obs (f_n s)"
  shows "wp (act_on C ws t l obs) (\<lambda>_. held (t_id t) l) s"
proof -
  have live: "wp (by_liveness C ws t l (o_alive obs)) (\<lambda>_. held (t_id t) l) s"
    using assms(4) by (intro by_liveness_held assms(1-3)) (auto simp: revocable_def)
  have "r_status rc \<noteq> R_RUNNING \<Longrightarrow> r_status rc = R_AWAITING" if "usable_receipt t l obs = Some rc" for rc
    using assms(4) that by (cases "r_status rc") (auto simp: revocable_def)
  then show ?thesis
    unfolding act_on_def using live apply_receipt_held [OF assms(1-3)] by (auto split: option.split)
qed

lemma drop_stale_effect:
  "wp (drop_stale t l obs) (\<lambda>r s'. r = Inr () \<and> (\<exists>p. s' = s\<lparr>p_report := p\<rparr>)) s"
proof -
  have "\<exists>p. s = s\<lparr>p_report := p\<rparr>" by (rule exI [of _ "p_report s"]) simp
  then show ?thesis by (auto simp: drop_stale_def reporting_def wp_rules)
qed

lemma running_held:
  assumes "f_journal s = None" and "held (t_id t) l s" and "t_lease t = Some l"
    and "\<And>obs x. ex_poll (c_exec C) (store_list s) (l_worker l) (w_exec s) = (Inr obs, x) \<Longrightarrow>
      \<not> revocable C ws t l obs (f_n s)"
  shows "wp (reconcile_running C ws t l) (\<lambda>_. held (t_id t) l) s"
  unfolding reconcile_running_def wp_bnd wp_exec_call
proof (intro allI impI conjI)
  fix r x e assume "ex_poll (c_exec C) (store_list s) (l_worker l) (w_exec s) = (r, x)" "r = Inl e"
  show "held (t_id t) l (s\<lparr>w_exec := x\<rparr>)" using assms(2) by (simp add: held_def)
next
  fix r x obs assume "ex_poll (c_exec C) (store_list s) (l_worker l) (w_exec s) = (r, x)" "r = Inr obs"
  then have not: "\<not> revocable C ws t l obs (f_n s)" using assms(4) by simp
  have act: "wp (act_on C ws t l obs) (\<lambda>_. held (t_id t) l) (s\<lparr>w_exec := x, p_report := p\<rparr>)" for p
    using assms(1,2) not by (intro act_on_held assms(3)) (auto simp: held_def)
  show "wp (seq (drop_stale t l obs) (act_on C ws t l obs)) (\<lambda>_. held (t_id t) l) (s\<lparr>w_exec := x\<rparr>)"
    unfolding wp_seq by (rule wp_mono [OF drop_stale_effect]) (auto intro: act)
qed

text \<open>C4: a lease is taken from a running worker only on evidence. If the file of a running task shows
  another lease, or none, after the reconciler has handled it, then this very poll returned
  either a SUBMITTED or FAILED receipt naming the lease, its worker and the task, or a positive
  observation of death with no unresolved error or rotation on the task and the last recorded
  sign of life at least the grace period old. An unknown worker never loses its lease.\<close>

theorem lease_revoked_on_evidence:
  assumes "f_journal s = None" and "t_state t = RUNNING" and "t_lease t = Some l"
    and "fmlookup (f_tasks s) (t_id t) = Some t"
    and "reconcile_state C ws t s = (r, s')"
    and "fmlookup (f_tasks s') (t_id t) = Some u" and "t_lease u \<noteq> Some l"
  shows "\<exists>obs x. ex_poll (c_exec C) (store_list s) (l_worker l) (w_exec s) = (Inr obs, x) \<and>
    ((\<exists>rc. o_receipt obs = Some rc \<and> fenced t l rc \<and> r_status rc \<in> {R_SUBMITTED, R_FAILED}) \<or>
     (o_alive obs = Some False \<and> \<not> truthy (meta t ''runtime_error'') \<and> \<not> truthy (meta t ''rotation_request'') \<and>
      (\<exists>b. baseline C t l ws = Inr (Some b) \<and> old_enough (c_grace C) (env_clock (c_env C) (f_n s)) b)))"
proof (rule ccontr)
  assume none: "\<not> ?thesis"
  have h: "held (t_id t) l s" using assms(3,4) by (simp add: held_def)
  have "wp (reconcile_running C ws t l) (\<lambda>_. held (t_id t) l) s"
    by (rule running_held [OF assms(1) h assms(3)])
      (use none in \<open>auto simp: revocable_def usable_receipt_def split: option.splits if_splits\<close>)
  moreover have "reconcile_state C ws t = reconcile_running C ws t l"
    using assms(2,3) by (simp add: reconcile_state_def)
  ultimately have "held (t_id t) l s'" using assms(5) by (auto dest: wpD)
  then show False using assms(6,7) by (simp add: held_def)
qed

subsection \<open>Persist before dispatch\<close>

lemma more_exec: "farm.more s' = farm.more s \<Longrightarrow> w_exec s' = w_exec (s :: 'x pass)"
  by (cases s; cases s') simp

lemma same_rest_exec: "same_rest s s' \<Longrightarrow> w_exec s' = w_exec (s :: 'x pass)"
  by (rule more_exec) (simp add: same_rest_def)

text \<open>Where a commit with a dispatch can end: refused, with the executor as it was, or in what the dispatch
  made of a farm whose file already holds the saved task.\<close>

lemma commit_dispatch:
  assumes "commit E u expected ev actor payload ts (Some d) ep (s :: 'x pass) = (r, s')"
  shows "w_exec s' = w_exec s \<or> (\<exists>saved s1 r'. commit_done E u expected ev actor payload s saved s1 \<and>
    d saved s1 = (r', s'))"
proof -
  consider e where "s' = s" | e s1 where "commit_locked E u expected ev actor payload ts s = (Inl e, s1)" "s' = s1"
    | saved s1 r' where "commit_locked E u expected ev actor payload ts s = (Inr saved, s1)" "d saved s1 = (r', s')"
    using assms by (auto simp: commit_def gets_def pure_def bnd_def seq_def ret_def split: sum.splits prod.splits)
  then show ?thesis
  proof cases
    case 2
    then show ?thesis using commit_locked_Inl same_rest_exec by (metis commit_failed_def)
  next
    case 3
    then show ?thesis using commit_locked_Inr by blast
  qed simp
qed

definition recorded_dispatch :: "json \<Rightarrow> string \<Rightarrow> task \<Rightarrow> bool" where
  "recorded_dispatch epoch w t \<longleftrightarrow> (\<exists>d xs. meta t ''dispatches'' = JObj d \<and> dget d ''epoch'' = epoch \<and>
     dget d ''workers'' = JList xs \<and> JStr w \<in> set xs)"

lemma recorded_revision [simp]: "recorded_dispatch ep w (with_revision r t) = recorded_dispatch ep w t"
  by (simp add: recorded_dispatch_def)

lemma dispatches_parts:
  "fmlookup (dput d (surrender_reset t)) ''dispatches'' = fmlookup d ''dispatches''"
  "fmlookup (dput d (rework_reset t)) ''dispatches'' = fmlookup d ''dispatches''"
  "fmlookup (dput d (digest_field digest)) ''dispatches'' = fmlookup d ''dispatches''"
  "adoption_count t b = Inr count \<Longrightarrow> fmlookup (dput d count) ''dispatches'' = fmlookup d ''dispatches''"
  by (auto simp: surrender_reset_def rework_reset_def digest_field_def adoption_count_def rbind_Inr_iff
      split: option.splits if_splits)

lemma launch_patch_dispatches:
  assumes "launch_patch C t b w ts = Inr p"
  shows "\<exists>issued. fmlookup p ''dispatches'' =
    Some (JObj (obj [(''epoch'', c_epoch C), (''workers'', JList (issued @ [JStr w]))]))"
proof -
  from assms obtain issued count digest where count: "adoption_count t b = Inr count"
    and p: "p = obj (launch_fields C issued w ts @ surrender_reset t @ count @ rework_reset t @ digest_field digest)"
    by (auto simp: launch_patch_def rbind_Inr_iff)
  show ?thesis
    unfolding p dput_append dispatches_parts dispatches_parts(4) [OF count]
    by (auto simp: launch_fields_def)
qed

lemma leased_task_Inr:
  "leased_task t base l patch = Inr u \<Longrightarrow> t_lease base = None \<and> t_lease u = Some l \<and> t_id u = t_id base \<and>
     t_meta u = t_meta base ++\<^sub>f patch \<and>
     t_state u = (if t_state base \<in> {READY, SUBMITTED, WAITING} then RUNNING else t_state base)"
  by (auto simp: leased_task_def rbind_Inr_iff acquire_lease_Inr_iff transition_task_Inr_iff split: if_splits)

lemma launch_base:
  "(case from of None \<Rightarrow> Inr t | Some d \<Rightarrow> rotate_lease t d r) = Inr base \<Longrightarrow>
   base = t \<or> (\<exists>l. t_lease t = Some l \<and> from = Some (l_worker l) \<and> base = t\<lparr>t_lease := None\<rparr>)"
  by (auto simp: rotate_lease_Inr_iff split: option.splits)

lemma leased_task_recorded:
  assumes "leased_task t base l patch = Inr u" and "launch_patch C t b (l_worker l) ts = Inr patch"
  shows "recorded_dispatch (c_epoch C) (l_worker l) u"
  using leased_task_Inr [OF assms(1)] launch_patch_dispatches [OF assms(2)]
  by (auto simp: recorded_dispatch_def)

lemma keeps_files [keeps_rules]:
  "keeps (\<lambda>s. f_tasks s = T) (exec_call g)" "keeps (\<lambda>s. f_tasks s = T) (observe C w h i lid b)"
  by (auto simp: keeps_def observe_def put_observed_def wp_rules)

lemma dispatch_start_tasks: "keeps (\<lambda>s. f_tasks s = T) (dispatch_start C d i l saved)"
  unfolding dispatch_start_def by (intro keeps_rules)

text \<open>C5: nothing is dispatched that is not persisted. If a launch has called the executor at all, even if
  that call raised or the process died right after it, the task's file already holds the task
  RUNNING under the new lease, with the new worker in the list of workers dispatched in this
  epoch that a later release must see dead.\<close>

theorem persisted_before_dispatch:
  assumes "launch C t from dead s = (r, s')" and "w_exec s' \<noteq> w_exec s"
    and "t_state t \<in> {READY, SUBMITTED, WAITING, RUNNING}"
  shows "\<exists>saved l. fmlookup (f_tasks s') (t_id t) = Some saved \<and> t_state saved = RUNNING \<and>
    t_lease saved = Some l \<and> recorded_dispatch (c_epoch C) (l_worker l) saved"
proof -
  have "wp (launch C t from dead) (\<lambda>r s'. w_exec s' = w_exec s \<or> (\<exists>saved l. fmlookup (f_tasks s') (t_id t) = Some saved \<and>
      t_state saved = RUNNING \<and> t_lease saved = Some l \<and> recorded_dispatch (c_epoch C) (l_worker l) saved)) s"
    (is "wp _ (\<lambda>r s'. ?Q s') s")
  proof -
    have com: "wp (commit (c_env C) u (Some t) ev actor p stamp (Some (dispatch_start C dead (t_id t) l)) ep)
        (\<lambda>r s'. ?Q s') v"
      if "(case from of None \<Rightarrow> Inr t | Some d \<Rightarrow> rotate_lease t d why) = Inr base"
        "leased_task t base l patch = Inr u" "launch_patch C t b (l_worker l) ts = Inr patch" "w_exec v = w_exec s"
      for base u l patch b ts ev actor p stamp ep v why
    proof (rule wpI)
      fix r s' assume run: "commit (c_env C) u (Some t) ev actor p stamp (Some (dispatch_start C dead (t_id t) l)) ep v = (r, s')"
      have u: "t_lease u = Some l" "t_id u = t_id t" "t_state u = RUNNING"
        using leased_task_Inr [OF that(2)] launch_base [OF that(1)] assms(3) by (auto split: if_splits)
      from commit_dispatch [OF run] show "?Q s'"
      proof
        assume "w_exec s' = w_exec v"
        then show ?thesis using that(4) by simp
      next
        assume "\<exists>saved s1 r'. commit_done (c_env C) u (Some t) ev actor p v saved s1 \<and>
          dispatch_start C dead (t_id t) l saved s1 = (r', s')"
        then obtain saved s1 r' rv where fin: "saved = with_revision rv u" "f_tasks s1 = fmupd (t_id u) saved (f_tasks (recovered v))"
          and disp: "dispatch_start C dead (t_id t) l saved s1 = (r', s')"
          by (auto simp: commit_done_def)
        then have "f_tasks s' = f_tasks s1" using keepsD [OF dispatch_start_tasks] by metis
        then show ?thesis using fin u leased_task_recorded [OF that(2,3)] by auto
      qed
    qed
    show ?thesis
      unfolding launch_def rc_commit_def mint_def
      by (auto simp: wp_bnd wp_pure wp_fresh_uuid wp_now_iso wp_ret wp_seq reporting_def wp_modify
          intro!: wp_mono [OF com])
  qed
  from wpD [OF this assms(1)] assms(2) show ?thesis by blast
qed

subsection \<open>A ready task is started\<close>

lemma wp_commit_ok:
  assumes "f_journal s = None" and "\<not> f_log_damaged s" and "commit_checks E t expected s = Inr r"
    and "require_task_writer E True epoch None s = Inr m"
    and "\<And>saved s1. commit_done E t expected ty actor payload s saved s1 \<Longrightarrow>
      wp (d saved) (\<lambda>res s'. res = Inr () \<and> Q (Inr saved) s') s1"
  shows "wp (commit E t expected ty actor payload ts (Some d) epoch) Q s"
proof -
  obtain s1 where s1: "commit_locked E t expected ty actor payload ts s = (Inr (with_revision r t), s1)"
    using commit_locked_succeeds [OF assms(1-3)] by blast
  then have "wp (d (with_revision r t)) (\<lambda>res s'. res = Inr () \<and> Q (Inr (with_revision r t)) s') s1"
    using assms(5) commit_locked_Inr by blast
  then have "wp (seq (d (with_revision r t)) (ret (with_revision r t))) Q s1"
    unfolding wp_seq wp_ret by (rule wp_mono) auto
  moreover have "wp (commit_locked E t expected ty actor payload ts)
      (\<lambda>res s'. res = Inr (with_revision r t) \<and> s' = s1) s"
    using s1 by (simp add: wp_def)
  ultimately show ?thesis
    by (simp add: commit_def wp_bnd wp_gets wp_pure assms(4) wp_option) (auto elim!: wp_mono)
qed

lemma commit_checks_start:
  assumes "commit_checks E t (Some t) s = Inr r" and "t_state t = READY" and "t_lease t = None"
    and "t_id u = t_id t" and "t_state u = RUNNING" and "meta u ''workspace'' = meta t ''workspace''"
  shows "commit_checks E u (Some t) s = Inr r"
proof -
  have "workspace_key E u = workspace_key E t" using assms(6) by (rule workspace_key_meta)
  moreover have "ws_free E u w us = ws_free E t w us" for w us
    by (induction us) (auto simp: assms(4) rbind_def split: sum.split)
  ultimately show ?thesis
    using assms by (auto simp: commit_checks_def rbind_Inr_iff transition_task_Inr_iff reserved_def split: option.splits)
qed

lemma writer_frame:
  "f_recovery s' = f_recovery s \<Longrightarrow> f_deploy s' = f_deploy s \<Longrightarrow>
   require_task_writer E d e u s' = require_task_writer E d e u s"
  by (simp add: require_task_writer_def require_no_pending_recovery_def deployment_def)

lemma checks_frame:
  assumes "f_tasks s' = f_tasks s"
  shows "commit_checks E u ex s' = commit_checks E u ex s"
  unfolding commit_checks_def store_list_def assms ..

text \<open>The lease a start mints, and what the executor is handed_over: the task as it was, RUNNING under that lease, but for
  the metadata that a start writes.\<close>

definition start_lease :: "'x config \<Rightarrow> 'z farm_scheme \<Rightarrow> task \<Rightarrow> lease" where
  "start_lease C s t = \<lparr>l_worker = ''W-'' @ t_id t @ ''-'' @ take 6 (env_uuid (c_env C) (f_n s)),
     l_id = env_uuid (c_env C) (Suc (f_n s)), l_expiry = None\<rparr>"

definition start_keys :: "string list" where
  "start_keys = [''launched_ts'', ''runtime_error'', ''worker_checkpoint'', ''dispatches'', ''rotation_request'',
     ''resume_requested'', ''restart_limit_reached'', ''automatic_restarts'', ''rework_requested'',
     ''master_notes_digest'', ''revision'']"

definition handed_over :: "task \<Rightarrow> lease \<Rightarrow> task \<Rightarrow> bool" where
  "handed_over t l u \<longleftrightarrow> t_id u = t_id t \<and> t_objective u = t_objective t \<and> t_deliverable u = t_deliverable t \<and>
     t_acceptance u = t_acceptance t \<and> t_state u = RUNNING \<and> t_lease u = Some l \<and>
     (\<forall>k. k \<notin> set start_keys \<longrightarrow> meta u k = meta t k)"

definition task_started ::
    "'x config \<Rightarrow> task \<Rightarrow> lease \<Rightarrow> 'x \<Rightarrow> string list \<Rightarrow> unit res \<Rightarrow> 'x pass \<Rightarrow> bool" where
  "task_started C t l y launched r s' \<longleftrightarrow> r = Inr () \<and>
     (\<exists>saved w h. fmlookup (f_tasks s') (t_id t) = Some saved \<and> handed_over t l saved \<and>
        ex_launch (c_exec C) saved l y = (Inr h, w_exec s') \<and>
        fmlookup (f_workers s') (l_worker l) = Some w \<and> w_state w = BUSY \<and> w_handle w = Some h) \<and>
     rp_launched (p_report s') = launched @ [t_id t]"

lemma dput_other: "k \<notin> fst ` set kvs \<Longrightarrow> fmlookup (dput d kvs) k = fmlookup d k"
  by (induction kvs arbitrary: d) (auto simp: dput_def)

lemma start_patch_keys:
  assumes "k \<notin> set start_keys"
  shows "fmlookup (obj (launch_fields C issued w ts @ surrender_reset t @ rework_reset t @ digest_field digest)) k = None"
proof -
  have "fst ` set (launch_fields C issued w ts) \<subseteq> set start_keys" "fst ` set (surrender_reset t) \<subseteq> set start_keys"
    "fst ` set (rework_reset t) \<subseteq> set start_keys" "fst ` set (digest_field digest) \<subseteq> set start_keys"
    unfolding launch_fields_def surrender_reset_def rework_reset_def digest_field_def start_keys_def
    by (auto split: option.splits)
  then have "k \<notin> fst ` set (launch_fields C issued w ts @ surrender_reset t @ rework_reset t @ digest_field digest)"
    using assms by auto
  from dput_other [OF this] show ?thesis by simp
qed

lemma ready_launches:
  assumes "f_journal s = None" and "\<not> f_log_damaged s"
    and "t_state t = READY" and "t_lease t = None"
    and "require_task_writer (c_env C) True (Some (c_epoch C)) None s = Inr m"
    and "commit_checks (c_env C) t (Some t) s = Inr rv"
    and "issued_before (c_epoch C) t = Inr issued"
    and "master_note_digest (c_env C) (meta t ''workspace'') = Inr digest"
    and exec: "\<And>u. handed_over t (start_lease C s t) u \<Longrightarrow> \<exists>h x. ex_launch (c_exec C) u (start_lease C s t) (w_exec s) = (Inr h, x)"
  shows "wp (launch C t None None) (task_started C t (start_lease C s t) (w_exec s) (rp_launched (p_report s))) s"
proof -
  define l where "l = start_lease C s t"
  have mint: "wp (mint C (t_id t)) Q s = Q (Inr l) (s\<lparr>f_n := Suc (Suc (f_n s))\<rparr>)" for Q
    by (simp add: mint_def wp_rules l_def start_lease_def)
  let ?Q = "task_started C t l (w_exec s) (rp_launched (p_report s))"
  define p where "p w ts = obj (launch_fields C issued w ts @ surrender_reset t @ rework_reset t @ digest_field digest)" for w ts
  have p: "launch_patch C t False w ts = Inr (p w ts)" "fmlookup (p w ts) ''workspace'' = None" for w ts
    unfolding p_def using assms(7,8) start_patch_keys [of "''workspace''" C issued w ts t digest]
    by (simp_all add: launch_patch_def adoption_count_def start_keys_def)
  have leased: "leased_task t t l (p (l_worker l) ts) = Inr (t\<lparr>t_lease := Some l, t_meta := t_meta t ++\<^sub>f p (l_worker l) ts, t_state := RUNNING\<rparr>)" for ts
    using assms(3,4) by (simp add: leased_task_def acquire_lease_def transition_task_def validate_transition_def execution_scoped_def)
  have com: "wp (commit (c_env C) (t\<lparr>t_lease := Some l, t_meta := t_meta t ++\<^sub>f p (l_worker l) ts, t_state := RUNNING\<rparr>) (Some t)
        ev actor pl stamp (Some (dispatch_start C None (t_id t) l)) (Some (c_epoch C)))
      (\<lambda>r s'. \<exists>x. r = Inr x \<and> ?Q (Inr ()) (s'\<lparr>p_report := (p_report s')\<lparr>rp_launched := rp_launched (p_report s') @ [t_id t]\<rparr>\<rparr>))
      (s\<lparr>f_n := n\<rparr>)" for ts ev actor pl stamp n
  proof (rule wp_commit_ok)
    show "f_journal (s\<lparr>f_n := n\<rparr>) = None" "\<not> f_log_damaged (s\<lparr>f_n := n\<rparr>)" using assms(1,2) by simp_all
    have cf: "commit_checks E u ex (s\<lparr>f_n := n\<rparr>) = commit_checks E u ex s" for E u ex
      by (rule checks_frame) simp
    show "commit_checks (c_env C) (t\<lparr>t_lease := Some l, t_meta := t_meta t ++\<^sub>f p (l_worker l) ts, t_state := RUNNING\<rparr>) (Some t) (s\<lparr>f_n := n\<rparr>) = Inr rv"
      unfolding cf by (rule commit_checks_start [OF assms(6,3,4)]) (simp_all add: p(2))
    have "require_task_writer (c_env C) True (Some (c_epoch C)) None (s\<lparr>f_n := n\<rparr>) =
        require_task_writer (c_env C) True (Some (c_epoch C)) None s" by (rule writer_frame) simp_all
    then show "require_task_writer (c_env C) True (Some (c_epoch C)) None (s\<lparr>f_n := n\<rparr>) = Inr m"
      using assms(5) by simp
    fix saved s1
    assume done': "commit_done (c_env C) (t\<lparr>t_lease := Some l, t_meta := t_meta t ++\<^sub>f p (l_worker l) ts, t_state := RUNNING\<rparr>)
      (Some t) ev actor pl (s\<lparr>f_n := n\<rparr>) saved s1"
    then obtain rv' where s1: "fmlookup (f_tasks s1) (t_id t) = Some saved"
        "saved = with_revision rv' (t\<lparr>t_lease := Some l, t_meta := t_meta t ++\<^sub>f p (l_worker l) ts, t_state := RUNNING\<rparr>)"
      and rest: "w_exec s1 = w_exec s" "p_report s1 = p_report s"
      by (auto simp: commit_done_def same_rest_def) (cases s; cases s1; simp)+
    have "meta saved k = meta t k" if "k \<notin> set start_keys" for k
    proof -
      have "fmlookup (p (l_worker l) ts) k = None" unfolding p_def by (rule start_patch_keys [OF that])
      moreover have "k \<noteq> ''revision''" using that by (auto simp: start_keys_def)
      ultimately show ?thesis by (simp add: s1(2))
    qed
    then have hand: "handed_over t l saved" by (simp add: handed_over_def s1(2)) (simp add: with_revision_def)
    then obtain h x where "ex_launch (c_exec C) saved l (w_exec s) = (Inr h, x)" using exec l_def by blast
    then show "wp (dispatch_start C None (t_id t) l saved) (\<lambda>res s'. res = Inr () \<and> (\<exists>x. Inr saved = Inr x \<and>
        ?Q (Inr ()) (s'\<lparr>p_report := (p_report s')\<lparr>rp_launched := rp_launched (p_report s') @ [t_id t]\<rparr>\<rparr>))) s1"
      using s1(1) rest hand by (simp add: dispatch_start_def observe_def put_observed_def task_started_def wp_rules)
  qed
  show ?thesis
    unfolding l_def [symmetric] launch_def rc_commit_def start_event_def reporting_def
    by (simp add: wp_pure wp_bnd wp_seq wp_now_iso wp_ret wp_modify mint p(1) leased assms(3))
      (rule wp_mono [OF com]; auto)
qed

text \<open>C20: a ready task is started. If this host may write and dispatch, the store is settled, the task's
  own file could be committed again as it is, its metadata and notes are readable, the executor
  accepts the task in its preflight check (or has none), and its launch of this task under the
  minted lease succeeds, then one step makes it RUNNING under that fresh lease on disk, has called
  the executor with exactly the saved task and that lease, registers the worker with the handle
  the executor returned and reports the launch. Nothing is asked of the executor for other tasks.\<close>

theorem ready_task_starts:
  assumes "f_journal s = None" and "\<not> f_log_damaged s"
    and "t_state t = READY" and "t_lease t = None"
    and "require_task_writer (c_env C) True (Some (c_epoch C)) None s = Inr m"
    and "commit_checks (c_env C) t (Some t) s = Inr rv"
    and "issued_before (c_epoch C) t = Inr issued"
    and "master_note_digest (c_env C) (meta t ''workspace'') = Inr digest"
    and "case ex_validate (c_exec C) of None \<Rightarrow> y = w_exec s | Some v \<Rightarrow> v t (w_exec s) = (Inr (), y)"
    and "\<And>u. handed_over t (start_lease C s t) u \<Longrightarrow> \<exists>h x. ex_launch (c_exec C) u (start_lease C s t) y = (Inr h, x)"
    and "reconcile_state C ws t s = (r, s')"
  shows "r = Inr () \<and> (\<exists>saved w h. fmlookup (f_tasks s') (t_id t) = Some saved \<and> handed_over t (start_lease C s t) saved \<and>
      ex_launch (c_exec C) saved (start_lease C s t) y = (Inr h, w_exec s') \<and>
      fmlookup (f_workers s') (l_worker (start_lease C s t)) = Some w \<and> w_state w = BUSY \<and> w_handle w = Some h) \<and>
    rp_launched (p_report s') = rp_launched (p_report s) @ [t_id t]"
proof -
  let ?s = "s\<lparr>w_exec := y\<rparr>"
  have held: "withheld s = Inr False"
    using require_task_writer_Inr(2,4,5) [OF assms(5)] by (simp add: withheld_def)
  have same: "start_lease C ?s t = start_lease C s t" by (simp add: start_lease_def)
  have "require_task_writer (c_env C) True (Some (c_epoch C)) None ?s = Inr m"
    using writer_frame [of ?s s] assms(5) by simp
  moreover have "commit_checks (c_env C) t (Some t) ?s = Inr rv"
    using checks_frame [of ?s s] assms(6) by simp
  ultimately have "wp (launch C t None None) (task_started C t (start_lease C ?s t) (w_exec ?s) (rp_launched (p_report ?s))) ?s"
    using assms(1-4,7,8,10) by (intro ready_launches) (simp_all add: same)
  then have go: "wp (launch C t None None) (task_started C t (start_lease C s t) y (rp_launched (p_report s))) ?s"
    by (simp add: same)
  have pre: "wp (preflight C t) (\<lambda>r v. r = Inr True \<and> v = ?s) s"
    using assms(9) by (auto simp: preflight_def wp_rules split: option.splits)
  have "wp (reconcile_state C ws t) (task_started C t (start_lease C s t) y (rp_launched (p_report s))) s"
    using assms(3) go
    by (simp add: reconcile_state_def start_def wp_bnd wp_asks wp_pure wp_ret held) (auto intro: wp_mono [OF pre])
  from wpD [OF this assms(11)] show ?thesis by (simp add: task_started_def)
qed

end
