(* ===== verification/Fixtures.thy ===== *)
theory Fixtures
  imports Leases
begin

text \<open>
  A small concrete farm: a host, tasks, workers and a deployment record, for the theorems that
  show each hypothesis of the development can hold.
\<close>

definition demo_identity :: dict where
  "demo_identity = obj [(''host'', JStr ''h1''), (''source_sha256'', JStr ''s''), (''protocol_version'', JStr ''1'')]"

definition demo_env :: env where
  "demo_env = \<lparr>env_uuid = (\<lambda>n. replicate (Suc n) (CHR ''u'')), env_clock = (\<lambda>n. int n),
     env_iso = (\<lambda>t. ''now''), env_parse_time = (\<lambda>s. Some (- 100000000)),
     env_sha256 = (\<lambda>s. s), env_encode = (\<lambda>s. s), env_decode = Some,
     env_json_sha = (\<lambda>d. ''sha''), env_digest = (\<lambda>d. ''digest''), env_resolve = (\<lambda>p. p),
     env_read = (\<lambda>p. Inr ''ok''), env_exists = (\<lambda>p. True), env_is_dir = (\<lambda>p. False),
     env_notes = (\<lambda>p. []), env_identity = demo_identity\<rparr>"

definition demo_task :: "string \<Rightarrow> task_state \<Rightarrow> lease option \<Rightarrow> (string \<times> json) list \<Rightarrow> task" where
  "demo_task i st l m = \<lparr>t_id = i, t_objective = ''o'', t_deliverable = ''d'', t_acceptance = ''a'',
     t_state = st, t_lease = l, t_meta = obj ((''revision'', JInt 1) # m)\<rparr>"

definition demo_lease :: lease where
  "demo_lease = \<lparr>l_worker = ''w'', l_id = ''l'', l_expiry = None\<rparr>"

definition demo_pass :: "task list \<Rightarrow> (string \<times> json) list \<Rightarrow> fake pass" where
  "demo_pass ts m = \<lparr>f_n = 0, f_root = ''/farm'', f_tasks = fmap_of_list (map (\<lambda>t. (t_id t, t)) ts),
     f_workers = fmempty, f_log = [], f_log_damaged = False, f_journal = None, f_recovery = None,
     f_deploy = (if m = [] then None else Some (JObj (obj m))), f_handoffs = fmempty, f_recoveries = fmempty,
     w_exec = fake_init, p_report = empty_report\<rparr>"

definition demo_world :: "task list \<Rightarrow> (string \<times> json) list \<Rightarrow> fake world" where
  "demo_world ts m = \<lparr>f_n = 0, f_root = ''/farm'', f_tasks = fmap_of_list (map (\<lambda>t. (t_id t, t)) ts),
     f_workers = fmempty, f_log = [], f_log_damaged = False, f_journal = None, f_recovery = None,
     f_deploy = (if m = [] then None else Some (JObj (obj m))), f_handoffs = fmempty, f_recoveries = fmempty,
     w_exec = fake_init\<rparr>"

definition demo_config :: "fake config" where
  "demo_config = \<lparr>c_env = demo_env, c_exec = fake_executor, c_actor = ''r'', c_unblock = None,
     c_grace = Finite 60, c_max = 3, c_epoch = JStr ''initial''\<rparr>"

lemmas demo_defs = demo_identity_def demo_env_def demo_task_def demo_lease_def demo_pass_def demo_world_def demo_config_def

end
