(* ===== verification/Recovery.thy ===== *)
theory Recovery
  imports Turnover
begin

text \<open>
  \<open>recovery.py\<close>: the offline recovery of a farm whose host is gone. The operator previews a
  plan, attests that everything is stopped, and applies it: a marker with the whole transaction
  fences every writer while the tasks that held a lease are retired to BLOCKED through the
  ordinary commit, the deployment gets a new execution epoch, and the marker is removed last. \<open>finish_on\<close> is the application with its way of writing as an argument, as in \<open>Store\<close>.
\<close>

subsection \<open>The plan\<close>

definition target_identity :: "env \<Rightarrow> dict" where
  "target_identity E = fmdrop ''pid_namespace'' (fmdrop ''pid'' (env_identity E))"

definition known_protocols :: "json list" where
  "known_protocols = [JInt 2, JInt 3, JInt 4]"

text \<open>A task in the plan must be cleanly surrendered, or leased exactly when it is RUNNING or WAITING,
  and its file must be found under its own id.\<close>

definition plan_task :: "'z farm_scheme \<Rightarrow> task \<Rightarrow> unit res" where
  "plan_task s t =
     rbind (ensure (clean_surrender t \<or> (t_lease t \<noteq> None \<longleftrightarrow> t_state t = RUNNING \<or> t_state t = WAITING))
              (StoreError ''unsupported state/lease combination; inspect before recovery'')) (\<lambda>_.
     rbind (store_get (t_id t) s) (\<lambda>u.
     ensure (u = t) (StoreConflict ''task filenames/identities changed during preview'')))"

definition leases_of :: "task list \<Rightarrow> lease list" where
  "leases_of ts = concat (map (\<lambda>t. case t_lease t of None \<Rightarrow> [] | Some l \<Rightarrow> [l]) ts)"

definition make_plan :: "env \<Rightarrow> 'z farm_scheme \<Rightarrow> recovery_plan res" where
  "make_plan E s =
     rbind (ensure (f_journal s = None)
              (StoreError ''pending task transaction: resolve with its original writer before recovery'')) (\<lambda>_.
     rbind (case f_deploy s of None \<Rightarrow> Inl (OSError ''no such file'') | Some j \<Rightarrow> Inr j) (\<lambda>j.
     rbind (case j of
              JObj d \<Rightarrow> if dget d ''protocol_version'' \<in> set known_protocols then Inr d
                else Inl (StoreError ''offline recovery supports only known protocol 2/3/4 manifests'')
            | _ \<Rightarrow> Inl (StoreError ''offline recovery supports only known protocol 2/3/4 manifests'')) (\<lambda>before.
     rbind (ensure (truthy (dget before ''host'') \<and>
                    fullmatch sha256_rx (py_str (dget_or before ''source_sha256'' (JStr []))))
              (StoreError ''recovery requires the original host and exact source SHA-256'')) (\<lambda>_.
     let ts = store_list s; ls = leases_of ts in
     rbind (ensure (distinct (map t_id ts)) (StoreError ''duplicate task identities; inspect before recovery'')) (\<lambda>_.
     rbind (ensure (distinct (map l_id ls) \<and> distinct (map l_worker ls))
              (StoreError ''duplicate lease/worker ownership; inspect before recovery'')) (\<lambda>_.
     rbind (rmap (plan_task s) ts) (\<lambda>_.
     Inr \<lparr>p_root = env_resolve E (f_root s), p_before = before, p_target = target_identity E, p_tasks = ts\<rparr>)))))))"

definition plan_dict :: "recovery_plan \<Rightarrow> dict" where
  "plan_dict p = obj [(''root'', JStr (p_root p)), (''before'', JObj (p_before p)), (''target'', JObj (p_target p)),
     (''tasks'', JList (map (\<lambda>t. JObj (task_to_dict t)) (p_tasks p)))]"

definition plan_digest :: "env \<Rightarrow> recovery_plan \<Rightarrow> string" where
  "plan_digest E p = env_digest E (plan_dict p)"

definition summary :: "env \<Rightarrow> recovery_plan \<Rightarrow> bool \<Rightarrow> string option \<Rightarrow> dict" where
  "summary E p pending rid = obj [(''plan_sha256'', JStr (plan_digest E p)), (''pending'', JBool pending),
     (''recovery_id'', jopt rid),
     (''from'', JObj (obj (map (\<lambda>k. (k, dget (p_before p) k)) [''host'', ''protocol_version'', ''source_sha256'']))),
     (''to'', JObj (p_target p)),
     (''hold_tasks'', JList (map (\<lambda>t. JObj (obj [(''id'', JStr (t_id t)), (''state'', JStr (state_value (t_state t))),
        (''lease'', (case t_lease t of None \<Rightarrow> JNull | Some l \<Rightarrow> JObj (lease_to_dict l)))]))
        (filter (\<lambda>t. t_lease t \<noteq> None) (p_tasks p)))),
     (''unchanged_tasks'', JList (map (\<lambda>t. JObj (obj [(''id'', JStr (t_id t)), (''state'', JStr (state_value (t_state t)))]))
        (filter (\<lambda>t. t_lease t = None) (p_tasks p)))),
     (''warning'', JStr ''No launch/kill. All old writers, workers and queued dispatches must be stopped/fenced. Retired tasks become BLOCKED until a fresh master ruling. Existing READY tasks remain READY.'')]"

subsection \<open>The transaction\<close>

definition hold_patch :: "string \<Rightarrow> task \<Rightarrow> dict" where
  "hold_patch rid t = obj [(''recovery_hold'', JObj (obj [(''id'', JStr rid),
       (''previous_state'', JStr (state_value (t_state t)))])),
     (''runtime_error'', JNull), (''resume_requested'', JNull), (''rotation_request'', JNull)]"

definition hold :: "string \<Rightarrow> task \<Rightarrow> lease \<Rightarrow> task res" where
  "hold rid t l =
     rbind (rotate_lease t (l_worker l) ''operator-attested stopped/fenced'') (\<lambda>retired.
     rbind (transition_task t BLOCKED (Some (l_id l)) False (hold_patch rid t) (Put (t_lease retired))) (\<lambda>held.
     rbind (as_int (meta_or t ''revision'' (JInt 0))) (\<lambda>r.
     Inr (with_revision (r + 1) held))))"

fun holds :: "string \<Rightarrow> task list \<Rightarrow> (string \<times> task) list res" where
  "holds rid [] = Inr []"
| "holds rid (t # ts) = (case t_lease t of
     None \<Rightarrow> holds rid ts
   | Some l \<Rightarrow> rbind (hold rid t l) (\<lambda>u. rbind (holds rid ts) (\<lambda>cs. Inr ((t_id t, u) # cs))))"

definition recovered_manifest :: "recovery_plan \<Rightarrow> string \<Rightarrow> string \<Rightarrow> dict" where
  "recovered_manifest p rid ts =
     dput (fmdrop ''pending_event'' (fmdrop ''handoff'' (fmdrop ''upgraded_from_source''
        (dput (p_before p ++\<^sub>f p_target p) [(''pid'', JNull), (''pid_namespace'', JNull), (''started_at'', JNull),
           (''loop'', JBool False), (''writer_policy'', JStr ''pinned-host''), (''recovery_id'', JStr rid),
           (''recovered_at'', JStr ts)]))))
       [(''execution_epoch'', JStr rid), (''scheduler_attestation'', JNull)]"

definition prepare :: "env \<Rightarrow> recovery_plan \<Rightarrow> string \<Rightarrow> dict \<Rightarrow> ('z farm_scheme, recovery_txn) cmd" where
  "prepare E p actor evidence =
     bnd (fresh_uuid E) (\<lambda>rid. bnd (now_iso E) (\<lambda>ts. bnd (pure (holds rid (p_tasks p))) (\<lambda>changes.
     ret \<lparr>v_id = rid, v_plan = p, v_changes = changes, v_after = recovered_manifest p rid ts,
          v_actor = actor, v_evidence = evidence, v_ts = ts\<rparr>)))"

subsection \<open>Finishing it\<close>

definition by_id :: "task list \<Rightarrow> (string, task) fmap" where
  "by_id ts = fmap_of_list (rev (map (\<lambda>t. (t_id t, t)) ts))"

definition change_of :: "recovery_txn \<Rightarrow> string \<Rightarrow> task option" where
  "change_of x i = map_of (v_changes x) i"

text \<open>Every task of the plan, and no other, is on disk, as it was or as it becomes.\<close>

definition tasks_expected :: "recovery_txn \<Rightarrow> 'z farm_scheme \<Rightarrow> bool" where
  "tasks_expected x s \<longleftrightarrow> fmdom (by_id (store_list s)) = fmdom (by_id (p_tasks (v_plan x))) \<and>
     list_all (\<lambda>i. fmlookup (by_id (store_list s)) i = fmlookup (by_id (p_tasks (v_plan x))) i \<or>
        fmlookup (by_id (store_list s)) i = change_of x i) (map t_id (p_tasks (v_plan x)))"

text \<open>A pending task commit must be one of this recovery.\<close>

definition journal_expected :: "recovery_txn \<Rightarrow> 'z farm_scheme \<Rightarrow> bool" where
  "journal_expected x s \<longleftrightarrow> (case f_journal s of
     None \<Rightarrow> True
   | Some j \<Rightarrow> change_of x (t_id (x_after j)) = Some (x_after j) \<and>
       x_before j = fmlookup (by_id (p_tasks (v_plan x))) (t_id (x_after j)) \<and>
       e_type (x_event j) = ''RECOVERY_HELD'' \<and> dget (e_payload (x_event j)) ''recovery_id'' = JStr (v_id x))"

definition finish_checks :: "recovery_txn \<Rightarrow> 'z farm_scheme \<Rightarrow> unit res" where
  "finish_checks x s =
     rbind (ensure (fullmatch hex32_rx (v_id x))
              (StoreError ''invalid recovery identity; preserve journal and inspect'')) (\<lambda>_.
     rbind (ensure (tasks_expected x s)
              (StoreConflict ''tasks changed outside recovery; preserve journal and inspect'')) (\<lambda>_.
     rbind (case f_deploy s of None \<Rightarrow> Inl (OSError ''no such file'') | Some j \<Rightarrow> Inr j) (\<lambda>j.
     rbind (ensure (j = JObj (p_before (v_plan x)) \<or> j = JObj (v_after x))
              (StoreConflict ''deployment changed outside recovery; preserve journal and inspect'')) (\<lambda>_.
     rbind (ensure (journal_expected x s)
              (StoreConflict ''unrelated task transaction during recovery; inspect before proceeding'')) (\<lambda>_.
     rbind (log_ids s) (\<lambda>_.
     ensure (case fmlookup (f_recoveries s) (v_id x) of None \<Rightarrow> True | Some y \<Rightarrow> y = x)
       (StoreConflict ''recovery archive changed; preserve and inspect'')))))))"

text \<open>
  The writes of a recovery: those of a task commit and of the log, the archive, the manifest and the
  removal of the marker. The procedure takes the write as an argument, like \<open>commit_on\<close>.
\<close>

datatype rec_step =
    Disk disk_op
  | Archive recovery_txn
  | Manifest dict
  | DropMarker

fun rec_apply :: "rec_step \<Rightarrow> 'z farm_scheme \<Rightarrow> 'z farm_scheme" where
  "rec_apply (Disk d) s = apply_op d s"
| "rec_apply (Archive x) s = s\<lparr>f_recoveries := fmupd (v_id x) x (f_recoveries s)\<rparr>"
| "rec_apply (Manifest d) s = s\<lparr>f_deploy := Some (JObj d)\<rparr>"
| "rec_apply DropMarker s = s\<lparr>f_recovery := None\<rparr>"

definition log_on :: "(disk_op \<Rightarrow> ('z farm_scheme, unit) cmd) \<Rightarrow> event \<Rightarrow> ('z farm_scheme, unit) cmd" where
  "log_on W e = bnd (gets log_ids) (\<lambda>r. bnd (pure r) (\<lambda>ids.
     if e_id e \<notin> ids then W (AppendEvent e) else W SyncLog))"

definition hold_task ::
    "(disk_op \<Rightarrow> ('z farm_scheme, unit) cmd) \<Rightarrow> env \<Rightarrow> recovery_txn \<Rightarrow> string \<times> task \<Rightarrow>
     ('z farm_scheme, unit) cmd" where
  "hold_task W E x = (\<lambda>(i, after).
     bnd (asks (store_get i)) (\<lambda>t.
     if t = after then ret ()
     else
       bnd (pure (case fmlookup (by_id (p_tasks (v_plan x))) i of None \<Rightarrow> Inl (KeyError i) | Some b \<Rightarrow> Inr b)) (\<lambda>b.
       bnd (pure (dindex (v_evidence x) ''sha256'')) (\<lambda>sha.
       bnd (commit_on W E after (Some b) ''RECOVERY_HELD'' (v_actor x)
              (obj [(''recovery_id'', JStr (v_id x)), (''evidence_sha256'', sha)]) (Some (v_ts x))) (\<lambda>_. ret ())))))"

definition recovered_event :: "env \<Rightarrow> string \<Rightarrow> recovery_txn \<Rightarrow> json \<Rightarrow> event" where
  "recovered_event E root x sha = \<lparr>e_id = v_id x, e_task = ''*'', e_type = ''FARM_RECOVERED'', e_actor = v_actor x,
     e_payload = obj [(''archive'', JStr (root @ ''/runtime/recoveries/'' @ v_id x @ ''.json'')),
       (''plan_sha256'', JStr (plan_digest E (v_plan x))), (''evidence_sha256'', sha)], e_ts = v_ts x\<rparr>"

definition old_event :: "(disk_op \<Rightarrow> ('z farm_scheme, unit) cmd) \<Rightarrow> recovery_txn \<Rightarrow> ('z farm_scheme, unit) cmd" where
  "old_event W x = (let j = dget (p_before (v_plan x)) ''pending_event'' in
     if truthy j then bnd (pure (event_from_dict j)) (log_on W) else ret ())"

definition finish_on :: "(rec_step \<Rightarrow> ('z farm_scheme, unit) cmd) \<Rightarrow> env \<Rightarrow> recovery_txn \<Rightarrow> ('z farm_scheme, unit) cmd" where
  "finish_on W E x =
     bnd (asks (finish_checks x)) (\<lambda>_.
     seq (W (Archive x))
     (seq (old_event (W \<circ> Disk) x)
     (seq (recover_on (W \<circ> Disk))
     (seq (for_each (v_changes x) (hold_task (W \<circ> Disk) E x))
     (seq (W (Manifest (v_after x)))
     (bnd (pure (dindex (v_evidence x) ''sha256'')) (\<lambda>sha.
      bnd (gets f_root) (\<lambda>root.
      seq (log_on (W \<circ> Disk) (recovered_event E root x sha))
      (W DropMarker)))))))))"

definition finish :: "env \<Rightarrow> recovery_txn \<Rightarrow> ('z farm_scheme, unit) cmd" where
  "finish = finish_on (\<lambda>d. modify (rec_apply d))"

subsection \<open>The command\<close>

definition recover_farm ::
    "env \<Rightarrow> bool \<Rightarrow> string option \<Rightarrow> string option \<Rightarrow> string option \<Rightarrow> bool \<Rightarrow> ('z farm_scheme, dict) cmd" where
  "recover_farm E apply_it expected actor evidence attest =
     (if \<not> apply_it then
        bnd (gets f_recovery) (\<lambda>pending. case pending of
          Some x \<Rightarrow> ret (summary E (v_plan x) True (Some (v_id x)))
        | None \<Rightarrow> bnd (asks (make_plan E)) (\<lambda>p. ret (summary E p False None)))
      else
        seq (guard (attest \<and> truthy (jopt actor) \<and> strip (case actor of Some a \<Rightarrow> a | None \<Rightarrow> []) \<noteq> [] \<and>
                    truthy (jopt evidence) \<and> truthy (jopt expected))
               (StoreError ''apply requires --attest-stopped, --actor, --evidence-file and --expected-plan''))
        (bnd (pure (snapshot_file E (the evidence))) (\<lambda>ev.
         bnd (gets f_recovery) (\<lambda>pending.
         bnd (case pending of
                Some x \<Rightarrow>
                  bnd (pure (dindex (v_evidence x) ''sha256'')) (\<lambda>sha.
                  seq (guard (Some (v_actor x) = actor \<and> sha = dget ev ''sha256'')
                         (StoreConflict ''pending recovery requires its original actor and evidence contents''))
                      (ret x))
              | None \<Rightarrow> bnd (asks (make_plan E)) (\<lambda>p. prepare E p (the actor) ev)) (\<lambda>x.
         seq (guard (Some (plan_digest E (v_plan x)) = expected)
                (StoreConflict ''recovery plan changed; preview and review again''))
         (bnd (gets f_root) (\<lambda>root.
          seq (guard (p_target (v_plan x) = target_identity E \<and> p_root (v_plan x) = env_resolve E root)
                 (StoreConflict ''recovery source/host/boot/root changed; retain original recovery environment''))
          (seq (modify (\<lambda>s. s\<lparr>f_recovery := Some x\<rparr>))
          (seq (finish E x)
          (ret (summary E (v_plan x) False (Some (v_id x)))))))))))))"

subsection \<open>What a plan guarantees\<close>

lemma hold_eq:
  "t_lease t = Some l \<Longrightarrow> hold rid t l = Inr u \<longleftrightarrow> t_state t \<in> {RUNNING, WAITING} \<and>
     (\<exists>r. as_int (meta_or t ''revision'' (JInt 0)) = Inr r \<and>
        u = with_revision (r + 1) (t\<lparr>t_state := BLOCKED, t_meta := t_meta t ++\<^sub>f hold_patch rid t, t_lease := None\<rparr>))"
  by (cases "t_state t") (auto simp: hold_def rbind_Inr_iff rotate_lease_Inr_iff transition_task_Inr_iff)

lemma hold_Inr:
  assumes "hold rid t l = Inr u" and "t_lease t = Some l"
  shows "t_id u = t_id t" "t_state u = BLOCKED" "t_lease u = None" "t_state t \<in> {RUNNING, WAITING}"
    "\<exists>r. as_int (meta_or t ''revision'' (JInt 0)) = Inr r \<and> with_revision (r + 1) u = u"
    "meta u ''recovery_hold'' = JObj (obj [(''id'', JStr rid), (''previous_state'', JStr (state_value (t_state t)))])"
    "meta u ''workspace'' = meta t ''workspace''"
  using assms by (auto simp: hold_eq with_revision_def hold_patch_def)

lemma holds_sound:
  "holds rid ts = Inr cs \<Longrightarrow> (i, u) \<in> set cs \<Longrightarrow>
     \<exists>t\<in>set ts. t_id t = i \<and> (\<exists>l. t_lease t = Some l \<and> hold rid t l = Inr u)"
  by (induction ts arbitrary: cs) (auto simp: rbind_Inr_iff split: option.splits)

lemma holds_complete:
  "holds rid ts = Inr cs \<Longrightarrow> t \<in> set ts \<Longrightarrow> t_lease t = Some l \<Longrightarrow> \<exists>u. (t_id t, u) \<in> set cs \<and> hold rid t l = Inr u"
  by (induction ts arbitrary: cs) (fastforce simp: rbind_Inr_iff split: option.splits)+

lemma holds_keys: "holds rid ts = Inr cs \<Longrightarrow> map fst cs = map t_id (filter (\<lambda>t. t_lease t \<noteq> None) ts)"
  by (induction ts arbitrary: cs) (auto simp: rbind_Inr_iff split: option.splits)

lemma by_id_lookup:
  assumes "distinct (map t_id ts)"
  shows "fmlookup (by_id ts) i = Some t \<longleftrightarrow> t \<in> set ts \<and> t_id t = i"
proof -
  let ?ps = "rev (map (\<lambda>t. (t_id t, t)) ts)"
  have "map fst ?ps = rev (map t_id ts)" by (simp add: rev_map [symmetric] o_def)
  then have "distinct (map fst ?ps)" using assms by simp
  then have "fmlookup (by_id ts) i = Some t \<longleftrightarrow> (i, t) \<in> set ?ps"
    by (simp add: by_id_def fmlookup_of_list)
  then show ?thesis by auto
qed

lemma store_list_ids:
  assumes "named (f_tasks s)"
  shows "map t_id (store_list s) = file_order (f_tasks s)"
  using namedD [OF assms] unfolding store_list_def file_list_def
  by (auto intro!: map_idI simp: fmlookup_dom_iff)

lemma by_id_store_list:
  assumes "named (f_tasks s)"
  shows "by_id (store_list s) = f_tasks s"
proof (rule fmap_ext)
  fix i
  have "distinct (map t_id (store_list s))" using store_list_ids [OF assms] by simp
  then have "fmlookup (by_id (store_list s)) i = Some t \<longleftrightarrow> fmlookup (f_tasks s) i = Some t" for t
    using namedD [OF assms] by (auto simp: by_id_lookup store_list_iff)
  then show "fmlookup (by_id (store_list s)) i = fmlookup (f_tasks s) i"
    by (metis option.exhaust)
qed

subsection \<open>A recovery under way\<close>

text \<open>What a prepared transaction satisfies.\<close>

definition planned :: "recovery_txn \<Rightarrow> string \<Rightarrow> task option" where
  "planned x i = fmlookup (by_id (p_tasks (v_plan x))) i"

definition txn_ok :: "env \<Rightarrow> recovery_txn \<Rightarrow> bool" where
  "txn_ok E x \<longleftrightarrow> distinct (map t_id (p_tasks (v_plan x))) \<and>
     list_all (\<lambda>t. fullmatch task_id_rx (t_id t) \<and> (\<exists>k. workspace_key E t = Inr k)) (p_tasks (v_plan x)) \<and>
     holds (v_id x) (p_tasks (v_plan x)) = Inr (v_changes x) \<and>
     fullmatch hex32_rx (v_id x) \<and> (\<exists>sha. dindex (v_evidence x) ''sha256'' = Inr sha) \<and>
     (truthy (dget (p_before (v_plan x)) ''pending_event'') \<longrightarrow>
        (\<exists>ev. event_from_dict (dget (p_before (v_plan x)) ''pending_event'') = Inr ev))"

text \<open>The farm of an died_midway recovery: the marker is there, every task is as planned or already
  retired, the deployment is the old or the new one, and a pending commit is one of ours.\<close>

definition midway :: "recovery_txn \<Rightarrow> 'z farm_scheme \<Rightarrow> bool" where
  "midway x s \<longleftrightarrow> f_recovery s = Some x \<and> \<not> f_log_damaged s \<and>
     (\<forall>i. fmlookup (f_tasks s) i = planned x i \<or> (change_of x i \<noteq> None \<and> fmlookup (f_tasks s) i = change_of x i)) \<and>
     (f_deploy s = Some (JObj (p_before (v_plan x))) \<or> f_deploy s = Some (JObj (v_after x))) \<and>
     journal_expected x s \<and>
     (fmlookup (f_recoveries s) (v_id x) = None \<or> fmlookup (f_recoveries s) (v_id x) = Some x)"

lemma change_planned:
  assumes "txn_ok E x" and "change_of x i = Some u"
  obtains t l where "planned x i = Some t" "t_lease t = Some l" "hold (v_id x) t l = Inr u" "t_id t = i" "t_id u = i"
proof -
  from assms obtain t l where "t \<in> set (p_tasks (v_plan x))" "t_id t = i" "t_lease t = Some l" "hold (v_id x) t l = Inr u"
    unfolding txn_ok_def change_of_def by (blast dest: map_of_SomeD holds_sound)
  moreover then have "planned x i = Some t"
    using assms(1) by (auto simp: planned_def txn_ok_def by_id_lookup)
  ultimately show thesis using that hold_Inr(1) by metis
qed

lemma planned_ok:
  assumes "txn_ok E x" and "planned x i = Some t"
  shows "t_id t = i" "fullmatch task_id_rx i" "\<exists>k. workspace_key E t = Inr k"
  using assms by (auto simp: planned_def txn_ok_def by_id_lookup list_all_iff)

lemma leased_changes:
  assumes "txn_ok E x" and "planned x i = Some t" and "t_lease t = Some l"
  shows "\<exists>u. change_of x i = Some u \<and> hold (v_id x) t l = Inr u"
proof -
  from assms have t: "t \<in> set (p_tasks (v_plan x))" "t_id t = i" "holds (v_id x) (p_tasks (v_plan x)) = Inr (v_changes x)"
    and d: "distinct (map t_id (p_tasks (v_plan x)))"
    by (auto simp: planned_def txn_ok_def by_id_lookup)
  from holds_complete [OF t(3,1) assms(3)] t(2) obtain u where u: "(i, u) \<in> set (v_changes x)" "hold (v_id x) t l = Inr u"
    by auto
  have "distinct (map fst (v_changes x))" using holds_keys [OF t(3)] d by (simp add: distinct_map_filter)
  then show ?thesis using u by (auto simp: change_of_def)
qed

lemma changes_distinct: "txn_ok E x \<Longrightarrow> distinct (map fst (v_changes x))"
  using holds_keys [of "v_id x" "p_tasks (v_plan x)" "v_changes x"] by (auto simp: txn_ok_def distinct_map_filter)

lemma midway_at:
  "midway x s \<Longrightarrow> fmlookup (f_tasks s) i = planned x i \<or>
     (change_of x i \<noteq> None \<and> fmlookup (f_tasks s) i = change_of x i)"
  unfolding midway_def by blast

lemma midway_named:
  assumes "txn_ok E x" and "midway x s"
  shows "named (f_tasks s)"
proof -
  have "t_id t = i \<and> fullmatch task_id_rx i" if "fmlookup (f_tasks s) i = Some t" for i t
  proof -
    from that midway_at [OF assms(2), of i] consider "planned x i = Some t" | "change_of x i = Some t" by auto
    then show ?thesis
    proof cases
      case 1
      then show ?thesis using planned_ok(1,2) [OF assms(1)] by blast
    next
      case 2
      then obtain t' where "planned x i = Some t'" "t_id t = i" by (rule change_planned [OF assms(1)])
      then show ?thesis using planned_ok(2) [OF assms(1)] by blast
    qed
  qed
  then show ?thesis by (simp add: named_def)
qed

lemma midway_checks:
  assumes "txn_ok E x" and "midway x s"
  shows "finish_checks x s = Inr ()"
proof -
  have b: "by_id (store_list s) = f_tasks s" by (rule by_id_store_list [OF midway_named [OF assms]])
  note at = midway_at [OF assms(2)]
  have "fmlookup (f_tasks s) i = None \<longleftrightarrow> planned x i = None" for i
    using at [of i] change_planned [OF assms(1), of i] by fastforce
  then have "fmdom (f_tasks s) = fmdom (by_id (p_tasks (v_plan x)))"
    by (auto simp: fset_eq_iff fmlookup_dom_iff planned_def) (metis option.exhaust)+
  then have "tasks_expected x s"
    using at unfolding tasks_expected_def b planned_def [symmetric] by (auto simp: list_all_iff)
  then show ?thesis
    using assms by (auto simp: finish_checks_def midway_def txn_ok_def rbind_Inr_iff ensure_def split: option.splits)
qed

text \<open>Each single write of the procedure keeps a recovery under way.\<close>

lemma midway_upd [simp]:
  "midway x (s\<lparr>f_n := n\<rparr>) = midway x s"
  "midway x (s\<lparr>f_log := l\<rparr>) = midway x s"
  by (simp_all add: midway_def journal_expected_def)

lemma midway_writes:
  assumes "midway x s"
  shows "midway x (s\<lparr>f_recoveries := fmupd (v_id x) x (f_recoveries s)\<rparr>)"
    "midway x (s\<lparr>f_deploy := Some (JObj (v_after x))\<rparr>)"
    "midway x (s\<lparr>f_journal := None\<rparr>)"
    "journal_expected x (s\<lparr>f_journal := Some j\<rparr>) \<Longrightarrow> midway x (s\<lparr>f_journal := Some j\<rparr>)"
    "change_of x i = Some u \<Longrightarrow> midway x (s\<lparr>f_tasks := fmupd i u (f_tasks s)\<rparr>)"
  using assms by (auto simp: midway_def journal_expected_def)

definition keeps_changes :: "recovery_txn \<Rightarrow> 'z farm_scheme \<Rightarrow> 'z farm_scheme \<Rightarrow> bool" where
  "keeps_changes x s s' \<longleftrightarrow> (\<forall>i. change_of x i \<noteq> None \<longrightarrow> fmlookup (f_tasks s) i = change_of x i \<longrightarrow>
     fmlookup (f_tasks s') i = change_of x i)"

lemma keeps_changes_refl [simp]: "keeps_changes x s s"
  by (simp add: keeps_changes_def)

lemma keeps_changes_trans: "keeps_changes x s t \<Longrightarrow> keeps_changes x t u \<Longrightarrow> keeps_changes x s u"
  by (simp add: keeps_changes_def)

lemma recover_midway:
  assumes ok: "txn_ok E x" and mid: "midway x s"
  obtains ops where "recover_ops s = Inr ops" "recover_locked s = (Inr (), run_ops ops s)"
    "recovered s = run_ops ops s" "\<And>n. midway x (run_ops (take n ops) s)" "f_journal (run_ops ops s) = None"
    "keeps_changes x s (run_ops ops s)" "f_recoveries (run_ops ops s) = f_recoveries s"
proof (cases "f_journal s")
  case None
  then show thesis using that [of "[]"] mid by (simp add: recover_locked_eq)
next
  case (Some j)
  let ?a = "x_after j" let ?i = "t_id (x_after j)"
  from mid Some have u: "change_of x ?i = Some ?a" and b: "x_before j = planned x ?i"
    by (auto simp: midway_def journal_expected_def planned_def)
  obtain t where t: "planned x ?i = Some t" using change_planned [OF ok u] .
  have "fullmatch task_id_rx ?i" using planned_ok(2) [OF ok t] .
  then obtain ops where ops: "recover_ops s = Inr ops"
    using recover_ops_some [OF Some] midway_at [OF mid, of ?i] mid b u by (auto simp: midway_def)
  let ?ev = "if e_id (x_event j) \<notin> e_id ` set (f_log s) then AppendEvent (x_event j) else SyncLog"
  have eq: "ops = [WriteTask ?a, ?ev, DropJournal]" using ops by (simp add: recover_ops_some [OF Some])
  let ?s1 = "s\<lparr>f_tasks := fmupd ?i ?a (f_tasks s)\<rparr>"
  have m1: "midway x ?s1" by (rule midway_writes(5) [OF mid u])
  then have m2: "midway x (apply_op ?ev ?s1)" by simp
  have m3: "midway x (apply_op DropJournal (apply_op ?ev ?s1))" using midway_writes(3) [OF m2] by simp
  have "midway x (run_ops (take n ops) s)" for n
  proof -
    consider "n = 0" | "n = 1" | "n = 2" | k where "n = Suc (Suc (Suc k))"
      by (metis One_nat_def numeral_2_eq_2 not0_implies_Suc)
    then show ?thesis
      by cases (use mid m1 m2 m3 in \<open>simp_all add: eq numeral_2_eq_2\<close>)
  qed
  moreover have "keeps_changes x s (run_ops ops s)" using u by (simp add: eq keeps_changes_def)
  ultimately show thesis using that [OF ops] recover_ops_recovered [OF ops] by (simp add: recover_locked_eq ops eq)
qed

text \<open>Retiring one task: its commit is checked and written step by step.\<close>

lemma hold_checks:
  assumes "txn_ok E x" and "planned x i = Some t" and "change_of x i = Some u"
    and "fmlookup (f_tasks s) i = Some t"
  obtains r where "commit_checks E u (Some t) s = Inr r" "with_revision r u = u"
proof -
  obtain t' l where t: "planned x i = Some t'" "t_lease t' = Some l" "hold (v_id x) t' l = Inr u" "t_id u = i"
    using change_planned [OF assms(1,3)] by metis
  then have eq: "t' = t" using assms(2) by simp
  note h = hold_Inr [OF t(3,2), unfolded eq]
  obtain r where r: "as_int (meta_or t ''revision'' (JInt 0)) = Inr r" "with_revision (r + 1) u = u" using h(5) by blast
  have i: "t_id t = i" "fullmatch task_id_rx i" using planned_ok [OF assms(1,2)] by auto
  obtain k where "workspace_key E t = Inr k" using planned_ok(3) [OF assms(1,2)] ..
  then have "workspace_key E u = Inr k" using workspace_key_meta [OF h(7), of E] by simp
  moreover have "\<not> reserved (t_state u)" using h(2) by (simp add: reserved_def)
  moreover have "t_lease t = Some l" using t(2) eq by simp
  ultimately have "commit_checks E u (Some t) s = Inr (r + 1)"
    using h(1-4) i r(1) assms(4) t(4)
    by (cases "t_state t") (auto simp: commit_checks_def rbind_Inr_iff transition_task_Inr_iff split: option.split)
  then show thesis using that r(2) by blast
qed

definition completed :: "recovery_txn \<Rightarrow> 'z farm_scheme \<Rightarrow> bool" where
  "completed x s \<longleftrightarrow> f_recovery s = None \<and> f_journal s = None \<and> f_deploy s = Some (JObj (v_after x)) \<and>
     fmlookup (f_recoveries s) (v_id x) = Some x \<and> v_id x \<in> e_id ` set (f_log s) \<and>
     (\<forall>i. fmlookup (f_tasks s) i = (case change_of x i of Some u \<Rightarrow> Some u | None \<Rightarrow> planned x i))"


text \<open>
  Every piece of the procedure is proved once for a process that may die before any write. A run that
  does not succeed has died, and the recovery is then under way as before.
\<close>

definition died_midway :: "('o \<Rightarrow> 'z farm_scheme \<Rightarrow> bool) \<Rightarrow> recovery_txn \<Rightarrow> 'z farm_scheme \<Rightarrow> bool" where
  "died_midway dies x d \<longleftrightarrow> (\<exists>op u. dies op u) \<and> midway x d"

definition goes_on ::
    "('o \<Rightarrow> 'z farm_scheme \<Rightarrow> bool) \<Rightarrow> recovery_txn \<Rightarrow> ('z farm_scheme \<Rightarrow> bool) \<Rightarrow> unit res \<Rightarrow> 'z farm_scheme \<Rightarrow> bool" where
  "goes_on dies x P r d \<longleftrightarrow> (case r of Inl e \<Rightarrow> died_midway dies x d | Inr _ \<Rightarrow> midway x d \<and> P d)"

lemma goes_on_simps [simp]:
  "goes_on dies x P (Inl e) d = died_midway dies x d"
  "goes_on dies x P (Inr v) d \<longleftrightarrow> midway x d \<and> P d"
  by (simp_all add: goes_on_def)

lemma dying_disk: "dying rec_apply dies \<circ> Disk = dying apply_op (\<lambda>op. dies (Disk op))"
  by (simp add: dying_def fun_eq_iff)

lemma died_midway_disk: "died_midway (\<lambda>op. dies (Disk op)) x d \<Longrightarrow> died_midway dies x d"
  by (auto simp: died_midway_def)

lemma log_on_goes:
  assumes "midway x s"
  shows "wp (log_on (dying apply_op dies) e) (goes_on dies x (\<lambda>d. e_id e \<in> e_id ` set (f_log d) \<and> d = s\<lparr>f_log := f_log d\<rparr>)) s"
  using assms by (auto simp: log_on_def wp_rules wp_dying died_midway_def midway_def journal_expected_def)

lemma old_event_goes:
  assumes "txn_ok E x" and "midway x s"
  shows "wp (old_event (dying apply_op dies) x) (goes_on dies x (\<lambda>d. d = s\<lparr>f_log := f_log d\<rparr>)) s"
proof (cases "truthy (dget (p_before (v_plan x)) ''pending_event'')")
  case True
  then obtain ev where "event_from_dict (dget (p_before (v_plan x)) ''pending_event'') = Inr ev"
    using assms(1) by (auto simp: txn_ok_def)
  then show ?thesis
    using True wp_mono [OF log_on_goes [OF assms(2), of dies ev]]
    by (simp add: old_event_def wp_rules goes_on_def split: sum.splits)
next
  case False
  then show ?thesis using assms(2) by (simp add: old_event_def wp_rules)
qed

lemma recover_on_goes:
  assumes "txn_ok E x" and "midway x s"
  shows "wp (recover_on (dying apply_op dies)) (goes_on dies x (\<lambda>d. f_journal d = None \<and> keeps_changes x s d \<and>
    f_recoveries d = f_recoveries s)) s"
proof -
  obtain ops where ops: "recover_ops s = Inr ops" "recovered s = run_ops ops s" "\<And>n. midway x (run_ops (take n ops) s)"
    "f_journal (run_ops ops s) = None" "keeps_changes x s (run_ops ops s)" "f_recoveries (run_ops ops s) = f_recoveries s"
    by (rule recover_midway [OF assms]) blast
  show ?thesis
    by (rule wp_recover_on_dying [OF ops(1)])
      (use ops(2-) ops(3) [of "length ops"] in \<open>auto simp: died_midway_def\<close>)
qed

lemma hold_task_goes:
  assumes ok: "txn_ok E x" and mid: "midway x s" and j: "f_journal s = None" and cu: "change_of x i = Some u"
  shows "wp (hold_task (dying apply_op dies) E x (i, u)) (goes_on dies x (\<lambda>d. f_journal d = None \<and>
    fmlookup (f_tasks d) i = Some u \<and> keeps_changes x s d \<and> f_recoveries d = f_recoveries s)) s"
proof -
  obtain t l where t: "planned x i = Some t" "t_id u = i"
    using change_planned [OF ok cu] by metis
  have id: "fullmatch task_id_rx i" using planned_ok(2) [OF ok t(1)] .
  show ?thesis
  proof (cases "fmlookup (f_tasks s) i = Some u")
    case True
    then show ?thesis
      using mid j by (simp add: hold_task_def wp_rules store_get_def id path_for_def)
  next
    case False
    then have at: "fmlookup (f_tasks s) i = Some t" and ne: "t \<noteq> u"
      using midway_at [OF mid, of i] cu t(1) by auto
    obtain r where c: "commit_checks E u (Some t) s = Inr r" "with_revision r u = u"
      using hold_checks [OF ok t(1) cu at] .
    obtain sha where sha: "dindex (v_evidence x) ''sha256'' = Inr sha" using ok by (auto simp: txn_ok_def)
    let ?p = "obj [(''recovery_id'', JStr (v_id x)), (''evidence_sha256'', sha)]"
    let ?Q = "\<lambda>q d. case q of Inl e \<Rightarrow> died_midway dies x d | Inr v \<Rightarrow> midway x d \<and> f_journal d = None \<and>
        fmlookup (f_tasks d) i = Some u \<and> keeps_changes x s d \<and> f_recoveries d = f_recoveries s"
    have "wp (commit_on (dying apply_op dies) E u (Some t) ''RECOVERY_HELD'' (v_actor x) ?p (Some (v_ts x))) ?Q s"
    proof (rule wp_commit_on_dying [where ops = "[]" and r = r])
      let ?x = "commit_txn E (f_n s) u (Some t) ''RECOVERY_HELD'' (v_actor x) ?p (Some (v_ts x)) r"
      let ?u = "s\<lparr>f_n := commit_drawn (Some (v_ts x)) (f_n s), f_journal := Some ?x\<rparr>"
      have "journal_expected x ?u" using t cu c(2) by (auto simp: journal_expected_def planned_def)
      then have "midway x ?u"
        using midway_writes(4) [of x "s\<lparr>f_n := commit_drawn (Some (v_ts x)) (f_n s)\<rparr>" ?x] mid by simp
      then obtain ops where ops: "recover_ops ?u = Inr ops" "recovered ?u = run_ops ops ?u"
        "\<And>n. midway x (run_ops (take n ops) ?u)" "f_journal (run_ops ops ?u) = None"
        "keeps_changes x ?u (run_ops ops ?u)" "f_recoveries (run_ops ops ?u) = f_recoveries ?u"
        by (rule recover_midway [OF ok]) blast
      have set: "settled ?x (s\<lparr>f_n := commit_drawn (Some (v_ts x)) (f_n s)\<rparr>) = run_ops ops ?u"
        using ops(2) by (simp add: recovered_def)
      have held: "fmlookup (f_tasks (settled ?x (s\<lparr>f_n := commit_drawn (Some (v_ts x)) (f_n s)\<rparr>))) i = Some u"
        using t(2) c(2) by (simp add: settled_def)
      have "?Q (Inr u) (run_ops ops ?u)"
        using held ops(3) [of "length ops"] ops(4-6) unfolding set by (simp add: keeps_changes_def)
      then have fin: "?Q (Inr u) (settled ?x (s\<lparr>f_n := commit_drawn (Some (v_ts x)) (f_n s)\<rparr>))"
        unfolding set .
      show "let x' = ?x; u' = (recovered s)\<lparr>f_n := commit_drawn (Some (v_ts x)) (f_n s), f_journal := Some x'\<rparr> in
          recover_ops u' = Inr ops' \<longrightarrow> (\<exists>op u. dies op u) \<longrightarrow> ?Q (Inl e) (run_ops (take n ops') u')" for ops' n e
        using j ops(1,3) by (auto simp: died_midway_def Let_def)
      show "let x' = ?x in ?Q (Inr (with_revision r u)) (settled x' ((recovered s)\<lparr>f_n := commit_drawn (Some (v_ts x)) (f_n s)\<rparr>))"
        using fin unfolding Let_def c(2) recovered_none [OF j] .
    qed (use j c(1) mid in \<open>auto simp: died_midway_def midway_def journal_expected_def\<close>)
    then show ?thesis
      using at ne sha t(1)
      by (auto simp: hold_task_def wp_rules store_get_def id path_for_def planned_def elim!: wp_mono split: sum.splits)
  qed
qed

lemma goes_on_seq:
  assumes "wp m (goes_on dies x P) s" and "\<And>d. midway x d \<Longrightarrow> P d \<Longrightarrow> wp k Q d"
    and "\<And>e d. died_midway dies x d \<Longrightarrow> Q (Inl e) d"
  shows "wp (seq m k) Q s"
  using assms unfolding wp_seq by (elim wp_mono) (auto simp: goes_on_def split: sum.splits)

lemma hold_tasks_goes:
  assumes ok: "txn_ok E x" and "midway x s" and "f_journal s = None"
    and "\<And>i u. (i, u) \<in> set cs \<Longrightarrow> change_of x i = Some u"
  shows "wp (for_each cs (hold_task (dying apply_op dies) E x)) (goes_on dies x (\<lambda>d. f_journal d = None \<and>
    (\<forall>(i, u)\<in>set cs. fmlookup (f_tasks d) i = Some u) \<and> keeps_changes x s d \<and> f_recoveries d = f_recoveries s)) s"
  using assms(2-)
proof (induction cs arbitrary: s)
  case Nil
  then show ?case by (simp add: wp_ret)
next
  case (Cons c cs)
  obtain i u where c: "c = (i, u)" by (cases c)
  have cu: "change_of x i = Some u" using Cons.prems(3) c by simp
  show ?case
    unfolding c for_each.simps
  proof (rule goes_on_seq [OF hold_task_goes [OF ok Cons.prems(1,2) cu]])
    fix d
    assume d: "midway x d" "f_journal d = None \<and> fmlookup (f_tasks d) i = Some u \<and> keeps_changes x s d \<and>
      f_recoveries d = f_recoveries s"
    have "wp (for_each cs (hold_task (dying apply_op dies) E x)) (goes_on dies x (\<lambda>v. f_journal v = None \<and>
        (\<forall>(i, u)\<in>set cs. fmlookup (f_tasks v) i = Some u) \<and> keeps_changes x d v \<and> f_recoveries v = f_recoveries d)) d"
      using d Cons.prems(3) by (intro Cons.IH) auto
    then show "wp (for_each cs (hold_task (dying apply_op dies) E x)) (goes_on dies x (\<lambda>v. f_journal v = None \<and>
        (\<forall>(i, u)\<in>set ((i, u) # cs). fmlookup (f_tasks v) i = Some u) \<and> keeps_changes x s v \<and> f_recoveries v = f_recoveries s)) d"
      using d cu
      by (elim wp_mono) (auto simp: goes_on_def keeps_changes_def split: sum.splits)
  qed simp
qed

text \<open>The whole procedure, on a disk that may die under it.\<close>

definition held_all :: "recovery_txn \<Rightarrow> 'z farm_scheme \<Rightarrow> bool" where
  "held_all x d \<longleftrightarrow> f_journal d = None \<and> (\<forall>(i, u)\<in>set (v_changes x). fmlookup (f_tasks d) i = Some u) \<and>
     fmlookup (f_recoveries d) (v_id x) = Some x"

lemma held_all_completed:
  assumes "txn_ok E x" and "midway x d" and "held_all x d" and "f_deploy d = Some (JObj (v_after x))"
    and "v_id x \<in> e_id ` set (f_log d)"
  shows "completed x (d\<lparr>f_recovery := None\<rparr>)"
proof -
  have "fmlookup (f_tasks d) i = (case change_of x i of Some u \<Rightarrow> Some u | None \<Rightarrow> planned x i)" for i
  proof (cases "change_of x i")
    case None
    then show ?thesis using midway_at [OF assms(2), of i] by simp
  next
    case (Some u)
    then have "(i, u) \<in> set (v_changes x)" by (simp add: change_of_def map_of_SomeD)
    then show ?thesis using assms(3) Some by (auto simp: held_all_def)
  qed
  then show ?thesis using assms by (simp add: completed_def held_all_def)
qed

definition finish_result :: "(rec_step \<Rightarrow> 'z farm_scheme \<Rightarrow> bool) \<Rightarrow> recovery_txn \<Rightarrow> unit res \<Rightarrow> 'z farm_scheme \<Rightarrow> bool" where
  "finish_result dies x r d \<longleftrightarrow> (case r of Inl e \<Rightarrow> died_midway dies x d | Inr _ \<Rightarrow> completed x d)"

lemma finish_result_simps [simp]:
  "finish_result dies x (Inl e) d = died_midway dies x d"
  "finish_result dies x (Inr v) d = completed x d"
  by (simp_all add: finish_result_def)

lemma finish_goes:
  assumes ok: "txn_ok E x" and mid: "midway x s"
  shows "wp (finish_on (dying rec_apply dies) E x) (finish_result dies x) s"
    (is "wp _ ?Q s")
proof -
  let ?W = "dying rec_apply dies" let ?D = "dying apply_op (\<lambda>op. dies (Disk op))"
  obtain sha where sha: "dindex (v_evidence x) ''sha256'' = Inr sha" using ok by (auto simp: txn_ok_def)
  have ch: "change_of x i = Some u" if "(i, u) \<in> set (v_changes x)" for i u
    using that changes_distinct [OF ok] by (simp add: change_of_def)
  have up: "wp m (goes_on dies x P) d" if "wp m (goes_on (\<lambda>op. dies (Disk op)) x P) d" for m P d
    using that by (elim wp_mono) (auto simp: goes_on_def intro: died_midway_disk split: sum.splits)
  have dead: "?Q (Inl e) d" if "died_midway dies x d" for e d using that by simp
  have drop: "wp (?W DropMarker) ?Q d"
    if "midway x d" "held_all x d" "f_deploy d = Some (JObj (v_after x))" "v_id x \<in> e_id ` set (f_log d)" for d
    using that held_all_completed [OF ok that] by (auto simp: wp_dying died_midway_def)
  have log: "wp (seq (log_on ?D (recovered_event E (f_root d) x sha)) (?W DropMarker)) ?Q d"
    if "midway x d" "held_all x d" "f_deploy d = Some (JObj (v_after x))" for d
  proof (rule goes_on_seq [where Q = "finish_result dies x", OF up [OF log_on_goes [OF that(1)]] _ dead])
    fix v
    assume "midway x v" and v: "e_id (recovered_event E (f_root d) x sha) \<in> e_id ` set (f_log v) \<and> v = d\<lparr>f_log := f_log v\<rparr>"
    moreover from v have "held_all x v" "f_deploy v = f_deploy d"
      using that(2) by (cases d; cases v; simp add: held_all_def)+
    ultimately show "wp (?W DropMarker) ?Q v"
      using that(3) by (intro drop) (simp_all add: recovered_event_def)
  qed
  have manifest: "wp (seq (?W (Manifest (v_after x))) (bnd (pure (dindex (v_evidence x) ''sha256'')) (\<lambda>sha.
      bnd (gets f_root) (\<lambda>root. seq (log_on ?D (recovered_event E root x sha)) (?W DropMarker))))) ?Q d"
    if "midway x d" "held_all x d" for d
  proof -
    have "midway x (d\<lparr>f_deploy := Some (JObj (v_after x))\<rparr>)" "held_all x (d\<lparr>f_deploy := Some (JObj (v_after x))\<rparr>)"
      using that midway_writes(2) by (auto simp: held_all_def)
    from log [OF this] that(1) show ?thesis
      by (auto simp: wp_seq [of "?W (Manifest (v_after x))"] wp_dying wp_bnd wp_pure wp_gets sha died_midway_def)
  qed
  have hold: "wp (seq (for_each (v_changes x) (hold_task ?D E x)) (seq (?W (Manifest (v_after x)))
      (bnd (pure (dindex (v_evidence x) ''sha256'')) (\<lambda>sha.
        bnd (gets f_root) (\<lambda>root. seq (log_on ?D (recovered_event E root x sha)) (?W DropMarker)))))) ?Q d"
    if "midway x d" "f_journal d = None" "fmlookup (f_recoveries d) (v_id x) = Some x" for d
    by (rule goes_on_seq [where Q = "finish_result dies x", OF up [OF hold_tasks_goes [OF ok that(1,2) ch]] manifest dead])
      (use that in \<open>auto simp: held_all_def\<close>)
  have archived: "wp (seq (old_event ?D x) (seq (recover_on ?D) (seq (for_each (v_changes x) (hold_task ?D E x))
      (seq (?W (Manifest (v_after x))) (bnd (pure (dindex (v_evidence x) ''sha256'')) (\<lambda>sha.
        bnd (gets f_root) (\<lambda>root. seq (log_on ?D (recovered_event E root x sha)) (?W DropMarker)))))))) ?Q d"
    if "midway x d" "fmlookup (f_recoveries d) (v_id x) = Some x" for d
  proof (rule goes_on_seq [where Q = "finish_result dies x", OF up [OF old_event_goes [OF ok that(1)]] _ dead])
    fix v
    assume v: "midway x v" "v = d\<lparr>f_log := f_log v\<rparr>"
    from v(2) have r: "fmlookup (f_recoveries v) (v_id x) = Some x" using that(2) by (cases d; cases v; simp)
    show "wp (seq (recover_on ?D) (seq (for_each (v_changes x) (hold_task ?D E x))
      (seq (?W (Manifest (v_after x))) (bnd (pure (dindex (v_evidence x) ''sha256'')) (\<lambda>sha.
        bnd (gets f_root) (\<lambda>root. seq (log_on ?D (recovered_event E root x sha)) (?W DropMarker))))))) ?Q v"
      by (rule goes_on_seq [where Q = "finish_result dies x", OF up [OF recover_on_goes [OF ok v(1)]] hold dead]) (use r in auto)
  qed
  let ?s = "s\<lparr>f_recoveries := fmupd (v_id x) x (f_recoveries s)\<rparr>"
  have "midway x ?s" by (rule midway_writes(1) [OF mid])
  from archived [OF this] show ?thesis
    using mid midway_checks [OF ok mid]
    by (auto simp: finish_on_def dying_disk wp_bnd [of "asks (finish_checks x)"] wp_asks wp_seq [of "?W (Archive x)"]
      wp_dying died_midway_def)
qed

lemma finish_completes:
  assumes "txn_ok E x" and "midway x s"
  shows "\<exists>s'. finish E x s = (Inr (), s') \<and> completed x s'"
proof -
  have "wp (finish E x) (finish_result (\<lambda>_ _. False) x) s"
    using finish_goes [OF assms, of "\<lambda>_ _. False"] by (simp add: finish_def dying_never)
  then show ?thesis by (auto simp: wp_def finish_result_def died_midway_def split: prod.splits sum.splits)
qed

text \<open>C15: an offline recovery can be resumed from wherever it died. Take a farm that is under way in the
  recovery of a transaction, and run \<open>_finish\<close> in a process that may die, or be refused by the
  system, before any of its writes: the archive, the old event, those of a pending commit, those
  inside the commit of each retired task, the manifest, the final event, the removal of the
  marker. Either the run reported success and the recovery is complete, its final event logged;
  or the marker still fences every writer, the farm is again under way in this same recovery, and
  running \<open>_finish\<close> once more completes it.\<close>

theorem recovery_resumable:
  assumes "txn_ok E x" and "midway x s" and "finish_on (dying rec_apply dies) E x s = (r, d)"
  shows "(r = Inr () \<and> completed x d) \<or>
    ((\<exists>op u. dies op u) \<and> f_recovery d = Some x \<and> midway x d \<and>
      (\<exists>s'. finish E x d = (Inr (), s') \<and> completed x s'))"
  using wpD [OF finish_goes [OF assms(1,2)] assms(3)] finish_completes [OF assms(1), of d]
  by (cases r) (auto simp: died_midway_def midway_def)

subsection \<open>Applying a reviewed plan\<close>

lemma plan_tasks_Inr:
  "rmap (plan_task s) ts = Inr us \<Longrightarrow> t \<in> set ts \<Longrightarrow>
     store_get (t_id t) s = Inr t \<and> (t_lease t \<noteq> None \<longrightarrow> t_state t \<in> {RUNNING, WAITING})"
  by (induction ts arbitrary: us)
    (auto simp: rbind_Inr_iff plan_task_def clean_surrender_def dest: sym [of _ "t_lease _"])

lemma make_plan_Inr:
  assumes "make_plan E s = Inr p"
  shows "f_journal s = None" "f_deploy s = Some (JObj (p_before p))" "p_tasks p = store_list s"
    "distinct (map t_id (store_list s))" "p_target p = target_identity E" "p_root p = env_resolve E (f_root s)"
    "t \<in> set (store_list s) \<Longrightarrow> store_get (t_id t) s = Inr t \<and> (t_lease t \<noteq> None \<longrightarrow> t_state t \<in> {RUNNING, WAITING})"
  using assms
  by (auto simp: make_plan_def rbind_Inr_iff Let_def split: option.splits json.splits if_splits dest: plan_tasks_Inr)

lemma plan_named:
  assumes "make_plan E s = Inr p"
  shows "named (f_tasks s)"
proof -
  note p = make_plan_Inr [OF assms]
  have inj: "inj_on (\<lambda>k. t_id (the (fmlookup (f_tasks s) k))) (set (file_order (f_tasks s)))"
    using p(4) by (simp add: store_list_def file_list_def distinct_map o_def)
  have "t_id t = i \<and> fullmatch task_id_rx i" if i: "fmlookup (f_tasks s) i = Some t" for i t
  proof -
    have "t \<in> set (store_list s)" using i by (auto simp: store_list_iff)
    then have g: "fullmatch task_id_rx (t_id t)" "fmlookup (f_tasks s) (t_id t) = Some t"
      using p(7) [of t] by (auto simp: store_get_Inr)
    have "t_id t = i"
      using inj_onD [OF inj, of "t_id t" i] g i by (simp add: fmlookup_dom_iff)
    then show ?thesis using g by simp
  qed
  then show ?thesis by (simp add: named_def)
qed

lemma holds_exists:
  assumes "\<And>t l. t \<in> set ts \<Longrightarrow> t_lease t = Some l \<Longrightarrow>
      t_state t \<in> {RUNNING, WAITING} \<and> (\<exists>r. as_int (meta_or t ''revision'' (JInt 0)) = Inr r)"
  shows "\<exists>cs. holds rid ts = Inr cs"
  using assms
proof (induction ts)
  case (Cons t ts)
  then obtain cs where cs: "holds rid ts = Inr cs" by auto
  show ?case
  proof (cases "t_lease t")
    case (Some l)
    then have "\<exists>u. hold rid t l = Inr u" using Cons.prems [of t l] by (auto simp: hold_eq)
    then show ?thesis using cs Some by auto
  qed (use cs in simp)
qed simp

lemma recovered_manifest_epoch:
  "execution_epoch (recovered_manifest p rid ts) = (if rid = [] then JStr ''initial'' else JStr rid)"
  by (simp add: execution_epoch_def recovered_manifest_def jor_def)

lemma hex32_nonempty: "fullmatch hex32_rx rid \<Longrightarrow> rid \<noteq> []"
  by (auto simp: hex32_rx_def fullmatch_rep_Cls)

text \<open>C16: applying a reviewed plan retires every lease and nothing else. If the preview would still
  give the plan whose digest the operator confirms, the evidence is readable, the tasks carry
  integer revisions and readable workspaces and the log is intact, then \<open>recover_farm\<close>
  succeeds: each leased task is BLOCKED without a lease and with the hold that only a fresh
  ruling lifts, every other task is as it was, and the deployment has a new execution epoch,
  so that every writer of an earlier epoch is refused.\<close>

theorem recovery_retires_leases:
  assumes plan: "make_plan E s = Inr p" and none: "f_recovery s = None" "fmlookup (f_recoveries s) (env_uuid E (f_n s)) = None"
    and log: "\<not> f_log_damaged s" and uuid: "fullmatch hex32_rx (env_uuid E (f_n s))"
    and evidence: "snapshot_file E ef = Inr ev" "ef \<noteq> []" and actor: "strip actor \<noteq> []"
    and shape: "\<forall>t\<in>set (store_list s). (\<exists>k. workspace_key E t = Inr k) \<and> (\<exists>r. as_int (meta_or t ''revision'' (JInt 0)) = Inr r)"
    and pending: "truthy (dget (p_before p) ''pending_event'') \<longrightarrow> (\<exists>e. event_from_dict (dget (p_before p) ''pending_event'') = Inr e)"
    and digest: "plan_digest E p \<noteq> []"
  shows "\<exists>r s'. recover_farm E True (Some (plan_digest E p)) (Some actor) (Some ef) True s = (Inr r, s') \<and>
    (\<forall>i t. fmlookup (f_tasks s) i = Some t \<longrightarrow> (\<exists>u. fmlookup (f_tasks s') i = Some u \<and>
       (t_lease t = None \<longrightarrow> u = t) \<and>
       (t_lease t \<noteq> None \<longrightarrow> t_state u = BLOCKED \<and> t_lease u = None \<and> truthy (meta u ''recovery_hold'')))) \<and>
    fmdom (f_tasks s') = fmdom (f_tasks s) \<and> f_recovery s' = None \<and>
    (\<forall>E' d e up. e \<noteq> JStr (env_uuid E (f_n s)) \<longrightarrow> (\<exists>x. require_task_writer E' d (Some e) up s' = Inl x))"
proof -
  note p = make_plan_Inr [OF plan]
  let ?rid = "env_uuid E (f_n s)"
  have "\<exists>cs. holds ?rid (p_tasks p) = Inr cs"
    by (rule holds_exists) (use p(3,7) shape in fastforce)
  then obtain cs where cs: "holds ?rid (p_tasks p) = Inr cs" ..
  let ?ts = "env_iso E (env_clock E (Suc (f_n s)))"
  let ?x = "\<lparr>v_id = ?rid, v_plan = p, v_changes = cs, v_after = recovered_manifest p ?rid ?ts,
     v_actor = actor, v_evidence = ev, v_ts = ?ts\<rparr>"
  have prep: "prepare E p actor ev s = (Inr ?x, s\<lparr>f_n := Suc (Suc (f_n s))\<rparr>)"
    using cs by (simp add: prepare_def bnd_def fresh_uuid_def now_iso_def now_def cmd_defs)
  obtain sha where sha: "dindex ev ''sha256'' = Inr sha"
    using evidence(1) by (rule snapshot_file_Inr) (simp add: dindex_def)
  have named: "named (f_tasks s)" by (rule plan_named [OF plan])
  have planned: "planned ?x i = fmlookup (f_tasks s) i" for i
    using by_id_store_list [OF named] p(3) by (simp add: planned_def)
  have ok: "txn_ok E ?x"
    using p(3,4,7) cs uuid sha shape pending by (auto simp: txn_ok_def list_all_iff store_get_Inr)
  let ?s1 = "s\<lparr>f_n := Suc (Suc (f_n s)), f_recovery := Some ?x\<rparr>"
  have mid: "midway ?x ?s1"
    using planned p(1,2) log none(2) by (simp add: midway_def journal_expected_def)
  obtain ds s' where fin: "finish E ?x ?s1 = (Inr (), s')" and comp: "completed ?x s'"
    using finish_completes [OF ok mid] by blast
  have "jopt (Some actor) = JStr actor" "actor \<noteq> []" using actor by (auto simp: strip_Nil)
  then have run: "recover_farm E True (Some (plan_digest E p)) (Some actor) (Some ef) True s =
      (Inr (summary E p False (Some ?rid)), s')"
    using prep fin plan p(5,6) none(1) evidence actor digest
    by (simp add: recover_farm_def bnd_def seq_def cmd_defs ensure_def)
  have task: "\<exists>u. fmlookup (f_tasks s') i = Some u \<and> (t_lease t = None \<longrightarrow> u = t) \<and>
      (t_lease t \<noteq> None \<longrightarrow> t_state u = BLOCKED \<and> t_lease u = None \<and> truthy (meta u ''recovery_hold''))"
    if t: "fmlookup (f_tasks s) i = Some t" for i t
  proof (cases "t_lease t")
    case None
    have "change_of ?x i = None"
    proof (rule ccontr)
      assume "change_of ?x i \<noteq> None"
      then obtain u where "change_of ?x i = Some u" by auto
      then show False using change_planned [OF ok] planned t None by (metis option.distinct(1) option.inject)
    qed
    then show ?thesis using comp planned t None by (simp add: completed_def)
  next
    case (Some l)
    then obtain u where u: "change_of ?x i = Some u" "hold ?rid t l = Inr u"
      using leased_changes [OF ok, of i t l] planned t by auto
    then show ?thesis using comp Some hold_Inr [OF u(2) Some] by (auto simp: completed_def)
  qed
  have dom: "fmdom (f_tasks s') = fmdom (f_tasks s)"
  proof -
    have "fmlookup (f_tasks s') i \<noteq> None \<longleftrightarrow> fmlookup (f_tasks s) i \<noteq> None" for i
    proof (cases "change_of ?x i")
      case None
      then show ?thesis using comp planned by (simp add: completed_def)
    next
      case (Some u)
      obtain t where "planned ?x i = Some t" using change_planned [OF ok Some] by blast
      then show ?thesis using comp planned [of i] Some by (simp add: completed_def)
    qed
    then show ?thesis by (auto simp: fset_eq_iff fmlookup_dom_iff)
  qed
  have refused: "\<exists>x. require_task_writer E' d (Some e) up s' = Inl x" if "e \<noteq> JStr ?rid" for E' d e up
  proof (cases "require_task_writer E' d (Some e) up s'")
    case (Inr m)
    have "deployment s' = Inr m" using require_task_writer_Inr(2) [OF Inr] .
    then have "m = recovered_manifest p ?rid ?ts"
      using comp by (auto simp: completed_def deployment_def rbind_Inr_iff split: option.splits)
    then have "execution_epoch m = JStr ?rid" using hex32_nonempty [OF uuid] by (simp add: recovered_manifest_epoch)
    then show ?thesis using require_task_writer_Inr(6) [OF Inr] that by simp
  qed simp
  show ?thesis
    by (intro exI [of _ "summary E p False (Some ?rid)"] exI [of _ s'] conjI run dom allI impI)
      (use task refused comp in \<open>auto simp: completed_def\<close>)
qed

end
