(* ===== verification/Witnesses.thy ===== *)
theory Witnesses
  imports Fixtures Recovery
begin

text \<open>
  For every property with hypotheses, an application of it to the small farm of \<open>Fixtures\<close>, where
  the hypotheses hold. The runs are evaluated in the kernel.
\<close>

lemma ran: "fst p = r \<Longrightarrow> p = (r, snd p)"
  by (metis prod.collapse)

definition worked :: "'a res \<times> 's \<Rightarrow> bool" where
  "worked p = (case fst p of Inr x \<Rightarrow> True | Inl e \<Rightarrow> False)"

lemma workedE: "worked p \<Longrightarrow> (\<And>x. p = (Inr x, snd p) \<Longrightarrow> P) \<Longrightarrow> P"
  by (cases p) (auto simp: worked_def split: sum.splits)

text \<open>Forward steps of a run.\<close>

lemma run_steps:
  "m s = (Inr x, u) \<Longrightarrow> bnd m f s = f x u"
  "m0 s = (Inr (), u) \<Longrightarrow> seq m0 k s = k u"
  "pure (Inr y) s = (Inr y, s)"
  "gets g s = (Inr (g s), s)"
  "P \<Longrightarrow> guard P e s = (Inr (), s)"
  by (simp_all add: bnd_def seq_def cmd_defs)

definition running_t1 :: task where
  "running_t1 = demo_task ''t1'' RUNNING (Some demo_lease) [(''launched_ts'', JStr ''x'')]"

definition ready_t1 :: task where
  "ready_t1 = demo_task ''t1'' READY None []"

definition done_t2 :: task where
  "done_t2 = demo_task ''t2'' DONE None [(''acceptance_receipt'', JStr ''yes'')]"

text \<open>A farm with one file, or two without workspaces, is sound.\<close>

lemma demo_sound:
  assumes "list_all (\<lambda>t. fullmatch task_id_rx (t_id t) \<and> task_ok t \<and> \<not> truthy (meta t ''workspace'')) ts"
  shows "sound E (demo_pass ts m)"
proof -
  have t: "t \<in> set ts \<and> t_id t = i" if "fmlookup (fmap_of_list (map (\<lambda>t. (t_id t, t)) ts)) i = Some t" for i t
    using that by (auto simp: fmlookup_of_list dest: map_of_SomeD)
  have "workspace_key E t = Inr None" if "t \<in> set ts" for t
    using assms that by (auto simp: workspace_key_def list_all_iff)
  then have "tasks_ok E (fmap_of_list (map (\<lambda>t. (t_id t, t)) ts))"
    using t assms by (fastforce simp: tasks_ok_def named_def exclusive_def list_all_iff)
  moreover have "all_ok (fmap_of_list (map (\<lambda>t. (t_id t, t)) ts))"
    using t assms by (auto simp: all_ok_def list_all_iff)
  ultimately show ?thesis by (simp add: sound_def farm_ok_def demo_pass_def)
qed

definition demo_life :: "task_call list" where
  "demo_life = [Transition RUNNING None False fmempty (Put (Some demo_lease)), Transition SUBMITTED (Some ''l'') False fmempty (Put None)]"

definition demo_acceptance :: task_call where
  "demo_acceptance = Transition DONE None True (fmupd ''acceptance_receipt'' (JStr ''yes'') fmempty) Keep"

lemma demo_lives:
  "t_state (lived ready_t1 (take 1 demo_life)) = RUNNING \<and> t_lease (lived ready_t1 (take 1 demo_life)) = Some demo_lease"
  "t_state (lived ready_t1 (demo_life @ [demo_acceptance])) = DONE"
  by code_simp+

theorem transition_fenced_witness:
  "lived ready_t1 (take 1 demo_life @ [Transition SUBMITTED (Some ''other'') False fmempty (Put None)]) = lived ready_t1 (take 1 demo_life) \<and>
   t_state (lived ready_t1 ((demo_life @ [demo_acceptance]) @ [Transition RUNNING None False fmempty Keep])) = DONE \<and>
   (\<exists>as bs lid p nl es. demo_life @ [demo_acceptance] = as @ bs @ Transition DONE lid True p nl # es \<and> submitted_since ready_t1 as bs)"
proof -
  have r: "t_state ready_t1 = READY" by (simp add: ready_t1_def demo_task_def)
  have "\<not> names_lease demo_lease (Transition SUBMITTED (Some ''other'') False fmempty (Put None))"
    by (simp add: demo_lease_def)
  then have "lived ready_t1 (take 1 demo_life @ [Transition SUBMITTED (Some ''other'') False fmempty (Put None)]) =
      lived ready_t1 (take 1 demo_life)"
    using transition_fenced [OF r, of "take 1 demo_life" _ _ "[Transition SUBMITTED (Some ''other'') False fmempty (Put None)]"]
      demo_lives(1) by simp
  moreover note ends = transition_fenced [OF r, of "demo_life @ [demo_acceptance]" "Rotate [] []" READY
    "[Transition RUNNING None False fmempty Keep]", unfolded demo_lives(2), THEN conjunct2, THEN conjunct2]
  have "t_state (lived ready_t1 ((demo_life @ [demo_acceptance]) @ [Transition RUNNING None False fmempty Keep])) = DONE"
    using ends [THEN conjunct1] by (simp del: lived_simps)
  moreover have "\<exists>as bs lid p nl es. demo_life @ [demo_acceptance] = as @ bs @ Transition DONE lid True p nl # es \<and>
      submitted_since ready_t1 as bs"
    using ends [THEN conjunct2, THEN conjunct1] by (simp del: lived_simps append.simps append_assoc) blast
  ultimately show ?thesis by blast
qed

theorem lifecycle_no_dead_end_witness:
  "state_path READY DONE \<and> state_path READY FAILED \<and> \<not> state_path DONE FAILED"
  using lifecycle_no_dead_end [of READY READY] lifecycle_no_dead_end [of DONE FAILED]
  by (simp add: terminal_state_def)

definition demo_txn :: txn where
  "demo_txn = \<lparr>x_before = None, x_after = ready_t1,
     x_event = \<lparr>e_id = ''e'', e_task = ''t1'', e_type = ''TASK_CREATED'', e_actor = ''master'',
       e_payload = fmempty, e_ts = ''now''\<rparr>\<rparr>"

theorem recovery_crash_safe_witness:
  "\<exists>ops. recover_ops ((demo_pass [] [])\<lparr>f_journal := Some demo_txn\<rparr>) = Inr ops \<and>
     recover_locked (run_ops (take 1 ops) ((demo_pass [] [])\<lparr>f_journal := Some demo_txn\<rparr>)) =
       (Inr (), settled demo_txn ((demo_pass [] [])\<lparr>f_journal := Some demo_txn\<rparr>))"
proof -
  let ?s = "(demo_pass [] [])\<lparr>f_journal := Some demo_txn\<rparr>"
  have j: "f_journal ?s = Some demo_txn" by simp
  have "fullmatch task_id_rx (t_id (x_after demo_txn))" by code_simp
  then obtain ops where ops: "recover_ops ?s = Inr ops"
    using recover_ops_some [OF j] by (auto simp: demo_txn_def demo_pass_def)
  then show ?thesis using recovery_crash_safe [OF j ops, of 1] by blast
qed

lemma demo_create: "worked (commit_locked demo_env ready_t1 None ''T'' ''m'' fmempty None (demo_pass [] []))"
  by code_simp

theorem commit_compare_and_set_witness:
  "\<exists>saved s'. commit_locked demo_env ready_t1 None ''T'' ''m'' fmempty None (demo_pass [] []) = (Inr saved, s') \<and>
     f_tasks s' = fmupd ''t1'' saved fmempty"
proof -
  from demo_create obtain saved where run: "commit_locked demo_env ready_t1 None ''T'' ''m'' fmempty None (demo_pass [] []) =
      (Inr saved, snd (commit_locked demo_env ready_t1 None ''T'' ''m'' fmempty None (demo_pass [] [])))"
    by (rule workedE)
  have j: "f_journal (demo_pass [] []) = None" by (simp add: demo_pass_def)
  from commit_compare_and_set [OF j run] have "f_tasks (snd (commit_locked demo_env ready_t1 None ''T'' ''m'' fmempty None (demo_pass [] []))) =
      fmupd ''t1'' saved fmempty"
    by (simp add: demo_pass_def ready_t1_def demo_task_def)
  then show ?thesis using run by blast
qed

definition keeps_journal :: "disk_op \<Rightarrow> fake pass \<Rightarrow> bool" where
  "keeps_journal op u = (op = DropJournal)"

lemma demo_died: "case commit_on (dying apply_op keeps_journal) demo_env ready_t1 None ''T'' ''m'' fmempty None (demo_pass [] []) of
    (r, d) \<Rightarrow> \<not> worked (r, d) \<and> \<not> Option.is_none (f_journal d) \<and> \<not> Option.is_none (fmlookup (f_tasks (snd (recover_locked d))) ''t1'')"
  by code_simp

theorem commit_atomic_witness:
  "\<exists>e d saved s'. commit_on (dying apply_op keeps_journal) demo_env ready_t1 None ''T'' ''m'' fmempty None (demo_pass [] []) = (Inl e, d) \<and>
     f_journal d \<noteq> None \<and> commit_locked demo_env ready_t1 None ''T'' ''m'' fmempty None (demo_pass [] []) = (Inr saved, s') \<and>
     recover_locked d = (Inr (), s')"
proof -
  from demo_create obtain saved where run: "commit_locked demo_env ready_t1 None ''T'' ''m'' fmempty None (demo_pass [] []) =
      (Inr saved, snd (commit_locked demo_env ready_t1 None ''T'' ''m'' fmempty None (demo_pass [] [])))"
    by (rule workedE)
  obtain r d where died: "commit_on (dying apply_op keeps_journal) demo_env ready_t1 None ''T'' ''m'' fmempty None (demo_pass [] []) = (r, d)"
    by (metis prod.collapse)
  from demo_died obtain e where e: "r = Inl e" "f_journal d \<noteq> None"
    and t: "fmlookup (f_tasks (snd (recover_locked d))) ''t1'' \<noteq> None"
    unfolding died by (cases r) (auto simp: worked_def Option.is_none_def)
  have "f_tasks ((recovered (demo_pass [] []))\<lparr>f_n := n\<rparr>) = fmempty" for n
    by (simp add: recovered_def demo_pass_def)
  then have "recover_locked d \<noteq> (Inr (), (recovered (demo_pass [] []))\<lparr>f_n := n\<rparr>)" for n using t by auto
  then show ?thesis using commit_atomic [OF run died] died e run by blast
qed

theorem workspace_exclusive_witness:
  "\<exists>r s'. commit demo_env ready_t1 None ''T'' ''m'' fmempty None None None (demo_pass [] []) = (r, s') \<and> farm_ok demo_env s'"
proof -
  have ok: "farm_ok demo_env (demo_pass [] [])" using demo_sound [of "[]" demo_env "[]"] by (simp add: sound_def)
  obtain r s' where run: "commit demo_env ready_t1 None ''T'' ''m'' fmempty None None None (demo_pass [] []) = (r, s')"
    by (metis prod.collapse)
  show ?thesis using workspace_exclusive [OF ok run] run by blast
qed

definition demo_run :: run where
  "demo_run argv = Some (0, ''COMPLETED'')"

theorem slurm_state_observed_witness:
  "slurm_job_terminal (slurm_state (\<lambda>_. True) demo_run ''7'') \<and> fullmatch job_id_rx ''7'' \<and>
   \<not> slurm_job_active (slurm_state (\<lambda>_. True) demo_run ''7'')"
proof -
  have t: "slurm_job_terminal (slurm_state (\<lambda>_. True) demo_run ''7'')" by code_simp
  then show ?thesis using slurm_state_observed [of "\<lambda>_. True" demo_run "''7''"] by blast
qed

theorem cache_asks_once_witness:
  "\<exists>answers c'. cache_states 30 (\<lambda>_. True) demo_run 0 [''7''] fmempty = (answers, c') \<and>
     cache_states 30 (\<lambda>_. False) (\<lambda>_. None) 1 [''7''] c' = (answers, c')"
proof -
  obtain answers c' where run: "cache_states 30 (\<lambda>_. True) demo_run 0 [''7''] fmempty = (answers, c')"
    by (metis prod.collapse)
  have "cache_states 30 (\<lambda>_. False) (\<lambda>_. None) 1 [''7''] c' = (answers, c')"
    by (rule cache_asks_once [OF run]) simp_all
  then show ?thesis using run by blast
qed

definition waiting_t1 :: task where
  "waiting_t1 = demo_task ''t1'' WAITING (Some demo_lease) [(''waiting_on'', JStr ''artifact:/x'')]"

theorem unblock_grounds_witness:
  "unblock demo_env (\<lambda>_. None) (demo_pass [] []) waiting_t1 = Inr True \<and>
   (\<exists>w. wait_holds demo_env (\<lambda>_. None) (demo_pass [] []) (before (CHR '':'') w) (after (CHR '':'') w))"
proof -
  have u: "unblock demo_env (\<lambda>_. None) (demo_pass [] []) waiting_t1 = Inr True" by code_simp
  have "\<not> truthy (meta waiting_t1 ''resume_requested'')" "\<not> truthy (meta waiting_t1 ''workspace'')" by code_simp+
  then have "\<not> truthy (meta waiting_t1 ''resume_requested'')"
    "master_note_digest demo_env (meta waiting_t1 ''workspace'') = Inr None"
    by (simp_all add: master_note_digest_def)
  then show ?thesis
    using mp [OF unblock_grounds [of demo_env "\<lambda>_. None" "demo_pass [] []" waiting_t1] u] u by (metis option.distinct(1) sum.inject(2))
qed

lemma demo_writer:
  "f_recovery s = None \<Longrightarrow> f_deploy s = None \<Longrightarrow> require_task_writer E d None None s = Inr fmempty"
  by (simp add: require_task_writer_def require_no_pending_recovery_def deployment_def writer_guards_def
      handoff_of_def phase_of_def)

theorem decision_recorded_witness:
  "\<exists>u s'. record_decision demo_env ''t1'' 1 ''rework'' ''/e'' ''m'' None None
      (demo_pass [demo_task ''t1'' SUBMITTED None []] []) = (Inr u, s') \<and> meta u ''revision'' = JInt 2"
proof -
  let ?t = "demo_task ''t1'' SUBMITTED None []"
  let ?s = "demo_pass [?t] []"
  let ?s1 = "?s\<lparr>f_n := 1\<rparr>"
  let ?snap = "obj [(''path'', JStr ''/e''), (''sha256'', JStr ''ok''), (''text'', JStr ''ok'')]"
  let ?rec = "dput ?snap [(''actor'', JStr ''m''), (''ts'', JStr ''now''), (''action'', JStr ''rework''),
    (''based_on_revision'', JInt 1)]"
  have j: "f_journal ?s = None" by (simp add: demo_pass_def)
  have get: "store_get ''t1'' ?s = Inr ?t" by code_simp
  have rv: "meta_or ?t ''revision'' (JInt 0) = JInt 1" by (simp add: demo_task_def)
  have "\<exists>c\<in>set ''ok''. \<not> ascii_space c" by code_simp
  then have snap: "snapshot_file demo_env ''/e'' = Inr ?snap"
    by (simp add: snapshot_file_def demo_env_def)
  have draw: "now_iso demo_env ?s = (Inr ''now'', ?s1)"
    by (simp add: draw_run_Inr demo_defs)
  have actor: "strip ''m'' \<noteq> []" by code_simp
  let ?u = "?t\<lparr>t_meta := dput (t_meta ?t) [(''master_decisions'', JList [JObj ?rec]),
    (''rework_requested'', JStr ''ok''), (''latest_master_instruction'', JObj ?rec)]\<rparr>"
  have "decided ?t ?rec = Inr (JList [JObj ?rec])" by (simp add: decided_def demo_task_def)
  then have dec: "decide demo_env ?t ?rec ''rework'' None None = Inr (?u, ?rec, ''REWORK_REQUESTED'')"
    by (simp add: decide_def decide_instruct_def demo_task_def)
  have c: "commit_checks demo_env ?u (Some ?t) ?s1 = Inr 2" by code_simp
  have s1: "f_journal ?s1 = None" "\<not> f_log_damaged ?s1" "f_recovery ?s1 = None" "f_deploy ?s1 = None"
    by (simp_all add: demo_pass_def)
  obtain s' where "commit demo_env ?u (Some ?t) ''REWORK_REQUESTED'' ''m'' (obj [(''decision'', JObj ?rec)]) None None None ?s1 =
      (Inr (with_revision 2 ?u), s')"
    using commit_succeeds [OF s1(1,2) c demo_writer [OF s1(3,4)]] by blast
  then have run: "record_decision demo_env ''t1'' 1 ''rework'' ''/e'' ''m'' None None ?s = (Inr (with_revision 2 ?u), s')"
    unfolding record_decision_def Let_def
    by (simp only: run_steps get snap draw dec rv if_True simp_thms actor not_False_eq_True prod.case)
  from decision_recorded [OF j run] have "meta (with_revision 2 ?u) ''revision'' = JInt 2" by auto
  then show ?thesis using run by blast
qed

theorem multi_executor_contract_witness: "worker_executor (multi_executor ''fake'' fake_factories)"
  by (rule multi_executor_contract) (rule fake_factories_ok)

subsection \<open>A handover\<close>

definition demo_deploy :: "string \<Rightarrow> (string \<times> json) list \<Rightarrow> (string \<times> json) list" where
  "demo_deploy phase xs = [(''host'', JStr ''h1''), (''source_sha256'', JStr ''s''), (''protocol_version'', JStr ''1''),
     (''handoff'', JObj (obj ([(''id'', JStr ''r1''), (''phase'', JStr phase), (''target_host'', JStr ''h1''),
        (''ts'', JStr ''now'')] @ xs)))]"

lemma demo_release: "worked (release_farm demo_env fake_executor ''r1'' ''m'' (demo_world [done_t2] (demo_deploy ''draining'' [])))"
  by code_simp

theorem release_seals_quiescent_farm_witness:
  "\<exists>sealed s'. release_farm demo_env fake_executor ''r1'' ''m'' (demo_world [done_t2] (demo_deploy ''draining'' [])) = (Inr sealed, s') \<and>
     (\<forall>E' dispatch epoch up. \<exists>e. require_task_writer E' dispatch epoch up s' = Inl e)"
proof -
  let ?s = "demo_world [done_t2] (demo_deploy ''draining'' [])"
  have "case deployment ?s of Inr m \<Rightarrow> phase_of m = JStr ''draining'' | Inl e \<Rightarrow> False" by code_simp
  then obtain m where m: "deployment ?s = Inr m" "phase_of m = JStr ''draining''"
    by (auto split: sum.splits)
  obtain sealed where run: "release_farm demo_env fake_executor ''r1'' ''m'' ?s = (Inr sealed, snd (release_farm demo_env fake_executor ''r1'' ''m'' ?s))"
    using demo_release by (rule workedE)
  from release_seals_quiescent_farm [OF run m] run show ?thesis by blast
qed

definition released_farm :: "fake world" where
  "released_farm = (demo_world [] (demo_deploy ''released'' [(''archive_sha256'', JStr ''sha'')]))
     \<lparr>f_handoffs := fmupd ''r1'' (obj [(''root'', JStr ''/farm''), (''tasks'', JList [])]) fmempty\<rparr>"

lemma demo_claim: "worked (claim_farm demo_env ''r1'' ''m'' released_farm)"
  by code_simp

theorem claim_takes_over_witness:
  "\<exists>c s'. claim_farm demo_env ''r1'' ''m'' released_farm = (Inr c, s') \<and> f_tasks s' = f_tasks released_farm \<and> f_journal s' = None"
proof -
  have "case deployment released_farm of Inr m \<Rightarrow> phase_of m = JStr ''released'' | Inl e \<Rightarrow> False" by code_simp
  then obtain m where m: "deployment released_farm = Inr m" "phase_of m = JStr ''released''"
    by (auto split: sum.splits)
  have h: "fmlookup (env_identity demo_env) ''host'' = Some (JStr ''h1'')" by (simp add: demo_defs)
  obtain c where run: "claim_farm demo_env ''r1'' ''m'' released_farm = (Inr c, snd (claim_farm demo_env ''r1'' ''m'' released_farm))"
    using demo_claim by (rule workedE)
  from claim_takes_over [OF run m h] run show ?thesis by blast
qed

subsection \<open>A pass\<close>

lemma demo_tasks_sound:
  "sound demo_env (demo_pass [ready_t1, done_t2] [])" "sound demo_env (demo_pass [ready_t1] [])"
  by (rule demo_sound, code_simp)+

theorem pass_keeps_store_sound_witness:
  "\<exists>r s'. reconcile_once demo_config (demo_pass [ready_t1] []) = (r, s') \<and> sound demo_env s'"
proof -
  obtain r s' where run: "reconcile_once demo_config (demo_pass [ready_t1] []) = (r, s')" by (metis prod.collapse)
  have e: "c_env demo_config = demo_env" by (simp add: demo_config_def)
  show ?thesis using pass_keeps_store_sound [OF _ run] demo_tasks_sound run unfolding e by blast
qed

theorem finished_tasks_untouched_witness:
  "\<exists>r s'. reconcile_once demo_config (demo_pass [ready_t1, done_t2] []) = (r, s') \<and> fmlookup (f_tasks s') ''t2'' = Some done_t2"
proof -
  obtain r s' where run: "reconcile_once demo_config (demo_pass [ready_t1, done_t2] []) = (r, s')" by (metis prod.collapse)
  have e: "c_env demo_config = demo_env" by (simp add: demo_config_def)
  have "fmlookup (f_tasks s') ''t2'' = Some done_t2"
  proof (rule finished_tasks_untouched [OF _ _ _ _ run])
    show "sound (c_env demo_config) (demo_pass [ready_t1, done_t2] [])" unfolding e by (rule demo_tasks_sound)
  qed (simp_all add: demo_pass_def done_t2_def ready_t1_def demo_task_def terminal_state_def)
  then show ?thesis using run by blast
qed

theorem restart_budget_kept_witness:
  "\<exists>r s'. reconcile_once demo_config (demo_pass [ready_t1] []) = (r, s') \<and> budget_ok demo_config s'"
proof -
  obtain r s' where run: "reconcile_once demo_config (demo_pass [ready_t1] []) = (r, s')" by (metis prod.collapse)
  have e: "c_env demo_config = demo_env" "c_max demo_config = 3" by (simp_all add: demo_config_def)
  have "f_journal (demo_pass [ready_t1] []) = None" by (simp add: demo_pass_def)
  then have r: "recovered (demo_pass [ready_t1] []) = demo_pass [ready_t1] []" by (simp add: recovered_def)
  have "within 3 (f_tasks (demo_pass [ready_t1] []))"
    by (simp add: within_def demo_pass_def ready_t1_def demo_task_def restarts_def)
  then have "budget_ok demo_config (demo_pass [ready_t1] [])"
    using demo_tasks_sound by (simp add: budget_ok_def e r)
  then show ?thesis using restart_budget_kept [OF _ run] run by blast
qed

definition submitted_receipt :: receipt where
  "submitted_receipt = \<lparr>r_worker = JStr ''w'', r_task = JStr ''t1'', r_lease = JStr ''l'', r_status = R_SUBMITTED,
     r_ts = JStr ''x'', r_note = JStr ''n'', r_waiting_on = JNull, r_rotation = JNull, r_checkpoint = JNull\<rparr>"

definition submitted_pass :: "fake pass" where
  "submitted_pass = (demo_pass [running_t1] [])\<lparr>w_exec := set_receipt ''w'' submitted_receipt fake_init\<rparr>"

lemma demo_revoked:
  "case fmlookup (f_tasks (snd (reconcile_state demo_config [] running_t1 submitted_pass))) ''t1'' of
     Some u \<Rightarrow> Option.is_none (t_lease u) | None \<Rightarrow> False"
  by code_simp

theorem lease_revoked_on_evidence_witness:
  "\<exists>obs x. ex_poll fake_executor (store_list submitted_pass) ''w'' (w_exec submitted_pass) = (Inr obs, x) \<and>
     ((\<exists>rc. o_receipt obs = Some rc \<and> fenced running_t1 demo_lease rc) \<or> o_alive obs = Some False)"
proof -
  obtain r s' where run: "reconcile_state demo_config [] running_t1 submitted_pass = (r, s')" by (metis prod.collapse)
  obtain u where u: "fmlookup (f_tasks s') (t_id running_t1) = Some u" "t_lease u \<noteq> Some demo_lease"
    using demo_revoked run by (auto simp: running_t1_def demo_task_def Option.is_none_def split: option.splits)
  have "c_exec demo_config = fake_executor" "l_worker demo_lease = ''w''" by (simp_all add: demo_defs)
  with lease_revoked_on_evidence [OF _ _ _ _ run u] show ?thesis
    by (fastforce simp: submitted_pass_def demo_pass_def running_t1_def demo_task_def)
qed

lemma demo_dispatch: "k_launched (w_exec (snd (launch demo_config ready_t1 None None (demo_pass [ready_t1] [])))) \<noteq> []"
  by code_simp

theorem persisted_before_dispatch_witness:
  "\<exists>r s' saved. launch demo_config ready_t1 None None (demo_pass [ready_t1] []) = (r, s') \<and>
     fmlookup (f_tasks s') ''t1'' = Some saved \<and> t_state saved = RUNNING \<and> k_launched (w_exec s') \<noteq> []"
proof -
  obtain r s' where run: "launch demo_config ready_t1 None None (demo_pass [ready_t1] []) = (r, s')" by (metis prod.collapse)
  have k: "k_launched (w_exec s') \<noteq> []" using demo_dispatch run by simp
  then have "w_exec s' \<noteq> w_exec (demo_pass [ready_t1] [])" by (auto simp: demo_pass_def fake_init_def)
  from persisted_before_dispatch [OF run this] k run show ?thesis
    by (auto simp: ready_t1_def demo_task_def)
qed

text \<open>An executor that checks each task before it is launched and refuses every task but one.\<close>

definition picky_executor :: "fake executor" where
  "picky_executor = fake_executor\<lparr>ex_validate := Some (\<lambda>t. guard (t_id t = ''t1'') (OSError ''not mine'')),
     ex_launch := (\<lambda>t l. if t_id t = ''t1'' then fake_launch t l else pure (Inl (OSError ''not mine'')))\<rparr>"

definition picky_config :: "fake config" where
  "picky_config = demo_config\<lparr>c_exec := picky_executor\<rparr>"

theorem ready_task_starts_witness:
  "\<exists>s' saved. reconcile_state picky_config [] ready_t1 (demo_pass [ready_t1] []) = (Inr (), s') \<and>
     fmlookup (f_tasks s') ''t1'' = Some saved \<and> t_state saved = RUNNING \<and> k_launched (w_exec s') \<noteq> []"
proof -
  let ?s = "demo_pass [ready_t1] []"
  obtain r s' where run: "reconcile_state picky_config [] ready_t1 ?s = (r, s')" by (metis prod.collapse)
  have e: "c_env picky_config = demo_env" "c_exec picky_config = picky_executor" "c_epoch picky_config = JStr ''initial''"
    by (simp_all add: picky_config_def demo_config_def)
  have c: "commit_checks (c_env picky_config) ready_t1 (Some ready_t1) ?s = Inr 2" unfolding e by code_simp
  have i: "issued_before (c_epoch picky_config) ready_t1 = Inr []"
    by (simp add: e issued_before_def ready_t1_def demo_task_def)
  have d: "master_note_digest (c_env picky_config) (meta ready_t1 ''workspace'') = Inr None"
    by (simp add: e master_note_digest_def ready_t1_def demo_task_def)
  have w: "require_task_writer (c_env picky_config) True (Some (c_epoch picky_config)) None ?s = Inr fmempty"
    by (simp add: e require_task_writer_def require_no_pending_recovery_def deployment_def writer_guards_def
        handoff_of_def phase_of_def execution_epoch_def jor_def demo_pass_def)
  have v: "case ex_validate (c_exec picky_config) of None \<Rightarrow> w_exec ?s = w_exec ?s
      | Some v \<Rightarrow> v ready_t1 (w_exec ?s) = (Inr (), w_exec ?s)"
    by (simp add: e picky_executor_def cmd_defs ready_t1_def demo_task_def)
  have l: "ex_launch (c_exec picky_config) u l x = fake_launch u l x" if "handed_over ready_t1 l u" for u l x
    using that by (simp add: e picky_executor_def handed_over_def ready_t1_def demo_task_def)
  have t: "f_journal ?s = None" "\<not> f_log_damaged ?s" "t_state ready_t1 = READY" "t_lease ready_t1 = None" "t_id ready_t1 = ''t1''"
    by (simp_all add: demo_pass_def ready_t1_def demo_task_def)
  have h: "\<exists>h x. ex_launch (c_exec picky_config) u (start_lease picky_config ?s ready_t1) (w_exec ?s) = (Inr h, x)"
    if "handed_over ready_t1 (start_lease picky_config ?s ready_t1) u" for u
    by (simp add: l [OF that] fake_launch_def cmd_defs)
  obtain saved where r: "r = Inr ()" "fmlookup (f_tasks s') ''t1'' = Some saved"
    and u: "handed_over ready_t1 (start_lease picky_config ?s ready_t1) saved"
    and x: "\<exists>h. ex_launch (c_exec picky_config) saved (start_lease picky_config ?s ready_t1) (w_exec ?s) = (Inr h, w_exec s')"
    using ready_task_starts [OF t(1-4) w c i d v h run] t(5) by auto
  from x have "k_launched (w_exec s') \<noteq> []" by (auto simp: l [OF u] fake_launch_def cmd_defs dest: sym)
  with r u run show ?thesis by (auto simp: handed_over_def)
qed

subsection \<open>A recovery\<close>

definition hex_env :: env where
  "hex_env = demo_env\<lparr>env_uuid := (\<lambda>n. replicate 32 (CHR ''a''))\<rparr>"

definition lost_deploy :: dict where
  "lost_deploy = obj [(''host'', JStr ''h0''), (''protocol_version'', JInt 4), (''source_sha256'', JStr (replicate 64 (CHR ''0'')))]"

definition lost_farm :: "fake world" where
  "lost_farm = (demo_world [running_t1, done_t2] [])\<lparr>f_deploy := Some (JObj lost_deploy)\<rparr>"

lemma hex_env_simps:
  "env_uuid hex_env n = replicate 32 (CHR ''a'')" "fullmatch hex32_rx (replicate 32 (CHR ''a''))"
  by (simp add: hex_env_def) code_simp

definition small_txn :: recovery_txn where
  "small_txn = \<lparr>v_id = replicate 32 (CHR ''a''),
     v_plan = \<lparr>p_root = ''/farm'', p_before = fmempty, p_target = fmempty, p_tasks = []\<rparr>,
     v_changes = [], v_after = obj [(''host'', JStr ''h1'')], v_actor = ''m'', v_evidence = obj [(''sha256'', JStr ''s'')], v_ts = ''now''\<rparr>"

definition keeps_marker :: "rec_step \<Rightarrow> fake world \<Rightarrow> bool" where
  "keeps_marker op u = (op = DropMarker)"

definition under_way :: "fake world" where
  "under_way = (demo_world [] [])\<lparr>f_deploy := Some (JObj fmempty), f_recovery := Some small_txn\<rparr>"

lemma finish_died: "\<not> worked (finish_on (dying rec_apply keeps_marker) hex_env small_txn under_way)"
  by code_simp

theorem recovery_resumable_witness:
  "\<exists>e d s'. finish_on (dying rec_apply keeps_marker) hex_env small_txn under_way = (Inl e, d) \<and>
     f_recovery d = Some small_txn \<and> finish hex_env small_txn d = (Inr (), s') \<and> completed small_txn s'"
proof -
  have ok: "txn_ok hex_env small_txn" using hex_env_simps(2) by (simp add: txn_ok_def small_txn_def dindex_def)
  have mid: "midway small_txn under_way"
    by (simp add: under_way_def midway_def journal_expected_def planned_def by_id_def demo_world_def small_txn_def)
  obtain r d where died: "finish_on (dying rec_apply keeps_marker) hex_env small_txn under_way = (r, d)"
    by (metis prod.collapse)
  with finish_died obtain e where "r = Inl e" by (cases r) (simp_all add: worked_def)
  then show ?thesis using recovery_resumable [OF ok mid died] died by auto
qed

lemma lost_plan: "case make_plan hex_env lost_farm of Inr p \<Rightarrow> \<not> truthy (dget (p_before p) ''pending_event'') | Inl e \<Rightarrow> False"
  by code_simp

theorem recovery_retires_leases_witness:
  "\<exists>r s' u d. recover_farm hex_env True (Some d) (Some ''m'') (Some ''/e'') True lost_farm = (Inr r, s') \<and>
     fmlookup (f_tasks s') ''t1'' = Some u \<and> t_state u = BLOCKED \<and> t_lease u = None \<and>
     fmlookup (f_tasks s') ''t2'' = Some done_t2"
proof -
  obtain p where p: "make_plan hex_env lost_farm = Inr p" "\<not> truthy (dget (p_before p) ''pending_event'')"
    using lost_plan by (auto split: sum.splits)
  have f: "f_recovery lost_farm = None" "fmlookup (f_recoveries lost_farm) i = None" "\<not> f_log_damaged lost_farm"
    "fmlookup (f_tasks lost_farm) ''t1'' = Some running_t1" "fmlookup (f_tasks lost_farm) ''t2'' = Some done_t2"
    "t_lease running_t1 \<noteq> None" "t_lease done_t2 = None" for i
    by (simp_all add: lost_farm_def demo_world_def running_t1_def done_t2_def demo_task_def)
  have "\<exists>c\<in>set ''ok''. \<not> ascii_space c" by code_simp
  then obtain ev where ev: "snapshot_file hex_env ''/e'' = Inr ev"
    by (simp add: snapshot_file_def hex_env_def demo_env_def)
  have "t \<in> {running_t1, done_t2}" if "t \<in> set (store_list lost_farm)" for t
    using that by (auto simp: store_list_iff lost_farm_def demo_world_def split: if_splits)
  then have shape: "\<forall>t\<in>set (store_list lost_farm). (\<exists>k. workspace_key hex_env t = Inr k) \<and>
      (\<exists>r. as_int (meta_or t ''revision'' (JInt 0)) = Inr r)"
    by (fastforce simp: workspace_key_def running_t1_def done_t2_def demo_task_def)
  have actor: "strip ''m'' \<noteq> []" by code_simp
  have d: "plan_digest hex_env p \<noteq> []" by (simp add: plan_digest_def hex_env_def demo_env_def)
  obtain r s' where run: "recover_farm hex_env True (Some (plan_digest hex_env p)) (Some ''m'') (Some ''/e'') True lost_farm = (Inr r, s')"
    and t: "\<forall>i t. fmlookup (f_tasks lost_farm) i = Some t \<longrightarrow> (\<exists>u. fmlookup (f_tasks s') i = Some u \<and>
       (t_lease t = None \<longrightarrow> u = t) \<and>
       (t_lease t \<noteq> None \<longrightarrow> t_state u = BLOCKED \<and> t_lease u = None \<and> truthy (meta u ''recovery_hold'')))"
    using recovery_retires_leases [OF p(1) f(1,2,3) _ ev _ actor shape _ d] hex_env_simps p(2) by auto
  then show ?thesis using f(4-7) by blast
qed

end
