(* ===== verification/Kit_Witnesses.thy ===== *)
theory Kit_Witnesses
  imports Watch Steps Health Witnesses
begin

text \<open>
  For every property of the tools with hypotheses, an application at a concrete input.
\<close>

subsection \<open>Verification and classes\<close>

definition good_run :: dict where
  "good_run = obj [(''provenance'', JObj (obj [(''attempt_id'', JStr ''a1'')])), (''S'', JFloat (Finite 1))]"

theorem verdict_certifies_witness:
  "\<exists>v. default_checks (\<lambda>p. True) (\<lambda>p. Inr (JObj good_run)) ''a1'' fmempty [(''RUN.json'', ''/w/RUN.json'')]
     [''RUN.json''] [''S''] None (Some ''RUN.json'') = Inr v \<and> d_ok v \<and> d_reasons v = []"
proof -
  have S: "resolve (JObj good_run) ''S'' = Some (JFloat (Finite 1))"
    by (simp add: resolve_def split_on_def good_run_def)
  then have "\<exists>v. default_checks (\<lambda>p. True) (\<lambda>p. Inr (JObj good_run)) ''a1'' fmempty [(''RUN.json'', ''/w/RUN.json'')]
     [''RUN.json''] [''S''] None (Some ''RUN.json'') = Inr v"
    by (simp add: default_checks_def check_main_def check_payload_def check_finite_def)
  then obtain v where v: "default_checks (\<lambda>p. True) (\<lambda>p. Inr (JObj good_run)) ''a1'' fmempty [(''RUN.json'', ''/w/RUN.json'')]
     [''RUN.json''] [''S''] None (Some ''RUN.json'') = Inr v" ..
  have "main_artifact (\<lambda>p. True) [(''RUN.json'', ''/w/RUN.json'')] (Some ''RUN.json'') = Some ''/w/RUN.json''"
    by (simp add: main_artifact_def)
  then have "d_ok v \<and> d_reasons v = []"
    using verdict_certifies [OF v] S by (auto simp: good_run_def)
  with v show ?thesis by blast
qed

theorem ruling_roundtrip_witness:
  "parse_ruling (Some (ruling_name (Some ''code-study'') ''science'' ''train'' ''0123456789'')) (Some ''code-study'') =
     Some (''science'', True)"
proof -
  have "''science'' \<in> set failure_classes" "\<not> starts_with ''owner'' (task_prefix (Some ''code-study''))" by code_simp+
  then show ?thesis using ruling_roundtrip [of "''science''" "Some ''code-study''" "''train''" "''0123456789''"] by simp
qed

theorem proposed_waits_accepted_witness:
  "fullmatch job_id_rx ''12'' \<and>
   (\<exists>w. wait_reference [''12''] (fmempty :: (string, nat) fmap) None = Inr w \<and> waiting_on_error (JStr w) = None)"
proof -
  have m: "fullmatch job_id_rx ''12''" by code_simp
  have w: "wait_reference [''12''] (fmempty :: (string, nat) fmap) None = Inr ''job:12''"
    by (simp add: wait_reference_def)
  then have "waiting_on_error (JStr ''job:12'') = None"
    using proposed_waits_accepted [of "[''12'']" "fmempty :: (string, nat) fmap"] m by fastforce
  then show ?thesis using m w by blast
qed

subsection \<open>Ledger and steps\<close>

definition first_attempt :: attempt where
  "first_attempt = new_record ''s'' (Some ''t1'') None 1 None ''a1'' ''2026''"

definition empty_ledger :: ledger where
  "empty_ledger = \<lparr>g_files = fmempty, g_memo = None, g_index = None\<rparr>"

theorem ledger_coherent_witness:
  "coherent empty_ledger \<and>
   (\<exists>r' k. ledger_save ''now'' first_attempt (fold ledger_do [Listing, Rebuild] empty_ledger) = Inr (r', k) \<and>
      r' \<in> set (fst (ledger_all k)))"
proof -
  have c: "coherent empty_ledger" by (simp add: coherent_def empty_ledger_def)
  let ?h = "fold ledger_do [Listing, Rebuild] empty_ledger"
  have "a_schema first_attempt = schema" by (simp add: first_attempt_def new_record_def)
  then obtain r' k where rk: "ledger_save ''now'' first_attempt ?h = Inr (r', k)"
    by (simp add: ledger_save_def Let_def)
  then show ?thesis using ledger_coherent [OF c refl, of "[Listing, Rebuild]" "''now''" first_attempt r' k] c by blast
qed

definition plain_step :: "string \<Rightarrow> string list \<Rightarrow> step_spec" where
  "plain_step i deps = \<lparr>p_id = i, p_template = i, p_run = ''run'', p_sbatch = False, p_env = [], p_inputs = [],
     p_outputs = [], p_group = None, p_after = deps, p_verify = None, p_gate = None, p_segments = 1,
     p_segment = None, p_chain = ''afterok'', p_concurrency = None, p_wait = ''earliest'', p_finite = [],
     p_retry = [], p_snapshot = [], p_timeout = None\<rparr>"

definition two_steps :: "step_spec list" where
  "two_steps = [plain_step ''a'' [], plain_step ''b'' [''a'']]"

lemma two_steps_groups [simp]: "groups two_steps = []"
  by (simp add: groups_def two_steps_def plain_step_def)

theorem table_progress_witness:
  "check None \<lparr>t_specs = two_steps, t_verifiers = None, t_problems = []\<rparr> = Inr [] \<and> ready two_steps [] \<noteq> []"
proof -
  let ?t = "\<lparr>t_specs = two_steps, t_verifiers = None, t_problems = []\<rparr>"
  have dep: "before CHR '':'' ''a'' = ''a''" "after CHR '':'' ''a'' = []" by code_simp+
  have c: "check None ?t = Inr []"
    by (simp add: check_def two_steps_def spec_problems_def plain_step_def path_problems_def verifier_for_def given_def
        dep_problem_def dep Let_def spec_by_id_def)
  have g: "acyclic_by (\<lambda>i. if i = ''a'' then 0 else 1) two_steps"
    by (simp add: acyclic_by_def two_steps_def plain_step_def needs_def dep)
  have "table_settled two_steps []"
    by (simp add: table_settled_def two_steps_def plain_step_def unresolved_def latest_parked_def latest_def by_step_def)
  then have "all_steps_ok two_steps [] \<or> ready two_steps [] \<noteq> [] \<or> (\<exists>s\<in>set two_steps. barred [] s)"
    using table_progress [of None ?t "\<lambda>i. if i = ''a'' then 0 else 1" "[]"] c g by auto
  moreover have "\<not> all_steps_ok two_steps []"
    by (simp add: all_steps_ok_def two_steps_def step_ok_def latest_def by_step_def)
  moreover have "\<not> (\<exists>s\<in>set two_steps. barred [] s)"
    by (simp add: barred_def two_steps_def plain_step_def latest_def by_step_def)
  ultimately show ?thesis using c by blast
qed

definition parked_attempt :: attempt where
  "parked_attempt = first_attempt\<lparr>a_failure := Some \<lparr>fl_class = ''code'', fl_reasons = [], fl_ts = ''2026'', fl_retried = False,
     fl_parked = True, fl_ruling = Some ''ruling:x'', fl_released = None, fl_evidence = None\<rparr>\<rparr>"

theorem release_admits_one_more_witness:
  "\<exists>r'. release ''now'' (read_all (fmupd ''a1'' parked_attempt fmempty)) ''s'' ''rerun it'' = Inr r' \<and>
     is_ready [] (read_all (fmupd (a_id r') r' (fmupd ''a1'' parked_attempt fmempty))) (plain_step ''s'' [])"
proof -
  let ?fs = "fmupd ''a1'' parked_attempt fmempty"
  have p: "a_id parked_attempt = ''a1''" "a_step parked_attempt = ''s''" "a_schema parked_attempt = schema"
    "a_verdict parked_attempt = None" "age parked_attempt = (''2026'', ''a1'')"
    by (simp_all add: parked_attempt_def first_attempt_def new_record_def age_def)
  have k: "keyed ?fs" by (simp add: keyed_def p)
  have l: "latest (read_all ?fs) ''s'' = Some parked_attempt"
    unfolding latest_iff [OF k] by (auto simp: in_read_all [OF k] p split: if_splits)
  have "strip ''rerun it'' \<noteq> []" by code_simp
  moreover obtain f where "a_failure parked_attempt = Some f" "fl_parked f" by (simp add: parked_attempt_def)
  ultimately obtain r' where r': "release ''now'' (read_all ?fs) ''s'' ''rerun it'' = Inr r'"
    "a_verdict r' = a_verdict parked_attempt" "age r' = age parked_attempt"
    by (simp add: release_def l age_def)
  then have "\<not> verdict_ok r'" by (simp add: verdict_ok_def p)
  have "is_ready [] (read_all (fmupd (a_id r') r' ?fs)) (plain_step ''s'' []) \<longleftrightarrow>
      list_all (dependency_met [] (read_all (fmupd (a_id r') r' ?fs))) (p_after (plain_step ''s'' [])) \<and>
      \<not> pool_full [] (read_all (fmupd (a_id r') r' ?fs)) (plain_step ''s'' [])"
    using release_admits_one_more [of ?fs "''now''" "plain_step ''s'' []" "''rerun it''" r' "fmupd (a_id r') r' ?fs" _ None None None
        "''a2''" "''2027''" "[]", OF k _ \<open>\<not> verdict_ok r'\<close> refl refl] r' p
    by (simp add: plain_step_def)
  then show ?thesis using r'(1) by (simp add: plain_step_def pool_full_def)
qed

theorem path_rules_witness:
  "path_problems (plain_step ''a'' [] \<lparr>p_outputs := [''./'']\<rparr>) = Inl IndexError"
proof -
  have "''./'' \<in> set (p_outputs (plain_step ''a'' [] \<lparr>p_outputs := [''./'']\<rparr>))" by simp
  then show ?thesis using path_rules [of "plain_step ''a'' [] \<lparr>p_outputs := [''./'']\<rparr>"] by blast
qed

subsection \<open>Health, pages and the watch\<close>

definition fine_status :: dict where
  "fine_status = obj [(''pid_alive'', JBool True), (''last_tick'', JObj (obj [(''epoch'', JInt 100)])), (''source_matches'', JBool True)]"

theorem healthy_iff_witness:
  "\<exists>fs. findings 110 fine_status = Inr fs \<and> worst fs = Ok"
proof -
  have i: "interval_of fine_status = Inr 30" by (simp add: interval_of_def fine_status_def jor_def)
  have s: "sub_obj fine_status ''last_tick'' = Inr (obj [(''epoch'', JInt 100)])" "sub_obj fine_status ''handoff'' = Inr fmempty"
    "sub_obj fine_status ''task_counts'' = Inr fmempty"
    by (simp_all add: sub_obj_def fine_status_def)
  have "\<exists>fs. findings 110 fine_status = Inr fs"
    by (simp add: findings_def s i loop_finding_def)
  then obtain fs where "findings 110 fine_status = Inr fs" ..
  then show ?thesis
    using healthy_iff [of 110 fine_status fs 30] i s
    by (auto simp: fine_status_def pending_markers_def)
qed

text \<open>A codec for which every line is a JSON string.\<close>

definition text_codec :: codec where
  "text_codec = \<lparr>cd_parse = (\<lambda>s. Some (JStr s)), cd_lossy = (\<lambda>s. s)\<rparr>"

definition small_log :: string where
  "small_log = ''a'' @ nl # ''b'' @ nl # ''c''"

lemma small_lines: "complete_lines small_log = [''a'', ''b'']" "nl \<in> set small_log"
proof -
  have n: "nl \<notin> set ''a''" "nl \<notin> set ''b''" "nl \<notin> set ''c''" by code_simp+
  show "complete_lines small_log = [''a'', ''b'']"
    unfolding small_log_def complete_lines_split split_on_line [OF n(1)] split_on_line [OF n(2)] split_on_rest [OF n(3)] by simp
  show "nl \<in> set small_log" by (simp add: small_log_def)
qed

theorem paging_complete_witness:
  "events_after text_codec (Some small_log) (int 0) 1 = Inr ([Event_line (JStr ''a'')], 2, True) \<and>
   reports text_codec (small_log @ [nl]) 0 = Event_line (JStr ''a'') # reports text_codec (small_log @ [nl]) 2"
proof -
  have b: "\<not> blank ''a''" by code_simp
  have p: "events_after text_codec (Some small_log) (int 0) 1 = Inr ([Event_line (JStr ''a'')], 2, True)"
    by (simp add: events_after_def small_lines report_line_def b text_codec_def)
  show ?thesis using p paging_complete [OF p] by simp
qed

theorem tail_equals_full_read_witness:
  "fst (events_tail text_codec (Some small_log) 1) = [Event_line (JStr ''b'')]"
  using tail_equals_full_read [of 1 text_codec small_log]
  by (simp add: small_lines last_n_def tail_line_def text_codec_def)

text \<open>A log of two events the master has nothing to do for, and a quiet daemon.\<close>

definition log_loops :: "nat \<Rightarrow> rat" where
  "log_loops n = of_nat n"

definition noise_codec :: codec where
  "noise_codec = \<lparr>cd_parse = (\<lambda>s. Some (JObj fmempty)), cd_lossy = (\<lambda>s. s)\<rparr>"

definition noise_reader :: reader where
  "noise_reader = \<lparr>r_status = (\<lambda>n. Inr fmempty), r_page = (\<lambda>n. cli_page noise_codec small_log), r_clock = log_loops,
     r_there = (\<lambda>n p. False)\<rparr>"

lemma unread_bound: "length (unread J log c) \<le> length log"
proof -
  have "length (report_lines J p ls) \<le> length ls" for p ls
  proof (induction ls arbitrary: p)
    case (Cons l ls)
    then show ?case using add_mono [OF report_line_length [of J p l] Cons [of "p + length l + 1"]] by simp
  qed simp
  moreover have "length (complete_lines s) \<le> length s" for s
    unfolding count_lines by (rule count_le_length)
  ultimately have "length (reports J log n) \<le> length (drop n log)" for n
    unfolding reports_def by (meson order_trans)
  then show ?thesis unfolding unread_def by (metis diff_le_self le_trans length_drop length_map)
qed

theorem watch_returns_witness:
  "\<exists>r. watch 1 9 noise_reader (\<lambda>j. []) None 0 None = Some r"
proof -
  have "length (unread noise_codec small_log c) < 9" for c
    using unread_bound [of noise_codec small_log c] by (simp add: small_log_def)
  then show ?thesis
    using watch_returns [of noise_reader noise_codec "\<lambda>_. small_log" 9 0 0 "\<lambda>j. []" None None]
    by (simp add: noise_reader_def log_loops_def)
qed

lemma noise_pages:
  "cli_page noise_codec small_log None = Inr ([JObj fmempty, JObj fmempty], nat_str 4)"
  "cli_page noise_codec small_log (Some (nat_str 4)) = Inr ([], nat_str 4)"
proof -
  have b: "\<not> blank ''a''" "\<not> blank ''b''" by code_simp+
  have c: "cli_cursor None = Inr 0" by (simp add: cli_cursor_def)
  show "cli_page noise_codec small_log None = Inr ([JObj fmempty, JObj fmempty], nat_str 4)"
  proof -
    have "nat_str (Suc (Suc (Suc (Suc 0)))) = nat_str 4" by (rule arg_cong [of _ _ nat_str]) simp
    then show ?thesis
      by (simp add: cli_page_def c events_after_def small_lines report_line_def b noise_codec_def)
  qed
  have "nl \<notin> set ''c''" by code_simp
  then have "complete_lines ''c'' = []" by (simp add: complete_lines_split split_on_rest)
  then show "cli_page noise_codec small_log (Some (nat_str 4)) = Inr ([], nat_str 4)"
    by (simp add: cli_page_def events_after_def small_log_def)
qed

theorem watch_loses_nothing_witness:
  "\<exists>w gone c. watch 1 9 noise_reader (\<lambda>j. []) None 0 None = Some (Inr w) \<and>
     unread noise_codec small_log None = gone @ unread noise_codec small_log c \<and> page_hits gone = Inr []"
proof -
  have hits: "page_hits [JObj fmempty, JObj fmempty] = Inr []" "page_hits [] = Inr []"
    by (simp_all add: page_hits_def classify_event_def sub_obj_def List.map_filter_def)
  have s: "split_cursor None = (None, {||})" by (simp add: split_cursor_def)
  have u: "until_hit f None d = Inr None" for f d by (simp add: until_hit_def given_def)
  have p: "poll_state (\<lambda>j. []) fmempty t scan {||} = Inr None" for t scan
    by (simp add: poll_state_def daemon_down_def sub_obj_def interval_of_def jor_def ruling_parks_def List.map_filter_def)
  have d: "drain 9 (cli_page noise_codec small_log) None None = Some (Inr (Inr (Some (nat_str 4))))"
  proof -
    define four where "four = nat_str 4"
    define k where "k = (7 :: nat)"
    have "drain (Suc (Suc k)) (cli_page noise_codec small_log) None None = Some (Inr (Inr (Some four)))"
      by (simp add: noise_pages [folded four_def] hits Let_def)
    moreover have "9 = Suc (Suc k)" by (simp add: k_def)
    ultimately show ?thesis by (simp only: four_def)
  qed
  have "watch 1 9 noise_reader (\<lambda>j. []) None 0 None = Some (Inr (tell [] (Some (nat_str 4)) {||}))"
    unfolding watch_def s One_nat_def by (simp add: noise_reader_def u d p log_loops_def)
  then obtain w where w: "watch 1 9 noise_reader (\<lambda>j. []) None 0 None = Some (Inr w)" "w_hits w = []"
    by (simp add: tell_def)
  have full: "\<exists>x. small_log = small_log @ x" by (rule exI [of _ "[]"]) simp
  obtain gone evs hs c where "unread noise_codec small_log None = gone @ evs @ unread noise_codec small_log c"
    "page_hits gone = Inr []" "page_hits evs = Inr hs" "hs = []"
    using watch_loses_nothing [of noise_reader noise_codec "\<lambda>_. small_log" small_log 1 9 "\<lambda>j. []" None 0 None w None "{||}"]
      w full s by (auto simp: noise_reader_def)
  then have "unread noise_codec small_log None = (gone @ evs) @ unread noise_codec small_log c"
    "page_hits (gone @ evs) = Inr []"
    using runtime_log.page_hits_append [of gone "[]" evs "[]"] by simp_all
  then show ?thesis using w(1) by blast
qed

definition one_event :: event where
  "one_event = \<lparr>e_id = ''e1'', e_task = ''t1'', e_type = ''X'', e_actor = ''m'', e_payload = fmempty, e_ts = ''2026''\<rparr>"

theorem log_bytes_refine_witness:
  "event_ids (\<lambda>s. Some (JObj (event_to_dict one_event))) (Some (log_text (\<lambda>j. ''x'') [one_event])) = Inr [''e1''] \<and>
   event_ids (\<lambda>s. Some (JObj (event_to_dict one_event))) (Some (log_text (\<lambda>j. ''x'') [one_event] @ ''x'')) =
     Inl (ValueError ''audit log has an incomplete final record'')"
proof -
  have x: "\<not> is_break (CHR ''x'')" "strip ''x'' \<noteq> []" by code_simp+
  let ?P = "\<lambda>s :: string. Some (JObj (event_to_dict one_event))" let ?D = "\<lambda>j :: json. ''x''"
  note r = log_bytes_refine [of one_event "[one_event]" ?P ?D _ 1]
  have "event_ids ?P (Some (log_text ?D [one_event])) = Inr (map e_id [one_event])"
    by (rule r [THEN conjunct1]) (use x in auto)
  moreover have "event_ids ?P (Some (log_text ?D [one_event] @ take 1 (record_line ?D one_event))) =
      Inl (ValueError ''audit log has an incomplete final record'')"
    by (rule r [THEN conjunct2, THEN conjunct2, rule_format]) (use x in \<open>auto simp: record_line_def\<close>)
  ultimately show ?thesis by (simp add: record_line_def) (simp add: one_event_def)
qed

end
