(* ===== verification/Files.thy ===== *)
theory Files
  imports Verify
begin

text \<open>
  The file system as the tools see it: absolute paths as lists of names, regular files,
  directories and symbolic links (with absolute targets), and the operations of \<open>pathlib\<close>,
  \<open>os\<close> and \<open>shutil\<close> the runner uses. Resolution follows at most forty links, as the kernel does.
\<close>

type_synonym path = "string list"

datatype node = File string | Dir | Link path

type_synonym fs = "(path, node) fmap"

definition node_at :: "fs \<Rightarrow> path \<Rightarrow> node option" where
  "node_at fs p = (if p = [] then Some Dir else fmlookup fs p)"

fun walk :: "nat \<Rightarrow> fs \<Rightarrow> path \<Rightarrow> path \<Rightarrow> path option" where
  "walk n fs here [] = Some here"
| "walk n fs here (c # cs) = (case fmlookup fs (here @ [c]) of
     Some (Link t) \<Rightarrow> (case n of 0 \<Rightarrow> None | Suc k \<Rightarrow> walk k fs [] (t @ cs))
   | _ \<Rightarrow> walk n fs (here @ [c]) cs)"

definition resolve_path :: "fs \<Rightarrow> path \<Rightarrow> path option" where
  "resolve_path fs p = walk 40 fs [] p"

text \<open>\<open>stat\<close> follows a link in the last place, \<open>lstat\<close> does not.\<close>

definition stat :: "fs \<Rightarrow> path \<Rightarrow> node option" where
  "stat fs p = (case resolve_path fs p of None \<Rightarrow> None | Some q \<Rightarrow> node_at fs q)"

definition place :: "fs \<Rightarrow> path \<Rightarrow> path option" where
  "place fs p = (if p = [] then Some [] else map_option (\<lambda>q. q @ [last p]) (resolve_path fs (butlast p)))"

definition lstat :: "fs \<Rightarrow> path \<Rightarrow> node option" where
  "lstat fs p = (case place fs p of None \<Rightarrow> None | Some q \<Rightarrow> node_at fs q)"

definition exists_at :: "fs \<Rightarrow> path \<Rightarrow> bool" where
  "exists_at fs p \<longleftrightarrow> stat fs p \<noteq> None"

definition is_dir_at :: "fs \<Rightarrow> path \<Rightarrow> bool" where
  "is_dir_at fs p \<longleftrightarrow> stat fs p = Some Dir"

definition is_file_at :: "fs \<Rightarrow> path \<Rightarrow> bool" where
  "is_file_at fs p \<longleftrightarrow> (\<exists>c. stat fs p = Some (File c))"

definition is_link_at :: "fs \<Rightarrow> path \<Rightarrow> bool" where
  "is_link_at fs p \<longleftrightarrow> (case lstat fs p of Some (Link t) \<Rightarrow> True | _ \<Rightarrow> False)"

lemma is_file_at_code [code]: "is_file_at fs p \<longleftrightarrow> (case stat fs p of Some (File c) \<Rightarrow> True | _ \<Rightarrow> False)"
  by (auto simp: is_file_at_def split: option.splits node.splits)

text \<open>Creating an entry at a place whose parent is a directory.\<close>

definition put_new :: "fs \<Rightarrow> path \<Rightarrow> node \<Rightarrow> fs res" where
  "put_new fs p x = (case place fs p of
     None \<Rightarrow> Inl (OSError ''too many levels of symbolic links'')
   | Some q \<Rightarrow>
       if node_at fs q \<noteq> None then Inl (OSError ''file exists'')
       else if node_at fs (butlast q) \<noteq> Some Dir then Inl (OSError ''no such directory'')
       else Inr (fmupd q x fs))"

text \<open>\<open>Path.mkdir(parents=True, exist_ok=True)\<close>\<close>

definition mkdir1 :: "fs \<Rightarrow> path \<Rightarrow> fs res" where
  "mkdir1 fs p = (if is_dir_at fs p then Inr fs else put_new fs p Dir)"

fun prefixes_of :: "path \<Rightarrow> path list" where
  "prefixes_of [] = []"
| "prefixes_of (c # cs) = [c] # map ((#) c) (prefixes_of cs)"

fun fold_res :: "('a \<Rightarrow> 'b \<Rightarrow> 'a res) \<Rightarrow> 'a \<Rightarrow> 'b list \<Rightarrow> 'a res" where
  "fold_res f a [] = Inr a"
| "fold_res f a (x # xs) = rbind (f a x) (\<lambda>b. fold_res f b xs)"

definition mkdirs :: "fs \<Rightarrow> path \<Rightarrow> fs res" where
  "mkdirs fs p = fold_res mkdir1 fs (prefixes_of p)"

text \<open>The entries of a directory, in the order of their names.\<close>

definition children :: "fs \<Rightarrow> path \<Rightarrow> string list" where
  "children fs p = (case resolve_path fs p of
     None \<Rightarrow> []
   | Some q \<Rightarrow> sorted_list_of_fset (last |`| ffilter (\<lambda>k. k \<noteq> [] \<and> butlast k = q) (fmdom fs)))"

text \<open>\<open>shutil.copy2(src, dst)\<close>\<close>

definition write_at :: "fs \<Rightarrow> path \<Rightarrow> string \<Rightarrow> fs res" where
  "write_at fs p c = (case resolve_path fs p of
     None \<Rightarrow> Inl (OSError ''too many levels of symbolic links'')
   | Some q \<Rightarrow>
       if node_at fs q = Some Dir then Inl (OSError ''is a directory'')
       else if node_at fs (butlast q) \<noteq> Some Dir then Inl (OSError ''no such directory'')
       else Inr (fmupd q (File c) fs))"

definition copy_file :: "fs \<Rightarrow> path \<Rightarrow> path \<Rightarrow> fs res" where
  "copy_file fs src dst = (let to = (if is_dir_at fs dst then dst @ [last src] else dst) in
     case stat fs src of
       Some (File c) \<Rightarrow>
         if resolve_path fs src = resolve_path fs to then Inl (OSError ''are the same file'') else write_at fs to c
     | _ \<Rightarrow> Inl (OSError ''cannot read the source''))"

subsection \<open>Subtrees\<close>

text \<open>What is below a directory, by relative path; and replacing the entry at a place, with all below it.\<close>

definition beneath :: "path \<Rightarrow> path \<Rightarrow> bool" where
  "beneath q k \<longleftrightarrow> take (length q) k = q"

definition keys :: "fs \<Rightarrow> path list" where
  "keys fs = sorted_list_of_fset (fmdom fs)"

definition below :: "fs \<Rightarrow> path \<Rightarrow> fs" where
  "below fs q = fmap_of_list (map (\<lambda>k. (drop (length q) k, the (fmlookup fs k)))
     (filter (\<lambda>k. beneath q k \<and> k \<noteq> q) (keys fs)))"

datatype entry = Tree fs | Leaf node

definition entry_at :: "fs \<Rightarrow> path \<Rightarrow> entry option" where
  "entry_at fs q = (case fmlookup fs q of
     None \<Rightarrow> None | Some Dir \<Rightarrow> Some (Tree (below fs q)) | Some x \<Rightarrow> Some (Leaf x))"

definition clear_at :: "fs \<Rightarrow> path \<Rightarrow> fs" where
  "clear_at fs q = fmfilter (\<lambda>k. \<not> beneath q k) fs"

definition put_entry :: "fs \<Rightarrow> path \<Rightarrow> entry option \<Rightarrow> fs" where
  "put_entry fs q e = (case e of
     None \<Rightarrow> clear_at fs q
   | Some (Leaf x) \<Rightarrow> fmupd q x (clear_at fs q)
   | Some (Tree t) \<Rightarrow> fmupd q Dir (clear_at fs q ++\<^sub>f
       fmap_of_list (map (\<lambda>k. (q @ k, the (fmlookup t k))) (filter (\<lambda>k. k \<noteq> []) (keys t)))))"

lemma beneath_append [simp]: "beneath q (q @ k)"
  by (simp add: beneath_def)

lemma beneath_iff: "beneath q k \<longleftrightarrow> (\<exists>r. k = q @ r)"
  by (metis append_take_drop_id beneath_append beneath_def)

lemma set_keys [simp]: "set (keys fs) = fset (fmdom fs)"
  by (simp add: keys_def)

lemma lookup_keys:
  assumes "inj_on f (set ks)" and "k \<in> set ks"
  shows "fmlookup (fmap_of_list (map (\<lambda>k. (f k, g k)) ks)) (f k) = Some (g k)"
  using assms by (induction ks) (auto simp: inj_on_def)

lemma lookup_no_key:
  assumes "y \<notin> f ` set ks"
  shows "fmlookup (fmap_of_list (map (\<lambda>k. (f k, g k)) ks)) y = None"
  using assms by (induction ks) auto

lemma lookup_add: "fmlookup (m ++\<^sub>f n) k = (case fmlookup n k of Some v \<Rightarrow> Some v | None \<Rightarrow> fmlookup m k)"
  by (auto simp: fmlookup_dom_iff split: option.split)

lemma lookup_below:
  assumes "k \<noteq> []"
  shows "fmlookup (below fs q) k = fmlookup fs (q @ k)"
proof -
  let ?ks = "filter (\<lambda>k. beneath q k \<and> k \<noteq> q) (keys fs)"
  have inj: "inj_on (drop (length q)) (set ?ks)"
    by (auto simp: inj_on_def beneath_iff)
  show ?thesis
  proof (cases "fmlookup fs (q @ k)")
    case None
    then have "k \<notin> drop (length q) ` set ?ks"
      by (auto simp: beneath_iff fmlookup_dom_iff)
    from lookup_no_key [OF this] None show ?thesis unfolding below_def by simp
  next
    case (Some x)
    then have "q @ k \<in> set ?ks" using assms by (simp add: fmlookup_dom_iff)
    from lookup_keys [OF inj this, of "\<lambda>k. the (fmlookup fs k)"] Some show ?thesis
      unfolding below_def by simp
  qed
qed

lemma lookup_below_Nil [simp]: "fmlookup (below fs q) [] = None"
  unfolding below_def by (rule lookup_no_key) (auto simp: beneath_iff)

lemma lookup_put_entry:
  "fmlookup (put_entry fs q e) k =
     (if k = q then (case e of None \<Rightarrow> None | Some (Leaf x) \<Rightarrow> Some x | Some (Tree t) \<Rightarrow> Some Dir)
      else if beneath q k then (case e of Some (Tree t) \<Rightarrow> fmlookup t (drop (length q) k) | _ \<Rightarrow> None)
      else fmlookup fs k)"
proof (cases "\<exists>t. e = Some (Tree t)")
  case True
  then obtain t where e: "e = Some (Tree t)" ..
  let ?ks = "filter (\<lambda>k. k \<noteq> []) (keys t)"
  define g where "g = fmap_of_list (map (\<lambda>k. (q @ k, the (fmlookup t k))) ?ks)"
  have inj: "inj_on ((@) q) A" for A by (simp add: inj_on_def)
  have g: "fmlookup g (q @ r) = fmlookup t r" if "r \<noteq> []" for r
  proof (cases "fmlookup t r")
    case None
    then have "q @ r \<notin> (@) q ` set ?ks" using that by (auto simp: fmlookup_dom_iff)
    from lookup_no_key [OF this] None show ?thesis unfolding g_def by simp
  next
    case (Some x)
    then have "r \<in> set ?ks" using that by (simp add: fmlookup_dom_iff)
    from lookup_keys [OF inj this, of "\<lambda>k. the (fmlookup t k)"] Some show ?thesis
      unfolding g_def by simp
  qed
  have out: "fmlookup g k = None" if "\<not> beneath q k"
    unfolding g_def by (rule lookup_no_key) (use that in auto)
  have put: "put_entry fs q e = fmupd q Dir (clear_at fs q ++\<^sub>f g)" by (simp add: put_entry_def e g_def)
  have clear: "fmlookup (clear_at fs q) k = (if beneath q k then None else fmlookup fs k)" by (simp add: clear_at_def)
  show ?thesis
  proof (cases "k = q")
    case False
    have look: "fmlookup (put_entry fs q e) k = (case fmlookup g k of Some v \<Rightarrow> Some v | None \<Rightarrow> fmlookup (clear_at fs q) k)"
      unfolding put lookup_add [symmetric] using False by simp
    show ?thesis
    proof (cases "beneath q k")
      case True
      then obtain r where r: "k = q @ r" by (auto simp: beneath_iff)
      then have "fmlookup g k = fmlookup t r" using g [of r] False by simp
      then show ?thesis unfolding look using True False r clear by (simp add: e split: option.split)
    next
      case nb: False
      then show ?thesis unfolding look using False out clear by simp
    qed
  next
    case True
    have "fmlookup (put_entry fs q e) q = Some Dir" unfolding put by simp
    then show ?thesis using True e by simp
  qed
next
  case False
  then show ?thesis
    by (cases e; cases "the e") (auto simp: put_entry_def clear_at_def beneath_def)
qed

text \<open>Reading an entry back after writing it, and others that are not below it.\<close>

lemma entry_put_same:
  assumes "\<And>t. e = Some (Tree t) \<Longrightarrow> fmlookup t [] = None" and "e \<noteq> Some (Leaf Dir)"
  shows "entry_at (put_entry fs q e) q = e"
proof (cases "\<exists>t. e = Some (Tree t)")
  case True
  then obtain t where e: "e = Some (Tree t)" ..
  have "below (put_entry fs q e) q = t"
  proof (rule fmap_ext)
    fix k show "fmlookup (below (put_entry fs q e) q) k = fmlookup t k"
      using assms(1) [OF e] by (cases "k = []") (simp_all add: lookup_below lookup_put_entry e)
  qed
  then show ?thesis by (simp add: entry_at_def lookup_put_entry e)
next
  case False
  then show ?thesis using assms(2)
    by (cases e; cases "the e") (auto simp: entry_at_def lookup_put_entry split: node.split)
qed

lemma entry_put_other:
  assumes "\<not> beneath q r" and "\<not> beneath r q"
  shows "entry_at (put_entry fs q e) r = entry_at fs r"
proof -
  have "fmlookup (put_entry fs q e) (r @ k) = fmlookup fs (r @ k)" for k
  proof -
    have "\<not> beneath q (r @ k)"
    proof
      assume "beneath q (r @ k)"
      then obtain x where "r @ k = q @ x" by (auto simp: beneath_iff)
      then show False using assms by (auto simp: append_eq_append_conv2 beneath_iff)
    qed
    moreover have "r @ k \<noteq> q" using assms(2) by (auto simp: beneath_iff)
    ultimately show ?thesis by (simp add: lookup_put_entry)
  qed
  note same = this
  have "below (put_entry fs q e) r = below fs r"
  proof (rule fmap_ext)
    fix k show "fmlookup (below (put_entry fs q e) r) k = fmlookup (below fs r) k"
      by (cases "k = []") (simp_all add: lookup_below same)
  qed
  moreover have "fmlookup (put_entry fs q e) r = fmlookup fs r" using same [of "[]"] by simp
  ultimately show ?thesis unfolding entry_at_def by metis
qed

end
