(* ===== verification/Intent.thy ===== *)
theory Intent
  imports Steps Files
begin

text \<open>
  The state of a worker's tools and its surroundings, and \<open>farmkit/intent.py\<close> and \<open>adopt.py\<close>:
  a submission is written down before sbatch is called and correlated with accounting
  afterwards. What the surroundings answer is given by the number of the question, so that
  every call may answer differently; each call of sbatch is logged with the ledger files as
  they were on disk when it was made.
\<close>

subsection \<open>State and surroundings\<close>

datatype proc = Unstarted string | Ended int string string

record call =
  c_argv :: "string list"
  c_files :: "(string, attempt) fmap"

record kit =
  y_ledger :: ledger
  y_fs :: fs
  y_cache :: state_cache
  y_n :: nat
  y_calls :: "call list"
  y_actions :: "string list"
  y_submitted :: "string list"

text \<open>\<open>Unstarted\<close> stands for an OSError or a timeout. \<open>tl_local\<close> runs a command in a directory and
  changes the files; \<open>tl_lookup\<close> is the accounting query by comment, None when the runner has
  none; \<open>tl_parse\<close> is \<open>json.loads\<close>, \<open>tl_glob\<close> is \<open>sorted(workspace.glob(pattern))\<close> as paths relative
  to the workspace, \<open>tl_split\<close> is \<open>shlex.split\<close>, \<open>tl_verify\<close> calls a project verifier.\<close>

record tools =
  tl_now :: "nat \<Rightarrow> string"
  tl_mono :: "nat \<Rightarrow> rat"
  tl_uuid :: "nat \<Rightarrow> string"
  tl_sbatch :: "nat \<Rightarrow> string list \<Rightarrow> proc"
  tl_local :: "nat \<Rightarrow> string list \<Rightarrow> path \<Rightarrow> (string \<times> string) list \<Rightarrow> fs \<Rightarrow> proc \<times> fs"
  tl_lookup :: "(nat \<Rightarrow> string \<Rightarrow> string list option) option"
  tl_which :: "nat \<Rightarrow> which"
  tl_run :: "nat \<Rightarrow> run"
  tl_ttl :: rat
  tl_sacct_row :: "nat \<Rightarrow> string \<Rightarrow> string option"
  tl_sha :: "string \<Rightarrow> string"
  tl_parse :: "string \<Rightarrow> json res"
  tl_glob :: "fs \<Rightarrow> string \<Rightarrow> path list"
  tl_split :: "string \<Rightarrow> string list res"
  tl_env_digest :: string
  tl_verify :: "nat \<Rightarrow> string \<Rightarrow> attempt \<Rightarrow> (string \<times> path) list \<Rightarrow> verifier_result"

definition tick_n :: "(kit, nat) cmd" where
  "tick_n = bnd (gets y_n) (\<lambda>n. seq (modify (\<lambda>k. k\<lparr>y_n := Suc n\<rparr>)) (ret n))"

definition utc_now :: "tools \<Rightarrow> (kit, string) cmd" where
  "utc_now W = bnd tick_n (\<lambda>n. ret (tl_now W n))"

definition kit_uuid :: "tools \<Rightarrow> (kit, string) cmd" where
  "kit_uuid W = bnd tick_n (\<lambda>n. ret (tl_uuid W n))"

text \<open>\<open>ledger.all()\<close> and \<open>ledger.save(record)\<close> as operations on the kit.\<close>

definition listing :: "(kit, attempt list) cmd" where
  "listing = bnd (gets y_ledger) (\<lambda>g. case ledger_all g of (rs, g') \<Rightarrow>
     seq (modify (\<lambda>k. k\<lparr>y_ledger := g'\<rparr>)) (ret rs))"

definition save :: "tools \<Rightarrow> attempt \<Rightarrow> (kit, attempt) cmd" where
  "save W r = bnd (utc_now W) (\<lambda>ts. bnd (gets y_ledger) (\<lambda>g. bnd (pure (ledger_save ts r g)) (\<lambda>(r', g').
     seq (modify (\<lambda>k. k\<lparr>y_ledger := g'\<rparr>)) (ret r'))))"

definition note_action :: "string \<Rightarrow> (kit, unit) cmd" where
  "note_action a = modify (\<lambda>k. k\<lparr>y_actions := y_actions k @ [a]\<rparr>)"

definition call_sbatch :: "tools \<Rightarrow> string list \<Rightarrow> (kit, proc) cmd" where
  "call_sbatch W argv = bnd tick_n (\<lambda>n.
     seq (modify (\<lambda>k. k\<lparr>y_calls := y_calls k @ [\<lparr>c_argv = argv, c_files = g_files (y_ledger k)\<rparr>]\<rparr>))
     (ret (tl_sbatch W n argv)))"

subsection \<open>Submitting\<close>

definition job_name :: "string \<Rightarrow> string \<Rightarrow> string" where
  "job_name step aid = sanitize ''step'' step @ ''-'' @ take 8 aid"

definition job_comment :: "string \<Rightarrow> string" where
  "job_comment aid = ''attempt:'' @ aid"

definition sbatch_argv :: "attempt \<Rightarrow> string \<Rightarrow> string list \<Rightarrow> string list" where
  "sbatch_argv r script extra =
     [''sbatch'', ''--parsable'', ''--job-name='' @ job_name (a_step r) (a_id r), ''--comment='' @ job_comment (a_id r)] @
     extra @ [script]"

definition with_submit :: "(submission \<Rightarrow> submission) \<Rightarrow> attempt \<Rightarrow> attempt" where
  "with_submit f r = r\<lparr>a_submit := map_option f (a_submit r)\<rparr>"

text \<open>\<open>proc.stdout.strip().split(";")[0].split()[0] if proc.stdout.strip() else ""\<close>\<close>

definition parsed_job :: "string \<Rightarrow> string res" where
  "parsed_job out = (if strip out = [] then Inr []
     else case split_ws (hd (split_on CHR '';'' (strip out))) of [] \<Rightarrow> Inl IndexError | w # _ \<Rightarrow> Inr w)"

definition submit_outcome :: "tools \<Rightarrow> attempt \<Rightarrow> proc \<Rightarrow> (kit, attempt) cmd" where
  "submit_outcome W r p = (case p of
       Unstarted e \<Rightarrow> save W (with_submit (\<lambda>s. s\<lparr>s_error := Some (''sbatch did not return: '' @ e)\<rparr>) r)
     | Ended rc out err \<Rightarrow>
         if rc \<noteq> 0 then save W (with_submit (\<lambda>s. s\<lparr>s_error := Some (take 500 (strip err)), s_status := ''rejected''\<rparr>) r)
         else bnd (pure (parsed_job out)) (\<lambda>job.
           if \<not> fullmatch job_id_rx job
           then save W (with_submit (\<lambda>s. s\<lparr>s_error := Some (''unparseable sbatch output: '' @ take 200 (strip out))\<rparr>) r)
           else save W ((with_submit (\<lambda>s. s\<lparr>s_job := Some job, s_status := ''submitted''\<rparr>) r)\<lparr>a_wait := Some (''job:'' @ job)\<rparr>)))"

definition submit :: "tools \<Rightarrow> attempt \<Rightarrow> string list \<Rightarrow> string option \<Rightarrow> (kit, attempt) cmd" where
  "submit W r argv cwd =
     bnd (utc_now W) (\<lambda>ts.
     bnd (save W (r\<lparr>a_submit := Some \<lparr>s_intent = ts, s_argv = argv, s_cwd = cwd, s_job = None,
                      s_status = ''intent'', s_error = None\<rparr>\<rparr>)) (\<lambda>r1.
     bnd (call_sbatch W argv) (submit_outcome W r1)))"

subsection \<open>Reconciling\<close>

definition reconcile :: "tools \<Rightarrow> (nat \<Rightarrow> string \<Rightarrow> string list option) \<Rightarrow> attempt \<Rightarrow> (kit, string) cmd" where
  "reconcile W lookup r =
     (case status_of r of
        Some st \<Rightarrow>
          if st \<noteq> ''intent'' \<and> st \<noteq> ''unverified'' then ret (if st = [] then ''none'' else st)
          else bnd tick_n (\<lambda>n. case lookup n (job_comment (a_id r)) of
            None \<Rightarrow> bnd (save W (with_submit (\<lambda>s. s\<lparr>s_status := ''unverified'', s_error := Some ''accounting query failed''\<rparr>) r))
              (\<lambda>u. ret ''unverified'')
          | Some [] \<Rightarrow> bnd (save W (with_submit (\<lambda>s. s\<lparr>s_status := ''unverified'',
                s_error := Some ''no accounting row yet (lag, or sbatch never ran)''\<rparr>) r)) (\<lambda>u. ret ''unverified'')
          | Some [j] \<Rightarrow> bnd (save W ((with_submit (\<lambda>s. s\<lparr>s_job := Some j, s_status := ''submitted'', s_error := None\<rparr>) r)
                \<lparr>a_wait := Some (''job:'' @ j)\<rparr>)) (\<lambda>u. ret ''submitted'')
          | Some (i # j # js) \<Rightarrow> bnd (save W (with_submit (\<lambda>s. s\<lparr>s_status := ''unverified'',
                s_error := Some ''several jobs carry this attempt id''\<rparr>) r)) (\<lambda>u. ret ''duplicate-suspected''))
      | None \<Rightarrow> ret ''none'')"

fun reconcile_list :: "tools \<Rightarrow> (nat \<Rightarrow> string \<Rightarrow> string list option) \<Rightarrow> attempt list \<Rightarrow> (kit, (string \<times> string) list) cmd" where
  "reconcile_list W lookup [] = ret []"
| "reconcile_list W lookup (r # rs) = bnd (reconcile W lookup r) (\<lambda>st.
     bnd (reconcile_list W lookup rs) (\<lambda>xs. ret ((a_id r, st) # xs)))"

definition reconcile_all :: "tools \<Rightarrow> (nat \<Rightarrow> string \<Rightarrow> string list option) \<Rightarrow> (kit, (string \<times> string) list) cmd" where
  "reconcile_all W lookup = bnd listing (\<lambda>rs. reconcile_list W lookup (unverified_intents rs))"

text \<open>\<open>sacct_lookup_factory\<close>: the rows of accounting whose comment is the attempt's.\<close>

definition lookup_row :: "string \<Rightarrow> string \<Rightarrow> string option" where
  "lookup_row c line = (case split_on CHR ''|'' line of j # k # _ \<Rightarrow> if strip k = c then Some j else None | _ \<Rightarrow> None)"

definition sacct_lookup :: "run \<Rightarrow> string \<Rightarrow> string list option" where
  "sacct_lookup run c =
     (case run [''sacct'', ''-n'', ''-X'', ''-P'', ''-S'', ''now-2days'', ''--format=JobID,Comment%80''] of
        None \<Rightarrow> None
      | Some (rc, out) \<Rightarrow> if rc \<noteq> 0 then None else Some (List.map_filter (lookup_row c) (splitlines out)))"

subsection \<open>Adoption\<close>

definition declared_input :: "string \<Rightarrow> input_entry" where
  "declared_input i = \<lparr>ie_path = i, ie_exists = False, ie_identity = (None, None, None, None), ie_resolved = None,
     ie_recorded = Some ''adoption'', ie_changed = None\<rparr>"

definition adopt :: "tools \<Rightarrow> string option \<Rightarrow> string option \<Rightarrow> string \<Rightarrow> string \<Rightarrow> string list \<Rightarrow> int \<Rightarrow> string \<Rightarrow> (kit, attempt) cmd" where
  "adopt W task site step job ins used cls =
     seq (guard (strip job \<noteq> [] \<and> strip step \<noteq> []) (ValueError ''adopt needs a step and a job id''))
     (bnd listing (\<lambda>rs. bnd (kit_uuid W) (\<lambda>aid. bnd (utc_now W) (\<lambda>created. bnd (utc_now W) (\<lambda>ts.
     save W ((ledger_new rs step task None site aid created)
       \<lparr>a_submit := Some \<lparr>s_intent = ts, s_argv = [], s_cwd = None, s_job = Some job, s_status = ''adopted'', s_error = None\<rparr>,
        a_wait := Some (''job:'' @ job),
        a_inputs := fmap_of_list (map (\<lambda>i. (i, declared_input i)) ins),
        a_budget := \<lparr>bg_class = Some cls, bg_max = (if cls = ''infra'' then 1 else 0), bg_used = used, bg_prior = used\<rparr>\<rparr>))))))"

subsection \<open>Rules\<close>

definition stamped :: "string \<Rightarrow> attempt \<Rightarrow> attempt" where
  "stamped ts r = r\<lparr>a_updated := Some ts\<rparr>"

definition stored :: "attempt \<Rightarrow> ledger \<Rightarrow> ledger" where
  "stored r g = rebuild_index (invalidate (g\<lparr>g_files := fmupd (a_id r) r (g_files g)\<rparr>))"

lemma g_files_stored [simp]: "g_files (stored r g) = fmupd (a_id r) r (g_files g)"
  unfolding stored_def using coherent_rebuild [of "invalidate (g\<lparr>g_files := fmupd (a_id r) r (g_files g)\<rparr>)"]
  by (simp add: invalidate_def)

lemma coherent_stored [simp]: "coherent (stored r g)"
  unfolding stored_def using coherent_rebuild by blast

lemma stamped_simps [simp]:
  "a_id (stamped ts r) = a_id r" "a_schema (stamped ts r) = a_schema r" "a_step (stamped ts r) = a_step r"
  "a_submit (stamped ts r) = a_submit r" "a_created (stamped ts r) = a_created r" "a_wait (stamped ts r) = a_wait r"
  "a_verdict (stamped ts r) = a_verdict r" "a_failure (stamped ts r) = a_failure r" "a_observed (stamped ts r) = a_observed r"
  "a_budget (stamped ts r) = a_budget r" "age (stamped ts r) = age r"
  by (simp_all add: stamped_def age_def)

lemma with_submit_simps [simp]:
  "a_id (with_submit f r) = a_id r" "a_schema (with_submit f r) = a_schema r" "a_step (with_submit f r) = a_step r"
  "a_submit (with_submit f r) = map_option f (a_submit r)" "a_created (with_submit f r) = a_created r"
  "a_verdict (with_submit f r) = a_verdict r" "a_failure (with_submit f r) = a_failure r" "a_observed (with_submit f r) = a_observed r"
  "a_budget (with_submit f r) = a_budget r" "age (with_submit f r) = age r"
  by (simp_all add: with_submit_def age_def)

lemma wp_tick_n [wp_rules]: "wp tick_n Q k = Q (Inr (y_n k)) (k\<lparr>y_n := Suc (y_n k)\<rparr>)"
  by (simp add: tick_n_def wp_rules)

lemma wp_utc_now [wp_rules]: "wp (utc_now W) Q k = Q (Inr (tl_now W (y_n k))) (k\<lparr>y_n := Suc (y_n k)\<rparr>)"
  by (simp add: utc_now_def wp_rules)

lemma wp_kit_uuid [wp_rules]: "wp (kit_uuid W) Q k = Q (Inr (tl_uuid W (y_n k))) (k\<lparr>y_n := Suc (y_n k)\<rparr>)"
  by (simp add: kit_uuid_def wp_rules)

lemma wp_note_action [wp_rules]: "wp (note_action a) Q k = Q (Inr ()) (k\<lparr>y_actions := y_actions k @ [a]\<rparr>)"
  by (simp add: note_action_def wp_rules)

lemma wp_call_sbatch [wp_rules]:
  "wp (call_sbatch W argv) Q k = Q (Inr (tl_sbatch W (y_n k) argv))
     (k\<lparr>y_n := Suc (y_n k), y_calls := y_calls k @ [\<lparr>c_argv = argv, c_files = g_files (y_ledger k)\<rparr>]\<rparr>)"
  by (simp add: call_sbatch_def wp_rules)

lemma wp_listing [wp_rules]:
  "wp listing Q k = Q (Inr (fst (ledger_all (y_ledger k)))) (k\<lparr>y_ledger := snd (ledger_all (y_ledger k))\<rparr>)"
  by (simp add: listing_def wp_rules case_prod_unfold)

lemma wp_save [wp_rules]:
  "wp (save W r) Q k = (let ts = tl_now W (y_n k) in
     if a_schema r = schema then Q (Inr (stamped ts r)) (k\<lparr>y_n := Suc (y_n k), y_ledger := stored (stamped ts r) (y_ledger k)\<rparr>)
     else Q (Inl (ValueError ''not a farmkit attempt record'')) (k\<lparr>y_n := Suc (y_n k)\<rparr>))"
  by (simp add: save_def wp_rules ledger_save_def stored_def stamped_def Let_def)

text \<open>The intent is on disk before sbatch is called, and a job id only comes from sbatch. A submission
  calls sbatch exactly once, with the recorded arguments, while the attempt's file already says
  intent; afterwards, whether it returned or raised, the file says submitted only with the
  well-formed job id a successful sbatch printed first, rejected only when sbatch positively
  failed, and otherwise still intent without a job.\<close>

theorem intent_before_dispatch:
  assumes "a_schema r = schema" and "submit W r argv cwd k = (res, k')"
  shows "\<exists>c n p f s. y_calls k' = y_calls k @ [c] \<and> c_argv c = argv \<and> p = tl_sbatch W n argv \<and>
    (\<exists>d i. fmlookup (c_files c) (a_id r) = Some d \<and> a_submit d = Some i \<and>
       s_status i = ''intent'' \<and> s_argv i = argv \<and> s_job i = None) \<and>
    fmlookup (g_files (y_ledger k')) (a_id r) = Some f \<and> a_submit f = Some s \<and> s_argv s = argv \<and>
    (s_status s = ''submitted'' \<and> (\<exists>out err job. p = Ended 0 out err \<and> parsed_job out = Inr job \<and>
        fullmatch job_id_rx job \<and> s_job s = Some job \<and> a_wait f = Some (''job:'' @ job)) \<or>
     s_status s = ''rejected'' \<and> s_job s = None \<and> (\<exists>rc out err. p = Ended rc out err \<and> rc \<noteq> 0) \<or>
     s_status s = ''intent'' \<and> s_job s = None \<and> (\<forall>rc out err. p = Ended rc out err \<longrightarrow> rc = 0))"
proof -
  let ?n = "Suc (Suc (y_n k))"
  let ?d = "stamped (tl_now W (Suc (y_n k))) (r\<lparr>a_submit := Some \<lparr>s_intent = tl_now W (y_n k), s_argv = argv, s_cwd = cwd,
      s_job = None, s_status = ''intent'', s_error = None\<rparr>\<rparr>)"
  let ?c = "\<lparr>c_argv = argv, c_files = fmupd (a_id r) ?d (g_files (y_ledger k))\<rparr>"
  let ?Q = "\<lambda>res :: attempt res. \<lambda>k'. y_calls k' = y_calls k @ [?c] \<and>
    (\<exists>f s. fmlookup (g_files (y_ledger k')) (a_id r) = Some f \<and> a_submit f = Some s \<and> s_argv s = argv \<and>
    (s_status s = ''submitted'' \<and> (\<exists>out err job. tl_sbatch W ?n argv = Ended 0 out err \<and> parsed_job out = Inr job \<and>
        fullmatch job_id_rx job \<and> s_job s = Some job \<and> a_wait f = Some (''job:'' @ job)) \<or>
     s_status s = ''rejected'' \<and> s_job s = None \<and> (\<exists>rc out err. tl_sbatch W ?n argv = Ended rc out err \<and> rc \<noteq> 0) \<or>
     s_status s = ''intent'' \<and> s_job s = None \<and> (\<forall>rc out err. tl_sbatch W ?n argv = Ended rc out err \<longrightarrow> rc = 0)))"
  have "wp (submit W r argv cwd) ?Q k"
  proof (cases "tl_sbatch W ?n argv")
    case (Unstarted e)
    then show ?thesis by (simp add: submit_def submit_outcome_def Let_def wp_rules assms(1))
  next
    case (Ended rc out err)
    show ?thesis
    proof (cases "rc = 0")
      case False
      then show ?thesis using Ended by (simp add: submit_def submit_outcome_def Let_def wp_rules assms(1))
    next
      case True
      then show ?thesis
        by (cases "parsed_job out") (auto simp: submit_def submit_outcome_def Let_def wp_rules assms(1) Ended)
    qed
  qed
  from wpD [OF this assms(2)] obtain f s where "y_calls k' = y_calls k @ [?c]"
    "fmlookup (g_files (y_ledger k')) (a_id r) = Some f" "a_submit f = Some s" "s_argv s = argv"
    "s_status s = ''submitted'' \<and> (\<exists>out err job. tl_sbatch W ?n argv = Ended 0 out err \<and> parsed_job out = Inr job \<and>
        fullmatch job_id_rx job \<and> s_job s = Some job \<and> a_wait f = Some (''job:'' @ job)) \<or>
     s_status s = ''rejected'' \<and> s_job s = None \<and> (\<exists>rc out err. tl_sbatch W ?n argv = Ended rc out err \<and> rc \<noteq> 0) \<or>
     s_status s = ''intent'' \<and> s_job s = None \<and> (\<forall>rc out err. tl_sbatch W ?n argv = Ended rc out err \<longrightarrow> rc = 0)"
    by blast
  then show ?thesis
    by (intro exI [of _ ?c] exI [of _ ?n] exI [of _ "tl_sbatch W ?n argv"] exI [of _ f] exI [of _ s]) simp
qed

text \<open>Reconciliation never submits.\<close>

lemma reconcile_calls: "keeps (\<lambda>k. y_calls k = cs) (reconcile W lookup r)"
  by (rule keepsI) (auto simp: reconcile_def wp_rules Let_def split: option.split list.split)

lemma reconcile_list_calls: "keeps (\<lambda>k. y_calls k = cs) (reconcile_list W lookup rs)"
  by (induction rs) (auto intro: keeps_rules reconcile_calls)

lemma reconcile_all_calls: "keeps (\<lambda>k. y_calls k = cs) (reconcile_all W lookup)"
  unfolding reconcile_all_def
  by (rule keeps_bnd, rule keepsI, simp add: wp_rules, rule reconcile_list_calls)

text \<open>sbatch output whose first field is empty is not reported as unparseable: the tick raises.\<close>

lemma empty_field_raises: "parsed_job '';cluster'' = Inl IndexError"
  by code_simp

end
