(* ===== verification/Publish.thy ===== *)
theory Publish
  imports Files
begin

text \<open>
  Replacing a published directory (\<open>Runner._replace_dir\<close> and \<open>_remove_tree\<close> of
  \<open>farmkit/runner.py\<close>). It works on four names of one directory: the published one, the staged
  copy, its completion marker and the replaced version. Every intermediate state of the disk is
  recorded, the half-made copies and half-removed trees included, so that a crash at any moment
  is a state of the record. A published name that is a dangling link counts as present, and the
  private names hold directories.
\<close>

record slots =
  sl_dst :: "entry option"
  sl_fresh :: "fs option"
  sl_marker :: bool
  sl_old :: "fs option"

text \<open>What the operating system does with the two long operations: the trees that can be seen on the
  way, and whether the operation came to its end. The number counts the calls.\<close>

record os =
  os_copy :: "nat \<Rightarrow> fs list \<times> bool"
  os_remove :: "nat \<Rightarrow> fs \<Rightarrow> fs list \<times> bool"

record disk =
  d_now :: slots
  d_seen :: "slots list"
  d_n :: nat

definition act :: "(slots \<Rightarrow> slots) \<Rightarrow> (disk, unit) cmd" where
  "act f = modify (\<lambda>d. d\<lparr>d_now := f (d_now d), d_seen := f (d_now d) # d_seen d\<rparr>)"

definition count :: "(disk, nat) cmd" where
  "count = bnd (gets d_n) (\<lambda>n. seq (modify (\<lambda>d. d\<lparr>d_n := Suc n\<rparr>)) (ret n))"

text \<open>\<open>shutil.rmtree(path, ignore_errors=True)\<close>, up to six times; \<open>get\<close> and \<open>put\<close> select the tree.\<close>

fun remove_tree :: "nat \<Rightarrow> os \<Rightarrow> (slots \<Rightarrow> fs option) \<Rightarrow> (fs option \<Rightarrow> slots \<Rightarrow> slots) \<Rightarrow> (disk, bool) cmd" where
  "remove_tree 0 W get put = gets (\<lambda>d. get (d_now d) = None)"
| "remove_tree (Suc k) W get put =
     bnd (gets (\<lambda>d. get (d_now d))) (\<lambda>t. case t of
       None \<Rightarrow> ret True
     | Some tree \<Rightarrow>
         bnd count (\<lambda>n. case os_remove W n tree of (seen, gone) \<Rightarrow>
         seq (for_each seen (\<lambda>u. act (put (Some u))))
         (if gone then seq (act (put None)) (ret True) else remove_tree k W get put)))"

abbreviation remove_fresh :: "os \<Rightarrow> (disk, bool) cmd" where
  "remove_fresh W \<equiv> remove_tree 6 W sl_fresh (\<lambda>t s. s\<lparr>sl_fresh := t\<rparr>)"

abbreviation remove_old :: "os \<Rightarrow> (disk, bool) cmd" where
  "remove_old W \<equiv> remove_tree 6 W sl_old (\<lambda>t s. s\<lparr>sl_old := t\<rparr>)"

definition set_marker :: "bool \<Rightarrow> (disk, unit) cmd" where
  "set_marker b = act (\<lambda>s. s\<lparr>sl_marker := b\<rparr>)"

text \<open>\<open>shutil.copytree(src, fresh, symlinks=True)\<close>\<close>

definition copy_tree :: "os \<Rightarrow> fs \<Rightarrow> (disk, unit) cmd" where
  "copy_tree W src = bnd count (\<lambda>n. case os_copy W n of (seen, done_it) \<Rightarrow>
     seq (for_each seen (\<lambda>u. act (\<lambda>s. s\<lparr>sl_fresh := Some u\<rparr>)))
     (if done_it then act (\<lambda>s. s\<lparr>sl_fresh := Some src\<rparr>) else throw (OSError ''copytree failed'')))"

text \<open>\<open>dst.unlink()\<close> of a file or link, \<open>dst.rename(old)\<close> and \<open>fresh.rename(dst)\<close>.\<close>

definition move_away :: "os \<Rightarrow> (disk, unit) cmd" where
  "move_away W = bnd (gets (\<lambda>d. sl_dst (d_now d))) (\<lambda>e. case e of
     None \<Rightarrow> ret ()
   | Some (Leaf x) \<Rightarrow> act (\<lambda>s. s\<lparr>sl_dst := None\<rparr>)
   | Some (Tree t) \<Rightarrow>
       bnd (gets (\<lambda>d. sl_old (d_now d))) (\<lambda>stale.
       seq (if stale = None then ret () else bnd (remove_old W) (\<lambda>gone.
              guard gone (StepsError ''cannot remove the stale backup'')))
       (act (\<lambda>s. s\<lparr>sl_old := Some t, sl_dst := None\<rparr>))))"

definition install :: "(disk, unit) cmd" where
  "install = act (\<lambda>s. s\<lparr>sl_dst := map_option Tree (sl_fresh s), sl_fresh := None\<rparr>)"

definition swap :: "os \<Rightarrow> (disk, unit) cmd" where
  "swap W = seq (move_away W) (seq install (bnd (remove_old W) (\<lambda>gone. set_marker False)))"

text \<open>What is left to do once the staging place holds a complete copy or nothing.\<close>

definition proceed :: "os \<Rightarrow> fs \<Rightarrow> (disk, unit) cmd" where
  "proceed W src = bnd (gets d_now) (\<lambda>s.
     if sl_fresh s \<noteq> None then swap W
     else if sl_old s \<noteq> None \<and> sl_dst s \<noteq> None then bnd (remove_old W) (\<lambda>gone. set_marker False)
     else seq (set_marker False) (seq (copy_tree W src) (seq (set_marker True) (swap W))))"

definition replace_dir :: "os \<Rightarrow> fs \<Rightarrow> (disk, unit) cmd" where
  "replace_dir W src =
     seq (bnd (gets (\<lambda>d. sl_fresh (d_now d) \<noteq> None \<and> \<not> sl_marker (d_now d))) (\<lambda>torn.
       if torn then bnd (remove_fresh W) (\<lambda>gone. guard gone (StepsError ''cannot remove the incomplete staging copy''))
       else ret ()))
     (proceed W src)"

subsection \<open>At every instant\<close>

text \<open>The states a publication of \<open>new\<close> over \<open>prev\<close> can be in: before the swap, in the middle of it,
  and after it, when only the replaced version and the marker are left to remove.\<close>

definition before_swap :: "entry option \<Rightarrow> fs \<Rightarrow> slots \<Rightarrow> bool" where
  "before_swap prev new s \<longleftrightarrow> sl_dst s = prev \<and> sl_old s = None \<and> (sl_marker s \<longrightarrow> sl_fresh s = Some new \<or> sl_fresh s = None)"

definition mid_swap :: "entry option \<Rightarrow> fs \<Rightarrow> slots \<Rightarrow> bool" where
  "mid_swap prev new s \<longleftrightarrow> sl_dst s = None \<and> sl_fresh s = Some new \<and> sl_marker s \<and>
     (\<forall>v. prev = Some (Tree v) \<longrightarrow> sl_old s = Some v) \<and> (\<forall>v. sl_old s = Some v \<longrightarrow> prev = Some (Tree v))"

definition after_swap :: "fs \<Rightarrow> slots \<Rightarrow> bool" where
  "after_swap new s \<longleftrightarrow> sl_dst s = Some (Tree new) \<and> sl_fresh s = None"

definition publishing :: "entry option \<Rightarrow> fs \<Rightarrow> slots \<Rightarrow> bool" where
  "publishing prev new s \<longleftrightarrow>
     before_swap prev new s \<or> mid_swap prev new s \<or> after_swap new s \<or>
     before_swap (Some (Tree new)) new s \<or> mid_swap (Some (Tree new)) new s"

text \<open>What the invariant means for a reader of the workspace.\<close>

definition complete :: "entry option \<Rightarrow> fs \<Rightarrow> slots \<Rightarrow> bool" where
  "complete prev new s \<longleftrightarrow> sl_dst s = prev \<or> sl_dst s = Some (Tree new) \<or>
     sl_fresh s = Some new \<and> sl_marker s \<and> (\<forall>v. prev = Some (Tree v) \<longrightarrow> sl_old s = Some v \<or> sl_old s = Some new)"

lemma publishing_complete: "publishing prev new s \<Longrightarrow> complete prev new s"
  by (auto simp: publishing_def before_swap_def mid_swap_def after_swap_def complete_def)

definition recorded :: "(slots \<Rightarrow> bool) \<Rightarrow> disk \<Rightarrow> bool" where
  "recorded P d \<longleftrightarrow> P (d_now d) \<and> list_all P (d_seen d)"

lemma wp_act [wp_rules]: "wp (act f) Q d = Q (Inr ()) (d\<lparr>d_now := f (d_now d), d_seen := f (d_now d) # d_seen d\<rparr>)"
  by (simp add: act_def wp_rules)

lemma wp_count [wp_rules]: "wp count Q d = Q (Inr (d_n d)) (d\<lparr>d_n := Suc (d_n d)\<rparr>)"
  by (simp add: count_def wp_rules)

lemma recorded_act: "recorded P d \<Longrightarrow> P (f (d_now d)) \<Longrightarrow>
    recorded P (d\<lparr>d_now := f (d_now d), d_seen := f (d_now d) # d_seen d\<rparr>)"
  by (simp add: recorded_def)

lemma recorded_count [simp]: "recorded P (d\<lparr>d_n := k\<rparr>) = recorded P d"
  by (simp add: recorded_def)

text \<open>Writing trees into one slot, when every state that differs there only is allowed.\<close>

lemma wp_write_all:
  assumes "recorded P d" and "\<And>u. P (put (Some u) (d_now d))"
    and "\<And>u v s. put (Some u) (put (Some v) s) = put (Some u) s"
  shows "wp (for_each ts (\<lambda>u. act (put (Some u))))
    (\<lambda>r d'. r = Inr () \<and> recorded P d' \<and> (ts = [] \<and> d_now d' = d_now d \<or> (\<exists>u. d_now d' = put (Some u) (d_now d)))) d"
  using assms
proof (induction ts arbitrary: d)
  case (Cons t ts)
  let ?d = "d\<lparr>d_now := put (Some t) (d_now d), d_seen := put (Some t) (d_now d) # d_seen d\<rparr>"
  have "wp (for_each ts (\<lambda>u. act (put (Some u))))
    (\<lambda>r d'. r = Inr () \<and> recorded P d' \<and> (ts = [] \<and> d_now d' = d_now ?d \<or> (\<exists>u. d_now d' = put (Some u) (d_now ?d)))) ?d"
    by (rule Cons.IH) (use Cons.prems in \<open>auto intro: recorded_act\<close>)
  then show ?case
    unfolding for_each.simps wp_seq wp_act
    by (auto elim!: wp_mono simp: Cons.prems(3))
qed (simp add: wp_rules)

text \<open>An operating system on which both long operations always come to their end.\<close>

definition benign :: "os \<Rightarrow> bool" where
  "benign W \<longleftrightarrow> (\<forall>n. snd (os_copy W n)) \<and> (\<forall>n t. snd (os_remove W n t))"

text \<open>Removing a tree: it is gone, or something of it is left.\<close>

lemma wp_remove:
  assumes "recorded P d" and "\<And>u. P (put u (d_now d))"
    and pp: "\<And>u v s. put u (put v s) = put u s" and gp: "\<And>u s. get (put u s) = u" and pg: "\<And>s. put (get s) s = s"
  shows "wp (remove_tree k W get put)
    (\<lambda>r d'. recorded P d' \<and> (\<exists>b u. r = Inr b \<and> d_now d' = put u (d_now d) \<and> (b \<longleftrightarrow> u = None))) d"
  using assms(1,2)
proof (induction k arbitrary: d)
  case 0
  have "\<exists>b u. Inr (get (d_now d) = None) = (Inr b :: bool res) \<and> d_now d = put u (d_now d) \<and> (b \<longleftrightarrow> u = None)"
    using pg [of "d_now d"] by metis
  then show ?case using 0 by (simp add: wp_rules)
next
  case (Suc k)
  show ?case
  proof (cases "get (d_now d)")
    case None
    then have "put None (d_now d) = d_now d" using pg [of "d_now d"] by metis
    then have "\<exists>b u. Inr True = (Inr b :: bool res) \<and> d_now d = put u (d_now d) \<and> (b \<longleftrightarrow> u = None)" by metis
    then show ?thesis using Suc.prems(1) None by (simp add: wp_rules)
  next
    case (Some tree)
    obtain seen gone where o: "os_remove W (d_n d) tree = (seen, gone)" by (cases "os_remove W (d_n d) tree")
    let ?d = "d\<lparr>d_n := Suc (d_n d)\<rparr>"
    have w: "wp (for_each seen (\<lambda>u. act (put (Some u))))
      (\<lambda>r d'. r = Inr () \<and> recorded P d' \<and> (\<exists>u. d_now d' = put u (d_now d))) ?d"
      by (rule wp_mono, rule wp_write_all [of P])
        (use Suc.prems pp pg [of "d_now d"] in \<open>auto intro: exI [of _ "get (d_now d)"]\<close>)
    show ?thesis
    proof (cases gone)
      case True
      have "wp (for_each seen (\<lambda>u. act (put (Some u))))
        (\<lambda>r d'. (\<forall>e. r = Inl e \<longrightarrow> False) \<and> (\<forall>x. r = Inr x \<longrightarrow> wp (seq (act (put None)) (ret True))
          (\<lambda>r d'. recorded P d' \<and> (\<exists>b u. r = Inr b \<and> d_now d' = put u (d_now d) \<and> (b \<longleftrightarrow> u = None))) d')) ?d"
        by (rule wp_mono [OF w]) (use Suc.prems(2) in \<open>auto simp: wp_rules pp intro: recorded_act\<close>)
      then show ?thesis by (auto simp: wp_rules Some o True elim!: wp_mono)
    next
      case False
      have "wp (for_each seen (\<lambda>u. act (put (Some u))))
        (\<lambda>r d'. (\<forall>e. r = Inl e \<longrightarrow> False) \<and> (\<forall>x. r = Inr x \<longrightarrow> wp (remove_tree k W get put)
          (\<lambda>r d'. recorded P d' \<and> (\<exists>b u. r = Inr b \<and> d_now d' = put u (d_now d) \<and> (b \<longleftrightarrow> u = None))) d')) ?d"
      proof (rule wp_mono [OF w])
        fix r :: "unit res" and d'
        assume h: "r = Inr () \<and> recorded P d' \<and> (\<exists>u. d_now d' = put u (d_now d))"
        then obtain u where d': "recorded P d'" "d_now d' = put u (d_now d)" by blast
        have "wp (remove_tree k W get put)
          (\<lambda>r d''. recorded P d'' \<and> (\<exists>b u. r = Inr b \<and> d_now d'' = put u (d_now d') \<and> (b \<longleftrightarrow> u = None))) d'"
          by (rule Suc.IH) (use d' Suc.prems(2) in \<open>auto simp: pp\<close>)
        then have "wp (remove_tree k W get put)
          (\<lambda>r d'. recorded P d' \<and> (\<exists>b u. r = Inr b \<and> d_now d' = put u (d_now d) \<and> (b \<longleftrightarrow> u = None))) d'"
          by (rule wp_mono) (auto simp: d'(2) pp)
        then show "(\<forall>e. r = Inl e \<longrightarrow> False) \<and> (\<forall>x. r = Inr x \<longrightarrow> wp (remove_tree k W get put)
          (\<lambda>r d'. recorded P d' \<and> (\<exists>b u. r = Inr b \<and> d_now d' = put u (d_now d) \<and> (b \<longleftrightarrow> u = None))) d')"
          using h by simp
      qed
      then show ?thesis by (auto simp: wp_rules Some o False elim!: wp_mono)
    qed
  qed
qed

lemmas slot_defs = publishing_def before_swap_def mid_swap_def after_swap_def

lemma wp_remove_benign:
  assumes "benign W" and pp: "\<And>u v s. put u (put v s) = put u s" and pg: "\<And>s. put (get s) s = s"
  shows "wp (remove_tree (Suc k) W get put) (\<lambda>r d'. r = Inr True \<and> d_now d' = put None (d_now d)) d"
proof (cases "get (d_now d)")
  case None
  then have "put None (d_now d) = d_now d" using pg [of "d_now d"] by metis
  then show ?thesis using None by (simp add: wp_rules)
next
  case (Some tree)
  obtain seen gone where o: "os_remove W (d_n d) tree = (seen, gone)" by (cases "os_remove W (d_n d) tree")
  then have g: "gone" using assms(1) by (metis benign_def snd_conv)
  let ?d = "d\<lparr>d_n := Suc (d_n d)\<rparr>"
  have "wp (for_each seen (\<lambda>u. act (put (Some u))))
    (\<lambda>r d'. r = Inr () \<and> recorded (\<lambda>_. True) d' \<and> (seen = [] \<and> d_now d' = d_now ?d \<or> (\<exists>u. d_now d' = put (Some u) (d_now ?d)))) ?d"
    by (rule wp_write_all) (simp_all add: recorded_def pp list_all_iff)
  then show ?thesis by (auto simp: wp_rules Some o g pp elim!: wp_mono)
qed

lemma wp_remove_old:
  assumes "recorded P d" and "\<And>u. P ((d_now d)\<lparr>sl_old := u\<rparr>)"
  shows "wp (remove_old W) (\<lambda>r d'. recorded P d' \<and>
    (\<exists>b u. r = Inr b \<and> d_now d' = (d_now d)\<lparr>sl_old := u\<rparr> \<and> (b \<longleftrightarrow> u = None) \<and> (benign W \<longrightarrow> b))) d"
proof -
  have "wp (remove_old W) (\<lambda>r d'. recorded P d' \<and>
    (\<exists>b u. r = Inr b \<and> d_now d' = (d_now d)\<lparr>sl_old := u\<rparr> \<and> (b \<longleftrightarrow> u = None))) d"
    by (rule wp_remove) (use assms in simp_all)
  moreover have "wp (remove_old W) (\<lambda>r d'. benign W \<longrightarrow> r = Inr True) d"
    using wp_remove_benign [of W "\<lambda>t s. s\<lparr>sl_old := t\<rparr>" sl_old 5 d]
    by (cases "benign W") (auto elim!: wp_mono simp: eval_nat_numeral wp_def)
  ultimately show ?thesis by (rule wp_mono [OF wp_conj]) auto
qed

lemma wp_remove_fresh:
  assumes "recorded P d" and "\<And>u. P ((d_now d)\<lparr>sl_fresh := u\<rparr>)"
  shows "wp (remove_fresh W) (\<lambda>r d'. recorded P d' \<and>
    (\<exists>b u. r = Inr b \<and> d_now d' = (d_now d)\<lparr>sl_fresh := u\<rparr> \<and> (b \<longleftrightarrow> u = None) \<and> (benign W \<longrightarrow> b))) d"
proof -
  have "wp (remove_fresh W) (\<lambda>r d'. recorded P d' \<and>
    (\<exists>b u. r = Inr b \<and> d_now d' = (d_now d)\<lparr>sl_fresh := u\<rparr> \<and> (b \<longleftrightarrow> u = None))) d"
    by (rule wp_remove) (use assms in simp_all)
  moreover have "wp (remove_fresh W) (\<lambda>r d'. benign W \<longrightarrow> r = Inr True) d"
    using wp_remove_benign [of W "\<lambda>t s. s\<lparr>sl_fresh := t\<rparr>" sl_fresh 5 d]
    by (cases "benign W") (auto elim!: wp_mono simp: eval_nat_numeral wp_def)
  ultimately show ?thesis by (rule wp_mono [OF wp_conj]) auto
qed

text \<open>The last phase: the new version is in place and only leftovers go.\<close>

lemma wp_cleanup:
  assumes "recorded (publishing prev new) d" and "after_swap new (d_now d)"
  shows "wp (bnd (remove_old W) (\<lambda>gone. set_marker False))
    (\<lambda>r d'. recorded (publishing prev new) d' \<and> r = Inr () \<and> after_swap new (d_now d') \<and> \<not> sl_marker (d_now d') \<and>
      (benign W \<longrightarrow> sl_old (d_now d') = None)) d"
proof -
  have "wp (remove_old W) (\<lambda>r d'. recorded (publishing prev new) d' \<and>
      (\<exists>b u. r = Inr b \<and> d_now d' = (d_now d)\<lparr>sl_old := u\<rparr> \<and> (b \<longleftrightarrow> u = None) \<and> (benign W \<longrightarrow> b))) d"
    by (rule wp_remove_old [OF assms(1)]) (use assms(2) in \<open>simp add: slot_defs\<close>)
  then show ?thesis
    unfolding wp_bnd set_marker_def wp_act
    by (rule wp_mono) (use assms(2) in \<open>auto simp: slot_defs intro!: recorded_act\<close>)
qed

text \<open>The swap, from a complete and marked copy.\<close>

definition staged :: "entry option \<Rightarrow> fs \<Rightarrow> slots \<Rightarrow> bool" where
  "staged prev new s \<longleftrightarrow> sl_fresh s = Some new \<and> sl_marker s \<and>
     (before_swap prev new s \<or> mid_swap prev new s \<or> before_swap (Some (Tree new)) new s \<or> mid_swap (Some (Tree new)) new s)"

lemma wp_move_away:
  assumes "recorded (publishing prev new) d" and "staged prev new (d_now d)"
  shows "wp (move_away W)
    (\<lambda>r d'. recorded (publishing prev new) d' \<and> r = Inr () \<and> sl_dst (d_now d') = None \<and> sl_fresh (d_now d') = Some new) d"
proof (cases "sl_dst (d_now d)")
  case None
  then show ?thesis using assms by (simp add: move_away_def wp_rules staged_def)
next
  case (Some e)
  then have b: "(before_swap prev new (d_now d) \<and> e = the prev \<and> prev \<noteq> None \<or>
      before_swap (Some (Tree new)) new (d_now d) \<and> e = Tree new)"
    and f: "sl_fresh (d_now d) = Some new" "sl_marker (d_now d)" and o: "sl_old (d_now d) = None"
    using assms(2) by (auto simp: staged_def before_swap_def mid_swap_def)
  have "publishing prev new ((d_now d)\<lparr>sl_dst := None\<rparr>)" if "e = Leaf x" for x
    using that b f o by (auto simp: slot_defs)
  moreover have "publishing prev new ((d_now d)\<lparr>sl_old := Some t, sl_dst := None\<rparr>)" if "e = Tree t" for t
    using that b f o by (auto simp: slot_defs)
  ultimately show ?thesis
    using Some f o assms(1) by (cases e) (auto simp: move_away_def wp_rules intro!: recorded_act)
qed

lemma wp_swap:
  assumes "recorded (publishing prev new) d" and "staged prev new (d_now d)"
  shows "wp (swap W)
    (\<lambda>r d'. recorded (publishing prev new) d' \<and> r = Inr () \<and> after_swap new (d_now d') \<and> \<not> sl_marker (d_now d') \<and>
      (benign W \<longrightarrow> sl_old (d_now d') = None)) d"
  unfolding swap_def wp_seq install_def wp_act
proof (rule wp_mono [OF wp_move_away [OF assms]], clarsimp)
  fix d' assume d': "recorded (publishing prev new) d'" "sl_dst (d_now d') = None" "sl_fresh (d_now d') = Some new"
  let ?d = "d'\<lparr>d_now := (d_now d')\<lparr>sl_dst := Some (Tree new), sl_fresh := None\<rparr>,
      d_seen := (d_now d')\<lparr>sl_dst := Some (Tree new), sl_fresh := None\<rparr> # d_seen d'\<rparr>"
  have a: "after_swap new (d_now ?d)" by (simp add: after_swap_def)
  then have "publishing prev new (d_now ?d)" by (simp add: publishing_def)
  then have "recorded (publishing prev new) ?d" using d'(1) by (simp add: recorded_def)
  from wp_cleanup [OF this a, of W] show "wp (bnd (remove_old W) (\<lambda>gone. set_marker False))
    (\<lambda>r d'. recorded (publishing prev new) d' \<and> r = Inr () \<and> after_swap new (d_now d') \<and> \<not> sl_marker (d_now d') \<and>
      (benign W \<longrightarrow> sl_old (d_now d') = None)) ?d" .
qed

lemma wp_copy:
  assumes "recorded P d" and "\<And>u. P ((d_now d)\<lparr>sl_fresh := Some u\<rparr>)"
  shows "wp (copy_tree W src)
    (\<lambda>r d'. recorded P d' \<and> (r = Inr () \<longrightarrow> d_now d' = (d_now d)\<lparr>sl_fresh := Some src\<rparr>) \<and> (benign W \<longrightarrow> r = Inr ())) d"
proof -
  obtain seen ok where o: "os_copy W (d_n d) = (seen, ok)" by (cases "os_copy W (d_n d)")
  have w: "wp (for_each seen (\<lambda>u. act (\<lambda>s. s\<lparr>sl_fresh := Some u\<rparr>)))
    (\<lambda>r d'. r = Inr () \<and> recorded P d' \<and> (seen = [] \<and> d_now d' = d_now (d\<lparr>d_n := Suc (d_n d)\<rparr>) \<or>
       (\<exists>u. d_now d' = (d_now (d\<lparr>d_n := Suc (d_n d)\<rparr>))\<lparr>sl_fresh := Some u\<rparr>))) (d\<lparr>d_n := Suc (d_n d)\<rparr>)"
    using wp_write_all [of P "d\<lparr>d_n := Suc (d_n d)\<rparr>" "\<lambda>u s. s\<lparr>sl_fresh := u\<rparr>" seen] assms by simp
  have "benign W \<Longrightarrow> ok" using o by (metis benign_def snd_conv)
  then show ?thesis
    unfolding copy_tree_def wp_bnd wp_count
    by (cases ok) (use assms(2) in \<open>auto simp: o wp_rules intro!: wp_mono [OF w] recorded_act\<close>)
qed

abbreviation pub_post :: "os \<Rightarrow> entry option \<Rightarrow> fs \<Rightarrow> unit res \<Rightarrow> disk \<Rightarrow> bool" where
  "pub_post W prev new r d \<equiv> recorded (publishing prev new) d \<and>
     (r = Inr () \<longrightarrow> after_swap new (d_now d) \<and> \<not> sl_marker (d_now d)) \<and>
     (benign W \<longrightarrow> r = Inr () \<and> sl_old (d_now d) = None)"

lemmas wp_swap' = wp_swap [THEN wp_mono, where R = "pub_post W prev new" for W prev new]
lemmas wp_cleanup' = wp_cleanup [THEN wp_mono, where R = "pub_post W prev new" for W prev new]

lemma wp_publish_copy:
  assumes "recorded (publishing prev new) d" and "sl_fresh (d_now d) = None"
    and "before_swap prev new (d_now d) \<or> before_swap (Some (Tree new)) new (d_now d)"
  shows "wp (seq (set_marker False) (seq (copy_tree W new) (seq (set_marker True) (swap W))))
    (pub_post W prev new) d"
proof -
  let ?s = "(d_now d)\<lparr>sl_marker := False\<rparr>"
  let ?d = "d\<lparr>d_now := ?s, d_seen := ?s # d_seen d\<rparr>"
  have any: "publishing prev new (?s\<lparr>sl_fresh := u\<rparr>)" for u
    using assms(3) by (auto simp: slot_defs)
  have "publishing prev new ?s" using any [of None] assms(2) by (auto simp: slot_defs)
  then have r: "recorded (publishing prev new) ?d" using assms(1) by (simp add: recorded_def)
  have c: "wp (copy_tree W new) (\<lambda>r d'. recorded (publishing prev new) d' \<and>
      (r = Inr () \<longrightarrow> d_now d' = (d_now ?d)\<lparr>sl_fresh := Some new\<rparr>) \<and> (benign W \<longrightarrow> r = Inr ())) ?d"
    by (rule wp_copy [OF r]) (use any in simp)
  have "wp (seq (set_marker True) (swap W))
    (pub_post W prev new) d'"
    if d': "recorded (publishing prev new) d'" "d_now d' = ?s\<lparr>sl_fresh := Some new\<rparr>" for d'
  proof -
    let ?t = "(d_now d')\<lparr>sl_marker := True\<rparr>"
    let ?e = "d'\<lparr>d_now := ?t, d_seen := ?t # d_seen d'\<rparr>"
    have st: "staged prev new ?t" using assms(3) d'(2) by (auto simp: staged_def before_swap_def)
    then have "publishing prev new ?t" by (auto simp: staged_def publishing_def)
    then have "recorded (publishing prev new) ?e" using d'(1) by (simp add: recorded_def)
    then have "wp (swap W) (pub_post W prev new) ?e" by (rule wp_swap') (use st in auto)
    then show ?thesis unfolding set_marker_def wp_seq wp_act by simp
  qed
  then show ?thesis
    unfolding wp_seq [of "set_marker False"] wp_seq [of "copy_tree W new"]
    unfolding set_marker_def [of False] wp_act
    by (auto intro!: wp_mono [OF c])
qed

lemma wp_replace_dir:
  assumes "recorded (publishing prev new) d"
  shows "wp (replace_dir W new)
    (pub_post W prev new) d"
proof -
  let ?Q = "pub_post W prev new"
  have second: "wp (proceed W new) ?Q d'"
    if r: "recorded (publishing prev new) d'" and n: "\<not> (sl_fresh (d_now d') \<noteq> None \<and> \<not> sl_marker (d_now d'))" for d'
  proof -
    have p: "publishing prev new (d_now d')" using r by (simp add: recorded_def)
    consider (staged) "sl_fresh (d_now d') \<noteq> None"
      | (clean) "sl_fresh (d_now d') = None" "sl_old (d_now d') \<noteq> None" "sl_dst (d_now d') \<noteq> None"
      | (copy) "sl_fresh (d_now d') = None" "sl_old (d_now d') = None \<or> sl_dst (d_now d') = None"
      by (cases "sl_fresh (d_now d')"; cases "sl_old (d_now d')"; cases "sl_dst (d_now d')") auto
    then show ?thesis
    proof cases
      case staged
      then have "staged prev new (d_now d')" using p n by (auto simp: staged_def slot_defs)
      then have "wp (swap W) (pub_post W prev new) d'" by (rule wp_swap' [OF r]) auto
      then show ?thesis unfolding proceed_def wp_bnd wp_gets using staged by simp
    next
      case clean
      then have "after_swap new (d_now d')" using p by (auto simp: slot_defs)
      then have "wp (bnd (remove_old W) (\<lambda>gone. set_marker False)) (pub_post W prev new) d'" by (rule wp_cleanup' [OF r]) auto
      then show ?thesis unfolding proceed_def wp_bnd [of "gets d_now"] wp_gets using clean by simp
    next
      case copy
      then have "before_swap prev new (d_now d') \<or> before_swap (Some (Tree new)) new (d_now d')"
        using p by (auto simp: slot_defs)
      from wp_publish_copy [OF r copy(1) this, of W] show ?thesis
        unfolding proceed_def wp_bnd [of "gets d_now"] wp_gets using copy by auto
    qed
  qed
  show ?thesis
  proof (cases "sl_fresh (d_now d) \<noteq> None \<and> \<not> sl_marker (d_now d)")
    case True
    have p: "publishing prev new (d_now d)" using assms by (simp add: recorded_def)
    have any: "publishing prev new ((d_now d)\<lparr>sl_fresh := u\<rparr>)" for u
      using p True by (auto simp: slot_defs)
    have "wp (bnd (remove_fresh W) (\<lambda>gone. guard gone (StepsError ''cannot remove the incomplete staging copy'')))
      (\<lambda>r d'. (\<forall>e. r = Inl e \<longrightarrow> ?Q (Inl e) d') \<and> (\<forall>x. r = Inr x \<longrightarrow> wp (proceed W new) ?Q d')) d"
      unfolding wp_bnd [of "remove_fresh W"] wp_guard
      by (rule wp_mono [OF wp_remove_fresh [OF assms any]]) (auto intro!: second simp del: remove_tree.simps)
    then show ?thesis
      unfolding replace_dir_def wp_seq [of "bnd (gets _) _"] wp_bnd [of "gets _" "\<lambda>torn. if torn then _ else _"] wp_gets
      using True by simp
  next
    case False
    then show ?thesis
      unfolding replace_dir_def wp_seq [of "bnd (gets _) _"] wp_bnd [of "gets _" "\<lambda>torn. if torn then _ else _"] wp_gets
      using second [OF assms False] by (auto simp: wp_ret)
  qed
qed

subsection \<open>Interrupted and repeated\<close>

text \<open>The disk states that can be met after any number of publications of \<open>new\<close> were started over
  \<open>prev\<close>, each stopped at any of its intermediate states or come to its end.\<close>

inductive publishes :: "entry option \<Rightarrow> fs \<Rightarrow> slots \<Rightarrow> bool" for prev new where
  untouched: "publishes prev new \<lparr>sl_dst = prev, sl_fresh = None, sl_marker = False, sl_old = None\<rparr>"
| interrupted: "publishes prev new s \<Longrightarrow> replace_dir W new \<lparr>d_now = s, d_seen = [s], d_n = n\<rparr> = (r, d) \<Longrightarrow>
    s' \<in> set (d_seen d) \<Longrightarrow> publishes prev new s'"

lemma publishes_publishing: "publishes prev new s \<Longrightarrow> publishing prev new s"
proof (induction rule: publishes.induct)
  case untouched
  show ?case by (simp add: slot_defs)
next
  case (interrupted s W n r d s')
  then have "recorded (publishing prev new) \<lparr>d_now = s, d_seen = [s], d_n = n\<rparr>" by (simp add: recorded_def)
  then have "recorded (publishing prev new) d" using wpD [OF wp_replace_dir interrupted.hyps(2)] by blast
  then show ?case using interrupted.hyps(3) by (simp add: recorded_def list_all_iff)
qed

text \<open>C35: publishing a directory is crash safe. However often it was started, wherever each attempt was
  stopped or failed, also inside a copy or a removal, the published name holds the previous
  version or the new one, or else a complete copy of the new one is staged and marked and a
  directory that was there is kept beside it; and from every such state an undisturbed attempt
  succeeds and leaves exactly the new version and no leftovers.\<close>

theorem publish_crash_safe:
  assumes "publishes prev new s"
  shows "complete prev new s \<and>
    (benign W \<longrightarrow> (\<exists>d. replace_dir W new \<lparr>d_now = s, d_seen = [s], d_n = n\<rparr> = (Inr (), d) \<and>
       d_now d = \<lparr>sl_dst = Some (Tree new), sl_fresh = None, sl_marker = False, sl_old = None\<rparr>))"
proof -
  have p: "publishing prev new s" using assms by (rule publishes_publishing)
  then have "recorded (publishing prev new) \<lparr>d_now = s, d_seen = [s], d_n = n\<rparr>" by (simp add: recorded_def)
  from wp_replace_dir [OF this, of W]
  obtain r d where "replace_dir W new \<lparr>d_now = s, d_seen = [s], d_n = n\<rparr> = (r, d)" "pub_post W prev new r d"
    by (auto simp: wp_def split: prod.splits)
  moreover have "d_now d = \<lparr>sl_dst = Some (Tree new), sl_fresh = None, sl_marker = False, sl_old = None\<rparr>"
    if "after_swap new (d_now d)" "\<not> sl_marker (d_now d)" "sl_old (d_now d) = None"
    using that by (cases "d_now d") (simp add: after_swap_def)
  ultimately show ?thesis using publishing_complete [OF p] by auto
qed

end
