(* ===== verification/Rundir.thy ===== *)
theory Rundir
  imports Intent Publish
begin

text \<open>
  The directory an attempt runs in: \<open>snapshot.py\<close> (the frozen code and the identity of inputs) and
  the link rules of \<open>Runner._prepare_run_dir\<close>, \<open>_predecessor_outputs\<close> and \<open>_link_input\<close>. A path
  below the workspace is the list of its names.
\<close>

definition path_str :: "path \<Rightarrow> string" where
  "path_str p = concat (map (\<lambda>c. CHR ''/'' # c) p)"

definition rel_str :: "path \<Rightarrow> string" where
  "rel_str p = join ''/'' p"

definition located :: "path \<Rightarrow> string \<Rightarrow> path" where
  "located root rel = (if is_absolute rel then path_parts rel else root @ path_parts rel)"

text \<open>The keys of a dictionary filled from a list: each once, at its first place.\<close>

definition uniq :: "'a list \<Rightarrow> 'a list" where
  "uniq xs = rev (remdups (rev xs))"

lemma set_uniq [simp]: "set (uniq xs) = set xs"
  by (simp add: uniq_def)

subsection \<open>Snapshots\<close>

definition sha_at :: "tools \<Rightarrow> fs \<Rightarrow> path \<Rightarrow> string res" where
  "sha_at W fs p = (case stat fs p of Some (File c) \<Rightarrow> Inr (tl_sha W c) | _ \<Rightarrow> Inl (OSError ''cannot read the file''))"

type_synonym digests = "(string, string) fmap"

definition snapshot_one :: "tools \<Rightarrow> path \<Rightarrow> path \<Rightarrow> fs \<times> digests \<Rightarrow> path \<Rightarrow> (fs \<times> digests) res" where
  "snapshot_one W ws dir acc rel = (case acc of (fs, out) \<Rightarrow>
     if \<not> is_file_at fs (ws @ rel) \<or> ''attempts'' \<in> set rel then Inr (fs, out)
     else rbind (mkdirs fs (butlast (dir @ ''code'' # rel))) (\<lambda>fs1.
       rbind (copy_file fs1 (ws @ rel) (dir @ ''code'' # rel)) (\<lambda>fs2.
       rbind (sha_at W fs2 (dir @ ''code'' # rel)) (\<lambda>d. Inr (fs2, fmupd (rel_str rel) d out)))))"

definition snapshot_code :: "tools \<Rightarrow> path \<Rightarrow> path \<Rightarrow> string list \<Rightarrow> fs \<Rightarrow> (fs \<times> digests) res" where
  "snapshot_code W ws dir globs fs =
     fold_res (\<lambda>acc pattern. fold_res (snapshot_one W ws dir) acc (tl_glob W (fst acc) pattern)) (fs, fmempty) globs"

definition large_input :: nat where
  "large_input = 64 * 1024 * 1024"

definition describe_input :: "tools \<Rightarrow> fs \<Rightarrow> path \<Rightarrow> string \<Rightarrow> input_entry res" where
  "describe_input W fs root rel =
     (let p = located root rel;
          entry = (\<lambda>idn. \<lparr>ie_path = path_str p, ie_exists = exists_at fs p, ie_identity = idn, ie_resolved = None,
                     ie_recorded = None, ie_changed = None\<rparr>) in
      if is_dir_at fs p then
        (if exists_at fs (p @ [''MANIFEST.json''])
         then rbind (sha_at W fs (p @ [''MANIFEST.json''])) (\<lambda>d. Inr (entry (None, None, Some d, Some ''directory'')))
         else Inr (entry (None, None, None, Some ''directory'')))
      else (case stat fs p of
        Some (File c) \<Rightarrow> Inr (entry (if length c \<le> large_input then Some (tl_sha W c) else None, Some (int (length c)), None, Some ''file''))
      | _ \<Rightarrow> Inr (entry (None, None, None, None))))"

definition describe_inputs :: "tools \<Rightarrow> fs \<Rightarrow> path \<Rightarrow> string list \<Rightarrow> (string \<times> input_entry) list res" where
  "describe_inputs W fs root ins = rmap (\<lambda>rel. rbind (describe_input W fs root rel) (\<lambda>e. Inr (rel, e))) (uniq ins)"

text \<open>\<open>Runner._describe_inputs\<close>: as seen from the run directory, with the resolved path.\<close>

definition with_resolved :: "fs \<Rightarrow> path \<Rightarrow> string \<times> input_entry \<Rightarrow> string \<times> input_entry" where
  "with_resolved fs root re = (case re of (rel, e) \<Rightarrow>
     (let p = located root rel in
      if is_link_at fs p \<or> exists_at fs p
      then (rel, e\<lparr>ie_resolved := map_option path_str (resolve_path fs p)\<rparr>) else (rel, e)))"

definition attempt_root :: "path \<Rightarrow> attempt \<Rightarrow> path" where
  "attempt_root ws r = (case given (a_run_dir r) of Some d \<Rightarrow> path_parts d | None \<Rightarrow> ws)"

definition runner_inputs :: "tools \<Rightarrow> path \<Rightarrow> fs \<Rightarrow> attempt \<Rightarrow> step_spec \<Rightarrow> (string \<times> input_entry) list res" where
  "runner_inputs W ws fs r s =
     rbind (describe_inputs W fs (attempt_root ws r) (p_inputs s)) (\<lambda>es. Inr (map (with_resolved fs (attempt_root ws r)) es))"

subsection \<open>The run directory\<close>

text \<open>\<open>os.symlink\<close>, an error ignored.\<close>

definition link_to :: "fs \<Rightarrow> path \<Rightarrow> path \<Rightarrow> fs" where
  "link_to fs src dst = (case put_new fs dst (Link src) of Inr fs' \<Rightarrow> fs' | Inl e \<Rightarrow> fs)"

text \<open>The recursion follows directories that are there below the destination; the fuel is their depth.\<close>

fun link_input :: "nat \<Rightarrow> path \<Rightarrow> path list \<Rightarrow> path \<Rightarrow> path \<Rightarrow> path \<Rightarrow> fs \<Rightarrow> fs res" where
  "link_input 0 ws outs src dst rel fs = Inl (OSError ''file name too long'')"
| "link_input (Suc n) ws outs src dst rel fs =
     (if rel \<in> set outs then Inr fs
      else if \<not> exists_at fs src then Inr fs
      else if is_link_at fs dst \<or> is_file_at fs dst then Inr fs
      else if is_dir_at fs dst then
        (if \<not> is_dir_at fs src then Inr fs
         else fold_res (\<lambda>f c. if c = ''attempts'' \<and> src = ws then Inr f
                else link_input n ws outs (src @ [c]) (dst @ [c]) (rel @ [c]) f) fs (children fs src))
      else rbind (mkdirs fs (butlast dst)) (\<lambda>f. Inr (link_to f src dst)))"

definition depth :: "fs \<Rightarrow> nat" where
  "depth fs = foldr (\<lambda>k n. max (length k) n) (keys fs) 0"

definition predecessor_outputs :: "step_spec list \<Rightarrow> attempt list \<Rightarrow> step_spec \<Rightarrow> (string \<times> path) list" where
  "predecessor_outputs specs rs s =
     concat (map (\<lambda>dep. case spec_by_id specs (after CHR '':'' dep) of
         None \<Rightarrow> []
       | Some u \<Rightarrow> (case latest rs (p_id u) of
           None \<Rightarrow> []
         | Some r \<Rightarrow> (case given (a_run_dir r) of
             None \<Rightarrow> [] | Some d \<Rightarrow> map (\<lambda>name. (name, path_parts d)) (p_outputs u))))
       (filter (starts_with ''chain:'') (p_after s)))"

definition link_predecessor :: "path \<Rightarrow> fs \<Rightarrow> string \<times> path \<Rightarrow> fs res" where
  "link_predecessor code fs np = (case np of (name, dir) \<Rightarrow>
     (let dst = code @ path_parts name in
      if exists_at fs dst \<or> is_link_at fs dst then Inr fs
      else rbind (mkdirs fs (butlast dst)) (\<lambda>f. Inr (link_to f (dir @ path_parts name) dst))))"

definition link_top :: "path \<Rightarrow> path \<Rightarrow> string list \<Rightarrow> fs \<Rightarrow> string \<Rightarrow> fs" where
  "link_top ws code roots fs c =
     (if c = ''attempts'' \<or> c \<in> set roots \<or> exists_at fs (code @ [c]) \<or> is_link_at fs (code @ [c]) then fs
      else link_to fs (ws @ [c]) (code @ [c]))"

definition prepare_run_dir :: "path \<Rightarrow> step_spec \<Rightarrow> (string \<times> path) list \<Rightarrow> path \<Rightarrow> fs \<Rightarrow> fs res" where
  "prepare_run_dir ws s preds code fs =
     (let outs = map path_parts (p_outputs s);
          roots = map hd (filter (\<lambda>p. p \<noteq> []) outs) in
      rbind (mkdirs fs code) (\<lambda>f0.
      rbind (fold_res (\<lambda>f p. mkdirs f (butlast (code @ p))) f0 outs) (\<lambda>f1.
      rbind (fold_res (link_predecessor code) f1 preds) (\<lambda>f2.
      rbind (fold_res (\<lambda>f rel. if is_absolute rel then Inr f
               else link_input (Suc (depth f)) ws outs (ws @ path_parts rel) (code @ path_parts rel) (path_parts rel) f)
             f2 (p_inputs s)) (\<lambda>f3.
      Inr (foldl (link_top ws code roots) f3 (children f3 ws)))))))"

subsection \<open>An output that is linked\<close>

text \<open>Outputs are never linked, except here: when the segments of a chain all declare the same output,
  the run directory of the second gets the first one's output linked at its own output path, so
  writing that output writes through the link.\<close>

definition chained :: step_spec where
  "chained = \<lparr>p_id = ''s#2'', p_template = ''s'', p_run = ''r.sbatch'', p_sbatch = True, p_env = [], p_inputs = [],
     p_outputs = [''o''], p_group = None, p_after = [''chain:s#1''], p_verify = None, p_gate = None, p_segments = 2,
     p_segment = Some 2, p_chain = ''afterok'', p_concurrency = None, p_wait = ''earliest'', p_finite = [], p_retry = [],
     p_snapshot = [], p_timeout = None\<rparr>"

lemma chain_output_linked:
  "(case prepare_run_dir [''w''] chained [(''o'', [''w'', ''1''])] [''w'', ''2'']
      (fmap_of_list [([''w''], Dir), ([''w'', ''1''], Dir)]) of
     Inr fs \<Rightarrow> lstat fs [''w'', ''2'', ''o''] = Some (Link [''w'', ''1'', ''o'']) | Inl e \<Rightarrow> False)"
  by code_simp

end
