(* ===== verification/Shell.thy ===== *)
theory Shell
  imports Prelude Regex
begin

text \<open>
  Shell words: \<open>shlex.quote\<close>, with which every value enters a command line of the agent scripts, and how a
  POSIX shell reads a text back as words. A text the shell would expand, or that is not complete, has no
  reading. A text here is the list of its UTF-8 bytes.
\<close>

subsection \<open>Quoting\<close>

abbreviation quote1 :: char where "quote1 \<equiv> CHR 0x27"
abbreviation quote2 :: char where "quote2 \<equiv> CHR 0x22"

definition unquoted_char :: "char \<Rightarrow> bool" where
  "unquoted_char c \<longleftrightarrow> alnum c \<or> c \<in> set ''_@%+=:,./-''"

definition shell_quote :: "string \<Rightarrow> string" where
  "shell_quote s = (if s = [] then [quote1, quote1]
     else if list_all unquoted_char s then s
     else quote1 # concat (map (\<lambda>c. if c = quote1 then [quote1, quote2, quote1, quote2, quote1] else [c]) s) @ [quote1])"

subsection \<open>Reading\<close>

text \<open>An operator is reported one character at a time; a newline is one of them.\<close>

datatype token = Word string | Op char

datatype lexing = Plain "string option" | Single string | Double string

definition so_far :: "string option \<Rightarrow> string" where
  "so_far w = (case w of None \<Rightarrow> [] | Some u \<Rightarrow> u)"

definition word_end :: "string option \<Rightarrow> token list \<Rightarrow> token list" where
  "word_end w ts = (case w of None \<Rightarrow> ts | Some u \<Rightarrow> Word u # ts)"

definition shell_blank :: "char \<Rightarrow> bool" where
  "shell_blank c \<longleftrightarrow> c = CHR '' '' \<or> c = CHR 0x09"

definition operator :: "char \<Rightarrow> bool" where
  "operator c \<longleftrightarrow> c = CHR 0x0A \<or> c \<in> set '';&|<>()''"

fun tokens :: "lexing \<Rightarrow> string \<Rightarrow> token list option" where
  "tokens (Plain w) [] = Some (word_end w [])"
| "tokens (Plain w) (c # s) =
     (if c = quote1 then tokens (Single (so_far w)) s
      else if c = quote2 then tokens (Double (so_far w)) s
      else if shell_blank c then map_option (word_end w) (tokens (Plain None) s)
      else if operator c then map_option (\<lambda>ts. word_end w (Op c # ts)) (tokens (Plain None) s)
      else if unquoted_char c then tokens (Plain (Some (so_far w @ [c]))) s
      else None)"
| "tokens (Single u) [] = None"
| "tokens (Single u) (c # s) = (if c = quote1 then tokens (Plain (Some u)) s else tokens (Single (u @ [c])) s)"
| "tokens (Double u) [] = None"
| "tokens (Double u) (c # s) =
     (if c = quote2 then tokens (Plain (Some u)) s
      else if c \<in> set [CHR ''$'', CHR 0x60, CHR 0x5C] then None
      else tokens (Double (u @ [c])) s)"

definition shell_tokens :: "string \<Rightarrow> token list option" where
  "shell_tokens s = tokens (Plain None) s"

subsection \<open>A quoted text is one word, and the text itself\<close>

lemma unquoted_char_plain:
  "unquoted_char c \<Longrightarrow> c \<noteq> quote1 \<and> c \<noteq> quote2 \<and> \<not> shell_blank c \<and> \<not> operator c"
  by (auto simp: unquoted_char_def alnum_def in_range_def is_digit_def shell_blank_def operator_def Let_def)

lemma tokens_unquoted:
  "list_all unquoted_char v \<Longrightarrow> v \<noteq> [] \<Longrightarrow> tokens (Plain w) (v @ s) = tokens (Plain (Some (so_far w @ v))) s"
proof (induction v arbitrary: w)
  case (Cons c v)
  show ?case
    by (cases "v = []") (use Cons unquoted_char_plain [of c] in \<open>simp_all add: so_far_def\<close>)
qed simp

lemma tokens_single:
  "tokens (Single u) (concat (map (\<lambda>c. if c = quote1 then [quote1, quote2, quote1, quote2, quote1] else [c]) v) @ quote1 # s) =
     tokens (Plain (Some (u @ v))) s"
  by (induction v arbitrary: u) (simp_all add: so_far_def)

lemma tokens_quoted: "tokens (Plain w) (shell_quote v @ s) = tokens (Plain (Some (so_far w @ v))) s"
proof (cases "v = [] \<or> \<not> list_all unquoted_char v")
  case True
  then show ?thesis using tokens_single [of "so_far w" v s] by (auto simp: shell_quote_def so_far_def)
next
  case False
  then show ?thesis using tokens_unquoted [of v w s] by (simp add: shell_quote_def)
qed

text \<open>A command written word by word.\<close>

fun command_text :: "string list \<Rightarrow> string" where
  "command_text [] = []"
| "command_text [w] = shell_quote w"
| "command_text (w # ws) = shell_quote w @ '' '' @ command_text ws"

lemma tokens_space: "tokens (Plain w) (CHR '' '' # s) = map_option (word_end w) (tokens (Plain None) s)"
  by (simp add: shell_blank_def)

lemma tokens_newline: "tokens (Plain w) (CHR 0x0A # s) = map_option (\<lambda>ts. word_end w (Op (CHR 0x0A) # ts)) (tokens (Plain None) s)"
  by (simp add: shell_blank_def operator_def)

lemma tokens_bar: "tokens (Plain w) (CHR ''|'' # s) = map_option (\<lambda>ts. word_end w (Op CHR ''|'' # ts)) (tokens (Plain None) s)"
  by (simp add: shell_blank_def operator_def)

declare tokens.simps(2) [simp del]

lemma tokens_words: "shell_tokens (command_text ws) = Some (map Word ws)"
proof (induction ws rule: command_text.induct)
  case (2 w)
  then show ?case using tokens_quoted [of None w "[]"] by (simp add: shell_tokens_def so_far_def word_end_def)
next
  case (3 w v ws)
  then show ?case by (simp add: shell_tokens_def tokens_quoted tokens_space so_far_def word_end_def)
qed (simp add: shell_tokens_def word_end_def)

end
