(* ===== verification/Runner.thy ===== *)
theory Runner
  imports Rundir Shell
begin

text \<open>
  \<open>farmkit/runner.py\<close>: the step runner, one tick per worker wake, with \<open>evidence.py\<close>. A tick reads
  the ledger, the scheduler and the files, saves attempts and submits jobs. A local step runs
  inside the tick, and its failure may be retried inside it; the fuel of \<open>finalize\<close> is the depth
  of the interpreter's recursion. The printed summary and the file of modification times (\<open>_changed_files\<close>) are left out.
\<close>

subsection \<open>The runner\<close>

record runner =
  rn_steps :: steps
  rn_ws :: path
  rn_root :: path
  rn_task :: "string option"
  rn_lease :: "string option"
  rn_site :: string
  rn_part :: "string option"
  rn_limit :: string
  rn_os :: os
  rn_helper :: string

abbreviation rn_specs :: "runner \<Rightarrow> step_spec list" where
  "rn_specs R \<equiv> t_specs (rn_steps R)"

definition no_problems :: "string list \<Rightarrow> unit res" where
  "no_problems ps = ensure (ps = []) (StepsError ''steps.toml has problems'')"

definition init_spec :: "steps \<Rightarrow> step_spec \<Rightarrow> unit res" where
  "init_spec t s = rbind (verifier_for t s) (\<lambda>v. rbind (path_problems s) no_problems)"

definition runner_init :: "fs \<Rightarrow> runner \<Rightarrow> runner res" where
  "runner_init fs R =
     rbind (rmap (init_spec (rn_steps R)) (rn_specs R)) (\<lambda>us.
     rbind (check (Some (\<lambda>run. exists_at fs (located (rn_ws R) run))) (rn_steps R)) (\<lambda>ps.
     rbind (no_problems ps) (\<lambda>u. Inr R)))"

definition attempt_dir :: "runner \<Rightarrow> string \<Rightarrow> path" where
  "attempt_dir R aid = rn_root R @ [aid]"

text \<open>An operation on the files, and \<open>atomic_write_text\<close>.\<close>

definition on_fs :: "(fs \<Rightarrow> fs res) \<Rightarrow> (kit, unit) cmd" where
  "on_fs f = bnd (asks (\<lambda>k. f (y_fs k))) (\<lambda>fs. modify (\<lambda>k. k\<lparr>y_fs := fs\<rparr>))"

definition replace_file :: "path \<Rightarrow> string \<Rightarrow> fs \<Rightarrow> fs res" where
  "replace_file p c fs = rbind (mkdirs fs (butlast p)) (\<lambda>f. case place f p of
     None \<Rightarrow> Inl (OSError ''too many levels of symbolic links'')
   | Some q \<Rightarrow> if node_at f q = Some Dir then Inl (OSError ''is a directory'') else Inr (fmupd q (File c) f))"

definition write_text :: "path \<Rightarrow> string \<Rightarrow> (kit, unit) cmd" where
  "write_text p c = on_fs (replace_file p c)"

subsection \<open>Evidence\<close>

definition newline :: string where
  "newline = [CHR 0x0A]"

text \<open>The dash of the heading, as the bytes of the file.\<close>

definition em_dash :: string where
  "em_dash = [CHR 0xE2, CHR 0x80, CHR 0x94]"

definition stderr_tail :: "fs \<Rightarrow> string option \<Rightarrow> string" where
  "stderr_tail fs p = (case given p of
     None \<Rightarrow> ''(no stderr path recorded)''
   | Some f \<Rightarrow> (case stat fs (path_parts f) of
       Some (File c) \<Rightarrow> (let ls = splitlines c in
         if ls = [] then ''(stderr empty)'' else join newline (drop (length ls - 40) ls))
     | _ \<Rightarrow> ''(stderr unreadable)''))"

definition or_else :: "string option \<Rightarrow> string \<Rightarrow> string" where
  "or_else x d = (case given x of Some s \<Rightarrow> s | None \<Rightarrow> d)"

definition failure_lines ::
    "fs \<Rightarrow> attempt \<Rightarrow> string \<Rightarrow> string option \<Rightarrow> string option \<Rightarrow> verdict option \<Rightarrow> string option \<Rightarrow> string \<Rightarrow> string list" where
  "failure_lines fs r cls row err v rul note =
     [''# FAILURE '' @ em_dash @ '' '' @ a_step r @ '' (attempt '' @ take 8 (a_id r) @ '', run '' @ nat_str (a_n r) @ '')'',
      [],
      ''Class: **'' @ cls @ ''**. '' @ note,
      (case given rul of Some n \<Rightarrow> ''Park as: `'' @ n @ ''`'' | None \<Rightarrow> ''Not parked (retry in progress).''),
      [],
      ''## Job'',
      ''- job id: '' @ or_else (case a_submit r of Some s \<Rightarrow> s_job s | None \<Rightarrow> None) ''never confirmed'',
      ''- scheduler state: '' @ or_else (seen_state r) ''unknown'',
      (case given row of Some w \<Rightarrow> ''- sacct: `'' @ w @ ''`'' | None \<Rightarrow> ''- sacct: no row available''),
      ''- submitted: '' @ (case a_submit r of Some s \<Rightarrow> s_intent s | None \<Rightarrow> ''None''),
      ''- script: '' @ or_else (a_snapshot r) ''(no snapshot)'',
      [],
      ''## Checks''] @
     (case v of
        None \<Rightarrow> [''- verifier did not run (job did not complete)'']
      | Some d \<Rightarrow>
          (if d_reasons d = [] then [''- all checks passed''] else map (\<lambda>x. ''- '' @ x) (d_reasons d)) @
          (if d_checked d = [] then [] else [''- checked: '' @ join '', '' (d_checked d)])) @
     [[], ''## stderr (last 40 lines)'', ''```'', stderr_tail fs err, ''```'', []]"

definition write_failure ::
    "path \<Rightarrow> attempt \<Rightarrow> string \<Rightarrow> string option \<Rightarrow> string option \<Rightarrow> verdict option \<Rightarrow> string option \<Rightarrow> string \<Rightarrow> (kit, path) cmd" where
  "write_failure dir r cls row err v rul note =
     bnd (gets y_fs) (\<lambda>fs.
     seq (write_text (dir @ [''FAILURE.md'']) (join newline (failure_lines fs r cls row err v rul note)))
     (ret (dir @ [''FAILURE.md''])))"

definition with_failure :: "(failure \<Rightarrow> failure) \<Rightarrow> attempt \<Rightarrow> attempt" where
  "with_failure f r = r\<lparr>a_failure := map_option f (a_failure r)\<rparr>"

definition write_evidence :: "tools \<Rightarrow> runner \<Rightarrow> attempt \<Rightarrow> string \<Rightarrow> verdict option \<Rightarrow> string option \<Rightarrow> string \<Rightarrow> (kit, unit) cmd" where
  "write_evidence W R r cls v rul note =
     bnd tick_n (\<lambda>n.
     bnd (write_failure (attempt_dir R (a_id r)) r cls
            (case job_of r of Some j \<Rightarrow> tl_sacct_row W n j | None \<Rightarrow> None) (a_stderr r) v rul note) (\<lambda>p.
     bnd (save W (with_failure (\<lambda>f. f\<lparr>fl_evidence := Some (path_str p)\<rparr>) r)) (\<lambda>r'. ret ())))"

subsection \<open>Verifying an attempt\<close>

definition artifact_at :: "path \<Rightarrow> fs \<Rightarrow> attempt \<Rightarrow> string \<Rightarrow> path" where
  "artifact_at ws fs r name = (case given (a_run_dir r) of
     Some d \<Rightarrow> if exists_at fs (path_parts d @ path_parts name) then path_parts d @ path_parts name else ws @ path_parts name
   | None \<Rightarrow> ws @ path_parts name)"

definition artifacts :: "path \<Rightarrow> fs \<Rightarrow> step_spec \<Rightarrow> attempt \<Rightarrow> (string \<times> string) list" where
  "artifacts ws fs s r = map (\<lambda>name. (name, path_str (artifact_at ws fs r name))) (uniq (p_outputs s))"

datatype gate = Ungated | Certified "(string, string) fmap" | Missing string

definition gate_record :: "attempt list \<Rightarrow> step_spec \<Rightarrow> gate" where
  "gate_record rs s = (case given (p_gate s) of
     None \<Rightarrow> Ungated
   | Some g \<Rightarrow> (case latest rs g of
       Some r \<Rightarrow> if verdict_ok r then Certified (a_code r) else Missing g
     | None \<Rightarrow> Missing g))"

definition settle_one ::
    "(string, input_entry) fmap \<Rightarrow> verdict \<times> (string, input_entry) fmap \<Rightarrow> string \<times> input_entry \<Rightarrow>
     verdict \<times> (string, input_entry) fmap" where
  "settle_one old acc re = (case acc of (v, known) \<Rightarrow> case re of (rel, e) \<Rightarrow>
     (case fmlookup old rel of
        Some b \<Rightarrow>
          if \<not> ie_exists b then (v, fmupd rel (e\<lparr>ie_recorded := Some ''verification''\<rparr>) known)
          else if ie_exists e \<and> ie_identity b \<noteq> ie_identity e
          then (\<lparr>d_ok = False,
                 d_reasons = d_reasons v @ [''input '' @ rel @ '' changed between submission and verification; the attempt's provenance cannot be established, rerun it''],
                 d_checked = d_checked v @ [''input-unchanged:'' @ rel]\<rparr>,
                fmupd rel (b\<lparr>ie_changed := Some (ie_identity e)\<rparr>) known)
          else (v\<lparr>d_checked := d_checked v @ [''input-unchanged:'' @ rel]\<rparr>, known)
      | None \<Rightarrow> (v, fmupd rel (e\<lparr>ie_recorded := Some ''verification''\<rparr>) known)))"

definition settle_inputs :: "tools \<Rightarrow> path \<Rightarrow> fs \<Rightarrow> attempt \<Rightarrow> step_spec \<Rightarrow> (verdict \<times> attempt) res" where
  "settle_inputs W ws fs r s =
     (if given (a_run_dir r) = None then Inr (passed, r)
      else rbind (runner_inputs W ws fs r s) (\<lambda>es.
        case foldl (settle_one (a_inputs r)) (passed, a_inputs r) es of (v, known) \<Rightarrow> Inr (v, r\<lparr>a_inputs := known\<rparr>)))"

definition load_json :: "tools \<Rightarrow> fs \<Rightarrow> string \<Rightarrow> json res" where
  "load_json W fs p = (case stat fs (path_parts p) of Some (File c) \<Rightarrow> tl_parse W c | _ \<Rightarrow> Inl (OSError ''cannot read the file''))"

definition standard_verdict :: "tools \<Rightarrow> fs \<Rightarrow> attempt \<Rightarrow> step_spec \<Rightarrow> gate \<Rightarrow> (string \<times> string) list \<Rightarrow> verdict res" where
  "standard_verdict W fs r s g arts =
     rbind (default_checks (\<lambda>p. exists_at fs (path_parts p)) (load_json W fs) (a_id r) (a_code r) arts
              (p_outputs s) (p_finite s) (case g of Certified c \<Rightarrow> Some c | _ \<Rightarrow> None) (main_output s)) (\<lambda>v.
     Inr (case g of
       Missing m \<Rightarrow> merge v (failing (''gate step '' @ m @ '' has not passed; cannot certify this run's code'') [''gate''])
     | _ \<Rightarrow> v))"

definition verdict_of :: "verdict \<Rightarrow> step_spec \<Rightarrow> string \<Rightarrow> verdict_entry" where
  "verdict_of v s ts = \<lparr>vr_ok = d_ok v, vr_reasons = d_reasons v, vr_checked = d_checked v, vr_verifier = p_verify s, vr_ts = ts\<rparr>"

definition verify_attempt :: "tools \<Rightarrow> runner \<Rightarrow> attempt \<Rightarrow> step_spec \<Rightarrow> (kit, verdict \<times> attempt) cmd" where
  "verify_attempt W R r s =
     bnd (gets y_fs) (\<lambda>fs.
     bnd (pure (settle_inputs W (rn_ws R) fs r s)) (\<lambda>(iv, r1).
     bnd listing (\<lambda>rs.
     let arts = artifacts (rn_ws R) fs s r1 in
     bnd (pure (standard_verdict W fs r1 s (gate_record rs s) arts)) (\<lambda>v.
     bnd (pure (verifier_for (rn_steps R) s)) (\<lambda>fn.
     bnd tick_n (\<lambda>n.
     bnd (utc_now W) (\<lambda>ts.
     let w = (case fn of
           None \<Rightarrow> merge v iv
         | Some f \<Rightarrow> merge (merge v iv) (run_verifier (tl_verify W n f r1 (map (\<lambda>(name, p). (name, path_parts p)) arts)))) in
     ret (w, r1\<lparr>a_verdict := Some (verdict_of w s ts),
                a_artifacts := filter (\<lambda>(name, p). exists_at fs (path_parts p)) arts\<rparr>))))))))"

subsection \<open>Publishing\<close>

text \<open>The private names beside a published directory; they hold directories, and the marker a file.\<close>

definition staging_name :: "path \<Rightarrow> string \<Rightarrow> path" where
  "staging_name q aid = butlast q @ [''.'' @ last q @ ''.publishing-'' @ take 8 aid]"

definition marker_name :: "path \<Rightarrow> string \<Rightarrow> path" where
  "marker_name q aid = butlast q @ [''.'' @ last q @ ''.publishing-'' @ take 8 aid @ ''.complete'']"

definition replaced_name :: "path \<Rightarrow> string \<Rightarrow> path" where
  "replaced_name q aid = butlast q @ [''.'' @ last q @ ''.replaced-'' @ take 8 aid]"

fun tree_of :: "entry option \<Rightarrow> fs option" where
  "tree_of (Some (Tree t)) = Some t"
| "tree_of e = None"

definition slots_at :: "fs \<Rightarrow> path \<Rightarrow> string \<Rightarrow> slots" where
  "slots_at fs q aid = \<lparr>sl_dst = entry_at fs q, sl_fresh = tree_of (entry_at fs (staging_name q aid)),
     sl_marker = (entry_at fs (marker_name q aid) \<noteq> None), sl_old = tree_of (entry_at fs (replaced_name q aid))\<rparr>"

definition put_slots :: "path \<Rightarrow> string \<Rightarrow> slots \<Rightarrow> fs \<Rightarrow> fs" where
  "put_slots q aid s fs =
     put_entry (put_entry (put_entry (put_entry fs q (sl_dst s))
       (staging_name q aid) (map_option Tree (sl_fresh s)))
       (marker_name q aid) (if sl_marker s then Some (Leaf (File [])) else None))
       (replaced_name q aid) (map_option Tree (sl_old s))"

definition replace_dir_at :: "os \<Rightarrow> path \<Rightarrow> path \<Rightarrow> string \<Rightarrow> (kit, unit) cmd" where
  "replace_dir_at W src q aid =
     bnd (gets (\<lambda>k. (y_fs k, y_n k))) (\<lambda>(fs, n).
     case replace_dir W (below fs src) \<lparr>d_now = slots_at fs q aid, d_seen = [], d_n = n\<rparr> of (r, d) \<Rightarrow>
     seq (modify (\<lambda>k. k\<lparr>y_fs := put_slots q aid (d_now d) fs, y_n := d_n d\<rparr>)) (pure r))"

definition publish_allowed :: "path \<Rightarrow> path \<Rightarrow> bool" where
  "publish_allowed ws q \<longleftrightarrow> q \<noteq> ws \<and> beneath ws q \<and> take 1 (drop (length ws) q) \<noteq> [''attempts'']"

text \<open>\<open>_publish\<close>: one output, and all of them. \<open>None\<close> is an output that is not there.\<close>

definition publish_one :: "runner \<Rightarrow> attempt \<Rightarrow> path \<Rightarrow> string \<Rightarrow> (kit, (string \<times> string) option) cmd" where
  "publish_one R r dir name =
     (let src = dir @ path_parts name; dst = rn_ws R @ path_parts name in
      bnd (gets y_fs) (\<lambda>fs.
      if \<not> exists_at fs src then ret None
      else bnd (pure (case (resolve_path fs (rn_ws R), resolve_path fs dst) of
             (Some ws, Some q) \<Rightarrow> rbind (ensure (publish_allowed ws q) (StepsError ''refusing to publish outside the allowed area'')) (\<lambda>u. Inr q)
           | _ \<Rightarrow> Inl (OSError ''too many levels of symbolic links''))) (\<lambda>q.
        seq (if resolve_path fs src = Some q then ret ()
             else seq (on_fs (\<lambda>f. mkdirs f (butlast dst)))
               (if is_dir_at fs src
                then bnd (gets y_fs) (\<lambda>f. case (resolve_path f src, place f dst) of
                    (Some from_dir, Some to) \<Rightarrow> replace_dir_at (rn_os R) from_dir to (a_id r)
                  | _ \<Rightarrow> throw (OSError ''too many levels of symbolic links''))
                else on_fs (\<lambda>f. copy_file f src dst)))
        (ret (Some (name, path_str dst))))))"

fun publish_all :: "runner \<Rightarrow> attempt \<Rightarrow> path \<Rightarrow> string list \<Rightarrow> (kit, (string \<times> string) list) cmd" where
  "publish_all R r dir [] = ret []"
| "publish_all R r dir (name # names) =
     bnd (publish_one R r dir name) (\<lambda>p.
     bnd (publish_all R r dir names) (\<lambda>ps. ret (case p of None \<Rightarrow> ps | Some x \<Rightarrow> x # ps)))"

definition publish_outputs :: "runner \<Rightarrow> attempt \<Rightarrow> step_spec \<Rightarrow> (kit, attempt) cmd" where
  "publish_outputs R r s = (case given (a_run_dir r) of
     None \<Rightarrow> ret r
   | Some dir \<Rightarrow> bnd (publish_all R r (path_parts dir) (p_outputs s)) (\<lambda>ps. ret (r\<lparr>a_published := uniq ps\<rparr>)))"

subsection \<open>Finalizing an attempt\<close>

definition main_present :: "fs \<Rightarrow> step_spec \<Rightarrow> (string \<times> string) list \<Rightarrow> bool" where
  "main_present fs s arts = (case given (main_output s) of
     None \<Rightarrow> False
   | Some m \<Rightarrow> (case map_of arts m of Some p \<Rightarrow> exists_at fs (path_parts p) | None \<Rightarrow> False))"

definition failure_class :: "attempt \<Rightarrow> string option" where
  "failure_class r = map_option fl_class (a_failure r)"

definition budget_used :: "attempt list \<Rightarrow> string \<Rightarrow> int" where
  "budget_used rs cls = sum_list (map (\<lambda>r. bg_prior (a_budget r)) rs) +
     int (length (filter (\<lambda>r. failure_class r = Some cls) rs))"

definition retry_limit :: "step_spec \<Rightarrow> string \<Rightarrow> int res" where
  "retry_limit s cls = int_of (case tget (p_retry s) cls of Some v \<Rightarrow> v | None \<Rightarrow> TInt (int (max_auto cls)))"

definition failed_record :: "attempt \<Rightarrow> string \<Rightarrow> verdict option \<Rightarrow> string \<Rightarrow> int \<Rightarrow> int \<Rightarrow> attempt" where
  "failed_record r cls v ts limit used =
     r\<lparr>a_failure := Some \<lparr>fl_class = cls, fl_reasons = (case v of Some d \<Rightarrow> d_reasons d | None \<Rightarrow> []), fl_ts = ts,
         fl_retried = False, fl_parked = False, fl_ruling = None, fl_released = None, fl_evidence = None\<rparr>,
       a_budget := \<lparr>bg_class = Some cls, bg_max = limit, bg_used = used, bg_prior = bg_prior (a_budget r)\<rparr>\<rparr>"

definition retry_note :: "string \<Rightarrow> int \<Rightarrow> int \<Rightarrow> string" where
  "retry_note cls used limit =
     ''Automatic retry '' @ int_str (used + 1) @ '' of '' @ int_str limit @ '' for class '' @ cls @ ''; resubmitting.''"

definition park_note :: "string \<Rightarrow> int \<Rightarrow> int \<Rightarrow> string" where
  "park_note cls used limit = ''Automatic retries for class '' @ cls @ '': '' @ int_str limit @ ''; used '' @ int_str used @ ''.''"

definition settle_ok :: "tools \<Rightarrow> runner \<Rightarrow> attempt \<Rightarrow> step_spec \<Rightarrow> (kit, unit) cmd" where
  "settle_ok W R r s =
     bnd (publish_outputs R (r\<lparr>a_failure := None\<rparr>) s) (\<lambda>r1.
     bnd (save W r1) (\<lambda>r2. note_action (p_id s @ '': verified ok'')))"

text \<open>\<open>again\<close> launches the step; \<open>track\<close> tells whether the caller's list of submissions is the tick's.\<close>

definition resubmit :: "(step_spec \<Rightarrow> (kit, bool) cmd) \<Rightarrow> bool \<Rightarrow> step_spec \<Rightarrow> (kit, unit) cmd" where
  "resubmit again track s = bnd (again s) (\<lambda>ok.
     if ok \<and> track then modify (\<lambda>k. k\<lparr>y_submitted := y_submitted k @ [p_id s]\<rparr>) else ret ())"

definition retry_or_park ::
    "tools \<Rightarrow> runner \<Rightarrow> (step_spec \<Rightarrow> (kit, bool) cmd) \<Rightarrow> bool \<Rightarrow> attempt \<Rightarrow> step_spec \<Rightarrow> string \<Rightarrow> verdict option \<Rightarrow> (kit, unit) cmd" where
  "retry_or_park W R again track r s cls v =
     bnd listing (\<lambda>rs.
     let used = budget_used (by_step rs (p_id s)) cls in
     bnd (pure (retry_limit s cls)) (\<lambda>limit.
     bnd (utc_now W) (\<lambda>ts.
     let r1 = failed_record r cls v ts limit used in
     if used < limit then
       (let r2 = with_failure (\<lambda>f. f\<lparr>fl_retried := True\<rparr>) r1 in
        bnd (save W r2) (\<lambda>r3.
        seq (write_evidence W R r3 cls v None (retry_note cls used limit))
        (seq (note_action (p_id s @ '': '' @ cls @ '' failure, resubmitting ('' @ int_str (used + 1) @ ''/'' @ int_str limit @ '')''))
        (resubmit again track s))))
     else
       (let rul = ruling_name (rn_task R) cls (p_id s) (a_id r);
            r2 = with_failure (\<lambda>f. f\<lparr>fl_parked := True, fl_ruling := Some rul\<rparr>) r1 in
        bnd (save W r2) (\<lambda>r3.
        seq (write_evidence W R r3 cls v (Some rul) (park_note cls used limit))
        (note_action (p_id s @ '': '' @ cls @ '' failure, parked as '' @ rul)))))))"

definition finalize_with ::
    "tools \<Rightarrow> runner \<Rightarrow> (step_spec \<Rightarrow> (kit, bool) cmd) \<Rightarrow> bool \<Rightarrow> attempt \<Rightarrow> step_spec \<Rightarrow> (kit, unit) cmd" where
  "finalize_with W R again track r s =
     bnd (gets (\<lambda>k. artifacts (rn_ws R) (y_fs k) s r)) (\<lambda>arts.
     bnd (if normalized_slurm_state (seen_state r) = ''COMPLETED''
          then bnd (verify_attempt W R r s) (\<lambda>(v, r1). ret (Some v, r1))
          else ret (None, r)) (\<lambda>(v, r1).
     bnd (gets y_fs) (\<lambda>fs.
     case classify (seen_state r) v (main_present fs s arts) (a_exit r) of
       None \<Rightarrow> settle_ok W R r1 s
     | Some cls \<Rightarrow> retry_or_park W R again track r1 s cls v)))"

subsection \<open>Launching a step\<close>

definition run_dir_of :: "runner \<Rightarrow> attempt \<Rightarrow> string" where
  "run_dir_of R r = or_else (a_run_dir r) (path_str (rn_ws R))"

definition step_env :: "runner \<Rightarrow> attempt \<Rightarrow> step_spec \<Rightarrow> (string \<times> string) list" where
  "step_env R r s = foldl (\<lambda>e (k, v). AList.update k v e) (p_env s)
     [(''FARMKIT_ATTEMPT_ID'', a_id r), (''FARMKIT_STEP'', p_id s),
      (''FARMKIT_WORKSPACE'', path_str (rn_ws R)), (''FARMKIT_RUN_DIR'', run_dir_of R r)]"

definition submit_extra :: "runner \<Rightarrow> attempt \<Rightarrow> step_spec \<Rightarrow> string option \<Rightarrow> string list" where
  "submit_extra R r s prev =
     [''--chdir='' @ run_dir_of R r,
      ''--output='' @ path_str (attempt_dir R (a_id r) @ [''slurm.out'']),
      ''--error='' @ path_str (attempt_dir R (a_id r) @ [''slurm.err'']),
      ''--export=ALL,'' @ join '','' (map (\<lambda>(k, v). k @ ''='' @ v) (step_env R r s))] @
     (case given prev of Some j \<Rightarrow> [''--dependency='' @ p_chain s @ '':'' @ j] | None \<Rightarrow> [])"

definition refused_record :: "runner \<Rightarrow> attempt \<Rightarrow> step_spec \<Rightarrow> string \<Rightarrow> attempt" where
  "refused_record R r s ts = r\<lparr>a_failure := Some
     \<lparr>fl_class = ''code'', fl_reasons = [''sbatch refused: '' @ or_else (case a_submit r of Some u \<Rightarrow> s_error u | None \<Rightarrow> None) []],
      fl_ts = ts, fl_retried = False, fl_parked = True,
      fl_ruling = Some (ruling_name (rn_task R) ''code'' (p_id s) (a_id r)), fl_released = None, fl_evidence = None\<rparr>\<rparr>"

definition submit_result :: "tools \<Rightarrow> runner \<Rightarrow> step_spec \<Rightarrow> attempt \<Rightarrow> (kit, bool) cmd" where
  "submit_result W R s r =
     (if status_of r = Some ''submitted'' then
       seq (note_action (p_id s @ '': submitted job '' @ or_else (job_of r) [])) (ret True)
     else if status_of r = Some ''rejected'' then
       bnd (utc_now W) (\<lambda>ts.
       bnd (save W (refused_record R r s ts)) (\<lambda>r1.
       seq (write_evidence W R r1 ''code'' None
              (Some (ruling_name (rn_task R) ''code'' (p_id s) (a_id r))) ''sbatch itself refused the job.'')
       (seq (note_action (p_id s @ '': sbatch refused, parked'')) (ret False))))
     else seq (note_action (p_id s @ '': sbatch outcome unknown, intent kept for reconciliation'')) (ret False))"

definition submit_sbatch :: "tools \<Rightarrow> runner \<Rightarrow> attempt \<Rightarrow> step_spec \<Rightarrow> (kit, bool) cmd" where
  "submit_sbatch W R r s =
     bnd listing (\<lambda>rs.
     bnd (pure (previous_job rs s)) (\<lambda>prev.
     bnd (submit W r (sbatch_argv r (path_str (attempt_dir R (a_id r) @ ''code'' # path_parts (p_run s))) (submit_extra R r s prev))
            (Some (path_str (rn_ws R)))) (submit_result W R s)))"

definition local_outcome :: "proc \<Rightarrow> int \<times> string \<times> string" where
  "local_outcome p = (case p of Ended rc out err \<Rightarrow> (rc, out, err) | Unstarted e \<Rightarrow> (1, [], e))"

text \<open>\<open>fin\<close> finalizes the attempt.\<close>

definition run_local :: "tools \<Rightarrow> runner \<Rightarrow> (attempt \<Rightarrow> step_spec \<Rightarrow> (kit, unit) cmd) \<Rightarrow> attempt \<Rightarrow> step_spec \<Rightarrow> (kit, bool) cmd" where
  "run_local W R fin r s =
     bnd (utc_now W) (\<lambda>ts.
     bnd (pure (tl_split W (p_run s))) (\<lambda>argv.
     bnd (save W (r\<lparr>a_submit := Some \<lparr>s_intent = ts, s_argv = argv, s_cwd = Some (run_dir_of R r), s_job = None,
                      s_status = ''local'', s_error = None\<rparr>\<rparr>)) (\<lambda>r1.
     bnd tick_n (\<lambda>n.
     bnd (gets (\<lambda>k. tl_local W n argv (path_parts (run_dir_of R r)) (step_env R r s) (y_fs k))) (\<lambda>(p, fs).
     seq (modify (\<lambda>k. k\<lparr>y_fs := fs\<rparr>))
     (case local_outcome p of (rc, out, err) \<Rightarrow>
     seq (write_text (attempt_dir R (a_id r) @ [''local.out'']) out)
     (seq (write_text (attempt_dir R (a_id r) @ [''local.err'']) err)
     (bnd (utc_now W) (\<lambda>t1.
     bnd (utc_now W) (\<lambda>t2.
     bnd (save W (r1\<lparr>a_exit := Some rc, a_observed := Some \<lparr>ob_state = Some (if rc = 0 then ''COMPLETED'' else ''FAILED''),
                       ob_ts = t1, ob_end = Some t2\<rparr>\<rparr>)) (\<lambda>r2.
     seq (fin r2 s) (ret True))))))))))))"

definition launch_globs :: "step_spec \<Rightarrow> string list" where
  "launch_globs s = (if p_sbatch s \<and> p_run s \<notin> set (p_snapshot s) then p_snapshot s @ [p_run s] else p_snapshot s)"

text \<open>The record of a new attempt whose run directory is prepared.\<close>

definition prepared :: "tools \<Rightarrow> runner \<Rightarrow> step_spec \<Rightarrow> attempt list \<Rightarrow> attempt \<Rightarrow> fs \<Rightarrow> (attempt \<times> fs) res" where
  "prepared W R s rs r fs =
     (let dir = attempt_dir R (a_id r); code = dir @ [''code''] in
      rbind (mkdirs fs dir) (\<lambda>f0.
      rbind (snapshot_code W (rn_ws R) dir (launch_globs s) f0) (\<lambda>(f1, digests).
      rbind (prepare_run_dir (rn_ws R) s (predecessor_outputs (rn_specs R) rs s) code f1) (\<lambda>f2.
      let r1 = r\<lparr>a_code := digests, a_snapshot := Some (path_str code), a_run_dir := Some (path_str code)\<rparr> in
      rbind (runner_inputs W (rn_ws R) f2 r1 s) (\<lambda>es.
      Inr (r1\<lparr>a_inputs := fmap_of_list es, a_env := Some (tl_env_digest W),
              a_stderr := Some (path_str (dir @ [if p_sbatch s then ''slurm.err'' else ''local.err'']))\<rparr>, f2))))))"

definition launch_step :: "tools \<Rightarrow> runner \<Rightarrow> (attempt \<Rightarrow> step_spec \<Rightarrow> (kit, unit) cmd) \<Rightarrow> step_spec \<Rightarrow> (kit, bool) cmd" where
  "launch_step W R fin s =
     bnd listing (\<lambda>rs.
     bnd (kit_uuid W) (\<lambda>aid.
     bnd (utc_now W) (\<lambda>created.
     bnd (asks (\<lambda>k. prepared W R s rs (ledger_new rs (p_id s) (rn_task R) (rn_lease R) (Some (rn_site R)) aid created) (y_fs k)))
       (\<lambda>(r, fs).
     seq (modify (\<lambda>k. k\<lparr>y_fs := fs\<rparr>))
     (if p_sbatch s then submit_sbatch W R r s else run_local W R fin r s)))))"

fun finalize :: "nat \<Rightarrow> tools \<Rightarrow> runner \<Rightarrow> bool \<Rightarrow> attempt \<Rightarrow> step_spec \<Rightarrow> (kit, unit) cmd" where
  "finalize 0 W R track r s = throw RecursionError"
| "finalize (Suc n) W R track r s = finalize_with W R (launch_step W R (finalize n W R False)) track r s"

definition runner_launch :: "nat \<Rightarrow> tools \<Rightarrow> runner \<Rightarrow> step_spec \<Rightarrow> (kit, bool) cmd" where
  "runner_launch n W R s = launch_step W R (finalize n W R False) s"

subsection \<open>Observing what ended\<close>

definition trivially_ok :: "string \<Rightarrow> attempt \<Rightarrow> attempt" where
  "trivially_ok ts r = r\<lparr>a_verdict := Some \<lparr>vr_ok = True, vr_reasons = [], vr_checked = [], vr_verifier = None, vr_ts = ts\<rparr>\<rparr>"

definition record_only :: "tools \<Rightarrow> attempt \<Rightarrow> (kit, unit) cmd" where
  "record_only W r = bnd (utc_now W) (\<lambda>ts. bnd (save W (trivially_ok ts r)) (\<lambda>r'. ret ()))"

definition finish_crashed :: "nat \<Rightarrow> tools \<Rightarrow> runner \<Rightarrow> attempt \<Rightarrow> (kit, unit) cmd" where
  "finish_crashed n W R r = (case spec_by_id (rn_specs R) (a_step r) of
     None \<Rightarrow> record_only W r
   | Some s \<Rightarrow> seq (note_action (p_id s @ '': execution had ended before a crash; verifying the recorded attempt''))
       (finalize n W R True r s))"

definition observe_one :: "nat \<Rightarrow> tools \<Rightarrow> runner \<Rightarrow> (string \<times> string option) list \<Rightarrow> attempt \<Rightarrow> (kit, unit) cmd" where
  "observe_one n W R states r =
     (let st = (case a_submit r of Some u \<Rightarrow> (case s_job u of Some j \<Rightarrow> got (map_of states j) | None \<Rightarrow> None) | None \<Rightarrow> None) in
      bnd (utc_now W) (\<lambda>t1.
      if \<not> slurm_job_terminal st
      then bnd (save W (r\<lparr>a_observed := Some \<lparr>ob_state = st, ob_ts = t1, ob_end = None\<rparr>\<rparr>)) (\<lambda>r'. ret ())
      else bnd (utc_now W) (\<lambda>t2.
        let r1 = r\<lparr>a_observed := Some \<lparr>ob_state = st, ob_ts = t1, ob_end = Some t2\<rparr>\<rparr> in
        case spec_by_id (rn_specs R) (a_step r) of None \<Rightarrow> record_only W r1 | Some s \<Rightarrow> finalize n W R True r1 s)))"

definition observe_and_finalize :: "nat \<Rightarrow> tools \<Rightarrow> runner \<Rightarrow> (kit, unit) cmd" where
  "observe_and_finalize n W R =
     bnd listing (\<lambda>rs.
     seq (for_each (unfinalized rs) (finish_crashed n W R))
     (bnd listing (\<lambda>rs2.
     let flying = in_flight rs2 in
     if flying = [] then ret ()
     else bnd tick_n (\<lambda>m.
       bnd (gets y_cache) (\<lambda>c.
       case cache_states (tl_ttl W) (tl_which W m) (tl_run W m) (tl_mono W m) (List.map_filter job_of flying) c of (states, c') \<Rightarrow>
       seq (modify (\<lambda>k. k\<lparr>y_cache := c'\<rparr>))
       (for_each flying (observe_one n W R states)))))))"

subsection \<open>Launching what is ready\<close>

definition pending_ready :: "runner \<Rightarrow> attempt list \<Rightarrow> string list \<Rightarrow> step_spec list" where
  "pending_ready R rs tried = filter (\<lambda>s. p_id s \<notin> set tried) (ready (rn_specs R) rs)"

fun launch_ready :: "nat \<Rightarrow> nat \<Rightarrow> tools \<Rightarrow> runner \<Rightarrow> (kit, unit) cmd" where
  "launch_ready n 0 W R = ret ()"
| "launch_ready n (Suc m) W R =
     bnd listing (\<lambda>rs.
     bnd (gets y_submitted) (\<lambda>tried.
     case pending_ready R rs tried of
       [] \<Rightarrow> ret ()
     | s # _ \<Rightarrow>
         bnd (runner_launch n W R s) (\<lambda>ok.
         seq (modify (\<lambda>k. k\<lparr>y_submitted := y_submitted k @ [p_id s]\<rparr>))
         (launch_ready n m W R))))"

text \<open>The jobs a barrier waits for: none at all when a member has no live job.\<close>

fun barrier_jobs :: "attempt list \<Rightarrow> string list \<Rightarrow> string list res" where
  "barrier_jobs rs [] = Inr []"
| "barrier_jobs rs (m # ms) = (case latest rs m of
     None \<Rightarrow> Inr []
   | Some r \<Rightarrow> (case a_submit r of
       None \<Rightarrow> Inl AttributeError
     | Some u \<Rightarrow> (case job_of r of
         None \<Rightarrow> Inr []
       | Some j \<Rightarrow>
           if slurm_job_terminal (seen_state r) then Inr []
           else rbind (barrier_jobs rs ms) (\<lambda>js. Inr (if js = [] \<and> ms \<noteq> [] then [] else j # js)))))"

definition barrier_step :: "string \<Rightarrow> string" where
  "barrier_step g = ''barrier:'' @ g"

definition wants_barrier :: "step_spec list \<Rightarrow> string list \<Rightarrow> bool" where
  "wants_barrier specs ms \<longleftrightarrow> list_ex (\<lambda>m. case spec_by_id specs m of Some s \<Rightarrow> p_wait s = ''barrier'' | None \<Rightarrow> False) ms"

definition barrier_flying :: "attempt list \<Rightarrow> string \<Rightarrow> bool" where
  "barrier_flying rs g \<longleftrightarrow> latest rs (barrier_step g) \<noteq> None \<and> list_ex (\<lambda>r. a_step r = barrier_step g) (in_flight rs)"

definition submit_barrier :: "tools \<Rightarrow> runner \<Rightarrow> string \<Rightarrow> string list \<Rightarrow> (kit, unit) cmd" where
  "submit_barrier W R g jobs =
     bnd listing (\<lambda>rs.
     bnd (kit_uuid W) (\<lambda>aid.
     bnd (utc_now W) (\<lambda>created.
     bnd (submit W (ledger_new rs (barrier_step g) (rn_task R) (rn_lease R) (Some (rn_site R)) aid created)
            (barrier_argv g jobs (rn_part R) (rn_limit R) aid) (Some (path_str (rn_ws R)))) (\<lambda>r.
     if status_of r = Some ''submitted''
     then seq (note_action (''barrier for '' @ g @ '': job '' @ or_else (job_of r) []))
       (modify (\<lambda>k. k\<lparr>y_submitted := y_submitted k @ [barrier_step g]\<rparr>))
     else ret ()))))"

definition one_barrier :: "tools \<Rightarrow> runner \<Rightarrow> string \<times> string list \<Rightarrow> (kit, unit) cmd" where
  "one_barrier W R gm = (case gm of (g, ms) \<Rightarrow>
     if \<not> wants_barrier (rn_specs R) ms then ret ()
     else bnd listing (\<lambda>rs.
       bnd (pure (barrier_jobs rs ms)) (\<lambda>jobs.
       if jobs = [] \<or> barrier_flying rs g then ret () else submit_barrier W R g jobs)))"

definition barriers :: "tools \<Rightarrow> runner \<Rightarrow> (kit, unit) cmd" where
  "barriers W R = for_each (groups (rn_specs R)) (one_barrier W R)"

subsection \<open>Deciding what to report\<close>

definition rulings :: "attempt list \<Rightarrow> string list" where
  "rulings rs = List.map_filter (\<lambda>r. case a_failure r of Some f \<Rightarrow> given (fl_ruling f) | None \<Rightarrow> None) (parked rs)"

definition job_ref :: "attempt \<Rightarrow> string" where
  "job_ref r = ''job:'' @ or_else (job_of r) []"

definition is_barrier :: "attempt \<Rightarrow> bool" where
  "is_barrier r \<longleftrightarrow> starts_with ''barrier:'' (a_step r)"

text \<open>The reference to wait on; None stands for SUBMITTED.\<close>

definition decide_wait :: "runner \<Rightarrow> attempt list \<Rightarrow> string option res" where
  "decide_wait R rs =
     (case in_flight rs of
        f # fs \<Rightarrow> (case filter is_barrier (f # fs) of
            b # bs \<Rightarrow> Inr (Some (job_ref b))
          | [] \<Rightarrow> rbind (wait_reference (List.map_filter job_of (f # fs)) (fmempty :: (string, string) fmap) None) (\<lambda>w. Inr (Some w)))
      | [] \<Rightarrow> (case unverified_intents rs of
            u # us \<Rightarrow> Inr (Some (ruling_name (rn_task R) ''unknown'' (''submit-'' @ a_step u) (a_id u)))
          | [] \<Rightarrow> (case rulings rs of
                p # ps \<Rightarrow> Inr (Some p)
              | [] \<Rightarrow> if all_steps_ok (rn_specs R) rs then Inr None
                      else Inr (Some (ruling_name (rn_task R) ''unknown'' ''no-progress'' ''00000000'')))))"

record tick_result =
  k_status :: string
  k_waiting :: "string option"
  k_note :: string
  k_command :: string
  k_checkpoint :: "string option"
  k_actions :: "string list"
  k_submitted :: "string list"
  k_parked :: "string list"

definition tick_note :: "runner \<Rightarrow> attempt list \<Rightarrow> string \<Rightarrow> string list \<Rightarrow> string list \<Rightarrow> string" where
  "tick_note R rs st sub pk = take 200 (join ''; ''
     ([nat_str (length (filter (\<lambda>s. step_ok rs (p_id s)) (rn_specs R))) @ ''/'' @ nat_str (length (rn_specs R)) @ '' steps ok''] @
      (if sub = [] then [] else [''submitted '' @ join '', '' (take 4 sub)]) @
      (if pk = [] then [] else [nat_str (length pk) @ '' parked'']) @
      (if st = ''SUBMITTED'' then [''all steps verified; deliverable ready''] else [])))"

definition receipt_command :: "string \<Rightarrow> string \<Rightarrow> string option \<Rightarrow> string \<Rightarrow> string option \<Rightarrow> string" where
  "receipt_command helper st w note checkpoint =
     helper @ '' '' @ st @
     (case (if st = ''AWAITING'' then given w else None) of Some x \<Rightarrow> '' --waiting-on '' @ shell_quote x | None \<Rightarrow> []) @
     '' --note '' @ shell_quote note @
     (case given checkpoint of Some p \<Rightarrow> '' --checkpoint '' @ shell_quote p | None \<Rightarrow> [])"

subsection \<open>The checkpoint file\<close>

text \<open>
  \<open>CHECKPOINT.md\<close>: the mechanical part above a marker is written anew, what the agent wrote below it is kept.
  Files are bytes here, so the two signs of the text that are not ASCII stand as they are encoded.
\<close>

definition en_dash :: string where
  "en_dash = [CHR 0xE2, CHR 0x80, CHR 0x93]"

definition judgment_marker :: string where
  "judgment_marker = ''<!-- judgment: the agent writes 3-5 lines below this line; farmkit rewrites everything above -->''"

fun after_first :: "string \<Rightarrow> string \<Rightarrow> string option" where
  "after_first p [] = (if p = [] then Some [] else None)"
| "after_first p (c # s) = (if starts_with p (c # s) then Some (drop (length p) (c # s)) else after_first p s)"

definition old_judgment :: "fs \<Rightarrow> path \<Rightarrow> string res" where
  "old_judgment fs p = (case stat fs p of
     None \<Rightarrow> Inr []
   | Some (File c) \<Rightarrow> Inr (case after_first judgment_marker c of None \<Rightarrow> [] | Some j \<Rightarrow> j)
   | Some _ \<Rightarrow> Inl (OSError ''is a directory''))"

definition checkpoint_row :: "attempt list \<Rightarrow> step_spec \<Rightarrow> string" where
  "checkpoint_row rs s = (case latest rs (p_id s) of
     None \<Rightarrow> ''| '' @ p_id s @ '' | '' @ en_dash @ '' | '' @ en_dash @ '' | not started |''
   | Some r \<Rightarrow> ''| '' @ p_id s @ '' | '' @ or_else (job_of r) en_dash @ '' | '' @ or_else (seen_state r) en_dash @ '' | '' @
       (if verdict_ok r then ''ok''
        else case a_failure r of Some f \<Rightarrow> if fl_parked f then ''PARKED '' @ fl_class f else ''pending'' | None \<Rightarrow> ''pending'') @ '' |'')"

definition checkpoint_text ::
    "runner \<Rightarrow> attempt list \<Rightarrow> string \<Rightarrow> string \<Rightarrow> string option \<Rightarrow> string list \<Rightarrow> string \<Rightarrow> string" where
  "checkpoint_text R rs ts st w pk judgment =
     join newline ([''# CHECKPOINT (mechanical part written by farmkit)'', [],
       ''Task: '' @ or_else (rn_task R) en_dash @ '' '' @ [CHR 0xC2, CHR 0xB7] @ '' updated '' @ take 19 ts @ ''Z'', [],
       ''| step | job | scheduler | verdict |'', ''|---|---|---|---|''] @ map (checkpoint_row rs) (rn_specs R) @
       [[], ''Next: report '' @ st @ (case given w of Some x \<Rightarrow> '', waiting on `'' @ x @ ''`'' | None \<Rightarrow> [])] @
       (if pk = [] then [] else [[], ''Parked (need a ruling):''] @ map (\<lambda>p. ''- '' @ p) pk) @
       [[], judgment_marker]) @
     (if strip judgment \<noteq> [] then judgment else newline @ newline @ ''(judgment: none yet)'' @ newline)"

definition checkpoint_file :: "runner \<Rightarrow> path" where
  "checkpoint_file R = rn_ws R @ [''CHECKPOINT.md'']"

definition write_checkpoint ::
    "tools \<Rightarrow> runner \<Rightarrow> string \<Rightarrow> string option \<Rightarrow> string list \<Rightarrow> (kit, path) cmd" where
  "write_checkpoint W R st w pk =
     bnd (asks (\<lambda>k. old_judgment (y_fs k) (checkpoint_file R))) (\<lambda>j.
     bnd listing (\<lambda>rs.
     bnd (utc_now W) (\<lambda>ts.
     seq (write_text (checkpoint_file R) (checkpoint_text R rs ts st w pk j))
     (ret (checkpoint_file R)))))"

text \<open>\<open>str(Path(p).resolve())\<close>\<close>

definition resolved_str :: "fs \<Rightarrow> path \<Rightarrow> string res" where
  "resolved_str fs p = (case resolve_path fs p of
     None \<Rightarrow> Inl (OSError ''too many levels of symbolic links'')
   | Some q \<Rightarrow> Inr (if q = [] then ''/'' else path_str q))"

subsection \<open>The tick\<close>

definition reconcile_first :: "tools \<Rightarrow> (kit, unit) cmd" where
  "reconcile_first W = (case tl_lookup W of
     None \<Rightarrow> ret ()
   | Some lookup \<Rightarrow> bnd (reconcile_all W lookup) (\<lambda>xs.
       for_each xs (\<lambda>(aid, st). note_action (''reconciled intent '' @ take 8 aid @ '': '' @ st))))"

definition tick_work :: "nat \<Rightarrow> tools \<Rightarrow> runner \<Rightarrow> (kit, unit) cmd" where
  "tick_work n W R =
     seq (reconcile_first W)
     (seq (observe_and_finalize n W R)
     (seq (launch_ready n (2 * length (rn_specs R) + 1) W R)
     (barriers W R)))"

definition report_tick :: "tools \<Rightarrow> runner \<Rightarrow> bool \<Rightarrow> (kit, tick_result) cmd" where
  "report_tick W R checkpoint =
     bnd listing (\<lambda>rs.
     bnd (pure (decide_wait R rs)) (\<lambda>w.
     let st = (if w = None then ''SUBMITTED'' else ''AWAITING''); pk = rulings rs in
     bnd (gets y_submitted) (\<lambda>sub.
     bnd (gets y_actions) (\<lambda>acts.
     let note = tick_note R rs st sub pk in
     bnd (if checkpoint then bnd (write_checkpoint W R st w pk) (\<lambda>p. ret (Some p)) else ret None) (\<lambda>cp.
     bnd (case cp of None \<Rightarrow> ret None
          | Some p \<Rightarrow> bnd (asks (\<lambda>k. resolved_str (y_fs k) p)) (\<lambda>q. ret (Some q))) (\<lambda>full.
     ret \<lparr>k_status = st, k_waiting = w, k_note = note, k_command = receipt_command (rn_helper R) st w note full,
          k_checkpoint = map_option path_str cp, k_actions = acts, k_submitted = sub, k_parked = pk\<rparr>))))))"

definition tick :: "nat \<Rightarrow> tools \<Rightarrow> runner \<Rightarrow> bool \<Rightarrow> (kit, tick_result) cmd" where
  "tick n W R checkpoint =
     seq (modify (\<lambda>k. k\<lparr>y_actions := [], y_submitted := []\<rparr>))
     (seq (tick_work n W R) (report_tick W R checkpoint))"

end
