(* ===== verification/Ticks.thy ===== *)
theory Ticks
  imports Runner
begin

text \<open>
  What ticks keep: the records of the ledger stay well formed, every call of sbatch has a ground
  in the ledger as it was when the call was made, and the loop of launches leaves nothing ready.
\<close>

subsection \<open>Well-formed records\<close>

definition jobless :: "string list" where
  "jobless = [''intent'', ''unverified'', ''rejected'', ''local'']"

definition submit_wf :: "attempt \<Rightarrow> bool" where
  "submit_wf r \<longleftrightarrow> (\<exists>u. a_submit r = Some u \<and>
     (if s_job u = None then s_status u \<in> set jobless else s_status u = ''submitted'' \<or> s_status u = ''adopted''))"

definition ended :: "attempt \<Rightarrow> bool" where
  "ended r \<longleftrightarrow> slurm_job_terminal (seen_state r)"

definition failure_wf :: "attempt \<Rightarrow> failure \<Rightarrow> bool" where
  "failure_wf r f \<longleftrightarrow>
     fl_class f \<in> set failure_classes \<and> (status_of r = Some ''rejected'' \<or> ended r) \<and>
     (if fl_retried f
      then \<not> fl_parked f \<and> fl_released f = None \<and> bg_class (a_budget r) = Some (fl_class f) \<and> bg_used (a_budget r) < bg_max (a_budget r)
      else (fl_parked f \<longleftrightarrow> fl_released f = None) \<and> (\<exists>t. fl_ruling f = Some (ruling_name t (fl_class f) (a_step r) (a_id r)))) \<and>
     (verdict_ok r \<longrightarrow> fl_class f = ''code'')"

definition attempt_wf :: "attempt \<Rightarrow> bool" where
  "attempt_wf r \<longleftrightarrow> a_schema r = schema \<and> submit_wf r \<and>
     (a_verdict r \<noteq> None \<longrightarrow> ended r) \<and> (a_verdict r \<noteq> None \<and> \<not> verdict_ok r \<longrightarrow> a_failure r \<noteq> None) \<and>
     (\<forall>f. a_failure r = Some f \<longrightarrow> failure_wf r f)"

definition files_wf :: "(string, attempt) fmap \<Rightarrow> bool" where
  "files_wf fs \<longleftrightarrow> (\<forall>i r. fmlookup fs i = Some r \<longrightarrow> a_id r = i \<and> attempt_wf r)"

subsection \<open>Grounds for a submission\<close>

text \<open>What must hold of the ledger for a step to be handed to sbatch: it is ready; or an attempt of it
  failed within its budget and is marked as retried; or it is the barrier of a group all of
  whose members have live jobs while no barrier of it is under way.\<close>

definition retry_due :: "attempt list \<Rightarrow> string \<Rightarrow> bool" where
  "retry_due rs st \<longleftrightarrow> (\<exists>r\<in>set rs. a_step r = st \<and> retried r \<and> bg_used (a_budget r) < bg_max (a_budget r))"

definition barrier_due :: "step_spec list \<Rightarrow> attempt list \<Rightarrow> string \<Rightarrow> bool" where
  "barrier_due specs rs st \<longleftrightarrow> (\<exists>g ms js. st = barrier_step g \<and> (g, ms) \<in> set (groups specs) \<and> wants_barrier specs ms \<and>
     barrier_jobs rs ms = Inr js \<and> js \<noteq> [] \<and> \<not> barrier_flying rs g)"

definition step_due :: "step_spec list \<Rightarrow> attempt list \<Rightarrow> string \<Rightarrow> bool" where
  "step_due specs rs st \<longleftrightarrow> (\<exists>s\<in>set specs. p_id s = st \<and> is_ready specs rs s) \<or> retry_due rs st \<or> barrier_due specs rs st"

definition grounded :: "step_spec list \<Rightarrow> call \<Rightarrow> bool" where
  "grounded specs c \<longleftrightarrow> (\<exists>fs d. c_files c = fmupd (a_id d) d fs \<and> status_of d = Some ''intent'' \<and>
     step_due specs (read_all fs) (a_step d))"

text \<open>The invariant of a worker's state; the calls \<open>n\<close> were made before.\<close>

definition sound :: "step_spec list \<Rightarrow> call list \<Rightarrow> kit \<Rightarrow> bool" where
  "sound specs n k \<longleftrightarrow> files_wf (g_files (y_ledger k)) \<and> coherent (y_ledger k) \<and>
     (\<exists>new. y_calls k = n @ new \<and> list_all (grounded specs) new)"

abbreviation rows_of :: "kit \<Rightarrow> attempt list" where
  "rows_of k \<equiv> read_all (g_files (y_ledger k))"

subsection \<open>Rules\<close>

lemma sound_irrelevant [simp]:
  "sound specs n (k\<lparr>y_n := a\<rparr>) = sound specs n k" "sound specs n (k\<lparr>y_fs := b\<rparr>) = sound specs n k"
  "sound specs n (k\<lparr>y_cache := c\<rparr>) = sound specs n k" "sound specs n (k\<lparr>y_actions := d\<rparr>) = sound specs n k"
  "sound specs n (k\<lparr>y_submitted := e\<rparr>) = sound specs n k"
  by (simp_all add: sound_def)

lemma attempt_wf_stamped [simp]: "attempt_wf (stamped ts r) = attempt_wf r"
  by (simp add: attempt_wf_def submit_wf_def failure_wf_def ended_def verdict_ok_def status_of_def seen_state_def)

lemma files_wf_upd: "files_wf fs \<Longrightarrow> attempt_wf r \<Longrightarrow> files_wf (fmupd (a_id r) r fs)"
  by (auto simp: files_wf_def)

lemma rows_wf: "files_wf fs \<Longrightarrow> r \<in> set (read_all fs) \<Longrightarrow> attempt_wf r"
  by (auto simp: files_wf_def set_read_all)

lemma sound_stored: "sound specs n k \<Longrightarrow> attempt_wf r \<Longrightarrow>
    sound specs n (k\<lparr>y_n := a, y_ledger := stored (stamped ts r) (y_ledger k)\<rparr>)"
  using files_wf_upd [of "g_files (y_ledger k)" "stamped ts r"] by (simp add: sound_def)

lemma sound_listed: "sound specs n k \<Longrightarrow>
    sound specs n (k\<lparr>y_ledger := snd (ledger_all (y_ledger k))\<rparr>) \<and> fst (ledger_all (y_ledger k)) = rows_of k \<and>
    g_files (snd (ledger_all (y_ledger k))) = g_files (y_ledger k)"
  using ledger_all_coherent [of "y_ledger k"] by (simp add: sound_def)

lemma keeps_wp: "keeps P m \<Longrightarrow> P k \<Longrightarrow> wp m (\<lambda>_. P) k"
  by (simp add: keeps_def)

lemma keeps_listing:
  assumes "\<And>rs. list_all attempt_wf rs \<Longrightarrow> keeps (sound specs n) (f rs)"
  shows "keeps (sound specs n) (bnd listing f)"
proof (rule keepsI)
  fix k assume k: "sound specs n k"
  have "list_all attempt_wf (rows_of k)" using k rows_wf by (auto simp: sound_def list_all_iff)
  then show "wp (bnd listing f) (\<lambda>_. sound specs n) k"
    using assms sound_listed [OF k] by (auto simp: wp_rules keeps_def)
qed

lemma keeps_save:
  assumes "attempt_wf r" and "\<And>ts. keeps (sound specs n) (f (stamped ts r))"
  shows "keeps (sound specs n) (bnd (save W r) f)"
  by (rule keepsI) (use assms sound_stored in \<open>auto simp: wp_rules keeps_def Let_def\<close>)

lemma keeps_save1: "attempt_wf r \<Longrightarrow> keeps (sound specs n) (save W r)"
  by (rule keepsI) (use sound_stored in \<open>auto simp: wp_rules Let_def\<close>)

lemma keeps_quiet:
  "keeps (sound specs n) tick_n" "keeps (sound specs n) (utc_now W)" "keeps (sound specs n) (kit_uuid W)"
  "keeps (sound specs n) (note_action a)" "keeps (sound specs n) (on_fs g)" "keeps (sound specs n) (write_text p c)"
  "keeps (sound specs n) (modify (\<lambda>k. k\<lparr>y_fs := h k\<rparr>))" "keeps (sound specs n) (modify (\<lambda>k. k\<lparr>y_submitted := b k\<rparr>))"
  "keeps (sound specs n) (modify (\<lambda>k. k\<lparr>y_cache := e k\<rparr>))"
  "keeps (sound specs n) (modify (\<lambda>k. k\<lparr>y_fs := h k, y_n := m k\<rparr>))"
  "keeps (sound specs n) (modify (\<lambda>k. k\<lparr>y_actions := l k, y_submitted := b k\<rparr>))"
  by (auto intro!: keepsI simp: wp_rules on_fs_def write_text_def)

lemmas quiet_bnd = keeps_quiet(1-3) [THEN keeps_bnd] keeps_gets [THEN keeps_bnd] keeps_asks [THEN keeps_bnd] keeps_pure [THEN keeps_bnd]

lemmas kit_keeps = keeps_ret keeps_throw keeps_pure keeps_gets keeps_guard keeps_seq keeps_if keeps_option keeps_sum
  keeps_for_each keeps_quiet quiet_bnd

subsection \<open>Submissions and reconciliation\<close>

text \<open>A record that was not yet saved.\<close>

definition fresh_record :: "attempt \<Rightarrow> bool" where
  "fresh_record r \<longleftrightarrow> a_schema r = schema \<and> a_verdict r = None \<and> a_failure r = None \<and> a_observed r = None"

lemma fresh_wf: "fresh_record r \<Longrightarrow> submit_wf r \<Longrightarrow> attempt_wf r"
  by (simp add: attempt_wf_def fresh_record_def)

lemma fresh_simps [simp]:
  "fresh_record (stamped ts r) = fresh_record r" "fresh_record (with_submit g r) = fresh_record r"
  "fresh_record (r\<lparr>a_submit := u\<rparr>) = fresh_record r" "fresh_record (r\<lparr>a_wait := w\<rparr>) = fresh_record r"
  by (simp_all add: fresh_record_def)

lemma files_wf_put: "files_wf fs \<Longrightarrow> a_id r = i \<Longrightarrow> attempt_wf r \<Longrightarrow> files_wf (fmupd i r fs)"
  using files_wf_upd by blast

text \<open>A call of sbatch for a record that was just saved.\<close>

lemma sound_called:
  assumes "sound specs n k" and "fresh_record d" and "status_of d = Some ''intent''" and "submit_wf d"
    and "step_due specs (rows_of k) (a_step d)"
  shows "sound specs n (k\<lparr>y_ledger := stored d (y_ledger k), y_n := m,
    y_calls := y_calls k @ [\<lparr>c_argv = argv, c_files = fmupd (a_id d) d (g_files (y_ledger k))\<rparr>]\<rparr>)"
proof -
  have "grounded specs \<lparr>c_argv = argv, c_files = fmupd (a_id d) d (g_files (y_ledger k))\<rparr>"
    unfolding grounded_def using assms(3,5) by auto
  then show ?thesis using assms(1) files_wf_upd [OF _ fresh_wf [OF assms(2,4)]] by (auto simp: sound_def)
qed

lemma wp_submit_sound:
  assumes "sound specs n k" and "fresh_record r" and "step_due specs (rows_of k) (a_step r)"
  shows "wp (submit W r argv cwd) (\<lambda>res k'. sound specs n k' \<and>
    (\<forall>r1. res = Inr r1 \<longrightarrow> attempt_wf r1 \<and> fresh_record r1 \<and> a_step r1 = a_step r \<and> a_id r1 = a_id r)) k"
proof -
  define d where "d = stamped (tl_now W (Suc (y_n k))) (r\<lparr>a_submit := Some \<lparr>s_intent = tl_now W (y_n k), s_argv = argv, s_cwd = cwd,
      s_job = None, s_status = ''intent'', s_error = None\<rparr>\<rparr>)"
  define k1 where "k1 = k\<lparr>y_ledger := stored d (y_ledger k), y_n := Suc (Suc (Suc (y_n k))),
    y_calls := y_calls k @ [\<lparr>c_argv = argv, c_files = fmupd (a_id r) d (g_files (y_ledger k))\<rparr>]\<rparr>"
  have d: "fresh_record d" "submit_wf d" "a_id d = a_id r" "a_step d = a_step r" "a_schema d = schema"
    using assms(2) by (auto simp: d_def submit_wf_def jobless_def fresh_record_def)
  have sch: "a_schema r = schema" using assms(2) by (simp add: fresh_record_def)
  have k1: "sound specs n k1"
    unfolding k1_def d(3) [symmetric] by (rule sound_called) (use assms d in \<open>simp_all add: d_def status_of_def\<close>)
  let ?Q = "\<lambda>res k'. sound specs n k' \<and>
    (\<forall>r1. res = Inr r1 \<longrightarrow> attempt_wf r1 \<and> fresh_record r1 \<and> a_step r1 = a_step r \<and> a_id r1 = a_id r)"
  have save: "wp (save W x) ?Q k1" if "fresh_record x" "submit_wf x" "a_step x = a_step r" "a_id x = a_id r" for x
    using that sound_stored [OF k1 fresh_wf [OF that(1,2)]] fresh_wf [OF that(1,2)] by (simp add: wp_rules fresh_record_def Let_def)
  have sub: "a_submit d = Some \<lparr>s_intent = tl_now W (y_n k), s_argv = argv, s_cwd = cwd,
      s_job = None, s_status = ''intent'', s_error = None\<rparr>" by (simp add: d_def)
  have kept: "submit_wf (with_submit (\<lambda>s. s\<lparr>s_error := e\<rparr>) d)"
    "submit_wf (with_submit (\<lambda>s. s\<lparr>s_error := e, s_status := ''rejected''\<rparr>) d)"
    "submit_wf ((with_submit (\<lambda>s. s\<lparr>s_job := Some j, s_status := ''submitted''\<rparr>) d)\<lparr>a_wait := w\<rparr>)" for e j w
    by (simp_all add: submit_wf_def sub jobless_def)
  have "wp (submit_outcome W d (tl_sbatch W (Suc (Suc (y_n k))) argv)) ?Q k1"
    unfolding submit_outcome_def
    using k1 by (auto simp: wp_bnd wp_pure d kept intro!: save split: proc.split)
  then show ?thesis
    unfolding submit_def wp_bnd wp_utc_now wp_save wp_call_sbatch
    using sch by (simp add: Let_def d_def [symmetric] k1_def)
qed

lemma pending_wf:
  assumes "attempt_wf r" and "status_of r = Some st" and "st = ''intent'' \<or> st = ''unverified''"
  shows "attempt_wf (with_submit (\<lambda>s. s\<lparr>s_status := ''unverified'', s_error := e\<rparr>) r)"
    and "attempt_wf ((with_submit (\<lambda>s. s\<lparr>s_job := Some j, s_status := ''submitted'', s_error := e'\<rparr>) r)\<lparr>a_wait := w\<rparr>)"
proof -
  obtain u where u: "a_submit r = Some u" "s_status u = st" using assms(2) by (auto simp: status_of_def)
  have job: "s_job u = None"
    using assms(1,3) u by (auto simp: attempt_wf_def submit_wf_def split: if_splits)
  let ?x = "with_submit (\<lambda>s. s\<lparr>s_status := ''unverified'', s_error := e\<rparr>) r"
  let ?y = "(with_submit (\<lambda>s. s\<lparr>s_job := Some j, s_status := ''submitted'', s_error := e'\<rparr>) r)\<lparr>a_wait := w\<rparr>"
  have sub: "submit_wf ?x" "submit_wf ?y" using u job by (simp_all add: submit_wf_def jobless_def)
  have not_rejected: "status_of r \<noteq> Some ''rejected''" using assms(2,3) by auto
  have same: "ended ?x = ended r" "ended ?y = ended r" "verdict_ok ?x = verdict_ok r" "verdict_ok ?y = verdict_ok r"
    by (simp_all add: ended_def seen_state_def verdict_ok_def)
  have f: "failure_wf ?x f" "failure_wf ?y f" if "failure_wf r f" for f
    using that not_rejected unfolding failure_wf_def same by simp_all
  show "attempt_wf ?x" "attempt_wf ?y"
    using assms(1) sub f unfolding attempt_wf_def same by simp_all
qed

lemma keeps_reconcile:
  assumes "attempt_wf r"
  shows "keeps (sound specs n) (reconcile W lookup r)"
  unfolding reconcile_def
  by (auto intro!: kit_keeps keeps_save pending_wf [OF assms] split: option.split list.split)

lemma keeps_reconcile_list: "list_all attempt_wf rs \<Longrightarrow> keeps (sound specs n) (reconcile_list W lookup rs)"
  by (induction rs) (auto intro!: kit_keeps keeps_bnd keeps_reconcile)

lemma list_all_sub: "list_all P xs \<Longrightarrow> set ys \<subseteq> set xs \<Longrightarrow> list_all P ys"
  by (auto simp: list_all_iff)

lemma keeps_reconcile_all: "keeps (sound specs n) (reconcile_all W lookup)"
  unfolding reconcile_all_def
  by (rule keeps_listing, rule keeps_reconcile_list) (auto simp: unverified_intents_def elim: list_all_sub)

lemma keeps_reconcile_first: "keeps (sound specs n) (reconcile_first W)"
  unfolding reconcile_first_def case_prod_unfold by (intro kit_keeps keeps_bnd [OF keeps_reconcile_all])

subsection \<open>Launching\<close>

lemma attempt_wf_evidence:
  assumes "attempt_wf r"
  shows "attempt_wf (with_failure (\<lambda>f. f\<lparr>fl_evidence := e\<rparr>) r)"
proof -
  let ?x = "with_failure (\<lambda>f. f\<lparr>fl_evidence := e\<rparr>) r"
  have same: "ended ?x = ended r" "verdict_ok ?x = verdict_ok r" "status_of ?x = status_of r" "submit_wf ?x = submit_wf r"
    "a_verdict ?x = a_verdict r" "a_schema ?x = a_schema r" "a_budget ?x = a_budget r" "a_step ?x = a_step r" "a_id ?x = a_id r"
    by (simp_all add: with_failure_def ended_def seen_state_def verdict_ok_def status_of_def submit_wf_def)
  have "failure_wf ?x (f\<lparr>fl_evidence := e\<rparr>)" if "failure_wf r f" for f
    using that unfolding failure_wf_def same by simp
  then show ?thesis using assms unfolding attempt_wf_def same by (auto simp: with_failure_def)
qed

lemma keeps_write_failure: "keeps (sound specs n) (write_failure dir r cls row err v rul note)"
  unfolding write_failure_def by (intro kit_keeps)

lemma keeps_write_evidence: "attempt_wf r \<Longrightarrow> keeps (sound specs n) (write_evidence W R r cls v rul note)"
  unfolding write_evidence_def
  by (intro kit_keeps keeps_bnd [OF keeps_write_failure] keeps_save attempt_wf_evidence)

text \<open>A record whose execution ended and that is about to be judged.\<close>

definition closing :: "attempt \<Rightarrow> step_spec \<Rightarrow> bool" where
  "closing r s \<longleftrightarrow> a_schema r = schema \<and> submit_wf r \<and> a_verdict r = None \<and> a_failure r = None \<and> ended r \<and> a_step r = p_id s"

lemma closing_wf: "closing r s \<Longrightarrow> attempt_wf r"
  by (simp add: closing_def attempt_wf_def)

lemma refused_wf:
  assumes "fresh_record r" and "submit_wf r" and "status_of r = Some ''rejected''" and "a_step r = p_id s"
  shows "attempt_wf (refused_record R r s ts)"
proof -
  let ?x = "refused_record R r s ts"
  have "a_schema ?x = schema" "a_verdict ?x = None" "submit_wf ?x" "status_of ?x = Some ''rejected''" "\<not> verdict_ok ?x"
    "a_step ?x = a_step r" "a_id ?x = a_id r"
    using assms by (auto simp: refused_record_def fresh_record_def submit_wf_def status_of_def verdict_ok_def)
  then show ?thesis using assms(4) unfolding attempt_wf_def failure_wf_def
    by (auto simp: refused_record_def failure_classes_def)
qed

lemma keeps_submit_result:
  assumes "attempt_wf r" and "fresh_record r" and "a_step r = p_id s"
  shows "keeps (sound specs n) (submit_result W R s r)"
proof -
  have wf: "attempt_wf (refused_record R r s ts)" if "status_of r = Some ''rejected''" for ts
    by (rule refused_wf) (use that assms in \<open>simp_all add: attempt_wf_def\<close>)
  show ?thesis
    unfolding submit_result_def by (intro kit_keeps keeps_save keeps_write_evidence; simp add: wf)
qed

lemma wp_submit_sbatch:
  assumes "sound specs n k" and "fresh_record r" and "a_step r = p_id s" and "step_due specs (rows_of k) (p_id s)"
  shows "wp (submit_sbatch W R r s) (\<lambda>_. sound specs n) k"
proof -
  let ?k = "k\<lparr>y_ledger := snd (ledger_all (y_ledger k))\<rparr>"
  have k: "sound specs n ?k" "rows_of ?k = rows_of k" using sound_listed [OF assms(1)] by simp_all
  have sub: "wp (submit W r argv cwd) (\<lambda>res k'. sound specs n k' \<and>
    (\<forall>r1. res = Inr r1 \<longrightarrow> attempt_wf r1 \<and> fresh_record r1 \<and> a_step r1 = a_step r \<and> a_id r1 = a_id r)) ?k" for argv cwd
    by (rule wp_submit_sound) (use k assms in simp_all)
  have rest: "wp (submit_result W R s r1) (\<lambda>_. sound specs n) k1"
    if "attempt_wf r1" "fresh_record r1" "a_step r1 = a_step r" "sound specs n k1" for r1 k1
    by (rule keeps_wp [OF keeps_submit_result]) (use that assms(3) in simp_all)
  show ?thesis
    unfolding submit_sbatch_def wp_bnd wp_listing wp_pure
    using k(1) by (auto intro!: wp_mono [OF sub] rest)
qed

lemma keeps_run_local:
  assumes "fresh_record r" and "a_step r = p_id s" and fin: "\<And>r. closing r s \<Longrightarrow> keeps (sound specs n) (fin r s)"
  shows "keeps (sound specs n) (run_local W R fin r s)"
proof -
  have wf: "attempt_wf (r\<lparr>a_submit := Some \<lparr>s_intent = ts, s_argv = argv, s_cwd = cwd, s_job = None,
                      s_status = ''local'', s_error = None\<rparr>\<rparr>)" for ts argv cwd
    by (rule fresh_wf) (use assms(1) in \<open>simp_all add: submit_wf_def jobless_def\<close>)
  have cl: "closing ((stamped t (r\<lparr>a_submit := Some \<lparr>s_intent = ts, s_argv = argv, s_cwd = cwd, s_job = None,
      s_status = ''local'', s_error = None\<rparr>\<rparr>))\<lparr>a_exit := x, a_observed := Some \<lparr>ob_state = Some (if c then ''COMPLETED'' else ''FAILED''),
      ob_ts = t1, ob_end = t2\<rparr>\<rparr>) s" for t ts argv cwd x c t1 t2
  proof -
    have "slurm_job_terminal (Some ''COMPLETED'')" "slurm_job_terminal (Some ''FAILED'')" by code_simp+
    then have "slurm_job_terminal (Some (if c then ''COMPLETED'' else ''FAILED''))" by simp
    then show ?thesis using assms(1,2) unfolding closing_def ended_def seen_state_def
      by (simp add: fresh_record_def submit_wf_def jobless_def)
  qed
  have cl': "closing (stamped t r) s" if "closing r s" for t r
    using that by (simp add: closing_def submit_wf_def ended_def seen_state_def)
  show ?thesis
    unfolding run_local_def case_prod_unfold
    by (intro kit_keeps keeps_save wf closing_wf [OF cl] fin cl' cl)
qed

lemma prepared_fresh:
  "prepared W R s rs r fs = Inr (r', fs') \<Longrightarrow> fresh_record r \<Longrightarrow> fresh_record r' \<and> a_step r' = a_step r"
  by (auto simp: prepared_def Let_def rbind_Inr_iff fresh_record_def)

lemma new_fresh: "fresh_record (ledger_new rs st t l site aid c)" "a_step (ledger_new rs st t l site aid c) = st"
  by (simp_all add: ledger_new_def new_record_def fresh_record_def)

lemma wp_launch_step:
  assumes "sound specs n k" and "step_due specs (rows_of k) (p_id s)"
    and fin: "\<And>r. closing r s \<Longrightarrow> keeps (sound specs n) (fin r s)"
  shows "wp (launch_step W R fin s) (\<lambda>_. sound specs n) k"
proof -
  let ?k = "k\<lparr>y_ledger := snd (ledger_all (y_ledger k)), y_n := Suc (Suc (y_n k))\<rparr>"
  have k: "sound specs n ?k" "rows_of ?k = rows_of k" using sound_listed [OF assms(1)] by simp_all
  have "wp (if p_sbatch s then submit_sbatch W R r s else run_local W R fin r s) (\<lambda>_. sound specs n) (?k\<lparr>y_fs := fs\<rparr>)"
    if "fresh_record r" "a_step r = p_id s" for r fs
  proof -
    have k': "sound specs n (?k\<lparr>y_fs := fs\<rparr>)" "rows_of (?k\<lparr>y_fs := fs\<rparr>) = rows_of k" using k by simp_all
    have "keeps (sound specs n) (run_local W R fin r s)"
      by (rule keeps_run_local) (use that fin in auto)
    then show ?thesis
      using wp_submit_sbatch [OF k'(1) that] k' assms(2) by (simp add: keeps_def)
  qed
  then show ?thesis
    unfolding launch_step_def
    using k(1) prepared_fresh new_fresh
    by (auto simp: wp_rules split: prod.splits)
qed

subsection \<open>Finalizing\<close>

text \<open>A record that was judged and failed with a class.\<close>

definition failed_with :: "attempt \<Rightarrow> step_spec \<Rightarrow> string \<Rightarrow> bool" where
  "failed_with r s cls \<longleftrightarrow> a_schema r = schema \<and> submit_wf r \<and> ended r \<and> a_failure r = None \<and> a_step r = p_id s \<and>
     cls \<in> set failure_classes \<and> (verdict_ok r \<longrightarrow> cls = ''code'')"

lemma failed_record_same [simp]:
  "ended (with_failure g (failed_record r cls v ts l u)) = ended r"
  "verdict_ok (with_failure g (failed_record r cls v ts l u)) = verdict_ok r"
  "submit_wf (with_failure g (failed_record r cls v ts l u)) = submit_wf r"
  "a_schema (with_failure g (failed_record r cls v ts l u)) = a_schema r"
  "a_verdict (with_failure g (failed_record r cls v ts l u)) = a_verdict r"
  "a_step (with_failure g (failed_record r cls v ts l u)) = a_step r"
  "a_id (with_failure g (failed_record r cls v ts l u)) = a_id r"
  by (simp_all add: with_failure_def failed_record_def ended_def seen_state_def verdict_ok_def submit_wf_def)

lemma failed_record_step [simp]: "a_step (failed_record r cls v ts l u) = a_step r"
  by (simp add: failed_record_def)

lemma retried_wf:
  assumes "failed_with r s cls" and "u < l"
  shows "attempt_wf (with_failure (\<lambda>f. f\<lparr>fl_retried := True\<rparr>) (failed_record r cls v ts l u))"
    (is "attempt_wf ?x")
proof -
  obtain f where f: "a_failure ?x = Some f" "fl_class f = cls" "fl_retried f" "\<not> fl_parked f" "fl_released f = None"
    and b: "bg_class (a_budget ?x) = Some cls" "bg_used (a_budget ?x) = u" "bg_max (a_budget ?x) = l"
    by (simp add: with_failure_def failed_record_def)
  then show ?thesis using assms unfolding attempt_wf_def failure_wf_def failed_with_def by simp
qed

lemma parked_wf:
  assumes "failed_with r s cls"
  shows "attempt_wf (with_failure (\<lambda>f. f\<lparr>fl_parked := True, fl_ruling := Some (ruling_name t cls (p_id s) (a_id r))\<rparr>)
    (failed_record r cls v ts l u))"
    (is "attempt_wf ?x")
proof -
  obtain f where f: "a_failure ?x = Some f" "fl_class f = cls" "\<not> fl_retried f" "fl_parked f" "fl_released f = None"
      "fl_ruling f = Some (ruling_name t cls (p_id s) (a_id r))"
    by (simp add: with_failure_def failed_record_def)
  then show ?thesis using assms unfolding attempt_wf_def failure_wf_def failed_with_def by auto
qed

lemma retry_due_stored:
  assumes "a_schema r = schema" and "retried r" and "bg_used (a_budget r) < bg_max (a_budget r)"
  shows "retry_due (rows_of (k\<lparr>y_ledger := stored (stamped ts r) g\<rparr>)) (a_step r)"
  unfolding retry_due_def set_read_all using assms
  by (intro bexI [of _ "stamped ts r"]) (auto simp: retried_def)

lemma retried_evidence [simp]: "retried (with_failure (\<lambda>f. f\<lparr>fl_evidence := e\<rparr>) r) = retried r"
  "a_schema (with_failure g r) = a_schema r" "a_step (with_failure g r) = a_step r" "a_budget (with_failure g r) = a_budget r"
  "a_id (with_failure g r) = a_id r"
  by (simp_all add: retried_def with_failure_def split: option.split)

lemma wp_write_evidence_retry:
  assumes "sound specs n k" and "attempt_wf r" and "retried r" and "bg_used (a_budget r) < bg_max (a_budget r)"
  shows "wp (write_evidence W R r cls v rul note)
    (\<lambda>res k'. sound specs n k' \<and> (res = Inr () \<longrightarrow> retry_due (rows_of k') (a_step r))) k"
proof -
  have schema: "a_schema r = schema" using assms(2) by (simp add: attempt_wf_def)
  have "retry_due (rows_of (k'\<lparr>y_ledger := stored (stamped ts (with_failure (\<lambda>f. f\<lparr>fl_evidence := e\<rparr>) r)) g\<rparr>)) (a_step r)" for k' ts e g
    using retry_due_stored [of "with_failure (\<lambda>f. f\<lparr>fl_evidence := e\<rparr>) r"] schema assms(3,4) by simp
  then have "wp (write_evidence W R r cls v rul note) (\<lambda>res k'. res = Inr () \<longrightarrow> retry_due (rows_of k') (a_step r)) k"
    using schema by (simp add: write_evidence_def write_failure_def write_text_def on_fs_def wp_rules Let_def)
  then show ?thesis by (rule wp_conj [OF keeps_wp [OF keeps_write_evidence [OF assms(2)] assms(1)]])
qed

lemma keeps_retry_or_park:
  assumes "failed_with r s cls"
    and again: "\<And>k. sound specs n k \<Longrightarrow> step_due specs (rows_of k) (p_id s) \<Longrightarrow> wp (again s) (\<lambda>_. sound specs n) k"
  shows "keeps (sound specs n) (retry_or_park W R again track r s cls v)"
proof -
  have step: "a_step r = p_id s" using assms(1) by (simp add: failed_with_def)
  let ?r = "\<lambda>ts l u. with_failure (\<lambda>f. f\<lparr>fl_retried := True\<rparr>) (failed_record r cls v ts l u)"
  have ret: "retried (?r ts l u)" "bg_used (a_budget (?r ts l u)) = u" "bg_max (a_budget (?r ts l u)) = l" for ts l u
    by (simp_all add: retried_def with_failure_def failed_record_def)
  have due: "wp (resubmit again track s) (\<lambda>_. sound specs n) k" if "sound specs n k" "retry_due (rows_of k) (p_id s)" for k
    unfolding resubmit_def wp_bnd by (rule wp_mono [OF again]) (use that in \<open>auto simp: step_due_def wp_rules\<close>)
  have resubmit: "keeps (sound specs n) (seq (write_evidence W R (stamped t (?r ts l u)) cls v None msg)
      (seq (note_action a) (resubmit again track s)))"
    if "u < l" for t ts l u msg a
  proof (rule keepsI)
    fix k assume k: "sound specs n k"
    have ev: "wp (write_evidence W R (stamped t (?r ts l u)) cls v None msg)
      (\<lambda>res k'. sound specs n k' \<and> (res = Inr () \<longrightarrow> retry_due (rows_of k') (a_step (stamped t (?r ts l u))))) k"
      by (rule wp_write_evidence_retry [OF k]) (use that ret retried_wf [OF assms(1) that] in \<open>simp_all add: retried_def\<close>)
    show "wp (seq (write_evidence W R (stamped t (?r ts l u)) cls v None msg)
      (seq (note_action a) (resubmit again track s))) (\<lambda>_. sound specs n) k"
      unfolding wp_seq wp_note_action by (rule wp_mono [OF ev]) (auto simp: step intro!: due)
  qed
  show ?thesis
    unfolding retry_or_park_def Let_def
    by (intro kit_keeps keeps_listing keeps_save keeps_write_evidence resubmit retried_wf parked_wf)
      (use assms(1) parked_wf in \<open>auto\<close>)
qed

lemma classify_class:
  assumes "classify st v present x = Some cls"
  shows "cls \<in> set failure_classes" and "v = Some d \<Longrightarrow> normalized_slurm_state st = ''COMPLETED'' \<Longrightarrow> d_ok d \<Longrightarrow> cls = ''code''"
proof -
  have m: "c \<in> set failure_classes" if "c = ''code'' \<or> c = ''science'' \<or> c = ''budget'' \<or> c = ''infra'' \<or> c = ''unknown''" for c
    using that by (auto simp: failure_classes_def)
  show "cls \<in> set failure_classes"
    using assms unfolding classify_def Let_def
    by (intro m) (cases v, auto split: if_splits)
  show "cls = ''code''" if "v = Some d" "normalized_slurm_state st = ''COMPLETED''" "d_ok d"
    using assms that by (auto simp: classify_def Let_def infra_states_def split: if_splits)
qed

lemma classify_None:
  assumes "classify st v present x = None"
  shows "normalized_slurm_state st = ''COMPLETED''" and "v = Some d \<Longrightarrow> d_ok d"
  using assms by (cases v; auto simp: classify_def Let_def split: if_splits)+

text \<open>Verification changes only what it settles and finds out.\<close>

lemma wp_verify_attempt:
  assumes "sound specs n k"
  shows "wp (verify_attempt W R r s) (\<lambda>res k'. sound specs n k' \<and> (\<forall>v r1. res = Inr (v, r1) \<longrightarrow>
    (\<exists>i ts arts. r1 = r\<lparr>a_inputs := i, a_verdict := Some (verdict_of v s ts), a_artifacts := arts\<rparr>))) k"
proof -
  have settle: "\<exists>i. r1 = r\<lparr>a_inputs := i\<rparr>" if "settle_inputs W ws fs r s = Inr (iv, r1)" for ws fs iv r1
    using that by (auto simp: settle_inputs_def rbind_Inr_iff case_prod_unfold split: if_splits intro: exI [of _ "a_inputs r"])
  have "sound specs n (k\<lparr>y_ledger := snd (ledger_all (y_ledger k))\<rparr>)" using sound_listed [OF assms] by simp
  then show ?thesis
    unfolding verify_attempt_def
    by (auto simp: wp_rules assms Let_def dest!: settle split: prod.splits)
qed

lemma keeps_replace_dir_at: "keeps (sound specs n) (replace_dir_at W src q aid)"
  unfolding replace_dir_at_def case_prod_unfold by (intro kit_keeps)

lemma keeps_publish_one: "keeps (sound specs n) (publish_one R r dir name)"
  unfolding publish_one_def Let_def
  by (intro kit_keeps keeps_replace_dir_at) (auto intro!: kit_keeps keeps_replace_dir_at split: prod.split option.split)

lemma keeps_publish_all: "keeps (sound specs n) (publish_all R r dir names)"
  by (induction names) (auto intro!: kit_keeps keeps_bnd keeps_publish_one)

lemma wp_publish_outputs:
  assumes "sound specs n k"
  shows "wp (publish_outputs R r s) (\<lambda>res k'. sound specs n k' \<and> (\<forall>r1. res = Inr r1 \<longrightarrow> (\<exists>p. r1 = r\<lparr>a_published := p\<rparr>))) k"
proof (cases "given (a_run_dir r)")
  case None
  then have "publish_outputs R r s = ret r" by (simp add: publish_outputs_def)
  then show ?thesis using assms by (auto simp: wp_ret intro: exI [of _ "a_published r"])
next
  case (Some dir)
  then show ?thesis unfolding publish_outputs_def
    by (auto simp: wp_rules intro!: wp_mono [OF keeps_wp [OF keeps_publish_all assms]])
qed

lemma keeps_settle_ok:
  assumes "a_schema r = schema" and "submit_wf r" and "ended r" and "verdict_ok r"
  shows "keeps (sound specs n) (settle_ok W R r s)"
proof (rule keepsI)
  fix k assume k: "sound specs n k"
  have wf: "attempt_wf (r\<lparr>a_failure := None, a_published := p\<rparr>)" for p
    using assms by (auto simp: attempt_wf_def submit_wf_def ended_def seen_state_def verdict_ok_def)
  have "keeps (sound specs n) (bnd (save W (r\<lparr>a_failure := None, a_published := p\<rparr>)) (\<lambda>r2. note_action a))" for p a
    by (intro keeps_save wf kit_keeps)
  then show "wp (settle_ok W R r s) (\<lambda>_. sound specs n) k"
    unfolding settle_ok_def wp_bnd [of "publish_outputs _ _ _"]
    by (auto intro!: wp_mono [OF wp_publish_outputs [OF k]] simp: keeps_wp)
qed

lemma keeps_finalize_with:
  assumes "closing r s"
    and again: "\<And>k. sound specs n k \<Longrightarrow> step_due specs (rows_of k) (p_id s) \<Longrightarrow> wp (again s) (\<lambda>_. sound specs n) k"
  shows "keeps (sound specs n) (finalize_with W R again track r s)"
proof -
  have judge: "keeps (sound specs n) (bnd (gets y_fs) (\<lambda>fs.
     case classify (seen_state r) v (main_present fs s arts) (a_exit r) of
       None \<Rightarrow> settle_ok W R r1 s
     | Some cls \<Rightarrow> retry_or_park W R again track r1 s cls v))"
    if r1: "r1 = r \<and> v = None \<and> normalized_slurm_state (seen_state r) \<noteq> ''COMPLETED'' \<or>
      normalized_slurm_state (seen_state r) = ''COMPLETED'' \<and>
      (\<exists>d i ts as. v = Some d \<and> r1 = r\<lparr>a_inputs := i, a_verdict := Some (verdict_of d s ts), a_artifacts := as\<rparr>)" for r1 v arts
  proof -
    have base: "a_schema r1 = schema" "submit_wf r1" "ended r1" "a_failure r1 = None" "a_step r1 = p_id s"
      using r1 assms(1) by (auto simp: closing_def submit_wf_def ended_def seen_state_def)
    have "verdict_ok r1" if "classify (seen_state r) v p x = None" for p x
      using r1 classify_None [OF that] by (auto simp: verdict_ok_def verdict_of_def)
    moreover have "failed_with r1 s cls" if "classify (seen_state r) v p x = Some cls" for cls p x
    proof -
      have "verdict_ok r1 \<longrightarrow> cls = ''code''"
        using r1 classify_class(2) [OF that] assms(1) by (auto simp: verdict_ok_def verdict_of_def closing_def)
      then show ?thesis using base classify_class(1) [OF that] by (simp add: failed_with_def)
    qed
    ultimately show ?thesis using base
      by (intro kit_keeps) (auto intro!: keeps_settle_ok keeps_retry_or_park again split: option.split)
  qed
  show ?thesis
    unfolding finalize_with_def
  proof (intro quiet_bnd keepsI)
    fix arts k assume k: "sound specs n k"
    define next_one where "next_one = (\<lambda>(v, r1). bnd (gets y_fs) (\<lambda>fs.
     case classify (seen_state r) v (main_present fs s arts) (a_exit r) of
       None \<Rightarrow> settle_ok W R r1 s
     | Some cls \<Rightarrow> retry_or_park W R again track r1 s cls v))"
    have "wp (if normalized_slurm_state (seen_state r) = ''COMPLETED''
          then bnd (verify_attempt W R r s) (\<lambda>(v, r1). ret (Some v, r1))
          else ret (None, r)) (\<lambda>x k'. sound specs n k' \<and> (\<forall>v r1. x = Inr (v, r1) \<longrightarrow> keeps (sound specs n) (next_one (v, r1)))) k"
      using k by (auto simp: wp_rules next_one_def intro!: judge wp_mono [OF wp_verify_attempt [OF k]])
    then have "wp (bnd (if normalized_slurm_state (seen_state r) = ''COMPLETED''
          then bnd (verify_attempt W R r s) (\<lambda>(v, r1). ret (Some v, r1))
          else ret (None, r)) next_one) (\<lambda>_. sound specs n) k"
      unfolding wp_bnd [of _ next_one] by (rule wp_mono) (auto intro: keeps_wp)
    then show "wp (bnd (if normalized_slurm_state (seen_state r) = ''COMPLETED''
          then bnd (verify_attempt W R r s) (\<lambda>(v, r1). ret (Some v, r1))
          else ret (None, r)) (\<lambda>(v, r1). bnd (gets y_fs) (\<lambda>fs.
     case classify (seen_state r) v (main_present fs s arts) (a_exit r) of
       None \<Rightarrow> settle_ok W R r1 s
     | Some cls \<Rightarrow> retry_or_park W R again track r1 s cls v))) (\<lambda>_. sound specs n) k"
      by (simp only: next_one_def)
  qed
qed

lemma keeps_finalize: "closing r s \<Longrightarrow> keeps (sound specs n) (finalize m W R track r s)"
proof (induction m arbitrary: r s track)
  case 0
  then show ?case by (auto intro: kit_keeps)
next
  case (Suc m)
  then show ?case by (auto intro!: keeps_finalize_with wp_launch_step)
qed

lemma wp_launch:
  assumes "sound specs n k" and "step_due specs (rows_of k) (p_id s)"
  shows "wp (runner_launch m W R s) (\<lambda>_. sound specs n) k"
  unfolding runner_launch_def by (rule wp_launch_step [OF assms]) (rule keeps_finalize)

subsection \<open>The tick\<close>

lemma find_Some: "find P xs = Some x \<Longrightarrow> x \<in> set xs \<and> P x"
  by (induction xs) (auto split: if_splits)

lemma spec_by_id: "spec_by_id specs i = Some s \<Longrightarrow> s \<in> set specs \<and> p_id s = i"
  by (auto simp: spec_by_id_def dest: find_Some)

lemma keeps_record_only:
  assumes "a_schema r = schema" and "submit_wf r" and "a_failure r = None" and "ended r"
  shows "keeps (sound specs n) (record_only W r)"
proof -
  have "attempt_wf (trivially_ok ts r)" for ts
    using assms by (simp add: trivially_ok_def attempt_wf_def submit_wf_def ended_def seen_state_def verdict_ok_def)
  then show ?thesis unfolding record_only_def by (intro kit_keeps keeps_save)
qed

lemma keeps_finish_crashed:
  assumes "attempt_wf r" and "r \<in> set (unfinalized rs)"
  shows "keeps (sound specs n) (finish_crashed m W R r)"
proof -
  have r: "a_schema r = schema" "submit_wf r" "a_failure r = None" "a_verdict r = None" "ended r"
    using assms by (auto simp: attempt_wf_def unfinalized_def ended_def)
  then have "closing r s" if "spec_by_id (rn_specs R) (a_step r) = Some s" for s
    using spec_by_id [OF that] by (simp add: closing_def)
  then show ?thesis
    unfolding finish_crashed_def by (intro kit_keeps keeps_finalize keeps_record_only r)
qed

lemma keeps_observe_one:
  assumes "attempt_wf r" and "r \<in> set (in_flight rs)"
  shows "keeps (sound specs n) (observe_one m W R states r)"
proof -
  have r: "a_schema r = schema" "submit_wf r" "\<not> ended r" "a_verdict r = None"
    and st: "status_of r = Some ''submitted'' \<or> status_of r = Some ''adopted''"
    using assms by (auto simp: attempt_wf_def in_flight_def ended_def)
  then have f: "a_failure r = None"
    using assms(1) by (cases "a_failure r") (auto simp: attempt_wf_def failure_wf_def)
  have seen: "attempt_wf (r\<lparr>a_observed := ob\<rparr>)" for ob
    using r f by (simp add: attempt_wf_def submit_wf_def)
  have cl: "closing (r\<lparr>a_observed := Some \<lparr>ob_state = st, ob_ts = t1, ob_end = t2\<rparr>\<rparr>) s"
    if "slurm_job_terminal st" "p_id s = a_step r" for st t1 t2 s
    using that r f by (simp add: closing_def submit_wf_def ended_def seen_state_def)
  have rec: "keeps (sound specs n) (record_only W (r\<lparr>a_observed := Some \<lparr>ob_state = st, ob_ts = t1, ob_end = t2\<rparr>\<rparr>))"
    if "slurm_job_terminal st" for st t1 t2
    by (rule keeps_record_only) (use that r f in \<open>simp_all add: submit_wf_def ended_def seen_state_def\<close>)
  show ?thesis
    unfolding observe_one_def Let_def
    by (intro kit_keeps keeps_save seen rec keeps_finalize cl) (auto dest: spec_by_id)
qed

lemma keeps_observe_and_finalize: "keeps (sound specs n) (observe_and_finalize m W R)"
  unfolding observe_and_finalize_def Let_def case_prod_unfold
  by (rule keeps_listing, rule keeps_seq, rule keeps_for_each, rule keeps_finish_crashed)
    (auto simp: list_all_iff unfinalized_def intro!: keeps_listing kit_keeps, auto simp: in_flight_def intro!: keeps_observe_one)

lemma keeps_launch_ready: "keeps (sound (rn_specs R) n) (launch_ready m i W R)"
proof (induction i)
  case (Suc i)
  show ?case
  proof (rule keepsI)
    fix k assume k: "sound (rn_specs R) n k"
    let ?k = "k\<lparr>y_ledger := snd (ledger_all (y_ledger k))\<rparr>"
    have k': "sound (rn_specs R) n ?k" "rows_of ?k = rows_of k" "fst (ledger_all (y_ledger k)) = rows_of k"
      using sound_listed [OF k] by simp_all
    have "wp (runner_launch m W R s) (\<lambda>r s'. (\<forall>e. r = Inl e \<longrightarrow> sound (rn_specs R) n s') \<and> (\<forall>x. r = Inr x \<longrightarrow>
        wp (launch_ready m i W R) (\<lambda>_. sound (rn_specs R) n) (s'\<lparr>y_submitted := y_submitted s' @ [p_id s]\<rparr>))) ?k"
      if "pending_ready R (rows_of k) tried = s # ss" for s ss tried
    proof (rule wp_mono [OF wp_launch [OF k'(1)]])
      show "step_due (rn_specs R) (rows_of ?k) (p_id s)"
        using that k'(2) by (auto simp: pending_ready_def ready_def step_due_def filter_eq_Cons_iff)
    qed (auto intro!: keeps_wp [OF Suc.IH])
    then show "wp (launch_ready m (Suc i) W R) (\<lambda>_. sound (rn_specs R) n) k"
      using k' by (auto simp: wp_rules split: list.split)
  qed
qed (auto intro: kit_keeps)

lemma keeps_one_barrier:
  assumes "gm \<in> set (groups (rn_specs R))"
  shows "keeps (sound (rn_specs R) n) (one_barrier W R gm)"
proof (rule keepsI)
  fix k assume k: "sound (rn_specs R) n k"
  obtain g ms where gm: "gm = (g, ms)" by (cases gm)
  let ?k = "k\<lparr>y_ledger := snd (ledger_all (y_ledger k))\<rparr>"
  have k': "sound (rn_specs R) n ?k" "rows_of ?k = rows_of k" "fst (ledger_all (y_ledger k)) = rows_of k"
    using sound_listed [OF k] by simp_all
  have "wp (submit_barrier W R g jobs) (\<lambda>_. sound (rn_specs R) n) k1"
    if k1: "sound (rn_specs R) n k1" and due: "barrier_due (rn_specs R) (rows_of k1) (barrier_step g)" for k1 jobs
  proof -
    let ?k1 = "k1\<lparr>y_ledger := snd (ledger_all (y_ledger k1)), y_n := Suc (Suc (y_n k1))\<rparr>"
    have k1': "sound (rn_specs R) n ?k1" "rows_of ?k1 = rows_of k1" using sound_listed [OF k1] by simp_all
    have sub: "wp (submit W (ledger_new rs (barrier_step g) t l s aid c) argv cwd) (\<lambda>res k'. sound (rn_specs R) n k' \<and>
      (\<forall>r1. res = Inr r1 \<longrightarrow> attempt_wf r1 \<and> fresh_record r1 \<and> a_step r1 = a_step (ledger_new rs (barrier_step g) t l s aid c) \<and>
         a_id r1 = a_id (ledger_new rs (barrier_step g) t l s aid c))) ?k1" for rs t l s aid c argv cwd
      by (rule wp_submit_sound [OF k1'(1)]) (use due k1'(2) new_fresh in \<open>simp_all add: step_due_def\<close>)
    show ?thesis
      unfolding submit_barrier_def wp_bnd wp_listing wp_kit_uuid wp_utc_now
      by (auto simp: wp_rules intro!: wp_mono [OF sub])
  qed
  moreover have "barrier_due (rn_specs R) (rows_of ?k) (barrier_step g)"
    if "wants_barrier (rn_specs R) ms" "barrier_jobs (rows_of k) ms = Inr jobs" "jobs \<noteq> []" "\<not> barrier_flying (rows_of k) g" for jobs
    unfolding barrier_due_def k'(2) using that assms gm by blast
  ultimately show "wp (one_barrier W R gm) (\<lambda>_. sound (rn_specs R) n) k"
    unfolding one_barrier_def gm using k k' by (auto simp: wp_rules)
qed

lemma keeps_barriers: "keeps (sound (rn_specs R) n) (barriers W R)"
  unfolding barriers_def by (intro keeps_for_each keeps_one_barrier)

lemma keeps_write_checkpoint: "keeps (sound specs n) (write_checkpoint W R st w pk)"
  unfolding write_checkpoint_def by (intro kit_keeps keeps_bnd [OF keeps_asks] keeps_listing)

lemma keeps_report_tick: "keeps (sound specs n) (report_tick W R cp)"
  unfolding report_tick_def Let_def
  by (intro kit_keeps keeps_bnd [OF keeps_asks] keeps_listing keeps_bnd [OF keeps_if] keeps_bnd [OF keeps_write_checkpoint] keeps_bnd [OF keeps_option])

lemma keeps_tick: "keeps (sound (rn_specs R) n) (tick m W R cp)"
  unfolding tick_def tick_work_def
  by (intro kit_keeps keeps_reconcile_first keeps_observe_and_finalize keeps_launch_ready keeps_barriers keeps_report_tick)

subsection \<open>Everything a worker can come to\<close>

text \<open>\<open>Ledger.release\<close> with its save.\<close>

definition release_step :: "tools \<Rightarrow> string \<Rightarrow> string \<Rightarrow> (kit, attempt) cmd" where
  "release_step W st ruling =
     bnd listing (\<lambda>rs. bnd (utc_now W) (\<lambda>ts. bnd (pure (release ts rs st ruling)) (save W)))"

text \<open>The states of a workspace: an empty ledger, then ticks of any runner, adoptions and releases in any
  order, whatever they answer or raise, while the files, the clock and the scheduler do what they
  like and the process that remembers the listing comes and goes.\<close>

inductive worker_state :: "kit \<Rightarrow> bool" where
  empty: "g_files (y_ledger k) = fmempty \<Longrightarrow> g_memo (y_ledger k) = None \<Longrightarrow> worker_state k"
| world: "worker_state k \<Longrightarrow> worker_state (k\<lparr>y_fs := fs, y_cache := c, y_n := n\<rparr>)"
| restart: "worker_state k \<Longrightarrow> worker_state (k\<lparr>y_ledger := invalidate (y_ledger k)\<rparr>)"
| ticked: "worker_state k \<Longrightarrow> tick m W R cp k = (r, k') \<Longrightarrow> worker_state k'"
| adopted: "worker_state k \<Longrightarrow> adopt W task site step job ins used cls k = (a, k') \<Longrightarrow> worker_state k'"
| released: "worker_state k \<Longrightarrow> release_step W st ruling k = (a, k') \<Longrightarrow> worker_state k'"

lemma keeps_adopt: "keeps (sound specs n) (adopt W task site step job ins used cls)"
proof -
  have wf: "attempt_wf ((ledger_new rs step task None site aid created)
       \<lparr>a_submit := Some \<lparr>s_intent = ts, s_argv = [], s_cwd = None, s_job = Some job, s_status = ''adopted'', s_error = None\<rparr>,
        a_wait := w, a_inputs := i, a_budget := b\<rparr>)" for rs aid created ts w i b
    by (simp add: attempt_wf_def submit_wf_def ledger_new_def new_record_def)
  show ?thesis unfolding adopt_def by (intro kit_keeps keeps_listing keeps_save1 wf)
qed

lemma keeps_release: "keeps (sound specs n) (release_step W st ruling)"
proof -
  have wf: "attempt_wf r'" if rs: "list_all attempt_wf rs" and rel: "release ts rs st ruling = Inr r'" for rs ts r'
  proof -
    from rel obtain r f where r: "latest rs st = Some r" "a_failure r = Some f" "fl_parked f"
      and r': "r' = r\<lparr>a_failure := Some (f\<lparr>fl_parked := False, fl_released := Some (ts, strip ruling)\<rparr>)\<rparr>"
      by (auto simp: release_def split: option.splits if_splits)
    have "r \<in> set (by_step rs st)" using r(1) last_in_set by (auto simp: latest_def split: list.splits)
    then have wf: "attempt_wf r" using rs by (auto simp: by_step_def list_all_iff)
    then have f: "failure_wf r f" using r(2) by (simp add: attempt_wf_def)
    have "failure_wf r' (f\<lparr>fl_parked := False, fl_released := Some (ts, strip ruling)\<rparr>)"
      using f r(3) unfolding r' by (auto simp: failure_wf_def status_of_def ended_def seen_state_def verdict_ok_def)
    then show ?thesis using wf unfolding r'
      by (simp add: attempt_wf_def submit_wf_def ended_def seen_state_def verdict_ok_def)
  qed
  show ?thesis unfolding release_step_def
    by (intro keeps_listing kit_keeps keeps_bnd_pure keeps_save1 wf)
qed

lemma worker_state_sound: "worker_state k \<Longrightarrow> files_wf (g_files (y_ledger k)) \<and> coherent (y_ledger k)"
proof (induction rule: worker_state.induct)
  case (empty k)
  then show ?case by (simp add: files_wf_def coherent_def)
next
  case (world k fs c n)
  then show ?case by simp
next
  case (restart k)
  then show ?case by (simp add: invalidate_def coherent_def)
next
  case (ticked k m W R r k')
  then have "sound (rn_specs R) (y_calls k) k" by (simp add: sound_def)
  from keepsD [OF keeps_tick ticked.hyps(2) this] show ?case by (simp add: sound_def)
next
  case (adopted k W task site step job ins used cls a k')
  then have "sound [] (y_calls k) k" by (simp add: sound_def)
  from keepsD [OF keeps_adopt adopted.hyps(2) this] show ?case by (simp add: sound_def)
next
  case (released k W st ruling a k')
  then have "sound [] (y_calls k) k" by (simp add: sound_def)
  from keepsD [OF keeps_release released.hyps(2) this] show ?case by (simp add: sound_def)
qed

lemma worker_sound: "worker_state k \<Longrightarrow> sound specs (y_calls k) k"
  using worker_state_sound by (simp add: sound_def)

text \<open>C32: every attempt record of a ledger is well formed, whatever ticks, adoptions and releases led to it
  and wherever they raised. It lies in the file of its id; it has a job id exactly in the states
  submitted and adopted; a verdict is only given after the job ended, and a bad one comes with a
  failure; a failure has a known class, is either an automatic retry within the budget of its
  class, or parked until it is released, under a ruling named after this attempt; and a good
  verdict goes with a failure only in the class code.\<close>

theorem records_well_formed:
  assumes "worker_state k" and "fmlookup (g_files (y_ledger k)) i = Some r"
  shows "a_id r = i \<and> attempt_wf r"
  using worker_state_sound [OF assms(1)] assms(2) by (simp add: files_wf_def)

text \<open>C31: nothing is handed to sbatch without a ground. For every call a tick makes, whatever the tick
  answers, the ledger on disk already holds the intent of that attempt, and without it, it says
  that the step was ready, or that an attempt of it had failed within its budget and is marked
  as retried, or that the call is the barrier of a group all of whose members have live jobs.\<close>

theorem submissions_grounded:
  assumes "worker_state k" and "tick m W R cp k = (r, k')"
  shows "\<exists>new. y_calls k' = y_calls k @ new \<and> list_all (grounded (rn_specs R)) new"
  using keepsD [OF keeps_tick assms(2) worker_sound [OF assms(1)]] by (simp add: sound_def)

subsection \<open>The loop of launches\<close>

text \<open>Launching does not touch the tick's list of submissions.\<close>

abbreviation noted :: "string list \<Rightarrow> kit \<Rightarrow> bool" where
  "noted xs k \<equiv> y_submitted k = xs"

lemma noted_basic:
  "keeps (noted xs) listing" "keeps (noted xs) (save W r)" "keeps (noted xs) tick_n" "keeps (noted xs) (utc_now W)"
  "keeps (noted xs) (kit_uuid W)" "keeps (noted xs) (note_action a)" "keeps (noted xs) (write_text p c)" "keeps (noted xs) (on_fs g)"
  "keeps (noted xs) (modify (\<lambda>k. k\<lparr>y_fs := h k\<rparr>))" "keeps (noted xs) (modify (\<lambda>k. k\<lparr>y_fs := h k, y_n := m k\<rparr>))"
  "keeps (noted xs) (call_sbatch W argv)"
  by (auto intro!: keepsI simp: wp_rules on_fs_def write_text_def Let_def)

lemmas noted_rules = keeps_ret keeps_throw keeps_pure keeps_gets keeps_asks keeps_guard keeps_seq keeps_bnd keeps_if
  keeps_option keeps_sum noted_basic

lemma noted_write_evidence: "keeps (noted xs) (write_evidence W R r cls v rul msg)"
  unfolding write_evidence_def write_failure_def by (intro noted_rules)

lemma noted_submit: "keeps (noted xs) (submit W r argv cwd)"
  unfolding submit_def by (intro noted_rules) (auto simp: submit_outcome_def intro!: noted_rules split: proc.split)

lemma noted_launch_step:
  assumes "\<And>r. keeps (noted xs) (fin r s)"
  shows "keeps (noted xs) (launch_step W R fin s)"
  unfolding launch_step_def submit_sbatch_def submit_result_def run_local_def case_prod_unfold
  by (intro noted_rules noted_submit noted_write_evidence assms)

lemma noted_publish_all: "keeps (noted xs) (publish_all R r dir names)"
proof (induction names)
  case (Cons name names)
  have "keeps (noted xs) (publish_one R r dir name)"
    unfolding publish_one_def Let_def replace_dir_at_def case_prod_unfold
    by (auto intro!: noted_rules split: option.split prod.split)
  with Cons show ?case by (auto intro!: noted_rules)
qed (auto intro: noted_rules)

lemma noted_finalize_with:
  assumes "keeps (noted xs) (again s)"
  shows "keeps (noted xs) (finalize_with W R again False r s)"
proof -
  have "keeps (noted xs) (settle_ok W R r s)" for r
    unfolding settle_ok_def publish_outputs_def by (auto intro!: noted_rules noted_publish_all split: option.split)
  moreover have "keeps (noted xs) (retry_or_park W R again False r s cls v)" for r cls v
    unfolding retry_or_park_def resubmit_def Let_def by (auto intro!: noted_rules noted_write_evidence assms)
  moreover have "keeps (noted xs) (verify_attempt W R r s)"
    unfolding verify_attempt_def Let_def case_prod_unfold by (intro noted_rules)
  ultimately show ?thesis unfolding finalize_with_def case_prod_unfold by (intro noted_rules)
qed

lemma noted_finalize: "keeps (noted xs) (finalize m W R False r s)"
  by (induction m arbitrary: r s) (auto intro!: noted_rules noted_finalize_with noted_launch_step)

lemma noted_launch: "keeps (noted xs) (runner_launch m W R s)"
  unfolding runner_launch_def by (intro noted_launch_step noted_finalize)

lemma pending_untried: "pending_ready R rs tried = s # ss \<Longrightarrow> p_id s \<in> p_id ` set (rn_specs R) - set tried"
  by (auto simp: pending_ready_def ready_def filter_eq_Cons_iff)

lemma launch_ready_complete:
  assumes "sound (rn_specs R) n k" and "launch_ready m i W R k = (Inr (), k')"
    and "card (p_id ` set (rn_specs R) - set (y_submitted k)) < i"
  shows "\<exists>new. y_submitted k' = y_submitted k @ new \<and> distinct new \<and>
    set new \<subseteq> p_id ` set (rn_specs R) - set (y_submitted k) \<and> pending_ready R (rows_of k') (y_submitted k') = []"
  using assms
proof (induction i arbitrary: k)
  case (Suc i)
  let ?k = "k\<lparr>y_ledger := snd (ledger_all (y_ledger k))\<rparr>" and ?ids = "p_id ` set (rn_specs R)"
  have k1: "sound (rn_specs R) n ?k" "rows_of ?k = rows_of k" "fst (ledger_all (y_ledger k)) = rows_of k"
    using sound_listed [OF Suc.prems(1)] by simp_all
  have list: "listing k = (Inr (rows_of k), ?k)"
    using k1(3) by (simp add: listing_def cmd_defs case_prod_unfold)
  show ?case
  proof (cases "pending_ready R (rows_of k) (y_submitted k)")
    case Nil
    then have "k' = ?k" using Suc.prems(2) by (simp add: run_Inr list)
    then show ?thesis using Nil k1(2) by simp
  next
    case (Cons s ss)
    note s = pending_untried [OF Cons]
    from Suc.prems(2) Cons obtain ok k2 where l: "runner_launch m W R s ?k = (Inr ok, k2)"
      and rest: "launch_ready m i W R (k2\<lparr>y_submitted := y_submitted k2 @ [p_id s]\<rparr>) = (Inr (), k')"
      by (auto simp: run_Inr list)
    have sub: "y_submitted k2 = y_submitted k" using keepsD [OF noted_launch l, of "y_submitted k"] by simp
    have "step_due (rn_specs R) (rows_of ?k) (p_id s)"
      using Cons k1(2) by (auto simp: pending_ready_def ready_def step_due_def filter_eq_Cons_iff)
    then have s2: "sound (rn_specs R) n (k2\<lparr>y_submitted := y_submitted k2 @ [p_id s]\<rparr>)"
      using wpD [OF wp_launch [OF k1(1)] l] by simp
    have less: "card (?ids - set (y_submitted k @ [p_id s])) < i"
    proof -
      have "?ids - set (y_submitted k @ [p_id s]) = (?ids - set (y_submitted k)) - {p_id s}" by auto
      then have "Suc (card (?ids - set (y_submitted k @ [p_id s]))) = card (?ids - set (y_submitted k))"
        using card_Suc_Diff1 [OF _ s] by simp
      then show ?thesis using Suc.prems(3) by simp
    qed
    obtain new where new: "y_submitted k' = (y_submitted k @ [p_id s]) @ new" "distinct new"
      "set new \<subseteq> ?ids - set (y_submitted k @ [p_id s])" "pending_ready R (rows_of k') (y_submitted k') = []"
      using Suc.IH [OF s2 rest] less sub by auto
    then show ?thesis using s by (intro exI [of _ "p_id s # new"]) auto
  qed
qed simp

text \<open>The loop of launches is complete. When it ends without raising, every step that is ready then was
  tried in this tick, each step was launched by it at most once, and its bound of twice the
  number of steps plus one was never what ended it.\<close>

theorem launches_complete:
  assumes "worker_state k" and "launch_ready m (2 * length (rn_specs R) + 1) W R k = (Inr (), k')"
  shows "\<exists>new. y_submitted k' = y_submitted k @ new \<and> distinct new \<and>
    set new \<subseteq> p_id ` set (rn_specs R) - set (y_submitted k) \<and>
    (\<forall>s\<in>set (ready (rn_specs R) (rows_of k')). p_id s \<in> set (y_submitted k'))"
proof -
  have "card (p_id ` set (rn_specs R) - set (y_submitted k)) \<le> card (set (rn_specs R))"
    by (meson card_Diff_subset_Int card_image_le card_mono finite_Diff finite_imageI finite_set Diff_subset le_trans)
  also have "\<dots> \<le> length (rn_specs R)" by (rule card_length)
  finally have "card (p_id ` set (rn_specs R) - set (y_submitted k)) < 2 * length (rn_specs R) + 1" by simp
  from launch_ready_complete [OF worker_sound [OF assms(1)] assms(2) this]
  show ?thesis by (auto simp: pending_ready_def filter_empty_conv)
qed

subsection \<open>What a tick reports\<close>

lemma rulings_wf:
  assumes "list_all attempt_wf rs"
  shows "\<forall>w\<in>set (rulings rs). \<exists>t cls st i. w = ruling_name t cls st i" and "rulings rs = [] \<longleftrightarrow> parked rs = []"
proof -
  have rul: "\<exists>t f. a_failure r = Some f \<and> fl_ruling f = Some (ruling_name t (fl_class f) (a_step r) (a_id r))"
    if r: "r \<in> set (parked rs)" for r
  proof -
    obtain f where f: "a_failure r = Some f" "fl_parked f" "attempt_wf r"
      using r assms by (auto simp: parked_def is_parked_def list_all_iff split: option.splits)
    then have "failure_wf r f" by (simp add: attempt_wf_def)
    then show ?thesis using f by (auto simp: failure_wf_def split: if_splits)
  qed
  have nonempty: "ruling_name t c st i \<noteq> []" for t c st i by (simp add: ruling_name_def)
  have hit: "\<exists>t cls st i. (case a_failure r of Some f \<Rightarrow> given (fl_ruling f) | None \<Rightarrow> None) = Some (ruling_name t cls st i)"
    if "r \<in> set (parked rs)" for r
  proof -
    from rul [OF that] obtain t f where f: "a_failure r = Some f"
      "fl_ruling f = Some (ruling_name t (fl_class f) (a_step r) (a_id r))" by blast
    then have "given (fl_ruling f) = Some (ruling_name t (fl_class f) (a_step r) (a_id r))"
      using nonempty by (simp add: given_def)
    then show ?thesis using f(1) by auto
  qed
  show "\<forall>w\<in>set (rulings rs). \<exists>t cls st i. w = ruling_name t cls st i"
    using hit by (fastforce simp: rulings_def List.map_filter_def)
  show "rulings rs = [] \<longleftrightarrow> parked rs = []"
    using hit by (fastforce simp: rulings_def List.map_filter_def filter_empty_conv dest: last_in_set)
qed

lemma flying_job: "r \<in> set (in_flight rs) \<Longrightarrow> job_of r = Some (or_else (job_of r) [])"
  by (auto simp: in_flight_def or_else_def given_def job_of_def split: option.splits if_splits)

lemma decide_wait_sound:
  assumes "list_all attempt_wf rs" and "decide_wait R rs = Inr w"
  shows "(w = None \<longleftrightarrow> in_flight rs = [] \<and> unverified_intents rs = [] \<and> parked rs = [] \<and> all_steps_ok (rn_specs R) rs) \<and>
    (\<forall>x. w = Some x \<longrightarrow> (\<exists>r\<in>set (in_flight rs). x = job_ref r) \<or> in_flight rs = [] \<and> (\<exists>t cls st i. x = ruling_name t cls st i))"
proof (cases "in_flight rs")
  case Nil
  then show ?thesis using assms(2) rulings_wf [OF assms(1)]
    by (auto simp: decide_wait_def split: list.splits if_splits)
next
  case (Cons f fs)
  show ?thesis
  proof (cases "filter is_barrier (in_flight rs)")
    case Nil
    then obtain x where x: "w = Some x"
      "wait_reference (List.map_filter job_of (in_flight rs)) (fmempty :: (string, string) fmap) None = Inr x"
      using assms(2) Cons by (auto simp: decide_wait_def rbind_Inr_iff)
    then obtain j where j: "x = ''job:'' @ j" "j \<in> set (List.map_filter job_of (in_flight rs))"
      using wait_reference_job by blast
    then obtain r where "r \<in> set (in_flight rs)" "job_of r = Some j" by (auto simp: List.map_filter_def)
    then have "\<exists>r\<in>set (in_flight rs). x = job_ref r"
      using flying_job j(1) by (metis job_ref_def option.inject)
    then show ?thesis using x(1) Cons by simp
  next
    case (Cons b bs)
    then have "b \<in> set (in_flight rs)" by (auto simp: filter_eq_Cons_iff)
    moreover have "w = Some (job_ref b)" using assms(2) Cons \<open>in_flight rs = f # fs\<close> by (simp add: decide_wait_def)
    ultimately show ?thesis using \<open>in_flight rs = f # fs\<close> by auto
  qed
qed

text \<open>The checkpoint, when one is asked for, is written before the report and leaves the ledger alone.\<close>

definition reports :: "runner \<Rightarrow> kit \<Rightarrow> bool \<Rightarrow> tick_result \<Rightarrow> kit \<Rightarrow> bool" where
  "reports R k cp t k' \<longleftrightarrow> decide_wait R (rows_of k) = Inr (k_waiting t) \<and> rows_of k' = rows_of k \<and> k_parked t = rulings (rows_of k) \<and>
     k_status t = (if k_waiting t = None then ''SUBMITTED'' else ''AWAITING'') \<and>
     k_note t = tick_note R (rows_of k) (k_status t) (k_submitted t) (k_parked t) \<and>
     k_checkpoint t = (if cp then Some (path_str (checkpoint_file R)) else None) \<and>
     (if cp then \<exists>q. resolved_str (y_fs k') (checkpoint_file R) = Inr q \<and>
        k_command t = receipt_command (rn_helper R) (k_status t) (k_waiting t) (k_note t) (Some q)
      else k_command t = receipt_command (rn_helper R) (k_status t) (k_waiting t) (k_note t) None)"

lemma write_checkpoint_rows:
  assumes "coherent (y_ledger k)"
  shows "wp (write_checkpoint W R st w pk) (\<lambda>r k'. rows_of k' = rows_of k \<and> (\<forall>p. r = Inr p \<longrightarrow> p = checkpoint_file R)) k"
  using ledger_all_coherent [OF assms]
  by (auto simp: write_checkpoint_def write_text_def on_fs_def utc_now_def tick_n_def wp_rules)

lemma report_tick_Inr:
  assumes "coherent (y_ledger k)" and "report_tick W R cp k = (Inr t, k')"
  shows "reports R k cp t k'"
proof -
  let ?u = "k\<lparr>y_ledger := snd (ledger_all (y_ledger k))\<rparr>"
  note c = ledger_all_coherent [OF assms(1)]
  then have u: "coherent (y_ledger ?u)" "rows_of ?u = rows_of k" by simp_all
  have l: "listing k = (Inr (rows_of k), ?u)"
    using c by (simp add: listing_def cmd_defs case_prod_unfold)
  obtain w cp' k1 full where w: "decide_wait R (rows_of k) = Inr w"
    and wr: "(if cp then bnd (write_checkpoint W R (if w = None then ''SUBMITTED'' else ''AWAITING'') w (rulings (rows_of k)))
        (\<lambda>p. ret (Some p)) else ret None) ?u = (Inr cp', k1)"
    and full: "(case cp' of None \<Rightarrow> ret None
        | Some p \<Rightarrow> bnd (asks (\<lambda>k. resolved_str (y_fs k) p)) (\<lambda>q. ret (Some q))) k1 = (Inr full, k')"
    and t: "k_waiting t = w" "k_status t = (if w = None then ''SUBMITTED'' else ''AWAITING'')" "k_parked t = rulings (rows_of k)"
      "k_note t = tick_note R (rows_of k) (k_status t) (k_submitted t) (k_parked t)" "k_checkpoint t = map_option path_str cp'"
      "k_command t = receipt_command (rn_helper R) (k_status t) (k_waiting t) (k_note t) full"
    using assms(2) unfolding report_tick_def Let_def bnd_run_Inr basic_run_Inr l
    by (elim exE conjE) (simp only: prod.inject sum.inject, elim conjE, force)
  show ?thesis
  proof (cases cp)
    case False
    then have "cp' = None" "k1 = ?u" using wr by (simp_all add: ret_def)
    then have "full = None" "k' = ?u" using full by (simp_all add: ret_def)
    then show ?thesis using w t False \<open>cp' = None\<close> u(2) by (simp add: reports_def)
  next
    case True
    then obtain p where p: "write_checkpoint W R (if w = None then ''SUBMITTED'' else ''AWAITING'') w (rulings (rows_of k)) ?u = (Inr p, k1)"
      "cp' = Some p"
      using wr by (auto simp: bnd_run_Inr basic_run_Inr)
    from wpD [OF write_checkpoint_rows [OF u(1)] p(1)] u(2) have r: "rows_of k1 = rows_of k" "p = checkpoint_file R" by simp_all
    from full p(2) r(2) obtain q where "resolved_str (y_fs k1) (checkpoint_file R) = Inr q" "full = Some q" "k' = k1"
      by (auto simp: bnd_run_Inr basic_run_Inr)
    then show ?thesis using w t True p(2) r by (auto simp: reports_def)
  qed
qed

lemma tick_reports:
  assumes "worker_state k" and "tick m W R cp k = (Inr t, k')"
  obtains k1 where "reports R k1 cp t k'" "list_all attempt_wf (rows_of k1)"
proof -
  have k: "sound (rn_specs R) (y_calls k) (k\<lparr>y_actions := [], y_submitted := []\<rparr>)"
    using worker_sound [OF assms(1)] by simp
  from assms(2) obtain k1 where work: "tick_work m W R (k\<lparr>y_actions := [], y_submitted := []\<rparr>) = (Inr (), k1)"
    and rep: "report_tick W R cp k1 = (Inr t, k')"
    by (auto simp: tick_def run_Inr)
  have "keeps (sound (rn_specs R) (y_calls k)) (tick_work m W R)"
    unfolding tick_work_def by (intro keeps_seq keeps_reconcile_first keeps_observe_and_finalize keeps_launch_ready keeps_barriers)
  from keepsD [OF this work k] have "coherent (y_ledger k1)" "list_all attempt_wf (rows_of k1)"
    using rows_wf by (auto simp: sound_def list_all_iff)
  then show thesis using that report_tick_Inr [OF _ rep] by blast
qed

text \<open>What a worker is told to report. SUBMITTED is reported exactly when every step of the table is
  verified and the ledger shows nothing in flight, no submission of unknown outcome and nothing
  parked; otherwise the worker is told to wait for a job that is in flight or, when none is, for
  a ruling, and the runtime accepts that reference if the job ids in the ledger are well formed.\<close>

theorem tick_report_sound:
  assumes "worker_state k" and "tick m W R cp k = (Inr t, k')"
    and "\<forall>r\<in>set (in_flight (rows_of k')). fullmatch job_id_rx (or_else (job_of r) [])"
  shows "(k_status t = ''SUBMITTED'' \<longleftrightarrow> all_steps_ok (rn_specs R) (rows_of k') \<and> in_flight (rows_of k') = [] \<and>
      unverified_intents (rows_of k') = [] \<and> parked (rows_of k') = []) \<and>
    (k_status t \<noteq> ''SUBMITTED'' \<longrightarrow> k_status t = ''AWAITING'' \<and>
      (\<exists>x. k_waiting t = Some x \<and> waiting_on_error (JStr x) = None \<and>
        ((\<exists>r\<in>set (in_flight (rows_of k')). x = job_ref r) \<or>
         in_flight (rows_of k') = [] \<and> (\<exists>t cls st i. x = ruling_name t cls st i))))"
proof -
  obtain k1 where rep: "reports R k1 cp t k'" and k1: "list_all attempt_wf (rows_of k1)"
    by (rule tick_reports [OF assms(1,2)])
  note r = rep [unfolded reports_def]
  from decide_wait_sound [OF k1, of R] r
  have d: "k_waiting t = None \<longleftrightarrow> in_flight (rows_of k') = [] \<and> unverified_intents (rows_of k') = [] \<and>
      parked (rows_of k') = [] \<and> all_steps_ok (rn_specs R) (rows_of k')"
    "\<And>x. k_waiting t = Some x \<Longrightarrow> (\<exists>r\<in>set (in_flight (rows_of k')). x = job_ref r) \<or>
       in_flight (rows_of k') = [] \<and> (\<exists>t cls st i. x = ruling_name t cls st i)"
    by auto
  show ?thesis
  proof (cases "k_waiting t")
    case None
    then show ?thesis using r d(1) by auto
  next
    case (Some x)
    then have st: "k_status t = ''AWAITING''" using r by simp
    have "waiting_on_error (JStr x) = None"
      using d(2) [OF Some] assms(3) job_wait_accepted(1) ruling_accepted(1) by (auto simp: job_ref_def)
    then show ?thesis using st d Some by auto
  qed
qed

subsection \<open>Where the runner falls short\<close>

text \<open>A local step that declares no outputs can never succeed: whatever its verification says, it is
  classed as a code failure, although its verdict counts the step as verified.\<close>

lemma no_outputs_never_ok:
  assumes "p_outputs s = []"
  shows "classify st v (main_present fs s arts) x \<noteq> None"
  using assms by (auto simp: classify_def main_present_def main_output_def given_def Let_def split: if_splits)

text \<open>A preempted job is neither terminal nor a reason to retry: it stays in flight for good.\<close>

lemma preempted_stays_in_flight:
  assumes "status_of r = Some ''submitted''" and "job_of r \<noteq> None" and "seen_state r = Some ''PREEMPTED''" and "r \<in> set rs"
  shows "r \<in> set (in_flight rs) \<and> r \<notin> set (unfinalized rs) \<and> ''PREEMPTED'' \<in> set infra_states"
proof -
  have "\<not> slurm_job_terminal (Some ''PREEMPTED'')" by code_simp
  then show ?thesis using assms by (simp add: in_flight_def unfinalized_def infra_states_def)
qed

end
