(* ===== verification/Process.thy ===== *)
theory Process
  imports Deployment Slurm Verify
begin

text \<open>
  Process identities: \<open>procutil.py\<close> (host identity, pid files, \<open>/proc\<close> records) and
  \<open>_daemon_pid\<close>, \<open>_process_alive\<close> and \<open>daemon_alive\<close> of \<open>lifecycle.py\<close>. The machine is a
  parameter: its host name, boot id and pid namespace, and what \<open>read_text\<close> gives for a path.
  One judgement sees one state of the machine.
\<close>

datatype 'a seen = Seen 'a | Gone | Denied | Failed | Undecodable

record machine =
  h_name :: string
  h_boot :: "string option"
  h_ns :: "string option"
  h_read :: "string \<Rightarrow> string seen"

text \<open>\<open>h_boot\<close> is the text of \<open>boot_id\<close> and \<open>h_ns\<close> the link \<open>/proc/self/ns/pid\<close>, \<open>None\<close> when unreadable.\<close>

definition host_identity :: "machine \<Rightarrow> dict" where
  "host_identity M = obj [(''host'', JStr (h_name M)),
     (''boot_id'', case h_boot M of None \<Rightarrow> JNull | Some b \<Rightarrow> (if strip b = [] then JNull else JStr (strip b))),
     (''pid_namespace'', jopt (h_ns M))]"

subsection \<open>Numbers in texts\<close>

text \<open>\<open>int(s)\<close> of a string: surrounding white space, a sign, digits with single underscores between
  them, at most 4300 digits.\<close>

definition int_rx :: rx where
  "int_rx = Seq (Opt (Cls (\<lambda>c. c = CHR ''+'' \<or> c = CHR ''-'')))
     (Seq (Plus (Cls is_digit)) (Star (Seq (lit ''_'') (Plus (Cls is_digit)))))"

definition int_literal :: "string \<Rightarrow> int res" where
  "int_literal s = (let t = strip s; ds = filter is_digit t; n = int (digits_nat ds) in
     if fullmatch int_rx t \<and> length ds \<le> 4300 then Inr (if hd t = CHR ''-'' then - n else n)
     else Inl (ValueError ''invalid literal for int()''))"

text \<open>\<open>int(x)\<close> of a JSON value.\<close>

fun int_value :: "json \<Rightarrow> int res" where
  "int_value (JInt i) = Inr i"
| "int_value (JBool b) = Inr (if b then 1 else 0)"
| "int_value (JFloat (Finite r)) = Inr (if r < 0 then - \<lfloor>- r\<rfloor> else \<lfloor>r\<rfloor>)"
| "int_value (JFloat (Infinite b)) = Inl OverflowError"
| "int_value (JFloat NaN) = Inl (ValueError ''cannot convert float NaN to integer'')"
| "int_value (JStr s) = int_literal s"
| "int_value j = Inl TypeError"

subsection \<open>The process table\<close>

definition stat_path :: "int \<Rightarrow> string" where
  "stat_path pid = ''/proc/'' @ int_str pid @ ''/stat''"

text \<open>\<open>data[data.rindex(")") + 2:].split()\<close>: the fields behind the command name, from the state on.\<close>

definition stat_fields :: "string \<Rightarrow> string list option" where
  "stat_fields s = (if CHR '')'' \<in> set s
     then Some (split_ws (drop 1 (rev (takeWhile (\<lambda>c. c \<noteq> CHR '')'') (rev s))))) else None)"

text \<open>The state letter and the start time of a record.\<close>

definition start_field :: "string \<Rightarrow> int option" where
  "start_field s = (case stat_fields s of
     None \<Rightarrow> None
   | Some fs \<Rightarrow> if length fs \<le> 19 then None else (case int_literal (fs ! 19) of Inl e \<Rightarrow> None | Inr i \<Rightarrow> Some i))"

definition runnable :: "string \<Rightarrow> bool" where
  "runnable s \<longleftrightarrow> (case stat_fields s of
     None \<Rightarrow> False | Some fs \<Rightarrow> fs \<noteq> [] \<and> hd fs \<noteq> ''Z'' \<and> hd fs \<noteq> ''X'')"

definition proc_starttime :: "machine \<Rightarrow> int \<Rightarrow> int option res" where
  "proc_starttime M pid = (case h_read M (stat_path pid) of
     Seen s \<Rightarrow> Inr (start_field s)
   | Undecodable \<Rightarrow> Inl (ValueError ''invalid start byte'')
   | _ \<Rightarrow> Inr None)"

definition pid_identity_alive :: "machine \<Rightarrow> int option \<Rightarrow> int option \<Rightarrow> bool res" where
  "pid_identity_alive M pid starttime = (case pid of
     None \<Rightarrow> Inr False
   | Some p \<Rightarrow> rbind (proc_starttime M p) (\<lambda>current. Inr (case current of
       None \<Rightarrow> False
     | Some c \<Rightarrow> (case starttime of None \<Rightarrow> True | Some t \<Rightarrow> c = t))))"

definition process_alive :: "machine \<Rightarrow> int \<Rightarrow> bool res" where
  "process_alive M pid = (case h_read M (stat_path pid) of
     Seen s \<Rightarrow> Inr (runnable s)
   | Undecodable \<Rightarrow> Inl (ValueError ''invalid start byte'')
   | _ \<Rightarrow> Inr False)"

subsection \<open>Pid files\<close>

definition read_pidfile :: "machine \<Rightarrow> string \<Rightarrow> (int option \<times> int option) res" where
  "read_pidfile M path = (case h_read M path of
     Seen s \<Rightarrow> Inr (case split_ws s of
         [] \<Rightarrow> (None, None)
       | p # rest \<Rightarrow> (case int_literal p of
             Inl e \<Rightarrow> (None, None)
           | Inr pid \<Rightarrow> (Some pid, case rest of
               [] \<Rightarrow> None | t # _ \<Rightarrow> (case int_literal t of Inl e \<Rightarrow> None | Inr i \<Rightarrow> Some i))))
   | Undecodable \<Rightarrow> Inl (ValueError ''invalid start byte'')
   | _ \<Rightarrow> Inr (None, None))"

text \<open>The process a pid file claims for this very attempt; a two-field file lost the start time.\<close>

definition pidfile_claim :: "string seen \<Rightarrow> json \<Rightarrow> (int \<times> string) option" where
  "pidfile_claim r attempt = (case r of
     Seen s \<Rightarrow>
       (let parts = (case split_ws s of
              [p, a] \<Rightarrow> (if JStr a = attempt then [p, ''unknown'', a] else [p, a])
            | ps \<Rightarrow> ps)
        in case parts of
             [p, t, a] \<Rightarrow>
               if JStr a \<noteq> attempt then None
               else (case int_literal p of Inl e \<Rightarrow> None | Inr pid \<Rightarrow> if pid \<le> 0 then None else Some (pid, t))
           | _ \<Rightarrow> None)
   | _ \<Rightarrow> None)"

definition observe_process :: "string seen \<Rightarrow> string \<Rightarrow> bool option res" where
  "observe_process r t = (case r of
     Gone \<Rightarrow> Inr (Some False)
   | Undecodable \<Rightarrow> Inl (ValueError ''invalid start byte'')
   | Seen s \<Rightarrow> Inr (case (int_literal t, start_field s) of
       (Inr start, Some observed) \<Rightarrow> Some (observed = start \<and> runnable s)
     | _ \<Rightarrow> None)
   | _ \<Rightarrow> Inr None)"

definition observe_pidfile :: "machine \<Rightarrow> string \<Rightarrow> dict \<Rightarrow> json \<Rightarrow> bool option res" where
  "observe_pidfile M path identity attempt = (let current = host_identity M in
     if \<not> truthy (dget identity ''host'') \<or> dget identity ''host'' \<noteq> dget current ''host'' then Inr None
     else if \<not> truthy (dget identity ''boot_id'') \<or> \<not> truthy (dget current ''boot_id'') then Inr None
     else if dget identity ''boot_id'' \<noteq> dget current ''boot_id'' then Inr (Some False)
     else if \<not> truthy (dget identity ''pid_namespace'') \<or>
             dget identity ''pid_namespace'' \<noteq> dget current ''pid_namespace'' then Inr None
     else if \<not> truthy attempt then Inr None
     else (case pidfile_claim (h_read M path) attempt of
         None \<Rightarrow> Inr None
       | Some (pid, t) \<Rightarrow> observe_process (h_read M (stat_path pid)) t))"

subsection \<open>The daemon\<close>

definition daemon_pid :: "dict \<Rightarrow> int option res" where
  "daemon_pid m = (if dget m ''pid'' = JNull \<or> dget m ''started_at'' = JNull then Inr None
     else (case int_value (dget m ''pid'') of
         Inr pid \<Rightarrow> Inr (Some pid)
       | Inl OverflowError \<Rightarrow> Inl OverflowError
       | Inl e \<Rightarrow> Inr None))"

definition daemon_process :: "machine \<Rightarrow> dict \<Rightarrow> bool option res" where
  "daemon_process M m = rbind (daemon_pid m) (\<lambda>p. case p of
       None \<Rightarrow> Inr None
     | Some pid \<Rightarrow>
         if dget m ''pid_starttime'' = JNull then Inr None
         else rbind (int_value (dget m ''pid_starttime'')) (\<lambda>start.
           rbind (pid_identity_alive M (Some pid) (Some start)) (\<lambda>same.
           if same then rbind (process_alive M pid) (\<lambda>b. Inr (Some b)) else Inr (Some False))))"

definition daemon_alive :: "machine \<Rightarrow> dict option \<Rightarrow> bool option res" where
  "daemon_alive M manifest = (case manifest of
     None \<Rightarrow> Inr None
   | Some m \<Rightarrow> (let current = host_identity M in
       if m = fmempty \<or> dget m ''pid'' = JNull \<or> dget m ''started_at'' = JNull then Inr None
       else if dget m ''host'' \<noteq> dget current ''host'' then Inr None
       else if truthy (dget m ''boot_id'') \<and> truthy (dget current ''boot_id'') \<and>
               dget m ''boot_id'' \<noteq> dget current ''boot_id'' then Inr (Some False)
       else if truthy (dget m ''pid_namespace'') \<and> truthy (dget current ''pid_namespace'') \<and>
               dget m ''pid_namespace'' \<noteq> dget current ''pid_namespace'' then Inr None
       else daemon_process M m))"

subsection \<open>What a judgement means\<close>

text \<open>The process with this pid and start time is in the table and not a zombie.\<close>

definition running_as :: "machine \<Rightarrow> int \<Rightarrow> int \<Rightarrow> bool" where
  "running_as M pid start \<longleftrightarrow> (\<exists>s. h_read M (stat_path pid) = Seen s \<and> start_field s = Some start \<and> runnable s)"

lemma observe_process_Some:
  assumes "observe_process (h_read M (stat_path pid)) t = Inr (Some b)"
  shows "if b then \<exists>start. int_literal t = Inr start \<and> running_as M pid start
    else h_read M (stat_path pid) = Gone \<or>
         (\<exists>s start observed. h_read M (stat_path pid) = Seen s \<and> int_literal t = Inr start \<and>
            start_field s = Some observed \<and> (observed \<noteq> start \<or> \<not> runnable s))"
  using assms
  by (auto simp: observe_process_def running_as_def split: seen.splits sum.splits option.splits)

lemma host_identity_get [simp]:
  "dget (host_identity M) ''host'' = JStr (h_name M)"
  "dget (host_identity M) ''pid_namespace'' = jopt (h_ns M)"
  by (simp_all add: host_identity_def)

lemma running_as_alive:
  assumes "pid_identity_alive M (Some pid) (Some start) = Inr True" and "process_alive M pid = Inr True"
  shows "running_as M pid start"
  using assms
  by (auto simp: pid_identity_alive_def proc_starttime_def process_alive_def running_as_def rbind_Inr_iff
      split: seen.splits option.splits)

text \<open>A daemon judged alive is the process of the recorded pid and start time on the recorded host.\<close>

lemma daemon_process_running:
  assumes "daemon_process M m = Inr (Some True)"
  shows "\<exists>pid start. daemon_pid m = Inr (Some pid) \<and> int_value (dget m ''pid_starttime'') = Inr start \<and>
      running_as M pid start"
proof -
  from assms obtain pid where pid: "daemon_pid m = Inr (Some pid)"
    by (auto simp: daemon_process_def rbind_Inr_iff split: option.splits)
  with assms obtain start where start: "int_value (dget m ''pid_starttime'') = Inr start"
    and alive: "pid_identity_alive M (Some pid) (Some start) = Inr True" "process_alive M pid = Inr True"
    by (auto simp: daemon_process_def rbind_Inr_iff split: if_splits)
  from pid start running_as_alive [OF alive] show ?thesis by blast
qed

lemma daemon_alive_running:
  assumes "daemon_alive M (Some m) = Inr (Some True)"
  shows "dget m ''host'' = JStr (h_name M)"
    and "\<exists>pid start. daemon_pid m = Inr (Some pid) \<and> int_value (dget m ''pid_starttime'') = Inr start \<and>
      running_as M pid start"
proof -
  from assms have *: "dget m ''host'' = JStr (h_name M) \<and> daemon_process M m = Inr (Some True)"
    unfolding daemon_alive_def Let_def by (simp split: if_splits)
  then show "dget m ''host'' = JStr (h_name M)" by simp
  from * show "\<exists>pid start. daemon_pid m = Inr (Some pid) \<and> int_value (dget m ''pid_starttime'') = Inr start \<and>
      running_as M pid start" by (intro daemon_process_running) simp
qed

text \<open>On a machine that hides the process table the daemon counts as dead, where the judgement of a
  worker is unknown.\<close>

lemma hidden_daemon_dead:
  assumes "h_read M (stat_path pid) = Denied"
    and "m \<noteq> fmempty" and "dget m ''pid'' = JInt pid" and "dget m ''started_at'' \<noteq> JNull"
    and "dget m ''host'' = JStr (h_name M)" and "dget m ''boot_id'' = JNull" and "dget m ''pid_namespace'' = JNull"
    and "dget m ''pid_starttime'' = JInt start"
  shows "daemon_alive M (Some m) = Inr (Some False)"
    and "observe_process (h_read M (stat_path pid)) t = Inr None"
  using assms
  by (simp_all add: daemon_alive_def daemon_process_def daemon_pid_def pid_identity_alive_def proc_starttime_def observe_process_def)

lemma observed_evidence:
  assumes "observe_pidfile M path identity attempt = Inr (Some b)"
  shows "dget identity ''host'' = JStr (h_name M) \<and>
    truthy (dget identity ''boot_id'') \<and> truthy (dget (host_identity M) ''boot_id'') \<and>
    (if dget identity ''boot_id'' \<noteq> dget (host_identity M) ''boot_id'' then \<not> b
     else dget identity ''pid_namespace'' = jopt (h_ns M) \<and> h_ns M \<noteq> None \<and>
       (\<exists>pid t. pidfile_claim (h_read M path) attempt = Some (pid, t) \<and>
         (if b then \<exists>start. int_literal t = Inr start \<and> running_as M pid start
          else h_read M (stat_path pid) = Gone \<or>
            (\<exists>s start observed. h_read M (stat_path pid) = Seen s \<and> int_literal t = Inr start \<and>
               start_field s = Some observed \<and> (observed \<noteq> start \<or> \<not> runnable s)))))"
proof -
  let ?cur = "host_identity M"
  have known: "dget identity ''host'' = JStr (h_name M) \<and>
      truthy (dget identity ''boot_id'') \<and> truthy (dget ?cur ''boot_id'')"
    using assms by (auto simp: observe_pidfile_def Let_def split: if_splits)
  show ?thesis
  proof (cases "dget identity ''boot_id'' = dget ?cur ''boot_id''")
    case False
    with assms have "\<not> b" by (auto simp: observe_pidfile_def Let_def split: if_splits)
    with False known show ?thesis by simp
  next
    case True
    with assms obtain pid t where c: "pidfile_claim (h_read M path) attempt = Some (pid, t)"
      and o: "observe_process (h_read M (stat_path pid)) t = Inr (Some b)"
      and ns: "dget identity ''pid_namespace'' = jopt (h_ns M)" "truthy (jopt (h_ns M))"
      by (auto simp: observe_pidfile_def Let_def split: if_splits option.splits)
    have "h_ns M \<noteq> None" using ns(2) by (cases "h_ns M") auto
    then show ?thesis using True known c ns(1) observe_process_Some [OF o] by auto
  qed
qed

text \<open>C40: A worker is judged dead or alive only on the host that started it, between boots that are
  both known. After a reboot it is dead. On the same boot the judgement needs the same pid namespace
  and a pid file of this very attempt; then alive means the claimed process is in the table under
  its start time and not a zombie, and dead means the table has no such pid, or it was read and
  shows another start time or a zombie. An unreadable table or a missing, stale or foreign pid file
  is never evidence.\<close>

theorem liveness_is_evidence:
  assumes "observe_pidfile M path identity attempt = Inr (Some b)"
  shows "dget identity ''host'' = JStr (h_name M) \<and>
    truthy (dget identity ''boot_id'') \<and> truthy (dget (host_identity M) ''boot_id'') \<and>
    (if dget identity ''boot_id'' \<noteq> dget (host_identity M) ''boot_id'' then \<not> b
     else dget identity ''pid_namespace'' = jopt (h_ns M) \<and> h_ns M \<noteq> None \<and>
       (\<exists>pid t. pidfile_claim (h_read M path) attempt = Some (pid, t) \<and>
         (if b then \<exists>start. int_literal t = Inr start \<and> running_as M pid start
          else h_read M (stat_path pid) = Gone \<or>
            (\<exists>s start observed. h_read M (stat_path pid) = Seen s \<and> int_literal t = Inr start \<and>
               start_field s = Some observed \<and> (observed \<noteq> start \<or> \<not> runnable s)))))"
  using assms by (rule observed_evidence)

theorem liveness_is_evidence_witness:
  "\<exists>M path identity attempt. observe_pidfile M path identity attempt = Inr (Some True) \<and>
     (\<exists>pid t start. pidfile_claim (h_read M path) attempt = Some (pid, t) \<and> int_literal t = Inr start \<and> running_as M pid start)"
proof -
  let ?stat = "''50 (d) S 0 0 0 0 0 0 0 0 0 0 0 0 0 0 0 0 0 0 7 0''"
  let ?M = "\<lparr>h_name = ''h'', h_boot = Some ''b'', h_ns = Some ''n'',
     h_read = (\<lambda>p. if p = ''pid'' then Seen ''50 7 a1'' else Seen ?stat)\<rparr>"
  let ?i = "obj [(''host'', JStr ''h''), (''boot_id'', JStr ''b''), (''pid_namespace'', JStr ''n'')]"
  obtain M i where r: "observe_pidfile M ''pid'' i (JStr ''a1'') = Inr (Some True)"
    and same: "dget i ''boot_id'' = dget (host_identity M) ''boot_id''"
    by (rule that [of ?M ?i]) (code_simp, code_simp)
  then have "\<exists>pid t start. pidfile_claim (h_read M ''pid'') (JStr ''a1'') = Some (pid, t) \<and> int_literal t = Inr start \<and> running_as M pid start"
    using liveness_is_evidence [OF r] by simp
  then show ?thesis using r by blast
qed

end
