(* ===== verification/Scripts.thy ===== *)
theory Scripts
  imports Shell Process Models
begin

text \<open>
  What the agent executors write for a shell and for an agent: the cluster configuration, the prompts, the launch
  and resume scripts (\<open>adapters/codex.py\<close>, \<open>claude.py\<close>, \<open>prompts.py\<close>), and the receipt helper the agent
  calls back with. Texts are UTF-8 bytes; white space is ASCII.
\<close>

subsection \<open>Cluster configuration\<close>

record cluster =
  cf_cmd :: string
  cf_prelude :: string
  cf_home :: string
  cf_home_env :: string
  cf_sid_delay :: int
  cf_max_bytes :: int
  cf_timeout :: pyfloat

definition codex_defaults :: cluster where
  "codex_defaults = \<lparr>cf_cmd = ''codex exec --skip-git-repo-check --sandbox danger-full-access'', cf_prelude = [], cf_home = [],
     cf_home_env = ''CODEX_HOME'', cf_sid_delay = 45, cf_max_bytes = 98304, cf_timeout = Finite 10\<rparr>"

text \<open>\<open>__post_init__\<close>\<close>

definition checked_cluster :: "cluster \<Rightarrow> cluster res" where
  "checked_cluster C = rbind (ensure (case cf_timeout C of Finite x \<Rightarrow> 0 < x | _ \<Rightarrow> False)
     (ValueError ''tmux command timeout must be finite and positive'')) (\<lambda>_. Inr C)"

type_synonym environ = "string \<Rightarrow> string option"

definition env_or :: "environ \<Rightarrow> string \<Rightarrow> string \<Rightarrow> string" where
  "env_or V k d = (case V k of None \<Rightarrow> d | Some v \<Rightarrow> v)"

definition env_int :: "environ \<Rightarrow> string \<Rightarrow> int \<Rightarrow> int res" where
  "env_int V k d = (case V k of None \<Rightarrow> Inr d | Some v \<Rightarrow> int_literal v)"

text \<open>\<open>to_float\<close> is Python's \<open>float\<close> of a text, \<open>dumps\<close> is \<open>json.dumps\<close> of one.\<close>

definition option_word :: "environ \<Rightarrow> string \<Rightarrow> string \<Rightarrow> (string \<Rightarrow> string) \<Rightarrow> string" where
  "option_word V k flag f = (case V k of None \<Rightarrow> [] | Some v \<Rightarrow> if v = [] then [] else flag @ shell_quote (f v))"

definition codex_from_env :: "(string \<Rightarrow> pyfloat res) \<Rightarrow> (string \<Rightarrow> string) \<Rightarrow> environ \<Rightarrow> cluster res" where
  "codex_from_env to_float dumps V =
     rbind (env_int V ''FARM_CODEX_SID_DELAY'' (cf_sid_delay codex_defaults)) (\<lambda>delay.
     rbind (env_int V ''FARM_CODEX_MAX_PROMPT_BYTES'' (cf_max_bytes codex_defaults)) (\<lambda>mx.
     rbind (case V ''FARM_TMUX_TIMEOUT_SECONDS'' of None \<Rightarrow> Inr (cf_timeout codex_defaults) | Some x \<Rightarrow> to_float x) (\<lambda>timeout.
     checked_cluster \<lparr>cf_cmd = env_or V ''FARM_CODEX_CMD'' (cf_cmd codex_defaults)
         @ option_word V ''FARM_CODEX_MODEL'' '' -m '' (\<lambda>v. v)
         @ option_word V ''FARM_CODEX_EFFORT'' '' -c '' (\<lambda>v. ''model_reasoning_effort='' @ dumps v),
       cf_prelude = env_or V ''FARM_CODEX_PATH_PRELUDE'' (cf_prelude codex_defaults),
       cf_home = env_or V ''FARM_CODEX_HOME'' (cf_home codex_defaults), cf_home_env = cf_home_env codex_defaults,
       cf_sid_delay = delay, cf_max_bytes = mx, cf_timeout = timeout\<rparr>)))"

definition claude_cmd :: string where
  "claude_cmd = ''claude -p --dangerously-skip-permissions --output-format json''"

definition claude_from_env :: "(string \<Rightarrow> pyfloat res) \<Rightarrow> (string \<Rightarrow> string) \<Rightarrow> environ \<Rightarrow> cluster res" where
  "claude_from_env to_float dumps V =
     rbind (codex_from_env to_float dumps V) (\<lambda>base.
     checked_cluster \<lparr>cf_cmd = env_or V ''FARM_CLAUDE_CMD'' claude_cmd
         @ option_word V ''FARM_CLAUDE_MODEL'' '' --model '' (\<lambda>v. v)
         @ option_word V ''FARM_CLAUDE_EFFORT'' '' --effort '' (\<lambda>v. v),
       cf_prelude = env_or V ''FARM_CLAUDE_PATH_PRELUDE'' [], cf_home = env_or V ''FARM_CLAUDE_HOME'' [],
       cf_home_env = ''CLAUDE_CONFIG_DIR'', cf_sid_delay = cf_sid_delay base, cf_max_bytes = cf_max_bytes base,
       cf_timeout = cf_timeout base\<rparr>)"

text \<open>The command lines of the two agents. \<open>partition\<close> splits at the first occurrence, if there is one.\<close>

fun partition_at :: "string \<Rightarrow> string \<Rightarrow> string \<times> string" where
  "partition_at sep [] = ([], [])"
| "partition_at sep (c # s) =
     (if starts_with sep (c # s) then ([], drop (length sep) (c # s)) else (c # fst (partition_at sep s), snd (partition_at sep s)))"

definition codex_launch_line :: "cluster \<Rightarrow> string \<Rightarrow> string" where
  "codex_launch_line C prompt = cf_cmd C @ '' '' @ shell_quote prompt"

definition codex_resume_line :: "cluster \<Rightarrow> string \<Rightarrow> string" where
  "codex_resume_line C prompt = cf_cmd C @ '' resume \"$SID\" '' @ shell_quote prompt"

definition claude_launch_line :: "cluster \<Rightarrow> string \<Rightarrow> string" where
  "claude_launch_line C prompt = (case partition_at '' -p'' (cf_cmd C) of (cmd, rest) \<Rightarrow>
     cmd @ '' -p '' @ shell_quote prompt @ rest)"

definition claude_resume_line :: "cluster \<Rightarrow> string \<Rightarrow> string" where
  "claude_resume_line C prompt = (case partition_at '' -p'' (cf_cmd C) of (cmd, rest) \<Rightarrow>
     cmd @ '' --resume \"$SID\" -p '' @ shell_quote prompt @ rest)"

definition codex_sid_pattern :: string where
  "codex_sid_pattern = ''session id: [0-9a-f-]{36}''"

definition claude_sid_pattern :: string where
  "claude_sid_pattern = ''\"session_id\": *\"[0-9a-f-]{36}\"''"

subsection \<open>Prompts\<close>

definition newline1 :: string where
  "newline1 = ''\<newline>''"

definition byte_space :: "char \<Rightarrow> bool" where
  "byte_space c \<longleftrightarrow> is_space c \<and> (of_char c :: nat) < 128"

definition trim_end :: "string \<Rightarrow> string" where
  "trim_end s = rev (dropWhile byte_space (rev s))"

definition receipt_instruction :: "string \<Rightarrow> string" where
  "receipt_instruction receipt_path =
     ''RUNTIME RECEIPT PROTOCOL (mandatory). You run under the durable farm runtime; env vars '' @
     ''FARM_RECEIPT_PATH, FARM_WORKER_ID, FARM_TASK_ID, FARM_LEASE_ID are set. Before you END any run '' @
     ''you MUST record a receipt by calling `python .farm_receipt.py <STATUS> [--waiting-on ...] '' @
     ''[--note ...]` in your workspace: AWAITING when you stop to wait on a job/file/ruling (pass '' @
     ''--waiting-on job:ID | artifact:/abs/path | task:ID | ruling:NAME), SUBMITTED when the '' @
     ''deliverable is ready for the master's acceptance, FAILED on an unrecoverable error. The helper '' @
     ''echoes FARM_LEASE_ID for you (fencing). Never claim DONE '' @
     [CHR 0xE2, CHR 0x80, CHR 0x94] @
     '' acceptance is the master's decision. At normal safe boundaries, query `python .farm_receipt.py '' @
     ''control` (small read-only response). If rotation_id is present, finish the current safe step, '' @
     ''write a short checkpoint of artifacts, external job IDs, holds and next action, then emit '' @
     ''AWAITING --rotation-id ID --checkpoint PATH and exit cleanly. Preserve any real --waiting-on '' @
     ''condition; omit it only for a context-only yield. Do not cancel external compute. Include '' @
     ''--checkpoint PATH at ordinary AWAITING boundaries too. Your receipt path is '' @ receipt_path @ ''.''"

text \<open>\<open>shows_json\<close> is the text of a value that is not a string in an f-string.\<close>

definition in_text :: "(json \<Rightarrow> string) \<Rightarrow> json \<Rightarrow> string" where
  "in_text shows_json j = (case j of JStr s \<Rightarrow> s | _ \<Rightarrow> shows_json j)"

definition instruction_part :: "(json \<Rightarrow> string) \<Rightarrow> json \<Rightarrow> string res" where
  "instruction_part f i = (if \<not> truthy i then Inr []
     else rbind (jindex i ''ts'') (\<lambda>ts. rbind (jindex i ''path'') (\<lambda>p. rbind (jindex i ''text'') (\<lambda>x.
       Inr (''Latest recorded instruction ('' @ in_text f ts @ '', source '' @ in_text f p @ ''):\<newline>'' @ in_text f x @ newline1)))))"

definition checkpoint_part :: "(json \<Rightarrow> string) \<Rightarrow> json \<Rightarrow> string res" where
  "checkpoint_part f c = (if \<not> truthy c then Inr []
     else rbind (jindex c ''checkpoint'') (\<lambda>k. rbind (jindex k ''text'') (\<lambda>x.
       Inr (''\<newline>CONTINUATION CHECKPOINT (not acceptance; preserve holds):\<newline>'' @ in_text f x @ newline1))))"

definition worker_contract :: "(json \<Rightarrow> string) \<Rightarrow> task \<Rightarrow> string res" where
  "worker_contract f t =
     rbind (instruction_part f (dget (t_meta t) ''latest_master_instruction'')) (\<lambda>i.
     rbind (checkpoint_part f (dget (t_meta t) ''clean_surrender'')) (\<lambda>c.
     Inr (''\<newline>\<newline>RUNTIME TASK CONTRACT (effective acceptance, including recorded amendments):\<newline>''
       @ ''Task: '' @ t_id t @ ''\<newline>Acceptance:\<newline>'' @ t_acceptance t @ newline1
       @ ''A wake is a notification to re-evaluate the named condition, not evidence ''
       @ ''of success or acceptance. Follow the task's instructions; report AWAITING ''
       @ ''again when its prerequisites remain unmet.\<newline>'' @ i @ c)))"

definition validate_prompt :: "cluster \<Rightarrow> string \<Rightarrow> unit res" where
  "validate_prompt C s = ensure (0 < cf_max_bytes C \<and> int (length s) \<le> cf_max_bytes C)
     (ValueError ''codex-tmux prompt exceeds backend limit'')"

subsection \<open>Scripts\<close>

text \<open>\<open>Path.parent\<close> and \<open>/\<close> of a normalized path.\<close>

definition path_parent :: "string \<Rightarrow> string" where
  "path_parent p = (let d = rev (dropWhile (\<lambda>c. c \<noteq> CHR ''/'') (rev p)) in
     if d = [] then ''.'' else if d = ''/'' then d else butlast d)"

definition path_child :: "string \<Rightarrow> string \<Rightarrow> string" where
  "path_child d n = (if d = ''.'' then n else if d = ''/'' then d @ n else d @ ''/'' @ n)"

definition worker_env :: "string \<Rightarrow> string \<Rightarrow> string \<Rightarrow> string \<Rightarrow> (string \<times> string) list" where
  "worker_env worker_id task_id lease_id receipt_path =
     [(''FARM_WORKER_ID'', worker_id), (''FARM_TASK_ID'', task_id), (''FARM_LEASE_ID'', lease_id),
      (''FARM_RECEIPT_PATH'', receipt_path),
      (''FARM_TASK_PATH'', path_child (path_child (path_parent (path_parent (path_parent receipt_path))) ''tasks'') (task_id @ ''.json''))]"

definition env_exports :: "string \<Rightarrow> string \<Rightarrow> string \<Rightarrow> string \<Rightarrow> string" where
  "env_exports worker_id task_id lease_id receipt_path =
     join newline1 (map (\<lambda>(k, v). ''export '' @ k @ ''='' @ shell_quote v) (worker_env worker_id task_id lease_id receipt_path))"

definition agent_prelude :: "cluster \<Rightarrow> string" where
  "agent_prelude C = (if cf_home C = [] then [] else ''export '' @ cf_home_env C @ ''='' @ shell_quote (cf_home C) @ newline1)
     @ (if cf_prelude C = [] then [] else cf_prelude C @ newline1)"

text \<open>What a script is rendered from. \<open>sc_sid_path\<close> is also where a launch records the session id.\<close>

record parts =
  sc_workspace :: string
  sc_worker :: string
  sc_task :: string
  sc_lease :: string
  sc_receipt :: string
  sc_sid_path :: string
  sc_log :: string
  sc_pid_file :: string
  sc_attempt :: string

definition sid_search :: "string \<Rightarrow> parts \<Rightarrow> string" where
  "sid_search pattern p = ''sid=$(grep -oiE '' @ shell_quote pattern @ '' '' @ shell_quote (sc_log p)
     @ '' 2>/dev/null | grep -oE '[0-9a-f-]{36}' | head -1)''"

definition run_and_record :: "parts \<Rightarrow> string \<Rightarrow> bool \<Rightarrow> bool \<Rightarrow> int \<Rightarrow> string \<Rightarrow> string" where
  "run_and_record p invocation capture append_log delay pattern =
     ''exec 3> >('' @ (if append_log then ''tee -a '' else ''tee '') @ shell_quote (sc_log p) @ '')\<newline>_TEEPID=$!\<newline>''
     @ invocation @ '' >&3 2>&1 &\<newline>_CPID=$!\<newline>''
     @ ''_ST=$(awk '{s=substr($0,index($0,\") \")+2); n=split(s,a,\" \"); print a[20]}' /proc/$_CPID/stat 2>/dev/null)\<newline>''
     @ ''_ST=${_ST:-unknown}\<newline>echo \"$_CPID $_ST '' @ sc_attempt p @ ''\" > '' @ shell_quote (sc_pid_file p) @ newline1
     @ (if capture then ''# race-free session identity: the agent CLI prints it into THIS worker's own log at startup\<newline>''
          @ ''( for _ in $(seq 1 '' @ int_str delay @ ''); do\<newline>    '' @ sid_search pattern p
          @ ''\<newline>    [ -n \"$sid\" ] && { echo \"$sid\" > '' @ shell_quote (sc_sid_path p) @ ''; break; }\<newline>    sleep 1\<newline>  done ) &\<newline>''
        else [])
     @ ''wait $_CPID\<newline>_RC=$?\<newline>exec 3>&-\<newline>wait $_TEEPID 2>/dev/null || true\<newline>''
     @ (if capture then ''[ -s '' @ shell_quote (sc_sid_path p) @ '' ] || { '' @ sid_search pattern p
          @ ''; [ -n \"$sid\" ] && echo \"$sid\" > '' @ shell_quote (sc_sid_path p) @ ''; }\<newline>''
        else [])
     @ ''exit $_RC\<newline>''"

definition dispatch_guard :: "parts \<Rightarrow> string" where
  "dispatch_guard p = sc_pid_file p @ ''.dispatch-'' @ sc_attempt p"

definition script_head :: "cluster \<Rightarrow> parts \<Rightarrow> string" where
  "script_head C p =
     (if sc_attempt p = [] then [] else ''mkdir '' @ shell_quote (dispatch_guard p) @ '' || exit 4\<newline>'')
     @ ''cd '' @ shell_quote (sc_workspace p) @ '' || exit 3\<newline>''
     @ env_exports (sc_worker p) (sc_task p) (sc_lease p) (sc_receipt p) @ newline1"

definition launch_script :: "cluster \<Rightarrow> (string \<Rightarrow> string) \<Rightarrow> string \<Rightarrow> parts \<Rightarrow> string \<Rightarrow> string res" where
  "launch_script C invocation pattern p brief = (let prompt = trim_end brief @ ''\<newline>\<newline>'' @ receipt_instruction (sc_receipt p) in
     rbind (validate_prompt C prompt) (\<lambda>_.
     Inr (''#!/bin/bash\<newline>'' @ script_head C p @ agent_prelude C @ ''rm -f '' @ shell_quote (sc_receipt p) @ newline1
       @ run_and_record p (invocation prompt) True False (cf_sid_delay C) pattern)))"

definition sid_check :: "parts \<Rightarrow> string" where
  "sid_check p = ''SID=$(cat '' @ shell_quote (sc_sid_path p) @ '' 2>/dev/null)\<newline>if [ -z \"$SID\" ]; then ''"

definition sid_complaint :: "parts \<Rightarrow> string" where
  "sid_complaint p = ''echo \"no session id at '' @ sc_sid_path p @ ''; cannot resume\"''"

definition resume_script :: "cluster \<Rightarrow> (string \<Rightarrow> string) \<Rightarrow> parts \<Rightarrow> string \<Rightarrow> string res" where
  "resume_script C invocation p wake_msg = (let prompt = trim_end wake_msg @ ''\<newline>\<newline>'' @ receipt_instruction (sc_receipt p) in
     rbind (validate_prompt C prompt) (\<lambda>_.
     Inr (''#!/bin/bash\<newline>'' @ script_head C p @ agent_prelude C @ ''rm -f '' @ shell_quote (sc_receipt p) @ newline1
       @ sid_check p @ sid_complaint p @ '' >&2; exit 3; fi\<newline>''
       @ run_and_record p (invocation prompt) False True (cf_sid_delay C) codex_sid_pattern)))"

subsection \<open>What a shell reads\<close>

definition or_exit :: "string \<Rightarrow> token list" where
  "or_exit n = [Op CHR ''|'', Op CHR ''|'', Word ''exit'', Word n, Op (CHR 0x0A)]"

definition head_tokens :: "parts \<Rightarrow> token list" where
  "head_tokens p = (if sc_attempt p = [] then [] else Word ''mkdir'' # Word (dispatch_guard p) # or_exit ''4'')
     @ Word ''cd'' # Word (sc_workspace p) # or_exit ''3''
     @ concat (map (\<lambda>(k, v). [Word ''export'', Word (k @ ''='' @ v), Op (CHR 0x0A)])
         (worker_env (sc_worker p) (sc_task p) (sc_lease p) (sc_receipt p)))"

lemma tokens_plain_word:
  "list_all unquoted_char w \<Longrightarrow> w \<noteq> [] \<Longrightarrow> tokens (Plain None) (w @ CHR '' '' # s) = map_option ((#) (Word w)) (tokens (Plain None) s)"
  using tokens_unquoted [of w None "CHR '' '' # s"] by (simp add: tokens_space so_far_def word_end_def [abs_def])

lemma tokens_argument:
  "tokens (Plain None) (shell_quote v @ CHR '' '' # s) = map_option ((#) (Word v)) (tokens (Plain None) s)"
  "tokens (Plain None) (shell_quote v @ CHR 0x0A # s) = map_option (\<lambda>ts. Word v # Op (CHR 0x0A) # ts) (tokens (Plain None) s)"
  by (simp_all add: tokens_quoted tokens_space tokens_newline so_far_def word_end_def [abs_def])

lemma tokens_assignment:
  assumes "list_all unquoted_char k" and "k \<noteq> []"
  shows "tokens (Plain None) (k @ CHR ''='' # shell_quote v @ CHR 0x0A # s) =
    map_option (\<lambda>ts. Word (k @ ''='' @ v) # Op (CHR 0x0A) # ts) (tokens (Plain None) s)"
proof -
  have "list_all unquoted_char (k @ ''='')" using assms by (simp add: unquoted_char_def)
  from tokens_unquoted [OF this, of None "shell_quote v @ CHR 0x0A # s"] assms
  show ?thesis by (simp add: tokens_quoted tokens_newline so_far_def word_end_def [abs_def])
qed

lemma tokens_or_exit:
  assumes "list_all unquoted_char n" and "n \<noteq> []"
  shows "tokens (Plain None) (''|| exit '' @ n @ CHR 0x0A # s) = map_option (\<lambda>ts. or_exit n @ ts) (tokens (Plain None) s)"
proof -
  have "tokens (Plain None) (''exit '' @ n @ CHR 0x0A # s) = map_option ((#) (Word ''exit'')) (tokens (Plain None) (n @ CHR 0x0A # s))"
    using tokens_plain_word [of "''exit''" "n @ CHR 0x0A # s"] by (simp add: unquoted_char_def alnum_def in_range_def)
  moreover have "tokens (Plain None) (n @ CHR 0x0A # s) = map_option (\<lambda>ts. Word n # Op (CHR 0x0A) # ts) (tokens (Plain None) s)"
    using tokens_unquoted [OF assms, of None "CHR 0x0A # s"] by (simp add: tokens_newline so_far_def word_end_def [abs_def])
  ultimately show ?thesis
    by (simp add: or_exit_def tokens_bar tokens_space word_end_def [abs_def] option.map_comp comp_def)
qed

lemma script_head_tokens: "shell_tokens (script_head C p) = Some (head_tokens p)"
proof -
  have e: "tokens (Plain None) (''export '' @ k @ CHR ''='' # shell_quote v @ CHR 0x0A # s) =
      map_option (\<lambda>ts. Word ''export'' # Word (k @ ''='' @ v) # Op (CHR 0x0A) # ts) (tokens (Plain None) s)"
    if "list_all unquoted_char k" "k \<noteq> []" for k v s
    using tokens_plain_word [of "''export''"] tokens_assignment [OF that, of v s]
    by (simp add: unquoted_char_def alnum_def in_range_def option.map_comp comp_def)
  have c: "tokens (Plain None) (w @ CHR '' '' # shell_quote v @ '' || exit '' @ n @ CHR 0x0A # s) =
      map_option (\<lambda>ts. Word w # Word v # or_exit n @ ts) (tokens (Plain None) s)"
    if "list_all unquoted_char w" "w \<noteq> []" "list_all unquoted_char n" "n \<noteq> []" for w v n s
    using tokens_plain_word [OF that(1,2)] tokens_argument(1) [of v "''|| exit '' @ n @ CHR 0x0A # s"] tokens_or_exit [OF that(3,4), of s]
    by (simp add: option.map_comp comp_def)
  have u: "list_all unquoted_char ''mkdir''" "list_all unquoted_char ''cd''" "list_all unquoted_char ''4''" "list_all unquoted_char ''3''"
    "list_all unquoted_char ''FARM_WORKER_ID''" "list_all unquoted_char ''FARM_TASK_ID''" "list_all unquoted_char ''FARM_LEASE_ID''"
    "list_all unquoted_char ''FARM_RECEIPT_PATH''" "list_all unquoted_char ''FARM_TASK_PATH''"
    by code_simp+
  have x: "tokens (Plain None) (env_exports w t l r @ newline1) =
      Some (concat (map (\<lambda>(k, v). [Word ''export'', Word (k @ ''='' @ v), Op (CHR 0x0A)]) (worker_env w t l r)))" for w t l r
    using e [OF u(5)] e [OF u(6)] e [OF u(7)] e [OF u(8)] e [OF u(9)]
    by (simp add: env_exports_def worker_env_def newline1_def word_end_def)
  show ?thesis
    using c [OF u(1) _ u(3), of "dispatch_guard p" "''cd '' @ shell_quote (sc_workspace p) @ '' || exit 3\<newline>'' @
       env_exports (sc_worker p) (sc_task p) (sc_lease p) (sc_receipt p) @ newline1"]
      c [OF u(2) _ u(4), of "sc_workspace p" "env_exports (sc_worker p) (sc_task p) (sc_lease p) (sc_receipt p) @ newline1"]
      x [of "sc_worker p" "sc_task p" "sc_lease p" "sc_receipt p"]
    by (simp add: shell_tokens_def script_head_def head_tokens_def)
qed

end
