(* ===== verification/Helper.thy ===== *)
theory Helper
  imports Scripts
begin

text \<open>
  The receipt helper an executor puts into a workspace (\<open>RECEIPT_HELPER\<close> of \<open>adapters/codex.py\<close>): what an
  agent calls to report, and to ask whether it shall rotate. It knows its lease from the environment its
  launch script exports.
\<close>

record helper_args =
  ha_status :: string
  ha_note :: string
  ha_waiting_on :: "string option"
  ha_rotation :: "string option"
  ha_checkpoint :: "string option"

definition helper_choices :: "string list" where
  "helper_choices = [''control'', ''RUNNING'', ''AWAITING'', ''SUBMITTED'', ''FAILED'']"

text \<open>\<open>sys.exit\<close> with a text, or a document: written, or printed by \<open>control\<close>.\<close>

datatype helper_end = Exits string | Prints dict | Writes string dict

definition env_index :: "environ \<Rightarrow> string \<Rightarrow> string res" where
  "env_index V k = (case V k of None \<Rightarrow> Inl (KeyError k) | Some v \<Rightarrow> Inr v)"

definition filled :: "string option \<Rightarrow> bool" where
  "filled x \<longleftrightarrow> (case x of None \<Rightarrow> False | Some s \<Rightarrow> s \<noteq> [])"

text \<open>\<open>control\<close>: the task as it is now. The lease is compared before anything is told.\<close>

definition same_lease :: "environ \<Rightarrow> dict \<Rightarrow> bool res" where
  "same_lease V t = (let lease = jor (dget t ''lease'') (JObj fmempty) in
     rbind (dindex t ''id'') (\<lambda>i. rbind (env_index V ''FARM_TASK_ID'') (\<lambda>tid.
     if i \<noteq> JStr tid then Inr False
     else rbind (jget lease ''worker_id'') (\<lambda>w. rbind (env_index V ''FARM_WORKER_ID'') (\<lambda>wid.
       if w \<noteq> JStr wid then Inr False
       else rbind (jget lease ''lease_id'') (\<lambda>l. rbind (env_index V ''FARM_LEASE_ID'') (\<lambda>lid.
         Inr (l = JStr lid))))))))"

definition helper_control :: "environ \<Rightarrow> (string \<Rightarrow> json res) \<Rightarrow> helper_end res" where
  "helper_control V load =
     rbind (env_index V ''FARM_TASK_PATH'') (\<lambda>path. rbind (load path) (\<lambda>j. rbind (as_obj j) (\<lambda>t.
     rbind (same_lease V t) (\<lambda>ok.
     if \<not> ok then Inr (Exits ''stale worker lease: stop and report; do not write task state'')
     else rbind (dindex t ''metadata'') (\<lambda>m. rbind (jget m ''rotation_request'') (\<lambda>request.
       if truthy request then rbind (jindex request ''id'') (\<lambda>i.
         Inr (Prints (obj [(''rotation_id'', i), (''checkpoint_required'', JBool True)])))
       else Inr (Prints (obj [(''rotation_id'', JNull), (''checkpoint_required'', JBool False)]))))))))"

text \<open>A report.\<close>

definition helper_report :: "environ \<Rightarrow> (string \<Rightarrow> string) \<Rightarrow> string \<Rightarrow> helper_args \<Rightarrow> helper_end res" where
  "helper_report V abspath ts a =
     (if filled (ha_rotation a) \<and> (ha_status a \<noteq> ''AWAITING'' \<or> \<not> filled (ha_checkpoint a))
      then Inr (Exits ''rotation requires AWAITING and --checkpoint'')
      else rbind (env_index V ''FARM_RECEIPT_PATH'') (\<lambda>path.
        rbind (env_index V ''FARM_WORKER_ID'') (\<lambda>w. rbind (env_index V ''FARM_TASK_ID'') (\<lambda>t.
        rbind (env_index V ''FARM_LEASE_ID'') (\<lambda>l.
        Inr (Writes path (dput (obj [(''worker_id'', JStr w), (''task_id'', JStr t), (''lease_id'', JStr l),
            (''status'', JStr (ha_status a)), (''ts'', JStr ts), (''note'', JStr (ha_note a)),
            (''waiting_on'', jopt (ha_waiting_on a))])
          ((case ha_rotation a of Some r \<Rightarrow> if r = [] then [] else [(''rotation_id'', JStr r)] | None \<Rightarrow> [])
           @ (case ha_checkpoint a of Some c \<Rightarrow> if c = [] then [] else [(''checkpoint'', JStr (abspath c))] | None \<Rightarrow> []))))))))) "

text \<open>A missing variable, or a missing key of the task, ends it with a text; other exceptions are its own.\<close>

definition helper_run :: "environ \<Rightarrow> (string \<Rightarrow> json res) \<Rightarrow> (string \<Rightarrow> string) \<Rightarrow> string \<Rightarrow> helper_args \<Rightarrow> helper_end res" where
  "helper_run V load abspath ts a =
     (if ha_status a \<notin> set helper_choices then Inr (Exits ''invalid choice'')
      else (case (if ha_status a = ''control'' then helper_control V load else helper_report V abspath ts a) of
        Inl (KeyError k) \<Rightarrow> Inr (Exits (''runtime env missing: '' @ k))
      | r \<Rightarrow> r))"

subsection \<open>The environment of a script\<close>

text \<open>The variables the commands of a script export, the last one of a name.\<close>

fun token_lines :: "token list \<Rightarrow> token list list" where
  "token_lines [] = [[]]"
| "token_lines (t # ts) = (if t = Op (CHR 0x0A) then [] # token_lines ts
     else (t # hd (token_lines ts)) # tl (token_lines ts))"

fun export_of :: "token list \<Rightarrow> (string \<times> string) list" where
  "export_of [Word w, Word kv] = (if w = ''export'' \<and> CHR ''='' \<in> set kv then [(before CHR ''='' kv, after CHR ''='' kv)] else [])"
| "export_of ts = []"

definition exported :: "token list \<Rightarrow> (string \<times> string) list" where
  "exported ts = concat (map export_of (token_lines ts))"

definition script_env :: "string \<Rightarrow> environ" where
  "script_env head = (case shell_tokens head of None \<Rightarrow> (\<lambda>_. None) | Some ts \<Rightarrow> map_of (rev (exported ts)))"

lemma token_lines_line: "Op (CHR 0x0A) \<notin> set xs \<Longrightarrow> token_lines (xs @ Op (CHR 0x0A) # ts) = xs # token_lines ts"
  by (induction xs) auto

lemma exported_line:
  "Op (CHR 0x0A) \<notin> set xs \<Longrightarrow> exported (xs @ Op (CHR 0x0A) # ts) = export_of xs @ exported ts"
  by (simp add: exported_def token_lines_line)

lemma exported_command: "n \<noteq> [] \<Longrightarrow> exported (Word w # Word u # or_exit n @ ts) = exported ts"
  using exported_line [of "[Word w, Word u, Op CHR ''|'', Op CHR ''|'', Word ''exit'', Word n]" ts]
  by (simp add: or_exit_def)

lemma exported_pairs:
  assumes "\<forall>(k, v) \<in> set kvs. CHR ''='' \<notin> set k"
  shows "exported (concat (map (\<lambda>(k, v). [Word ''export'', Word (k @ ''='' @ v), Op (CHR 0x0A)]) kvs)) = kvs"
  using assms
proof (induction kvs)
  case (Cons kv kvs)
  obtain k v where kv: "kv = (k, v)" by (cases kv)
  have "CHR ''='' \<notin> set k" using Cons.prems kv by auto
  then have "export_of [Word ''export'', Word (k @ ''='' @ v)] = [(k, v)]"
    using before_after_sep [of "CHR ''=''" k v] by simp
  then show ?case using Cons kv exported_line [of "[Word ''export'', Word (k @ ''='' @ v)]"] by simp
qed (simp add: exported_def)

lemma script_head_env:
  "script_env (script_head C p) = map_of (worker_env (sc_worker p) (sc_task p) (sc_lease p) (sc_receipt p))"
proof -
  let ?kvs = "worker_env (sc_worker p) (sc_task p) (sc_lease p) (sc_receipt p)"
  have k: "\<forall>(k, v) \<in> set ?kvs. CHR ''='' \<notin> set k" by (auto simp: worker_env_def)
  have "exported (head_tokens p) = ?kvs"
    using exported_pairs [OF k] by (simp add: head_tokens_def exported_command)
  moreover have "map_of (rev ?kvs) = map_of ?kvs" by (rule ext) (auto simp: worker_env_def)
  ultimately show ?thesis by (simp add: script_env_def script_head_tokens)
qed

text \<open>C34: A receipt an agent writes carries the lease its script was started under. Whatever the names, ids and paths
  contain, a shell reads the head of the script as the intended commands, with no expansion: the guard of the
  attempt, the change into the workspace, and the five variables; and what the helper then writes under these
  variables goes to the worker's receipt file, is a well formed receipt, and names exactly this worker,
  task and lease, with the status the agent gave.\<close>

theorem receipts_carry_lease:
  assumes script: "launch_script C agent pattern p brief = Inr s \<or> resume_script C agent p brief = Inr s"
    and report: "helper_run V load abspath ts a = Inr (Writes path d)"
    and env: "\<And>k v. script_env (script_head C p) k = Some v \<Longrightarrow> V k = Some v"
  shows "(\<exists>rest. s = ''#!/bin/bash\<newline>'' @ script_head C p @ rest) \<and> shell_tokens (script_head C p) = Some (head_tokens p) \<and>
    path = sc_receipt p \<and>
    (\<exists>r. receipt_from_dict (JObj d) = Inr r \<and> r_worker r = JStr (sc_worker p) \<and> r_task r = JStr (sc_task p) \<and>
       r_lease r = JStr (sc_lease p) \<and> receipt_value (r_status r) = ha_status a)"
proof -
  have v: "V ''FARM_WORKER_ID'' = Some (sc_worker p)" "V ''FARM_TASK_ID'' = Some (sc_task p)" "V ''FARM_LEASE_ID'' = Some (sc_lease p)"
    "V ''FARM_RECEIPT_PATH'' = Some (sc_receipt p)"
    by (rule env, simp add: script_head_env worker_env_def)+
  have "helper_control V load \<noteq> Inr (Writes path d)"
    by (auto simp: helper_control_def same_lease_def rbind_def Let_def split: sum.splits if_splits)
  with report have r: "helper_report V abspath ts a = Inr (Writes path d)"
    and c: "ha_status a \<noteq> ''control''" "ha_status a \<in> set helper_choices"
    by (auto simp: helper_run_def split: if_splits sum.splits exn.splits)
  from r v have d: "path = sc_receipt p" "d = dput (obj [(''worker_id'', JStr (sc_worker p)), (''task_id'', JStr (sc_task p)), (''lease_id'', JStr (sc_lease p)),
            (''status'', JStr (ha_status a)), (''ts'', JStr ts), (''note'', JStr (ha_note a)),
            (''waiting_on'', jopt (ha_waiting_on a))])
          ((case ha_rotation a of Some r \<Rightarrow> if r = [] then [] else [(''rotation_id'', JStr r)] | None \<Rightarrow> [])
           @ (case ha_checkpoint a of Some c \<Rightarrow> if c = [] then [] else [(''checkpoint'', JStr (abspath c))] | None \<Rightarrow> []))"
    by (auto simp: helper_report_def env_index_def split: if_splits)
  from c have "ha_status a = receipt_value R_RUNNING \<or> ha_status a = receipt_value R_AWAITING \<or>
      ha_status a = receipt_value R_SUBMITTED \<or> ha_status a = receipt_value R_FAILED" by (auto simp: helper_choices_def)
  then obtain st where st: "receipt_value st = ha_status a" by metis
  have p: "receipt_status_of_value (JStr (ha_status a)) = Inr st"
    using receipt_status_of_value_value [of st] st by simp
  have "\<exists>r. receipt_from_dict (JObj d) = Inr r \<and> r_worker r = JStr (sc_worker p) \<and> r_task r = JStr (sc_task p) \<and>
       r_lease r = JStr (sc_lease p) \<and> r_status r = st"
    unfolding d(2)
    by (auto simp: receipt_from_dict_def p dataclass_keys_def receipt_required_def receipt_optional_def split: option.splits)
  moreover have "\<exists>rest. s = ''#!/bin/bash\<newline>'' @ script_head C p @ rest"
    using script by (auto simp: launch_script_def resume_script_def Let_def rbind_def split: sum.splits)
  ultimately show ?thesis using d(1) st script_head_tokens by blast
qed

subsection \<open>The one value that is not quoted\<close>

text \<open>
  The complaint of a resume script holds the path of the session id inside double quotes, as it is. A
  dollar sign, a backquote or a backslash in the workspace's name is expanded there by the shell, whereas the same
  path is one quoted word everywhere else.
\<close>

lemma tokens_double:
  "quote2 \<notin> set v \<Longrightarrow> tokens (Double u) (v @ quote2 # s) =
     (if list_ex (\<lambda>c. c \<in> set [CHR ''$'', CHR 0x60, CHR 0x5C]) v then None else tokens (Plain (Some (u @ v))) s)"
  by (induction v arbitrary: u) auto

lemma sid_complaint_reading:
  assumes "quote2 \<notin> set (sc_sid_path p)"
  shows "shell_tokens (sid_complaint p) =
    (if list_ex (\<lambda>c. c \<in> set [CHR ''$'', CHR 0x60, CHR 0x5C]) (sc_sid_path p) then None
     else Some [Word ''echo'', Word (''no session id at '' @ sc_sid_path p @ ''; cannot resume'')])"
proof -
  let ?v = "''no session id at '' @ sc_sid_path p @ ''; cannot resume''"
  have "quote2 \<notin> set ?v" using assms by simp
  moreover have "list_all unquoted_char ''echo''" by code_simp
  ultimately show ?thesis
    using tokens_plain_word [of "''echo''" "quote2 # ?v @ [quote2]"] tokens_double [of ?v "[]" "[]"]
    by (simp add: shell_tokens_def sid_complaint_def tokens.simps(2) [of None quote2] so_far_def word_end_def)
qed

subsection \<open>At a concrete workspace\<close>

definition parts0 :: parts where
  "parts0 = \<lparr>sc_workspace = ''/w/it's $HOME'', sc_worker = ''W-t-000001'', sc_task = ''t'', sc_lease = ''L1'',
     sc_receipt = ''/f/.farm/runtime/receipts/W-t-000001.json'', sc_sid_path = ''/w/it's $HOME/.session_id_W-t-000001'',
     sc_log = ''agent.log'', sc_pid_file = ''/f/p.pid'', sc_attempt = ''a1''\<rparr>"

definition args0 :: helper_args where
  "args0 = \<lparr>ha_status = ''SUBMITTED'', ha_note = ''ready'', ha_waiting_on = None, ha_rotation = None, ha_checkpoint = None\<rparr>"

lemma instruction_length: "length (receipt_instruction r) = 1144 + length r"
  by (simp add: receipt_instruction_def)

lemma launch_script_fits:
  assumes "length (trim_end b) \<le> 90000" and "length (sc_receipt p) \<le> 4000"
  shows "\<exists>s. launch_script codex_defaults agent pattern p b = Inr s"
proof -
  have "length (trim_end b @ ''\<newline>\<newline>'' @ receipt_instruction (sc_receipt p)) \<le> 98304"
    using assms instruction_length [of "sc_receipt p"] by simp
  then have "validate_prompt codex_defaults (trim_end b @ ''\<newline>\<newline>'' @ receipt_instruction (sc_receipt p)) = Inr ()"
    unfolding validate_prompt_def by (simp add: codex_defaults_def ensure_def)
  then show ?thesis unfolding launch_script_def Let_def by (simp add: rbind_def)
qed

theorem receipts_carry_lease_witness:
  "\<exists>s path d r. launch_script codex_defaults (codex_launch_line codex_defaults) codex_sid_pattern parts0 ''do it'' = Inr s \<and>
     helper_run (script_env (script_head codex_defaults parts0)) (\<lambda>_. Inr JNull) (\<lambda>x. x) ''now'' args0 = Inr (Writes path d) \<and>
     path = ''/f/.farm/runtime/receipts/W-t-000001.json'' \<and> receipt_from_dict (JObj d) = Inr r \<and> r_lease r = JStr ''L1''"
proof -
  have "length (trim_end ''do it'') \<le> length ''do it''" using length_dropWhile_le by (fastforce simp: trim_end_def)
  then have "length (trim_end ''do it'') \<le> 90000" by simp
  moreover have "length (sc_receipt parts0) \<le> 4000" by (simp add: parts0_def)
  ultimately obtain s where s: "launch_script codex_defaults (codex_launch_line codex_defaults) codex_sid_pattern parts0 ''do it'' = Inr s"
    using launch_script_fits by blast
  obtain path d where r: "helper_run (script_env (script_head codex_defaults parts0)) (\<lambda>_. Inr JNull) (\<lambda>x. x) ''now'' args0 = Inr (Writes path d)"
    by (simp add: helper_run_def helper_report_def helper_choices_def args0_def parts0_def script_head_env worker_env_def env_index_def filled_def)
  from receipts_carry_lease [OF disjI1 [OF s] r] have "path = sc_receipt parts0"
    "\<exists>r. receipt_from_dict (JObj d) = Inr r \<and> r_lease r = JStr (sc_lease parts0)" by blast+
  then show ?thesis using s r by (auto simp: parts0_def)
qed

end
