(* ===== verification/Report.thy ===== *)
theory Report
  imports Ticks Helper Reconciler
begin

text \<open>
  From a tick of the kit to the runtime: the command the tick tells its worker to run, as a shell reads it and the
  receipt helper parses it, and the receipt the reconciler then gets.
\<close>

subsection \<open>The command line of the helper\<close>






subsection \<open>What the shell reads\<close>


lemma command_text_append:
  "us \<noteq> [] \<Longrightarrow> vs \<noteq> [] \<Longrightarrow> command_text (us @ vs) = command_text us @ '' '' @ command_text vs"
proof (induction us rule: command_text.induct)
  case (2 w)
  then show ?case by (cases vs) simp_all
qed simp_all

lemma command_text_option: "ws \<noteq> [] \<Longrightarrow> command_text (w # v # ws) = shell_quote w @ '' '' @ shell_quote v @ '' '' @ command_text ws"
  by (cases ws) simp_all





subsection \<open>What a tick reports\<close>








end
