(* ===== verification/Runner_Witnesses.thy ===== *)
theory Runner_Witnesses
  imports Ticks
begin

text \<open>
  For every property of the step runner with hypotheses, an application at a concrete input: a
  workspace with one script and one step, whose job was adopted
  and whose group wants a barrier, and a scheduler that accepts every job.
\<close>

subsection \<open>A workspace\<close>

definition one_step :: step_spec where
  "one_step = chained\<lparr>p_id := ''a'', p_template := ''a'', p_outputs := [''o''], p_after := [], p_segments := 1, p_segment := None,
     p_group := Some ''g'', p_wait := ''barrier''\<rparr>"

definition one_runner :: runner where
  "one_runner = \<lparr>rn_steps = \<lparr>t_specs = [one_step], t_verifiers = None, t_problems = []\<rparr>, rn_ws = [''w''],
     rn_root = [''w'', ''attempts''], rn_task = Some ''t'', rn_lease = None, rn_site = ''site'', rn_part = None, rn_limit = ''1'',
     rn_os = \<lparr>os_copy = \<lambda>n. ([], True), os_remove = \<lambda>n t. ([], True)\<rparr>, rn_helper = ''python .farm_receipt.py''\<rparr>"

definition some_tools :: tools where
  "some_tools = \<lparr>tl_now = nat_str, tl_mono = \<lambda>n. 0, tl_uuid = nat_str, tl_sbatch = \<lambda>n argv. Ended 0 ''8'' [],
     tl_local = \<lambda>n argv dir env fs. (Ended 0 [] [], fs), tl_lookup = None, tl_which = \<lambda>n p. False, tl_run = \<lambda>n argv. None,
     tl_ttl = 30, tl_sacct_row = \<lambda>n j. None, tl_sha = \<lambda>c. c, tl_parse = \<lambda>c. Inl (ValueError []),
     tl_glob = \<lambda>fs p. [], tl_split = \<lambda>s. Inr [s], tl_env_digest = ''e'', tl_verify = \<lambda>n f r arts. Truth True\<rparr>"

definition start_files :: fs where
  "start_files = fmap_of_list [([''w''], Dir), ([''w'', ''r.sbatch''], File ''run'')]"

definition start_kit :: kit where
  "start_kit = \<lparr>y_ledger = \<lparr>g_files = fmempty, g_memo = None, g_index = None\<rparr>,
     y_fs = start_files, y_cache = fmempty, y_n = 0,
     y_calls = [], y_actions = [], y_submitted = []\<rparr>"

lemma start_state: "worker_state start_kit"
  by (rule worker_state.empty) (simp_all add: start_kit_def)

text \<open>Job 7 is adopted for the step.\<close>

definition adopted_record :: attempt where
  "adopted_record = (ledger_new [] ''a'' (Some ''t'') None (Some ''site'') ''0'' ''1'')
     \<lparr>a_submit := Some \<lparr>s_intent = ''2'', s_argv = [], s_cwd = None, s_job = Some ''7'', s_status = ''adopted'', s_error = None\<rparr>,
      a_wait := Some ''job:7'', a_budget := \<lparr>bg_class = Some ''infra'', bg_max = 1, bg_used = 0, bg_prior = 0\<rparr>,
      a_updated := Some ''3''\<rparr>"

definition adopted_kit :: kit where
  "adopted_kit = start_kit\<lparr>y_n := 4, y_ledger := \<lparr>g_files = fmupd ''0'' adopted_record fmempty,
     g_memo = Some [adopted_record], g_index = Some [(''a'', [''0''])]\<rparr>\<rparr>"

lemma tiny_numbers [simp]: "nat_str 0 = ''0''" "nat_str (Suc 0) = ''1''" "nat_str 2 = ''2''" "nat_str 3 = ''3''"
  by code_simp+

lemma adopted_state: "worker_state adopted_kit"
proof (rule worker_state.adopted [OF start_state])
  show "adopt some_tools (Some ''t'') (Some ''site'') ''a'' ''7'' [] 0 ''infra'' start_kit = (Inr adopted_record, adopted_kit)"
    by code_simp
qed

text \<open>The tick observes the job and submits the barrier.\<close>

definition observed_record :: attempt where
  "observed_record = adopted_record\<lparr>a_observed := Some \<lparr>ob_state = None, ob_ts = ''5'', ob_end = None\<rparr>, a_updated := Some ''6''\<rparr>"

definition observed_kit :: kit where
  "observed_kit = adopted_kit\<lparr>y_n := 7, y_cache := fmupd ''7'' (0, None) fmempty,
     y_ledger := \<lparr>g_files = fmupd ''0'' observed_record fmempty, g_memo = Some [observed_record], g_index = Some [(''a'', [''0''])]\<rparr>\<rparr>"

lemma observing: "observe_and_finalize 5 some_tools one_runner adopted_kit = (Inr (), observed_kit)"
  by code_simp

lemma nothing_to_launch: "launch_ready 5 3 some_tools one_runner observed_kit = (Inr (), observed_kit)"
  by code_simp

lemma due: "groups (rn_specs one_runner) = [(''g'', [''a''])]" "barrier_jobs [observed_record] [''a''] = Inr [''7'']"
  "wants_barrier (rn_specs one_runner) [''a'']" "\<not> barrier_flying [observed_record] ''g''"
  by code_simp+

definition barrier_record :: attempt where
  "barrier_record = (ledger_new [observed_record] (barrier_step ''g'') (Some ''t'') None (Some ''site'') ''7'' ''8'')
     \<lparr>a_submit := Some \<lparr>s_intent = ''9'', s_argv = barrier_argv ''g'' [''7''] None ''1'' ''7'', s_cwd = Some ''/w'', s_job = Some ''8'',
        s_status = ''submitted'', s_error = None\<rparr>, a_wait := Some ''job:8'', a_updated := Some ''12''\<rparr>"

lemma small_numbers [simp]: "nat_str 7 = ''7''" "nat_str 8 = ''8''" "nat_str 9 = ''9''" "nat_str 10 = ''10''" "nat_str 12 = ''12''"
  by code_simp+

lemma parsed: "parsed_job ''8'' = Inr ''8''" "fullmatch job_id_rx ''8''"
  by code_simp+

lemma barrier_submission: "wp (submit_barrier some_tools one_runner ''g'' [''7'']) (\<lambda>res k. res = Inr () \<and>
    g_files (y_ledger k) = fmupd ''7'' barrier_record (fmupd ''0'' observed_record fmempty) \<and> coherent (y_ledger k) \<and>
    length (y_calls k) = 1 \<and> y_submitted k = [''barrier:g''] \<and> y_fs k = start_files) observed_kit"
proof -
  have k: "fst (ledger_all (y_ledger observed_kit)) = [observed_record]" "g_files (snd (ledger_all (y_ledger observed_kit))) = fmupd ''0'' observed_record fmempty"
    "y_calls observed_kit = []" "y_submitted observed_kit = []" "y_n observed_kit = 7" "y_fs observed_kit = start_files"
    by (simp_all add: observed_kit_def adopted_kit_def start_kit_def ledger_all_def)
  have r: "rn_task one_runner = Some ''t''" "rn_lease one_runner = None" "rn_site one_runner = ''site''" "rn_part one_runner = None"
    "rn_limit one_runner = ''1''" "path_str (rn_ws one_runner) = ''/w''"
    by (simp_all add: one_runner_def path_str_def)
  have t: "tl_now some_tools = nat_str" "tl_uuid some_tools = nat_str" "tl_sbatch some_tools n argv = Ended 0 ''8'' []" for n argv
    by (simp_all add: some_tools_def)
  show ?thesis
    by (simp add: submit_barrier_def submit_def submit_outcome_def wp_rules Let_def k r t parsed parsed(2) [simplified]
       barrier_record_def ledger_new_def new_record_def with_submit_def stamped_def status_of_def barrier_step_def)
qed

subsection \<open>The properties of ticks\<close>

theorem records_well_formed_witness: "a_id adopted_record = ''0'' \<and> attempt_wf adopted_record"
  by (rule records_well_formed [OF adopted_state]) (simp add: adopted_kit_def)

lemma checkpoint_written: "replace_file [''w'', ''CHECKPOINT.md''] c start_files = Inr (fmupd [''w'', ''CHECKPOINT.md''] (File c) start_files)"
  "resolved_str (fmupd [''w'', ''CHECKPOINT.md''] (File c) start_files) [''w'', ''CHECKPOINT.md''] = Inr ''/w/CHECKPOINT.md''"
  "old_judgment start_files [''w'', ''CHECKPOINT.md''] = Inr []"
  by (simp_all add: replace_file_def mkdirs_def mkdir1_def put_new_def place_def resolve_path_def is_dir_at_def stat_def node_at_def
    resolved_str_def path_str_def old_judgment_def eval_nat_numeral start_files_def)

lemma barrier_tick:
  "wp (tick 5 some_tools one_runner cp) (\<lambda>res k. \<exists>t. res = Inr t \<and> length (y_calls k) = 1 \<and>
    rows_of k = [observed_record, barrier_record] \<and> k_submitted t = [''barrier:g''] \<and> k_waiting t = Some ''job:8'') adopted_kit"
proof -
  have rows: "read_all (fmupd ''7'' barrier_record (fmupd ''0'' observed_record fmempty)) = [observed_record, barrier_record]"
    by code_simp
  have decide: "decide_wait one_runner [observed_record, barrier_record] = Inr (Some ''job:8'')" by code_simp
  have start: "adopted_kit\<lparr>y_actions := [], y_submitted := []\<rparr> = adopted_kit"
    by (simp add: adopted_kit_def start_kit_def)
  have first: "reconcile_first some_tools = ret ()" by (simp add: reconcile_first_def some_tools_def)
  have listed: "fst (ledger_all (y_ledger observed_kit)) = [observed_record]"
    "observed_kit\<lparr>y_ledger := snd (ledger_all (y_ledger observed_kit))\<rparr> = observed_kit"
    by (simp_all add: observed_kit_def ledger_all_def)
  have specs: "2 * length (rn_specs one_runner) + 1 = 3" by (simp add: one_runner_def)
  let ?Q = "\<lambda>res k. \<exists>t. res = Inr t \<and> length (y_calls k) = 1 \<and>
    rows_of k = [observed_record, barrier_record] \<and> k_submitted t = [''barrier:g''] \<and> k_waiting t = Some ''job:8''"
  have cfile: "checkpoint_file one_runner = [''w'', ''CHECKPOINT.md'']" by (simp add: checkpoint_file_def one_runner_def)
  have report: "wp (report_tick some_tools one_runner cp) ?Q k"
    if "g_files (y_ledger k) = fmupd ''7'' barrier_record (fmupd ''0'' observed_record fmempty)" "coherent (y_ledger k)"
      "length (y_calls k) = 1" "y_submitted k = [''barrier:g'']" "y_fs k = start_files" for k
    using that ledger_all_coherent [OF that(2)] ledger_all_coherent [of "snd (ledger_all (y_ledger k))"]
    by (simp add: report_tick_def write_checkpoint_def write_text_def on_fs_def utc_now_def tick_n_def wp_rules Let_def rows decide
      cfile checkpoint_written)
  have "wp (seq (barriers some_tools one_runner) (report_tick some_tools one_runner cp)) ?Q observed_kit"
    unfolding barriers_def due for_each.simps wp_seq one_barrier_def prod.case wp_if wp_bnd wp_listing wp_pure listed wp_ret
    using due(3,4) report by (auto simp: due(2) wp_rules simp del: barrier_jobs.simps intro!: wp_mono [OF barrier_submission])
  then show ?thesis
    unfolding tick_def tick_work_def wp_seq wp_modify start first wp_ret specs
    by (simp add: wp_def [of "observe_and_finalize _ _ _"] wp_def [of "launch_ready _ _ _ _"] observing nothing_to_launch)
qed

text \<open>The tick that submits the barrier.\<close>

theorem submissions_grounded_witness:
  "\<exists>t k c. tick 5 some_tools one_runner False adopted_kit = (Inr t, k) \<and> y_calls k = [c] \<and> grounded (rn_specs one_runner) c"
proof -
  from barrier_tick [of False] obtain t k where t: "tick 5 some_tools one_runner False adopted_kit = (Inr t, k)" "length (y_calls k) = 1"
    by (auto simp: wp_def split: prod.splits)
  have "y_calls adopted_kit = []" by (simp add: adopted_kit_def start_kit_def)
  with submissions_grounded [OF adopted_state t(1)] t show ?thesis by (auto simp: length_Suc_conv)
qed

theorem launches_complete_witness:
  "list_all (\<lambda>s. p_id s \<in> set (y_submitted adopted_kit)) (ready (rn_specs one_runner) (rows_of adopted_kit)) \<and>
    (\<exists>new. y_submitted adopted_kit = y_submitted adopted_kit @ new \<and> distinct new)"
proof -
  have "launch_ready 5 3 some_tools one_runner adopted_kit = (Inr (), adopted_kit)" by code_simp
  then have "launch_ready 5 (2 * length (rn_specs one_runner) + 1) some_tools one_runner adopted_kit = (Inr (), adopted_kit)"
    by (simp add: one_runner_def eval_nat_numeral)
  from launches_complete [OF adopted_state this] show ?thesis unfolding list_all_iff by blast
qed

theorem tick_report_sound_witness:
  "\<exists>t k. tick 5 some_tools one_runner False adopted_kit = (Inr t, k) \<and> k_status t = ''AWAITING'' \<and>
     k_waiting t = Some ''job:8'' \<and> waiting_on_error (JStr ''job:8'') = None"
proof -
  from barrier_tick [of False] obtain t k where t: "tick 5 some_tools one_runner False adopted_kit = (Inr t, k)"
    and k: "rows_of k = [observed_record, barrier_record]" "k_waiting t = Some ''job:8''"
    by (auto simp: wp_def split: prod.splits)
  have "\<forall>r\<in>set (in_flight [observed_record, barrier_record]). fullmatch job_id_rx (or_else (job_of r) [])"
    by code_simp
  then have jobs: "\<forall>r\<in>set (in_flight (rows_of k)). fullmatch job_id_rx (or_else (job_of r) [])" unfolding k(1) .
  have "in_flight (rows_of k) \<noteq> []" unfolding k(1) by code_simp
  with tick_report_sound [OF adopted_state t jobs] t k(2) show ?thesis by auto
qed

subsection \<open>Publication and submission\<close>

definition new_tree :: fs where
  "new_tree = fmap_of_list [([''o''], File ''x'')]"

definition torn_copy :: slots where
  "torn_copy = \<lparr>sl_dst = None, sl_fresh = Some fmempty, sl_marker = False, sl_old = None\<rparr>"

text \<open>A first attempt stops in the middle of its copy; the next one succeeds.\<close>

lemma torn: "publishes None new_tree torn_copy"
proof (rule publishes.interrupted [OF publishes.untouched])
  let ?W = "\<lparr>os_copy = \<lambda>n. ([fmempty], False), os_remove = \<lambda>n t. ([], True)\<rparr>"
  let ?d = "\<lparr>d_now = \<lparr>sl_dst = None, sl_fresh = None, sl_marker = False, sl_old = None\<rparr>,
    d_seen = [\<lparr>sl_dst = None, sl_fresh = None, sl_marker = False, sl_old = None\<rparr>], d_n = 0\<rparr>"
  show "replace_dir ?W new_tree ?d = (fst (replace_dir ?W new_tree ?d), snd (replace_dir ?W new_tree ?d))" by simp
  have "hd (d_seen (snd (replace_dir ?W new_tree ?d))) = torn_copy \<and> d_seen (snd (replace_dir ?W new_tree ?d)) \<noteq> []"
    by (simp add: replace_dir_def proceed_def copy_tree_def set_marker_def act_def count_def cmd_defs torn_copy_def)
  then show "torn_copy \<in> set (d_seen (snd (replace_dir ?W new_tree ?d)))" by (metis list.set_sel(1))
qed

theorem publish_crash_safe_witness:
  "\<exists>d. replace_dir (rn_os one_runner) new_tree \<lparr>d_now = torn_copy, d_seen = [torn_copy], d_n = 0\<rparr> = (Inr (), d) \<and>
     d_now d = \<lparr>sl_dst = Some (Tree new_tree), sl_fresh = None, sl_marker = False, sl_old = None\<rparr>"
proof -
  have "benign (rn_os one_runner)" by (simp add: benign_def one_runner_def)
  with publish_crash_safe [OF torn] show ?thesis by blast
qed

theorem intent_before_dispatch_witness:
  "\<exists>f s. fmlookup (g_files (y_ledger (snd (submit some_tools adopted_record [''sbatch''] None start_kit)))) ''0'' = Some f \<and>
     a_submit f = Some s \<and> s_status s \<in> {''submitted'', ''rejected'', ''intent''} \<and> s_argv s = [''sbatch'']"
proof -
  have schema: "a_schema adopted_record = schema" "a_id adopted_record = ''0''"
    by (simp_all add: adopted_record_def ledger_new_def new_record_def)
  from intent_before_dispatch [OF schema(1) prod.collapse [symmetric], of some_tools "[''sbatch'']" None start_kit]
  show ?thesis unfolding schema(2) by fastforce
qed

end
