(* ===== verification/Report_Witnesses.thy ===== *)
theory Report_Witnesses
  imports Report Runner_Witnesses
begin


end
