(* ===== verification/Contract.thy ===== *)
theory Contract
  imports Process
begin

text \<open>
  Access records: \<open>access/contract.py\<close>, \<open>validate_role\<close> of \<open>access/roles.py\<close>, and
  \<open>farm_identity\<close> and \<open>deployment_stamp\<close> of \<open>provenance.py\<close>. An \<open>AccessError\<close> carries its
  state and its reason. The parameters of a site: \<open>a_sha\<close> is the hex SHA-256 of a text,
  \<open>a_digest\<close> the digest of a dictionary's canonical form, \<open>a_when\<close> is \<open>fromisoformat\<close> in
  microseconds with the presence of a time zone, \<open>a_iso\<close> its inverse, \<open>a_size\<close> the length of the
  file a dictionary is written to.
\<close>

record site =
  a_sha :: "string \<Rightarrow> string"
  a_digest :: "dict \<Rightarrow> string"
  a_when :: "string \<Rightarrow> (int \<times> bool) option"
  a_iso :: "int \<Rightarrow> string"
  a_size :: "dict \<Rightarrow> nat"

abbreviation conflict :: "string \<Rightarrow> exn" where
  "conflict reason \<equiv> AccessError ''CONFLICT'' reason"

definition require :: "bool \<Rightarrow> string \<Rightarrow> string \<Rightarrow> unit res" where
  "require b state reason = ensure b (AccessError state reason)"

lemma require_simps [simp]:
  "require b st r = Inr u \<longleftrightarrow> b"
  "require b st r = Inl e \<longleftrightarrow> \<not> b \<and> e = AccessError st r"
  by (auto simp: require_def)

subsection \<open>Identifiers\<close>

text \<open>\<open>NAME\<close>, \<open>EPOCH\<close>, \<open>SHA256\<close>, \<open>NODE\<close>, and the native identifiers of Slurm and tmux.\<close>

definition name_rx :: rx where
  "name_rx = Seq (Cls alnum) (Rep (Cls (\<lambda>c. alnum c \<or> c = CHR ''_'' \<or> c = CHR ''-'')) 0 63)"

definition epoch_rx :: rx where
  "epoch_rx = Seq (Cls alnum) (Rep (Cls id_char) 0 127)"

definition node_rx :: rx where
  "node_rx = Seq (Cls alnum) (Rep (Cls id_char) 0 254)"

definition slurm_job_rx :: rx where
  "slurm_job_rx = Seq (Cls (in_range CHR ''1'' CHR ''9'')) (Star (Cls is_digit))"

definition native_rx :: "char \<Rightarrow> rx" where
  "native_rx c = Seq (Cls (\<lambda>x. x = c)) (Plus (Cls is_digit))"

definition start_time_rx :: rx where
  "start_time_rx = (let d = Cls is_digit; dd = Rep d 2 2 in
     Seq (Rep d 4 4) (Seq (lit ''-'') (Seq dd (Seq (lit ''-'') (Seq dd (Seq (lit ''T'')
       (Seq dd (Seq (lit '':'') (Seq dd (Seq (lit '':'') dd))))))))))"

fun is_id :: "rx \<Rightarrow> json \<Rightarrow> bool" where
  "is_id r (JStr s) = fullmatch r s"
| "is_id r j = False"

definition need_id :: "rx \<Rightarrow> json \<Rightarrow> unit res" where
  "need_id r j = require (is_id r j) ''CONFLICT'' ''invalid_identifier''"

definition bad_id :: exn where
  "bad_id = conflict ''invalid_identifier''"

lemma is_id_iff: "is_id r j \<longleftrightarrow> (\<exists>s. j = JStr s \<and> fullmatch r s)"
  by (cases j) auto

definition target_name :: "string \<Rightarrow> unit res" where
  "target_name v = rbind (require (length v \<le> 129) ''CONFLICT'' ''invalid_target'') (\<lambda>_.
     let parts = split_on (CHR ''/'') v in
     rbind (require (1 \<le> length parts \<and> length parts \<le> 2) ''CONFLICT'' ''invalid_target'') (\<lambda>_.
     checks (map (\<lambda>p. (fullmatch name_rx p, bad_id)) parts)))"

subsection \<open>Parts of a record\<close>

fun obj_of :: "json \<Rightarrow> dict" where
  "obj_of (JObj d) = d"
| "obj_of j = fmempty"

text \<open>\<open>d[k][l]\<close>, of a dictionary whose shape has been checked.\<close>

definition sub :: "dict \<Rightarrow> string \<Rightarrow> string \<Rightarrow> json" where
  "sub d k l = dget (obj_of (dget d k)) l"

definition has_fields :: "json \<Rightarrow> string list \<Rightarrow> bool" where
  "has_fields j ks = (case j of JObj d \<Rightarrow> fmdom d = fset_of_list ks | _ \<Rightarrow> False)"

fun int_at_least :: "int \<Rightarrow> json \<Rightarrow> bool" where
  "int_at_least n (JInt i) = (n \<le> i)"
| "int_at_least n j = False"

fun nonempty_str :: "json \<Rightarrow> bool" where
  "nonempty_str (JStr s) = (s \<noteq> [])"
| "nonempty_str j = False"

text \<open>\<open>PurePosixPath(s).is_absolute()\<close>, \<open>.name\<close>, and \<open>.parent\<close> of an absolute path.\<close>

definition absolute :: "string \<Rightarrow> bool" where
  "absolute s = starts_with ''/'' s"

definition path_name :: "string \<Rightarrow> string" where
  "path_name s = (let ps = filter (\<lambda>p. p \<noteq> [] \<and> p \<noteq> ''.'') (split_on (CHR ''/'') s)
     in if ps = [] then [] else last ps)"

definition parent_path :: "string \<Rightarrow> string" where
  "parent_path s = (let ps = filter (\<lambda>p. p \<noteq> [] \<and> p \<noteq> ''.'') (split_on (CHR ''/'') s)
     in ''/'' @ join ''/'' (butlast ps))"

fun absolute_str :: "json \<Rightarrow> bool" where
  "absolute_str (JStr s) = absolute s"
| "absolute_str j = False"

definition farm_id :: "site \<Rightarrow> string \<Rightarrow> string" where
  "farm_id S root = ''farm-'' @ a_sha S root"

definition farm_identity :: "site \<Rightarrow> string \<Rightarrow> dict" where
  "farm_identity S root = obj [(''farm_root'', JStr root), (''farm_id'', JStr (farm_id S root))]"

definition stamp_keys :: "string list" where
  "stamp_keys = [''farm_id'', ''farm_root'', ''execution_epoch'', ''host'', ''boot_id'', ''pid_namespace'',
     ''pid'', ''pid_starttime'', ''started_at'', ''source_sha256'', ''protocol_version'', ''scheduler_attestation'']"

definition deployment_stamp :: "dict \<Rightarrow> dict" where
  "deployment_stamp m = obj (map (\<lambda>k. (k, dget m k)) stamp_keys)"

definition timestamp :: "site \<Rightarrow> json \<Rightarrow> int res" where
  "timestamp S j = (case j of
     JStr s \<Rightarrow> (case a_when S s of Some (t, True) \<Rightarrow> Inr t | _ \<Rightarrow> Inl (conflict ''invalid_timestamp''))
   | _ \<Rightarrow> Inl (conflict ''invalid_timestamp''))"

definition is_time :: "site \<Rightarrow> json \<Rightarrow> bool" where
  "is_time S j = (case timestamp S j of Inl e \<Rightarrow> False | Inr t \<Rightarrow> True)"

definition scheduler_fields :: "string list" where
  "scheduler_fields = [''kind'', ''job_id'', ''scheduler_node'', ''allocation_started_at'']"

definition readable_time :: "site \<Rightarrow> json \<Rightarrow> bool" where
  "readable_time S j = (case j of JStr s \<Rightarrow> a_when S s \<noteq> None | _ \<Rightarrow> False)"

definition scheduler_guards :: "site \<Rightarrow> json \<Rightarrow> (bool \<times> exn) list" where
  "scheduler_guards S j = (let d = obj_of j in
     [(has_fields j scheduler_fields \<and> dget d ''kind'' = JStr ''slurm'', conflict ''scheduler''),
      (is_id slurm_job_rx (dget d ''job_id''), bad_id),
      (is_id node_rx (dget d ''scheduler_node''), bad_id),
      (is_id start_time_rx (dget d ''allocation_started_at''), conflict ''allocation_identity''),
      (readable_time S (dget d ''allocation_started_at''), conflict ''allocation_identity'')])"

definition validate_scheduler :: "site \<Rightarrow> json \<Rightarrow> json res" where
  "validate_scheduler S j = rbind (checks (scheduler_guards S j)) (\<lambda>_. Inr j)"

definition role_ok :: "json \<Rightarrow> bool" where
  "role_ok j \<longleftrightarrow> j = JNull \<or> (let d = obj_of j in
     has_fields j [''kind'', ''pid'', ''pid_starttime'', ''pid_namespace'', ''pane_id''] \<and>
     (dget d ''kind'' = JStr ''interactive'' \<or> dget d ''kind'' = JStr ''daemon'') \<and> int_at_least 1 (dget d ''pid'') \<and>
     int_at_least 0 (dget d ''pid_starttime'') \<and> nonempty_str (dget d ''pid_namespace'') \<and>
     is_id (native_rx CHR ''%'') (dget d ''pane_id''))"

definition control_fields :: "string list" where
  "control_fields = [''socket'', ''socket_device'', ''socket_inode'', ''session'', ''session_id'', ''default_window'',
     ''window_id'', ''server_pid'', ''server_starttime'', ''boot_id'']"

definition control_guards :: "json \<Rightarrow> (bool \<times> exn) list" where
  "control_guards j = (let d = obj_of j in
     [(has_fields j control_fields, conflict ''control''),
      (absolute_str (dget d ''socket''), conflict ''socket_path''),
      (is_id name_rx (dget d ''session''), bad_id),
      (is_id (native_rx CHR ''$'') (dget d ''session_id''), bad_id)] @
     (if dget d ''default_window'' \<noteq> JNull
      then [(is_id name_rx (dget d ''default_window''), bad_id), (is_id (native_rx CHR ''@'') (dget d ''window_id''), bad_id)]
      else [(dget d ''window_id'' = JNull, conflict ''window'')]) @
     [(int_at_least 0 (dget d ''socket_device'') \<and> int_at_least 0 (dget d ''socket_inode'') \<and>
       int_at_least 1 (dget d ''server_pid'') \<and> int_at_least 0 (dget d ''server_starttime'') \<and>
       nonempty_str (dget d ''boot_id''), conflict ''server_identity'')])"

subsection \<open>Records\<close>

definition record_fields :: "string list" where
  "record_fields = [''schema_version'', ''target'', ''farm_id'', ''farm_root'', ''execution_epoch'', ''runtime_host'',
     ''protocol_version'', ''source_sha256'', ''scheduler'', ''control'', ''owner_uid'', ''published_at'']"

definition generation_fields :: "string list" where
  "generation_fields = [''generation'', ''previous_record_sha256'', ''endpoint_role'']"

definition is_generation :: "dict \<Rightarrow> bool" where
  "is_generation r \<longleftrightarrow> dget r ''schema_version'' = JInt 2"

definition record_guards :: "site \<Rightarrow> dict \<Rightarrow> string \<Rightarrow> string \<Rightarrow> (bool \<times> exn) list" where
  "record_guards S r target epoch =
     [(has_fields (JObj r) (record_fields @ (if is_generation r then generation_fields else [])) \<and>
       (dget r ''schema_version'' = JInt 1 \<or> dget r ''schema_version'' = JInt 2), conflict ''record_schema'')] @
     (if is_generation r then
        [(role_ok (dget r ''endpoint_role''), conflict ''role_schema''),
         (is_id epoch_rx (dget r ''generation''), bad_id)] @
        (if dget r ''previous_record_sha256'' \<noteq> JNull
         then [(is_id sha256_rx (dget r ''previous_record_sha256''), bad_id)] else [])
      else []) @
     [(dget r ''target'' = JStr target \<and> dget r ''execution_epoch'' = JStr epoch, conflict ''record_identity''),
      (fullmatch epoch_rx epoch, bad_id),
      (case dget r ''farm_root'' of JStr root \<Rightarrow> absolute root \<and> path_name root = ''.farm'' | _ \<Rightarrow> False, conflict ''farm_root''),
      (case dget r ''farm_root'' of JStr root \<Rightarrow> dget r ''farm_id'' = JStr (farm_id S root) | _ \<Rightarrow> False, conflict ''farm_id''),
      (nonempty_str (dget r ''runtime_host''), conflict ''host''),
      (is_id sha256_rx (dget r ''source_sha256''), bad_id),
      (int_at_least 1 (dget r ''protocol_version'') \<and> int_at_least 0 (dget r ''owner_uid''), conflict ''record_types'')] @
     scheduler_guards S (dget r ''scheduler'') @ control_guards (dget r ''control'') @
     [(is_time S (dget r ''published_at''), conflict ''invalid_timestamp'')]"


definition validate_record :: "site \<Rightarrow> dict \<Rightarrow> string \<Rightarrow> string \<Rightarrow> dict res" where
  "validate_record S r target epoch = rbind (checks (record_guards S r target epoch)) (\<lambda>_. Inr r)"

text \<open>\<open>(record.get("endpoint_role") or {}).get("kind")\<close>, of a checked record.\<close>

definition role_kind :: "dict \<Rightarrow> json" where
  "role_kind r = sub r ''endpoint_role'' ''kind''"

definition marker_list :: "dict \<Rightarrow> (string \<times> json) list" where
  "marker_list r = [(''FARM_ID'', dget r ''farm_id''), (''FARM_EXECUTION_EPOCH'', dget r ''execution_epoch''),
       (''FARM_SLURM_JOB_ID'', sub r ''scheduler'' ''job_id''), (''FARM_ROOT'', dget r ''farm_root''),
       (''FARM_ACCESS_TARGET'', dget r ''target''), (''FARM_SOURCE_SHA256'', dget r ''source_sha256''),
       (''FARM_PROTOCOL_VERSION'', JStr (py_str (dget r ''protocol_version''))), (''FARM_RUNTIME_HOST'', dget r ''runtime_host''),
       (''FARM_SLURM_NODE'', sub r ''scheduler'' ''scheduler_node''),
       (''FARM_SLURM_START_TIME'', sub r ''scheduler'' ''allocation_started_at'')] @
     (if dget r ''endpoint_role'' \<noteq> JNull then [(''FARM_ENDPOINT_ROLE'', role_kind r)] else [])"

definition markers :: "dict \<Rightarrow> dict" where
  "markers r = obj (marker_list r)"

definition marker_names :: "string list" where
  "marker_names = [''FARM_ID'', ''FARM_EXECUTION_EPOCH'', ''FARM_SLURM_JOB_ID'', ''FARM_ROOT'',
     ''FARM_ACCESS_TARGET'', ''FARM_SOURCE_SHA256'', ''FARM_PROTOCOL_VERSION'', ''FARM_RUNTIME_HOST'',
     ''FARM_SLURM_NODE'', ''FARM_SLURM_START_TIME'', ''FARM_ENDPOINT_ROLE'']"

text \<open>The answer of an operation; the sentence under \<open>detail\<close> is left out.\<close>

definition answer_doc :: "site \<Rightarrow> int \<Rightarrow> string \<Rightarrow> json \<Rightarrow> string \<Rightarrow> (string \<times> json) list \<Rightarrow> dict" where
  "answer_doc S t state target reason extra = obj ([(''schema_version'', JInt 1), (''state'', JStr state), (''target'', target),
     (''verified'', JBool (state = ''VERIFIED'')), (''reason'', JStr reason), (''observed_at'', JStr (a_iso S t))] @ extra)"

subsection \<open>What a checked record is\<close>

lemma validate_record_Inr:
  "validate_record S r target epoch = Inr r' \<longleftrightarrow> r' = r \<and> (\<forall>(b, e)\<in>set (record_guards S r target epoch). b)"
  by (auto simp: validate_record_def rbind_Inr_iff)

lemma checked_record:
  assumes "validate_record S r target epoch = Inr r'"
  shows "r' = r" "dget r ''target'' = JStr target" "dget r ''execution_epoch'' = JStr epoch" "fullmatch epoch_rx epoch"
    "\<exists>root. dget r ''farm_root'' = JStr root \<and> absolute root \<and> path_name root = ''.farm'' \<and>
       dget r ''farm_id'' = JStr (farm_id S root)"
    "is_id sha256_rx (dget r ''source_sha256'')"
    "dget r ''schema_version'' = JInt 1 \<or> is_generation r"
    "is_generation r \<Longrightarrow> role_ok (dget r ''endpoint_role'') \<and> is_id epoch_rx (dget r ''generation'')"
    "\<not> is_generation r \<Longrightarrow> dget r ''endpoint_role'' = JNull"
    "int_at_least 1 (dget r ''protocol_version'')" "int_at_least 0 (dget r ''owner_uid'')"
    "nonempty_str (dget r ''runtime_host'')"
    "list_all fst (scheduler_guards S (dget r ''scheduler''))" "list_all fst (control_guards (dget r ''control''))"
proof -
  from assms have r: "r' = r" and all: "list_all fst (record_guards S r target epoch)"
    by (auto simp: validate_record_Inr list_all_iff)
  show "r' = r" by (rule r)
  note g = all [unfolded record_guards_def]
  show "dget r ''target'' = JStr target" "dget r ''execution_epoch'' = JStr epoch" "fullmatch epoch_rx epoch"
    "is_id sha256_rx (dget r ''source_sha256'')"
    "dget r ''schema_version'' = JInt 1 \<or> is_generation r"
    "int_at_least 1 (dget r ''protocol_version'')" "int_at_least 0 (dget r ''owner_uid'')"
    "nonempty_str (dget r ''runtime_host'')"
    "list_all fst (scheduler_guards S (dget r ''scheduler''))" "list_all fst (control_guards (dget r ''control''))"
    "is_generation r \<Longrightarrow> role_ok (dget r ''endpoint_role'') \<and> is_id epoch_rx (dget r ''generation'')"
    using g by (simp_all add: is_generation_def del: fullmatch.simps is_id.simps)
  show "\<exists>root. dget r ''farm_root'' = JStr root \<and> absolute root \<and> path_name root = ''.farm'' \<and>
       dget r ''farm_id'' = JStr (farm_id S root)"
    using g by (cases "dget r ''farm_root''") (simp_all del: fullmatch.simps is_id.simps)
  assume "\<not> is_generation r"
  then have "has_fields (JObj r) record_fields" using g by (simp del: fullmatch.simps is_id.simps)
  then have "''endpoint_role'' |\<notin>| fmdom r" by (simp add: has_fields_def record_fields_def)
  then show "dget r ''endpoint_role'' = JNull" by (simp add: dget_def fmdom_notD)
qed

end
