(* ===== verification/Probes.thy ===== *)
theory Probes
  imports Contract
begin

text \<open>
  The observations of the access layer: \<open>access/observations.py\<close> and \<open>process\<close> and
  \<open>observe_role\<close> of \<open>access/roles.py\<close>. The outside world is a stream: every observation reads it
  at its own instant, so that it may change between any two of them. While a publisher does not
  hold its locks, another one may change the registry at each instant.
\<close>

subsection \<open>The outside world\<close>

text \<open>What \<open>subprocess.run\<close> ends in: a refused or failed start (or a timeout), output that is not
  text, or a return code with standard output and error.\<close>

datatype ran = Refused | NotRun | Garbled | Ran int string string

record proc_view =
  pv_owner :: "int seen"
  pv_stat :: "string seen"
  pv_exe :: "string seen"

text \<open>A file of the registry: a symbolic link, a directory or a file with owner and mode, a file
  that cannot be read (for lack of permission or otherwise). A file has a size in bytes and what
  strict parsing gives, \<open>None\<close> for invalid JSON, a repeated key or a non-finite number.\<close>

datatype rnode = RLink | RDir int nat | RFile int nat nat "json option" | RBad bool

text \<open>A durable write succeeds, fails without effect, or takes effect and then fails to synchronize.\<close>

datatype fate = Written | Unwritten | Unsynced

type_synonym rfiles = "(string list, rnode) fmap"

record outside =
  pb_run :: "nat \<Rightarrow> string list \<Rightarrow> ran"
  pb_socket :: "nat \<Rightarrow> string \<Rightarrow> (bool \<times> int \<times> int \<times> int) seen"
  pb_machine :: "nat \<Rightarrow> machine"
  pb_proc :: "nat \<Rightarrow> int \<Rightarrow> proc_view"
  pb_farm :: "nat \<Rightarrow> string \<Rightarrow> string \<Rightarrow> rnode option"
  pb_clock :: "nat \<Rightarrow> int"
  pb_identity :: "nat \<Rightarrow> dict"
  pb_others :: "nat \<Rightarrow> rfiles \<Rightarrow> rfiles"
  pb_disk :: "nat \<Rightarrow> fate"
  pb_resolve :: "string \<Rightarrow> string"
  pb_dirmode :: nat
  pb_uid :: int
  pb_tmpdir :: "string option"

record aworld =
  aw_t :: nat
  aw_files :: rfiles
  aw_cmds :: "string list list"
  aw_lock :: "string list option"

text \<open>One observation. Meanwhile others move the registry, except the directory whose lock is held.\<close>

definition under :: "string list \<Rightarrow> string list \<Rightarrow> bool" where
  "under d k \<longleftrightarrow> take (length d) k = d"

definition others_move :: "outside \<Rightarrow> nat \<Rightarrow> string list option \<Rightarrow> rfiles \<Rightarrow> rfiles" where
  "others_move P t lock fs = (case lock of
     None \<Rightarrow> pb_others P t fs
   | Some d \<Rightarrow> fmfilter (\<lambda>k. \<not> under d k) (pb_others P t fs) ++\<^sub>f fmfilter (under d) fs)"

definition pass_instant :: "outside \<Rightarrow> aworld \<Rightarrow> aworld" where
  "pass_instant P w = w\<lparr>aw_t := Suc (aw_t w), aw_files := others_move P (aw_t w) (aw_lock w) (aw_files w)\<rparr>"

definition look :: "outside \<Rightarrow> (nat \<Rightarrow> 'a) \<Rightarrow> (aworld, 'a) cmd" where
  "look P f = bnd (gets (\<lambda>w. f (aw_t w))) (\<lambda>x. seq (modify (pass_instant P)) (ret x))"

lemma wp_look [wp_rules]: "wp (look P f) Q w = Q (Inr (f (aw_t w))) (pass_instant P w)"
  by (simp add: look_def wp_rules)

lemma look_run_Inr [run_Inr]: "look P f w = (r, w') \<longleftrightarrow> r = Inr (f (aw_t w)) \<and> w' = pass_instant P w"
  by (auto simp: look_def cmd_defs)

lemma pass_instant_simps [simp]:
  "aw_t (pass_instant P w) = Suc (aw_t w)"
  "aw_cmds (pass_instant P w) = aw_cmds w"
  "aw_lock (pass_instant P w) = aw_lock w"
  by (simp_all add: pass_instant_def)

lemma others_outside:
  assumes "under d k"
  shows "fmlookup (others_move P t (Some d) fs) k = fmlookup fs k"
  using assms by (auto simp: others_move_def fmlookup_dom_iff)

subsection \<open>Commands\<close>

definition lower_char :: "char \<Rightarrow> char" where
  "lower_char c = (let n = of_char c :: nat in if 65 \<le> n \<and> n \<le> 90 then char_of (n + 32) else c)"

definition denial_texts :: "string list" where
  "denial_texts = [''permission denied'', ''access denied'', ''operation not permitted'']"

definition missing_rx :: rx where
  "missing_rx = Seq (Alt (lit ''can't find'') (lit ''no such'')) (Seq (lit '' '')
     (Seq (Alt (lit ''session'') (lit ''window'')) (Seq (Opt (lit '':'')) (Seq (lit '' '')
       (Plus (Cls (\<lambda>c. c \<noteq> CHR 0x0D \<and> c \<noteq> CHR 0x0A)))))))"

definition ran_result :: "ran \<Rightarrow> string option \<Rightarrow> string res" where
  "ran_result r missing = (case r of
     Refused \<Rightarrow> Inl (AccessError ''AUTH_REQUIRED'' ''command_permission'')
   | NotRun \<Rightarrow> Inl (AccessError ''UNREACHABLE'' ''observation_unreachable'')
   | Garbled \<Rightarrow> Inl (ValueError ''invalid start byte'')
   | Ran code out err \<Rightarrow>
       if code \<noteq> 0 then
         (let error = map lower_char err in
          if list_ex (\<lambda>t. contains t error) denial_texts then Inl (AccessError ''AUTH_REQUIRED'' ''command_permission'')
          else case missing of
            Some m \<Rightarrow> if fullmatch missing_rx (strip error) then Inl (AccessError ''SESSION_MISSING'' m)
                      else Inl (AccessError ''UNREACHABLE'' ''observation_failed'')
          | None \<Rightarrow> Inl (AccessError ''UNREACHABLE'' ''observation_failed''))
       else if length out \<le> 1024 * 1024 then Inr out
       else Inl (AccessError ''UNREACHABLE'' ''observation_size''))"

definition command :: "outside \<Rightarrow> string list \<Rightarrow> string option \<Rightarrow> (aworld, string) cmd" where
  "command P argv missing =
     seq (modify (\<lambda>w. w\<lparr>aw_cmds := aw_cmds w @ [argv]\<rparr>))
     (bnd (look P (\<lambda>t. pb_run P t argv)) (\<lambda>r. pure (ran_result r missing)))"

text \<open>
  The commands that only ask, word by word: the description of one job with a numeric id, the names in a host
  list, and of one tmux server the identity of a session, its windows, its panes and its environment, each in
  the one format that is parsed. No other command of Slurm or tmux is among them.
\<close>

definition asks_slurm :: "string list \<Rightarrow> bool" where
  "asks_slurm argv \<longleftrightarrow>
     (length argv = 6 \<and> take 5 argv = [''scontrol'', ''--local'', ''--oneliner'', ''show'', ''job''] \<and> fullmatch slurm_job_rx (argv ! 5)) \<or>
     (length argv = 4 \<and> take 3 argv = [''scontrol'', ''show'', ''hostnames''])"

definition asks_tmux :: "string list \<Rightarrow> bool" where
  "asks_tmux argv \<longleftrightarrow> take 2 argv = [''tmux'', ''-S''] \<and> (let args = drop 3 argv in
     (length args = 5 \<and> take 3 args = [''display-message'', ''-p'', ''-t''] \<and>
        args ! 4 = ''#{session_id}|#{session_name}|#{pid}'') \<or>
     (length args = 5 \<and> take 2 args = [''list-windows'', ''-t''] \<and>
        drop 3 args = [''-F'', ''#{window_id}|#{window_index}|#{window_name}'']) \<or>
     (length args = 6 \<and> take 3 args = [''list-panes'', ''-s'', ''-t''] \<and>
        drop 4 args = [''-F'', ''#{pane_id}|#{pane_pid}|#{pane_dead}'']) \<or>
     (length args = 3 \<and> take 2 args = [''show-environment'', ''-t'']))"

definition reads_only :: "string list \<Rightarrow> bool" where
  "reads_only argv \<longleftrightarrow> asks_slurm argv \<or> asks_tmux argv"

subsection \<open>Slurm\<close>

definition field_values :: "string \<Rightarrow> string \<Rightarrow> string list" where
  "field_values key raw = map (drop (length key + 1))
     (filter (\<lambda>w. starts_with (key @ ''='') w \<and> length w > length key + 1) (split_ws raw))"

definition uid_rx :: rx where
  "uid_rx = (let other = Cls (\<lambda>c. c \<noteq> CHR ''('' \<and> c \<noteq> CHR '')'') in
     Seq (Plus other) (Seq (lit ''('') (Seq (Plus (Cls is_digit)) (lit '')''))))"

record job_view =
  jb_id :: string
  jb_state :: string
  jb_nodes :: "string list"
  jb_owner :: int
  jb_start :: string

definition job_fields :: "string \<Rightarrow> string list option" where
  "job_fields raw = (let vs = map (\<lambda>k. field_values k raw)
       [''JobId'', ''JobState'', ''UserId'', ''NodeList'', ''StartTime''] in
     if list_all (\<lambda>v. length v = 1) vs then Some (map hd vs) else None)"

definition job_nodes :: "outside \<Rightarrow> string \<Rightarrow> string \<Rightarrow> string \<Rightarrow> (aworld, string list) cmd" where
  "job_nodes P state nodelist start =
     (if state \<noteq> ''RUNNING'' then ret []
      else
        seq (pure (require (nodelist \<notin> {''(null)'', ''None'', ''N/A''} \<and> start \<notin> {''Unknown'', ''N/A'', ''None''})
               ''UNREACHABLE'' ''allocation_identity''))
        (bnd (command P [''scontrol'', ''show'', ''hostnames'', nodelist] None) (\<lambda>out.
         let nodes = splitlines out in
         seq (pure (require (nodes \<noteq> [] \<and> distinct nodes \<and> list_all (fullmatch (Plus (Cls id_char))) nodes)
                ''UNREACHABLE'' ''allocation_nodes''))
         (ret nodes))))"

definition scheduler :: "outside \<Rightarrow> string \<Rightarrow> (aworld, job_view) cmd" where
  "scheduler P job =
     seq (pure (need_id slurm_job_rx (JStr job)))
     (bnd (command P [''scontrol'', ''--local'', ''--oneliner'', ''show'', ''job'', job] None) (\<lambda>raw.
      seq (pure (require (length (splitlines (strip raw)) = 1) ''UNREACHABLE'' ''scheduler_rows''))
      (case job_fields raw of
         Some [i, state, user, nodelist, start] \<Rightarrow>
           seq (pure (require (i = job) ''CONFLICT'' ''scheduler_job_id''))
           (seq (pure (require (fullmatch uid_rx user) ''UNREACHABLE'' ''scheduler_uid''))
           (bnd (job_nodes P state nodelist start) (\<lambda>nodes.
            bnd (pure (int_literal (butlast (after (CHR ''('') user)))) (\<lambda>uid.
            ret \<lparr>jb_id = job, jb_state = state, jb_nodes = nodes, jb_owner = uid, jb_start = start\<rparr>))))
       | _ \<Rightarrow> throw (AccessError ''UNREACHABLE'' ''scheduler_fields''))))"

subsection \<open>tmux\<close>

text \<open>\<open>str.isdigit()\<close>, true of superscript digits too, and \<open>str.split(c, 2)\<close>.\<close>

definition isdigit :: "string \<Rightarrow> bool" where
  "isdigit s \<longleftrightarrow> s \<noteq> [] \<and> list_all (\<lambda>c. is_digit c \<or> (of_char c :: nat) \<in> {178, 179, 185}) s"

definition split_twice :: "char \<Rightarrow> string \<Rightarrow> string list" where
  "split_twice c s = (case split_on c s of a # b # d # rest \<Rightarrow> [a, b, join [c] (d # rest)] | xs \<Rightarrow> xs)"

definition default_socket :: "outside \<Rightarrow> string" where
  "default_socket P = (case pb_tmpdir P of None \<Rightarrow> ''/tmp/'' | Some [] \<Rightarrow> [] | Some d \<Rightarrow> d @ ''/'') @
     ''tmux-'' @ int_str (pb_uid P) @ ''/default''"

definition socket_identity :: "outside \<Rightarrow> string \<Rightarrow> (aworld, int \<times> int) cmd" where
  "socket_identity P socket =
     seq (pure (require (absolute socket) ''CONFLICT'' ''socket_path''))
     (bnd (look P (\<lambda>t. pb_socket P t socket)) (\<lambda>r. pure (case r of
        Gone \<Rightarrow> Inl (AccessError ''SESSION_MISSING'' ''socket_missing'')
      | Denied \<Rightarrow> Inl (AccessError ''AUTH_REQUIRED'' ''socket_permission'')
      | Seen (is_socket, uid, dev, ino) \<Rightarrow>
          if \<not> is_socket then Inl (conflict ''not_socket'')
          else if uid \<noteq> pb_uid P then Inl (AccessError ''AUTH_REQUIRED'' ''socket_owner'')
          else Inr (dev, ino)
      | _ \<Rightarrow> Inl (AccessError ''UNREACHABLE'' ''socket_unreachable''))))"

definition tmux :: "string \<Rightarrow> string list \<Rightarrow> string list" where
  "tmux socket args = [''tmux'', ''-S'', socket] @ args"

definition window_rows :: "string \<Rightarrow> string list list" where
  "window_rows raw = map (split_twice (CHR ''|'')) (splitlines raw)"

definition window_row_ok :: "string list \<Rightarrow> bool" where
  "window_row_ok row \<longleftrightarrow> (case row of [i, n, name] \<Rightarrow> fullmatch (native_rx CHR ''@'') i \<and> isdigit n | _ \<Rightarrow> False)"

definition window_of :: "outside \<Rightarrow> string \<Rightarrow> string \<Rightarrow> string option \<Rightarrow> (aworld, string option) cmd" where
  "window_of P socket session_id window = (case window of
     None \<Rightarrow> ret None
   | Some w \<Rightarrow>
       bnd (command P (tmux socket [''list-windows'', ''-t'', session_id, ''-F'',
              ''#{window_id}|#{window_index}|#{window_name}'']) (Some ''session_missing'')) (\<lambda>raw.
       let rows = window_rows raw;
           matches = filter (\<lambda>row. row ! (if list_all is_digit w then 1 else 2) = w) rows
       in seq (pure (require (list_all window_row_ok rows) ''UNREACHABLE'' ''window_observation''))
          (seq (pure (require (matches \<noteq> []) ''SESSION_MISSING'' ''window_missing''))
          (seq (pure (require (length matches = 1) ''CONFLICT'' ''ambiguous_window''))
          (ret (Some (hd (hd matches))))))))"

definition session_parts :: "string \<Rightarrow> string \<Rightarrow> (string \<times> string) res" where
  "session_parts raw session = (let parts = split_on (CHR ''|'') (strip raw) in
     case parts of
       [i, name, pid] \<Rightarrow>
         if i = [] \<and> name = [] \<and> isdigit pid then Inl (AccessError ''SESSION_MISSING'' ''session_missing'')
         else if name = session \<and> fullmatch (native_rx CHR ''$'') i \<and> isdigit pid then Inr (i, pid)
         else Inl (conflict ''session_identity'')
     | _ \<Rightarrow> Inl (conflict ''session_identity''))"

definition server_process :: "outside \<Rightarrow> string \<Rightarrow> (aworld, int \<times> json \<times> int) cmd" where
  "server_process P pid =
     bnd (look P (\<lambda>t. dget (host_identity (pb_machine P t)) ''boot_id'')) (\<lambda>boot.
     bnd (pure (int_literal pid)) (\<lambda>n.
     bnd (look P (\<lambda>t. proc_starttime (pb_machine P t) n)) (\<lambda>r.
     bnd (pure r) (\<lambda>start. case start of
        Some st \<Rightarrow> seq (pure (require (truthy boot) ''UNREACHABLE'' ''server_process'')) (ret (st, boot, n))
      | None \<Rightarrow> throw (AccessError ''UNREACHABLE'' ''server_process'')))))"

definition control :: "outside \<Rightarrow> string \<Rightarrow> string \<Rightarrow> string option \<Rightarrow> (aworld, dict) cmd" where
  "control P socket session window =
     seq (pure (need_id name_rx (JStr session)))
     (seq (case window of None \<Rightarrow> ret () | Some w \<Rightarrow> pure (need_id name_rx (JStr w)))
     (bnd (socket_identity P socket) (\<lambda>before_id.
      bnd (command P (tmux socket [''display-message'', ''-p'', ''-t'', ''='' @ session @ '':'',
             ''#{session_id}|#{session_name}|#{pid}'']) (Some ''session_missing'')) (\<lambda>raw.
      bnd (pure (session_parts raw session)) (\<lambda>(session_id, pid).
      bnd (window_of P socket session_id window) (\<lambda>window_id.
      bnd (server_process P pid) (\<lambda>(start, boot, n).
      bnd (socket_identity P socket) (\<lambda>after_id.
      seq (pure (require (before_id = after_id) ''CONFLICT'' ''socket_changed''))
      (ret (obj [(''socket'', JStr socket), (''socket_device'', JInt (fst before_id)), (''socket_inode'', JInt (snd before_id)),
         (''session'', JStr session), (''session_id'', JStr session_id), (''default_window'', jopt window),
         (''window_id'', jopt window_id), (''server_pid'', JInt n), (''server_starttime'', JInt start),
         (''boot_id'', boot)]))))))))))"

text \<open>\<open>{key: value for line in raw.splitlines() if "=" in line ... if key in MARKERS}\<close>\<close>

definition parse_environment :: "string \<Rightarrow> dict" where
  "parse_environment raw = obj (map (\<lambda>l. (before (CHR ''='') l, JStr (after (CHR ''='') l)))
     (filter (\<lambda>l. CHR ''='' \<in> set l \<and> before (CHR ''='') l \<in> set marker_names) (splitlines raw)))"

fun text_or_empty :: "json \<Rightarrow> string" where
  "text_or_empty (JStr s) = s"
| "text_or_empty j = []"

definition environment :: "outside \<Rightarrow> dict \<Rightarrow> (aworld, dict) cmd" where
  "environment P ctl =
     bnd (command P (tmux (text_or_empty (dget ctl ''socket'')) [''show-environment'', ''-t'',
            text_or_empty (dget ctl ''session_id'')]) (Some ''session_missing'')) (\<lambda>raw.
     ret (parse_environment raw))"

definition bind_marker :: "outside \<Rightarrow> dict \<Rightarrow> string \<times> json \<Rightarrow> (aworld, unit) cmd" where
  "bind_marker P ctl kv =
     bnd (command P (tmux (text_or_empty (dget ctl ''socket'')) [''set-environment'', ''-t'',
            text_or_empty (dget ctl ''session_id''), fst kv, text_or_empty (snd kv)]) (Some ''session_missing'')) (\<lambda>_. ret ())"

definition bind :: "outside \<Rightarrow> dict \<Rightarrow> (aworld, unit) cmd" where
  "bind P r = (let ctl = obj_of (dget r ''control''); expected = markers r in
     bnd (environment P ctl) (\<lambda>observed.
     seq (pure (require (fmpred (\<lambda>k v. fmlookup expected k = Some v) observed) ''CONFLICT'' ''marker_conflict''))
     (seq (for_each (filter (\<lambda>(k, v). fmlookup observed k = None) (marker_list r)) (bind_marker P ctl))
     (bnd (environment P ctl) (\<lambda>again.
      pure (require (again = expected) ''CONFLICT'' ''marker_mismatch''))))))"

subsection \<open>Process roles\<close>

definition role_error :: "'a seen \<Rightarrow> exn" where
  "role_error r = (case r of
     Gone \<Rightarrow> AccessError ''SESSION_MISSING'' ''role_missing''
   | Denied \<Rightarrow> AccessError ''AUTH_REQUIRED'' ''role_permission''
   | _ \<Rightarrow> AccessError ''UNREACHABLE'' ''role_observation'')"

definition read_seen :: "'a seen \<Rightarrow> 'a res" where
  "read_seen r = (case r of Seen x \<Rightarrow> Inr x | _ \<Rightarrow> Inl (role_error r))"

definition shells :: "string list" where
  "shells = [''sh'', ''bash'', ''dash'', ''zsh'', ''fish'', ''ksh'', ''tcsh'', ''csh'']"

text \<open>\<open>Path(link).name.removesuffix(" (deleted)")\<close>\<close>

definition executable_name :: "string \<Rightarrow> string" where
  "executable_name link = (let n = path_name link in
     if ends_with '' (deleted)'' n then take (length n - 10) n else n)"

record role_process =
  rl_parent :: int
  rl_start :: int
  rl_shell :: bool

definition process_view :: "int \<Rightarrow> proc_view \<Rightarrow> role_process res" where
  "process_view uid v =
     rbind (read_seen (pv_owner v)) (\<lambda>owner.
     rbind (read_seen (pv_stat v)) (\<lambda>data.
     case stat_fields data of
       None \<Rightarrow> Inl (AccessError ''UNREACHABLE'' ''role_observation'')
     | Some fs \<Rightarrow>
         rbind (read_seen (pv_exe v)) (\<lambda>link.
         if length fs \<le> 19 then Inl (AccessError ''UNREACHABLE'' ''role_observation'')
         else case (int_literal (fs ! 1), int_literal (fs ! 19)) of
           (Inr parent, Inr start) \<Rightarrow>
             if fs ! 0 = ''Z'' \<or> fs ! 0 = ''X'' then Inl (AccessError ''SESSION_MISSING'' ''role_missing'')
             else if owner \<noteq> uid then Inl (AccessError ''AUTH_REQUIRED'' ''role_owner'')
             else Inr \<lparr>rl_parent = parent, rl_start = start, rl_shell = executable_name link \<in> set shells\<rparr>
         | _ \<Rightarrow> Inl (AccessError ''UNREACHABLE'' ''role_observation''))))"

definition process :: "outside \<Rightarrow> int \<Rightarrow> (aworld, role_process) cmd" where
  "process P pid = bnd (look P (\<lambda>t. pb_proc P t pid)) (\<lambda>v. pure (process_view (pb_uid P) v))"

definition pane_row :: "string \<Rightarrow> (string \<times> string) option res" where
  "pane_row l = (case split_on (CHR ''|'') l of
     [i, pid, dead] \<Rightarrow>
       if fullmatch (native_rx CHR ''%'') i \<and> isdigit pid \<and> (dead = ''0'' \<or> dead = ''1'')
       then Inr (if dead = ''0'' then Some (i, pid) else None)
       else Inl (AccessError ''UNREACHABLE'' ''pane_observation'')
   | _ \<Rightarrow> Inl (AccessError ''UNREACHABLE'' ''pane_observation''))"

fun live_panes :: "string list \<Rightarrow> (string \<times> int) list res" where
  "live_panes [] = Inr []"
| "live_panes (l # ls) = rbind (pane_row l) (\<lambda>row.
     rbind (case row of None \<Rightarrow> Inr [] | Some (i, pid) \<Rightarrow> rbind (int_literal pid) (\<lambda>n. Inr [(i, n)])) (\<lambda>ps.
     rbind (live_panes ls) (\<lambda>rest. Inr (ps @ rest))))"

text \<open>The walk up the parents, at most 256 of them, until a pane's process is met.\<close>

fun climb :: "outside \<Rightarrow> int list \<Rightarrow> nat \<Rightarrow> int list \<Rightarrow> int \<Rightarrow> (aworld, int list) cmd" where
  "climb P panes 0 ancestors cursor = ret ancestors"
| "climb P panes (Suc n) ancestors cursor =
     (if list_ex (\<lambda>a. a \<in> set panes) ancestors \<or> cursor \<le> 1 \<or> cursor \<in> set ancestors then ret ancestors
      else bnd (process P cursor) (\<lambda>p. climb P panes n (cursor # ancestors) (rl_parent p)))"

definition observe_role :: "outside \<Rightarrow> dict \<Rightarrow> string \<Rightarrow> int \<Rightarrow> (aworld, dict) cmd" where
  "observe_role P ctl kind pid =
     seq (pure (require ((kind = ''interactive'' \<or> kind = ''daemon'') \<and> pid > 0) ''CONFLICT'' ''role_identity''))
     (bnd (process P pid) (\<lambda>observed.
      seq (pure (require (\<not> rl_shell observed) ''CONFLICT'' ''idle_shell''))
      (bnd (command P (tmux (text_or_empty (dget ctl ''socket'')) [''list-panes'', ''-s'', ''-t'',
              text_or_empty (dget ctl ''session_id''), ''-F'', ''#{pane_id}|#{pane_pid}|#{pane_dead}''])
              (Some ''session_missing'')) (\<lambda>raw.
       bnd (pure (live_panes (splitlines raw))) (\<lambda>panes.
       bnd (climb P (map snd panes) 256 [pid] (rl_parent observed)) (\<lambda>ancestors.
       let matches = filter (\<lambda>p. snd p \<in> set ancestors) panes in
       seq (pure (require (length matches = 1) ''CONFLICT'' ''role_membership''))
       (bnd (process P pid) (\<lambda>again.
        seq (pure (require (again = observed) ''STALE_REGISTRY'' ''role_replaced''))
        (bnd (look P (\<lambda>t. h_ns (pb_machine P t))) (\<lambda>ns.
         seq (pure (require (ns \<noteq> None \<and> ns \<noteq> Some []) ''UNREACHABLE'' ''role_namespace''))
         (ret (obj [(''kind'', JStr kind), (''pid'', JInt pid), (''pid_starttime'', JInt (rl_start observed)),
            (''pid_namespace'', jopt ns), (''pane_id'', JStr (fst (hd matches)))]))))))))))))"

subsection \<open>Looking without touching\<close>

text \<open>\<open>w'\<close> is what \<open>w\<close> becomes by time passing and by commands that only ask.\<close>

inductive only_looked :: "outside \<Rightarrow> aworld \<Rightarrow> aworld \<Rightarrow> bool" for P w where
  looked_refl: "only_looked P w w"
| looked_time: "only_looked P w u \<Longrightarrow> only_looked P w (pass_instant P u)"
| looked_ask: "only_looked P w u \<Longrightarrow> reads_only argv \<Longrightarrow> only_looked P w (u\<lparr>aw_cmds := aw_cmds u @ [argv]\<rparr>)"

lemma looked_trans: "only_looked P u v \<Longrightarrow> only_looked P w u \<Longrightarrow> only_looked P w v"
  by (induction rule: only_looked.induct) (auto intro: only_looked.intros)

lemma looked_frame:
  assumes "only_looked P w u"
  shows "aw_t w \<le> aw_t u" "aw_lock u = aw_lock w"
    "aw_lock w = Some d \<Longrightarrow> under d k \<Longrightarrow> fmlookup (aw_files u) k = fmlookup (aw_files w) k"
proof -
  have "aw_t w \<le> aw_t u \<and> aw_lock u = aw_lock w \<and>
      (aw_lock w = Some d \<longrightarrow> under d k \<longrightarrow> fmlookup (aw_files u) k = fmlookup (aw_files w) k)"
    using assms
  proof induction
    case (looked_time u)
    then show ?case by (auto simp: pass_instant_def others_outside)
  qed simp_all
  then show "aw_t w \<le> aw_t u" "aw_lock u = aw_lock w"
    "aw_lock w = Some d \<Longrightarrow> under d k \<Longrightarrow> fmlookup (aw_files u) k = fmlookup (aw_files w) k"
    by auto
qed

text \<open>An operation that only looks, as an invariant of the state it started in.\<close>

named_theorems looks

definition only_looks :: "outside \<Rightarrow> (aworld, 'a) cmd \<Rightarrow> bool" where
  "only_looks P m \<longleftrightarrow> (\<forall>w. keeps (only_looked P w) m)"

lemma only_looksD: "only_looks P m \<Longrightarrow> m w = (r, w') \<Longrightarrow> only_looked P w w'"
  by (auto simp: only_looks_def intro: keepsD looked_refl)

lemma looks_basic [looks]:
  "only_looks P (ret x)" "only_looks P (throw e)" "only_looks P (pure r)" "only_looks P (gets f)" "only_looks P (look P g)"
  by (auto simp: only_looks_def keeps_def wp_rules intro: only_looked.intros)

lemma looks_bnd [looks]: "only_looks P m \<Longrightarrow> (\<And>x. only_looks P (f x)) \<Longrightarrow> only_looks P (bnd m f)"
  by (simp add: only_looks_def keeps_bnd)

lemma looks_seq [looks]: "only_looks P m \<Longrightarrow> only_looks P k \<Longrightarrow> only_looks P (seq m k)"
  by (simp add: only_looks_def keeps_seq)

lemma looks_handle [looks]: "only_looks P m \<Longrightarrow> (\<And>e. only_looks P (h e)) \<Longrightarrow> only_looks P (handle m h)"
  by (simp add: only_looks_def keeps_handle)

lemma looks_if [looks]: "only_looks P m \<Longrightarrow> only_looks P n \<Longrightarrow> only_looks P (if b then m else n)"
  by simp

lemma looks_option [looks]:
  "only_looks P m \<Longrightarrow> (\<And>y. only_looks P (f y)) \<Longrightarrow> only_looks P (case x of None \<Rightarrow> m | Some y \<Rightarrow> f y)"
  by (cases x) auto

lemma looks_prod [looks]: "(\<And>a b. only_looks P (f a b)) \<Longrightarrow> only_looks P (case x of (a, b) \<Rightarrow> f a b)"
  by (cases x) auto

lemma looks_json [looks]:
  "only_looks P m \<Longrightarrow> (\<And>d. only_looks P (f d)) \<Longrightarrow> only_looks P (case j of JObj d \<Rightarrow> f d | _ \<Rightarrow> m)"
  by (cases j) auto

lemma looks_for_each [looks]: "(\<And>x. x \<in> set xs \<Longrightarrow> only_looks P (f x)) \<Longrightarrow> only_looks P (for_each xs f)"
  by (induction xs) (auto intro: looks)

lemma looks_command [looks]: "reads_only argv \<Longrightarrow> only_looks P (command P argv missing)"
  by (auto simp: only_looks_def command_def keeps_def wp_rules intro: only_looked.intros)

lemma looks_checked: "(r = Inr x \<Longrightarrow> only_looks P k) \<Longrightarrow> r = Inr x \<or> (\<exists>e. r = Inl e) \<Longrightarrow> only_looks P (seq (pure r) k)"
  by (auto simp: only_looks_def keeps_def wp_rules intro: only_looked.intros)

lemma looks_nodes: "only_looks P (job_nodes P state nodelist start)"
  unfolding job_nodes_def Let_def by (intro looks) (auto simp: reads_only_def asks_slurm_def)

lemma looks_scheduler [looks]: "only_looks P (scheduler P job)"
  unfolding scheduler_def
proof (rule looks_checked [of _ "()"])
  assume "need_id slurm_job_rx (JStr job) = Inr ()"
  then have "fullmatch slurm_job_rx job" by (simp add: need_id_def)
  then have "reads_only [''scontrol'', ''--local'', ''--oneliner'', ''show'', ''job'', job]"
    by (simp add: reads_only_def asks_slurm_def)
  then show "only_looks P (bnd (command P [''scontrol'', ''--local'', ''--oneliner'', ''show'', ''job'', job] None) (\<lambda>raw.
      seq (pure (require (length (splitlines (strip raw)) = 1) ''UNREACHABLE'' ''scheduler_rows''))
      (case job_fields raw of
         Some [i, state, user, nodelist, start] \<Rightarrow>
           seq (pure (require (i = job) ''CONFLICT'' ''scheduler_job_id''))
           (seq (pure (require (fullmatch uid_rx user) ''UNREACHABLE'' ''scheduler_uid''))
           (bnd (job_nodes P state nodelist start) (\<lambda>nodes.
            bnd (pure (int_literal (butlast (after (CHR ''('') user)))) (\<lambda>uid.
            ret \<lparr>jb_id = job, jb_state = state, jb_nodes = nodes, jb_owner = uid, jb_start = start\<rparr>))))
       | _ \<Rightarrow> throw (AccessError ''UNREACHABLE'' ''scheduler_fields''))))"
    by (intro looks) (auto intro!: looks looks_nodes split: option.splits list.splits)
qed (cases "need_id slurm_job_rx (JStr job)"; auto)

lemma looks_socket [looks]: "only_looks P (socket_identity P s)"
  unfolding socket_identity_def by (intro looks)

lemma looks_control [looks]: "only_looks P (control P s n win)"
  unfolding control_def window_of_def server_process_def Let_def
  by (intro looks) (auto simp: reads_only_def asks_tmux_def tmux_def)

lemma looks_environment [looks]: "only_looks P (environment P ctl)"
  unfolding environment_def by (intro looks) (auto simp: reads_only_def asks_tmux_def tmux_def)

lemma looks_process [looks]: "only_looks P (process P pid)"
  unfolding process_def by (intro looks)

lemma looks_climb [looks]: "only_looks P (climb P panes n as c)"
  by (induction n arbitrary: as c) (auto intro!: looks)

lemma looks_observe_role [looks]: "only_looks P (observe_role P ctl kind pid)"
  unfolding observe_role_def Let_def by (intro looks) (auto simp: reads_only_def asks_tmux_def tmux_def)

end
