(* ===== verification/Registry.thy ===== *)
theory Registry
  imports Probes
begin

text \<open>
  The access registry: \<open>access/registry.py\<close>, over paths relative to its root. Bindings and
  records are written once; a target's pointer names the current record by its digest. Taking the
  lock of a target is exclusion: while it is held no other publisher moves the target's directory.
\<close>

subsection \<open>Reading\<close>

definition volatile_roots :: "string list" where
  "volatile_roots = [''/tmp'', ''/var/tmp'', ''/dev/shm'', ''/run'', ''/private/tmp'', ''/private/var/tmp'']"

definition persistent_path :: "outside \<Rightarrow> string \<Rightarrow> string res" where
  "persistent_path P s =
     rbind (require (absolute s) ''CONFLICT'' ''relative_storage'') (\<lambda>_.
     let p = pb_resolve P s in
     rbind (require (\<not> list_ex (\<lambda>v. p = v \<or> starts_with (v @ ''/'') p) volatile_roots) ''CONFLICT'' ''volatile_storage'') (\<lambda>_.
     Inr p))"

definition read_node :: "rnode option \<Rightarrow> string \<Rightarrow> dict res" where
  "read_node n missing = (case n of
     None \<Rightarrow> Inl (AccessError missing ''missing_record'')
   | Some RLink \<Rightarrow> Inl (conflict ''symlink_record'')
   | Some (RBad True) \<Rightarrow> Inl (AccessError ''AUTH_REQUIRED'' ''storage_permission'')
   | Some (RBad False) \<Rightarrow> Inl (AccessError ''UNREACHABLE'' ''storage_unreachable'')
   | Some (RDir u m) \<Rightarrow> Inl (AccessError ''UNREACHABLE'' ''storage_unreachable'')
   | Some (RFile u m sz v) \<Rightarrow>
       if sz > 65536 then Inl (conflict ''oversize_record'')
       else (case v of
           None \<Rightarrow> Inl (conflict ''invalid_json'')
         | Some (JObj d) \<Rightarrow> Inr d
         | Some _ \<Rightarrow> Inl (conflict ''invalid_record'')))"

definition node_here :: "outside \<Rightarrow> string list \<Rightarrow> (aworld, rnode option) cmd" where
  "node_here P p = bnd (gets (\<lambda>w. fmlookup (aw_files w) p)) (\<lambda>n. seq (modify (pass_instant P)) (ret n))"

definition read_json :: "outside \<Rightarrow> string list \<Rightarrow> string \<Rightarrow> (aworld, dict) cmd" where
  "read_json P p missing = bnd (node_here P p) (\<lambda>n. pure (read_node n missing))"

lemma wp_node [wp_rules]: "wp (node_here P p) Q w = Q (Inr (fmlookup (aw_files w) p)) (pass_instant P w)"
  by (simp add: node_here_def wp_rules)

lemma wp_read_json [wp_rules]:
  "wp (read_json P p m) Q w = Q (read_node (fmlookup (aw_files w) p) m) (pass_instant P w)"
  by (simp add: read_json_def wp_rules)

lemma read_run [run_Inr]:
  "node_here P p w = (r, w') \<longleftrightarrow> r = Inr (fmlookup (aw_files w) p) \<and> w' = pass_instant P w"
  "read_json P p m w = (r1, w') \<longleftrightarrow> r1 = read_node (fmlookup (aw_files w) p) m \<and> w' = pass_instant P w"
  by (auto simp: node_here_def read_json_def cmd_defs)

subsection \<open>Writing\<close>

definition disk_write :: "outside \<Rightarrow> (rfiles \<Rightarrow> rfiles) \<Rightarrow> (aworld, unit) cmd" where
  "disk_write P f = bnd (gets (\<lambda>w. pb_disk P (aw_t w))) (\<lambda>fate.
     seq (if fate = Unwritten then ret () else modify (\<lambda>w. w\<lparr>aw_files := f (aw_files w)\<rparr>))
     (seq (modify (pass_instant P))
     (if fate = Written then ret () else throw (OSError ''write failed''))))"

text \<open>\<open>path.parent.mkdir(parents=True, exist_ok=True)\<close>, then a file of mode 0600 in one step.\<close>

definition with_parents :: "outside \<Rightarrow> string list \<Rightarrow> rfiles \<Rightarrow> rfiles" where
  "with_parents P p fs = foldl (\<lambda>m k. if fmlookup m k = None then fmupd k (RDir (pb_uid P) (pb_dirmode P)) m else m) fs
     (map (\<lambda>n. take n p) [0..<length p])"

definition atomic_write_json :: "site \<Rightarrow> outside \<Rightarrow> string list \<Rightarrow> dict \<Rightarrow> (aworld, unit) cmd" where
  "atomic_write_json S P p payload =
     disk_write P (\<lambda>fs. fmupd p (RFile (pb_uid P) 384 (a_size S payload) (Some (JObj payload))) (with_parents P p fs))"

text \<open>An existing value is only compared; nothing is overwritten.\<close>

definition immutable :: "site \<Rightarrow> outside \<Rightarrow> string list \<Rightarrow> dict \<Rightarrow> (aworld, unit) cmd" where
  "immutable S P p payload = bnd (node_here P p) (\<lambda>n.
     if n \<noteq> None then
       bnd (read_json P p ''UNPUBLISHED'') (\<lambda>d. pure (require (d = payload) ''CONFLICT'' ''immutable_record''))
     else atomic_write_json S P p payload)"

text \<open>\<open>info.st_mode & (S_IWGRP | S_IWOTH)\<close> is zero.\<close>

definition private_mode :: "nat \<Rightarrow> bool" where
  "private_mode m \<longleftrightarrow> even (m div 16) \<and> even (m div 2)"

definition make_dir :: "outside \<Rightarrow> string list \<Rightarrow> (aworld, unit) cmd" where
  "make_dir P p = disk_write P (\<lambda>fs. if fmlookup fs p = None then fmupd p (RDir (pb_uid P) 448) fs else fs)"

definition directory :: "outside \<Rightarrow> bool \<Rightarrow> string list \<Rightarrow> (aworld, unit) cmd" where
  "directory P create p =
     bnd (node_here P p) (\<lambda>n.
     seq (pure (require (n \<noteq> Some RLink) ''CONFLICT'' ''symlink_directory''))
     (seq (if create \<and> n = None then
             bnd (if p = [] then ret (Some (RDir 0 0)) else node_here P (butlast p)) (\<lambda>parent.
             case parent of
               Some (RDir u m) \<Rightarrow> make_dir P p
             | _ \<Rightarrow> throw (OSError ''no such directory''))
           else ret ())
     (bnd (node_here P p) (\<lambda>n.
      seq (pure (require (n \<noteq> Some RLink) ''CONFLICT'' ''symlink_directory''))
      (case n of
         None \<Rightarrow> ret ()
       | Some (RDir u m) \<Rightarrow>
           pure (require (\<not> create \<or> u = pb_uid P \<and> private_mode m) ''AUTH_REQUIRED'' ''directory_permissions'')
       | _ \<Rightarrow> throw (conflict ''not_directory''))))))"

text \<open>A directory's lock; leaving the block releases it, on an exception too.\<close>

definition with_lock :: "string list \<Rightarrow> (aworld, 'a) cmd \<Rightarrow> (aworld, 'a) cmd" where
  "with_lock d m w = (case m (w\<lparr>aw_lock := Some d\<rparr>) of (r, w') \<Rightarrow> (r, w'\<lparr>aw_lock := None\<rparr>))"

lemma wp_with_lock [wp_rules]:
  "wp (with_lock d m) Q w = wp m (\<lambda>r w'. Q r (w'\<lparr>aw_lock := None\<rparr>)) (w\<lparr>aw_lock := Some d\<rparr>)"
  by (simp add: wp_def with_lock_def split: prod.splits)

subsection \<open>The registry\<close>

definition registry_init :: "outside \<Rightarrow> string \<Rightarrow> string res" where
  "registry_init P root = persistent_path P root"

definition registry_file :: "string list" where
  "registry_file = [''registry.json'']"

definition initialize :: "site \<Rightarrow> outside \<Rightarrow> bool \<Rightarrow> (aworld, dict) cmd" where
  "initialize S P attest =
     seq (pure (require attest ''CONFLICT'' ''storage_attestation''))
     (seq (directory P True [])
     (let v = obj [(''schema_version'', JInt 1), (''storage'', JStr ''persistent-shared''), (''owner_uid'', JInt (pb_uid P))]
      in with_lock registry_file (seq (immutable S P registry_file v) (ret v))))"

definition attributes :: "rnode option \<Rightarrow> (int \<times> nat) res" where
  "attributes n = (case n of
     Some (RDir u m) \<Rightarrow> Inr (u, m) | Some (RFile u m s v) \<Rightarrow> Inr (u, m) | _ \<Rightarrow> Inl (OSError ''no such file''))"

definition check_node_owner :: "outside \<Rightarrow> string list \<Rightarrow> (aworld, unit) cmd" where
  "check_node_owner P p = bnd (node_here P p) (\<lambda>n. bnd (pure (attributes n)) (\<lambda>(u, m).
     pure (require (u = pb_uid P \<and> private_mode m) ''AUTH_REQUIRED'' ''registry_permissions'')))"

definition registry_config_ok :: "dict \<Rightarrow> bool" where
  "registry_config_ok v \<longleftrightarrow> fmdom v = fset_of_list [''schema_version'', ''storage'', ''owner_uid''] \<and>
     dget v ''schema_version'' = JInt 1 \<and> dget v ''storage'' = JStr ''persistent-shared'' \<and> int_at_least 0 (dget v ''owner_uid'')"

definition configuration :: "outside \<Rightarrow> bool \<Rightarrow> (aworld, dict) cmd" where
  "configuration P writing =
     bnd (read_json P registry_file ''UNPUBLISHED'') (\<lambda>v.
     seq (pure (require (registry_config_ok v) ''CONFLICT'' ''registry_schema''))
     (if writing then
        seq (pure (require (dget v ''owner_uid'' = JInt (pb_uid P)) ''AUTH_REQUIRED'' ''registry_owner''))
        (seq (check_node_owner P []) (seq (check_node_owner P registry_file) (ret v)))
      else ret v))"

definition dir_of :: "string \<Rightarrow> string list" where
  "dir_of target = ''targets'' # split_on (CHR ''/'') target"

definition target_dir :: "outside \<Rightarrow> string \<Rightarrow> bool \<Rightarrow> (aworld, string list) cmd" where
  "target_dir P target create =
     seq (pure (target_name target))
     (let d = dir_of target in
      seq (for_each (map (\<lambda>n. take (Suc n) d) [0..<length d]) (directory P create))
      (seq (directory P False (d @ [''epochs'']))
      (seq (directory P False (d @ [''generations'']))
      (ret d))))"

definition pointer_path :: "string list \<Rightarrow> string option \<Rightarrow> string list res" where
  "pointer_path d role =
     rbind (require (role = None \<or> role = Some ''interactive'' \<or> role = Some ''daemon'') ''CONFLICT'' ''role'') (\<lambda>_.
     Inr (d @ [if role = Some ''daemon'' then ''current.daemon.json'' else ''current.json'']))"

definition binding :: "dict \<Rightarrow> dict" where
  "binding r = obj [(''schema_version'', JInt 1), (''target'', dget r ''target''), (''farm_id'', dget r ''farm_id''),
     (''farm_root'', dget r ''farm_root'')]"

definition record_path :: "string list \<Rightarrow> dict \<Rightarrow> string list" where
  "record_path d r = (if is_generation r then d @ [''generations'', text_or_empty (dget r ''generation'') @ ''.json'']
     else d @ [''epochs'', text_or_empty (dget r ''execution_epoch'') @ ''.json''])"

definition pointer_guards :: "dict \<Rightarrow> string \<Rightarrow> (bool \<times> exn) list" where
  "pointer_guards p target =
     [(has_fields (JObj p) ([''schema_version'', ''target'', ''execution_epoch'', ''record_sha256''] @
         (if is_generation p then [''generation''] else [])) \<and>
       (dget p ''schema_version'' = JInt 1 \<or> is_generation p) \<and> dget p ''target'' = JStr target, conflict ''pointer_schema''),
      (is_id epoch_rx (dget p ''execution_epoch''), bad_id)] @
     (if is_generation p then [(is_id epoch_rx (dget p ''generation''), bad_id)] else [])"

text \<open>The role a caller asks for against the role the record carries.\<close>

definition role_guards :: "dict \<Rightarrow> string option \<Rightarrow> (bool \<times> exn) list" where
  "role_guards r role =
     [(role_kind r \<noteq> JStr ''daemon'' \<or> role = Some ''daemon'', conflict ''required_role''),
      (role = None \<or> role_kind r = jopt role, conflict ''required_role'')]"

definition current :: "site \<Rightarrow> outside \<Rightarrow> string \<Rightarrow> string option \<Rightarrow> (aworld, dict \<times> dict) cmd" where
  "current S P target role =
     bnd (configuration P False) (\<lambda>_.
     bnd (target_dir P target False) (\<lambda>d.
     bnd (pure (pointer_path d role)) (\<lambda>pp.
     bnd (read_json P pp ''UNPUBLISHED'') (\<lambda>p.
     seq (pure (checks (pointer_guards p target)))
     (bnd (read_json P (record_path d p) ''STALE_REGISTRY'') (\<lambda>r0.
     bnd (pure (validate_record S r0 target (text_or_empty (dget p ''execution_epoch'')))) (\<lambda>r.
     seq (pure (require (dget r ''schema_version'' = dget p ''schema_version'' \<and>
            (is_generation p \<longrightarrow> dget r ''generation'' = dget p ''generation'')) ''CONFLICT'' ''generation_identity''))
     (seq (pure (require (JStr (a_digest S r) = dget p ''record_sha256'') ''STALE_REGISTRY'' ''record_digest''))
     (bnd (read_json P (d @ [''binding.json'']) ''STALE_REGISTRY'') (\<lambda>b.
     seq (pure (require (b = binding r) ''CONFLICT'' ''target_binding''))
     (bnd (configuration P False) (\<lambda>c.
     seq (pure (require (dget r ''owner_uid'' = dget c ''owner_uid'') ''CONFLICT'' ''owner_binding''))
     (seq (pure (checks (role_guards r role)))
     (ret (p, r)))))))))))))))"

definition existing :: "(aworld, dict) cmd \<Rightarrow> (aworld, dict option) cmd" where
  "existing m = handle (bnd m (\<lambda>d. ret (Some d)))
     (\<lambda>e. case e of AccessError st reason \<Rightarrow> (if st = ''UNPUBLISHED'' then ret None else throw e) | _ \<Rightarrow> throw e)"

definition prepare_record :: "site \<Rightarrow> outside \<Rightarrow> string list \<Rightarrow> dict \<Rightarrow> (aworld, dict) cmd" where
  "prepare_record S P d r =
     seq (immutable S P (d @ [''binding.json'']) (binding r))
     (let p = record_path d r in
      seq (directory P True (butlast p))
      (bnd (existing (bnd (read_json P p ''UNPUBLISHED'') (\<lambda>x.
         pure (validate_record S x (text_or_empty (dget r ''target'')) (text_or_empty (dget r ''execution_epoch'')))))) (\<lambda>prior.
       let r' = (case prior of None \<Rightarrow> r | Some x \<Rightarrow> fmupd ''published_at'' (dget x ''published_at'') r)
       in seq (immutable S P p r') (ret r'))))"

definition role_of :: "dict \<Rightarrow> string option" where
  "role_of r = (case role_kind r of JStr s \<Rightarrow> Some s | _ \<Rightarrow> None)"

definition pointer_of :: "site \<Rightarrow> dict \<Rightarrow> dict" where
  "pointer_of S r = obj ([(''schema_version'', dget r ''schema_version''), (''target'', dget r ''target''),
     (''execution_epoch'', dget r ''execution_epoch''), (''record_sha256'', JStr (a_digest S r))] @
     (if is_generation r then [(''generation'', dget r ''generation'')] else []))"

text \<open>A generation is committed only over the predecessor its record names.\<close>

definition expect_current :: "site \<Rightarrow> outside \<Rightarrow> string list \<Rightarrow> dict \<Rightarrow> (aworld, unit) cmd" where
  "expect_current S P pp r =
     bnd (node_here P pp) (\<lambda>n.
     bnd (if n = None then ret JNull
          else bnd (current S P (text_or_empty (dget r ''target''))
                 (if role_of r = Some ''daemon'' then Some ''daemon'' else None)) (\<lambda>(p, _). ret (dget p ''record_sha256''))) (\<lambda>observed.
     pure (require (observed = dget r ''previous_record_sha256'') ''STALE_REGISTRY'' ''expected_current'')))"

definition commit_pointer :: "site \<Rightarrow> outside \<Rightarrow> string list \<Rightarrow> dict \<Rightarrow> (aworld, dict) cmd" where
  "commit_pointer S P d r =
     bnd (pure (pointer_path d (role_of r))) (\<lambda>pp.
     seq (if is_generation r then expect_current S P pp r else ret ())
     (seq (atomic_write_json S P pp (pointer_of S r)) (ret (pointer_of S r))))"

subsection \<open>Readers\<close>

lemma looks_node [looks]: "only_looks P (node_here P p)"
  by (auto simp: only_looks_def keeps_def wp_rules intro: only_looked.intros)

lemma looks_read_json [looks]: "only_looks P (read_json P p missing)"
  unfolding read_json_def by (intro looks)

lemma looks_directory [looks]: "only_looks P (directory P False p)"
  unfolding directory_def simp_thms if_False
  by (intro looks) (auto intro!: looks split: option.splits rnode.splits)

lemma looks_configuration [looks]: "only_looks P (configuration P writing)"
  unfolding configuration_def check_node_owner_def by (intro looks)

lemma looks_target_dir [looks]: "only_looks P (target_dir P target False)"
  unfolding target_dir_def Let_def by (intro looks)

lemma looks_current [looks]: "only_looks P (current S P target role)"
  unfolding current_def by (intro looks)

lemma looks_expect [looks]: "only_looks P (expect_current S P pp r)"
  unfolding expect_current_def by (intro looks)

text \<open>
  The directory of a target is shared by names: the record of a first-schema target and the pointer of
  another legal target name can be one file.
\<close>

lemma record_pointer_collision:
  "target_name ''t'' = Inr () \<and> target_name ''t/epochs'' = Inr () \<and> fullmatch epoch_rx ''current'' \<and>
   record_path (dir_of ''t'') (obj [(''schema_version'', JInt 1), (''execution_epoch'', JStr ''current'')]) =
     dir_of ''t/epochs'' @ [''current.json''] \<and>
   pointer_path (dir_of ''t/epochs'') None = Inr (dir_of ''t/epochs'' @ [''current.json''])"
proof -
  have "target_name ''t'' = Inr () \<and> target_name ''t/epochs'' = Inr () \<and> fullmatch epoch_rx ''current''" by code_simp
  moreover have "record_path (dir_of ''t'') (obj [(''schema_version'', JInt 1), (''execution_epoch'', JStr ''current'')]) =
     dir_of ''t/epochs'' @ [''current.json'']" by code_simp
  moreover have "pointer_path (dir_of ''t/epochs'') None = Inr (dir_of ''t/epochs'' @ [''current.json''])" by code_simp
  ultimately show ?thesis by blast
qed

end
