(* ===== verification/Access.thy ===== *)
theory Access
  imports Registry
begin

text \<open>
  Publication and verification of a control session: \<open>access/allocation.py\<close> and
  \<open>access/__init__.py\<close>. A published record binds a farm, its execution epoch, the Slurm
  allocation its daemon was started in, and one tmux session; verification observes all of them
  again. The farm's own files are read through the stream of the outside world.
\<close>

subsection \<open>The allocation\<close>

definition attestation_fields :: "string list" where
  "attestation_fields = scheduler_fields @ [''execution_epoch'', ''runtime_host'', ''owner_uid'']"

definition attested_guards :: "dict \<Rightarrow> (bool \<times> exn) list" where
  "attested_guards m = (let j = dget m ''scheduler_attestation''; a = obj_of j in
     [(j \<noteq> JNull, AccessError ''PENDING'' ''scheduler_unattested''),
      (has_fields j attestation_fields, conflict ''scheduler_attestation''),
      (dget a ''execution_epoch'' = dget m ''execution_epoch'', AccessError ''EPOCH_MISMATCH'' ''scheduler_epoch''),
      (dget a ''runtime_host'' = dget m ''host'', AccessError ''HOST_MISMATCH'' ''scheduler_runtime_host''),
      (int_at_least 0 (dget a ''owner_uid''), conflict ''scheduler_owner'')])"

definition attested_scheduler :: "site \<Rightarrow> dict \<Rightarrow> json res" where
  "attested_scheduler S m = rbind (checks (attested_guards m)) (\<lambda>_.
     let a = obj_of (dget m ''scheduler_attestation'')
     in validate_scheduler S (JObj (obj (map (\<lambda>k. (k, dget a k)) scheduler_fields))))"

definition waiting_states :: "string list" where
  "waiting_states = [''PENDING'', ''CONFIGURING'', ''SUSPENDED'', ''COMPLETING'', ''RESIZING'', ''REQUEUED'', ''REQUEUE_HOLD'']"

definition allocation_guards :: "string \<Rightarrow> string \<Rightarrow> json \<Rightarrow> job_view \<Rightarrow> (bool \<times> exn) list" where
  "allocation_guards job host_node owner v =
     [(jb_id v = job, conflict ''job_identity''),
      (JInt (jb_owner v) = owner, AccessError ''AUTH_REQUIRED'' ''allocation_owner''),
      (\<not> slurm_job_terminal (Some (jb_state v)), AccessError ''JOB_EXPIRED'' ''job_terminal''),
      (jb_state v \<notin> set waiting_states, AccessError ''PENDING'' ''allocation_not_running''),
      (jb_state v = ''RUNNING'', AccessError ''UNREACHABLE'' ''job_unknown''),
      (host_node \<in> set (jb_nodes v), AccessError ''HOST_MISMATCH'' ''allocation_node'')]"

definition running_allocation :: "site \<Rightarrow> outside \<Rightarrow> string \<Rightarrow> string \<Rightarrow> json \<Rightarrow> (aworld, json) cmd" where
  "running_allocation S P job host_node owner =
     bnd (scheduler P job) (\<lambda>v.
     seq (pure (checks (allocation_guards job host_node owner v)))
     (pure (case validate_scheduler S (JObj (obj [(''kind'', JStr ''slurm''), (''job_id'', JStr job),
               (''scheduler_node'', JStr host_node), (''allocation_started_at'', JStr (jb_start v))])) of
          Inr j \<Rightarrow> Inr j
        | Inl e \<Rightarrow> Inl (AccessError ''UNREACHABLE'' ''allocation_identity''))))"

text \<open>The launcher's identity at daemon startup. The environment is a finite map.\<close>

definition env_values :: "(string, string) fmap \<Rightarrow> string list \<Rightarrow> string list" where
  "env_values en ks = List.map_filter (fmlookup en) ks"

definition capture_allocation ::
    "site \<Rightarrow> outside \<Rightarrow> dict \<Rightarrow> dict \<Rightarrow> json \<Rightarrow> string option \<Rightarrow> string option \<Rightarrow> (string, string) fmap \<Rightarrow>
     (aworld, json) cmd" where
  "capture_allocation S P previous cur epoch job host_node en =
     seq (pure (require ((job = None) = (host_node = None)) ''CONFLICT'' ''launcher_pair''))
     (let opt = (\<lambda>x. case x of None \<Rightarrow> [] | Some s \<Rightarrow> [s]);
          jobs = env_values en [''SLURM_JOB_ID'', ''SLURM_JOBID''] @ opt job;
          hosts = env_values en [''SLURMD_NODENAME''] @ (if job = None then [] else opt host_node);
          prior = dget previous ''scheduler_attestation''
      in if jobs = [] \<and> hosts = [] then
           seq (pure (require (prior = JNull) ''PENDING'' ''scheduler_unattested'')) (ret JNull)
         else
           seq (pure (require (jobs \<noteq> [] \<and> hosts \<noteq> []) ''CONFLICT'' ''launcher_incomplete''))
           (seq (pure (checks (map (\<lambda>j. (fullmatch slurm_job_rx j, bad_id)) jobs @ map (\<lambda>n. (fullmatch node_rx n, bad_id)) hosts)))
           (seq (pure (require (length (remdups jobs) = 1 \<and> length (remdups hosts) = 1) ''CONFLICT'' ''launcher_conflict''))
           (bnd (running_allocation S P (hd jobs) (hd hosts) (JInt (pb_uid P))) (\<lambda>s.
            let a = JObj (dput (obj_of s) [(''execution_epoch'', epoch), (''runtime_host'', dget cur ''host''),
                      (''owner_uid'', JInt (pb_uid P))])
            in seq (pure (require (prior = JNull \<or> prior = a) ''CONFLICT'' ''scheduler_epoch_binding'')) (ret a))))))"

subsection \<open>The deployment\<close>

definition farm_read :: "outside \<Rightarrow> string \<Rightarrow> string \<Rightarrow> string \<Rightarrow> (aworld, dict) cmd" where
  "farm_read P root name missing = bnd (look P (\<lambda>t. pb_farm P t root name)) (\<lambda>n. pure (read_node n missing))"

definition manifest_guards :: "site \<Rightarrow> string \<Rightarrow> dict \<Rightarrow> (bool \<times> exn) list" where
  "manifest_guards S root m =
     [(dget m ''farm_root'' = JStr root \<and> dget m ''farm_id'' = JStr (farm_id S root), conflict ''deployment_identity''),
      (is_id epoch_rx (dget m ''execution_epoch''), bad_id),
      (is_id sha256_rx (dget m ''source_sha256''), bad_id),
      (int_at_least 1 (dget m ''protocol_version'') \<and> nonempty_str (dget m ''host''), conflict ''deployment_schema'')]"

text \<open>A test \<open>x in {...}\<close> hashes \<open>x\<close>, which a list or a dictionary does not allow.\<close>

fun hashable :: "json \<Rightarrow> bool" where
  "hashable (JList xs) = False"
| "hashable (JObj d) = False"
| "hashable j = True"

definition handoff_claim_guards :: "dict \<Rightarrow> (bool \<times> exn) list" where
  "handoff_claim_guards m = (case fmlookup m ''handoff'' of
     None \<Rightarrow> []
   | Some h \<Rightarrow> (let c = obj_of h; phase = dget c ''phase'' in
       [(is_obj h, conflict ''handoff_schema''),
        (hashable phase, TypeError),
        (phase \<in> set phases, conflict ''handoff_schema''),
        (is_id epoch_rx (dget c ''id''), bad_id),
        (phase = JStr ''claimed'', AccessError ''PENDING'' (''handoff_'' @ text_or_empty phase)),
        (dget c ''kind'' \<noteq> JStr ''stop'' \<and> dget c ''id'' = dget m ''execution_epoch'' \<and> dget c ''target_host'' = dget m ''host'',
         conflict ''claim_identity'')]))"

definition no_pending :: "outside \<Rightarrow> string \<Rightarrow> string \<Rightarrow> (aworld, unit) cmd" where
  "no_pending P root name = bnd (look P (\<lambda>t. pb_farm P t root name)) (\<lambda>n.
     pure (require (n = None) ''PENDING'' ''pending_transaction''))"

definition manifest_for :: "site \<Rightarrow> outside \<Rightarrow> string \<Rightarrow> (aworld, dict) cmd" where
  "manifest_for S P paths =
     bnd (pure (persistent_path P paths)) (\<lambda>root.
     bnd (farm_read P paths ''deployment.json'' ''PENDING'') (\<lambda>m.
     seq (pure (checks (manifest_guards S root m)))
     (seq (no_pending P paths ''pending-recovery.json'')
     (seq (no_pending P paths ''pending-task-commit.json'')
     (seq (pure (require (''pending_event'' |\<notin>| fmdom m) ''PENDING'' ''deployment_audit''))
     (seq (pure (checks (handoff_claim_guards m)))
     (ret m)))))))"

definition match_guards :: "site \<Rightarrow> dict \<Rightarrow> dict \<Rightarrow> (bool \<times> exn) list" where
  "match_guards S r m = map (\<lambda>(field, source, state). (dget r field = dget m source, AccessError state field))
     [(''execution_epoch'', ''execution_epoch'', ''EPOCH_MISMATCH''), (''runtime_host'', ''host'', ''HOST_MISMATCH''),
      (''farm_id'', ''farm_id'', ''CONFLICT''), (''farm_root'', ''farm_root'', ''CONFLICT''),
      (''source_sha256'', ''source_sha256'', ''STALE_REGISTRY''), (''protocol_version'', ''protocol_version'', ''STALE_REGISTRY'')]"

definition match_manifest :: "site \<Rightarrow> dict \<Rightarrow> dict \<Rightarrow> unit res" where
  "match_manifest S r m = rbind (checks (match_guards S r m)) (\<lambda>_.
     rbind (attested_scheduler S m) (\<lambda>s.
     checks [(dget r ''scheduler'' = s, AccessError ''STALE_REGISTRY'' ''scheduler_attestation''),
       (dget r ''owner_uid'' = sub m ''scheduler_attestation'' ''owner_uid'', AccessError ''AUTH_REQUIRED'' ''attested_owner'')]))"

subsection \<open>Readiness\<close>

definition local_build :: "outside \<Rightarrow> dict \<Rightarrow> (aworld, unit) cmd" where
  "local_build P m = bnd (look P (pb_identity P)) (\<lambda>cur. pure (checks
     [(dget cur ''host'' = dget m ''host'', AccessError ''HOST_MISMATCH'' ''verification_host''),
      (dget cur ''protocol_version'' = dget m ''protocol_version'', AccessError ''STALE_REGISTRY'' ''protocol_version''),
      (dget cur ''source_sha256'' = dget m ''source_sha256'', AccessError ''STALE_REGISTRY'' ''source_sha256'')]))"

fun is_int :: "json \<Rightarrow> bool" where
  "is_int (JInt i) = True"
| "is_int j = False"

fun number_of :: "json \<Rightarrow> rat" where
  "number_of (JInt i) = of_int i"
| "number_of (JFloat (Finite r)) = r"
| "number_of j = 0"

definition started_daemon :: "dict \<Rightarrow> bool" where
  "started_daemon m \<longleftrightarrow> dget m ''loop'' = JBool True \<and> int_at_least 1 (dget m ''pid'') \<and> is_int (dget m ''pid_starttime'') \<and>
     truthy (dget m ''boot_id'') \<and> truthy (dget m ''pid_namespace'') \<and> truthy (dget m ''started_at'')"

definition daemon_ready :: "site \<Rightarrow> outside \<Rightarrow> string \<Rightarrow> dict \<Rightarrow> (aworld, unit) cmd" where
  "daemon_ready S P paths m =
     seq (pure (require (started_daemon m) ''PENDING'' ''daemon_not_started''))
     (bnd (pure (finite_number (dget m ''interval''))) (\<lambda>finite.
      seq (pure (require (finite \<and> number_of (dget m ''interval'') > 0) ''CONFLICT'' ''daemon_interval''))
     (bnd (farm_read P paths ''last_tick.json'' ''PENDING'') (\<lambda>tick.
      seq (pure (require (dget tick ''deployment'' = JObj (deployment_stamp m)) ''PENDING'' ''readiness_generation''))
     (bnd (pure (timestamp S (dget tick ''ts''))) (\<lambda>when_t.
      bnd (pure (timestamp S (dget m ''started_at''))) (\<lambda>started.
      bnd (look P (pb_clock P)) (\<lambda>t.
      seq (pure (require (when_t \<ge> started \<and> t \<ge> when_t \<and>
             of_int (t - when_t) / 1000000 \<le> 3 * number_of (dget m ''interval'')) ''PENDING'' ''readiness_stale''))
     (bnd (look P (\<lambda>t. daemon_alive (pb_machine P t) (Some m))) (\<lambda>a.
      bnd (pure a) (\<lambda>alive. pure (checks
        [(alive \<noteq> None, AccessError ''UNREACHABLE'' ''daemon_unknown''),
         (alive = Some True, AccessError ''PENDING'' ''daemon_not_running'')]))))))))))))"

definition control_again :: "outside \<Rightarrow> dict \<Rightarrow> (aworld, dict) cmd" where
  "control_again P ctl = control P (text_or_empty (dget ctl ''socket'')) (text_or_empty (dget ctl ''session''))
     (case dget ctl ''default_window'' of JStr w \<Rightarrow> Some w | _ \<Rightarrow> None)"

definition same_control :: "outside \<Rightarrow> dict \<Rightarrow> (aworld, unit) cmd" where
  "same_control P ctl = bnd (control_again P ctl) (\<lambda>c.
     pure (require (c = ctl) ''STALE_REGISTRY'' ''control_replaced''))"

definition same_role :: "outside \<Rightarrow> dict \<Rightarrow> dict \<Rightarrow> dict \<Rightarrow> (aworld, unit) cmd" where
  "same_role P ctl m r = (case dget r ''endpoint_role'' of
     JObj role \<Rightarrow>
       seq (pure (require (dget role ''kind'' \<noteq> JStr ''interactive'' \<or> dget role ''pid'' \<noteq> dget m ''pid'') ''CONFLICT'' ''daemon_only''))
       (bnd (pure (as_int (dget role ''pid''))) (\<lambda>pid.
        bnd (observe_role P ctl (text_or_empty (dget role ''kind'')) pid) (\<lambda>o'.
        pure (require (o' = role) ''STALE_REGISTRY'' ''role_replaced''))))
   | _ \<Rightarrow> ret ())"

definition same_allocation :: "site \<Rightarrow> outside \<Rightarrow> dict \<Rightarrow> (aworld, unit) cmd" where
  "same_allocation S P r =
     bnd (running_allocation S P (text_or_empty (sub r ''scheduler'' ''job_id'')) (text_or_empty (sub r ''scheduler'' ''scheduler_node''))
            (dget r ''owner_uid'')) (\<lambda>s.
     pure (require (s = dget r ''scheduler'') ''STALE_REGISTRY'' ''allocation_reused''))"

definition live :: "site \<Rightarrow> outside \<Rightarrow> string \<Rightarrow> dict \<Rightarrow> dict \<Rightarrow> (aworld, unit) cmd" where
  "live S P paths m r = (let ctl = obj_of (dget r ''control'') in
     seq (pure (match_manifest S r m))
     (seq (local_build P m)
     (seq (pure (require (dget r ''owner_uid'' = JInt (pb_uid P)) ''AUTH_REQUIRED'' ''verification_user''))
     (seq (daemon_ready S P paths m)
     (seq (same_allocation S P r)
     (seq (same_control P ctl)
     (bnd (environment P ctl) (\<lambda>en.
      seq (pure (require (en = markers r) ''CONFLICT'' ''marker_mismatch''))
     (seq (same_role P ctl m r)
     (seq (same_control P ctl)
     (bnd (manifest_for S P paths) (\<lambda>again.
      pure (require (again = m) ''PENDING'' ''deployment_changed'')))))))))))))"

subsection \<open>Resolution and verification\<close>

definition resolve_target :: "site \<Rightarrow> outside \<Rightarrow> string \<Rightarrow> string \<Rightarrow> string option \<Rightarrow> (aworld, dict) cmd" where
  "resolve_target S P registry target role =
     seq (pure (target_name target))
     (bnd (current S P target role) (\<lambda>(p, r).
      let paths = text_or_empty (dget r ''farm_root'') in
      bnd (manifest_for S P paths) (\<lambda>m.
      seq (pure (match_manifest S r m))
      (bnd (current S P target role) (\<lambda>again.
       seq (pure (require (again = (p, r)) ''STALE_REGISTRY'' ''pointer_changed''))
       (bnd (look P (pb_clock P)) (\<lambda>t.
        ret (answer_doc S t ''RESOLVED'' (JStr target) ''verification_required''
          [(''schema_version'', dget r ''schema_version''), (''record'', JObj r), (''record_sha256'', dget p ''record_sha256''),
           (''verification'', JObj (obj ([(''host'', dget r ''runtime_host''), (''project'', JStr (parent_path paths)),
              (''registry'', JStr registry), (''target'', JStr target), (''expected_record'', dget p ''record_sha256'')] @
              (case role of None \<Rightarrow> [] | Some k \<Rightarrow> [(''role'', JStr k)]))))]))))))))"

text \<open>The tmux condition that is evaluated in the server right before the attachment.\<close>

definition expected_values :: "dict \<Rightarrow> (string \<times> string) list" where
  "expected_values r = (let ctl = obj_of (dget r ''control'') in
     [(''pid'', py_str (dget ctl ''server_pid'')), (''session_id'', text_or_empty (dget ctl ''session_id'')),
      (''FARM_ID'', text_or_empty (dget r ''farm_id'')), (''FARM_EXECUTION_EPOCH'', text_or_empty (dget r ''execution_epoch'')),
      (''FARM_SOURCE_SHA256'', text_or_empty (dget r ''source_sha256'')), (''FARM_ACCESS_TARGET'', text_or_empty (dget r ''target''))] @
     (if dget r ''endpoint_role'' \<noteq> JNull then [(''FARM_ENDPOINT_ROLE'', text_or_empty (role_kind r))] else []))"

definition condition_of :: "(string \<times> string) list \<Rightarrow> string" where
  "condition_of kvs = foldl (\<lambda>c (k, v). ''#{&&:'' @ c @ '',#{==:#{'' @ k @ ''},'' @ v @ ''}}'') ''1'' kvs"

definition attach_target :: "dict \<Rightarrow> string" where
  "attach_target r = (let ctl = obj_of (dget r ''control'') in
     text_or_empty (dget ctl ''session_id'') @
     (case dget ctl ''window_id'' of JStr w \<Rightarrow> '':'' @ w | _ \<Rightarrow> []))"

definition attach_argv :: "dict \<Rightarrow> string list" where
  "attach_argv r = (let target = attach_target r in
     [''tmux'', ''-S'', text_or_empty (sub r ''control'' ''socket''), ''if-shell'', ''-F'', ''-t'', target,
      if is_generation r then condition_of (expected_values r) else ''1'',
      ''attach-session -t '' @ [CHR 0x27] @ target @ [CHR 0x27]] @
     (if is_generation r
      then [''display-message -p '' @ [CHR 0x27] @ ''STALE_REGISTRY: endpoint changed before attachment; resolve again'' @ [CHR 0x27]]
      else []))"

definition verified :: "site \<Rightarrow> outside \<Rightarrow> dict \<Rightarrow> (aworld, dict) cmd" where
  "verified S P r = bnd (look P (pb_clock P)) (\<lambda>t.
     ret (answer_doc S t ''VERIFIED'' (dget r ''target'') ''exact_match''
       [(''schema_version'', dget r ''schema_version''), (''record'', JObj r), (''record_sha256'', JStr (a_digest S r)),
        (''attachment'', JObj (obj [(''host'', dget r ''runtime_host''), (''argv'', JList (map JStr (attach_argv r)))]))]))"

definition verify :: "site \<Rightarrow> outside \<Rightarrow> string \<Rightarrow> string \<Rightarrow> string option \<Rightarrow> string option \<Rightarrow> (aworld, dict) cmd" where
  "verify S P paths target expected role =
     seq (pure (target_name target))
     (bnd (current S P target role) (\<lambda>(p, r).
      seq (case expected of None \<Rightarrow> ret ()
           | Some e \<Rightarrow> seq (pure (need_id sha256_rx (JStr e)))
               (pure (require (dget p ''record_sha256'' = JStr e) ''STALE_REGISTRY'' ''expected_record'')))
      (seq (pure (require (JStr (pb_resolve P paths) = dget r ''farm_root'') ''CONFLICT'' ''project_mismatch''))
      (bnd (manifest_for S P paths) (\<lambda>m.
       seq (pure (match_manifest S r m))
       (seq (live S P paths m r)
       (bnd (current S P target role) (\<lambda>again.
        seq (pure (require (again = (p, r)) ''STALE_REGISTRY'' ''pointer_changed''))
        (verified S P r)))))))))"

subsection \<open>Publication\<close>

record request =
  rq_job :: string
  rq_session :: string
  rq_socket :: "string option"
  rq_window :: "string option"
  rq_epoch :: "string option"
  rq_generation :: "string option"
  rq_current :: "string option"
  rq_role :: "string option"
  rq_pid :: "int option"

definition opt_guard :: "rx \<Rightarrow> string option \<Rightarrow> (bool \<times> exn) list" where
  "opt_guard r v = (case v of None \<Rightarrow> [] | Some s \<Rightarrow> [(fullmatch r s, bad_id)])"

definition request_guards :: "request \<Rightarrow> (bool \<times> exn) list" where
  "request_guards q =
     [(fullmatch slurm_job_rx (rq_job q), bad_id), (fullmatch name_rx (rq_session q), bad_id)] @
     opt_guard name_rx (rq_window q) @
     [((rq_generation q = None) = (rq_current q = None), conflict ''generation_precondition'')] @
     opt_guard epoch_rx (rq_generation q) @
     (if rq_generation q \<noteq> None \<and> rq_current q \<noteq> Some ''none'' then opt_guard sha256_rx (rq_current q) else []) @
     [((rq_role q = None) = (rq_pid q = None) \<and> (rq_role q = None \<or> rq_generation q \<noteq> None), conflict ''role_precondition'')]"

definition base_record :: "outside \<Rightarrow> string \<Rightarrow> string \<Rightarrow> dict \<Rightarrow> json \<Rightarrow> dict \<Rightarrow> json \<Rightarrow> string \<Rightarrow> dict" where
  "base_record P paths target m sched ctl owner ts =
     obj [(''schema_version'', JInt 1), (''target'', JStr target), (''farm_id'', dget m ''farm_id''),
       (''farm_root'', JStr (pb_resolve P paths)), (''execution_epoch'', dget m ''execution_epoch''),
       (''runtime_host'', dget m ''host''), (''protocol_version'', dget m ''protocol_version''),
       (''source_sha256'', dget m ''source_sha256''), (''owner_uid'', owner), (''scheduler'', sched), (''control'', JObj ctl),
       (''published_at'', JStr ts)]"

definition requested_record :: "outside \<Rightarrow> request \<Rightarrow> dict \<Rightarrow> dict \<Rightarrow> dict \<Rightarrow> (aworld, dict) cmd" where
  "requested_record P q m ctl r = (case rq_generation q of
     None \<Rightarrow> ret r
   | Some g \<Rightarrow>
       seq (pure (require (rq_role q \<noteq> Some ''interactive'' \<or> (case rq_pid q of Some n \<Rightarrow> JInt n \<noteq> dget m ''pid'' | None \<Rightarrow> JNull \<noteq> dget m ''pid''))
              ''CONFLICT'' ''daemon_only''))
       (bnd (case (rq_role q, rq_pid q) of
               (Some k, Some n) \<Rightarrow> bnd (observe_role P ctl k n) (\<lambda>d. ret (JObj d))
             | _ \<Rightarrow> ret JNull) (\<lambda>role.
        ret (dput r [(''schema_version'', JInt 2), (''generation'', JStr g),
          (''previous_record_sha256'', if rq_current q = Some ''none'' then JNull else jopt (rq_current q)),
          (''endpoint_role'', role)]))))"

text \<open>A binding or a record that is already there must be this one; the record keeps its own time of publication.\<close>

definition against_existing :: "site \<Rightarrow> outside \<Rightarrow> string list \<Rightarrow> string \<Rightarrow> request \<Rightarrow> dict \<Rightarrow> (aworld, dict) cmd" where
  "against_existing S P d target q r =
     bnd (node_here P (d @ [''binding.json''])) (\<lambda>b.
     seq (if b = None then ret ()
          else bnd (read_json P (d @ [''binding.json'']) ''UNPUBLISHED'') (\<lambda>x.
            pure (require (x = binding r) ''CONFLICT'' ''target_binding'')))
     (bnd (node_here P (record_path d r)) (\<lambda>n.
      if n = None then ret r
      else
        bnd (read_json P (record_path d r) ''UNPUBLISHED'') (\<lambda>x.
        bnd (pure (validate_record S x target (text_or_empty (dget r ''execution_epoch'')))) (\<lambda>prior.
        let r' = fmupd ''published_at'' (dget prior ''published_at'') r in
        seq (pure (require (r' = prior) ''CONFLICT''
               (if rq_generation q = None then ''epoch_publication'' else ''generation_publication'')))
        (ret r'))))))"

definition current_pointer :: "site \<Rightarrow> outside \<Rightarrow> string list \<Rightarrow> string \<Rightarrow> request \<Rightarrow> (aworld, dict option) cmd" where
  "current_pointer S P d target q =
     bnd (pure (pointer_path d (rq_role q))) (\<lambda>pp.
     bnd (node_here P pp) (\<lambda>n.
     if n = None then ret None
     else
       bnd (current S P target (if rq_role q = Some ''daemon'' then Some ''daemon'' else None)) (\<lambda>(p, cr).
       seq (pure (require (\<not> truthy (dget cr ''endpoint_role'') \<or> rq_role q \<noteq> None) ''CONFLICT'' ''role_required''))
       (ret (Some p)))))"

text \<open>Bind the session, look again, write the immutable record, look again, move the pointer.\<close>

definition commit_record :: "site \<Rightarrow> outside \<Rightarrow> string \<Rightarrow> string list \<Rightarrow> dict \<Rightarrow> dict \<Rightarrow> (aworld, dict) cmd" where
  "commit_record S P paths d m r =
     seq (bind P r)
     (seq (live S P paths m r)
     (bnd (prepare_record S P d r) (\<lambda>r'.
      seq (live S P paths m r')
      (bnd (commit_pointer S P d r') (\<lambda>_. verified S P r')))))"

definition publish_record :: "site \<Rightarrow> outside \<Rightarrow> string \<Rightarrow> string list \<Rightarrow> dict \<Rightarrow> request \<Rightarrow> dict option \<Rightarrow> dict \<Rightarrow> (aworld, dict) cmd" where
  "publish_record S P paths d m q ptr r =
     (if rq_generation q \<noteq> None then
        (let observed = (case ptr of None \<Rightarrow> JNull | Some p \<Rightarrow> dget p ''record_sha256'') in
         if observed = JStr (a_digest S r) then seq (live S P paths m r) (verified S P r)
         else
           seq (pure (require (observed = dget r ''previous_record_sha256'') ''STALE_REGISTRY'' ''expected_current''))
           (commit_record S P paths d m r))
      else
        seq (pure (require (case ptr of None \<Rightarrow> True | Some p \<Rightarrow> dget p ''schema_version'' = JInt 1) ''CONFLICT'' ''generation_required''))
        (commit_record S P paths d m r))"

definition publish_locked :: "site \<Rightarrow> outside \<Rightarrow> string \<Rightarrow> string \<Rightarrow> request \<Rightarrow> dict \<Rightarrow> string list \<Rightarrow> (aworld, dict) cmd" where
  "publish_locked S P paths target q cfg d =
     bnd (manifest_for S P paths) (\<lambda>m.
     seq (local_build P m)
     (seq (pure (require (case rq_epoch q of None \<Rightarrow> True | Some e \<Rightarrow> dget m ''execution_epoch'' = JStr e)
             ''EPOCH_MISMATCH'' ''expected_epoch''))
     (bnd (pure (attested_scheduler S m)) (\<lambda>sched.
      seq (pure (require (dget (obj_of sched) ''job_id'' = JStr (rq_job q)) ''CONFLICT'' ''attested_job''))
     (seq (pure (require (sub m ''scheduler_attestation'' ''owner_uid'' = dget cfg ''owner_uid'') ''AUTH_REQUIRED'' ''attested_owner''))
     (seq (daemon_ready S P paths m)
     (bnd (running_allocation S P (rq_job q) (text_or_empty (dget (obj_of sched) ''scheduler_node'')) (dget cfg ''owner_uid'')) (\<lambda>a.
      seq (pure (require (a = sched) ''STALE_REGISTRY'' ''allocation_reused''))
     (let socket = (case rq_socket q of Some s \<Rightarrow> s | None \<Rightarrow> default_socket P) in
      seq (pure (require (absolute socket) ''CONFLICT'' ''socket_path''))
     (bnd (control P socket (rq_session q) (rq_window q)) (\<lambda>ctl.
      bnd (look P (\<lambda>t. a_iso S (pb_clock P t))) (\<lambda>ts.
      bnd (requested_record P q m ctl (base_record P paths target m sched ctl (dget cfg ''owner_uid'') ts)) (\<lambda>r0.
      bnd (pure (validate_record S r0 target (text_or_empty (dget r0 ''execution_epoch'')))) (\<lambda>r1.
      bnd (against_existing S P d target q r1) (\<lambda>r.
      bnd (current_pointer S P d target q) (\<lambda>ptr.
      publish_record S P paths d m q ptr r))))))))))))))))"

definition publish_access :: "site \<Rightarrow> outside \<Rightarrow> string \<Rightarrow> string \<Rightarrow> request \<Rightarrow> (aworld, dict) cmd" where
  "publish_access S P paths target q =
     seq (pure (target_name target))
     (seq (pure (checks (request_guards q)))
     (bnd (configuration P True) (\<lambda>cfg.
      bnd (manifest_for S P paths) (\<lambda>m0.
      seq (local_build P m0)
      (bnd (target_dir P target True) (\<lambda>d.
       with_lock d (publish_locked S P paths target q cfg d)))))))"

subsection \<open>What only looks\<close>

lemma looks_allocation [looks]: "only_looks P (running_allocation S P job n owner)"
  unfolding running_allocation_def by (intro looks)

lemma looks_capture [looks]: "only_looks P (capture_allocation S P previous cur epoch job n en)"
  unfolding capture_allocation_def Let_def by (intro looks)

lemma looks_farm [looks]: "only_looks P (farm_read P root name missing)" "only_looks P (no_pending P root name)"
  unfolding farm_read_def no_pending_def by (intro looks)+

lemma looks_manifest [looks]: "only_looks P (manifest_for S P paths)"
  unfolding manifest_for_def by (intro looks)

lemma looks_local [looks]: "only_looks P (local_build P m)"
  unfolding local_build_def by (intro looks)

lemma looks_ready [looks]: "only_looks P (daemon_ready S P paths m)"
  unfolding daemon_ready_def by (intro looks)

lemma looks_same [looks]:
  "only_looks P (same_control P ctl)" "only_looks P (same_role P ctl m r)" "only_looks P (same_allocation S P r)"
  unfolding same_control_def control_again_def same_role_def same_allocation_def by (intro looks)+

lemma looks_live [looks]: "only_looks P (live S P paths m r)"
  unfolding live_def Let_def by (intro looks)

lemma looks_verified [looks]: "only_looks P (verified S P r)"
  unfolding verified_def by (intro looks)

lemma looks_verify: "only_looks P (verify S P paths target expected role)"
  unfolding verify_def by (intro looks)

lemma looks_resolve: "only_looks P (resolve_target S P registry target role)"
  unfolding resolve_target_def Let_def by (intro looks)

text \<open>C36: Resolving and verifying a target only look, whatever the outside world answers and wherever they
  stop. Every command they issue is one of six: \<open>scontrol show\<close> of one job with a numeric id or of
  the names in a host list, and \<open>display-message -p\<close>, \<open>list-windows\<close>, \<open>list-panes\<close> or
  \<open>show-environment\<close> of tmux, with exactly the options and format of the source; the registry is
  as the other publishers' moves alone make it, and no lock is taken.\<close>

theorem verification_reads_only:
  "only_looked P w (snd (verify S P paths target expected role w)) \<and>
   only_looked P w (snd (resolve_target S P registry target role w))"
  using only_looksD [OF looks_verify] only_looksD [OF looks_resolve] by (metis prod.collapse)

end
