(* ===== verification/Published.thy ===== *)
theory Published
  imports Access
begin

text \<open>
  What publication guarantees: under the lock of a target nothing that is there is overwritten but
  its pointers, and a pointer always has its record and its binding behind it.
\<close>

subsection \<open>Growth of a target's directory\<close>

definition pointer_names :: "string list" where
  "pointer_names = [''current.json'', ''current.daemon.json'']"

definition is_pointer :: "string list \<Rightarrow> string list \<Rightarrow> bool" where
  "is_pointer d k \<longleftrightarrow> (\<exists>n\<in>set pointer_names. k = d @ [n])"

text \<open>Files inside the directory stay; the pointers are exactly as before.\<close>

definition grown :: "string list \<Rightarrow> rfiles \<Rightarrow> rfiles \<Rightarrow> bool" where
  "grown d fs fs' \<longleftrightarrow> (\<forall>k x. under d k \<longrightarrow> fmlookup fs k = Some x \<longrightarrow> fmlookup fs' k = Some x) \<and>
     (\<forall>k. is_pointer d k \<longrightarrow> fmlookup fs' k = fmlookup fs k)"

lemma grown_refl [simp]: "grown d fs fs"
  by (simp add: grown_def)

lemma grown_trans: "grown d a b \<Longrightarrow> grown d b c \<Longrightarrow> grown d a c"
  by (simp add: grown_def)

lemma inside_append [simp]: "under d (d @ k)"
  by (simp add: under_def)

lemma pointer_inside: "is_pointer d k \<Longrightarrow> under d k"
  by (auto simp: is_pointer_def)

definition under_lock :: "string list \<Rightarrow> rfiles \<Rightarrow> aworld \<Rightarrow> bool" where
  "under_lock d fs w \<longleftrightarrow> aw_lock w = Some d \<and> grown d fs (aw_files w)"

text \<open>An operation under the lock of \<open>d\<close> that at most adds to it.\<close>

named_theorems adds

definition only_adds :: "string list \<Rightarrow> (aworld, 'a) cmd \<Rightarrow> bool" where
  "only_adds d m \<longleftrightarrow> (\<forall>fs. keeps (under_lock d fs) m)"

lemma only_addsD: "only_adds d m \<Longrightarrow> m w = (r, w') \<Longrightarrow> aw_lock w = Some d \<Longrightarrow>
    aw_lock w' = Some d \<and> grown d (aw_files w) (aw_files w')"
  by (fastforce simp: only_adds_def under_lock_def dest: keepsD [where P = "under_lock d (aw_files w)"])

lemma looked_grown: "only_looked P w u \<Longrightarrow> aw_lock w = Some d \<Longrightarrow> grown d (aw_files w) (aw_files u)"
  by (auto simp: grown_def pointer_inside looked_frame)

lemma looks_adds [adds]: "only_looks P m \<Longrightarrow> only_adds d m"
  unfolding only_adds_def
proof (intro allI keepsI wpI)
  fix fs w r w' assume a: "only_looks P m" "under_lock d fs w" "m w = (r, w')"
  then have "only_looked P w w'" by (simp add: only_looksD)
  with a(2) show "under_lock d fs w'"
    by (auto simp: under_lock_def looked_frame(2) intro: grown_trans looked_grown)
qed

lemma adds_bnd [adds]: "only_adds d m \<Longrightarrow> (\<And>x. only_adds d (f x)) \<Longrightarrow> only_adds d (bnd m f)"
  by (simp add: only_adds_def keeps_bnd)

lemma adds_seq [adds]: "only_adds d m \<Longrightarrow> only_adds d k \<Longrightarrow> only_adds d (seq m k)"
  by (simp add: only_adds_def keeps_seq)

lemma adds_if [adds]: "(b \<Longrightarrow> only_adds d m) \<Longrightarrow> (\<not> b \<Longrightarrow> only_adds d n) \<Longrightarrow> only_adds d (if b then m else n)"
  by simp

lemma adds_option [adds]:
  "only_adds d m \<Longrightarrow> (\<And>y. only_adds d (f y)) \<Longrightarrow> only_adds d (case x of None \<Rightarrow> m | Some y \<Rightarrow> f y)"
  by (cases x) auto

lemma adds_for_each [adds]: "(\<And>x. x \<in> set xs \<Longrightarrow> only_adds d (f x)) \<Longrightarrow> only_adds d (for_each xs f)"
  by (induction xs) (auto intro: adds looks)

lemma adds_command [adds]: "only_adds d (command P argv missing)"
  by (auto simp: only_adds_def keeps_def command_def wp_rules under_lock_def pass_instant_def
      grown_def pointer_inside others_outside)

text \<open>A write that adds.\<close>

lemma wp_disk_write:
  "wp (disk_write P f) Q w \<longleftrightarrow>
     (let w1 = pass_instant P (w\<lparr>aw_files := f (aw_files w)\<rparr>) in case pb_disk P (aw_t w) of
        Unwritten \<Rightarrow> Q (Inl (OSError ''write failed'')) (pass_instant P w)
      | Written \<Rightarrow> Q (Inr ()) w1
      | Unsynced \<Rightarrow> Q (Inl (OSError ''write failed'')) w1)"
  by (simp add: disk_write_def wp_rules Let_def split: fate.split)

lemma pass_grown: "aw_lock w = Some d \<Longrightarrow> grown d (aw_files w) (aw_files (pass_instant P w))"
  by (auto simp: grown_def pass_instant_def pointer_inside others_outside)

lemma pass_under_lock: "under_lock d fs w \<Longrightarrow> under_lock d fs (pass_instant P w)"
  by (auto simp: under_lock_def intro: grown_trans pass_grown)

lemma adds_write:
  assumes "\<And>fs. grown d fs (f fs)"
  shows "only_adds d (disk_write P f)"
  using assms
  by (auto simp: only_adds_def keeps_def wp_disk_write Let_def split: fate.split
      intro!: pass_under_lock)
    (auto simp: under_lock_def intro: grown_trans)

lemma with_parents_lookup:
  "fmlookup (with_parents P p fs) k =
     (case fmlookup fs k of Some x \<Rightarrow> Some x
      | None \<Rightarrow> if \<exists>n<length p. k = take n p then Some (RDir (pb_uid P) (pb_dirmode P)) else None)"
proof -
  define g where "g = (\<lambda>(m :: rfiles) k. if fmlookup m k = None then fmupd k (RDir (pb_uid P) (pb_dirmode P)) m else m)"
  have "fmlookup (foldl g fs ks) k = (case fmlookup fs k of Some x \<Rightarrow> Some x
      | None \<Rightarrow> if k \<in> set ks then Some (RDir (pb_uid P) (pb_dirmode P)) else None)" for ks
    by (induction ks arbitrary: fs) (auto simp: g_def split: option.split)
  from this [of "map (\<lambda>n. take n p) [0..<length p]"] show ?thesis
    by (auto simp: with_parents_def g_def image_iff split: option.split)
qed

text \<open>The files of a publication: never a pointer, nor below one.\<close>

definition plain_file :: "string list \<Rightarrow> string list \<Rightarrow> bool" where
  "plain_file d p \<longleftrightarrow> under d p \<and> \<not> is_pointer d p \<and> (\<forall>n<length p. \<not> is_pointer d (take n p))"

lemma write_grown:
  assumes "plain_file d p" and "fmlookup fs p = None"
  shows "grown d fs (fmupd p x (with_parents P p fs))"
  using assms by (auto simp: grown_def plain_file_def with_parents_lookup split: option.split)

definition doc_at :: "rfiles \<Rightarrow> string list \<Rightarrow> dict option" where
  "doc_at fs p = (case fmlookup fs p of Some (RFile u m sz (Some (JObj v))) \<Rightarrow> Some v | _ \<Rightarrow> None)"

abbreviation stored :: "rfiles \<Rightarrow> string list \<Rightarrow> dict \<Rightarrow> bool" where
  "stored fs p v \<equiv> doc_at fs p = Some v"

lemma stored_def: "stored fs p v \<longleftrightarrow> (\<exists>u m sz. fmlookup fs p = Some (RFile u m sz (Some (JObj v))))"
  by (auto simp: doc_at_def split: option.splits rnode.splits json.splits)

lemma stored_grown: "stored fs p v \<Longrightarrow> grown d fs fs' \<Longrightarrow> under d p \<Longrightarrow> stored fs' p v"
  by (auto simp: stored_def grown_def)

lemma read_node_stored: "read_node (fmlookup fs p) missing = Inr v \<Longrightarrow> stored fs p v"
  by (auto simp: read_node_def stored_def split: option.splits rnode.splits bool.splits if_splits json.splits)

text \<open>An immutable write adds, and when it returns, the value is in place.\<close>

lemma wp_immutable:
  assumes "under_lock d fs w" and p: "plain_file d p"
  shows "wp (immutable S P p v) (\<lambda>r w'. under_lock d fs w' \<and> (r = Inr () \<longrightarrow> stored (aw_files w') p v)) w"
proof -
  let ?w1 = "pass_instant P w"
  have p': "under d p" using p by (simp add: plain_file_def)
  have l: "aw_lock w = Some d" and g: "grown d fs (aw_files w)" using assms(1) by (simp_all add: under_lock_def)
  have keep: "fmlookup (aw_files (pass_instant P u)) p = fmlookup (aw_files u) p" if "aw_lock u = Some d" for u
    using that p' by (simp add: pass_instant_def others_outside)
  show ?thesis
  proof (cases "fmlookup (aw_files w) p")
    case (Some x)
    define w2 where "w2 = pass_instant P ?w1"
    have u2: "under_lock d fs w2" using assms(1) unfolding w2_def by (intro pass_under_lock)
    have s2: "stored (aw_files w2) p d'" if "read_node (fmlookup (aw_files ?w1) p) ''UNPUBLISHED'' = Inr d'" for d'
      using read_node_stored [OF that] keep [of ?w1] l unfolding w2_def by (simp add: stored_def)
    define n where "n = read_node (fmlookup (aw_files ?w1) p) ''UNPUBLISHED''"
    have step: "wp (immutable S P p v) Q w = wp (pure (rbind n (\<lambda>d. require (d = v) ''CONFLICT'' ''immutable_record''))) Q w2" for Q
      using Some by (cases n) (simp_all add: immutable_def wp_bnd wp_node wp_read_json wp_pure n_def w2_def)
    show ?thesis unfolding step wp_pure
      using u2 s2 unfolding n_def [symmetric] by (cases n) auto
  next
    case None
    define f where "f = (\<lambda>fs. fmupd p (RFile (pb_uid P) 384 (a_size S v) (Some (JObj v))) (with_parents P p fs))"
    have n1: "fmlookup (aw_files ?w1) p = None" using None keep [of w] l by simp
    have g1: "under_lock d fs ?w1" using assms(1) by (rule pass_under_lock)
    have "under_lock d fs (?w1\<lparr>aw_files := f (aw_files ?w1)\<rparr>)"
      using g1 write_grown [OF p n1] by (auto simp: under_lock_def f_def intro: grown_trans)
    then have g2: "under_lock d fs (pass_instant P (?w1\<lparr>aw_files := f (aw_files ?w1)\<rparr>))" by (rule pass_under_lock)
    have s2: "stored (aw_files (pass_instant P (?w1\<lparr>aw_files := f (aw_files ?w1)\<rparr>))) p v"
      using keep [of "?w1\<lparr>aw_files := f (aw_files ?w1)\<rparr>"] l by (simp add: stored_def f_def)
    define w2 where "w2 = pass_instant P (?w1\<lparr>aw_files := f (aw_files ?w1)\<rparr>)"
    have step: "wp (immutable S P p v) Q w = wp (disk_write P f) Q ?w1" for Q
      using None by (simp add: immutable_def wp_bnd wp_node atomic_write_json_def f_def)
    show ?thesis
      unfolding step wp_disk_write Let_def w2_def [symmetric]
      using g2 s2 pass_under_lock [OF g1] unfolding w2_def [symmetric] by (cases "pb_disk P (aw_t ?w1)") simp_all
  qed
qed

lemma adds_immutable: "plain_file d p \<Longrightarrow> only_adds d (immutable S P p v)"
  unfolding only_adds_def keeps_def by (auto intro!: wp_mono [OF wp_immutable])

lemma adds_make_dir: "\<not> is_pointer d p \<Longrightarrow> only_adds d (make_dir P p)"
  unfolding make_dir_def by (rule adds_write) (auto simp: grown_def)

lemma adds_directory: "\<not> is_pointer d p \<Longrightarrow> only_adds d (directory P True p)"
  unfolding directory_def
  by (intro adds_bnd adds_seq adds_if)
    (auto intro: adds_make_dir looks_adds looks intro!: looks_adds [OF looks_node] split: option.split rnode.split)

subsection \<open>Preparing a record\<close>

lemma pointer_last: "is_pointer d (d @ k) \<longleftrightarrow> (\<exists>n\<in>set pointer_names. k = [n])"
  by (auto simp: is_pointer_def)

lemma take_pointer: "is_pointer d (take n (d @ k)) \<Longrightarrow> k \<noteq> [] \<and> (\<exists>x\<in>set pointer_names. hd k = x \<and> length d < n)"
proof -
  assume "is_pointer d (take n (d @ k))"
  then obtain x where x: "x \<in> set pointer_names" "take n (d @ k) = d @ [x]" by (auto simp: is_pointer_def)
  then have "length (take n (d @ k)) = length d + 1" by simp
  then have n: "length d < n" by (simp add: min_def split: if_splits)
  then have "take (n - length d) k = [x]" using x(2) by simp
  then have "k \<noteq> [] \<and> hd k = x" by (cases k; cases "n - length d") auto
  with x(1) n show ?thesis by blast
qed

lemma plain_append: "k \<noteq> [] \<Longrightarrow> hd k \<notin> set pointer_names \<Longrightarrow> plain_file d (d @ k)"
  unfolding plain_file_def using take_pointer [of d _ k] by (auto simp: pointer_last)

lemma plain_binding [simp]: "plain_file d (d @ [''binding.json''])"
  by (rule plain_append) (simp_all add: pointer_names_def)

lemma plain_record [simp]: "plain_file d (record_path d r)"
  by (auto simp: record_path_def pointer_names_def intro!: plain_append)

lemma looks_existing [looks]: "only_looks P m \<Longrightarrow> only_looks P (existing m)"
proof -
  assume m: "only_looks P m"
  have "only_looks P (case e of AccessError st reason \<Rightarrow> if st = ''UNPUBLISHED'' then ret None else throw e | _ \<Rightarrow> throw e)" for e
    by (cases e) (auto intro: looks)
  with m show ?thesis unfolding existing_def by (intro looks) auto
qed

lemma record_dir_plain: "\<not> is_pointer d (butlast (record_path d r))"
  by (simp add: record_path_def butlast_append pointer_last pointer_names_def)

lemma looks_prior:
  "only_looks P (existing (bnd (read_json P p missing) (\<lambda>x. pure (validate_record S x target epoch))))"
  by (intro looks)

lemma adds_prepare [adds]: "only_adds d (prepare_record S P d r)"
  unfolding prepare_record_def Let_def
  by (intro adds_bnd adds_seq adds_immutable adds_directory looks_adds [OF looks_prior] looks_adds [OF looks_basic(1)]
      plain_binding plain_record record_dir_plain)

lemma existing_Inr: "existing m w = (Inr x, w') \<Longrightarrow> x \<noteq> None \<Longrightarrow> m w = (Inr (the x), w')"
  by (auto simp: existing_def handle_def bnd_def ret_def throw_def split: prod.splits sum.splits exn.splits if_splits)

lemma record_parts [simp]:
  "record_path d (fmupd ''published_at'' v r) = record_path d r"
  "binding (fmupd ''published_at'' v r) = binding r"
  "dget (fmupd ''published_at'' v r) ''target'' = dget r ''target''"
  "dget (fmupd ''published_at'' v r) ''execution_epoch'' = dget r ''execution_epoch''"
  by (simp_all add: record_path_def is_generation_def binding_def)

lemma immutable_Inr:
  assumes "immutable S P p v w = (Inr (), w')" and "aw_lock w = Some d" and "plain_file d p"
  shows "stored (aw_files w') p v"
proof -
  have "under_lock d (aw_files w) w" using assms(2) by (simp add: under_lock_def)
  from wpD [OF wp_immutable [OF this assms(3)] assms(1)] show ?thesis by simp
qed

lemma stored_unique: "stored fs p a \<Longrightarrow> stored fs p b \<Longrightarrow> a = b"
  by (auto simp: stored_def)

lemma prepare_Inr:
  assumes run: "prepare_record S P d r w = (Inr r', w')" and l: "aw_lock w = Some d"
    and ok: "validate_record S r target epoch = Inr r"
  shows "validate_record S r' target epoch = Inr r' \<and> stored (aw_files w') (record_path d r') r' \<and>
    stored (aw_files w') (d @ [''binding.json'']) (binding r') \<and>
    (r' = r \<or> (\<exists>v. r' = fmupd ''published_at'' v r))"
proof -
  have texts: "text_or_empty (dget r ''target'') = target" "text_or_empty (dget r ''execution_epoch'') = epoch"
    using checked_record(2,3) [OF ok] by simp_all
  from run obtain u1 u2 u3 prior where
    b: "immutable S P (d @ [''binding.json'']) (binding r) w = (Inr (), u1)"
    and dir: "directory P True (butlast (record_path d r)) u1 = (Inr (), u2)"
    and ex: "existing (bnd (read_json P (record_path d r) ''UNPUBLISHED'') (\<lambda>x. pure (validate_record S x target epoch))) u2
        = (Inr prior, u3)"
    and r': "r' = (case prior of None \<Rightarrow> r | Some x \<Rightarrow> fmupd ''published_at'' (dget x ''published_at'') r)"
    and im: "immutable S P (record_path d r) r' u3 = (Inr (), w')"
    unfolding prepare_record_def Let_def texts by (auto simp: run_Inr)
  have a1: "aw_lock u1 = Some d" "grown d (aw_files w) (aw_files u1)"
    using only_addsD [OF adds_immutable [OF plain_binding] b l] by auto
  have a2: "aw_lock u2 = Some d" "grown d (aw_files u1) (aw_files u2)"
    using only_addsD [OF adds_directory [OF record_dir_plain] dir a1(1)] by auto
  from only_addsD [OF looks_adds [OF looks_prior] ex a2(1)]
  have a3: "aw_lock u3 = Some d" "grown d (aw_files u2) (aw_files u3)" by auto
  have a4: "grown d (aw_files u3) (aw_files w')" using only_addsD [OF adds_immutable [OF plain_record] im a3(1)] by auto
  have bs: "stored (aw_files w') (d @ [''binding.json'']) (binding r)"
    using immutable_Inr [OF b l plain_binding] a2(2) a3(2) a4
    by (meson grown_trans inside_append stored_grown)
  have rs: "stored (aw_files w') (record_path d r) r'" using immutable_Inr [OF im a3(1) plain_record] .
  show ?thesis
  proof (cases prior)
    case None
    then show ?thesis using ok bs rs r' by simp
  next
    case (Some x)
    with existing_Inr [OF ex]
    have "bnd (read_json P (record_path d r) ''UNPUBLISHED'') (\<lambda>x. pure (validate_record S x target epoch)) u2 = (Inr x, u3)"
      by simp
    then obtain y v where rd: "read_json P (record_path d r) ''UNPUBLISHED'' u2 = (Inr y, v)"
      and "pure (validate_record S y target epoch) v = (Inr x, u3)" unfolding bnd_run_Inr by blast
    then have y: "read_node (fmlookup (aw_files u2) (record_path d r)) ''UNPUBLISHED'' = Inr y"
      "validate_record S y target epoch = Inr x" by (simp_all add: read_run basic_run_Inr)
    then have "y = x" by (simp add: validate_record_Inr)
    with y have "stored (aw_files u2) (record_path d r) x" "validate_record S x target epoch = Inr x"
      by (auto dest: read_node_stored)
    moreover have "under d (record_path d r)" by (simp add: record_path_def)
    ultimately have "stored (aw_files w') (record_path d r) x"
      using a3(2) a4 by (meson grown_trans stored_grown)
    with rs have "r' = x" by (rule stored_unique)
    then have v: "validate_record S r' target epoch = Inr r'" using \<open>validate_record S x target epoch = Inr x\<close> by simp
    have e: "r' = fmupd ''published_at'' (dget x ''published_at'') r" using r' Some by simp
    then have eqs: "record_path d r' = record_path d r" "binding r' = binding r" by simp_all
    have "stored (aw_files w') (record_path d r') r'" "stored (aw_files w') (d @ [''binding.json'']) (binding r')"
      using rs bs unfolding eqs .
    with v e show ?thesis by blast
  qed
qed

subsection \<open>A pointer always has its record behind it\<close>

definition backed_pointer :: "site \<Rightarrow> string \<Rightarrow> rfiles \<Rightarrow> string list \<Rightarrow> bool" where
  "backed_pointer S target fs k = (let d = dir_of target in case doc_at fs k of
     None \<Rightarrow> True
   | Some p \<Rightarrow> (case doc_at fs (record_path d p) of
       None \<Rightarrow> False
     | Some r \<Rightarrow> p = pointer_of S r \<and> validate_record S r target (text_or_empty (dget r ''execution_epoch'')) = Inr r \<and>
         pointer_path d (role_of r) = Inr k \<and> doc_at fs (d @ [''binding.json'']) = Some (binding r)))"

definition backed :: "site \<Rightarrow> string \<Rightarrow> rfiles \<Rightarrow> bool" where
  "backed S target fs \<longleftrightarrow> list_all (\<lambda>n. backed_pointer S target fs (dir_of target @ [n])) pointer_names"

lemma doc_at_grown: "grown d fs fs' \<Longrightarrow> under d p \<Longrightarrow> doc_at fs p = Some v \<Longrightarrow> doc_at fs' p = Some v"
  by (rule stored_grown)

lemma doc_at_pointer: "grown d fs fs' \<Longrightarrow> is_pointer d k \<Longrightarrow> doc_at fs' k = doc_at fs k"
  by (simp add: grown_def doc_at_def)

lemma record_inside [simp]: "under d (record_path d r)"
  by (simp add: record_path_def)

lemma backed_grown:
  assumes "backed S target fs" and g: "grown (dir_of target) fs fs'"
  shows "backed S target fs'"
proof -
  have "backed_pointer S target fs' k" if b: "backed_pointer S target fs k" and k: "is_pointer (dir_of target) k" for k
  proof -
    let ?d = "dir_of target"
    show ?thesis
    proof (cases "doc_at fs k")
      case None
      then show ?thesis by (simp add: backed_pointer_def doc_at_pointer [OF g k])
    next
      case (Some p)
      with b obtain r where r: "doc_at fs (record_path ?d p) = Some r" "doc_at fs (?d @ [''binding.json'']) = Some (binding r)"
        and rest: "p = pointer_of S r" "validate_record S r target (text_or_empty (dget r ''execution_epoch'')) = Inr r"
          "pointer_path ?d (role_of r) = Inr k"
        by (auto simp: backed_pointer_def Let_def split: option.splits)
      from r have "doc_at fs' (record_path ?d p) = Some r" "doc_at fs' (?d @ [''binding.json'']) = Some (binding r)"
        using doc_at_grown [OF g] by simp_all
      then show ?thesis using Some rest by (simp add: backed_pointer_def doc_at_pointer [OF g k])
    qed
  qed
  then show ?thesis using assms(1) by (auto simp: backed_def list_all_iff is_pointer_def)
qed

definition sealed_off :: "site \<Rightarrow> string \<Rightarrow> aworld \<Rightarrow> bool" where
  "sealed_off S target w \<longleftrightarrow> aw_lock w = Some (dir_of target) \<and> backed S target (aw_files w)"

lemma adds_keeps: "only_adds (dir_of target) m \<Longrightarrow> keeps (sealed_off S target) m"
proof (intro keepsI wpI)
  fix w res w' assume a: "only_adds (dir_of target) m" "sealed_off S target w" "m w = (res, w')"
  then have "aw_lock w' = Some (dir_of target) \<and> grown (dir_of target) (aw_files w) (aw_files w')"
    using only_addsD [OF a(1) a(3)] by (simp add: sealed_off_def)
  then show "sealed_off S target w'" using a(2) by (auto simp: sealed_off_def intro: backed_grown)
qed

definition in_place :: "site \<Rightarrow> string \<Rightarrow> dict \<Rightarrow> aworld \<Rightarrow> bool" where
  "in_place S target r w \<longleftrightarrow> sealed_off S target w \<and> doc_at (aw_files w) (record_path (dir_of target) r) = Some r \<and>
     doc_at (aw_files w) (dir_of target @ [''binding.json'']) = Some (binding r)"

lemma adds_keeps_in_place: "only_adds (dir_of target) m \<Longrightarrow> keeps (in_place S target r) m"
proof (intro keepsI wpI)
  fix w res w' assume a: "only_adds (dir_of target) m" "in_place S target r w" "m w = (res, w')"
  then have "sealed_off S target w'" using adds_keeps [OF a(1)] by (auto simp: in_place_def dest: keepsD)
  moreover have "grown (dir_of target) (aw_files w) (aw_files w')"
    using a by (auto simp: in_place_def sealed_off_def dest: only_addsD)
  ultimately show "in_place S target r w'" using a(2) by (auto simp: in_place_def intro: doc_at_grown)
qed

subsection \<open>Moving the pointer\<close>

lemma pointer_of_get [simp]:
  "dget (pointer_of S r) ''schema_version'' = dget r ''schema_version''"
  "dget (pointer_of S r) ''target'' = dget r ''target''"
  "dget (pointer_of S r) ''execution_epoch'' = dget r ''execution_epoch''"
  "dget (pointer_of S r) ''record_sha256'' = JStr (a_digest S r)"
  "is_generation r \<Longrightarrow> dget (pointer_of S r) ''generation'' = dget r ''generation''"
  "is_generation (pointer_of S r) = is_generation r"
  by (simp_all add: pointer_of_def is_generation_def)

lemma record_path_pointer [simp]: "record_path d (pointer_of S r) = record_path d r"
  by (simp add: record_path_def)

lemma pointer_path_is_pointer: "pointer_path d role = Inr k \<Longrightarrow> is_pointer d k"
  by (auto simp: pointer_path_def rbind_Inr_iff is_pointer_def pointer_names_def split: if_splits)

lemma pointer_write:
  assumes r: "doc_at fs (record_path (dir_of target) r) = Some r" "doc_at fs (dir_of target @ [''binding.json'']) = Some (binding r)"
    and v: "validate_record S r target epoch = Inr r" and b: "backed S target fs"
    and k: "pointer_path (dir_of target) (role_of r) = Inr k"
  shows "backed S target (fmupd k (RFile u m sz (Some (JObj (pointer_of S r)))) (with_parents P k fs))"
proof -
  let ?d = "dir_of target"
  define fs1 where "fs1 = with_parents P k fs"
  let ?fs = "fmupd k (RFile u m sz (Some (JObj (pointer_of S r)))) fs1"
  have kp: "is_pointer ?d k" using k by (rule pointer_path_is_pointer)
  have "grown ?d fs fs1"
  proof -
    have "\<not> is_pointer ?d (take n k)" if "n < length k" for n
    proof
      have len: "is_pointer ?d q \<Longrightarrow> length q = Suc (length ?d)" for q by (auto simp: is_pointer_def)
      assume "is_pointer ?d (take n k)"
      from len [OF this] len [OF kp] that show False by simp
    qed
    then show ?thesis by (auto simp: grown_def fs1_def with_parents_lookup split: option.split)
  qed
  then have b1: "backed S target fs1" and r1: "doc_at fs1 (record_path ?d r) = Some r" "doc_at fs1 (?d @ [''binding.json'']) = Some (binding r)"
    using b r by (auto intro: backed_grown doc_at_grown)
  have other: "doc_at ?fs p = doc_at fs1 p" if "p \<noteq> k" for p
    using that by (simp add: doc_at_def)
  have plain: "record_path ?d x \<noteq> k" "?d @ [''binding.json''] \<noteq> k" for x
    using kp plain_record [of ?d x] plain_binding [of ?d] by (auto simp: plain_file_def)
  have e: "text_or_empty (dget r ''execution_epoch'') = epoch" using checked_record(3) [OF v] by simp
  have "backed_pointer S target ?fs k"
    using v e k r1 other plain by (simp add: backed_pointer_def doc_at_def [of ?fs k])
  moreover have "backed_pointer S target ?fs k'" if "k' \<noteq> k" "backed_pointer S target fs1 k'" for k'
    using that(2) by (simp only: backed_pointer_def Let_def other [OF that(1)] other [OF plain(1)] other [OF plain(2)])
  ultimately have "backed_pointer S target ?fs k'" if "backed_pointer S target fs1 k'" for k'
    using that by (cases "k' = k") simp_all
  then show ?thesis using b1 unfolding fs1_def [symmetric] by (simp add: backed_def list_all_iff)
qed

lemma sealed_pass: "sealed_off S target w \<Longrightarrow> sealed_off S target (pass_instant P w)"
  by (auto simp: sealed_off_def intro: backed_grown pass_grown)

text \<open>Running one step after another under an invariant that the second one weakens.\<close>

lemma wp_seq_inv:
  assumes "wp m (\<lambda>_. I) w" and "\<And>u. I u \<Longrightarrow> J u" and "\<And>u. I u \<Longrightarrow> wp k (\<lambda>_. J) u"
  shows "wp (seq m k) (\<lambda>_. J) w"
  unfolding wp_seq by (rule wp_mono [OF assms(1)]) (use assms(2,3) in auto)

lemma wp_bnd_inv:
  assumes "wp m Q w" and "\<And>e u. Q (Inl e) u \<Longrightarrow> J u" and "\<And>x u. Q (Inr x) u \<Longrightarrow> wp (f x) (\<lambda>_. J) u"
  shows "wp (bnd m f) (\<lambda>_. J) w"
  unfolding wp_bnd by (rule wp_mono [OF assms(1)]) (use assms(2,3) in auto)

lemma keeps_run_wp: "keeps I m \<Longrightarrow> I w \<Longrightarrow> wp m (\<lambda>_. I) w"
  by (simp add: keeps_def)

lemma wp_pointer_write:
  assumes "in_place S target r w" and v: "validate_record S r target epoch = Inr r"
    and k: "pointer_path (dir_of target) (role_of r) = Inr k"
  shows "wp (atomic_write_json S P k (pointer_of S r)) (\<lambda>_. sealed_off S target) w"
proof -
  define f where "f = (\<lambda>fs. fmupd k (RFile (pb_uid P) 384 (a_size S (pointer_of S r)) (Some (JObj (pointer_of S r)))) (with_parents P k fs))"
  have w: "sealed_off S target w" using assms(1) by (simp add: in_place_def)
  have "sealed_off S target (w\<lparr>aw_files := f (aw_files w)\<rparr>)"
    using assms(1) pointer_write [OF _ _ v _ k] by (simp add: in_place_def sealed_off_def f_def)
  then have "sealed_off S target (pass_instant P (w\<lparr>aw_files := f (aw_files w)\<rparr>))" by (rule sealed_pass)
  then show ?thesis using sealed_pass [OF w] unfolding atomic_write_json_def f_def [symmetric] wp_disk_write Let_def
    by (simp split: fate.split)
qed

lemma wp_commit_pointer:
  assumes i: "in_place S target r w" and v: "validate_record S r target epoch = Inr r"
  shows "wp (commit_pointer S P (dir_of target) r) (\<lambda>_. sealed_off S target) w"
proof (cases "pointer_path (dir_of target) (role_of r)")
  case (Inl e)
  then show ?thesis using i by (simp add: commit_pointer_def wp_bnd wp_pure in_place_def)
next
  case (Inr k)
  have sealed: "in_place S target r u \<Longrightarrow> sealed_off S target u" for u by (simp add: in_place_def)
  have keep: "keeps (in_place S target r) (if is_generation r then expect_current S P k r else ret ())"
    by (intro adds_keeps_in_place looks_adds [where P = P] looks)
  have puts: "wp (seq (atomic_write_json S P k (pointer_of S r)) (ret (pointer_of S r))) (\<lambda>_. sealed_off S target) u"
    if "in_place S target r u" for u
    by (rule wp_seq_inv [OF wp_pointer_write [OF that v Inr]]) (simp_all add: wp_ret)
  have "wp (seq (if is_generation r then expect_current S P k r else ret ())
      (seq (atomic_write_json S P k (pointer_of S r)) (ret (pointer_of S r)))) (\<lambda>_. sealed_off S target) w"
    by (rule wp_seq_inv [OF keeps_run_wp [OF keep i] sealed puts])
  then show ?thesis using Inr by (simp add: commit_pointer_def wp_bnd [of "pure _"] wp_pure)
qed

lemma adds_bind [adds]: "only_adds d (bind P r)"
  unfolding bind_def bind_marker_def Let_def
  by (intro adds_bnd adds_seq adds_for_each adds_command looks_adds [OF looks_basic(1)] looks_adds [OF looks_basic(3)]
      looks_adds [OF looks_environment])

lemma wp_install:
  assumes w: "sealed_off S target w" and v: "validate_record S r target epoch = Inr r"
  shows "wp (commit_record S P paths (dir_of target) m r) (\<lambda>_. sealed_off S target) w"
proof -
  let ?d = "dir_of target"
  have prep: "wp (prepare_record S P ?d r) (\<lambda>res u. sealed_off S target u \<and>
      (\<forall>r'. res = Inr r' \<longrightarrow> in_place S target r' u \<and> validate_record S r' target epoch = Inr r')) u"
    if "sealed_off S target u" for u
  proof (rule wpI)
    fix res u' assume run: "prepare_record S P ?d r u = (res, u')"
    have "sealed_off S target u'" using keepsD [OF adds_keeps [OF adds_prepare] run that] .
    moreover have "in_place S target r' u' \<and> validate_record S r' target epoch = Inr r'" if "res = Inr r'" for r'
      using prepare_Inr [OF _ _ v, of P ?d u r' u'] run that \<open>sealed_off S target u\<close> \<open>sealed_off S target u'\<close>
      by (simp add: in_place_def sealed_off_def)
    ultimately show "sealed_off S target u' \<and> (\<forall>r'. res = Inr r' \<longrightarrow> in_place S target r' u' \<and>
        validate_record S r' target epoch = Inr r')" by blast
  qed
  have live_keeps: "keeps (sealed_off S target) (live S P paths m r)" for r
    by (intro adds_keeps looks_adds [where P = P] looks)
  have place_keeps: "keeps (in_place S target r') (live S P paths m r)" for r r'
    by (intro adds_keeps_in_place looks_adds [where P = P] looks)
  have verified_keeps: "keeps (sealed_off S target) (verified S P r')" for r'
    by (intro adds_keeps looks_adds [where P = P] looks)
  have sealed: "in_place S target r' u \<Longrightarrow> sealed_off S target u" for r' u by (simp add: in_place_def)
  have last: "wp (seq (live S P paths m r') (bnd (commit_pointer S P ?d r') (\<lambda>_. verified S P r'))) (\<lambda>_. sealed_off S target) u"
    if "in_place S target r' u \<and> validate_record S r' target epoch = Inr r'" for r' u
  proof (rule wp_seq_inv [OF keeps_run_wp [OF place_keeps] sealed])
    show "in_place S target r' u" using that ..
    fix v assume "in_place S target r' v"
    then show "wp (bnd (commit_pointer S P ?d r') (\<lambda>_. verified S P r')) (\<lambda>_. sealed_off S target) v"
      using that by (intro wp_bnd_inv [OF wp_commit_pointer] keeps_run_wp [OF verified_keeps]) auto
  qed
  have "wp (bnd (prepare_record S P ?d r) (\<lambda>r'. seq (live S P paths m r') (bnd (commit_pointer S P ?d r') (\<lambda>_. verified S P r'))))
      (\<lambda>_. sealed_off S target) u" if "sealed_off S target u" for u
    by (rule wp_bnd_inv [OF prep [OF that]]) (use last in auto)
  then show ?thesis unfolding commit_record_def
    by (intro wp_seq_inv [OF keeps_run_wp [OF adds_keeps [OF adds_bind] w]] wp_seq_inv [OF keeps_run_wp [OF live_keeps]]) auto
qed

subsection \<open>Publication as a whole\<close>

lemma looks_against [looks]: "only_looks P (against_existing S P d target q r)"
  unfolding against_existing_def Let_def by (intro looks)

lemma looks_current_pointer [looks]: "only_looks P (current_pointer S P d target q)"
  unfolding current_pointer_def by (intro looks)

lemma against_Inr:
  assumes run: "against_existing S P d target q r w = (Inr r', w')" and v: "validate_record S r target epoch = Inr r"
  shows "validate_record S r' target epoch = Inr r'"
proof -
  have e: "text_or_empty (dget r ''execution_epoch'') = epoch" using checked_record(3) [OF v] by simp
  let ?tail = "\<lambda>n :: rnode option. if n = None then ret r
      else
        bnd (read_json P (record_path d r) ''UNPUBLISHED'') (\<lambda>x.
        bnd (pure (validate_record S x target epoch)) (\<lambda>prior.
        let r' = fmupd ''published_at'' (dget prior ''published_at'') r in
        seq (pure (require (r' = prior) ''CONFLICT''
               (if rq_generation q = None then ''epoch_publication'' else ''generation_publication'')))
        (ret r')))"
  from run obtain n u where "?tail n u = (Inr r', w')"
    unfolding against_existing_def e by (simp only: bnd_run_Inr seq_run_Inr) blast
  then show ?thesis
  proof (cases "n = None")
    case True
    then show ?thesis using \<open>?tail n u = (Inr r', w')\<close> v by (simp add: run_Inr)
  next
    case False
    with \<open>?tail n u = (Inr r', w')\<close> obtain x prior where "validate_record S x target epoch = Inr prior"
      "r' = fmupd ''published_at'' (dget prior ''published_at'') r" "r' = prior"
      unfolding Let_def by (auto simp: run_Inr)
    then show ?thesis by (simp add: validate_record_Inr)
  qed
qed

lemma keeps_bnd_run:
  assumes "keeps I m" and "\<And>x s s'. m s = (Inr x, s') \<Longrightarrow> keeps I (f x)"
  shows "keeps I (bnd m f)"
proof (intro keepsI wpI)
  fix s r s' assume s: "I s" "bnd m f s = (r, s')"
  obtain a u where a: "m s = (a, u)" by force
  have u: "I u" using keepsD [OF assms(1) a s(1)] .
  show "I s'"
  proof (cases a)
    case (Inl e)
    then show ?thesis using s(2) a u by (simp add: bnd_def)
  next
    case (Inr x)
    then have "f x u = (r, s')" using s(2) a by (simp add: bnd_def)
    then show ?thesis using keepsD [OF assms(2)] a u Inr by blast
  qed
qed

lemma keeps_install:
  "validate_record S r target epoch = Inr r \<Longrightarrow> keeps (sealed_off S target) (commit_record S P paths (dir_of target) m r)"
  by (auto simp: keeps_def intro: wp_install)

lemma keeps_publish_record:
  assumes "validate_record S r target epoch = Inr r"
  shows "keeps (sealed_off S target) (publish_record S P paths (dir_of target) m q ptr r)"
  unfolding publish_record_def Let_def
  by (intro keeps_if keeps_seq keeps_install [OF assms] adds_keeps looks_adds [where P = P] looks)

lemma keeps_publish_locked:
  "keeps (sealed_off S target) (publish_locked S P paths target q cfg (dir_of target))"
proof -
  have tail: "keeps (sealed_off S target) (bnd (pure (validate_record S r0 target (text_or_empty (dget r0 ''execution_epoch'')))) (\<lambda>r1.
      bnd (against_existing S P (dir_of target) target q r1) (\<lambda>r.
      bnd (current_pointer S P (dir_of target) target q) (\<lambda>ptr.
      publish_record S P paths (dir_of target) m q ptr r))))" for r0 m
  proof (rule keeps_bnd_pure)
    fix r1 assume "validate_record S r0 target (text_or_empty (dget r0 ''execution_epoch'')) = Inr r1"
    then have v: "validate_record S r1 target (text_or_empty (dget r0 ''execution_epoch'')) = Inr r1"
      by (simp add: validate_record_Inr)
    show "keeps (sealed_off S target) (bnd (against_existing S P (dir_of target) target q r1) (\<lambda>r.
      bnd (current_pointer S P (dir_of target) target q) (\<lambda>ptr.
      publish_record S P paths (dir_of target) m q ptr r)))"
    proof (rule keeps_bnd_run)
      show "keeps (sealed_off S target) (against_existing S P (dir_of target) target q r1)"
        by (intro adds_keeps looks_adds [where P = P] looks)
      fix r s s' assume "against_existing S P (dir_of target) target q r1 s = (Inr r, s')"
      from against_Inr [OF this v]
      show "keeps (sealed_off S target) (bnd (current_pointer S P (dir_of target) target q) (\<lambda>ptr.
          publish_record S P paths (dir_of target) m q ptr r))"
        by (intro keeps_bnd keeps_publish_record adds_keeps looks_adds [where P = P] looks)
    qed
  qed
  have looking: "keeps (sealed_off S target) m" if "only_looks P m" for m :: "(aworld, 'a) cmd"
    using that by (intro adds_keeps looks_adds)
  show ?thesis unfolding publish_locked_def Let_def
    by (intro keeps_bnd keeps_seq tail looking looks) (auto simp: requested_record_def intro!: looking looks split: option.split)
qed

text \<open>Before the lock is taken the other publishers may move the registry, as long as they keep pointers
  backed themselves.\<close>

definition cooperative :: "site \<Rightarrow> string \<Rightarrow> outside \<Rightarrow> bool" where
  "cooperative S target P \<longleftrightarrow> (\<forall>t fs. backed S target fs \<longrightarrow> backed S target (pb_others P t fs))"

definition open_backed :: "site \<Rightarrow> string \<Rightarrow> aworld \<Rightarrow> bool" where
  "open_backed S target w \<longleftrightarrow> aw_lock w = None \<and> backed S target (aw_files w)"

lemma open_pass: "cooperative S target P \<Longrightarrow> open_backed S target w \<Longrightarrow> open_backed S target (pass_instant P w)"
  by (auto simp: open_backed_def pass_instant_def others_move_def cooperative_def)

lemma looks_open: "cooperative S target P \<Longrightarrow> only_looks P m \<Longrightarrow> keeps (open_backed S target) m"
proof (intro keepsI wpI)
  fix w r w' assume c: "cooperative S target P" and m: "only_looks P m" "m w = (r, w')" and w: "open_backed S target w"
  from only_looksD [OF m] w show "open_backed S target w'"
  proof induction
    case (looked_time u)
    then show ?case using open_pass [OF c] by blast
  qed (auto simp: open_backed_def)
qed

lemma make_dir_open:
  assumes "cooperative S target P" and "\<not> is_pointer (dir_of target) p"
  shows "keeps (open_backed S target) (make_dir P p)"
proof -
  define f where "f = (\<lambda>fs. if fmlookup fs p = None then fmupd p (RDir (pb_uid P) 448) fs else fs)"
  have "grown (dir_of target) fs (f fs)" for fs using assms(2) by (auto simp: grown_def f_def)
  then have "open_backed S target (w\<lparr>aw_files := f (aw_files w)\<rparr>)" if "open_backed S target w" for w
    using that by (auto simp: open_backed_def intro: backed_grown)
  then show ?thesis unfolding make_dir_def f_def [symmetric] keeps_def wp_disk_write Let_def
    using open_pass [OF assms(1)] by (auto split: fate.split)
qed

lemma directory_open:
  assumes "cooperative S target P" and "\<not> is_pointer (dir_of target) p"
  shows "keeps (open_backed S target) (directory P create p)"
proof (cases create)
  case True
  have look: "keeps (open_backed S target) m" if "only_looks P m" for m :: "(aworld, 'b) cmd"
    using looks_open [OF assms(1) that] .
  show ?thesis unfolding directory_def
    by (intro keeps_bnd keeps_seq keeps_if)
      (auto intro: make_dir_open [OF assms] look looks intro!: look [OF looks_node] look [OF looks_basic(3)]
        split: option.split rnode.split)
next
  case False
  then show ?thesis using looks_open [OF assms(1) looks_directory] by simp
qed

lemma target_dir_open:
  assumes "cooperative S target P"
  shows "keeps (open_backed S target) (target_dir P target True)"
proof -
  have "\<not> is_pointer (dir_of target) (take (Suc n) (dir_of target))" for n
    by (auto simp: is_pointer_def dest!: arg_cong [where f = length])
  moreover have "\<not> is_pointer (dir_of target) (dir_of target @ [''epochs''])"
    "\<not> is_pointer (dir_of target) (dir_of target @ [''generations''])"
    by (simp_all add: pointer_last pointer_names_def)
  ultimately show ?thesis unfolding target_dir_def Let_def
    by (intro keeps_seq keeps_pure keeps_ret keeps_for_each directory_open [OF assms]) auto
qed

lemma target_dir_Inr: "target_dir P target c w = (Inr d, w') \<Longrightarrow> d = dir_of target"
  by (auto simp: target_dir_def Let_def run_Inr)

lemma with_lock_open:
  assumes "keeps (sealed_off S target) m"
  shows "keeps (open_backed S target) (with_lock (dir_of target) m)"
proof (intro keepsI)
  fix w assume "open_backed S target w"
  then have "sealed_off S target (w\<lparr>aw_lock := Some (dir_of target)\<rparr>)" by (simp add: open_backed_def sealed_off_def)
  with assms have "wp m (\<lambda>_. sealed_off S target) (w\<lparr>aw_lock := Some (dir_of target)\<rparr>)" by (simp add: keeps_def)
  then show "wp (with_lock (dir_of target) m) (\<lambda>_. open_backed S target) w"
    unfolding wp_with_lock by (rule wp_mono) (simp add: open_backed_def sealed_off_def)
qed

text \<open>C37: Whatever fails on the way, an observation, a durable write or the process itself, a target's
  pointers are backed afterwards when they were before: each names, by its digest, a checked record
  of this target that is on disk, with the target's binding. Other publishers may work at the same
  time as long as they keep this too and the lock of the target excludes them.\<close>

theorem publication_keeps_pointers_backed:
  assumes others: "cooperative S target P" and w: "backed S target (aw_files w)" "aw_lock w = None"
  shows "backed S target (aw_files (snd (publish_access S P paths target q w)))"
proof -
  have look: "keeps (open_backed S target) m" if "only_looks P m" for m :: "(aworld, 'b) cmd"
    using looks_open [OF others that] .
  have tail: "keeps (open_backed S target) (bnd (target_dir P target True) (\<lambda>d. with_lock d (publish_locked S P paths target q cfg d)))" for cfg
  proof (rule keeps_bnd_run [OF target_dir_open [OF others]])
    fix d s s' assume "target_dir P target True s = (Inr d, s')"
    then have "d = dir_of target" by (rule target_dir_Inr)
    then show "keeps (open_backed S target) (with_lock d (publish_locked S P paths target q cfg d))"
      using with_lock_open [OF keeps_publish_locked] by simp
  qed
  have "keeps (open_backed S target) (publish_access S P paths target q)"
    unfolding publish_access_def
    by (intro keeps_seq keeps_bnd keeps_pure tail look looks_configuration looks_manifest looks_local)
  then show ?thesis using w
    by (auto simp: open_backed_def dest!: keepsD [where s = w and s' = "snd (publish_access S P paths target q w)"]
        intro: prod.collapse [symmetric])
qed

end
