(* ===== verification/Certified.thy ===== *)
theory Certified
  imports Published
begin

text \<open>
  What a verified target is: the record read from the registry against the deployment, the daemon,
  the allocation and the control session observed between two instants.
\<close>

subsection \<open>Observations at instants\<close>

text \<open>In the course of a run that began in the world \<open>w\<close> and has only looked since, the operation, started at instant
  \<open>t\<close>, returned \<open>x\<close> at instant \<open>t'\<close>.\<close>

definition observed_at :: "outside \<Rightarrow> aworld \<Rightarrow> (aworld, 'a) cmd \<Rightarrow> 'a \<Rightarrow> nat \<Rightarrow> nat \<Rightarrow> bool" where
  "observed_at P w m x t t' \<longleftrightarrow> (\<exists>u u'. only_looked P w u \<and> m u = (Inr x, u') \<and> aw_t u = t \<and> aw_t u' = t')"

lemma observed_atI: "m u = (Inr x, u') \<Longrightarrow> only_looked P w u \<Longrightarrow> observed_at P w m x (aw_t u) (aw_t u')"
  by (auto simp: observed_at_def)

lemma looks_later: "only_looks P m \<Longrightarrow> m w = (r, w') \<Longrightarrow> aw_t w \<le> aw_t w'"
  by (auto dest: only_looksD looked_frame(1))

definition alive_at :: "outside \<Rightarrow> dict \<Rightarrow> nat \<Rightarrow> bool" where
  "alive_at P m t \<longleftrightarrow> daemon_alive (pb_machine P t) (Some m) = Inr (Some True)"

text \<open>The allocation of the record runs, on its node and for its owner.\<close>

definition running_at :: "outside \<Rightarrow> aworld \<Rightarrow> dict \<Rightarrow> nat \<Rightarrow> nat \<Rightarrow> bool" where
  "running_at P w r t t' \<longleftrightarrow> (\<exists>v. observed_at P w (scheduler P (text_or_empty (sub r ''scheduler'' ''job_id''))) v t t' \<and>
     jb_state v = ''RUNNING'' \<and> text_or_empty (sub r ''scheduler'' ''scheduler_node'') \<in> set (jb_nodes v) \<and>
     JInt (jb_owner v) = dget r ''owner_uid'' \<and> sub r ''scheduler'' ''allocation_started_at'' = JStr (jb_start v))"

definition control_at :: "outside \<Rightarrow> aworld \<Rightarrow> dict \<Rightarrow> nat \<Rightarrow> nat \<Rightarrow> bool" where
  "control_at P w r t t' \<longleftrightarrow> observed_at P w (control_again P (obj_of (dget r ''control''))) (obj_of (dget r ''control'')) t t'"

definition marked_at :: "outside \<Rightarrow> aworld \<Rightarrow> dict \<Rightarrow> nat \<Rightarrow> nat \<Rightarrow> bool" where
  "marked_at P w r t t' \<longleftrightarrow> observed_at P w (environment P (obj_of (dget r ''control''))) (markers r) t t'"

text \<open>The adopted process, when the record names one, and not the daemon in the interactive role.\<close>

definition role_at :: "outside \<Rightarrow> aworld \<Rightarrow> dict \<Rightarrow> dict \<Rightarrow> nat \<Rightarrow> nat \<Rightarrow> bool" where
  "role_at P w m r t t' \<longleftrightarrow> (case dget r ''endpoint_role'' of
     JObj role \<Rightarrow> (dget role ''kind'' = JStr ''interactive'' \<longrightarrow> dget role ''pid'' \<noteq> dget m ''pid'') \<and>
       (\<exists>pid. as_int (dget role ''pid'') = Inr pid \<and>
         observed_at P w (observe_role P (obj_of (dget r ''control'')) (text_or_empty (dget role ''kind'')) pid) role t t')
   | _ \<Rightarrow> True)"

text \<open>A record is certified between two instants: it matches the deployment, the daemon is alive, the
  allocation runs, and the control session is the recorded one before and after its markers and its
  role were read; the deployment is then still the same.\<close>

definition certified :: "site \<Rightarrow> outside \<Rightarrow> string \<Rightarrow> aworld \<Rightarrow> dict \<Rightarrow> dict \<Rightarrow> nat \<Rightarrow> nat \<Rightarrow> bool" where
  "certified S P paths w m r t0 t1 \<longleftrightarrow>
     match_manifest S r m = Inr () \<and> dget r ''owner_uid'' = JInt (pb_uid P) \<and>
     (\<exists>a b b' c c' d d' e e' f f' g g'. t0 \<le> a \<and> a \<le> b \<and> b' \<le> c \<and> c' \<le> d \<and> d' \<le> e \<and> e' \<le> f \<and> f' \<le> g \<and> g' \<le> t1 \<and>
        alive_at P m a \<and> running_at P w r b b' \<and> control_at P w r c c' \<and> marked_at P w r d d' \<and> role_at P w m r e e' \<and>
        control_at P w r f f' \<and> observed_at P w (manifest_for S P paths) m g g')"

lemma validate_scheduler_Inr: "validate_scheduler S j = Inr k \<Longrightarrow> k = j"
  by (auto simp: validate_scheduler_def rbind_Inr_iff)

lemma running_allocation_Inr:
  assumes "running_allocation S P job n owner u = (Inr s, u')" and "only_looked P w u"
  shows "\<exists>v. observed_at P w (scheduler P job) v (aw_t u) (aw_t u') \<and> jb_state v = ''RUNNING'' \<and> n \<in> set (jb_nodes v) \<and>
    JInt (jb_owner v) = owner \<and> dget (obj_of s) ''allocation_started_at'' = JStr (jb_start v)"
proof -
  let ?s = "\<lambda>v. JObj (obj [(''kind'', JStr ''slurm''), (''job_id'', JStr job), (''scheduler_node'', JStr n),
        (''allocation_started_at'', JStr (jb_start v))])"
  from assms(1) obtain v where v: "scheduler P job u = (Inr v, u')" "checks (allocation_guards job n owner v) = Inr ()"
    and r: "(case validate_scheduler S (?s v) of Inr j \<Rightarrow> Inr j
        | Inl e \<Rightarrow> Inl (AccessError ''UNREACHABLE'' ''allocation_identity'')) = Inr s"
    unfolding running_allocation_def by (simp only: run_Inr) blast
  from r have "s = ?s v"
    by (cases "validate_scheduler S (?s v)") (simp_all only: sum.case sum.inject sum.distinct validate_scheduler_Inr)
  moreover have "jb_state v = ''RUNNING'' \<and> n \<in> set (jb_nodes v) \<and> JInt (jb_owner v) = owner"
    using v(2) unfolding checks_Inr by (simp add: allocation_guards_def)
  ultimately show ?thesis using observed_atI [of "scheduler P job", OF v(1) assms(2)] by auto
qed

text \<open>The parts of a readiness check and of a live check that returned.\<close>

lemma ready_alive:
  assumes "daemon_ready S P paths m w = (Inr (), w')"
  shows "\<exists>t. aw_t w \<le> t \<and> t \<le> aw_t w' \<and> alive_at P m t"
proof -
  have looks4: "only_looks P (look P f)" for f :: "nat \<Rightarrow> 'b" by (intro looks)
  from assms obtain tick u1 t u2 a where
    rd: "farm_read P paths ''last_tick.json'' ''PENDING'' w = (Inr tick, u1)"
    and ck: "look P (pb_clock P) u1 = (Inr t, u2)"
    and al: "look P (\<lambda>t. daemon_alive (pb_machine P t) (Some m)) u2 = (Inr a, w')" "a = Inr (Some True)"
    unfolding daemon_ready_def by (auto simp only: run_Inr checks_Inr require_simps) (auto simp: run_Inr)
  have "aw_t w \<le> aw_t u1" "aw_t u1 \<le> aw_t u2" "aw_t u2 \<le> aw_t w'"
    using looks_later [OF looks_farm(1) rd] looks_later [OF looks4 ck] looks_later [OF looks4 al(1)] by auto
  moreover have "alive_at P m (aw_t u2)" using al by (simp add: alive_at_def run_Inr)
  ultimately show ?thesis by (intro exI [of _ "aw_t u2"]) auto
qed

lemma same_control_Inr:
  "same_control P ctl u = (Inr (), u') \<Longrightarrow> only_looked P w u \<Longrightarrow> observed_at P w (control_again P ctl) ctl (aw_t u) (aw_t u')"
  by (auto simp: same_control_def run_Inr observed_at_def)

lemma same_role_Inr:
  assumes "same_role P (obj_of (dget r ''control'')) m r u = (Inr (), u')" and look: "only_looked P w u"
  shows "role_at P w m r (aw_t u) (aw_t u')"
proof (cases "dget r ''endpoint_role''")
  case (JObj role)
  with assms(1) obtain pid where "dget role ''kind'' = JStr ''interactive'' \<longrightarrow> dget role ''pid'' \<noteq> dget m ''pid''"
    "as_int (dget role ''pid'') = Inr pid"
    "observe_role P (obj_of (dget r ''control'')) (text_or_empty (dget role ''kind'')) pid u = (Inr role, u')"
    by (auto simp: same_role_def run_Inr)
  then show ?thesis using JObj by (auto simp: role_at_def intro: observed_atI [OF _ look])
qed (simp_all add: role_at_def)

lemma live_Inr:
  assumes "live S P paths m r u = (Inr (), w')" and look: "only_looked P w u"
  shows "certified S P paths w m r (aw_t u) (aw_t w')"
proof -
  let ?ctl = "obj_of (dget r ''control'')"
  from assms(1) obtain u1 u2 u3 u4 u5 u6 u7 where
    match: "match_manifest S r m = Inr ()" and own: "dget r ''owner_uid'' = JInt (pb_uid P)"
    and loc: "local_build P m u = (Inr (), u1)"
    and rdy: "daemon_ready S P paths m u1 = (Inr (), u2)"
    and all: "same_allocation S P r u2 = (Inr (), u3)"
    and c1: "same_control P ?ctl u3 = (Inr (), u4)"
    and en: "environment P ?ctl u4 = (Inr (markers r), u5)"
    and role: "same_role P ?ctl m r u5 = (Inr (), u6)"
    and c2: "same_control P ?ctl u6 = (Inr (), u7)"
    and mf: "manifest_for S P paths u7 = (Inr m, w')"
    unfolding live_def Let_def by (auto simp: run_Inr)
  have t: "aw_t u \<le> aw_t u1" "aw_t u1 \<le> aw_t u2" "aw_t u2 \<le> aw_t u3"
    using looks_later [OF looks_local loc] looks_later [OF looks_ready rdy] looks_later [OF looks_same(3) all] by auto
  note go = looked_trans [OF only_looksD]
  have l1: "only_looked P w u1" by (rule go [OF looks_local loc look])
  have l2: "only_looked P w u2" by (rule go [OF looks_ready rdy l1])
  have l3: "only_looked P w u3" by (rule go [OF looks_same(3) all l2])
  have l4: "only_looked P w u4" by (rule go [OF looks_same(1) c1 l3])
  have l5: "only_looked P w u5" by (rule go [OF looks_environment en l4])
  have l6: "only_looked P w u6" by (rule go [OF looks_same(2) role l5])
  have l7: "only_looked P w u7" by (rule go [OF looks_same(1) c2 l6])
  obtain a where a: "aw_t u1 \<le> a" "a \<le> aw_t u2" "alive_at P m a" using ready_alive [OF rdy] by blast
  obtain s where s: "running_allocation S P (text_or_empty (sub r ''scheduler'' ''job_id''))
      (text_or_empty (sub r ''scheduler'' ''scheduler_node'')) (dget r ''owner_uid'') u2 = (Inr s, u3)" "s = dget r ''scheduler''"
    using all by (auto simp: same_allocation_def run_Inr)
  from running_allocation_Inr [OF s(1) l2] have run: "running_at P w r (aw_t u2) (aw_t u3)"
    unfolding running_at_def sub_def s(2) by blast
  have con: "control_at P w r (aw_t u3) (aw_t u4)" "control_at P w r (aw_t u6) (aw_t u7)"
    using same_control_Inr [OF c1 l3] same_control_Inr [OF c2 l6] by (simp_all add: control_at_def)
  have mark: "marked_at P w r (aw_t u4) (aw_t u5)" using observed_atI [of "environment P ?ctl", OF en l4] by (simp add: marked_at_def)
  have dep: "observed_at P w (manifest_for S P paths) m (aw_t u7) (aw_t w')" using observed_atI [of "manifest_for S P paths", OF mf l7] .
  have "aw_t u \<le> a" using t(1) a(1) by simp
  then have all: "aw_t u \<le> a \<and> a \<le> aw_t u2 \<and> aw_t u3 \<le> aw_t u3 \<and> aw_t u4 \<le> aw_t u4 \<and> aw_t u5 \<le> aw_t u5 \<and>
      aw_t u6 \<le> aw_t u6 \<and> aw_t u7 \<le> aw_t u7 \<and> aw_t w' \<le> aw_t w' \<and>
      alive_at P m a \<and> running_at P w r (aw_t u2) (aw_t u3) \<and> control_at P w r (aw_t u3) (aw_t u4) \<and>
      marked_at P w r (aw_t u4) (aw_t u5) \<and> role_at P w m r (aw_t u5) (aw_t u6) \<and>
      control_at P w r (aw_t u6) (aw_t u7) \<and> observed_at P w (manifest_for S P paths) m (aw_t u7) (aw_t w')"
    using a run con mark same_role_Inr [OF role l5] dep by simp
  show ?thesis unfolding certified_def by (intro conjI [OF match] conjI [OF own] exI, rule all)
qed

lemma current_Inr:
  assumes "current S P target role w = (Inr (p, r), w')"
  shows "validate_record S r target (text_or_empty (dget p ''execution_epoch'')) = Inr r \<and>
    dget p ''record_sha256'' = JStr (a_digest S r) \<and>
    (role = None \<or> role_kind r = jopt role) \<and> (role_kind r = JStr ''daemon'' \<longrightarrow> role = Some ''daemon'')"
proof -
  from assms obtain r0 where "validate_record S r0 target (text_or_empty (dget p ''execution_epoch'')) = Inr r"
    "JStr (a_digest S r) = dget p ''record_sha256''" "checks (role_guards r role) = Inr ()"
    unfolding current_def by (auto simp only: run_Inr require_simps prod.inject sum.inject)
  then show ?thesis unfolding checks_Inr validate_record_Inr by (auto simp: role_guards_def)
qed

text \<open>C38: A target verified for a project on the current host: its record is the one the registry's
  pointer names, by digest, before and after; it is of the expected digest and role; it matches this
  farm's deployment; and in between the daemon was alive, the allocation was running with the
  recorded start on the recorded node for this user, and the tmux session was the recorded one both
  before and after its markers were read and found to be the record's, its adopted process too. All these
  observations are made in worlds that this run reached from its own start by only looking.\<close>

theorem verification_certifies:
  assumes "verify S P paths target expected role w = (Inr res, w')"
  shows "\<exists>p r m s0 t0 t1. dget res ''state'' = JStr ''VERIFIED'' \<and> dget res ''record'' = JObj r \<and>
     validate_record S r target (text_or_empty (dget p ''execution_epoch'')) = Inr r \<and>
     dget p ''record_sha256'' = JStr (a_digest S r) \<and>
     (expected = None \<or> dget p ''record_sha256'' = jopt expected) \<and>
     (role = None \<or> role_kind r = jopt role) \<and> (role_kind r = JStr ''daemon'' \<longrightarrow> role = Some ''daemon'') \<and>
     dget r ''farm_root'' = JStr (pb_resolve P paths) \<and>
     observed_at P w (current S P target role) (p, r) (aw_t w) s0 \<and> s0 \<le> t0 \<and>
     certified S P paths w m r t0 t1 \<and>
     (\<exists>t. observed_at P w (current S P target role) (p, r) t1 t \<and> t \<le> aw_t w')"
proof -
  from assms obtain p r u1 m u2 u3 u4 where
    c1: "current S P target role w = (Inr (p, r), u1)"
    and ex: "(case expected of None \<Rightarrow> ret () | Some e \<Rightarrow> seq (pure (need_id sha256_rx (JStr e)))
               (pure (require (dget p ''record_sha256'' = JStr e) ''STALE_REGISTRY'' ''expected_record''))) u1 = (Inr (), u1)"
    and root: "JStr (pb_resolve P paths) = dget r ''farm_root''"
    and mf: "manifest_for S P paths u1 = (Inr m, u2)"
    and lv: "live S P paths m r u2 = (Inr (), u3)"
    and c2: "current S P target role u3 = (Inr (p, r), u4)"
    and res: "verified S P r u4 = (Inr res, w')"
    unfolding verify_def by (auto simp: run_Inr split: option.splits)
  have t: "aw_t u1 \<le> aw_t u2" "aw_t u3 \<le> aw_t u4" "aw_t u4 \<le> aw_t w'"
    using looks_later [OF looks_manifest mf] looks_later [OF looks_current c2] looks_later [OF looks_verified res] by auto
  have l1: "only_looked P w u1" by (rule only_looksD [OF looks_current c1])
  have l2: "only_looked P w u2" by (rule looked_trans [OF only_looksD [OF looks_manifest mf] l1])
  have l3: "only_looked P w u3" by (rule looked_trans [OF only_looksD [OF looks_live lv] l2])
  have cert: "certified S P paths w m r (aw_t u2) (aw_t u3)" by (rule live_Inr [OF lv l2])
  have e: "expected = None \<or> dget p ''record_sha256'' = jopt expected"
    using ex by (cases expected) (auto simp: run_Inr)
  have o1: "observed_at P w (current S P target role) (p, r) (aw_t w) (aw_t u1)"
    and o2: "observed_at P w (current S P target role) (p, r) (aw_t u3) (aw_t u4)"
    using observed_atI [of "current S P target role", OF c1 looked_refl] observed_atI [of "current S P target role", OF c2 l3] .
  have st: "dget res ''state'' = JStr ''VERIFIED''" "dget res ''record'' = JObj r"
    using res by (auto simp: verified_def answer_doc_def run_Inr)
  note cur = current_Inr [OF c1]
  show ?thesis
    by (intro exI conjI, rule st(1), rule st(2), rule cur [THEN conjunct1], rule cur [THEN conjunct2, THEN conjunct1],
        rule e, rule cur [THEN conjunct2, THEN conjunct2, THEN conjunct1],
        rule cur [THEN conjunct2, THEN conjunct2, THEN conjunct2], rule root [symmetric], rule o1, rule t(1),
        rule cert, rule o2, rule t(3))
qed

subsection \<open>Publication replaces only the expected pointer\<close>

definition pointer_sha :: "rfiles \<Rightarrow> string list \<Rightarrow> json" where
  "pointer_sha fs k = (case doc_at fs k of None \<Rightarrow> JNull | Some p \<Rightarrow> dget p ''record_sha256'')"

definition expected_sha :: "request \<Rightarrow> json" where
  "expected_sha q = (if rq_current q = Some ''none'' then JNull else jopt (rq_current q))"

lemma observe_role_kind: "observe_role P ctl kind pid w = (Inr d, w') \<Longrightarrow> dget d ''kind'' = JStr kind"
  by (auto simp: observe_role_def Let_def run_Inr)

lemma new_record_Inr:
  assumes "requested_record P q m ctl r w = (Inr r', w')" and "checks (request_guards q) = Inr ()"
    and "\<not> is_generation r" and "dget r ''endpoint_role'' = JNull"
  shows "role_of r' = rq_role q" and "is_generation r' \<longleftrightarrow> rq_generation q \<noteq> None"
    and "is_generation r' \<Longrightarrow> dget r' ''previous_record_sha256'' = expected_sha q"
proof -
  have g: "(rq_role q = None) = (rq_pid q = None)" "rq_role q = None \<or> rq_generation q \<noteq> None"
    using assms(2) unfolding checks_Inr request_guards_def by auto
  show "role_of r' = rq_role q" "is_generation r' \<longleftrightarrow> rq_generation q \<noteq> None"
    "is_generation r' \<Longrightarrow> dget r' ''previous_record_sha256'' = expected_sha q"
    using assms(1,3,4) g
    by (cases "rq_generation q"; cases "rq_role q"; cases "rq_pid q";
        auto simp: requested_record_def run_Inr role_of_def role_kind_def sub_def is_generation_def expected_sha_def
          dest!: observe_role_kind)+
qed

lemma against_parts:
  assumes "against_existing S P d target q r w = (Inr r', w')"
  shows "r' = r \<or> (\<exists>v. r' = fmupd ''published_at'' v r)"
proof -
  let ?tail = "\<lambda>n :: rnode option. if n = None then ret r
      else
        bnd (read_json P (record_path d r) ''UNPUBLISHED'') (\<lambda>x.
        bnd (pure (validate_record S x target (text_or_empty (dget r ''execution_epoch'')))) (\<lambda>prior.
        let r' = fmupd ''published_at'' (dget prior ''published_at'') r in
        seq (pure (require (r' = prior) ''CONFLICT''
               (if rq_generation q = None then ''epoch_publication'' else ''generation_publication'')))
        (ret r')))"
  from assms obtain n u where "?tail n u = (Inr r', w')"
    unfolding against_existing_def by (simp only: bnd_run_Inr seq_run_Inr) blast
  then show ?thesis
  proof (cases "n = None")
    case False
    with \<open>?tail n u = (Inr r', w')\<close> obtain prior where "r' = fmupd ''published_at'' (dget prior ''published_at'') r"
      unfolding Let_def by (auto simp: run_Inr)
    then show ?thesis by blast
  qed (simp add: run_Inr)
qed

lemma published_parts [simp]:
  "role_of (fmupd ''published_at'' v r) = role_of r"
  "is_generation (fmupd ''published_at'' v r) = is_generation r"
  "dget (fmupd ''published_at'' v r) ''previous_record_sha256'' = dget r ''previous_record_sha256''"
  by (simp_all add: role_of_def role_kind_def sub_def is_generation_def)

lemma current_pointer_doc:
  assumes "current S P target role w = (Inr (p, r), w')" and "pointer_path (dir_of target) role = Inr k"
    and "aw_lock w = Some (dir_of target)"
  shows "doc_at (aw_files w) k = Some p"
proof -
  from assms(1) obtain u c d where c: "configuration P False w = (Inr c, u)"
    and d: "\<exists>v. target_dir P target False u = (Inr d, v) \<and> (\<exists>pp. pointer_path d role = Inr pp \<and>
      read_node (fmlookup (aw_files v) pp) ''UNPUBLISHED'' = Inr p)"
    unfolding current_def by (simp only: run_Inr prod.inject sum.inject) fastforce
  then obtain v pp where t: "target_dir P target False u = (Inr d, v)" and pp: "pointer_path d role = Inr pp"
    and rp: "read_node (fmlookup (aw_files v) pp) ''UNPUBLISHED'' = Inr p" by blast
  have d': "d = dir_of target" using t by (rule target_dir_Inr)
  then have rd: "read_node (fmlookup (aw_files v) k) ''UNPUBLISHED'' = Inr p" using pp rp assms(2) by simp
  have l: "aw_lock u = Some (dir_of target)"
    using looked_frame(2) [OF only_looksD [OF looks_configuration c]] assms(3) by simp
  have "grown (dir_of target) (aw_files w) (aw_files u)" "grown (dir_of target) (aw_files u) (aw_files v)"
    using looked_grown [OF only_looksD [OF looks_configuration c] assms(3)]
      looked_grown [OF only_looksD [OF looks_target_dir t] l] .
  then have "grown (dir_of target) (aw_files w) (aw_files v)" by (rule grown_trans)
  from doc_at_pointer [OF this pointer_path_is_pointer [OF assms(2)]] read_node_stored [OF rd] show ?thesis by simp
qed

lemma current_pointer_Inr:
  assumes run: "current_pointer S P (dir_of target) target q w = (Inr ptr, w')" and l: "aw_lock w = Some (dir_of target)"
  shows "\<exists>k. pointer_path (dir_of target) (rq_role q) = Inr k \<and>
    pointer_sha (aw_files w) k = (case ptr of None \<Rightarrow> JNull | Some p \<Rightarrow> dget p ''record_sha256'')"
proof -
  let ?role = "if rq_role q = Some ''daemon'' then Some ''daemon'' else None"
  from run obtain k n where k: "pointer_path (dir_of target) (rq_role q) = Inr k" and n: "n = fmlookup (aw_files w) k"
    and tail: "(if n = None then ret None
     else
       bnd (current S P target ?role) (\<lambda>(p, cr).
       seq (pure (require (\<not> truthy (dget cr ''endpoint_role'') \<or> rq_role q \<noteq> None) ''CONFLICT'' ''role_required''))
       (ret (Some p)))) (pass_instant P w) = (Inr ptr, w')"
    unfolding current_pointer_def by (simp only: bnd_run_Inr basic_run_Inr read_run) blast
  show ?thesis
  proof (cases "n = None")
    case True
    then show ?thesis using k n tail by (auto simp: pointer_sha_def doc_at_def run_Inr)
  next
    case False
    then obtain p cr u where p: "current S P target ?role (pass_instant P w) = (Inr (p, cr), u)" "ptr = Some p"
      using tail by (auto simp: run_Inr)
    have k2: "pointer_path (dir_of target) ?role = Inr k"
      using k by (auto simp: pointer_path_def rbind_Inr_iff split: if_splits)
    have "doc_at (aw_files (pass_instant P w)) k = Some p"
      by (rule current_pointer_doc [OF p(1) k2]) (simp add: l)
    then have "doc_at (aw_files w) k = Some p"
      using doc_at_pointer [OF pass_grown [OF l] pointer_path_is_pointer [OF k]] by simp
    then show ?thesis using k p(2) by (auto simp: pointer_sha_def)
  qed
qed

lemma commit_pointer_Inr:
  assumes "commit_pointer S P d r w = (Inr x, w')" and l: "aw_lock w = Some d"
  shows "\<exists>k. pointer_path d (role_of r) = Inr k \<and> doc_at (aw_files w') k = Some (pointer_of S r) \<and> aw_lock w' = Some d \<and>
    (\<forall>p x. under d p \<and> p \<noteq> k \<and> fmlookup (aw_files w) p = Some x \<longrightarrow> fmlookup (aw_files w') p = Some x)"
proof -
  from assms(1) obtain k u where k: "pointer_path d (role_of r) = Inr k"
    and e: "(if is_generation r then expect_current S P k r else ret ()) w = (Inr (), u)"
    and wr: "atomic_write_json S P k (pointer_of S r) u = (Inr (), w')"
    unfolding commit_pointer_def by (simp only: bnd_run_Inr seq_run_Inr basic_run_Inr) blast
  have look: "only_looks P (if is_generation r then expect_current S P k r else ret ())" by (intro looks)
  have lu: "aw_lock u = Some d" and gu: "grown d (aw_files w) (aw_files u)"
    using only_addsD [OF looks_adds [OF look] e l] by auto
  define v where "v = u\<lparr>aw_files := fmupd k (RFile (pb_uid P) 384 (a_size S (pointer_of S r)) (Some (JObj (pointer_of S r))))
      (with_parents P k (aw_files u))\<rparr>"
  have w': "w' = pass_instant P v"
    using wr by (auto simp: atomic_write_json_def disk_write_def run_Inr v_def split: if_splits)
  have same: "fmlookup (aw_files w') p = fmlookup (aw_files v) p" if "under d p" for p
    using that lu by (simp add: w' pass_instant_def others_outside v_def)
  have kd: "under d k" using pointer_path_is_pointer [OF k] by (rule pointer_inside)
  have "doc_at (aw_files w') k = Some (pointer_of S r)"
    using same [OF kd] by (simp add: doc_at_def v_def)
  moreover have "fmlookup (aw_files w') p = Some x" if "under d p" "p \<noteq> k" "fmlookup (aw_files w) p = Some x" for p x
    using same [OF that(1)] that gu by (simp add: v_def with_parents_lookup grown_def)
  ultimately show ?thesis using k lu by (auto simp: w' v_def)
qed

text \<open>What a publication under the lock leaves: the pointer names the record, nothing else of the target was
  replaced, and the record was certified before, by a check that began in a world \<open>v\<close> where nothing of the
  target had been replaced yet.\<close>

definition pointer_moved :: "site \<Rightarrow> outside \<Rightarrow> string \<Rightarrow> string \<Rightarrow> string option \<Rightarrow> dict \<Rightarrow> rfiles \<Rightarrow> aworld \<Rightarrow> bool" where
  "pointer_moved S P paths target role r fs w' \<longleftrightarrow> (\<exists>k m v t1. pointer_path (dir_of target) role = Inr k \<and>
     pointer_sha (aw_files w') k = JStr (a_digest S r) \<and>
     (\<forall>p x. under (dir_of target) p \<and> p \<noteq> k \<and> fmlookup fs p = Some x \<longrightarrow> fmlookup (aw_files w') p = Some x) \<and>
     grown (dir_of target) fs (aw_files v) \<and> certified S P paths v m r (aw_t v) t1 \<and> t1 \<le> aw_t w')"

lemma pointer_moved_grown:
  assumes "pointer_moved S P paths target role r fs w'" and g: "grown (dir_of target) fs0 fs"
  shows "pointer_moved S P paths target role r fs0 w'"
proof -
  from assms(1) obtain k m v t1 where "pointer_path (dir_of target) role = Inr k"
    "pointer_sha (aw_files w') k = JStr (a_digest S r)"
    "\<forall>p x. under (dir_of target) p \<and> p \<noteq> k \<and> fmlookup fs p = Some x \<longrightarrow> fmlookup (aw_files w') p = Some x"
    "certified S P paths v m r (aw_t v) t1" "t1 \<le> aw_t w'" and v: "grown (dir_of target) fs (aw_files v)"
    unfolding pointer_moved_def by blast
  moreover have "grown (dir_of target) fs0 (aw_files v)" using g v by (rule grown_trans)
  moreover have "fmlookup fs p = Some x" if "under (dir_of target) p" "fmlookup fs0 p = Some x" for p x
    using g that by (simp add: grown_def)
  ultimately show ?thesis unfolding pointer_moved_def by blast
qed

lemma verified_Inr:
  "verified S P r w = (Inr res, w') \<Longrightarrow> dget res ''record'' = JObj r \<and> dget res ''record_sha256'' = JStr (a_digest S r) \<and>
     w' = pass_instant P w"
  by (auto simp: verified_def answer_doc_def run_Inr)

lemma install_Inr:
  assumes run: "commit_record S P paths (dir_of target) m r w = (Inr res, w')" and l: "aw_lock w = Some (dir_of target)"
    and v: "validate_record S r target epoch = Inr r"
  shows "\<exists>r'. dget res ''record'' = JObj r' \<and> validate_record S r' target epoch = Inr r' \<and>
    (r' = r \<or> (\<exists>x. r' = fmupd ''published_at'' x r)) \<and> pointer_moved S P paths target (role_of r) r' (aw_files w) w'"
proof -
  let ?d = "dir_of target"
  from run obtain u1 u2 r' u3 u4 u5 x where
    b: "bind P r w = (Inr (), u1)" and l1: "live S P paths m r u1 = (Inr (), u2)"
    and p: "prepare_record S P ?d r u2 = (Inr r', u3)" and l2: "live S P paths m r' u3 = (Inr (), u4)"
    and c: "commit_pointer S P ?d r' u4 = (Inr x, u5)" and f: "verified S P r' u5 = (Inr res, w')"
    unfolding commit_record_def by (simp only: bnd_run_Inr seq_run_Inr) blast
  note live_adds = looks_adds [OF looks_live]
  have a1: "aw_lock u1 = Some ?d" "grown ?d (aw_files w) (aw_files u1)" using only_addsD [OF adds_bind b l] by auto
  have a2: "aw_lock u2 = Some ?d" "grown ?d (aw_files u1) (aw_files u2)" using only_addsD [OF live_adds l1 a1(1)] by auto
  have a3: "aw_lock u3 = Some ?d" "grown ?d (aw_files u2) (aw_files u3)" using only_addsD [OF adds_prepare p a2(1)] by auto
  have a4: "aw_lock u4 = Some ?d" "grown ?d (aw_files u3) (aw_files u4)" using only_addsD [OF live_adds l2 a3(1)] by auto
  have g3: "grown ?d (aw_files w) (aw_files u3)" by (rule grown_trans [OF grown_trans [OF a1(2) a2(2)] a3(2)])
  then have g: "grown ?d (aw_files w) (aw_files u4)" using a4(2) by (rule grown_trans)
  note pr = prepare_Inr [OF p a2(1) v]
  then have parts: "r' = r \<or> (\<exists>x. r' = fmupd ''published_at'' x r)" by blast
  then have role: "role_of r' = role_of r" by auto
  from commit_pointer_Inr [OF c a4(1)] obtain k where k: "pointer_path ?d (role_of r') = Inr k"
    "doc_at (aw_files u5) k = Some (pointer_of S r')" "aw_lock u5 = Some ?d"
    "\<forall>p x. under ?d p \<and> p \<noteq> k \<and> fmlookup (aw_files u4) p = Some x \<longrightarrow> fmlookup (aw_files u5) p = Some x" by blast
  have w': "w' = pass_instant P u5" using verified_Inr [OF f] by simp
  have g5: "grown ?d (aw_files u5) (aw_files w')" unfolding w' by (rule pass_grown [OF k(3)])
  have sha: "pointer_sha (aw_files w') k = JStr (a_digest S r')"
    using doc_at_pointer [OF g5 pointer_path_is_pointer [OF k(1)]] k(2) by (simp add: pointer_sha_def)
  have keep: "\<forall>p x. under ?d p \<and> p \<noteq> k \<and> fmlookup (aw_files w) p = Some x \<longrightarrow> fmlookup (aw_files w') p = Some x"
    using k(4) g g5 by (auto simp: grown_def)
  have t: "aw_t u4 \<le> aw_t w'"
  proof -
    have "aw_t u4 \<le> aw_t u5"
      using c by (auto simp: commit_pointer_def atomic_write_json_def disk_write_def run_Inr split: if_splits
          dest!: looks_later [OF looks_expect])
    then show ?thesis by (simp add: w')
  qed
  have "pointer_moved S P paths target (role_of r) r' (aw_files w) w'"
    unfolding pointer_moved_def
    by (intro exI conjI, rule k(1) [unfolded role], rule sha, rule keep, rule g3, rule live_Inr [OF l2 looked_refl], rule t)
  with verified_Inr [OF f] pr parts show ?thesis by blast
qed

lemma adds_new_record: "only_adds d (requested_record P q m ctl r)"
proof -
  have "only_looks P (requested_record P q m ctl r)"
    unfolding requested_record_def by (auto intro!: looks split: option.split)
  then show ?thesis by (rule looks_adds)
qed

lemma base_record_plain:
  "\<not> is_generation (base_record P paths target m sched ctl owner ts)"
  "dget (base_record P paths target m sched ctl owner ts) ''endpoint_role'' = JNull"
  by (simp_all add: base_record_def is_generation_def)

text \<open>C39: A publication that succeeds under the target's lock replaces one file only, the pointer of its role:
  it then names, by digest, the returned record, which was certified in the meantime, while the pointer was still the old one. An endpoint generation
  moves it only from the predecessor the caller expects, or finds it there already.\<close>

theorem publication_compares_and_sets:
  assumes run: "publish_locked S P paths target q cfg (dir_of target) w = (Inr res, w')"
    and l: "aw_lock w = Some (dir_of target)" and q: "checks (request_guards q) = Inr ()"
  shows "\<exists>r epoch. dget res ''record'' = JObj r \<and> validate_record S r target epoch = Inr r \<and>
    pointer_moved S P paths target (rq_role q) r (aw_files w) w' \<and>
    (rq_generation q = None \<or> (\<exists>k. pointer_path (dir_of target) (rq_role q) = Inr k \<and>
       (pointer_sha (aw_files w) k = expected_sha q \<or> pointer_sha (aw_files w) k = JStr (a_digest S r))))"
proof -
  let ?d = "dir_of target"
  from run obtain m u1 u2 sched u3 a u4 ctl u5 ts u6 r0 u7 r1 r u8 ptr u9 where
    s1: "manifest_for S P paths w = (Inr m, u1)" and s2: "local_build P m u1 = (Inr (), u2)"
    and s3: "daemon_ready S P paths m u2 = (Inr (), u3)"
    and s4: "running_allocation S P (rq_job q) (text_or_empty (dget (obj_of sched) ''scheduler_node'')) (dget cfg ''owner_uid'') u3 = (Inr a, u4)"
    and s5: "control P (case rq_socket q of Some s \<Rightarrow> s | None \<Rightarrow> default_socket P) (rq_session q) (rq_window q) u4 = (Inr ctl, u5)"
    and s6: "look P (\<lambda>t. a_iso S (pb_clock P t)) u5 = (Inr ts, u6)"
    and s7: "requested_record P q m ctl (base_record P paths target m sched ctl (dget cfg ''owner_uid'') ts) u6 = (Inr r0, u7)"
    and val: "validate_record S r0 target (text_or_empty (dget r0 ''execution_epoch'')) = Inr r1"
    and s8: "against_existing S P ?d target q r1 u7 = (Inr r, u8)"
    and s9: "current_pointer S P ?d target q u8 = (Inr ptr, u9)"
    and fin: "publish_record S P paths ?d m q ptr r u9 = (Inr res, w')"
    unfolding publish_locked_def Let_def by (simp only: bnd_run_Inr seq_run_Inr basic_run_Inr) blast
  have look6: "only_looks P (look P (\<lambda>t. a_iso S (pb_clock P t)))" by (intro looks)
  note step = only_addsD [OF looks_adds]
  from step [OF looks_manifest s1 l] have a1: "aw_lock u1 = Some ?d" "grown ?d (aw_files w) (aw_files u1)" by auto
  from step [OF looks_local s2 a1(1)] have a2: "aw_lock u2 = Some ?d" "grown ?d (aw_files u1) (aw_files u2)" by auto
  from step [OF looks_ready s3 a2(1)] have a3: "aw_lock u3 = Some ?d" "grown ?d (aw_files u2) (aw_files u3)" by auto
  from step [OF looks_allocation s4 a3(1)] have a4: "aw_lock u4 = Some ?d" "grown ?d (aw_files u3) (aw_files u4)" by auto
  from step [OF looks_control s5 a4(1)] have a5: "aw_lock u5 = Some ?d" "grown ?d (aw_files u4) (aw_files u5)" by auto
  from step [OF look6 s6 a5(1)] have a6: "aw_lock u6 = Some ?d" "grown ?d (aw_files u5) (aw_files u6)" by auto
  from only_addsD [OF adds_new_record s7 a6(1)] have a7: "aw_lock u7 = Some ?d" "grown ?d (aw_files u6) (aw_files u7)" by auto
  from step [OF looks_against s8 a7(1)] have a8: "aw_lock u8 = Some ?d" "grown ?d (aw_files u7) (aw_files u8)" by auto
  from step [OF looks_current_pointer s9 a8(1)] have a9: "aw_lock u9 = Some ?d" "grown ?d (aw_files u8) (aw_files u9)" by auto
  have g8: "grown ?d (aw_files w) (aw_files u8)"
    by (meson grown_trans a1(2) a2(2) a3(2) a4(2) a5(2) a6(2) a7(2) a8(2))
  then have g9: "grown ?d (aw_files w) (aw_files u9)" using a9(2) by (rule grown_trans)
  define epoch where "epoch = text_or_empty (dget r0 ''execution_epoch'')"
  have v1: "r1 = r0" "validate_record S r1 target epoch = Inr r1" using val by (simp_all add: validate_record_Inr epoch_def)
  have v: "validate_record S r target epoch = Inr r" by (rule against_Inr [OF s8 v1(2)])
  note nr = new_record_Inr [OF s7 q base_record_plain]
  have parts: "role_of r = rq_role q" "is_generation r \<longleftrightarrow> rq_generation q \<noteq> None"
    "is_generation r \<Longrightarrow> dget r ''previous_record_sha256'' = expected_sha q"
    using against_parts [OF s8] nr v1(1) by auto
  obtain k where k: "pointer_path ?d (rq_role q) = Inr k"
    and obs: "pointer_sha (aw_files u8) k = (case ptr of None \<Rightarrow> JNull | Some p \<Rightarrow> dget p ''record_sha256'')"
    using current_pointer_Inr [OF s9 a8(1)] by blast
  have kp: "is_pointer ?d k" by (rule pointer_path_is_pointer [OF k])
  have obs0: "pointer_sha (aw_files w) k = (case ptr of None \<Rightarrow> JNull | Some p \<Rightarrow> dget p ''record_sha256'')"
    using obs doc_at_pointer [OF g8 kp] by (simp add: pointer_sha_def)
  consider (retry) "rq_generation q \<noteq> None" "pointer_sha (aw_files w) k = JStr (a_digest S r)"
      "seq (live S P paths m r) (verified S P r) u9 = (Inr res, w')"
    | (commit_record) "commit_record S P paths ?d m r u9 = (Inr res, w')"
      "rq_generation q = None \<or> pointer_sha (aw_files w) k = expected_sha q"
    using fin parts(2,3) unfolding publish_record_def Let_def obs0 [symmetric]
    by (auto simp: run_Inr split: if_splits)
  then show ?thesis
  proof cases
    case retry
    then obtain v where lv: "live S P paths m r u9 = (Inr (), v)" and f: "verified S P r v = (Inr res, w')"
      by (auto simp only: seq_run_Inr)
    have av: "aw_lock v = Some ?d" "grown ?d (aw_files u9) (aw_files v)" using step [OF looks_live lv a9(1)] by auto
    have w': "w' = pass_instant P v" using verified_Inr [OF f] by simp
    have gw: "grown ?d (aw_files w) (aw_files w')"
      unfolding w' by (rule grown_trans [OF grown_trans [OF g9 av(2)] pass_grown [OF av(1)]])
    have "pointer_sha (aw_files w') k = JStr (a_digest S r)"
      using retry(2) doc_at_pointer [OF gw kp] by (simp add: pointer_sha_def)
    moreover have "\<forall>p x. under ?d p \<and> p \<noteq> k \<and> fmlookup (aw_files w) p = Some x \<longrightarrow> fmlookup (aw_files w') p = Some x"
      using gw by (auto simp: grown_def)
    ultimately have "pointer_moved S P paths target (rq_role q) r (aw_files w) w'"
      unfolding pointer_moved_def using k live_Inr [OF lv looked_refl] g9 w'
      by (intro exI [of _ k] exI [of _ m] exI [of _ u9] exI conjI) auto
    then show ?thesis using verified_Inr [OF f] v k retry(2) by blast
  next
    case commit_record
    from install_Inr [OF commit_record(1) a9(1) v] obtain r' where r': "dget res ''record'' = JObj r'"
      "validate_record S r' target epoch = Inr r'" "pointer_moved S P paths target (role_of r) r' (aw_files u9) w'" by blast
    have "pointer_moved S P paths target (rq_role q) r' (aw_files w) w'"
      using pointer_moved_grown [OF r'(3) g9] by (simp add: parts(1))
    then show ?thesis using r'(1,2) k commit_record(2) by blast
  qed
qed

subsection \<open>The attachment command\<close>

text \<open>The characters of identifiers, of tmux's own and of target names. None of them ends a format, a quoted
  string or a command.\<close>

definition inert :: "char \<Rightarrow> bool" where
  "inert c \<longleftrightarrow> id_char c \<or> c = CHR ''$'' \<or> c = CHR ''@'' \<or> c = CHR '':'' \<or> c = CHR ''/''"

lemma id_char_inert: "id_char c \<Longrightarrow> inert c" "is_digit c \<Longrightarrow> inert c" "hex_char c \<Longrightarrow> inert c"
  by (auto simp: inert_def id_char_def alnum_def hex_char_def in_range_def less_eq_char_def is_digit_def)

lemma fullmatch_id:
  "fullmatch epoch_rx s \<Longrightarrow> list_all inert s" "fullmatch name_rx s \<Longrightarrow> list_all inert s"
  "fullmatch sha256_rx s \<Longrightarrow> list_all inert s"
proof -
  show "fullmatch epoch_rx s \<Longrightarrow> list_all inert s"
    unfolding epoch_rx_def fullmatch_Cls_Seq fullmatch_rep_Cls
    by (auto simp: list_all_iff id_char_inert) (auto simp: inert_def id_char_def)
  show "fullmatch name_rx s \<Longrightarrow> list_all inert s"
    unfolding name_rx_def fullmatch_Cls_Seq fullmatch_rep_Cls
    by (auto simp: list_all_iff inert_def id_char_def)
  show "fullmatch sha256_rx s \<Longrightarrow> list_all inert s"
    unfolding sha256_rx_def fullmatch_rep_Cls by (simp add: list_all_iff id_char_inert)
qed

lemma lpow_chars: "u \<in> lpow A n \<Longrightarrow> (\<And>v c. v \<in> A \<Longrightarrow> c \<in> set v \<Longrightarrow> p c) \<Longrightarrow> list_all p u"
  by (induction n arbitrary: u) (fastforce simp: conc_def list_all_iff)+

lemma fullmatch_native: "fullmatch (native_rx x) s \<Longrightarrow> inert x \<Longrightarrow> list_all inert s"
proof -
  assume m: "fullmatch (native_rx x) s" and x: "inert x"
  then obtain t where s: "s = x # t" and "fullmatch (Plus (Cls is_digit)) t"
    unfolding native_rx_def fullmatch_Cls_Seq by auto
  then obtain c u where t: "t = c # u" "is_digit c" "fullmatch (Star (Cls is_digit)) u"
    unfolding Plus_def fullmatch_Cls_Seq by auto
  then have "\<forall>c\<in>set u. is_digit c" by (simp only: fullmatch_star_Cls)
  with s t(1,2) x show ?thesis by (auto simp: list_all_iff id_char_inert)
qed

lemma split_on_chars: "x \<in> set s \<Longrightarrow> x = c \<or> (\<exists>p\<in>set (split_on c s). x \<in> set p)"
proof (induction s)
  case (Cons y s)
  have "split_on c s \<noteq> []" by (induction s) (auto simp: split_on_def)
  then show ?case using Cons by (cases "split_on c s") (auto simp: split_on_def)
qed simp

lemma target_inert: "target_name t = Inr () \<Longrightarrow> list_all inert t"
proof -
  assume "target_name t = Inr ()"
  then have "\<forall>p\<in>set (split_on (CHR ''/'') t). fullmatch name_rx p"
    unfolding target_name_def Let_def by (simp only: rbind_Inr_iff checks_Inr) auto
  then show ?thesis using split_on_chars [of _ t "CHR ''/''"] fullmatch_id(2)
    by (fastforce simp: list_all_iff inert_def)
qed

lemma digits_inert: "list_all inert (nat_str n)"
  using nat_str_digits(1) [of n] by (auto simp: list_all_iff id_char_inert)

text \<open>The command a verified record is attached with carries only inert text: the values compared in the
  tmux condition and the session it attaches to consist of identifier characters and \<open>$ @ : /\<close>, so
  nothing in a record can end the comparison, the quotes or the command.\<close>

theorem attachment_is_inert:
  assumes v: "validate_record S r target epoch = Inr r" and t: "target_name target = Inr ()"
    and hex: "\<And>x. list_all hex_char (a_sha S x)"
  shows "list_all (\<lambda>(k, x). list_all inert x) (expected_values r) \<and> list_all inert (attach_target r)"
proof -
  note c = checked_record [OF v]
  have ctl: "list_all fst (control_guards (dget r ''control''))" by (rule c(14))
  let ?ctl = "obj_of (dget r ''control'')"
  have sid: "is_id (native_rx CHR ''$'') (dget ?ctl ''session_id'')"
    using ctl by (simp add: control_guards_def Let_def del: is_id.simps)
  then have session: "list_all inert (text_or_empty (dget ?ctl ''session_id''))"
    by (auto simp: is_id_iff inert_def intro!: fullmatch_native)
  have window: "list_all inert (case dget ?ctl ''window_id'' of JStr w \<Rightarrow> '':'' @ w | _ \<Rightarrow> [])"
  proof (cases "dget ?ctl ''default_window'' = JNull")
    case True
    then show ?thesis using ctl by (simp add: control_guards_def Let_def del: is_id.simps)
  next
    case False
    then have "is_id (native_rx CHR ''@'') (dget ?ctl ''window_id'')"
      using ctl by (simp add: control_guards_def Let_def del: is_id.simps)
    then obtain u where "dget ?ctl ''window_id'' = JStr u" "fullmatch (native_rx CHR ''@'') u" by (auto simp: is_id_iff)
    moreover from this(2) have "list_all inert u" by (rule fullmatch_native) (simp add: inert_def)
    ultimately show ?thesis by (simp add: inert_def)
  qed
  have "int_at_least 1 (dget ?ctl ''server_pid'')"
    using ctl by (simp add: control_guards_def Let_def del: is_id.simps)
  then have pid: "list_all inert (py_str (dget ?ctl ''server_pid''))"
    by (cases "dget ?ctl ''server_pid''") (auto simp: int_str_def digits_inert)
  have id: "list_all inert (''farm-'' @ a_sha S root)" for root
    using hex [of root] by (auto simp: list_all_iff id_char_inert) (auto simp: inert_def id_char_def alnum_def in_range_def less_eq_char_def)
  have fid: "list_all inert (text_or_empty (dget r ''farm_id''))" using c(5) id by (auto simp: farm_id_def)
  have ep: "list_all inert (text_or_empty (dget r ''execution_epoch''))" using c(3) fullmatch_id(1) [OF c(4)] by simp
  have sha: "list_all inert (text_or_empty (dget r ''source_sha256''))"
    using c(6) by (auto simp: is_id_iff intro: fullmatch_id(3))
  have tg: "list_all inert (text_or_empty (dget r ''target''))" using c(2) target_inert [OF t] by simp
  have kinds: "list_all inert ''interactive''" "list_all inert ''daemon''"
    by (simp_all add: inert_def id_char_def alnum_def in_range_def less_eq_char_def)
  have kind: "list_all inert (text_or_empty (role_kind r))" if "dget r ''endpoint_role'' \<noteq> JNull"
  proof -
    have "is_generation r" using c(9) that by blast
    then have "role_ok (dget r ''endpoint_role'')" using c(8) by blast
    with that kinds show ?thesis by (auto simp: role_ok_def Let_def role_kind_def sub_def)
  qed
  have "list_all (\<lambda>(k, x). list_all inert x) (expected_values r)"
    using session pid fid ep sha tg kind by (simp add: expected_values_def Let_def)
  moreover have "list_all inert (attach_target r)" using session window by (simp add: attach_target_def Let_def)
  ultimately show ?thesis ..
qed

end
