(* ===== verification/Access_Witnesses.thy ===== *)
theory Access_Witnesses
  imports Certified
begin

text \<open>
  The access properties at a concrete farm: one host, one running allocation, one tmux session that
  already carries the markers, and a registry that has only been initialized.
\<close>

subsection \<open>The site and the world\<close>

definition hexa :: string where
  "hexa = replicate 64 (CHR ''a'')"

definition stamp_text :: string where
  "stamp_text = ''2026-01-01T00:00:00''"

definition site0 :: site where
  "site0 = \<lparr>a_sha = (\<lambda>_. hexa), a_digest = (\<lambda>_. hexa), a_when = (\<lambda>_. Some (0, True)), a_iso = (\<lambda>_. stamp_text),
     a_size = (\<lambda>_. 1000)\<rparr>"

definition attestation0 :: dict where
  "attestation0 = obj [(''kind'', JStr ''slurm''), (''job_id'', JStr ''77''), (''scheduler_node'', JStr ''n1''),
     (''allocation_started_at'', JStr stamp_text), (''execution_epoch'', JStr ''e1''), (''runtime_host'', JStr ''h1''),
     (''owner_uid'', JInt 5)]"

definition manifest0 :: dict where
  "manifest0 = obj [(''farm_root'', JStr ''/p/.farm''), (''farm_id'', JStr (''farm-'' @ hexa)), (''execution_epoch'', JStr ''e1''),
     (''source_sha256'', JStr hexa), (''protocol_version'', JInt 4), (''host'', JStr ''h1''), (''loop'', JBool True),
     (''pid'', JInt 50), (''pid_starttime'', JInt 7), (''boot_id'', JStr ''b''), (''pid_namespace'', JStr ''n''),
     (''started_at'', JStr stamp_text), (''interval'', JInt 30), (''scheduler_attestation'', JObj attestation0)]"

definition tick0 :: dict where
  "tick0 = obj [(''deployment'', JObj (deployment_stamp manifest0)), (''ts'', JStr stamp_text)]"

definition control0 :: dict where
  "control0 = obj [(''socket'', JStr ''/s''), (''socket_device'', JInt 1), (''socket_inode'', JInt 2), (''session'', JStr ''main''),
     (''session_id'', JStr ''$1''), (''default_window'', JNull), (''window_id'', JNull), (''server_pid'', JInt 90),
     (''server_starttime'', JInt 7), (''boot_id'', JStr ''b'')]"

definition scheduler0 :: dict where
  "scheduler0 = obj [(''kind'', JStr ''slurm''), (''job_id'', JStr ''77''), (''scheduler_node'', JStr ''n1''),
     (''allocation_started_at'', JStr stamp_text)]"

definition record0 :: dict where
  "record0 = obj [(''schema_version'', JInt 1), (''target'', JStr ''t''), (''farm_id'', JStr (''farm-'' @ hexa)),
     (''farm_root'', JStr ''/p/.farm''), (''execution_epoch'', JStr ''e1''), (''runtime_host'', JStr ''h1''),
     (''protocol_version'', JInt 4), (''source_sha256'', JStr hexa), (''owner_uid'', JInt 5), (''scheduler'', JObj scheduler0),
     (''control'', JObj control0), (''published_at'', JStr stamp_text)]"

definition nl :: string where
  "nl = [CHR 0x0A]"

definition env_text :: string where
  "env_text = concat (map (\<lambda>(k, v). k @ ''='' @ text_or_empty v @ nl) (marker_list record0))"

definition job_text :: string where
  "job_text = ''JobId=77 JobState=RUNNING UserId=u(5) NodeList=n1 StartTime='' @ stamp_text @ nl"

definition run0 :: "string list \<Rightarrow> ran" where
  "run0 argv = Ran 0
     (if hd argv = ''scontrol'' then (if argv ! 1 = ''--local'' then job_text else ''n1'' @ nl)
      else if argv ! 3 = ''display-message'' then ''$1|main|90'' @ nl
      else if argv ! 3 = ''show-environment'' then env_text
      else []) []"

definition stat0 :: string where
  "stat0 = ''9 (x) S 1 0 0 0 0 0 0 0 0 0 0 0 0 0 0 0 0 0 7 0''"

definition machine0 :: machine where
  "machine0 = \<lparr>h_name = ''h1'', h_boot = Some ''b'', h_ns = Some ''n'', h_read = (\<lambda>p. Seen stat0)\<rparr>"

definition file0 :: "dict \<Rightarrow> rnode" where
  "file0 d = RFile 5 384 1000 (Some (JObj d))"

definition outside0 :: outside where
  "outside0 = \<lparr>pb_run = (\<lambda>_. run0), pb_socket = (\<lambda>_ _. Seen (True, 5, 1, 2)), pb_machine = (\<lambda>_. machine0),
     pb_proc = (\<lambda>_ _. \<lparr>pv_owner = Gone, pv_stat = Gone, pv_exe = Gone\<rparr>),
     pb_farm = (\<lambda>_ _ name. if name = ''deployment.json'' then Some (file0 manifest0)
       else if name = ''last_tick.json'' then Some (file0 tick0) else None),
     pb_clock = (\<lambda>_. 0), pb_identity = (\<lambda>_. manifest0), pb_others = (\<lambda>_ fs. fs), pb_disk = (\<lambda>_. Written),
     pb_resolve = (\<lambda>s. s), pb_dirmode = 448, pb_uid = 5, pb_tmpdir = None\<rparr>"

definition config0 :: dict where
  "config0 = obj [(''schema_version'', JInt 1), (''storage'', JStr ''persistent-shared''), (''owner_uid'', JInt 5)]"

definition registry0 :: rfiles where
  "registry0 = fmap_of_list [([], RDir 5 448), (registry_file, file0 config0)]"

definition published0 :: rfiles where
  "published0 = fmap_of_list [([], RDir 5 448), (registry_file, file0 config0), ([''targets''], RDir 5 448),
     ([''targets'', ''t''], RDir 5 448), ([''targets'', ''t'', ''epochs''], RDir 5 448),
     ([''targets'', ''t'', ''binding.json''], file0 (binding record0)),
     ([''targets'', ''t'', ''epochs'', ''e1.json''], file0 record0),
     ([''targets'', ''t'', ''current.json''], file0 (pointer_of site0 record0))]"

definition world :: "rfiles \<Rightarrow> aworld" where
  "world fs = \<lparr>aw_t = 0, aw_files = fs, aw_cmds = [], aw_lock = None\<rparr>"

subsection \<open>Operations in this world\<close>

text \<open>Nothing depends on the instant, so an operation is evaluated for any of them.\<close>

lemma world_still: "pass_instant outside0 w = w\<lparr>aw_t := Suc (aw_t w)\<rparr>"
proof -
  have "others_move outside0 t l fs = fs" for t l fs
  proof (cases l)
    case None
    then show ?thesis by (simp add: others_move_def outside0_def)
  next
    case (Some d)
    show ?thesis
      by (rule fmap_ext) (simp add: Some others_move_def outside0_def fmlookup_dom_iff)
  qed
  then show ?thesis by (simp add: pass_instant_def)
qed

lemma outside0_sel [simp]:
  "pb_run outside0 t = run0" "pb_socket outside0 t a = Seen (True, 5, 1, 2)" "pb_machine outside0 t = machine0"
  "pb_farm outside0 t r ''deployment.json'' = Some (file0 manifest0)" "pb_farm outside0 t r ''last_tick.json'' = Some (file0 tick0)"
  "pb_farm outside0 t r ''pending-recovery.json'' = None" "pb_farm outside0 t r ''pending-task-commit.json'' = None"
  "pb_clock outside0 t = 0" "pb_identity outside0 t = manifest0" "pb_disk outside0 t = Written"
  "pb_resolve outside0 x = x" "pb_dirmode outside0 = 448" "pb_uid outside0 = 5"
  by (simp_all add: outside0_def)

lemma read_file0 [simp]: "read_node (Some (file0 d)) missing = Inr d"
  by (simp add: read_node_def file0_def)

text \<open>From the files \<open>fs\<close> the operation returns \<open>x\<close> and leaves \<open>fs'\<close>.\<close>

definition becomes :: "rfiles \<Rightarrow> (aworld, 'a) cmd \<Rightarrow> 'a \<Rightarrow> rfiles \<Rightarrow> bool" where
  "becomes fs m x fs' \<longleftrightarrow> (\<forall>w. aw_files w = fs \<longrightarrow> (\<exists>n cs. m w =
     (Inr x, w\<lparr>aw_t := aw_t w + n, aw_files := fs', aw_cmds := aw_cmds w @ cs\<rparr>)))"

named_theorems becoming

lemma becomes_run: "becomes fs m x fs' \<Longrightarrow> aw_files w = fs \<Longrightarrow> \<exists>w'. m w = (Inr x, w') \<and> aw_files w' = fs' \<and> aw_lock w' = aw_lock w"
  unfolding becomes_def by fastforce

lemma becomes_still: "(\<And>w. aw_files w = fs \<Longrightarrow> \<exists>n. m w = (Inr x, w\<lparr>aw_t := aw_t w + n\<rparr>)) \<Longrightarrow> becomes fs m x fs"
proof -
  assume a: "\<And>w. aw_files w = fs \<Longrightarrow> \<exists>n. m w = (Inr x, w\<lparr>aw_t := aw_t w + n\<rparr>)"
  have "\<exists>n cs. m w = (Inr x, w\<lparr>aw_t := aw_t w + n, aw_files := fs, aw_cmds := aw_cmds w @ cs\<rparr>)" if w: "aw_files w = fs" for w
  proof -
    obtain n where "m w = (Inr x, w\<lparr>aw_t := aw_t w + n\<rparr>)" using a [OF w] ..
    moreover have "w\<lparr>aw_t := aw_t w + n\<rparr> = w\<lparr>aw_t := aw_t w + n, aw_files := fs, aw_cmds := aw_cmds w @ []\<rparr>"
      using w by (cases w) simp
    ultimately show ?thesis by metis
  qed
  then show ?thesis by (simp add: becomes_def)
qed

lemma becomes_ret [becoming]: "becomes fs (ret x) x fs"
  by (rule becomes_still) (auto simp: ret_def intro!: exI [of _ 0])

lemma becomes_pure [becoming]: "r = Inr x \<Longrightarrow> becomes fs (pure r) x fs"
  by (rule becomes_still) (auto simp: pure_def intro!: exI [of _ 0])

lemma becomes_look [becoming]: "(\<And>t. f t = x) \<Longrightarrow> becomes fs (look outside0 f) x fs"
  by (rule becomes_still) (auto simp: look_run_Inr world_still intro!: exI [of _ 1])

lemma becomes_node [becoming]: "fmlookup fs p = n \<Longrightarrow> becomes fs (node_here outside0 p) n fs"
  by (rule becomes_still) (auto simp: read_run world_still intro!: exI [of _ 1])

lemma becomes_read [becoming]: "read_node (fmlookup fs p) missing = Inr d \<Longrightarrow> becomes fs (read_json outside0 p missing) d fs"
  by (rule becomes_still) (auto simp: read_run world_still intro!: exI [of _ 1])

lemma becomes_bnd [becoming]: "becomes fs m x u \<Longrightarrow> becomes u (f x) y v \<Longrightarrow> becomes fs (bnd m f) y v"
proof -
  assume m: "becomes fs m x u" and f: "becomes u (f x) y v"
  have "\<exists>n cs. bnd m f w = (Inr y, w\<lparr>aw_t := aw_t w + n, aw_files := v, aw_cmds := aw_cmds w @ cs\<rparr>)" if "aw_files w = fs" for w
  proof -
    obtain n cs where 1: "m w = (Inr x, w\<lparr>aw_t := aw_t w + n, aw_files := u, aw_cmds := aw_cmds w @ cs\<rparr>)"
      using m \<open>aw_files w = fs\<close> by (auto simp: becomes_def)
    let ?w = "w\<lparr>aw_t := aw_t w + n, aw_files := u, aw_cmds := aw_cmds w @ cs\<rparr>"
    have "aw_files ?w = u" by simp
    then obtain k ds where 2: "f x ?w = (Inr y, ?w\<lparr>aw_t := aw_t ?w + k, aw_files := v, aw_cmds := aw_cmds ?w @ ds\<rparr>)"
      using f unfolding becomes_def by blast
    have "bnd m f w = (Inr y, w\<lparr>aw_t := aw_t w + (n + k), aw_files := v, aw_cmds := aw_cmds w @ (cs @ ds)\<rparr>)"
      using 1 2 by (simp add: bnd_def add.assoc)
    then show ?thesis by blast
  qed
  then show ?thesis by (simp add: becomes_def)
qed

lemma becomes_seq [becoming]: "becomes fs m () u \<Longrightarrow> becomes u k y v \<Longrightarrow> becomes fs (seq m k) y v"
  unfolding seq_def by (rule becomes_bnd)

lemma becomes_command [becoming]: "ran_result (run0 argv) missing = Inr out \<Longrightarrow> becomes fs (command outside0 argv missing) out fs"
proof -
  assume r: "ran_result (run0 argv) missing = Inr out"
  have "command outside0 argv missing w =
      (Inr out, w\<lparr>aw_t := aw_t w + 1, aw_files := aw_files w, aw_cmds := aw_cmds w @ [argv]\<rparr>)" for w
    using r by (cases w) (simp add: command_def cmd_defs look_def world_still)
  then show ?thesis unfolding becomes_def by blast
qed

lemma becomes_write:
  "becomes fs (atomic_write_json site0 outside0 p d) ()
     (fmupd p (file0 d) (with_parents outside0 p fs))"
proof -
  have "atomic_write_json site0 outside0 p d w =
      (Inr (), w\<lparr>aw_t := aw_t w + 1, aw_files := fmupd p (file0 d) (with_parents outside0 p (aw_files w)), aw_cmds := aw_cmds w @ []\<rparr>)" for w
    by (cases w) (simp add: atomic_write_json_def disk_write_def cmd_defs world_still site0_def file0_def)
  then show ?thesis unfolding becomes_def by blast
qed

lemma guards0:
  "persistent_path outside0 ''/p/.farm'' = Inr ''/p/.farm''"
  "checks (manifest_guards site0 ''/p/.farm'' manifest0) = Inr ()"
  "require (''pending_event'' |\<notin>| fmdom manifest0) ''PENDING'' ''deployment_audit'' = Inr ()"
  "checks (handoff_claim_guards manifest0) = Inr ()"
  "match_manifest site0 record0 manifest0 = Inr ()"
  "validate_record site0 record0 ''t'' ''e1'' = Inr record0"
  by code_simp+

lemma require_ok: "b \<Longrightarrow> require b st r = Inr ()"
  by simp

lemma manifest_run: "becomes fs (manifest_for site0 outside0 ''/p/.farm'') manifest0 fs"
  unfolding manifest_for_def farm_read_def no_pending_def
  by (rule becoming guards0 read_file0 outside0_sel require_ok refl)+

lemma local_guards: "checks
     [(dget manifest0 ''host'' = dget manifest0 ''host'', AccessError ''HOST_MISMATCH'' ''verification_host''),
      (dget manifest0 ''protocol_version'' = dget manifest0 ''protocol_version'', AccessError ''STALE_REGISTRY'' ''protocol_version''),
      (dget manifest0 ''source_sha256'' = dget manifest0 ''source_sha256'', AccessError ''STALE_REGISTRY'' ''source_sha256'')] = Inr ()"
  by simp

lemma local_run: "becomes fs (local_build outside0 manifest0) () fs"
  unfolding local_build_def by (rule becoming outside0_sel local_guards)+

lemma ready_run: "becomes fs (daemon_ready site0 outside0 ''/p/.farm'' manifest0) () fs"
proof -
  have *: "started_daemon manifest0" "finite_number (dget manifest0 ''interval'') = Inr True"
    "True \<and> number_of (dget manifest0 ''interval'') > 0"
    "dget tick0 ''deployment'' = JObj (deployment_stamp manifest0)"
    "timestamp site0 (dget tick0 ''ts'') = Inr 0" "timestamp site0 (dget manifest0 ''started_at'') = Inr 0"
    "(0::int) \<ge> 0 \<and> (0::int) \<ge> 0 \<and> of_int (0 - 0) / 1000000 \<le> 3 * number_of (dget manifest0 ''interval'')"
    "daemon_alive machine0 (Some manifest0) = Inr (Some True)"
    "checks [(Some True \<noteq> None, AccessError ''UNREACHABLE'' ''daemon_unknown''),
       (Some True = Some True, AccessError ''PENDING'' ''daemon_not_running'')] = Inr ()"
    by code_simp+
  have al: "\<And>t. daemon_alive (pb_machine outside0 t) (Some manifest0) = Inr (Some True)" using *(8) by simp
  show ?thesis unfolding daemon_ready_def farm_read_def
    by (rule becoming read_file0 outside0_sel require_ok al * refl)+
qed

lemma ran_ok: "length out \<le> 900 \<Longrightarrow> ran_result (Ran 0 out err) missing = Inr out"
  by (simp add: ran_result_def)

lemma job_text_run: "ran_result (run0 [''scontrol'', ''--local'', ''--oneliner'', ''show'', ''job'', ''77'']) None = Inr job_text"
proof -
  have "run0 [''scontrol'', ''--local'', ''--oneliner'', ''show'', ''job'', ''77''] = Ran 0 job_text []" by (simp add: run0_def)
  moreover have "length job_text \<le> 900" by (simp add: job_text_def stamp_text_def nl_def)
  ultimately show ?thesis by (simp add: ran_ok)
qed

lemma hosts_run: "ran_result (run0 [''scontrol'', ''show'', ''hostnames'', ''n1'']) None = Inr (''n1'' @ nl)"
proof -
  have "run0 [''scontrol'', ''show'', ''hostnames'', ''n1''] = Ran 0 (''n1'' @ nl) []" by (simp add: run0_def)
  then show ?thesis by (simp add: ran_ok nl_def)
qed

lemma job_ok: "need_id slurm_job_rx (JStr ''77'') = Inr ()"
  "fullmatch uid_rx ''u(5)''"
  "''n1'' \<notin> {''(null)'', ''None'', ''N/A''} \<and> stamp_text \<notin> {''Unknown'', ''N/A'', ''None''}"
  "int_literal (butlast (after (CHR ''('') ''u(5)'')) = Inr 5"
  by code_simp+

lemma job_lines: "splitlines (''n1'' @ nl) = [''n1'']" "length (splitlines (strip job_text)) = 1"
  by code_simp+

lemma job_text_fields: "job_fields job_text = Some [''77'', ''RUNNING'', ''u(5)'', ''n1'', stamp_text]"
  by code_simp

lemma scheduler_run:
  "becomes fs (scheduler outside0 ''77'')
     \<lparr>jb_id = ''77'', jb_state = ''RUNNING'', jb_nodes = [''n1''], jb_owner = 5, jb_start = stamp_text\<rparr> fs"
proof -
  have nodes: "becomes fs (job_nodes outside0 ''RUNNING'' ''n1'' stamp_text) [''n1''] fs"
  proof -
    have k: "splitlines (''n1'' @ nl) \<noteq> [] \<and> distinct (splitlines (''n1'' @ nl)) \<and>
        list_all (fullmatch (Plus (Cls id_char))) (splitlines (''n1'' @ nl))"
      unfolding job_lines by code_simp
    show ?thesis unfolding job_nodes_def Let_def if_not_P [of "''RUNNING'' \<noteq> ''RUNNING''", simplified] simp_thms if_False
      by (rule becoming hosts_run job_ok require_ok k becomes_ret [of _ "splitlines (''n1'' @ nl)", unfolded job_lines] | simp only: job_lines)+
  qed
  show ?thesis unfolding scheduler_def
    apply (rule becoming job_ok job_text_run require_ok job_lines)+
    apply (simp only: job_text_fields option.case list.case)
    by (rule becoming nodes job_ok require_ok refl)+
qed

lemma allocation_run: "becomes fs (running_allocation site0 outside0 ''77'' ''n1'' (JInt 5)) (JObj scheduler0) fs"
proof -
  let ?v = "\<lparr>jb_id = ''77'', jb_state = ''RUNNING'', jb_nodes = [''n1''], jb_owner = 5, jb_start = stamp_text\<rparr>"
  have g: "checks (allocation_guards ''77'' ''n1'' (JInt 5) ?v) = Inr ()" by code_simp
  have "validate_scheduler site0 (JObj scheduler0) = Inr (JObj scheduler0)" by code_simp
  then have v: "(case validate_scheduler site0 (JObj (obj [(''kind'', JStr ''slurm''), (''job_id'', JStr ''77''),
               (''scheduler_node'', JStr ''n1''), (''allocation_started_at'', JStr (jb_start ?v))])) of
          Inr j \<Rightarrow> Inr j
        | Inl e \<Rightarrow> Inl (AccessError ''UNREACHABLE'' ''allocation_identity'')) = Inr (JObj scheduler0)"
    by (simp only: scheduler0_def job_view.simps sum.case)
  show ?thesis unfolding running_allocation_def by (rule becoming scheduler_run g v)+
qed

lemma socket_run: "becomes fs (socket_identity outside0 ''/s'') (1, 2) fs"
proof -
  have a: "absolute ''/s''" by code_simp
  have "(case Seen (True, 5, 1, 2) of
        Gone \<Rightarrow> Inl (AccessError ''SESSION_MISSING'' ''socket_missing'')
      | Denied \<Rightarrow> Inl (AccessError ''AUTH_REQUIRED'' ''socket_permission'')
      | Seen (is_socket, uid, dev, ino) \<Rightarrow>
          if \<not> is_socket then Inl (conflict ''not_socket'')
          else if uid \<noteq> pb_uid outside0 then Inl (AccessError ''AUTH_REQUIRED'' ''socket_owner'')
          else Inr (dev, ino)
      | _ \<Rightarrow> Inl (AccessError ''UNREACHABLE'' ''socket_unreachable'')) = Inr (1 :: int, 2 :: int)" by simp
  note s = this
  show ?thesis unfolding socket_identity_def by (rule becoming require_ok a outside0_sel s)+
qed

lemma display_run:
  "ran_result (run0 (tmux ''/s'' [''display-message'', ''-p'', ''-t'', ''='' @ ''main'' @ '':'',
     ''#{session_id}|#{session_name}|#{pid}''])) (Some ''session_missing'') = Inr (''$1|main|90'' @ nl)"
proof -
  have "run0 (tmux ''/s'' [''display-message'', ''-p'', ''-t'', ''='' @ ''main'' @ '':'', ''#{session_id}|#{session_name}|#{pid}''])
      = Ran 0 (''$1|main|90'' @ nl) []" by (simp add: run0_def tmux_def)
  then show ?thesis by (simp add: ran_ok nl_def)
qed

lemma server_run: "becomes fs (server_process outside0 ''90'') (7, JStr ''b'', 90) fs"
proof -
  have e: "\<And>t. dget (host_identity (pb_machine outside0 t)) ''boot_id'' = JStr ''b''"
    "\<And>t. proc_starttime (pb_machine outside0 t) 90 = Inr (Some 7)"
    "int_literal ''90'' = Inr 90" "truthy (JStr ''b'')"
    unfolding outside0_sel by code_simp+
  show ?thesis unfolding server_process_def
    apply (rule becoming e refl)+
    apply (simp only: option.case)
    by (rule becoming require_ok e)+
qed

lemma control_run: "becomes fs (control outside0 ''/s'' ''main'' None) control0 fs"
proof -
  have e: "need_id name_rx (JStr ''main'') = Inr ()" "session_parts (''$1|main|90'' @ nl) ''main'' = Inr (''$1'', ''90'')"
    by code_simp+
  have w: "becomes fs (window_of outside0 ''/s'' ''$1'' None) None fs"
    unfolding window_of_def option.case by (rule becoming)
  have r: "obj [(''socket'', JStr ''/s''), (''socket_device'', JInt (fst (1, 2 :: int))), (''socket_inode'', JInt (snd (1 :: int, 2))),
         (''session'', JStr ''main''), (''session_id'', JStr ''$1''), (''default_window'', jopt None),
         (''window_id'', jopt None), (''server_pid'', JInt 90), (''server_starttime'', JInt 7), (''boot_id'', JStr ''b'')] = control0"
    by (simp only: control0_def fst_conv snd_conv jopt.simps)
  show ?thesis unfolding control_def option.case
    apply (rule becoming e socket_run display_run)+
    apply (simp only: prod.case)
    apply (rule becoming w)
    apply (rule w)
    apply (rule becoming server_run)
    apply (rule server_run)
    apply (simp only: prod.case)
    apply (rule becoming socket_run require_ok refl)+
    apply (simp only: r)
    by (rule becoming)
qed

lemma environment_run: "becomes fs (environment outside0 control0) (markers record0) fs"
proof -
  have a: "text_or_empty (dget control0 ''socket'') = ''/s''" "text_or_empty (dget control0 ''session_id'') = ''$1''" by code_simp+
  have "length env_text \<le> 900" by code_simp
  moreover have "run0 (tmux ''/s'' [''show-environment'', ''-t'', ''$1'']) = Ran 0 env_text []" by (simp add: run0_def tmux_def)
  ultimately have r: "ran_result (run0 (tmux ''/s'' [''show-environment'', ''-t'', ''$1''])) (Some ''session_missing'') = Inr env_text"
    by (simp add: ran_ok)
  have p: "parse_environment env_text = markers record0" by code_simp
  show ?thesis unfolding environment_def a
    apply (rule becoming r)+
    apply (simp only: p)
    by (rule becoming)
qed

lemma record0_parts:
  "obj_of (dget record0 ''control'') = control0" "dget record0 ''endpoint_role'' = JNull"
  "text_or_empty (sub record0 ''scheduler'' ''job_id'') = ''77''" "text_or_empty (sub record0 ''scheduler'' ''scheduler_node'') = ''n1''"
  "dget record0 ''owner_uid'' = JInt 5" "dget record0 ''scheduler'' = JObj scheduler0"
  "text_or_empty (dget control0 ''socket'') = ''/s''" "text_or_empty (dget control0 ''session'') = ''main''"
  "dget control0 ''default_window'' = JNull" "is_generation record0 = False" "role_of record0 = None"
  "text_or_empty (dget record0 ''execution_epoch'') = ''e1''" "text_or_empty (dget record0 ''target'') = ''t''"
  by code_simp+

lemma live_like:
  assumes c: "obj_of (dget r ''control'') = control0" and e: "dget r ''endpoint_role'' = JNull"
    and s: "text_or_empty (sub r ''scheduler'' ''job_id'') = ''77''" "text_or_empty (sub r ''scheduler'' ''scheduler_node'') = ''n1''"
      "dget r ''scheduler'' = JObj scheduler0"
    and o: "dget r ''owner_uid'' = JInt 5" and m: "match_manifest site0 r manifest0 = Inr ()" and k: "markers r = markers record0"
  shows "becomes fs (live site0 outside0 ''/p/.farm'' manifest0 r) () fs"
proof -
  have alloc: "becomes fs (same_allocation site0 outside0 r) () fs" for fs
    unfolding same_allocation_def s o by (rule becoming allocation_run require_ok refl)+
  have ctl: "becomes fs (same_control outside0 control0) () fs" for fs
    unfolding same_control_def control_again_def record0_parts json.case by (rule becoming control_run require_ok refl)+
  have role: "becomes fs (same_role outside0 control0 manifest0 r) () fs" for fs
    unfolding same_role_def e json.case by (rule becoming)
  show ?thesis unfolding live_def Let_def c o k
    by (rule becoming m local_run require_ok ready_run alloc ctl environment_run role manifest_run refl | simp only: outside0_sel)+
qed

lemma live_run: "becomes fs (live site0 outside0 ''/p/.farm'' manifest0 record0) () fs"
  by (rule live_like) (simp_all only: record0_parts guards0)

lemma pointer0_parts:
  "read_node (fmlookup published0 registry_file) missing = Inr config0"
  "read_node (fmlookup published0 [''targets'', ''t'', ''current.json'']) missing = Inr (pointer_of site0 record0)"
  "read_node (fmlookup published0 (record_path [''targets'', ''t''] (pointer_of site0 record0))) missing = Inr record0"
  "read_node (fmlookup published0 ([''targets'', ''t''] @ [''binding.json''])) missing = Inr (binding record0)"
  "fmlookup published0 [''targets''] = Some (RDir 5 448)" "fmlookup published0 [''targets'', ''t''] = Some (RDir 5 448)"
  "fmlookup published0 [''targets'', ''t'', ''epochs''] = Some (RDir 5 448)"
  "fmlookup published0 [''targets'', ''t'', ''generations''] = None"
  by (simp_all add: published0_def registry_file_def record_path_def is_generation_def record0_def binding_def file0_def read_node_def pointer_of_def site0_def)

lemma names0:
  "target_name ''t'' = Inr ()" "dir_of ''t'' = [''targets'', ''t'']" "registry_config_ok config0"
  "pointer_path [''targets'', ''t''] None = Inr [''targets'', ''t'', ''current.json'']"
  "checks (pointer_guards (pointer_of site0 record0) ''t'') = Inr ()"
  "text_or_empty (dget (pointer_of site0 record0) ''execution_epoch'') = ''e1''"
  "dget config0 ''owner_uid'' = JInt 5" "checks (role_guards record0 None) = Inr ()"
  by code_simp+

lemma directory_run:
  assumes "fmlookup fs p = Some (RDir 5 448) \<or> (fmlookup fs p = None \<and> \<not> create)"
  shows "becomes fs (directory outside0 create p) () fs"
proof (cases "fmlookup fs p = None")
  case True
  with assms have c: "create = False" by simp
  have n: "None \<noteq> Some RLink" by simp
  show ?thesis unfolding directory_def c simp_thms if_False
    apply (rule becoming True require_ok n)+
    apply (simp only: option.case)
    by (rule becoming)
next
  case False
  with assms have d: "fmlookup fs p = Some (RDir 5 448)" by simp
  have "private_mode 448" by code_simp
  then show ?thesis using d unfolding directory_def
    by (intro becomes_bnd [OF becomes_node [OF d]] becomes_seq [OF becomes_pure [OF require_ok]] becomes_seq [of fs "if _ then _ else _"])
      (auto intro!: becoming)
qed

lemma config_run: "becomes published0 (configuration outside0 False) config0 published0"
  unfolding configuration_def if_False by (rule becoming pointer0_parts require_ok names0)+

lemma target_dir_run: "becomes published0 (target_dir outside0 ''t'' False) [''targets'', ''t''] published0"
proof -
  have "map (\<lambda>n. take (Suc n) [''targets'', ''t'']) [0..<length [''targets'', ''t'']] = [[''targets''], [''targets'', ''t'']]"
    by (simp add: upt_rec)
  note m = this
  have d: "becomes published0 (directory outside0 False p) () published0"
    if "p \<in> {[''targets''], [''targets'', ''t''], [''targets'', ''t'', ''epochs''], [''targets'', ''t'', ''generations'']}" for p
    using that by (intro directory_run) (auto simp: pointer0_parts)
  show ?thesis unfolding target_dir_def names0 Let_def m for_each.simps append.simps
    by (rule becoming refl d | simp)+
qed

lemma current_run: "becomes published0 (current site0 outside0 ''t'' None) (pointer_of site0 record0, record0) published0"
proof -
  have g: "dget record0 ''schema_version'' = dget (pointer_of site0 record0) ''schema_version'' \<and>
      (is_generation (pointer_of site0 record0) \<longrightarrow> dget record0 ''generation'' = dget (pointer_of site0 record0) ''generation'')"
    "JStr (a_digest site0 record0) = dget (pointer_of site0 record0) ''record_sha256''"
    "dget record0 ''owner_uid'' = dget config0 ''owner_uid''"
    by code_simp+
  have v: "validate_record site0 record0 ''t'' (text_or_empty (dget (pointer_of site0 record0) ''execution_epoch'')) = Inr record0"
    unfolding names0(6) by (rule guards0(6))
  show ?thesis unfolding current_def
    by (rule becoming config_run target_dir_run names0 pointer0_parts require_ok g v refl)+
qed

lemma verified_run:
  "becomes fs (verified site0 outside0 record0) (answer_doc site0 0 ''VERIFIED'' (dget record0 ''target'') ''exact_match''
       [(''schema_version'', dget record0 ''schema_version''), (''record'', JObj record0), (''record_sha256'', JStr (a_digest site0 record0)),
        (''attachment'', JObj (obj [(''host'', dget record0 ''runtime_host''), (''argv'', JList (map JStr (attach_argv record0)))]))]) fs"
  unfolding verified_def by (rule becoming outside0_sel)+

lemma verify_run: "\<exists>res. becomes published0 (verify site0 outside0 ''/p/.farm'' ''t'' None None) res published0"
proof -
  have r: "JStr (pb_resolve outside0 ''/p/.farm'') = dget record0 ''farm_root''" unfolding outside0_sel by code_simp
  show ?thesis unfolding verify_def option.case
    apply (rule exI)
    apply (rule becoming names0 current_run)+
    apply (simp only: prod.case)
    by (rule becoming require_ok r manifest_run guards0 live_run current_run verified_run refl)+
qed

theorem verification_certifies_witness:
  "\<exists>res w'. verify site0 outside0 ''/p/.farm'' ''t'' None None (world published0) = (Inr res, w') \<and>
     (\<exists>r. dget res ''record'' = JObj r \<and> dget r ''farm_root'' = JStr ''/p/.farm'' \<and>
       (\<exists>m t0 t1. certified site0 outside0 ''/p/.farm'' (world published0) m r t0 t1))"
proof -
  obtain res where "becomes published0 (verify site0 outside0 ''/p/.farm'' ''t'' None None) res published0"
    using verify_run ..
  from becomes_run [OF this, of "world published0"]
  obtain w' where "verify site0 outside0 ''/p/.farm'' ''t'' None None (world published0) = (Inr res, w')"
    by (auto simp: world_def)
  moreover from verification_certifies [OF this] have "\<exists>r. dget res ''record'' = JObj r \<and> dget r ''farm_root'' = JStr ''/p/.farm'' \<and>
       (\<exists>m t0 t1. certified site0 outside0 ''/p/.farm'' (world published0) m r t0 t1)"
    unfolding outside0_sel by blast
  ultimately show ?thesis by blast
qed

theorem attachment_is_inert_witness:
  "list_all (\<lambda>(k, x). list_all inert x) (expected_values record0) \<and> list_all inert (attach_target record0)"
proof (rule attachment_is_inert [OF guards0(6) names0(1)])
  show "list_all hex_char (a_sha site0 x)" for x
    by (simp add: site0_def hexa_def list_all_iff hex_char_def in_range_def less_eq_char_def)
qed

subsection \<open>A first generation\<close>

definition request0 :: request where
  "request0 = \<lparr>rq_job = ''77'', rq_session = ''main'', rq_socket = Some ''/s'', rq_window = None, rq_epoch = None,
     rq_generation = Some ''g1'', rq_current = Some ''none'', rq_role = None, rq_pid = None\<rparr>"

definition generation0 :: dict where
  "generation0 = dput record0 [(''schema_version'', JInt 2), (''generation'', JStr ''g1''),
     (''previous_record_sha256'', JNull), (''endpoint_role'', JNull)]"

definition locked0 :: rfiles where
  "locked0 = fmap_of_list [([], RDir 5 448), (registry_file, file0 config0), ([''targets''], RDir 5 448),
     ([''targets'', ''t''], RDir 5 448)]"

definition bound0 :: rfiles where
  "bound0 = fmupd [''targets'', ''t'', ''binding.json''] (file0 (binding generation0))
     (with_parents outside0 [''targets'', ''t'', ''binding.json''] locked0)"

definition opened0 :: rfiles where
  "opened0 = fmupd [''targets'', ''t'', ''generations''] (RDir 5 448) bound0"

definition recorded0 :: rfiles where
  "recorded0 = fmupd [''targets'', ''t'', ''generations'', ''g1.json''] (file0 generation0)
     (with_parents outside0 [''targets'', ''t'', ''generations'', ''g1.json''] opened0)"

definition pointed0 :: rfiles where
  "pointed0 = fmupd [''targets'', ''t'', ''current.json''] (file0 (pointer_of site0 generation0))
     (with_parents outside0 [''targets'', ''t'', ''current.json''] recorded0)"

lemma generation0_parts:
  "obj_of (dget generation0 ''control'') = control0" "dget generation0 ''endpoint_role'' = JNull"
  "text_or_empty (sub generation0 ''scheduler'' ''job_id'') = ''77''" "text_or_empty (sub generation0 ''scheduler'' ''scheduler_node'') = ''n1''"
  "dget generation0 ''scheduler'' = JObj scheduler0" "dget generation0 ''owner_uid'' = JInt 5"
  "match_manifest site0 generation0 manifest0 = Inr ()" "markers generation0 = markers record0"
  "is_generation generation0 = True" "role_of generation0 = None"
  "text_or_empty (dget generation0 ''execution_epoch'') = ''e1''" "text_or_empty (dget generation0 ''target'') = ''t''"
  "record_path [''targets'', ''t''] generation0 = [''targets'', ''t'', ''generations'', ''g1.json'']"
  "validate_record site0 generation0 ''t'' ''e1'' = Inr generation0"
  "dget generation0 ''previous_record_sha256'' = JNull"
  by code_simp+

lemma live_generation: "becomes fs (live site0 outside0 ''/p/.farm'' manifest0 generation0) () fs"
  by (rule live_like) (simp_all only: generation0_parts)

lemma files0:
  "fmlookup locked0 [''targets'', ''t'', ''binding.json''] = None"
  "fmlookup locked0 [''targets'', ''t'', ''generations'', ''g1.json''] = None"
  "fmlookup locked0 [''targets'', ''t'', ''current.json''] = None"
  "fmlookup bound0 [''targets'', ''t'', ''generations''] = None"
  "fmlookup bound0 [''targets'', ''t''] = Some (RDir 5 448)"
  "fmlookup opened0 [''targets'', ''t'', ''generations''] = Some (RDir 5 448)"
  "fmlookup opened0 [''targets'', ''t'', ''generations'', ''g1.json''] = None"
  "fmlookup recorded0 [''targets'', ''t'', ''current.json''] = None"
  by code_simp+

lemma make_run: "becomes bound0 (make_dir outside0 [''targets'', ''t'', ''generations'']) () opened0"
proof -
  have "make_dir outside0 [''targets'', ''t'', ''generations''] w =
      (Inr (), w\<lparr>aw_t := aw_t w + 1, aw_files := opened0, aw_cmds := aw_cmds w @ []\<rparr>)" if "aw_files w = bound0" for w
    using that files0(4) by (cases w) (simp add: make_dir_def disk_write_def cmd_defs world_still opened0_def)
  then show ?thesis unfolding becomes_def by blast
qed

lemma prepare_run: "becomes locked0 (prepare_record site0 outside0 [''targets'', ''t''] generation0) generation0 recorded0"
proof -
  have b: "becomes locked0 (immutable site0 outside0 [''targets'', ''t'', ''binding.json''] (binding generation0)) () bound0"
  proof -
    have w: "becomes locked0 (atomic_write_json site0 outside0 [''targets'', ''t'', ''binding.json''] (binding generation0)) () bound0"
      unfolding bound0_def by (rule becomes_write)
    show ?thesis unfolding immutable_def
      apply (rule becomes_bnd)
      apply (rule becomes_node, rule files0)
      unfolding simp_thms if_False by (rule w)
  qed
  have d: "becomes bound0 (directory outside0 True [''targets'', ''t'', ''generations'']) () opened0"
  proof -
    have n: "None \<noteq> Some RLink" "Some (RDir 5 448) \<noteq> Some RLink" "5 = pb_uid outside0 \<and> private_mode 448"
      by (simp_all add: private_mode_def)
    have bl: "([''targets'', ''t'', ''generations''] = []) = False" "butlast [''targets'', ''t'', ''generations''] = [''targets'', ''t'']" by simp_all
    show ?thesis unfolding directory_def bl if_False
      apply (rule becoming files0 require_ok n)+
      unfolding simp_thms if_True
      apply (rule becoming files0)+
      apply (simp only: option.case rnode.case)
      apply (rule make_run)
      apply (rule becoming files0 require_ok n)+
      apply (simp only: option.case rnode.case)
      by (rule becoming require_ok n)+
  qed
  have e: "becomes opened0 (existing (bnd (read_json outside0 [''targets'', ''t'', ''generations'', ''g1.json''] ''UNPUBLISHED'') (\<lambda>x.
         pure (validate_record site0 x ''t'' ''e1'')))) None opened0"
    by (rule becomes_still)
      (auto simp: existing_def handle_def bnd_def read_json_def node_here_def gets_def seq_def modify_def ret_def pure_def
        read_node_def files0 world_still intro!: exI [of _ 1])
  have r: "becomes opened0 (immutable site0 outside0 [''targets'', ''t'', ''generations'', ''g1.json''] generation0) () recorded0"
  proof -
    have w: "becomes opened0 (atomic_write_json site0 outside0 [''targets'', ''t'', ''generations'', ''g1.json''] generation0) () recorded0"
      unfolding recorded0_def by (rule becomes_write)
    show ?thesis unfolding immutable_def
      apply (rule becomes_bnd)
      apply (rule becomes_node, rule files0)
      unfolding simp_thms if_False by (rule w)
  qed
  have bl: "butlast [''targets'', ''t'', ''generations'', ''g1.json''] = [''targets'', ''t'', ''generations'']"
    "[''targets'', ''t''] @ [''binding.json''] = [''targets'', ''t'', ''binding.json'']" by simp_all
  show ?thesis unfolding prepare_record_def generation0_parts Let_def bl
    apply (rule becoming b d e)+
    apply (simp only: option.case)
    by (rule becoming r | simp only: option.case, rule becoming)+
qed

lemma commit_run: "becomes recorded0 (commit_pointer site0 outside0 [''targets'', ''t''] generation0) (pointer_of site0 generation0) pointed0"
proof -
  have w: "becomes recorded0 (atomic_write_json site0 outside0 [''targets'', ''t'', ''current.json''] (pointer_of site0 generation0)) () pointed0"
    unfolding pointed0_def by (rule becomes_write)
  have c: "becomes recorded0 (expect_current site0 outside0 [''targets'', ''t'', ''current.json''] generation0) () recorded0"
    unfolding expect_current_def generation0_parts
    apply (rule becomes_bnd)
    apply (rule becomes_node, rule files0)
    apply (simp only: if_True simp_thms)
    by (rule becoming require_ok refl)+
  show ?thesis unfolding commit_pointer_def generation0_parts if_True
    by (rule becoming names0 c w | rule c w)+
qed

lemma bind_run: "becomes fs (bind outside0 generation0) () fs"
proof -
  have p: "fmpred (\<lambda>k v. fmlookup (markers record0) k = Some v) (markers record0)"
    by (rule fmpredI) simp
  have e: "filter (\<lambda>(k, v). fmlookup (markers record0) k = None) (marker_list generation0) = []"
    by code_simp
  show ?thesis unfolding bind_def Let_def generation0_parts
    apply (rule becomes_bnd)
    apply (rule environment_run)
    apply (rule becomes_seq)
    apply (rule becomes_pure, rule require_ok, rule p)
    apply (simp only: e for_each.simps)
    by (rule becoming environment_run require_ok refl)+
qed

lemma publish_run: "\<exists>res. becomes locked0 (publish_locked site0 outside0 ''/p/.farm'' ''t'' request0 config0 (dir_of ''t'')) res pointed0"
proof -
  have q: "rq_job request0 = ''77''" "rq_session request0 = ''main''" "rq_socket request0 = Some ''/s''" "rq_window request0 = None"
    "rq_epoch request0 = None" "rq_generation request0 = Some ''g1''" "rq_current request0 = Some ''none''"
    "rq_role request0 = None" "rq_pid request0 = None" by (simp_all add: request0_def)
  have s: "attested_scheduler site0 manifest0 = Inr (JObj scheduler0)"
    "dget (obj_of (JObj scheduler0)) ''job_id'' = JStr ''77''"
    "sub manifest0 ''scheduler_attestation'' ''owner_uid'' = dget config0 ''owner_uid''"
    "text_or_empty (dget (obj_of (JObj scheduler0)) ''scheduler_node'') = ''n1''"
    "absolute ''/s''" by code_simp+
  have t: "\<And>t. a_iso site0 (pb_clock outside0 t) = stamp_text" by (simp add: site0_def)
  have b: "base_record outside0 ''/p/.farm'' ''t'' manifest0 (JObj scheduler0) control0 (JInt 5) stamp_text = record0"
    unfolding base_record_def outside0_sel by code_simp
  have n: "becomes fs (requested_record outside0 request0 manifest0 control0 record0) generation0 fs" for fs
  proof -
    have g: "dput record0 [(''schema_version'', JInt 2), (''generation'', JStr ''g1''),
          (''previous_record_sha256'', JNull), (''endpoint_role'', JNull)] = generation0" by (simp only: generation0_def)
    show ?thesis unfolding requested_record_def q option.case
      apply (rule becoming)+
      apply (rule require_ok, simp)
      apply (simp only: prod.case option.case)
      apply (rule becoming)+
      apply (simp only: if_True simp_thms g)
      by (rule becoming)
  qed
  have a: "becomes locked0 (against_existing site0 outside0 [''targets'', ''t''] ''t'' request0 generation0) generation0 locked0"
    unfolding against_existing_def generation0_parts append.simps
    apply (rule becomes_bnd)
    apply (rule becomes_node, rule files0)
    apply (simp only: if_True simp_thms)
    apply (rule becoming files0)+
    apply (simp only: if_True simp_thms)
    by (rule becoming)
  have c: "becomes locked0 (current_pointer site0 outside0 [''targets'', ''t''] ''t'' request0) None locked0"
    unfolding current_pointer_def q
    apply (rule becoming names0)+
    apply (rule files0)
    apply (simp only: if_True simp_thms)
    by (rule becoming)
  have f: "becomes fs (verified site0 outside0 generation0) (answer_doc site0 0 ''VERIFIED'' (dget generation0 ''target'') ''exact_match''
       [(''schema_version'', dget generation0 ''schema_version''), (''record'', JObj generation0), (''record_sha256'', JStr (a_digest site0 generation0)),
        (''attachment'', JObj (obj [(''host'', dget generation0 ''runtime_host''), (''argv'', JList (map JStr (attach_argv generation0)))]))]) fs" for fs
    unfolding verified_def by (rule becoming outside0_sel)+
  have i: "\<exists>res. becomes locked0 (commit_record site0 outside0 ''/p/.farm'' [''targets'', ''t''] manifest0 generation0) res pointed0"
    unfolding commit_record_def
    apply (rule exI)
    by (rule becomes_seq becomes_bnd, rule bind_run live_generation prepare_run commit_run f)+ (rule f)
  then obtain res where i: "becomes locked0 (commit_record site0 outside0 ''/p/.farm'' [''targets'', ''t''] manifest0 generation0) res pointed0" ..
  have p: "becomes locked0 (publish_record site0 outside0 ''/p/.farm'' [''targets'', ''t''] manifest0 request0 None generation0) res pointed0"
  proof -
    have ne: "(JNull = JStr (a_digest site0 generation0)) = False" "(Some ''g1'' \<noteq> None) = True" by simp_all
    show ?thesis unfolding publish_record_def Let_def q option.case ne if_True if_False generation0_parts
      by (rule becoming require_ok refl i)+
  qed
  have v: "validate_record site0 generation0 ''t'' (text_or_empty (dget generation0 ''execution_epoch'')) = Inr generation0"
    unfolding generation0_parts(11) by (rule generation0_parts(14))
  show ?thesis unfolding publish_locked_def Let_def q names0(2)
    apply (rule exI)
    apply (rule becomes_bnd, rule manifest_run)
    apply (rule becomes_seq, rule local_run)
    apply (rule becomes_seq, rule becomes_pure, rule require_ok, simp)
    apply (rule becomes_bnd, rule becomes_pure, rule s)
    apply (rule becomes_seq, rule becomes_pure, rule require_ok, rule s)
    apply (rule becomes_seq, rule becomes_pure, rule require_ok, rule s)
    apply (rule becomes_seq, rule ready_run)
    apply (simp only: s names0)
    apply (rule becomes_bnd, rule allocation_run)
    apply (rule becomes_seq, rule becomes_pure, rule require_ok, rule refl)
    apply (simp only: option.case)
    apply (rule becomes_seq, rule becomes_pure, rule require_ok, rule s)
    apply (rule becomes_bnd, rule control_run)
    apply (rule becomes_bnd, rule becomes_look, rule t)
    apply (simp only: b)
    apply (rule becomes_bnd, rule n)
    apply (rule becomes_bnd, rule becomes_pure, rule v)
    apply (rule becomes_bnd, rule a)
    apply (rule becomes_bnd, rule c)
    by (rule p)
qed

theorem publication_compares_and_sets_witness:
  "\<exists>res w' r epoch. publish_locked site0 outside0 ''/p/.farm'' ''t'' request0 config0 (dir_of ''t'')
       ((world locked0)\<lparr>aw_lock := Some (dir_of ''t'')\<rparr>) = (Inr res, w') \<and>
     dget res ''record'' = JObj r \<and> validate_record site0 r ''t'' epoch = Inr r \<and>
     pointer_moved site0 outside0 ''/p/.farm'' ''t'' None r locked0 w'"
proof -
  let ?w = "(world locked0)\<lparr>aw_lock := Some (dir_of ''t'')\<rparr>"
  obtain res w' where r: "publish_locked site0 outside0 ''/p/.farm'' ''t'' request0 config0 (dir_of ''t'') ?w = (Inr res, w')"
    using publish_run by (auto simp: world_def dest!: becomes_run [where w = ?w])
  have l: "aw_lock ?w = Some (dir_of ''t'')" and q: "checks (request_guards request0) = Inr ()"
    by (simp, code_simp)
  have f: "aw_files ?w = locked0" "rq_role request0 = None" by (simp_all add: world_def request0_def)
  show ?thesis using publication_compares_and_sets [OF r l q] r unfolding f by blast
qed

theorem publication_keeps_pointers_backed_witness:
  "backed site0 ''t'' (aw_files (snd (publish_access site0 outside0 ''/p/.farm'' ''t'' request0 (world published0))))"
proof -
  have o: "cooperative site0 ''t'' outside0" by (simp add: cooperative_def outside0_def)
  have b: "backed site0 ''t'' (aw_files (world published0))"
    by (simp only: world_def aworld.select_convs) code_simp
  have l: "aw_lock (world published0) = None" by (simp add: world_def)
  show ?thesis by (rule publication_keeps_pointers_backed [OF o b l])
qed

end
