(* ===== verification/Durable.thy ===== *)
theory Durable
  imports Prelude
begin

text \<open>
  The durable file of \<open>adapters/posix_filesystem.py\<close> (and of \<open>farmkit/_fs.py\<close>) on a disk with a page
  cache, and the polling lock. Everywhere else a write of a JSON file is one disk operation; here it is the
  sequence of system calls, and the power may fail between any two of them. What is not synchronized
  may be lost: a name may then show any entry it had since the directory was last synchronized, a file
  that was not synchronized any text. The directory itself is there: creating its parents has no effect here.
\<close>

subsection \<open>Disk and cache\<close>

text \<open>\<open>dk_may\<close> holds the entries a changed name may show after a power failure; \<open>dk_safe\<close> are
  the files whose text is on the disk.\<close>

record cache =
  dk_names :: "(string, nat) fmap"
  dk_may :: "(string, nat option list) fmap"
  dk_text :: "(nat, string) fmap"
  dk_safe :: "nat fset"

definition entries :: "cache \<Rightarrow> string \<Rightarrow> nat option list" where
  "entries c q = (case fmlookup (dk_may c) q of None \<Rightarrow> [fmlookup (dk_names c) q] | Some es \<Rightarrow> es)"

text \<open>What a reader sees now, and what may be there after a power failure.\<close>

definition shows_text :: "cache \<Rightarrow> string \<Rightarrow> string option" where
  "shows_text c q = (case fmlookup (dk_names c) q of None \<Rightarrow> None | Some i \<Rightarrow> fmlookup (dk_text c) i)"

definition may_hold :: "cache \<Rightarrow> string \<Rightarrow> string option \<Rightarrow> bool" where
  "may_hold c q v = list_ex (\<lambda>e. case e of
       None \<Rightarrow> v = None
     | Some i \<Rightarrow> v \<noteq> None \<and> (i |\<in>| dk_safe c \<longrightarrow> fmlookup (dk_text c) i = v)) (entries c q)"

text \<open>The disk now, as it was at every earlier instant, and the number of system calls so far.\<close>

record media =
  md_now :: cache
  md_past :: "cache list"
  md_calls :: nat

definition change :: "(cache \<Rightarrow> cache) \<Rightarrow> (media, unit) cmd" where
  "change f = modify (\<lambda>m. m\<lparr>md_now := f (md_now m), md_past := md_now m # md_past m\<rparr>)"

text \<open>\<open>W n\<close> is the exception the n-th system call raises, if any.\<close>

definition system_call :: "(nat \<Rightarrow> exn option) \<Rightarrow> (media, unit) cmd" where
  "system_call W = bnd (gets md_calls) (\<lambda>n. seq (modify (\<lambda>m. m\<lparr>md_calls := Suc n\<rparr>))
     (case W n of None \<Rightarrow> ret () | Some e \<Rightarrow> throw e))"

definition set_name :: "string \<Rightarrow> nat option \<Rightarrow> cache \<Rightarrow> cache" where
  "set_name q e c = c\<lparr>dk_names := (case e of None \<Rightarrow> fmdrop q (dk_names c) | Some i \<Rightarrow> fmupd q i (dk_names c)),
     dk_may := fmupd q (e # entries c q) (dk_may c)\<rparr>"

subsection \<open>The system calls\<close>

definition make_temp :: "(nat \<Rightarrow> exn option) \<Rightarrow> string \<Rightarrow> nat \<Rightarrow> (media, unit) cmd" where
  "make_temp W tmp i = seq (system_call W)
     (change (\<lambda>c. (set_name tmp (Some i) c)\<lparr>dk_text := fmupd i [] (dk_text c), dk_safe := dk_safe c |-| {|i|}\<rparr>))"

text \<open>The text reaches the file a character at a time, whatever the buffers are.\<close>

definition put_char :: "(nat \<Rightarrow> exn option) \<Rightarrow> nat \<Rightarrow> char \<Rightarrow> (media, unit) cmd" where
  "put_char W i ch = seq (system_call W)
     (change (\<lambda>c. c\<lparr>dk_text := fmupd i ((case fmlookup (dk_text c) i of None \<Rightarrow> [] | Some x \<Rightarrow> x) @ [ch]) (dk_text c),
        dk_safe := dk_safe c |-| {|i|}\<rparr>))"

definition sync_file :: "(nat \<Rightarrow> exn option) \<Rightarrow> nat \<Rightarrow> (media, unit) cmd" where
  "sync_file W i = seq (system_call W) (change (\<lambda>c. c\<lparr>dk_safe := finsert i (dk_safe c)\<rparr>))"

definition replace_name :: "(nat \<Rightarrow> exn option) \<Rightarrow> string \<Rightarrow> string \<Rightarrow> (media, unit) cmd" where
  "replace_name W tmp p = seq (system_call W)
     (change (\<lambda>c. set_name tmp None (set_name p (fmlookup (dk_names c) tmp) c)))"

definition sync_directory :: "(nat \<Rightarrow> exn option) \<Rightarrow> (media, unit) cmd" where
  "sync_directory W = seq (system_call W) (change (\<lambda>c. c\<lparr>dk_may := fmempty\<rparr>))"

definition drop_temp :: "(nat \<Rightarrow> exn option) \<Rightarrow> string \<Rightarrow> (media, unit) cmd" where
  "drop_temp W tmp = bnd (gets (\<lambda>m. fmlookup (dk_names (md_now m)) tmp)) (\<lambda>e.
     if e = None then ret () else seq (system_call W) (change (set_name tmp None)))"

text \<open>\<open>try: ... finally: ...\<close>\<close>

definition finally_do :: "('s, 'a) cmd \<Rightarrow> ('s, unit) cmd \<Rightarrow> ('s, 'a) cmd" where
  "finally_do m k s = (case m s of (r, s1) \<Rightarrow> (case k s1 of (q, s2) \<Rightarrow> (case q of Inl e \<Rightarrow> (Inl e, s2) | Inr u \<Rightarrow> (r, s2))))"

lemma wp_finally [wp_rules]:
  "wp (finally_do m k) Q s = wp m (\<lambda>r s1. wp k (\<lambda>q s2. (\<forall>e. q = Inl e \<longrightarrow> Q (Inl e) s2) \<and> (q = Inr () \<longrightarrow> Q r s2)) s1) s"
  by (auto simp: wp_def finally_do_def split: prod.splits sum.splits)

definition atomic_write :: "(nat \<Rightarrow> exn option) \<Rightarrow> string \<Rightarrow> nat \<Rightarrow> string \<Rightarrow> string \<Rightarrow> (media, unit) cmd" where
  "atomic_write W tmp i p body =
     seq (system_call W)
     (seq (make_temp W tmp i)
     (finally_do
        (seq (for_each body (put_char W i))
        (seq (sync_file W i)
        (seq (replace_name W tmp p)
        (sync_directory W))))
        (drop_temp W tmp)))"

subsection \<open>At every instant\<close>

definition cache_ok :: "cache \<Rightarrow> bool" where
  "cache_ok c \<longleftrightarrow> (\<forall>q. fmlookup (dk_names c) q \<in> set (entries c q))"

text \<open>What holds while \<open>body\<close> is being written to the new file \<open>i\<close> under the name \<open>tmp\<close> and moved to \<open>p\<close>.\<close>

definition writing :: "cache \<Rightarrow> string \<Rightarrow> nat \<Rightarrow> string \<Rightarrow> string \<Rightarrow> cache \<Rightarrow> bool" where
  "writing c0 tmp i p body c \<longleftrightarrow> cache_ok c \<and>
     (\<forall>j. j \<noteq> i \<longrightarrow> fmlookup (dk_text c) j = fmlookup (dk_text c0) j \<and> (j |\<in>| dk_safe c \<longleftrightarrow> j |\<in>| dk_safe c0)) \<and>
     (\<forall>q. q \<noteq> tmp \<longrightarrow> q \<noteq> p \<longrightarrow> set (entries c q) \<subseteq> set (entries c0 q) \<and> fmlookup (dk_names c) q = fmlookup (dk_names c0) q) \<and>
     (fmlookup (dk_names c) p = fmlookup (dk_names c0) p \<and> set (entries c p) \<subseteq> set (entries c0 p) \<or>
      fmlookup (dk_names c) p = Some i \<and> set (entries c p) \<subseteq> insert (Some i) (set (entries c0 p)) \<and>
        i |\<in>| dk_safe c \<and> fmlookup (dk_text c) i = Some body)"

definition always :: "(cache \<Rightarrow> bool) \<Rightarrow> media \<Rightarrow> bool" where
  "always P m \<longleftrightarrow> P (md_now m) \<and> list_all P (md_past m)"

lemma entries_set_name [simp]:
  "entries (set_name q e c) r = (if r = q then e # entries c q else entries c r)"
  by (auto simp: entries_def set_name_def split: option.split)

lemma names_set_name [simp]:
  "fmlookup (dk_names (set_name q e c)) r = (if r = q then e else fmlookup (dk_names c) r)"
  by (auto simp: set_name_def split: option.split)

lemma set_name_rest [simp]: "dk_text (set_name q e c) = dk_text c" "dk_safe (set_name q e c) = dk_safe c"
  by (simp_all add: set_name_def)

lemma entries_update [simp]:
  "entries (c\<lparr>dk_text := x\<rparr>) q = entries c q" "entries (c\<lparr>dk_safe := y\<rparr>) q = entries c q"
  "entries (c\<lparr>dk_may := fmempty\<rparr>) q = [fmlookup (dk_names c) q]"
  by (simp_all add: entries_def split: option.split)

lemma cache_ok_changes [simp]:
  "cache_ok c \<Longrightarrow> cache_ok (set_name q e c)"
  "cache_ok (c\<lparr>dk_text := x\<rparr>) = cache_ok c" "cache_ok (c\<lparr>dk_safe := y\<rparr>) = cache_ok c"
  "cache_ok (c\<lparr>dk_may := fmempty\<rparr>)"
  by (auto simp: cache_ok_def)

lemma wp_change [wp_rules]:
  "wp (change f) Q m = Q (Inr ()) (m\<lparr>md_now := f (md_now m), md_past := md_now m # md_past m\<rparr>)"
  by (simp add: change_def wp_rules)

lemma wp_system_call [wp_rules]:
  "wp (system_call W) Q m = Q (case W (md_calls m) of None \<Rightarrow> Inr () | Some e \<Rightarrow> Inl e) (m\<lparr>md_calls := Suc (md_calls m)\<rparr>)"
  by (auto simp: system_call_def wp_rules split: option.split)

lemma always_change: "always P m \<Longrightarrow> P (f (md_now m)) \<Longrightarrow> always P (m\<lparr>md_now := f (md_now m), md_past := md_now m # md_past m\<rparr>)"
  by (simp add: always_def)

lemma always_calls [simp]: "always P (m\<lparr>md_calls := n\<rparr>) = always P m"
  by (simp add: always_def)

text \<open>The temporary file holds \<open>d\<close> so far and \<open>p\<close> is untouched.\<close>

definition staged :: "cache \<Rightarrow> string \<Rightarrow> nat \<Rightarrow> string \<Rightarrow> string \<Rightarrow> string \<Rightarrow> cache \<Rightarrow> bool" where
  "staged c0 tmp i p body d c \<longleftrightarrow> writing c0 tmp i p body c \<and> fmlookup (dk_names c) tmp = Some i \<and>
     fmlookup (dk_text c) i = Some d \<and> fmlookup (dk_names c) p = fmlookup (dk_names c0) p \<and>
     set (entries c p) \<subseteq> set (entries c0 p)"

definition in_stage :: "cache \<Rightarrow> string \<Rightarrow> nat \<Rightarrow> string \<Rightarrow> string \<Rightarrow> string \<Rightarrow> media \<Rightarrow> bool" where
  "in_stage c0 tmp i p body d m \<longleftrightarrow> always (writing c0 tmp i p body) m \<and> staged c0 tmp i p body d (md_now m)"

lemma in_stage_calls [simp]: "in_stage c0 tmp i p body d (m\<lparr>md_calls := n\<rparr>) = in_stage c0 tmp i p body d m"
  by (simp add: in_stage_def)

lemma wp_make_temp:
  assumes "tmp \<noteq> p" and "cache_ok c0" and "always (\<lambda>c. c = c0) m"
  shows "wp (make_temp W tmp i) (\<lambda>r m'. always (writing c0 tmp i p body) m' \<and> (r = Inr () \<longrightarrow> in_stage c0 tmp i p body [] m')) m"
  using assms
  by (auto simp: make_temp_def wp_rules always_def list_all_iff in_stage_def staged_def writing_def cache_ok_def split: option.splits)

lemma staged_put:
  assumes "staged c0 tmp i p body d c"
  shows "staged c0 tmp i p body (d @ [ch])
    (c\<lparr>dk_text := fmupd i ((case fmlookup (dk_text c) i of None \<Rightarrow> [] | Some x \<Rightarrow> x) @ [ch]) (dk_text c), dk_safe := dk_safe c |-| {|i|}\<rparr>)"
  using assms by (auto simp: staged_def writing_def)

lemma wp_put_char:
  assumes "in_stage c0 tmp i p body d m"
  shows "wp (put_char W i ch) (\<lambda>r m'. always (writing c0 tmp i p body) m' \<and> (r = Inr () \<longrightarrow> in_stage c0 tmp i p body (d @ [ch]) m')) m"
proof -
  have s: "staged c0 tmp i p body d (md_now m)" and a: "always (writing c0 tmp i p body) m" using assms by (simp_all add: in_stage_def)
  note n = staged_put [OF s, of ch]
  then have w: "writing c0 tmp i p body (md_now m\<lparr>dk_text :=
     fmupd i ((case fmlookup (dk_text (md_now m)) i of None \<Rightarrow> [] | Some x \<Rightarrow> x) @ [ch]) (dk_text (md_now m)),
     dk_safe := dk_safe (md_now m) |-| {|i|}\<rparr>)" unfolding staged_def by blast
  show ?thesis unfolding put_char_def
    using a w n by (simp only: wp_rules) (simp add: in_stage_def always_def split: option.split)
qed

lemma wp_put_all:
  assumes "in_stage c0 tmp i p body d m"
  shows "wp (for_each xs (put_char W i)) (\<lambda>r m'. always (writing c0 tmp i p body) m' \<and> (r = Inr () \<longrightarrow> in_stage c0 tmp i p body (d @ xs) m')) m"
  using assms
proof (induction xs arbitrary: d m)
  case Nil
  then show ?case by (simp add: wp_rules in_stage_def)
next
  case (Cons ch xs)
  show ?case unfolding for_each.simps wp_seq
    by (rule wp_mono [OF wp_put_char [OF Cons.prems]]) (use Cons.IH [where d = "d @ [ch]"] in auto)
qed

lemma staged_sync: "staged c0 tmp i p body d c \<Longrightarrow> staged c0 tmp i p body d (c\<lparr>dk_safe := finsert i (dk_safe c)\<rparr>)"
  by (auto simp: staged_def writing_def)

lemma staged_replace:
  assumes "staged c0 tmp i p body body c" and "i |\<in>| dk_safe c" and "tmp \<noteq> p"
  shows "writing c0 tmp i p body (set_name tmp None (set_name p (fmlookup (dk_names c) tmp) c))"
  using assms by (auto simp: staged_def writing_def)

lemma writing_sync:
  assumes w: "writing c0 tmp i p body c"
  shows "writing c0 tmp i p body (c\<lparr>dk_may := fmempty\<rparr>)"
proof -
  have "cache_ok c" using w by (simp add: writing_def)
  then have m: "fmlookup (dk_names c) q \<in> set (entries c q)" for q by (simp add: cache_ok_def)
  have "fmlookup (dk_names c) q \<in> set (entries c0 q)" if "q \<noteq> tmp" "q \<noteq> p" for q
    using w m [of q] that unfolding writing_def by (meson subsetD)
  moreover have "fmlookup (dk_names c) p \<in> set (entries c0 p)" if "set (entries c p) \<subseteq> set (entries c0 p)"
    using m [of p] that by blast
  ultimately show ?thesis using w unfolding writing_def by auto
qed

lemma writing_drop: "writing c0 tmp i p body c \<Longrightarrow> tmp \<noteq> p \<Longrightarrow> writing c0 tmp i p body (set_name tmp None c)"
  by (auto simp: writing_def)

lemma wp_sync_file:
  assumes "in_stage c0 tmp i p body d m"
  shows "wp (sync_file W i) (\<lambda>r m'. always (writing c0 tmp i p body) m' \<and>
     (r = Inr () \<longrightarrow> in_stage c0 tmp i p body d m' \<and> i |\<in>| dk_safe (md_now m'))) m"
  using assms staged_sync [of c0 tmp i p body d "md_now m"]
  by (simp add: sync_file_def wp_rules in_stage_def always_def staged_def split: option.split)

lemma wp_replace_name:
  assumes "in_stage c0 tmp i p body body m" and "i |\<in>| dk_safe (md_now m)" and "tmp \<noteq> p"
  shows "wp (replace_name W tmp p) (\<lambda>r m'. always (writing c0 tmp i p body) m' \<and>
     (r = Inr () \<longrightarrow> fmlookup (dk_names (md_now m')) tmp = None \<and> fmlookup (dk_names (md_now m')) p = Some i)) m"
  using assms staged_replace [of c0 tmp i p body "md_now m"]
  by (simp add: replace_name_def wp_rules in_stage_def always_def staged_def split: option.split)

lemma wp_sync_directory:
  assumes "always (writing c0 tmp i p body) m"
  shows "wp (sync_directory W) (\<lambda>r m'. always (writing c0 tmp i p body) m' \<and> dk_names (md_now m') = dk_names (md_now m) \<and>
     (r = Inr () \<longrightarrow> dk_may (md_now m') = fmempty)) m"
  using assms writing_sync [of c0 tmp i p body "md_now m"]
  by (simp add: sync_directory_def wp_rules always_def split: option.split)

lemma wp_drop_temp:
  assumes "always (writing c0 tmp i p body) m" and "tmp \<noteq> p"
  shows "wp (drop_temp W tmp) (\<lambda>r m'. always (writing c0 tmp i p body) m' \<and>
     (fmlookup (dk_names (md_now m)) tmp = None \<longrightarrow> r = Inr () \<and> m' = m) \<and>
     (r = Inr () \<longrightarrow> fmlookup (dk_names (md_now m')) tmp = None)) m"
  using assms writing_drop [of c0 tmp i p body "md_now m"]
  by (auto simp add: drop_temp_def wp_rules always_def split: option.split)

lemma writing_refl: "cache_ok c0 \<Longrightarrow> writing c0 tmp i p body c0"
  by (simp add: writing_def)

text \<open>The whole of \<open>atomic_write\<close>: at every instant \<open>writing\<close>, and after success the name is settled.\<close>

lemma wp_atomic_write:
  assumes "tmp \<noteq> p" and "cache_ok c0" and "always (\<lambda>c. c = c0) m"
  shows "wp (atomic_write W tmp i p body) (\<lambda>r m'. always (writing c0 tmp i p body) m' \<and>
     (r = Inr () \<longrightarrow> fmlookup (dk_names (md_now m')) p = Some i \<and> dk_may (md_now m') = fmempty \<and>
        fmlookup (dk_names (md_now m')) tmp = None)) m"
proof -
  let ?I = "\<lambda>m'. always (writing c0 tmp i p body) m'"
  let ?settled = "\<lambda>m'. fmlookup (dk_names (md_now m')) p = Some i \<and> dk_may (md_now m') = fmempty \<and> fmlookup (dk_names (md_now m')) tmp = None"
  have body: "wp (seq (for_each body (put_char W i)) (seq (sync_file W i) (seq (replace_name W tmp p) (sync_directory W))))
      (\<lambda>r m'. ?I m' \<and> (r = Inr () \<longrightarrow> ?settled m')) u" if u: "in_stage c0 tmp i p body [] u" for u
    unfolding wp_seq
    apply (rule wp_mono [OF wp_put_all [OF u]], clarsimp)
    apply (rule wp_mono [OF wp_sync_file], assumption, clarsimp)
    apply (rule wp_mono [OF wp_replace_name [OF _ _ assms(1)]], assumption, assumption, clarsimp)
    by (rule wp_mono [OF wp_sync_directory], assumption, clarsimp)
  have all: "wp (finally_do (seq (for_each body (put_char W i)) (seq (sync_file W i) (seq (replace_name W tmp p) (sync_directory W)))) (drop_temp W tmp))
      (\<lambda>r m'. ?I m' \<and> (r = Inr () \<longrightarrow> ?settled m')) u" if u: "in_stage c0 tmp i p body [] u" for u
    unfolding wp_finally
    apply (rule wp_mono [OF body [OF u]], clarsimp)
    by (rule wp_mono [OF wp_drop_temp [OF _ assms(1)]], assumption, auto)
  have tail: "wp (seq (make_temp W tmp i) (finally_do (seq (for_each body (put_char W i)) (seq (sync_file W i)
        (seq (replace_name W tmp p) (sync_directory W)))) (drop_temp W tmp)))
      (\<lambda>r m'. ?I m' \<and> (r = Inr () \<longrightarrow> ?settled m')) u" if u: "always (\<lambda>c. c = c0) u" for u
    unfolding wp_seq
    by (rule wp_mono [OF wp_make_temp [OF assms(1,2) u]]) (use all in auto)
  have start: "?I (m\<lparr>md_calls := n\<rparr>)" for n
    using assms(2,3) by (auto simp: always_def list_all_iff writing_refl)
  show ?thesis unfolding atomic_write_def
    apply (subst wp_seq, subst wp_system_call)
    apply (cases "W (md_calls m)")
     apply (simp, rule tail, use assms(3) in simp)
    using start by simp
qed

text \<open>A name is settled when a power failure cannot change what it shows.\<close>

definition settled :: "cache \<Rightarrow> string \<Rightarrow> bool" where
  "settled c q \<longleftrightarrow> (case entries c q of [None] \<Rightarrow> fmlookup (dk_names c) q = None
     | [Some i] \<Rightarrow> fmlookup (dk_names c) q = Some i \<and> i |\<in>| dk_safe c \<and> fmlookup (dk_text c) i \<noteq> None | _ \<Rightarrow> False)"

lemma settled_iff:
  "settled c q \<longleftrightarrow> entries c q = [fmlookup (dk_names c) q] \<and>
     (\<forall>i. fmlookup (dk_names c) q = Some i \<longrightarrow> i |\<in>| dk_safe c \<and> fmlookup (dk_text c) i \<noteq> None)"
  by (auto simp: settled_def split: list.splits option.splits)

lemma settled_holds: "settled c q \<Longrightarrow> may_hold c q v \<longleftrightarrow> v = shows_text c q"
  by (auto simp: settled_iff may_hold_def shows_text_def split: option.splits)

text \<open>A new file is known under no name.\<close>

definition fresh_file :: "cache \<Rightarrow> nat \<Rightarrow> bool" where
  "fresh_file c i \<longleftrightarrow> i |\<notin>| fmran (dk_names c) \<and> (\<forall>es. es |\<in>| fmran (dk_may c) \<longrightarrow> Some i \<notin> set es)"

lemma fresh_entries: "fresh_file c i \<Longrightarrow> Some i \<notin> set (entries c q)"
  by (auto simp: fresh_file_def entries_def fmranI split: option.splits)

text \<open>C8: A durable JSON write is all or nothing under a power failure between any two system calls. Whatever
  call fails, at every instant the name shows the old text or the whole new one, and so would it after a
  power failure there; no other name than the temporary one is touched; and once the write has
  returned, the new text is on the disk for good and the temporary name is gone.\<close>

theorem atomic_write_durable:
  assumes run: "atomic_write W tmp i p body m = (r, m')" and start: "md_past m = []" "cache_ok (md_now m)"
    and names: "tmp \<noteq> p" "fresh_file (md_now m) i" and old: "settled (md_now m) p"
  shows "(\<forall>c\<in>set (md_now m' # md_past m').
       shows_text c p \<in> {shows_text (md_now m) p, Some body} \<and>
       (\<forall>v. may_hold c p v \<longrightarrow> v \<in> {shows_text (md_now m) p, Some body}) \<and>
       (\<forall>q v. q \<noteq> p \<longrightarrow> q \<noteq> tmp \<longrightarrow> may_hold c q v \<longrightarrow> may_hold (md_now m) q v)) \<and>
     (r = Inr () \<longrightarrow> settled (md_now m') p \<and> shows_text (md_now m') p = Some body \<and> shows_text (md_now m') tmp = None)"
proof -
  let ?c0 = "md_now m"
  have "always (\<lambda>c. c = ?c0) m" using start(1) by (simp add: always_def)
  from wpD [OF wp_atomic_write [OF names(1) start(2) this] run]
  have w: "always (writing ?c0 tmp i p body) m'"
    and fin: "r = Inr () \<Longrightarrow> fmlookup (dk_names (md_now m')) p = Some i \<and> dk_may (md_now m') = fmempty \<and>
        fmlookup (dk_names (md_now m')) tmp = None" by auto
  note unused = fresh_entries [OF names(2)]
  have p0: "entries ?c0 p = [fmlookup (dk_names ?c0) p]"
    "\<And>j. fmlookup (dk_names ?c0) p = Some j \<Longrightarrow> j |\<in>| dk_safe ?c0 \<and> fmlookup (dk_text ?c0) j \<noteq> None"
    using old by (simp_all add: settled_iff)
  have ni: "fmlookup (dk_names ?c0) p \<noteq> Some i" using unused [of p] p0(1) by simp
  have one: "shows_text c p \<in> {shows_text ?c0 p, Some body} \<and>
      (\<forall>v. may_hold c p v \<longrightarrow> v \<in> {shows_text ?c0 p, Some body}) \<and>
      (\<forall>q v. q \<noteq> p \<longrightarrow> q \<noteq> tmp \<longrightarrow> may_hold c q v \<longrightarrow> may_hold ?c0 q v)" if c: "writing ?c0 tmp i p body c" for c
  proof (intro conjI allI impI)
    have same: "j \<noteq> i \<Longrightarrow> fmlookup (dk_text c) j = fmlookup (dk_text ?c0) j \<and> (j |\<in>| dk_safe c \<longleftrightarrow> j |\<in>| dk_safe ?c0)" for j
      using c by (simp add: writing_def)
    show "shows_text c p \<in> {shows_text ?c0 p, Some body}"
      using c ni same by (auto simp: writing_def shows_text_def split: option.splits)
    show "v \<in> {shows_text ?c0 p, Some body}" if "may_hold c p v" for v
    proof -
      from that obtain e where e: "e \<in> set (entries c p)"
        "case e of None \<Rightarrow> v = None | Some j \<Rightarrow> v \<noteq> None \<and> (j |\<in>| dk_safe c \<longrightarrow> fmlookup (dk_text c) j = v)"
        by (auto simp: may_hold_def list_ex_iff)
      show ?thesis
      proof (cases "e = Some i")
        case True
        then have "e \<notin> set (entries ?c0 p)" using unused by blast
        then have "i |\<in>| dk_safe c \<and> fmlookup (dk_text c) i = Some body" using c e(1) by (auto simp: writing_def)
        then show ?thesis using e(2) True by simp
      next
        case False
        then have "e = fmlookup (dk_names ?c0) p" using c e(1) p0(1) by (auto simp: writing_def)
        then have n: "fmlookup (dk_names ?c0) p = e" by simp
        then show ?thesis using e(2) p0(2) False same by (cases e) (auto simp: shows_text_def n)
      qed
    qed
    show "may_hold ?c0 q v" if "q \<noteq> p" "q \<noteq> tmp" "may_hold c q v" for q v
    proof -
      have sub: "set (entries c q) \<subseteq> set (entries ?c0 q)" using c that by (simp add: writing_def)
      then have "j \<noteq> i" if "Some j \<in> set (entries c q)" for j using unused [of q] that by blast
      then show ?thesis using that(3) sub same unfolding may_hold_def list_ex_iff
        by (fastforce split: option.splits)
    qed
  qed
  have "\<forall>c\<in>set (md_now m' # md_past m'). writing ?c0 tmp i p body c" using w by (simp add: always_def list_all_iff)
  moreover have "settled (md_now m') p \<and> shows_text (md_now m') p = Some body \<and> shows_text (md_now m') tmp = None" if "r = Inr ()"
  proof -
    have "writing ?c0 tmp i p body (md_now m')" using w by (simp add: always_def)
    then have "i |\<in>| dk_safe (md_now m') \<and> fmlookup (dk_text (md_now m')) i = Some body"
      using fin [OF that] ni by (auto simp: writing_def)
    then show ?thesis using fin [OF that] by (simp add: settled_iff entries_def shows_text_def)
  qed
  ultimately show ?thesis using one by blast
qed

theorem atomic_write_durable_witness:
  "\<exists>m'. atomic_write (\<lambda>n. if n = 7 then Some (OSError ''sync'') else None) ''.a'' 2 ''a'' ''new''
       \<lparr>md_now = \<lparr>dk_names = fmap_of_list [(''a'', 1)], dk_may = fmempty, dk_text = fmap_of_list [(1, ''old'')], dk_safe = {|1|}\<rparr>,
        md_past = [], md_calls = 0\<rparr> = (Inl (OSError ''sync''), m') \<and>
     shows_text (md_now m') ''a'' = Some ''new'' \<and> length (md_past m') = 6 \<and>
     list_all (\<lambda>c. \<not> may_hold c ''a'' (Some ''ne'') \<and> \<not> may_hold c ''a'' None) (md_now m' # md_past m')"
proof -
  let ?c = "\<lparr>dk_names = fmap_of_list [(''a'', 1)], dk_may = fmempty, dk_text = fmap_of_list [(1, ''old'')], dk_safe = {|1|}\<rparr>"
  let ?m = "\<lparr>md_now = ?c, md_past = [], md_calls = 0\<rparr>"
  let ?W = "\<lambda>n. if n = (7::nat) then Some (OSError ''sync'') else None"
  have e: "fst (atomic_write ?W ''.a'' 2 ''a'' ''new'' ?m) = Inl (OSError ''sync'')"
    "shows_text (md_now (snd (atomic_write ?W ''.a'' 2 ''a'' ''new'' ?m))) ''a'' = Some ''new''"
    "length (md_past (snd (atomic_write ?W ''.a'' 2 ''a'' ''new'' ?m))) = 6" by code_simp+
  obtain r m' where run: "atomic_write ?W ''.a'' 2 ''a'' ''new'' ?m = (r, m')" by (cases "atomic_write ?W ''.a'' 2 ''a'' ''new'' ?m")
  have r: "r = Inl (OSError ''sync'')" and t: "shows_text (md_now m') ''a'' = Some ''new''" and l: "length (md_past m') = 6"
    using e unfolding run by simp_all
  have p: "md_past ?m = []" by (simp only: media.select_convs)
  have o1: "cache_ok (md_now ?m)" by (simp add: cache_ok_def entries_def del: fmap_of_list_simps)
  have o2: "fresh_file (md_now ?m) 2" by (auto simp: fresh_file_def fmlookup_ran_iff fmap_of_list.rep_eq split: if_splits)
  have o3: "settled (md_now ?m) ''a''" and o4: "shows_text (md_now ?m) ''a'' = Some ''old''" and o5: "''.a'' \<noteq> ''a''" by code_simp+
  have "\<forall>c\<in>set (md_now m' # md_past m'). \<forall>v. may_hold c ''a'' v \<longrightarrow> v \<in> {Some ''old'', Some ''new''}"
    using atomic_write_durable [OF run p o1 o5 o2 o3] unfolding o4 by blast
  then have "list_all (\<lambda>c. \<not> may_hold c ''a'' (Some ''ne'') \<and> \<not> may_hold c ''a'' None) (md_now m' # md_past m')"
    unfolding list_all_iff by force
  then show ?thesis using run r t l by blast
qed

subsection \<open>The polling lock\<close>

text \<open>
  \<open>exclusive_lock\<close>: what each \<open>flock\<close> answers, and the readings of the monotonic clock. The first
  reading sets the deadline; a refused attempt reads it once to compare and once for the length of its sleep.
\<close>

datatype flock = Granted | Held | Broken

datatype locking = Locked nat | Lock_Busy nat | Lock_Error nat

record lock_view =
  lk_flock :: "nat \<Rightarrow> flock"
  lk_clock :: "nat \<Rightarrow> rat"

definition lock_compares :: "lock_view \<Rightarrow> nat \<Rightarrow> rat" where
  "lock_compares L n = lk_clock L (Suc (2 * n))"

definition lock_sleep :: "lock_view \<Rightarrow> rat \<Rightarrow> nat \<Rightarrow> rat" where
  "lock_sleep L deadline n = min (1 / 20) (max 0 (deadline - lk_clock L (2 * n + 2)))"

fun lock_loop :: "nat \<Rightarrow> lock_view \<Rightarrow> bool \<Rightarrow> rat \<Rightarrow> nat \<Rightarrow> locking option" where
  "lock_loop 0 L blocking deadline n = None"
| "lock_loop (Suc k) L blocking deadline n = (case lk_flock L n of
     Granted \<Rightarrow> Some (Locked n)
   | Broken \<Rightarrow> Some (Lock_Error n)
   | Held \<Rightarrow> if \<not> blocking \<or> lock_compares L n \<ge> deadline then Some (Lock_Busy n)
             else lock_loop k L blocking deadline (Suc n))"

definition exclusive_lock :: "nat \<Rightarrow> lock_view \<Rightarrow> bool \<Rightarrow> rat \<Rightarrow> locking option res" where
  "exclusive_lock k L blocking timeout =
     (if timeout < 0 then Inl (ValueError ''lock timeout must be finite and nonnegative'')
      else Inr (lock_loop k L blocking (lk_clock L 0 + timeout) 0))"

text \<open>\<open>single_reconciler\<close>: one attempt.\<close>

definition single_reconciler :: "lock_view \<Rightarrow> locking option res" where
  "single_reconciler L = exclusive_lock 1 L False 10"

text \<open>Sleeping takes at least as long as asked, and the clock does not run backwards.\<close>

definition clock_advances :: "lock_view \<Rightarrow> rat \<Rightarrow> bool" where
  "clock_advances L deadline \<longleftrightarrow> (\<forall>n. lk_clock L n \<le> lk_clock L (Suc n)) \<and>
     (\<forall>n. lk_clock L (2 * n + 2) + lock_sleep L deadline n \<le> lock_compares L (Suc n))"

lemma lock_compares_bound:
  assumes "clock_advances L deadline"
  shows "min deadline (lk_clock L 0 + of_nat n / 20) \<le> lock_compares L n"
proof (induction n)
  case 0
  have "lk_clock L 0 \<le> lk_clock L (Suc 0)" using assms by (simp add: clock_advances_def)
  then show ?case by (simp add: lock_compares_def)
next
  case (Suc n)
  let ?t = "lk_clock L (2 * n + 2)"
  have "lock_compares L n \<le> ?t" using assms unfolding clock_advances_def lock_compares_def
    by (metis add_2_eq_Suc')
  moreover have "?t + lock_sleep L deadline n \<le> lock_compares L (Suc n)" using assms by (simp add: clock_advances_def)
  moreover have "?t + 1 / 20 \<le> ?t + lock_sleep L deadline n \<or> deadline \<le> ?t + lock_sleep L deadline n"
    by (auto simp: lock_sleep_def min_def max_def)
  moreover have "lk_clock L 0 + of_nat (Suc n) / 20 = lk_clock L 0 + of_nat n / 20 + (1 / 20 :: rat)"
    by (simp add: field_simps)
  moreover have "deadline \<le> lock_compares L n \<or> lk_clock L 0 + of_nat n / 20 \<le> lock_compares L n"
    using Suc.IH by (auto simp: min_def split: if_splits)
  moreover have "0 \<le> lock_sleep L deadline n" by (simp add: lock_sleep_def)
  ultimately have "deadline \<le> lock_compares L (Suc n) \<or> lk_clock L 0 + of_nat (Suc n) / 20 \<le> lock_compares L (Suc n)"
    by linarith
  then show ?case by (simp add: min_le_iff_disj)
qed

lemma lock_loop_ends:
  assumes "clock_advances L deadline" and "deadline \<le> lk_clock L 0 + of_nat (n + k) / 20"
  shows "lock_loop (Suc k) L b deadline n \<noteq> None"
  using assms(2)
proof (induction k arbitrary: n)
  case 0
  then have "deadline \<le> lock_compares L n" using lock_compares_bound [OF assms(1), of n] by simp
  then show ?case by (simp split: flock.split)
next
  case (Suc k)
  have "lock_loop (Suc k) L b deadline (Suc n) \<noteq> None" using Suc.IH [of "Suc n"] Suc.prems by simp
  then show ?case by (subst lock_loop.simps) (auto split: flock.split)
qed

lemma lock_loop_result:
  "lock_loop k L b deadline n = Some r \<Longrightarrow>
   (case r of
      Locked j \<Rightarrow> n \<le> j \<and> lk_flock L j = Granted
    | Lock_Error j \<Rightarrow> n \<le> j \<and> lk_flock L j = Broken
    | Lock_Busy j \<Rightarrow> n \<le> j \<and> lk_flock L j = Held \<and> (\<not> b \<and> j = n \<or> deadline \<le> lock_compares L j)) \<and>
   (\<forall>i. n \<le> i \<longrightarrow> i < (case r of Locked j \<Rightarrow> j | Lock_Error j \<Rightarrow> j | Lock_Busy j \<Rightarrow> j) \<longrightarrow> lk_flock L i = Held)"
proof (induction k arbitrary: n)
  case (Suc k)
  show ?case
  proof (cases "lk_flock L n")
    case Held
    show ?thesis
    proof (cases "\<not> b \<or> lock_compares L n \<ge> deadline")
      case True
      then show ?thesis using Suc.prems Held by auto
    next
      case False
      then have "lock_loop k L b deadline (Suc n) = Some r" using Suc.prems Held by simp
      from Suc.IH [OF this] Held False show ?thesis
        by (auto split: locking.splits dest: Suc_leD) (metis le_neq_implies_less not_less_eq_eq less_eq_Suc_le)+
    qed
  qed (use Suc.prems in auto)
qed simp

text \<open>
  Acquiring the lock ends: twenty attempts a second suffice up to the timeout. It ends with the first attempt
  the system grants, with an error of the system, or busy, and a blocking caller is told busy only when the
  deadline is over.
\<close>

theorem lock_returns:
  assumes "0 \<le> timeout" and "timeout \<le> of_nat k / 20" and "clock_advances L (lk_clock L 0 + timeout)"
  shows "\<exists>r. exclusive_lock (Suc k) L b timeout = Inr (Some r) \<and>
    (case r of
       Locked j \<Rightarrow> lk_flock L j = Granted \<and> (\<forall>i<j. lk_flock L i = Held)
     | Lock_Error j \<Rightarrow> lk_flock L j = Broken
     | Lock_Busy j \<Rightarrow> (\<forall>i\<le>j. lk_flock L i = Held) \<and> (\<not> b \<and> j = 0 \<or> lk_clock L 0 + timeout \<le> lock_compares L j))"
proof -
  have "lock_loop (Suc k) L b (lk_clock L 0 + timeout) 0 \<noteq> None"
    by (rule lock_loop_ends [OF assms(3)]) (use assms(2) in simp)
  then obtain r where r: "lock_loop (Suc k) L b (lk_clock L 0 + timeout) 0 = Some r" by blast
  have x: "exclusive_lock (Suc k) L b timeout = Inr (Some r)"
    using assms(1) r by (simp add: exclusive_lock_def del: lock_loop.simps)
  have all: "(\<forall>i\<le>j. lk_flock L i = Held)" if "\<forall>i<j. lk_flock L i = Held" "lk_flock L j = Held" for j
    using that by (metis le_neq_implies_less)
  show ?thesis unfolding x using lock_loop_result [OF r] all by (cases r) (simp_all, blast)
qed

end
