(* ===== verification/Workers.thy ===== *)
theory Workers
  imports Process Executor
begin

text \<open>
  Worker processes and the files that identify them, as both real executors keep them: a JSON state
  file per worker, a pid file that names one attempt, a receipt. The environment gives the instants'
  process tables and boots, the failures of system calls and the processes that come out of a start; an
  operation runs on one host and looks at it at its own instants.
\<close>

subsection \<open>The environment\<close>

text \<open>A process that was started: for which worker and attempt, under which recorded identity, and when.\<close>

record proc =
  pr_worker :: string
  pr_attempt :: string
  pr_pid :: int
  pr_start :: int
  pr_identity :: dict
  pr_born :: nat

text \<open>\<open>en_boot n t\<close> and \<open>en_table n t\<close> are the boot id and the process table, at instant \<open>t\<close>, of the host
  that operation \<open>n\<close> runs on, so that a host may boot again between any two instants;
  \<open>en_torn\<close> is how much of a text reaches the file when its writing fails.\<close>

record station =
  en_host :: "nat \<Rightarrow> string"
  en_boot :: "nat \<Rightarrow> nat \<Rightarrow> string option"
  en_ns :: "nat \<Rightarrow> string option"
  en_table :: "nat \<Rightarrow> nat \<Rightarrow> string \<Rightarrow> string seen"
  en_fails :: "nat \<Rightarrow> exn option"
  en_torn :: "nat \<Rightarrow> nat"
  en_uuid :: "nat \<Rightarrow> string"
  en_spawn :: "nat \<Rightarrow> int \<times> int"
  en_alive :: "nat \<Rightarrow> proc \<Rightarrow> bool"
  en_json :: "string \<Rightarrow> json option"
  en_sha :: "string \<Rightarrow> string"
  en_isdir :: "string \<Rightarrow> bool"

text \<open>The files, by path: a state file that cannot be read is \<open>None\<close>. \<open>ag_procs\<close> are all processes ever
  started, \<open>ag_signals\<close> the processes a signal was sent to.\<close>

record agents =
  ag_op :: nat
  ag_t :: nat
  ag_docs :: "(string, json option) fmap"
  ag_texts :: "(string, string) fmap"
  ag_procs :: "proc list"
  ag_signals :: "int list"

definition text_at :: "agents \<Rightarrow> string \<Rightarrow> string seen" where
  "text_at a p = (case fmlookup (ag_texts a) p of Some s \<Rightarrow> Seen s | None \<Rightarrow> Gone)"

definition machine_now :: "station \<Rightarrow> agents \<Rightarrow> machine" where
  "machine_now E a = \<lparr>h_name = en_host E (ag_op a), h_boot = en_boot E (ag_op a) (ag_t a), h_ns = en_ns E (ag_op a),
     h_read = (\<lambda>p. if starts_with ''/proc/'' p then en_table E (ag_op a) (ag_t a) p else text_at a p)\<rparr>"

definition tick_time :: "agents \<Rightarrow> agents" where
  "tick_time a = a\<lparr>ag_t := Suc (ag_t a)\<rparr>"

definition begin_op :: "(agents, unit) cmd" where
  "begin_op = modify (\<lambda>a. (tick_time a)\<lparr>ag_op := Suc (ag_op a)\<rparr>)"

text \<open>An observation of the machine, and a step that may fail without effect.\<close>

definition observe_at :: "station \<Rightarrow> (machine \<Rightarrow> 'a res) \<Rightarrow> (agents, 'a) cmd" where
  "observe_at E f = bnd (gets (\<lambda>a. f (machine_now E a))) (\<lambda>r. seq (modify tick_time) (pure r))"

definition try_step :: "station \<Rightarrow> (agents \<Rightarrow> agents) \<Rightarrow> (agents, unit) cmd" where
  "try_step E f = bnd (gets (\<lambda>a. en_fails E (ag_t a))) (\<lambda>r. case r of
     Some e \<Rightarrow> seq (modify tick_time) (throw e)
   | None \<Rightarrow> modify (\<lambda>a. tick_time (f a)))"

definition save_doc :: "station \<Rightarrow> string \<Rightarrow> dict \<Rightarrow> (agents, unit) cmd" where
  "save_doc E p d = try_step E (\<lambda>a. a\<lparr>ag_docs := fmupd p (Some (JObj d)) (ag_docs a)\<rparr>)"

definition drop_text :: "station \<Rightarrow> string \<Rightarrow> (agents, unit) cmd" where
  "drop_text E p = try_step E (\<lambda>a. a\<lparr>ag_texts := fmdrop p (ag_texts a)\<rparr>)"

text \<open>\<open>write_text\<close> truncates and writes; when it fails, a part of the text is there.\<close>

definition put_text :: "station \<Rightarrow> string \<Rightarrow> string \<Rightarrow> (agents, unit) cmd" where
  "put_text E p s = bnd (gets (\<lambda>a. (en_fails E (ag_t a), en_torn E (ag_t a)))) (\<lambda>(r, k). case r of
     Some e \<Rightarrow> seq (modify (\<lambda>a. tick_time (a\<lparr>ag_texts := fmupd p (take k s) (ag_texts a)\<rparr>))) (throw e)
   | None \<Rightarrow> modify (\<lambda>a. tick_time (a\<lparr>ag_texts := fmupd p s (ag_texts a)\<rparr>)))"

definition new_attempt :: "station \<Rightarrow> (agents, string) cmd" where
  "new_attempt E = bnd (gets (\<lambda>a. en_uuid E (ag_t a))) (\<lambda>u. seq (modify tick_time) (ret u))"

definition popen :: "station \<Rightarrow> string \<Rightarrow> string \<Rightarrow> dict \<Rightarrow> (agents, int) cmd" where
  "popen E wid attempt identity = bnd (gets (\<lambda>a. en_spawn E (ag_t a))) (\<lambda>(pid, start).
     seq (try_step E (\<lambda>a. a\<lparr>ag_procs := \<lparr>pr_worker = wid, pr_attempt = attempt, pr_pid = pid, pr_start = start,
        pr_identity = identity, pr_born = ag_t a\<rparr> # ag_procs a\<rparr>))
     (ret pid))"

subsection \<open>What the operating system is trusted with\<close>

text \<open>
  A process that has ended stays ended. While it lives, no boot of its host but its own is running,
  and the process table of its own host and namespace has it under its pid and start time, if it can be
  read at all. Start times have fewer than 32 digits.
\<close>

definition same_host :: "dict \<Rightarrow> machine \<Rightarrow> bool" where
  "same_host i M \<longleftrightarrow> dget i ''host'' = JStr (h_name M)"

definition truthful :: "station \<Rightarrow> bool" where
  "truthful E \<longleftrightarrow> (\<forall>p t. pr_born p \<le> t \<longrightarrow> en_alive E (Suc t) p \<longrightarrow> en_alive E t p) \<and>
     (\<forall>p t n M r. en_alive E t p \<longrightarrow> pr_born p \<le> t \<longrightarrow>
        M = \<lparr>h_name = en_host E n, h_boot = en_boot E n t, h_ns = en_ns E n, h_read = r\<rparr> \<longrightarrow> same_host (pr_identity p) M \<longrightarrow>
          (truthy (dget (pr_identity p) ''boot_id'') \<longrightarrow> truthy (dget (host_identity M) ''boot_id'') \<longrightarrow>
             dget (pr_identity p) ''boot_id'' = dget (host_identity M) ''boot_id'') \<and>
          (dget (pr_identity p) ''pid_namespace'' = jopt (en_ns E n) \<longrightarrow> en_ns E n \<noteq> None \<longrightarrow>
             en_table E n t (stat_path (pr_pid p)) \<noteq> Gone \<and>
             (\<forall>s. en_table E n t (stat_path (pr_pid p)) = Seen s \<longrightarrow> start_field s = Some (pr_start p) \<and> runnable s))) \<and>
     (\<forall>n t pid s x. en_table E n t (stat_path pid) = Seen s \<longrightarrow> start_field s = Some x \<longrightarrow> length (int_str x) < 32)"

subsection \<open>Texts of pid files\<close>

definition pid_text :: "int \<Rightarrow> string \<Rightarrow> string \<Rightarrow> string" where
  "pid_text pid st attempt = int_str pid @ '' '' @ st @ '' '' @ attempt"

definition solid :: "string \<Rightarrow> bool" where
  "solid w \<longleftrightarrow> list_all (\<lambda>c. \<not> is_space c) w"

text \<open>Attempts are never repeated: texts of at least 32 characters without white space, none of them the beginning of
  another, as different 32-digit numbers are.\<close>

definition fresh_uuids :: "station \<Rightarrow> bool" where
  "fresh_uuids E \<longleftrightarrow> (\<forall>t. solid (en_uuid E t) \<and> 32 \<le> length (en_uuid E t)) \<and>
     (\<forall>i j n. take n (en_uuid E i) = en_uuid E j \<longrightarrow> i = j)"

lemma solid_take [simp]: "solid w \<Longrightarrow> solid (take k w)"
  by (auto simp: solid_def list_all_iff dest: in_set_takeD)

lemma solid_drop: "solid w \<Longrightarrow> dropWhile is_space w = w"
  by (cases w) (auto simp: solid_def)

lemma solid_strip: "solid w \<Longrightarrow> strip w = w"
proof -
  assume w: "solid w"
  then have "solid (rev w)" by (simp add: solid_def list_all_iff)
  from solid_drop [OF this] solid_drop [OF w] show ?thesis by (simp add: strip_def lstrip_def rstrip_def)
qed

lemma digits_solid: "list_all is_digit w \<Longrightarrow> solid w"
  by (auto simp: solid_def list_all_iff is_digit_def is_space_def Let_def)

lemma int_str_solid: "solid (int_str n)" "int_str n \<noteq> []"
  using digits_solid [OF nat_str_digits(1)] nat_str_digits(2)
  by (auto simp: int_str_def solid_def is_space_def)

lemma int_literal_str: "int_literal (int_str n) = Inr m \<Longrightarrow> m = n"
proof -
  assume l: "int_literal (int_str n) = Inr m"
  have f: "filter is_digit (nat_str k) = nat_str k" for k
    using nat_str_digits(1) [of k] by (simp add: list_all_iff)
  have h: "hd (nat_str k) \<noteq> CHR ''-''" for k
    using nat_str_digits(1,2) [of k] by (cases "nat_str k") (auto simp: is_digit_def)
  have nd: "\<not> is_digit (CHR ''-'')" by (simp add: is_digit_def)
  have "int_literal (int_str n) = (if fullmatch int_rx (int_str n) \<and> length (filter is_digit (int_str n)) \<le> 4300
      then Inr (if hd (int_str n) = CHR ''-'' then - int (digits_nat (filter is_digit (int_str n))) else int (digits_nat (filter is_digit (int_str n))))
      else Inl (ValueError ''invalid literal for int()''))"
    unfolding int_literal_def Let_def solid_strip [OF int_str_solid(1)] ..
  with l have m: "m = (if hd (int_str n) = CHR ''-'' then - int (digits_nat (filter is_digit (int_str n))) else int (digits_nat (filter is_digit (int_str n))))"
    by (simp split: if_splits)
  show "m = n"
  proof (cases "n < 0")
    case True
    then have "int_str n = CHR ''-'' # nat_str (nat (- n))" by (simp add: int_str_def)
    with m nd True show ?thesis by (simp add: f nat_str_digits(3))
  next
    case False
    then have "int_str n = nat_str (nat n)" by (simp add: int_str_def)
    with m h [of "nat n"] False show ?thesis by (simp add: f nat_str_digits(3))
  qed
qed

lemma split_ws_word:
  assumes "w \<noteq> []" and "list_all (\<lambda>c. \<not> is_space c) w"
  shows "split_ws w = [w]" "is_space c \<Longrightarrow> split_ws (w @ c # rest) = w # split_ws (c # rest)"
proof -
  have d: "dropWhile is_space (w @ xs) = w @ xs" for xs using assms by (cases w) auto
  have t: "takeWhile (\<lambda>c. \<not> is_space c) w = w" using assms(2) by (induction w) auto
  have u: "takeWhile (\<lambda>c. \<not> is_space c) (w @ c # rest) = w \<and> dropWhile (\<lambda>c. \<not> is_space c) (w @ c # rest) = c # rest"
    if "is_space c" using assms(2) that by (induction w) auto
  have v: "dropWhile (\<lambda>c. \<not> is_space c) w = []" using assms(2) by (induction w) auto
  have n: "split_ws [] = []" by (subst split_ws.simps) simp
  show "split_ws w = [w]" using d [of "[]"] assms(1) by (subst split_ws.simps) (simp add: t v n Let_def)
  show "split_ws (w @ c # rest) = w # split_ws (c # rest)" if "is_space c"
    using d [of "c # rest"] u [OF that] assms(1) by (subst split_ws.simps) simp
qed

lemma split_ws_space: "is_space c \<Longrightarrow> split_ws (c # rest) = split_ws rest"
  by (subst (1 2) split_ws.simps) simp

lemma split_ws_solid: "solid w \<Longrightarrow> split_ws w = (if w = [] then [] else [w])"
  using split_ws_word(1) [of w] by (auto simp: solid_def split_ws.simps [of "[]"])

lemma split_ws_cons:
  assumes "solid w" and "w \<noteq> []"
  shows "split_ws (w @ '' '' @ rest) = w # split_ws rest"
  using split_ws_word(2) [OF assms(2), of "CHR '' ''" rest] assms(1) split_ws_space [of "CHR '' ''" rest]
  by (simp add: solid_def is_space_def)

text \<open>The fields of a pid file, however much of its text is there.\<close>

lemma pid_text_fields:
  assumes st: "solid st" "st \<noteq> []" and a: "solid attempt"
  shows "length (split_ws (take k (pid_text pid st attempt))) \<le> 1 \<or>
    (\<exists>j. split_ws (take k (pid_text pid st attempt)) = [int_str pid, take j st]) \<or>
    (\<exists>j. split_ws (take k (pid_text pid st attempt)) = [int_str pid, st, take j attempt])"
proof -
  let ?P = "int_str pid" and ?f = "split_ws (take k (pid_text pid st attempt))"
  note p = int_str_solid [of pid]
  show ?thesis
  proof (cases "k \<le> length ?P")
    case True
    then have "take k (pid_text pid st attempt) = take k ?P" by (simp add: pid_text_def)
    moreover have "split_ws (take k ?P) = (if take k ?P = [] then [] else [take k ?P])" by (rule split_ws_solid [OF solid_take [OF p(1)]])
    ultimately show ?thesis by simp
  next
    case False
    then obtain i where k: "k = length ?P + Suc i" by (metis add_Suc_right less_imp_Suc_add not_le)
    show ?thesis
    proof (cases "i \<le> length st")
      case True
      then have "take k (pid_text pid st attempt) = ?P @ '' '' @ take i st" by (simp add: pid_text_def k)
      then have f: "?f = ?P # (if take i st = [] then [] else [take i st])"
        unfolding split_ws_cons [OF p, symmetric] split_ws_solid [OF solid_take [OF st(1)], symmetric] by (simp only:)
      show ?thesis by (cases "take i st = []") (use f in auto)
    next
      case False
      then obtain j where "i = length st + Suc j" by (metis add_Suc_right less_imp_Suc_add not_le)
      then have "take k (pid_text pid st attempt) = ?P @ '' '' @ st @ '' '' @ take j attempt" by (simp add: pid_text_def k)
      then have f: "?f = ?P # st # (if take j attempt = [] then [] else [take j attempt])"
        unfolding split_ws_solid [OF solid_take [OF a], symmetric] split_ws_cons [OF st, symmetric] split_ws_cons [OF p, symmetric] by (simp only:)
      show ?thesis by (cases "take j attempt = []") (use f in \<open>auto intro: exI [of _ "length st"]\<close>)
    qed
  qed
qed

text \<open>It claims the process it was written for or none, and no other attempt.\<close>

lemma claim_of_text:
  assumes claim: "pidfile_claim (Seen (take k (pid_text pid st attempt))) (JStr attempt) = Some (n, s)"
    and st: "solid st" "st \<noteq> []" and a: "solid attempt"
  shows "n = pid \<and> (s = st \<or> s = ''unknown'')"
  using pid_text_fields [OF st a, of k pid]
proof (elim disjE exE)
  assume "length (split_ws (take k (pid_text pid st attempt))) \<le> 1"
  with claim show ?thesis by (auto simp: pidfile_claim_def Let_def split: list.splits if_splits)
qed (use claim in \<open>auto simp: pidfile_claim_def Let_def split: if_splits sum.splits dest!: int_literal_str [of pid]\<close>)

lemma no_other_claim:
  assumes st: "solid st" "st \<noteq> []" "length st < 32" and a: "solid attempt"
    and b: "32 \<le> length other" "\<And>n. take n attempt \<noteq> other"
  shows "pidfile_claim (Seen (take k (pid_text pid st attempt))) (JStr other) = None"
  using pid_text_fields [OF st(1,2) a, of k pid]
proof (elim disjE exE)
  assume "length (split_ws (take k (pid_text pid st attempt))) \<le> 1"
  then show ?thesis by (auto simp: pidfile_claim_def Let_def split: list.splits if_splits)
next
  fix j assume f: "split_ws (take k (pid_text pid st attempt)) = [int_str pid, take j st]"
  have "take j st \<noteq> other" using st(3) b(1) by auto
  with f show ?thesis by (simp add: pidfile_claim_def)
next
  fix j assume f: "split_ws (take k (pid_text pid st attempt)) = [int_str pid, st, take j attempt]"
  with b(2) [of j] show ?thesis by (simp add: pidfile_claim_def)
qed

subsection \<open>One process for each worker\<close>

text \<open>
  The worker's files account for a process: the state names its attempt and identity, and the pid file, if it
  claims that attempt, claims this process. \<open>sp\<close> and \<open>pp\<close> give the paths of a worker's files.
\<close>

definition identity_keys :: "string list" where
  "identity_keys = [''host'', ''boot_id'', ''pid_namespace'']"

definition accounts :: "(string \<Rightarrow> string) \<Rightarrow> (string \<Rightarrow> string) \<Rightarrow> agents \<Rightarrow> proc \<Rightarrow> bool" where
  "accounts sp pp a p \<longleftrightarrow> (\<exists>d. fmlookup (ag_docs a) (sp (pr_worker p)) = Some (Some (JObj d)) \<and>
     dget d ''attempt_id'' = JStr (pr_attempt p) \<and> (\<forall>k\<in>set identity_keys. dget d k = dget (pr_identity p) k)) \<and>
     (\<forall>n s. pidfile_claim (text_at a (pp (pr_worker p))) (JStr (pr_attempt p)) = Some (n, s) \<longrightarrow>
        n = pr_pid p \<and> (dget (pr_identity p) ''pid_namespace'' \<noteq> JNull \<longrightarrow> (\<forall>m. int_literal s = Inr m \<longrightarrow> m = pr_start p)))"

definition living :: "station \<Rightarrow> agents \<Rightarrow> string \<Rightarrow> proc \<Rightarrow> bool" where
  "living E a w p \<longleftrightarrow> p \<in> set (ag_procs a) \<and> pr_worker p = w \<and> en_alive E (ag_t a) p"

definition no_future_claims :: "station \<Rightarrow> (string \<Rightarrow> string) \<Rightarrow> agents \<Rightarrow> bool" where
  "no_future_claims E pp a \<longleftrightarrow> (\<forall>w k. ag_t a \<le> k \<longrightarrow> pidfile_claim (text_at a (pp w)) (JStr (en_uuid E k)) = None)"

definition one_each :: "station \<Rightarrow> (string \<Rightarrow> string) \<Rightarrow> (string \<Rightarrow> string) \<Rightarrow> agents \<Rightarrow> bool" where
  "one_each E sp pp a \<longleftrightarrow> (\<forall>w p. living E a w p \<longrightarrow> accounts sp pp a p) \<and>
     (\<forall>w p q. living E a w p \<longrightarrow> living E a w q \<longrightarrow> p = q) \<and>
     (\<forall>p\<in>set (ag_procs a). pr_born p < ag_t a) \<and> no_future_claims E pp a"

definition idle :: "station \<Rightarrow> (string \<Rightarrow> string) \<Rightarrow> (string \<Rightarrow> string) \<Rightarrow> string \<Rightarrow> agents \<Rightarrow> bool" where
  "idle E sp pp w a \<longleftrightarrow> one_each E sp pp a \<and> (\<forall>p. \<not> living E a w p)"

text \<open>The files lie outside \<open>/proc\<close>, and different workers have different ones.\<close>

definition good_paths :: "(string \<Rightarrow> string) \<Rightarrow> (string \<Rightarrow> string) \<Rightarrow> bool" where
  "good_paths sp pp \<longleftrightarrow> inj sp \<and> inj pp \<and> (\<forall>w. \<not> starts_with ''/proc/'' (pp w))"

lemma stat_path_proc [simp]: "starts_with ''/proc/'' (stat_path pid)"
  by (simp add: starts_with_def stat_path_def)

text \<open>Positive evidence of death is right.\<close>

lemma dead_evidence:
  assumes E: "truthful E" and g: "good_paths sp pp" and one: "one_each E sp pp a"
    and d: "fmlookup (ag_docs a) (sp w) = Some (Some (JObj d))"
    and obs: "observe_pidfile (machine_now E a) (pp w) d (dget d ''attempt_id'') = Inr (Some False)"
  shows "idle E sp pp w a"
proof -
  have "\<not> living E a w p" for p
  proof
    assume l: "living E a w p"
    then have acc: "accounts sp pp a p" and p: "pr_worker p = w" "en_alive E (ag_t a) p" "pr_born p \<le> ag_t a"
      using one by (auto simp: one_each_def living_def less_imp_le)
    from acc d have at: "dget d ''attempt_id'' = JStr (pr_attempt p)"
      and id: "\<And>k. k \<in> set identity_keys \<Longrightarrow> dget d k = dget (pr_identity p) k"
      and claim: "\<And>n s. pidfile_claim (text_at a (pp w)) (JStr (pr_attempt p)) = Some (n, s) \<Longrightarrow>
        n = pr_pid p \<and> (dget (pr_identity p) ''pid_namespace'' \<noteq> JNull \<longrightarrow> (\<forall>m. int_literal s = Inr m \<longrightarrow> m = pr_start p))"
      using p(1) by (auto simp: accounts_def)
    let ?M = "machine_now E a"
    have pid: "h_read ?M (pp w) = text_at a (pp w)" using g by (simp add: machine_now_def good_paths_def)
    have tab: "h_read ?M (stat_path n) = en_table E (ag_op a) (ag_t a) (stat_path n)" for n by (simp add: machine_now_def)
    have ns: "h_ns ?M = en_ns E (ag_op a)" by (simp add: machine_now_def)
    have keys: "dget d ''host'' = dget (pr_identity p) ''host''" "dget d ''boot_id'' = dget (pr_identity p) ''boot_id''"
      "dget d ''pid_namespace'' = dget (pr_identity p) ''pid_namespace''" using id by (simp_all add: identity_keys_def)
    from observed_evidence [OF obs]
    have host: "dget d ''host'' = JStr (h_name ?M)" and boots: "truthy (dget d ''boot_id'')" "truthy (dget (host_identity ?M) ''boot_id'')"
      and ev: "if dget d ''boot_id'' \<noteq> dget (host_identity ?M) ''boot_id'' then True
        else dget d ''pid_namespace'' = jopt (h_ns ?M) \<and> h_ns ?M \<noteq> None \<and>
       (\<exists>pid t. pidfile_claim (h_read ?M (pp w)) (dget d ''attempt_id'') = Some (pid, t) \<and>
           (h_read ?M (stat_path pid) = Gone \<or>
            (\<exists>s start observed. h_read ?M (stat_path pid) = Seen s \<and> int_literal t = Inr start \<and>
               start_field s = Some observed \<and> (observed \<noteq> start \<or> \<not> runnable s))))"
      by (auto split: if_splits)
    have truth: "(truthy (dget (pr_identity p) ''boot_id'') \<longrightarrow> truthy (dget (host_identity ?M) ''boot_id'') \<longrightarrow>
             dget (pr_identity p) ''boot_id'' = dget (host_identity ?M) ''boot_id'') \<and>
          (dget (pr_identity p) ''pid_namespace'' = jopt (en_ns E (ag_op a)) \<longrightarrow> en_ns E (ag_op a) \<noteq> None \<longrightarrow>
             en_table E (ag_op a) (ag_t a) (stat_path (pr_pid p)) \<noteq> Gone \<and>
             (\<forall>s. en_table E (ag_op a) (ag_t a) (stat_path (pr_pid p)) = Seen s \<longrightarrow> start_field s = Some (pr_start p) \<and> runnable s))"
    proof -
      have "same_host (pr_identity p) ?M" using host keys(1) by (simp add: same_host_def)
      then show ?thesis using E p(2,3) unfolding truthful_def machine_now_def by blast
    qed
    have same: "dget d ''boot_id'' = dget (host_identity ?M) ''boot_id''" using truth boots keys(2) by simp
    with ev obtain n t where n: "dget d ''pid_namespace'' = jopt (en_ns E (ag_op a))" "en_ns E (ag_op a) \<noteq> None"
      and c: "pidfile_claim (text_at a (pp w)) (JStr (pr_attempt p)) = Some (n, t)"
      and dead: "en_table E (ag_op a) (ag_t a) (stat_path n) = Gone \<or>
        (\<exists>s start observed. en_table E (ag_op a) (ag_t a) (stat_path n) = Seen s \<and> int_literal t = Inr start \<and>
           start_field s = Some observed \<and> (observed \<noteq> start \<or> \<not> runnable s))"
      unfolding pid tab at ns by auto
    have "jopt (en_ns E (ag_op a)) \<noteq> JNull" using n(2) by auto
    with claim [OF c] n(1) keys(3) have "n = pr_pid p" "\<And>m. int_literal t = Inr m \<Longrightarrow> m = pr_start p" by auto
    with dead truth n keys(3) show False by auto
  qed
  then show ?thesis using one by (simp add: idle_def)
qed

subsection \<open>Steps that keep it\<close>

lemma living_tick: "truthful E \<Longrightarrow> one_each E sp pp a \<Longrightarrow> living E (tick_time a) w p \<Longrightarrow> living E a w p"
  unfolding living_def one_each_def truthful_def tick_time_def by (auto simp: less_imp_le)

lemma text_at_simps [simp]:
  "text_at (a\<lparr>ag_t := t\<rparr>) p = text_at a p" "text_at (a\<lparr>ag_op := n\<rparr>) p = text_at a p"
  "text_at (a\<lparr>ag_docs := ds\<rparr>) p = text_at a p" "text_at (a\<lparr>ag_procs := ps\<rparr>) p = text_at a p"
  "text_at (a\<lparr>ag_signals := g\<rparr>) p = text_at a p"
  "text_at (a\<lparr>ag_texts := fmupd q s (ag_texts a)\<rparr>) p = (if p = q then Seen s else text_at a p)"
  "text_at (a\<lparr>ag_texts := fmdrop q (ag_texts a)\<rparr>) p = (if p = q then Gone else text_at a p)"
  by (simp_all add: text_at_def)

lemma accounts_tick [simp]:
  "accounts sp pp (a\<lparr>ag_t := t\<rparr>) p = accounts sp pp a p" "accounts sp pp (a\<lparr>ag_op := n\<rparr>) p = accounts sp pp a p"
  "accounts sp pp (a\<lparr>ag_signals := g\<rparr>) p = accounts sp pp a p"
  by (simp_all add: accounts_def)

lemma one_each_tick: "truthful E \<Longrightarrow> one_each E sp pp a \<Longrightarrow> one_each E sp pp (tick_time a)"
proof -
  assume E: "truthful E" and oe: "one_each E sp pp a"
  note l = living_tick [OF E oe]
  from oe have born: "\<forall>p\<in>set (ag_procs a). pr_born p < ag_t a" and claims: "no_future_claims E pp a" by (simp_all add: one_each_def)
  show ?thesis unfolding one_each_def
  proof (intro conjI allI impI)
    show "accounts sp pp (tick_time a) p" if "living E (tick_time a) w p" for w p
      using l [OF that] oe by (auto simp: one_each_def tick_time_def)
    show "p = q" if "living E (tick_time a) w p" "living E (tick_time a) w q" for w p q
      using l [OF that(1)] l [OF that(2)] oe unfolding one_each_def by blast
    show "\<forall>p\<in>set (ag_procs (tick_time a)). pr_born p < ag_t (tick_time a)" using born by (auto simp: tick_time_def less_Suc_eq)
    show "no_future_claims E pp (tick_time a)" using claims by (simp add: no_future_claims_def tick_time_def)
  qed
qed

lemma idle_tick: "truthful E \<Longrightarrow> idle E sp pp w a \<Longrightarrow> idle E sp pp w (tick_time a)"
  using one_each_tick living_tick unfolding idle_def by blast

lemma one_each_op [simp]:
  "one_each E sp pp (a\<lparr>ag_op := n\<rparr>) = one_each E sp pp a" "one_each E sp pp (a\<lparr>ag_signals := g\<rparr>) = one_each E sp pp a"
  by (simp_all add: one_each_def living_def no_future_claims_def)

lemma tick_time_simps [simp]:
  "ag_docs (tick_time a) = ag_docs a" "ag_texts (tick_time a) = ag_texts a" "ag_procs (tick_time a) = ag_procs a"
  "ag_op (tick_time a) = ag_op a" "ag_signals (tick_time a) = ag_signals a" "ag_t (tick_time a) = Suc (ag_t a)"
  "text_at (tick_time a) p = text_at a p"
  by (simp_all add: tick_time_def)

lemma living_simps [simp]:
  "living E (a\<lparr>ag_docs := ds\<rparr>) w p = living E a w p" "living E (a\<lparr>ag_texts := ts\<rparr>) w p = living E a w p"
  by (simp_all add: living_def)

text \<open>The state file of an idle worker may be replaced, any text other than a pid file may change, and every text
  may be dropped.\<close>

lemma idle_save_doc: "good_paths sp pp \<Longrightarrow> idle E sp pp w a \<Longrightarrow> idle E sp pp w (a\<lparr>ag_docs := fmupd (sp w) x (ag_docs a)\<rparr>)"
proof -
  assume g: "good_paths sp pp" and i: "idle E sp pp w a"
  let ?a = "a\<lparr>ag_docs := fmupd (sp w) x (ag_docs a)\<rparr>"
  have "accounts sp pp ?a p" if "living E a v p" for v p
  proof -
    have "sp (pr_worker p) \<noteq> sp w" using that i g by (auto simp: idle_def living_def good_paths_def dest: injD)
    moreover have "accounts sp pp a p" using that i by (auto simp: idle_def one_each_def)
    ultimately show ?thesis by (simp add: accounts_def)
  qed
  then show ?thesis using i by (auto simp: idle_def one_each_def no_future_claims_def)
qed

lemma one_each_text:
  assumes "one_each E sp pp a" and "\<And>w. q \<noteq> pp w"
  shows "one_each E sp pp (a\<lparr>ag_texts := fmupd q s (ag_texts a)\<rparr>)"
proof -
  have "pp w \<noteq> q" for w using assms(2) [of w] by simp
  then show ?thesis using assms(1) by (simp add: one_each_def accounts_def no_future_claims_def)
qed

lemma no_claim_gone [simp]: "pidfile_claim Gone attempt = None"
  by (simp add: pidfile_claim_def)

lemma one_each_drop: "one_each E sp pp a \<Longrightarrow> one_each E sp pp (a\<lparr>ag_texts := fmdrop q (ag_texts a)\<rparr>)"
  by (auto simp: one_each_def accounts_def no_future_claims_def split: if_splits)

lemma idle_drop: "idle E sp pp w a \<Longrightarrow> idle E sp pp w (a\<lparr>ag_texts := fmdrop q (ag_texts a)\<rparr>)"
  by (simp add: idle_def one_each_drop)

lemma idle_text: "idle E sp pp w a \<Longrightarrow> (\<And>w. q \<noteq> pp w) \<Longrightarrow> idle E sp pp w (a\<lparr>ag_texts := fmupd q s (ag_texts a)\<rparr>)"
  by (simp add: idle_def one_each_text)

subsection \<open>A start\<close>

text \<open>Between the saved state and the start: the worker is idle, its state names a new attempt and no pid file claims it.\<close>

definition prepared_for :: "station \<Rightarrow> (string \<Rightarrow> string) \<Rightarrow> (string \<Rightarrow> string) \<Rightarrow> string \<Rightarrow> string \<Rightarrow> dict \<Rightarrow> agents \<Rightarrow> bool" where
  "prepared_for E sp pp w attempt i a \<longleftrightarrow> idle E sp pp w a \<and>
     (\<exists>d. fmlookup (ag_docs a) (sp w) = Some (Some (JObj d)) \<and> dget d ''attempt_id'' = JStr attempt \<and>
        (\<forall>k\<in>set identity_keys. dget d k = dget i k)) \<and>
     pidfile_claim (text_at a (pp w)) (JStr attempt) = None \<and> (\<exists>k<ag_t a. attempt = en_uuid E k)"

lemma prepared_tick: "truthful E \<Longrightarrow> prepared_for E sp pp w attempt i a \<Longrightarrow> prepared_for E sp pp w attempt i (tick_time a)"
  by (auto simp: prepared_for_def idle_tick less_Suc_eq)

lemma prepared_drop:
  "prepared_for E sp pp w attempt i a \<Longrightarrow> prepared_for E sp pp w attempt i (a\<lparr>ag_texts := fmdrop q (ag_texts a)\<rparr>)"
  by (auto simp: prepared_for_def idle_drop)

lemma one_each_spawn:
  assumes E: "truthful E" and p: "prepared_for E sp pp w attempt i a"
    and q: "pr_worker q = w" "pr_attempt q = attempt" "pr_identity q = i" "pr_born q = ag_t a"
  shows "one_each E sp pp (tick_time (a\<lparr>ag_procs := q # ag_procs a\<rparr>))"
    and "living E (tick_time (a\<lparr>ag_procs := q # ag_procs a\<rparr>)) w r \<Longrightarrow> r = q"
proof -
  let ?a = "tick_time (a\<lparr>ag_procs := q # ag_procs a\<rparr>)"
  have i: "idle E sp pp w a" and oe: "one_each E sp pp a" using p by (simp_all add: prepared_for_def idle_def)
  have earlier: "living E ?a v r \<Longrightarrow> r = q \<and> v = w \<or> living E a v r" for v r
    using living_tick [OF E oe, of v r] q(1) by (auto simp: living_def)
  show only: "living E ?a w r \<Longrightarrow> r = q" for r using earlier i by (auto simp: idle_def)
  have acc: "accounts sp pp ?a r = accounts sp pp a r" for r by (simp add: accounts_def)
  have new: "accounts sp pp a q" using p q by (auto simp: prepared_for_def accounts_def)
  show "one_each E sp pp ?a" unfolding one_each_def acc
  proof (intro conjI allI impI)
    show "accounts sp pp a r" if "living E ?a v r" for v r
      using earlier [OF that] new oe by (auto simp: one_each_def)
    show "r = u" if "living E ?a v r" "living E ?a v u" for v r u
      using earlier [OF that(1)] earlier [OF that(2)] oe i by (auto simp: one_each_def idle_def)
    show "\<forall>r\<in>set (ag_procs ?a). pr_born r < ag_t ?a" using oe q(4) by (auto simp: one_each_def less_Suc_eq)
    show "no_future_claims E pp ?a" using oe by (auto simp: one_each_def no_future_claims_def)
  qed
qed

lemma uuid_inj: "fresh_uuids E \<Longrightarrow> en_uuid E i = en_uuid E j \<Longrightarrow> i = j"
  unfolding fresh_uuids_def by (metis take_all_iff order_refl)

text \<open>The pid file of the only process of a worker may be written, in whole or in part.\<close>

lemma one_each_pid_text:
  assumes U: "fresh_uuids E" and g: "good_paths sp pp" and oe: "one_each E sp pp a"
    and at: "attempt = en_uuid E j" "j < ag_t a" and st: "solid st" "st \<noteq> []" "length st < 32"
    and only: "\<And>p. living E a w p \<Longrightarrow> pr_attempt p = attempt \<and> pr_pid p = pid \<and>
       (dget (pr_identity p) ''pid_namespace'' \<noteq> JNull \<longrightarrow> (\<forall>m. int_literal st = Inr m \<longrightarrow> m = pr_start p))"
  shows "one_each E sp pp (a\<lparr>ag_texts := fmupd (pp w) (take k (pid_text pid st attempt)) (ag_texts a)\<rparr>)"
proof -
  let ?a = "a\<lparr>ag_texts := fmupd (pp w) (take k (pid_text pid st attempt)) (ag_texts a)\<rparr>"
  have pw: "pp v = pp w \<longleftrightarrow> v = w" for v using g by (auto simp: good_paths_def dest: injD)
  have u: "solid attempt" using U at(1) by (simp add: fresh_uuids_def)
  have unk: "int_literal ''unknown'' = Inr m \<Longrightarrow> False" for m :: int
  proof -
    have "\<not> fullmatch int_rx (strip ''unknown'')" by code_simp
    then show "int_literal ''unknown'' = Inr m \<Longrightarrow> False" by (simp add: int_literal_def Let_def)
  qed
  have "accounts sp pp ?a p" if l: "living E a v p" for v p
  proof (cases "v = w")
    case True
    then have "pr_worker p = w" using l by (simp add: living_def)
    moreover have "accounts sp pp a p" using l oe by (auto simp: one_each_def)
    moreover have "n = pr_pid p \<and> (dget (pr_identity p) ''pid_namespace'' \<noteq> JNull \<longrightarrow> (\<forall>m. int_literal s = Inr m \<longrightarrow> m = pr_start p))"
      if "pidfile_claim (Seen (take k (pid_text pid st attempt))) (JStr (pr_attempt p)) = Some (n, s)" for n s
      using claim_of_text [of k pid st attempt n s] that only l True st u unk by auto
    ultimately show ?thesis by (simp add: accounts_def)
  next
    case False
    then have "pp (pr_worker p) \<noteq> pp w" using l pw by (simp add: living_def)
    moreover have "accounts sp pp a p" using l oe by (auto simp: one_each_def)
    ultimately show ?thesis by (simp add: accounts_def)
  qed
  moreover have "no_future_claims E pp ?a"
  proof -
    have "pidfile_claim (Seen (take k (pid_text pid st attempt))) (JStr (en_uuid E i)) = None" if "ag_t a \<le> i" for i
    proof (rule no_other_claim [OF st u])
      show "32 \<le> length (en_uuid E i)" using U by (simp add: fresh_uuids_def)
      show "take n attempt \<noteq> en_uuid E i" for n using U at that unfolding fresh_uuids_def by (metis not_le)
    qed
    then show ?thesis using oe by (auto simp: one_each_def no_future_claims_def)
  qed
  ultimately show ?thesis using oe by (simp add: one_each_def)
qed

subsection \<open>Receipts of earlier attempts\<close>

text \<open>\<open>read_text\<close> turns each line end into a newline.\<close>

fun newlines_after :: "bool \<Rightarrow> string \<Rightarrow> string" where
  "newlines_after cr [] = []"
| "newlines_after cr (c # s) =
     (if c = CHR 0x0D then CHR 0x0A # newlines_after True s
      else if c = CHR 0x0A \<and> cr then newlines_after False s
      else c # newlines_after False s)"

definition universal_newlines :: "string \<Rightarrow> string" where
  "universal_newlines s = newlines_after False s"

lemma universal_newlines_id: "CHR 0x0D \<notin> set s \<Longrightarrow> universal_newlines s = s"
proof -
  have "CHR 0x0D \<notin> set s \<Longrightarrow> newlines_after False s = s" by (induction s) auto
  then show "CHR 0x0D \<notin> set s \<Longrightarrow> universal_newlines s = s" by (simp add: universal_newlines_def)
qed

text \<open>\<open>_same_as_previous\<close> of \<open>adapters/codex.py\<close>: the receipt of before this attempt, by its text or, in older
  state files, its digest.\<close>

definition same_as_previous :: "station \<Rightarrow> string \<Rightarrow> dict \<Rightarrow> bool" where
  "same_as_previous E raw d =
     (if dget d ''previous_receipt'' \<noteq> JNull then dget d ''previous_receipt'' = JStr raw
      else dget d ''previous_receipt_sha256'' \<noteq> JNull \<and> dget d ''previous_receipt_sha256'' = JStr (en_sha E raw))"

text \<open>The receipt of a poll: \<open>ValueError\<close> and \<open>KeyError\<close> mean there is none.\<close>

fun no_receipt :: "exn \<Rightarrow> bool" where
  "no_receipt (KeyError k) = True"
| "no_receipt e = is_value_error e"

definition parsed_receipt :: "station \<Rightarrow> string \<Rightarrow> receipt option res" where
  "parsed_receipt E raw = (case en_json E raw of
     None \<Rightarrow> Inr None
   | Some j \<Rightarrow> (case receipt_from_dict j of
       Inr r \<Rightarrow> Inr (Some r)
     | Inl e \<Rightarrow> if no_receipt e then Inr None else Inl e))"

definition fresh_receipt :: "station \<Rightarrow> string option \<Rightarrow> dict res \<Rightarrow> receipt option res" where
  "fresh_receipt E raw st = (case raw of
     None \<Rightarrow> Inr None
   | Some s \<Rightarrow> rbind st (\<lambda>d. if same_as_previous E s d then Inr None else parsed_receipt E s))"

lemma fresh_receipt_not_previous:
  assumes "fresh_receipt E (Some s) (Inr d) = Inr (Some r)"
  shows "dget d ''previous_receipt'' \<noteq> JStr s" "\<exists>j. en_json E s = Some j \<and> receipt_from_dict j = Inr r"
  using assms by (auto simp: fresh_receipt_def same_as_previous_def parsed_receipt_def split: if_splits option.splits sum.splits)

subsection \<open>Running the steps\<close>

lemma wp_begin_op [wp_rules]: "wp begin_op Q a = Q (Inr ()) ((tick_time a)\<lparr>ag_op := Suc (ag_op a)\<rparr>)"
  by (simp add: begin_op_def wp_rules)

lemma wp_observe_at [wp_rules]: "wp (observe_at E f) Q a = Q (f (machine_now E a)) (tick_time a)"
  by (simp add: observe_at_def wp_rules)

lemma wp_new_attempt [wp_rules]: "wp (new_attempt E) Q a = Q (Inr (en_uuid E (ag_t a))) (tick_time a)"
  by (simp add: new_attempt_def wp_rules)

lemma wp_try_step:
  "wp (try_step E f) Q a \<longleftrightarrow>
     (\<forall>e. en_fails E (ag_t a) = Some e \<longrightarrow> Q (Inl e) (tick_time a)) \<and>
     (en_fails E (ag_t a) = None \<longrightarrow> Q (Inr ()) (tick_time (f a)))"
  by (auto simp: try_step_def wp_rules split: option.split)

lemma wp_put_text:
  "wp (put_text E p s) Q a \<longleftrightarrow>
     (\<forall>e. en_fails E (ag_t a) = Some e \<longrightarrow> Q (Inl e) (tick_time (a\<lparr>ag_texts := fmupd p (take (en_torn E (ag_t a)) s) (ag_texts a)\<rparr>))) \<and>
     (en_fails E (ag_t a) = None \<longrightarrow> Q (Inr ()) (tick_time (a\<lparr>ag_texts := fmupd p s (ag_texts a)\<rparr>)))"
  by (auto simp: put_text_def wp_rules split: option.split)

lemma wp_popen:
  "wp (popen E w attempt i) Q a \<longleftrightarrow>
     (\<forall>e. en_fails E (ag_t a) = Some e \<longrightarrow> Q (Inl e) (tick_time a)) \<and>
     (en_fails E (ag_t a) = None \<longrightarrow> Q (Inr (fst (en_spawn E (ag_t a)))) (tick_time (a\<lparr>ag_procs :=
        \<lparr>pr_worker = w, pr_attempt = attempt, pr_pid = fst (en_spawn E (ag_t a)), pr_start = snd (en_spawn E (ag_t a)),
         pr_identity = i, pr_born = ag_t a\<rparr> # ag_procs a\<rparr>)))"
  by (cases "en_spawn E (ag_t a)") (auto simp: popen_def wp_rules wp_try_step)

text \<open>Observing changes nothing but the time.\<close>

lemma keeps_begin_op: "truthful E \<Longrightarrow> keeps (one_each E sp pp) begin_op"
  by (rule keepsI) (simp add: wp_rules one_each_tick)

lemma keeps_observe_at: "truthful E \<Longrightarrow> keeps (one_each E sp pp) (observe_at E f)"
  by (rule keepsI) (simp add: wp_rules one_each_tick)

lemma keeps_observe_idle: "truthful E \<Longrightarrow> keeps (idle E sp pp w) (observe_at E f)"
  by (rule keepsI) (simp add: wp_rules idle_tick)

text \<open>The start time read right after the start is the new process's, if it still lives.\<close>

lemma start_time_right:
  assumes E: "truthful E" and q: "pr_identity q = host_identity M" "M = (machine_now E b)\<lparr>h_read := r\<rparr>" "ag_op b = ag_op a"
    and alive: "en_alive E (ag_t a) q" "pr_born q \<le> ag_t a"
    and st: "proc_starttime (machine_now E a) (pr_pid q) = Inr (Some n)" and ns: "dget (pr_identity q) ''pid_namespace'' \<noteq> JNull"
  shows "n = pr_start q"
proof -
  let ?tab = "en_table E (ag_op a) (ag_t a)"
  let ?N = "\<lparr>h_name = en_host E (ag_op a), h_boot = en_boot E (ag_op a) (ag_t a), h_ns = en_ns E (ag_op a), h_read = r\<rparr>"
  have "same_host (pr_identity q) ?N" using q by (simp add: same_host_def machine_now_def)
  moreover have id: "dget (pr_identity q) ''pid_namespace'' = jopt (en_ns E (ag_op a))" using q by (simp add: machine_now_def)
  moreover have "en_ns E (ag_op a) \<noteq> None" using ns id by (cases "en_ns E (ag_op a)") auto
  ultimately have "\<forall>s. ?tab (stat_path (pr_pid q)) = Seen s \<longrightarrow> start_field s = Some (pr_start q) \<and> runnable s"
    using E alive unfolding truthful_def by blast
  then show ?thesis using st by (auto simp: proc_starttime_def machine_now_def split: seen.splits)
qed

lemma start_time_short:
  "truthful E \<Longrightarrow> proc_starttime (machine_now E a) pid = Inr (Some n) \<Longrightarrow> length (int_str n) < 32"
  unfolding truthful_def by (auto simp: proc_starttime_def machine_now_def split: seen.splits)

end
