(* ===== verification/Tmux.thy ===== *)
theory Tmux
  imports Workers Helper
begin

text \<open>
  The executor of agents in tmux windows: \<open>CodexTmuxExecutor\<close> of \<open>adapters/codex.py\<close>, with the command lines of
  \<open>adapters/claude.py\<close> as its other instance. An operation records an attempt, writes a script and types a line
  that runs it; the shell of the window runs the script later, at its own pace, while other operations go on.
\<close>

subsection \<open>Windows\<close>

text \<open>A script file: what it was rendered from, the identity recorded for its attempt and the operation that
  wrote it. A run of a script by a shell has passed the guard (\<open>Armed\<close>), started the agent, or read its start time.\<close>

record script =
  sf_parts :: parts
  sf_text :: string
  sf_identity :: dict
  sf_op :: nat

record typed =
  ln_path :: string
  ln_shell :: proc

datatype stage = Armed | Started proc | Timed proc string

record shell_run =
  rn_script :: script
  rn_shell :: proc
  rn_stage :: stage

record panes =
  pn_agents :: agents
  pn_scripts :: "(string, script) fmap"
  pn_lines :: "typed list"
  pn_runs :: "shell_run list"
  pn_guards :: "string fset"
  pn_calls :: "string list list"

text \<open>tmux answers a command line or does not; \<open>tm_pass t\<close> is what the shells do at instant \<open>t\<close>.\<close>

datatype answer = Unanswered | Answer int string string

record terminal =
  tm_answer :: "nat \<Rightarrow> string list \<Rightarrow> answer"
  tm_pass :: "nat \<Rightarrow> panes \<Rightarrow> panes"

text \<open>The executor's own fields and the two command lines of its agent.\<close>

record tmux_executor =
  tx_root :: string
  tx_session :: string
  tx_socket :: "string option"
  tx_config :: cluster
  tx_launch_line :: "cluster \<Rightarrow> string \<Rightarrow> string"
  tx_resume_line :: "cluster \<Rightarrow> string \<Rightarrow> string"
  tx_sid_pattern :: string
  tx_helper :: string
  tx_resolve :: "string \<Rightarrow> string"
  tx_shows :: "json \<Rightarrow> string"

definition codex_executor :: "string \<Rightarrow> string \<Rightarrow> string option \<Rightarrow> cluster \<Rightarrow> string \<Rightarrow> (string \<Rightarrow> string) \<Rightarrow> (json \<Rightarrow> string) \<Rightarrow> tmux_executor" where
  "codex_executor R session socket C helper real_path shows_json =
     \<lparr>tx_root = R, tx_session = session, tx_socket = socket, tx_config = C, tx_launch_line = codex_launch_line,
      tx_resume_line = codex_resume_line, tx_sid_pattern = codex_sid_pattern, tx_helper = helper, tx_resolve = real_path,
      tx_shows = shows_json\<rparr>"

definition claude_executor :: "string \<Rightarrow> string \<Rightarrow> string option \<Rightarrow> cluster \<Rightarrow> string \<Rightarrow> (string \<Rightarrow> string) \<Rightarrow> (json \<Rightarrow> string) \<Rightarrow> tmux_executor" where
  "claude_executor R session socket C helper real_path shows_json =
     (codex_executor R session socket C helper real_path shows_json)\<lparr>tx_launch_line := claude_launch_line,
      tx_resume_line := claude_resume_line, tx_sid_pattern := claude_sid_pattern\<rparr>"

definition on_agents :: "terminal \<Rightarrow> (agents, 'a) cmd \<Rightarrow> (panes, 'a) cmd" where
  "on_agents T m s = (case m (pn_agents s) of (r, a) \<Rightarrow> (r, tm_pass T (ag_t a) (s\<lparr>pn_agents := a\<rparr>)))"

subsection \<open>Files\<close>

definition codex_state_path :: "string \<Rightarrow> string \<Rightarrow> string" where
  "codex_state_path R w = R @ ''/codex_workers/'' @ w @ ''.json''"

definition codex_pid_path :: "string \<Rightarrow> string \<Rightarrow> string" where
  "codex_pid_path R w = R @ ''/codex_workers/'' @ w @ ''.pid''"

definition codex_receipt_path :: "string \<Rightarrow> string \<Rightarrow> string" where
  "codex_receipt_path R w = R @ ''/receipts/'' @ w @ ''.json''"

definition identity_fields :: "string list" where
  "identity_fields = [''workspace'', ''window'', ''receipt_path'', ''sid_path'', ''log_name'', ''task_id'', ''lease_id'', ''pid_file'']"

definition named_field :: "dict \<Rightarrow> string \<Rightarrow> bool" where
  "named_field d k \<longleftrightarrow> (case dget d k of JStr s \<Rightarrow> s \<noteq> [] | _ \<Rightarrow> False)"

definition field :: "dict \<Rightarrow> string \<Rightarrow> string" where
  "field d k = (case dget d k of JStr s \<Rightarrow> s | _ \<Rightarrow> [])"

definition load_state :: "string \<Rightarrow> string \<Rightarrow> agents \<Rightarrow> dict option res" where
  "load_state R w a = (case fmlookup (ag_docs a) (codex_state_path R w) of
     None \<Rightarrow> Inr None
   | Some (Some (JObj d)) \<Rightarrow>
       if list_all (named_field d) identity_fields \<and> dget d ''window'' = JStr w then Inr (Some d)
       else Inl (ExecutorUnavailable ''unreadable worker identity'')
   | Some x \<Rightarrow> Inl (ExecutorUnavailable ''unreadable worker identity''))"

definition agent_alive :: "station \<Rightarrow> terminal \<Rightarrow> dict \<Rightarrow> (panes, bool option) cmd" where
  "agent_alive E T d = on_agents T (observe_at E (\<lambda>M.
     if dget d ''host'' \<noteq> JStr (h_name M) then Inr None
     else observe_pidfile M (field d ''pid_file'') d (dget d ''attempt_id'')))"

text \<open>\<open>_prepare_attempt\<close>: the attempt is recorded before anything is dispatched.\<close>

definition prepared_state :: "dict \<Rightarrow> dict \<Rightarrow> string \<Rightarrow> string option \<Rightarrow> dict" where
  "prepared_state d i attempt prior = dput (fmfilter (\<lambda>k. k \<noteq> ''previous_receipt_sha256'') d)
     [(''host'', dget i ''host''), (''boot_id'', dget i ''boot_id''), (''pid_namespace'', dget i ''pid_namespace''),
      (''attempt_id'', JStr attempt), (''previous_receipt'', jopt (map_option universal_newlines prior))]"

definition prepare_attempt :: "station \<Rightarrow> terminal \<Rightarrow> string \<Rightarrow> string \<Rightarrow> dict \<Rightarrow> (panes, dict) cmd" where
  "prepare_attempt E T R w d =
     bnd (gets (\<lambda>s. fmlookup (ag_texts (pn_agents s)) (field d ''receipt_path''))) (\<lambda>prior.
     bnd (on_agents T (observe_at E (\<lambda>M. Inr (host_identity M)))) (\<lambda>i.
     bnd (on_agents T (new_attempt E)) (\<lambda>attempt.
     seq (on_agents T (save_doc E (codex_state_path R w) (prepared_state d i attempt prior)))
     (ret (prepared_state d i attempt prior)))))"

subsection \<open>tmux\<close>

definition tmux_argv :: "tmux_executor \<Rightarrow> string list \<Rightarrow> string list" where
  "tmux_argv X args = ''tmux'' # (case tx_socket X of None \<Rightarrow> [] | Some k \<Rightarrow> if k = [] then [] else [''-L'', k]) @ args"

definition missing_session :: "int \<Rightarrow> string \<Rightarrow> bool" where
  "missing_session code err \<longleftrightarrow> (let diagnostic = strip err in code = 1 \<and>
     (contains ''no server running on'' diagnostic \<or> contains ''can't find session:'' diagnostic \<or>
      contains ''session not found:'' diagnostic \<or>
      (contains ''No such file or directory'' diagnostic \<and>
        (contains ''error connecting to'' diagnostic \<or> contains ''failed to connect to server'' diagnostic))))"

definition tmux_command :: "terminal \<Rightarrow> tmux_executor \<Rightarrow> string list \<Rightarrow> bool \<Rightarrow> (panes, int \<times> string) cmd" where
  "tmux_command T X args allow_missing =
     bnd (gets (\<lambda>s. tm_answer T (ag_t (pn_agents s)) (tmux_argv X args))) (\<lambda>r.
     seq (modify (\<lambda>s. s\<lparr>pn_calls := pn_calls s @ [tmux_argv X args]\<rparr>))
     (seq (on_agents T (modify tick_time))
     (case r of
        Unanswered \<Rightarrow> throw (ExecutorUnavailable ''tmux unavailable/timed out; execution outcome unverified'')
      | Answer code out err \<Rightarrow>
          if code \<noteq> 0 \<and> \<not> (allow_missing \<and> missing_session code err)
          then throw (ExecutorUnavailable ''tmux failed'') else ret (code, out))))"

definition ensure_window :: "terminal \<Rightarrow> tmux_executor \<Rightarrow> string \<Rightarrow> string \<Rightarrow> (panes, unit) cmd" where
  "ensure_window T X window cwd =
     bnd (tmux_command T X [''has-session'', ''-t'', tx_session X] True) (\<lambda>(code, _).
     if code \<noteq> 0 then
       bnd (tmux_command T X [''new-session'', ''-d'', ''-s'', tx_session X, ''-n'', window, ''-c'', cwd] False) (\<lambda>_. ret ())
     else
       bnd (tmux_command T X [''list-windows'', ''-t'', tx_session X, ''-F'', ''#{window_name}''] False) (\<lambda>(_, listed).
       if window \<in> set (split_ws listed) then ret ()
       else bnd (tmux_command T X [''new-window'', ''-t'', tx_session X, ''-n'', window, ''-c'', cwd] False) (\<lambda>_. ret ())))"

text \<open>Whatever tmux answers, the line may have arrived: it is recorded before the call. The shell that gets it is a
  process of the identity recorded for the attempt.\<close>

definition send_line :: "station \<Rightarrow> terminal \<Rightarrow> tmux_executor \<Rightarrow> dict \<Rightarrow> string \<Rightarrow> (panes, unit) cmd" where
  "send_line E T X d path =
     seq (modify (\<lambda>s. let a = pn_agents s in s\<lparr>pn_lines := \<lparr>ln_path = path,
        ln_shell = \<lparr>pr_worker = field d ''window'', pr_attempt = field d ''attempt_id'', pr_pid = fst (en_spawn E (ag_t a)),
          pr_start = snd (en_spawn E (ag_t a)), pr_identity = d, pr_born = ag_t a\<rparr>\<rparr> # pn_lines s\<rparr>))
     (bnd (tmux_command T X [''send-keys'', ''-t'', tx_session X @ '':'' @ field d ''window'', ''bash '' @ shell_quote path, ''Enter''] False)
       (\<lambda>_. ret ()))"

subsection \<open>Operations\<close>

definition script_parts :: "dict \<Rightarrow> string \<Rightarrow> parts" where
  "script_parts d w = \<lparr>sc_workspace = field d ''workspace'', sc_worker = w, sc_task = field d ''task_id'',
     sc_lease = field d ''lease_id'', sc_receipt = field d ''receipt_path'', sc_sid_path = field d ''sid_path'',
     sc_log = field d ''log_name'', sc_pid_file = field d ''pid_file'', sc_attempt = field d ''attempt_id''\<rparr>"

definition script_path :: "dict \<Rightarrow> string \<Rightarrow> string \<Rightarrow> string" where
  "script_path d kind w = path_child (field d ''workspace'') (kind @ w @ ''.sh'')"

text \<open>A script that could not be written in full may hold a part of its text: a run of it stops early, as every run may.\<close>

definition put_script :: "station \<Rightarrow> terminal \<Rightarrow> string \<Rightarrow> dict \<Rightarrow> string \<Rightarrow> string \<Rightarrow> (panes, unit) cmd" where
  "put_script E T path d w body =
     bnd (gets (\<lambda>s. en_fails E (ag_t (pn_agents s)))) (\<lambda>r.
     seq (modify (\<lambda>s. s\<lparr>pn_scripts := fmupd path \<lparr>sf_parts = script_parts d w, sf_text = body, sf_identity = d,
        sf_op = ag_op (pn_agents s)\<rparr> (pn_scripts s)\<rparr>))
     (seq (on_agents T (modify tick_time))
     (case r of None \<Rightarrow> ret () | Some e \<Rightarrow> throw e)))"

definition run_script :: "station \<Rightarrow> terminal \<Rightarrow> tmux_executor \<Rightarrow> string \<Rightarrow> dict \<Rightarrow> string \<Rightarrow> string res \<Rightarrow> (panes, unit) cmd" where
  "run_script E T X path d w body =
     bnd (pure body) (\<lambda>b.
     seq (put_script E T path d w b)
     (seq (on_agents T (try_step E (\<lambda>a. a)))
     (seq (ensure_window T X (field d ''window'') (field d ''workspace''))
     (send_line E T X d path))))"

definition put_helper :: "station \<Rightarrow> terminal \<Rightarrow> tmux_executor \<Rightarrow> dict \<Rightarrow> (panes, unit) cmd" where
  "put_helper E T X d = on_agents T (put_text E (path_child (field d ''workspace'') ''.farm_receipt.py'') (tx_helper X))"

definition codex_validate :: "station \<Rightarrow> tmux_executor \<Rightarrow> task \<Rightarrow> unit res" where
  "codex_validate E X t =
     (case meta t ''workspace'' of
        JStr ws \<Rightarrow> if ws \<noteq> [] \<and> starts_with ''/'' ws \<and> en_isdir E ws then
          (case meta t ''brief'' of
             JStr brief \<Rightarrow> if strip brief \<noteq> [] then
               rbind (worker_contract (tx_shows X) t) (\<lambda>c.
               validate_prompt (tx_config X) (brief @ c @ receipt_instruction (codex_receipt_path (tx_root X) (''W-'' @ t_id t @ ''-000000''))))
             else Inl (ValueError ''codex-tmux requires a nonempty brief'')
           | _ \<Rightarrow> Inl (ValueError ''codex-tmux requires a nonempty brief''))
        else Inl (ValueError ''codex-tmux requires an existing absolute workspace directory'')
      | _ \<Rightarrow> Inl (ValueError ''codex-tmux requires an existing absolute workspace directory''))"

definition first_state :: "tmux_executor \<Rightarrow> task \<Rightarrow> lease \<Rightarrow> string \<Rightarrow> dict" where
  "first_state X t l workspace = (let w = l_worker l in
     obj [(''workspace'', JStr workspace), (''window'', JStr w), (''receipt_path'', JStr (codex_receipt_path (tx_root X) w)),
       (''sid_path'', JStr (path_child workspace (''.session_id_'' @ w))), (''log_name'', JStr (''agent_'' @ w @ ''_'' @ w @ ''.log'')),
       (''task_id'', JStr (t_id t)), (''lease_id'', JStr (l_id l)), (''pid_file'', JStr (codex_pid_path (tx_root X) w))])"

definition same_assignment :: "dict \<Rightarrow> task \<Rightarrow> lease \<Rightarrow> bool" where
  "same_assignment d t l \<longleftrightarrow> dget d ''task_id'' = JStr (t_id t) \<and> dget d ''lease_id'' = JStr (l_id l)"

text \<open>A workspace or brief that is no text raises from the library.\<close>

definition launch_inputs :: "tmux_executor \<Rightarrow> task \<Rightarrow> (string \<times> string) res" where
  "launch_inputs X t =
     rbind (ensure (truthy (meta t ''workspace'') \<and> truthy (meta t ''brief''))
       (ValueError ''task needs metadata.workspace and metadata.brief'')) (\<lambda>_.
     rbind (worker_contract (tx_shows X) t) (\<lambda>c.
     rbind (as_str (meta t ''brief'')) (\<lambda>brief.
     rbind (as_str (meta t ''workspace'')) (\<lambda>ws. Inr (tx_resolve X ws, brief @ c)))))"

definition codex_launch :: "station \<Rightarrow> terminal \<Rightarrow> tmux_executor \<Rightarrow> task \<Rightarrow> lease \<Rightarrow> (panes, string) cmd" where
  "codex_launch E T X t l = (let w = l_worker l; session_handle = tx_session X @ '':'' @ w in
     seq (on_agents T begin_op)
     (bnd (pure (launch_inputs X t)) (\<lambda>(workspace, brief).
     bnd (asks (\<lambda>s. load_state (tx_root X) w (pn_agents s))) (\<lambda>st.
     bnd (case st of None \<Rightarrow> ret (Some False)
        | Some d \<Rightarrow> seq (guard (same_assignment d t l) (ExecutorUnavailable ''persisted lease/task mismatch; launch withheld''))
            (agent_alive E T d)) (\<lambda>observed. case observed of
       Some True \<Rightarrow> ret session_handle
     | None \<Rightarrow> throw (ExecutorUnavailable ''prior dispatch/process identity unknown; launch withheld'')
     | Some False \<Rightarrow>
         bnd (prepare_attempt E T (tx_root X) w (first_state X t l workspace)) (\<lambda>d.
         seq (put_helper E T X d)
         (seq (run_script E T X (script_path d ''.farm_launch_'' w) d w
            (launch_script (tx_config X) (tx_launch_line X (tx_config X)) (tx_sid_pattern X) (script_parts d w) brief))
         (ret session_handle))))))))"

definition wake_text :: "string \<Rightarrow> string" where
  "wake_text c = ''Wake-up: a condition you were awaiting has fired or a new ''
     @ ''MASTER_*.md landed. Re-scan your workspace, verify the awaited ''
     @ ''state, and follow the task's instructions.'' @ c"

definition fresh_brief :: "json \<Rightarrow> string \<Rightarrow> string res" where
  "fresh_brief brief wake = (if truthy brief \<and> \<not> is_str brief then Inl AttributeError
     else Inr (trim_end (case brief of JStr b \<Rightarrow> b | _ \<Rightarrow> [])
       @ ''\<newline>\<newline>FRESH SESSION: you are continuing this task in a new session. ''
       @ ''Read CHECKPOINT.md and the attempts/ ledger in your workspace before acting.\<newline>'' @ wake))"

definition codex_resume :: "station \<Rightarrow> terminal \<Rightarrow> tmux_executor \<Rightarrow> task \<Rightarrow> string \<Rightarrow> lease \<Rightarrow> (panes, unit) cmd" where
  "codex_resume E T X t w l =
     seq (on_agents T begin_op)
     (bnd (asks (\<lambda>s. load_state (tx_root X) w (pn_agents s))) (\<lambda>st. case st of
       None \<Rightarrow> throw (ExecutorUnavailable ''missing prior identity; cannot safely resume'')
     | Some d0 \<Rightarrow>
         seq (guard (same_assignment d0 t l) (ExecutorUnavailable ''persisted lease/task mismatch; resume withheld''))
         (bnd (agent_alive E T d0) (\<lambda>alive. case alive of
           Some True \<Rightarrow> ret ()
         | None \<Rightarrow> throw (ExecutorUnavailable ''prior process identity unknown; resume withheld'')
         | Some False \<Rightarrow>
             bnd (prepare_attempt E T (tx_root X) w d0) (\<lambda>d.
             seq (put_helper E T X d)
             (bnd (pure (worker_contract (tx_shows X) t)) (\<lambda>c.
              run_script E T X (script_path d ''.farm_resume_'' w) d w
                (if meta t ''resume_mode'' = JStr ''fresh''
                 then rbind (fresh_brief (meta t ''brief'') (wake_text c))
                   (launch_script (tx_config X) (tx_launch_line X (tx_config X)) (tx_sid_pattern X) (script_parts d w))
                 else resume_script (tx_config X) (tx_resume_line X (tx_config X)) (script_parts d w) (wake_text c)))))))))"

definition codex_poll :: "station \<Rightarrow> terminal \<Rightarrow> tmux_executor \<Rightarrow> string \<Rightarrow> (panes, observation) cmd" where
  "codex_poll E T X w =
     seq (on_agents T begin_op)
     (bnd (asks (\<lambda>s. load_state (tx_root X) w (pn_agents s))) (\<lambda>st. case st of
       None \<Rightarrow> ret \<lparr>o_worker = w, o_alive = None, o_receipt = None, o_detail = Some ''missing executor identity''\<rparr>
     | Some d \<Rightarrow>
         bnd (asks (\<lambda>s. fresh_receipt E (fmlookup (ag_texts (pn_agents s)) (field d ''receipt_path'')) (Inr d))) (\<lambda>r.
         bnd (agent_alive E T d) (\<lambda>alive.
         ret \<lparr>o_worker = w, o_alive = alive, o_receipt = r,
           o_detail = if alive = None then Some ''dispatch, host or process identity unverified'' else None\<rparr>))))"

definition codex_stop :: "station \<Rightarrow> terminal \<Rightarrow> tmux_executor \<Rightarrow> string \<Rightarrow> (panes, unit) cmd" where
  "codex_stop E T X w =
     seq (on_agents T begin_op)
     (bnd (asks (\<lambda>s. load_state (tx_root X) w (pn_agents s))) (\<lambda>st. case st of
       None \<Rightarrow> ret ()
     | Some d \<Rightarrow>
         bnd (agent_alive E T d) (\<lambda>alive. case alive of
           None \<Rightarrow> throw (ExecutorUnavailable ''cannot verify signal target; stop withheld'')
         | Some False \<Rightarrow> ret ()
         | Some True \<Rightarrow>
             bnd (tmux_command T X [''send-keys'', ''-t'', tx_session X @ '':'' @ field d ''window'', ''C-c''] False) (\<lambda>_. ret ()))))"

end
