(* ===== verification/Panes.thy ===== *)
theory Panes
  imports Tmux
begin

text \<open>
  What the shells of the windows do with the scripts, and the proof that no worker ever has two agents. A line
  once typed may be read at any time, and any number of times, as long as its shell lives; a script may stop
  anywhere. The directory a script makes first is what keeps an attempt from being started twice.
\<close>

subsection \<open>Shells\<close>

text \<open>The start time as \<open>awk\<close> finds it, \<open>unknown\<close> when there is none.\<close>

fun behind :: "string \<Rightarrow> string \<Rightarrow> string option" where
  "behind sep [] = None"
| "behind sep (c # s) = (if starts_with sep (c # s) then Some (drop (length sep) (c # s)) else behind sep s)"

definition awk_start :: "string \<Rightarrow> string" where
  "awk_start s = (let fs = split_ws (case behind '') '' s of Some r \<Rightarrow> r | None \<Rightarrow> drop 1 s) in
     if length fs \<le> 19 then [] else fs ! 19)"

definition read_start :: "string seen \<Rightarrow> string" where
  "read_start r = (case r of Seen s \<Rightarrow> if awk_start s = [] then ''unknown'' else awk_start s | _ \<Rightarrow> ''unknown'')"

definition set_stage :: "shell_run \<Rightarrow> stage \<Rightarrow> panes \<Rightarrow> panes" where
  "set_stage r g s = s\<lparr>pn_runs := map (\<lambda>x. if x = r then x\<lparr>rn_stage := g\<rparr> else x) (pn_runs s)\<rparr>"

definition later :: "panes \<Rightarrow> panes" where
  "later s = s\<lparr>pn_agents := tick_time (pn_agents s)\<rparr>"

definition up :: "station \<Rightarrow> panes \<Rightarrow> proc \<Rightarrow> bool" where
  "up E s p \<longleftrightarrow> en_alive E (ag_t (pn_agents s)) p"

definition new_agent :: "station \<Rightarrow> panes \<Rightarrow> script \<Rightarrow> proc" where
  "new_agent E s sc = (let t = ag_t (pn_agents s) in
     \<lparr>pr_worker = sc_worker (sf_parts sc), pr_attempt = sc_attempt (sf_parts sc), pr_pid = fst (en_spawn E t),
      pr_start = snd (en_spawn E t), pr_identity = sf_identity sc, pr_born = t\<rparr>)"

inductive pane_step :: "station \<Rightarrow> panes \<Rightarrow> panes \<Rightarrow> bool" for E where
  shell_guard: "l \<in> set (pn_lines s) \<Longrightarrow> up E s (ln_shell l) \<Longrightarrow> fmlookup (pn_scripts s) (ln_path l) = Some sc \<Longrightarrow>
    dispatch_guard (sf_parts sc) |\<notin>| pn_guards s \<Longrightarrow>
    pane_step E s (later (s\<lparr>pn_runs := \<lparr>rn_script = sc, rn_shell = ln_shell l, rn_stage = Armed\<rparr> # pn_runs s,
      pn_guards := finsert (dispatch_guard (sf_parts sc)) (pn_guards s)\<rparr>))"
| shell_clear: "r \<in> set (pn_runs s) \<Longrightarrow> up E s (rn_shell r) \<Longrightarrow>
    pane_step E s (later (s\<lparr>pn_agents := (pn_agents s)\<lparr>ag_texts :=
      fmdrop (sc_receipt (sf_parts (rn_script r))) (ag_texts (pn_agents s))\<rparr>\<rparr>))"
| shell_start: "r \<in> set (pn_runs s) \<Longrightarrow> up E s (rn_shell r) \<Longrightarrow> rn_stage r = Armed \<Longrightarrow>
    pane_step E s (later (set_stage r (Started (new_agent E s (rn_script r)))
      (s\<lparr>pn_agents := (pn_agents s)\<lparr>ag_procs := new_agent E s (rn_script r) # ag_procs (pn_agents s)\<rparr>\<rparr>)))"
| shell_time: "r \<in> set (pn_runs s) \<Longrightarrow> up E s (rn_shell r) \<Longrightarrow> rn_stage r = Started q \<Longrightarrow>
    pane_step E s (later (set_stage r (Timed q (read_start (en_table E (sf_op (rn_script r)) (ag_t (pn_agents s)) (stat_path (pr_pid q))))) s))"
| shell_name: "r \<in> set (pn_runs s) \<Longrightarrow> up E s (rn_shell r) \<Longrightarrow> rn_stage r = Timed q st \<Longrightarrow>
    pane_step E s (later (s\<lparr>pn_agents := (pn_agents s)\<lparr>ag_texts := fmupd (sc_pid_file (sf_parts (rn_script r)))
        (take k (pid_text (pr_pid q) st (sc_attempt (sf_parts (rn_script r))) @ newline1)) (ag_texts (pn_agents s))\<rparr>,
      pn_runs := removeAll r (pn_runs s)\<rparr>))"
| shell_stop: "pane_step E s (s\<lparr>pn_runs := removeAll r (pn_runs s)\<rparr>)"

subsection \<open>The invariant\<close>

text \<open>Every agent found is accounted for by its worker's files, every pid file and every agent has its guard, and what
  a living shell could still start is the recorded attempt of an idle worker.\<close>

abbreviation sp :: "string \<Rightarrow> string \<Rightarrow> string" where "sp \<equiv> codex_state_path"
abbreviation pp :: "string \<Rightarrow> string \<Rightarrow> string" where "pp \<equiv> codex_pid_path"
abbreviation wk :: "script \<Rightarrow> string" where "wk sc \<equiv> sc_worker (sf_parts sc)"
abbreviation at :: "script \<Rightarrow> string" where "at sc \<equiv> sc_attempt (sf_parts sc)"

definition state_recorded :: "string \<Rightarrow> agents \<Rightarrow> string \<Rightarrow> dict \<Rightarrow> bool" where
  "state_recorded R a w d \<longleftrightarrow> fmlookup (ag_docs a) (sp R w) = Some (Some (JObj d))"

definition guard_of :: "string \<Rightarrow> string \<Rightarrow> string \<Rightarrow> string" where
  "guard_of R w attempt = pp R w @ ''.dispatch-'' @ attempt"

definition earlier_id :: "station \<Rightarrow> agents \<Rightarrow> string \<Rightarrow> bool" where
  "earlier_id E a x \<longleftrightarrow> (\<exists>k<ag_t a. x = en_uuid E k)"

definition docs_ok :: "station \<Rightarrow> string \<Rightarrow> agents \<Rightarrow> bool" where
  "docs_ok E R a \<longleftrightarrow> (\<forall>w d. state_recorded R a w d \<longrightarrow> dget d ''pid_file'' = JStr (pp R w) \<and>
     (\<exists>x. dget d ''attempt_id'' = JStr x \<and> earlier_id E a x))"

definition names :: "string \<Rightarrow> agents \<Rightarrow> string \<Rightarrow> string \<Rightarrow> dict \<Rightarrow> bool" where
  "names R a w attempt i \<longleftrightarrow> (\<exists>d. state_recorded R a w d \<and> dget d ''attempt_id'' = JStr attempt \<and>
     (\<forall>k\<in>set identity_keys. dget d k = dget i k))"

definition unclaimed :: "string \<Rightarrow> agents \<Rightarrow> string \<Rightarrow> string \<Rightarrow> bool" where
  "unclaimed R a w attempt \<longleftrightarrow> pidfile_claim (text_at a (pp R w)) (JStr attempt) = None"

definition guarded :: "station \<Rightarrow> string \<Rightarrow> panes \<Rightarrow> bool" where
  "guarded E R s \<longleftrightarrow>
     (\<forall>w k. \<not> unclaimed R (pn_agents s) w (en_uuid E k) \<longrightarrow> guard_of R w (en_uuid E k) |\<in>| pn_guards s) \<and>
     (\<forall>p\<in>set (ag_procs (pn_agents s)). guard_of R (pr_worker p) (pr_attempt p) |\<in>| pn_guards s)"

text \<open>The shell of a line was found on the recorded host and boot.\<close>

definition origin :: "dict \<Rightarrow> dict \<Rightarrow> bool" where
  "origin d i \<longleftrightarrow> dget d ''host'' = dget i ''host'' \<and> (truthy (dget d ''boot_id'') \<longrightarrow> dget d ''boot_id'' = dget i ''boot_id'')"

definition file_worker :: "string \<Rightarrow> string" where
  "file_worker q = (let b = rev (takeWhile (\<lambda>c. c \<noteq> CHR ''/'') (rev q)) in drop 13 (take (length b - 3) b))"

definition line_ok :: "station \<Rightarrow> string \<Rightarrow> panes \<Rightarrow> typed \<Rightarrow> bool" where
  "line_ok E R s l \<longleftrightarrow> pr_born (ln_shell l) \<le> ag_t (pn_agents s) \<and> file_worker (ln_path l) = pr_worker (ln_shell l) \<and>
     (up E s (ln_shell l) \<longrightarrow> (\<exists>d. state_recorded R (pn_agents s) (pr_worker (ln_shell l)) d \<and> origin d (pr_identity (ln_shell l))))"

definition script_wf :: "station \<Rightarrow> string \<Rightarrow> agents \<Rightarrow> script \<Rightarrow> bool" where
  "script_wf E R a sc \<longleftrightarrow> sc_pid_file (sf_parts sc) = pp R (wk sc) \<and> earlier_id E a (at sc) \<and>
     dget (sf_identity sc) ''host'' = JStr (en_host E (sf_op sc)) \<and>
     dget (sf_identity sc) ''pid_namespace'' = jopt (en_ns E (sf_op sc))"

definition file_ok :: "station \<Rightarrow> string \<Rightarrow> panes \<Rightarrow> string \<Rightarrow> script \<Rightarrow> bool" where
  "file_ok E R s q sc \<longleftrightarrow> file_worker q = wk sc \<and> script_wf E R (pn_agents s) sc \<and>
     (guard_of R (wk sc) (at sc) |\<in>| pn_guards s \<or> names R (pn_agents s) (wk sc) (at sc) (sf_identity sc) \<or>
      (\<forall>l\<in>set (pn_lines s). ln_path l = q \<longrightarrow> \<not> up E s (ln_shell l)))"

definition started :: "station \<Rightarrow> string \<Rightarrow> agents \<Rightarrow> script \<Rightarrow> proc \<Rightarrow> bool" where
  "started E R a sc q \<longleftrightarrow> names R a (wk sc) (at sc) (sf_identity sc) \<and> unclaimed R a (wk sc) (at sc) \<and>
     q \<in> set (ag_procs a) \<and> pr_worker q = wk sc \<and> pr_attempt q = at sc \<and> pr_identity q = sf_identity sc \<and> pr_born q < ag_t a \<and>
     (\<forall>p. living E a (wk sc) p \<longrightarrow> p = q)"

definition timed :: "station \<Rightarrow> agents \<Rightarrow> script \<Rightarrow> proc \<Rightarrow> string \<Rightarrow> bool" where
  "timed E a sc q st \<longleftrightarrow> solid st \<and> st \<noteq> [] \<and> length st < 32 \<and>
     (living E a (wk sc) q \<longrightarrow> dget (pr_identity q) ''pid_namespace'' \<noteq> JNull \<longrightarrow> (\<forall>m. int_literal st = Inr m \<longrightarrow> m = pr_start q))"

definition stage_ok :: "station \<Rightarrow> string \<Rightarrow> agents \<Rightarrow> script \<Rightarrow> stage \<Rightarrow> bool" where
  "stage_ok E R a sc g = (case g of
     Armed \<Rightarrow> prepared_for E (sp R) (pp R) (wk sc) (at sc) (sf_identity sc) a
   | Started q \<Rightarrow> started E R a sc q
   | Timed q st \<Rightarrow> started E R a sc q \<and> timed E a sc q st)"

definition run_ok :: "station \<Rightarrow> string \<Rightarrow> panes \<Rightarrow> shell_run \<Rightarrow> bool" where
  "run_ok E R s r \<longleftrightarrow> script_wf E R (pn_agents s) (rn_script r) \<and> guard_of R (wk (rn_script r)) (at (rn_script r)) |\<in>| pn_guards s \<and>
     (\<exists>l\<in>set (pn_lines s). ln_shell l = rn_shell r) \<and> pr_worker (rn_shell r) = wk (rn_script r) \<and>
     (up E s (rn_shell r) \<longrightarrow> stage_ok E R (pn_agents s) (rn_script r) (rn_stage r))"

definition pane_ok :: "station \<Rightarrow> string \<Rightarrow> panes \<Rightarrow> bool" where
  "pane_ok E R s \<longleftrightarrow> one_each E (sp R) (pp R) (pn_agents s) \<and> docs_ok E R (pn_agents s) \<and> guarded E R s \<and>
     (\<forall>l\<in>set (pn_lines s). line_ok E R s l) \<and>
     (\<forall>q sc. fmlookup (pn_scripts s) q = Some sc \<longrightarrow> file_ok E R s q sc) \<and>
     (\<forall>r\<in>set (pn_runs s). run_ok E R s r) \<and>
     (\<forall>r\<in>set (pn_runs s). \<forall>u\<in>set (pn_runs s). wk (rn_script r) = wk (rn_script u) \<longrightarrow> at (rn_script r) = at (rn_script u) \<longrightarrow> r = u)"

text \<open>Nothing can start an agent of the worker any more.\<close>

definition quiet :: "station \<Rightarrow> string \<Rightarrow> string \<Rightarrow> panes \<Rightarrow> bool" where
  "quiet E R w s \<longleftrightarrow> idle E (sp R) (pp R) w (pn_agents s) \<and>
     (\<forall>l\<in>set (pn_lines s). \<forall>sc. pr_worker (ln_shell l) = w \<longrightarrow> up E s (ln_shell l) \<longrightarrow>
        fmlookup (pn_scripts s) (ln_path l) = Some sc \<longrightarrow> guard_of R w (at sc) |\<in>| pn_guards s) \<and>
     (\<forall>r\<in>set (pn_runs s). wk (rn_script r) = w \<longrightarrow> \<not> up E s (rn_shell r))"

subsection \<open>Paths\<close>

lemma file_worker_path:
  assumes "CHR ''/'' \<notin> set w" and "kind = ''.farm_launch_'' \<or> kind = ''.farm_resume_''"
  shows "file_worker (script_path d kind w) = w"
proof -
  define n where "n = kind @ w @ ''.sh''"
  have n: "CHR ''/'' \<notin> set n" using assms by (auto simp: n_def)
  have "takeWhile (\<lambda>c. c \<noteq> CHR ''/'') (rev n) = rev n" using n by (auto simp: takeWhile_eq_all_conv)
  then have t: "rev (takeWhile (\<lambda>c. c \<noteq> CHR ''/'') (rev n)) = n" by (metis rev_rev_ident)
  have "takeWhile (\<lambda>c. c \<noteq> CHR ''/'') (rev n @ CHR ''/'' # z) = rev n" for z
    using n by (subst takeWhile_append2) auto
  then have b: "rev (takeWhile (\<lambda>c. c \<noteq> CHR ''/'') (rev (path_child e n))) = n" for e
    using t by (simp add: path_child_def)
  have "script_path d kind w = path_child (field d ''workspace'') n" by (simp add: script_path_def n_def)
  then have "file_worker (script_path d kind w) = drop 13 (take (length n - 3) n)" using b by (simp add: file_worker_def Let_def)
  then show ?thesis using assms(2) by (auto simp: n_def)
qed

lemma codex_paths:
  assumes "\<not> starts_with ''/proc/'' (R @ ''/codex_workers/'')"
  shows "good_paths (sp R) (pp R)"
proof -
  have "starts_with ''/proc/'' (R @ ''/codex_workers/'')" if "starts_with ''/proc/'' ((R @ ''/codex_workers/'') @ z)" for z
    using that unfolding starts_with_def take_append by simp
  from this [of "w @ ''.pid''" for w] show ?thesis using assms
    by (auto simp: good_paths_def codex_state_path_def codex_pid_path_def inj_def)
qed

lemma guard_of_parts: "script_wf E R a sc \<Longrightarrow> dispatch_guard (sf_parts sc) = guard_of R (wk sc) (at sc)"
  by (simp add: script_wf_def dispatch_guard_def guard_of_def)

subsection \<open>Changes that claim and start nothing\<close>

text \<open>\<open>calm\<close>: at most an instant passes, and pid files claim no more than before.\<close>

definition calm :: "string \<Rightarrow> agents \<Rightarrow> agents \<Rightarrow> bool" where
  "calm R a b \<longleftrightarrow> ag_docs b = ag_docs a \<and> ag_procs b = ag_procs a \<and> (ag_t b = ag_t a \<or> ag_t b = Suc (ag_t a)) \<and>
     (\<forall>w x. \<not> unclaimed R b w x \<longrightarrow> \<not> unclaimed R a w x)"

lemma calm_recorded: "calm R a b \<Longrightarrow> state_recorded R b w d = state_recorded R a w d"
  by (simp add: calm_def state_recorded_def)

lemma calm_names: "calm R a b \<Longrightarrow> names R b w x i = names R a w x i"
  by (simp add: names_def calm_recorded)

lemma calm_id: "calm R a b \<Longrightarrow> earlier_id E a x \<Longrightarrow> earlier_id E b x"
  unfolding calm_def earlier_id_def by (metis less_SucI)

lemma truthful_alive: "truthful E \<Longrightarrow> pr_born p \<le> t \<Longrightarrow> en_alive E (Suc t) p \<Longrightarrow> en_alive E t p"
  unfolding truthful_def by (elim conjE) simp

lemma truthful_short:
  "truthful E \<Longrightarrow> en_table E n t (stat_path pid) = Seen s \<Longrightarrow> start_field s = Some x \<Longrightarrow> length (int_str x) < 32"
  unfolding truthful_def by (elim conjE) simp

lemma calm_alive: "truthful E \<Longrightarrow> calm R a b \<Longrightarrow> pr_born p \<le> ag_t a \<Longrightarrow> en_alive E (ag_t b) p \<Longrightarrow> en_alive E (ag_t a) p"
  using truthful_alive [of E p "ag_t a"] unfolding calm_def by auto

lemma calm_living:
  assumes "truthful E" and "calm R a b" and "one_each E x y a" and "living E b w p"
  shows "living E a w p"
  using assms calm_alive [of E R a b p] by (auto simp: living_def one_each_def calm_def less_imp_le)

lemma calm_idle:
  assumes "truthful E" and "calm R a b" and "idle E (sp R) (pp R) w a" and "one_each E (sp R) (pp R) b"
  shows "idle E (sp R) (pp R) w b"
  using assms(3,4) calm_living [OF assms(1,2), of "sp R" "pp R"] unfolding idle_def by blast

lemma calm_wf: "calm R a b \<Longrightarrow> script_wf E R a sc \<Longrightarrow> script_wf E R b sc"
  by (auto simp: script_wf_def calm_id)

lemma prepared_for_iff:
  "prepared_for E (sp R) (pp R) w x i a \<longleftrightarrow> idle E (sp R) (pp R) w a \<and> names R a w x i \<and> unclaimed R a w x \<and> earlier_id E a x"
  by (auto simp: prepared_for_def names_def unclaimed_def earlier_id_def state_recorded_def)

lemma calm_stage:
  assumes E: "truthful E" and c: "calm R a b" and o: "one_each E (sp R) (pp R) a" "one_each E (sp R) (pp R) b" and g: "stage_ok E R a sc g"
  shows "stage_ok E R b sc g"
proof -
  have u: "unclaimed R a w x \<Longrightarrow> unclaimed R b w x" for w x using c by (auto simp: calm_def)
  have s: "started E R a sc q \<Longrightarrow> started E R b sc q" for q
    using c calm_living [OF E c o(1)] u by (auto simp: started_def calm_names [OF c]) (auto simp: calm_def less_SucI)
  have t: "timed E a sc q st \<Longrightarrow> timed E b sc q st" for q st
    using calm_living [OF E c o(1)] by (auto simp: timed_def)
  show ?thesis using g s t u calm_idle [OF E c _ o(2)] calm_id [OF c]
    by (auto simp: stage_ok_def prepared_for_iff calm_names [OF c] split: stage.splits)
qed

lemma calm_pane_ok:
  assumes E: "truthful E" and ok: "pane_ok E R s" and c: "calm R (pn_agents s) b" and o: "one_each E (sp R) (pp R) b"
  shows "pane_ok E R (s\<lparr>pn_agents := b\<rparr>)"
proof -
  let ?s = "s\<lparr>pn_agents := b\<rparr>"
  have oa: "one_each E (sp R) (pp R) (pn_agents s)" using ok by (simp add: pane_ok_def)
  have u: "up E ?s p \<Longrightarrow> pr_born p \<le> ag_t (pn_agents s) \<Longrightarrow> up E s p" for p
    using calm_alive [OF E c] by (simp add: up_def)
  have docs: "docs_ok E R b" using ok calm_id [OF c] by (auto simp: pane_ok_def docs_ok_def calm_recorded [OF c]) blast
  have g: "guarded E R ?s" using ok c by (auto simp: pane_ok_def guarded_def calm_def)
  have l: "line_ok E R ?s l" if "l \<in> set (pn_lines s)" for l
  proof -
    have "line_ok E R s l" using ok that by (simp add: pane_ok_def)
    moreover have "ag_t (pn_agents s) \<le> ag_t b" using c by (auto simp: calm_def)
    ultimately show ?thesis using u [of "ln_shell l"] by (auto simp: line_ok_def calm_recorded [OF c])
  qed
  have born: "pr_born (ln_shell l) \<le> ag_t (pn_agents s)" if "l \<in> set (pn_lines s)" for l
    using ok that by (simp add: pane_ok_def line_ok_def)
  have f: "file_ok E R ?s q sc" if "fmlookup (pn_scripts s) q = Some sc" for q sc
  proof -
    have "file_ok E R s q sc" using ok that by (simp add: pane_ok_def)
    then show ?thesis using u born by (auto simp: file_ok_def calm_names [OF c] calm_wf [OF c])
  qed
  have r: "run_ok E R ?s r" if "r \<in> set (pn_runs s)" for r
  proof -
    have k: "run_ok E R s r" using ok that by (simp add: pane_ok_def)
    then obtain l where l: "l \<in> set (pn_lines s)" "ln_shell l = rn_shell r" by (auto simp: run_ok_def)
    from u [of "rn_shell r"] born [OF l(1)] l(2) have "up E ?s (rn_shell r) \<Longrightarrow> up E s (rn_shell r)" by simp
    then show ?thesis using k calm_stage [OF E c oa o] calm_wf [OF c] by (auto simp: run_ok_def)
  qed
  show ?thesis unfolding pane_ok_def using o docs g l f r ok by (simp add: pane_ok_def)
qed

lemma calm_quiet:
  assumes E: "truthful E" and ok: "pane_ok E R s" and c: "calm R (pn_agents s) b" and o: "one_each E (sp R) (pp R) b" and q: "quiet E R w s"
  shows "quiet E R w (s\<lparr>pn_agents := b\<rparr>)"
proof -
  let ?s = "s\<lparr>pn_agents := b\<rparr>"
  have u: "up E ?s (ln_shell l) \<Longrightarrow> up E s (ln_shell l)" if "l \<in> set (pn_lines s)" for l
  proof -
    have "pr_born (ln_shell l) \<le> ag_t (pn_agents s)" using ok that by (simp add: pane_ok_def line_ok_def)
    then show "up E ?s (ln_shell l) \<Longrightarrow> up E s (ln_shell l)" using calm_alive [OF E c] by (simp add: up_def)
  qed
  have r: "up E ?s (rn_shell r) \<Longrightarrow> up E s (rn_shell r)" if "r \<in> set (pn_runs s)" for r
  proof -
    have "run_ok E R s r" using ok that by (simp add: pane_ok_def)
    then obtain l where "l \<in> set (pn_lines s)" "ln_shell l = rn_shell r" by (auto simp: run_ok_def)
    then show "up E ?s (rn_shell r) \<Longrightarrow> up E s (rn_shell r)" using u by metis
  qed
  have "idle E (sp R) (pp R) w b" using calm_idle [OF E c _ o] q by (simp add: quiet_def)
  then show ?thesis using q u r by (auto simp: quiet_def)
qed

lemma calm_tick: "calm R a (tick_time a)"
  by (simp add: calm_def unclaimed_def)

lemma calm_text:
  assumes "\<And>w. q \<noteq> pp R w"
  shows "calm R a (tick_time (a\<lparr>ag_texts := fmupd q x (ag_texts a)\<rparr>))"
proof -
  have "pp R w \<noteq> q" for w using assms [of w] by simp
  then show ?thesis by (simp add: calm_def unclaimed_def)
qed

lemma calm_drop: "calm R a (tick_time (a\<lparr>ag_texts := fmdrop q (ag_texts a)\<rparr>))"
  by (simp add: calm_def unclaimed_def)

lemma calm_op: "calm R a ((tick_time a)\<lparr>ag_op := n\<rparr>)"
  by (simp add: calm_def unclaimed_def)

subsection \<open>Steps of the shells\<close>

text \<open>The hypothesis on the texts of \<open>/proc\<close>: a command name without a closing bracket, then the fields, the
  twentieth of which is the start time in plain digits.\<close>

definition plain_stat :: "string \<Rightarrow> bool" where
  "plain_stat s \<longleftrightarrow> (\<exists>a b x. s = a @ '') '' @ b \<and> CHR '')'' \<notin> set a \<and> 19 < length (split_ws b) \<and>
     split_ws b ! 19 = int_str x \<and> start_field s = Some x)"

definition plain_stats :: "station \<Rightarrow> bool" where
  "plain_stats E \<longleftrightarrow> (\<forall>n t pid s. en_table E n t (stat_path pid) = Seen s \<longrightarrow> plain_stat s)"

lemma behind_bracket: "CHR '')'' \<notin> set a \<Longrightarrow> behind '') '' (a @ '') '' @ b) = Some b"
  by (induction a) (auto simp: starts_with_def)

lemma awk_start_plain: "plain_stat s \<Longrightarrow> \<exists>x. awk_start s = int_str x \<and> start_field s = Some x"
  unfolding plain_stat_def using behind_bracket by (force simp: awk_start_def Let_def)

lemma unknown_no_int: "int_literal ''unknown'' \<noteq> Inr m"
proof -
  have "\<not> fullmatch int_rx (strip ''unknown'')" by code_simp
  then show ?thesis by (simp add: int_literal_def Let_def)
qed

lemma read_start_timed:
  assumes E: "truthful E" "plain_stats E" and i: "pr_identity q = sf_identity sc" "dget (sf_identity sc) ''host'' = JStr (en_host E (sf_op sc))"
      "dget (sf_identity sc) ''pid_namespace'' = jopt (en_ns E (sf_op sc))" and b: "pr_born q < ag_t a"
  shows "timed E a sc q (read_start (en_table E (sf_op sc) (ag_t a) (stat_path (pr_pid q))))"
proof (cases "\<exists>s. en_table E (sf_op sc) (ag_t a) (stat_path (pr_pid q)) = Seen s")
  case True
  then obtain s where s: "en_table E (sf_op sc) (ag_t a) (stat_path (pr_pid q)) = Seen s" by blast
  have "plain_stat s" using E(2) s unfolding plain_stats_def by blast
  from awk_start_plain [OF this] obtain x where x: "awk_start s = int_str x" "start_field s = Some x" by blast
  have st: "read_start (Seen s) = int_str x" using x int_str_solid(2) by (simp add: read_start_def)
  have len: "length (int_str x) < 32" by (rule truthful_short [OF E(1) s x(2)])
  have "m = pr_start q" if l: "living E a (wk sc) q" and ns: "dget (pr_identity q) ''pid_namespace'' \<noteq> JNull" and m: "int_literal (int_str x) = Inr m" for m
  proof -
    let ?M = "\<lparr>h_name = en_host E (sf_op sc), h_boot = en_boot E (sf_op sc) (ag_t a), h_ns = en_ns E (sf_op sc), h_read = undefined\<rparr>"
    have "same_host (pr_identity q) ?M" using i by (simp add: same_host_def)
    moreover have "en_ns E (sf_op sc) \<noteq> None" using i ns by (cases "en_ns E (sf_op sc)") auto
    moreover have "en_alive E (ag_t a) q" "pr_born q \<le> ag_t a" using l b by (auto simp: living_def)
    ultimately have "start_field s = Some (pr_start q)" using E(1) s i unfolding truthful_def by metis
    then show ?thesis using x(2) int_literal_str [OF m] by simp
  qed
  then show ?thesis using s st len int_str_solid by (simp add: timed_def)
next
  case False
  then have "read_start (en_table E (sf_op sc) (ag_t a) (stat_path (pr_pid q))) = ''unknown''"
    by (cases "en_table E (sf_op sc) (ag_t a) (stat_path (pr_pid q))") (auto simp: read_start_def)
  then show ?thesis using unknown_no_int by (simp add: timed_def solid_def is_space_def)
qed

text \<open>What a step of another worker leaves of a run.\<close>

lemma stage_kept:
  assumes l: "\<And>p. living E b (wk sc) p \<Longrightarrow> living E a (wk sc) p" and p: "set (ag_procs a) \<subseteq> set (ag_procs b)" and t: "ag_t a \<le> ag_t b"
    and d: "ag_docs b = ag_docs a" and c: "\<And>x. unclaimed R a (wk sc) x \<Longrightarrow> unclaimed R b (wk sc) x"
    and o: "one_each E (sp R) (pp R) b" and g: "stage_ok E R a sc g"
  shows "stage_ok E R b sc g"
proof -
  have n: "names R b w x i = names R a w x i" for w x i using d by (simp add: names_def state_recorded_def)
  have e: "earlier_id E a x \<Longrightarrow> earlier_id E b x" for x using t less_le_trans unfolding earlier_id_def by blast
  have s: "started E R a sc q \<Longrightarrow> started E R b sc q" for q
    unfolding started_def n using l p c t by (meson less_le_trans subsetD)
  have m: "timed E a sc q st \<Longrightarrow> timed E b sc q st" for q st using l by (auto simp: timed_def)
  have i: "idle E (sp R) (pp R) (wk sc) a \<Longrightarrow> idle E (sp R) (pp R) (wk sc) b" using l o unfolding idle_def by blast
  show ?thesis using g s m i e c by (auto simp: stage_ok_def prepared_for_iff n split: stage.splits)
qed

lemma quiet_kept:
  assumes q: "quiet E R w s" and ok: "pane_ok E R s'" and d: "pn_lines s' = pn_lines s" "pn_scripts s' = pn_scripts s" "pn_guards s |\<subseteq>| pn_guards s'"
    and l: "\<And>p. living E (pn_agents s') w p \<Longrightarrow> living E (pn_agents s) w p"
    and u: "\<And>l. l \<in> set (pn_lines s) \<Longrightarrow> up E s' (ln_shell l) \<Longrightarrow> up E s (ln_shell l)"
    and r: "\<And>r. r \<in> set (pn_runs s') \<Longrightarrow> wk (rn_script r) = w \<Longrightarrow> \<exists>v\<in>set (pn_runs s). wk (rn_script v) = w \<and> rn_shell v = rn_shell r"
    and v: "\<And>r. r \<in> set (pn_runs s) \<Longrightarrow> up E s' (rn_shell r) \<Longrightarrow> up E s (rn_shell r)"
  shows "quiet E R w s'"
proof -
  have "idle E (sp R) (pp R) w (pn_agents s')" using q ok l unfolding idle_def quiet_def pane_ok_def by blast
  moreover have "guard_of R w (at sc) |\<in>| pn_guards s'" if "l0 \<in> set (pn_lines s')" "pr_worker (ln_shell l0) = w" "up E s' (ln_shell l0)"
      "fmlookup (pn_scripts s') (ln_path l0) = Some sc" for l0 sc
    using that q d u unfolding quiet_def by auto
  moreover have "\<not> up E s' (rn_shell r0)" if "r0 \<in> set (pn_runs s')" "wk (rn_script r0) = w" for r0
    using r [OF that] v q unfolding quiet_def by metis
  ultimately show ?thesis unfolding quiet_def by blast
qed

lemma run_shell_born: "pane_ok E R s \<Longrightarrow> r \<in> set (pn_runs s) \<Longrightarrow> \<exists>l\<in>set (pn_lines s). ln_shell l = rn_shell r \<and> pr_born (rn_shell r) \<le> ag_t (pn_agents s)"
  unfolding pane_ok_def run_ok_def line_ok_def by metis

lemma tick_up: "truthful E \<Longrightarrow> pr_born p \<le> ag_t (pn_agents s) \<Longrightarrow> ag_t (pn_agents s') = Suc (ag_t (pn_agents s)) \<Longrightarrow> up E s' p \<Longrightarrow> up E s p"
  using truthful_alive [of E p "ag_t (pn_agents s)"] by (simp add: up_def)

text \<open>The guard.\<close>

lemma guard_step:
  assumes ok: "pane_ok E R s" and l: "l \<in> set (pn_lines s)" "up E s (ln_shell l)" "fmlookup (pn_scripts s) (ln_path l) = Some sc"
    and g: "dispatch_guard (sf_parts sc) |\<notin>| pn_guards s"
  shows "pane_ok E R (s\<lparr>pn_runs := \<lparr>rn_script = sc, rn_shell = ln_shell l, rn_stage = Armed\<rparr> # pn_runs s,
      pn_guards := finsert (dispatch_guard (sf_parts sc)) (pn_guards s)\<rparr>)" (is "pane_ok E R ?s")
    and "pr_worker (ln_shell l) = wk sc"
proof -
  let ?a = "pn_agents s" and ?r = "\<lparr>rn_script = sc, rn_shell = ln_shell l, rn_stage = Armed\<rparr>"
  have f: "file_ok E R s (ln_path l) sc" and k: "line_ok E R s l" using ok l by (simp_all add: pane_ok_def)
  then show w: "pr_worker (ln_shell l) = wk sc" by (simp add: file_ok_def line_ok_def)
  have wf: "script_wf E R ?a sc" using f by (simp add: file_ok_def)
  note gd = guard_of_parts [OF wf]
  have n: "names R ?a (wk sc) (at sc) (sf_identity sc)" using f g gd l by (auto simp: file_ok_def)
  obtain j where j: "j < ag_t ?a" "at sc = en_uuid E j" using wf by (auto simp: script_wf_def earlier_id_def)
  have uc: "unclaimed R ?a (wk sc) (at sc)" using ok g gd j(2) by (auto simp: pane_ok_def guarded_def)
  have "\<not> living E ?a (wk sc) p" for p
  proof
    assume p: "living E ?a (wk sc) p"
    then have "accounts (sp R) (pp R) ?a p" using ok by (auto simp: pane_ok_def one_each_def)
    then have "pr_attempt p = at sc" using n p by (auto simp: accounts_def names_def state_recorded_def living_def)
    moreover have "guard_of R (pr_worker p) (pr_attempt p) |\<in>| pn_guards s" using ok p by (auto simp: pane_ok_def guarded_def living_def)
    ultimately show False using g gd p by (simp add: living_def)
  qed
  then have "idle E (sp R) (pp R) (wk sc) ?a" using ok by (simp add: idle_def pane_ok_def)
  then have st: "stage_ok E R ?a sc Armed" using n uc wf by (simp add: stage_ok_def prepared_for_iff script_wf_def)
  have up: "up E ?s p = up E s p" for p by (simp add: up_def)
  have line: "line_ok E R ?s m = line_ok E R s m" for m by (simp add: line_ok_def up)
  have old: "run_ok E R ?s u" if "run_ok E R s u" for u using that by (auto simp: run_ok_def up)
  have new: "run_ok E R ?s ?r" using wf gd l(1) w st by (auto simp: run_ok_def)
  have "file_ok E R ?s q x" if "file_ok E R s q x" for q x using that by (auto simp: file_ok_def up)
  moreover have "guarded E R ?s" using ok by (auto simp: pane_ok_def guarded_def)
  moreover have "\<not> (wk (rn_script u) = wk sc \<and> at (rn_script u) = at sc)" if "u \<in> set (pn_runs s)" for u
  proof
    have "run_ok E R s u" using ok that by (simp add: pane_ok_def)
    moreover assume "wk (rn_script u) = wk sc \<and> at (rn_script u) = at sc"
    ultimately show False using g gd by (simp add: run_ok_def)
  qed
  then have "\<forall>r\<in>set (pn_runs ?s). \<forall>u\<in>set (pn_runs ?s). wk (rn_script r) = wk (rn_script u) \<longrightarrow> at (rn_script r) = at (rn_script u) \<longrightarrow> r = u"
    using ok by (simp add: pane_ok_def) metis
  ultimately show "pane_ok E R ?s" using ok old new line by (simp add: pane_ok_def)
qed

text \<open>A change of one run that leaves lines, scripts and guards: what has to be shown of the agents and the runs.\<close>

lemma run_step:
  assumes ok: "pane_ok E R s" and E: "truthful E"
    and d: "pn_lines s' = pn_lines s" "pn_scripts s' = pn_scripts s" "pn_guards s' = pn_guards s"
      "ag_docs (pn_agents s') = ag_docs (pn_agents s)"
    and t: "ag_t (pn_agents s') = ag_t (pn_agents s) \<or> ag_t (pn_agents s') = Suc (ag_t (pn_agents s))"
    and one: "one_each E (sp R) (pp R) (pn_agents s')" and g: "guarded E R s'"
    and r: "\<And>r. r \<in> set (pn_runs s') \<Longrightarrow> \<exists>u\<in>set (pn_runs s). rn_script u = rn_script r \<and> rn_shell u = rn_shell r \<and>
       (up E s (rn_shell r) \<longrightarrow> stage_ok E R (pn_agents s) (rn_script r) (rn_stage u) \<longrightarrow> stage_ok E R (pn_agents s') (rn_script r) (rn_stage r))"
    and u: "\<And>r v. r \<in> set (pn_runs s') \<Longrightarrow> v \<in> set (pn_runs s') \<Longrightarrow> wk (rn_script r) = wk (rn_script v) \<Longrightarrow> at (rn_script r) = at (rn_script v) \<Longrightarrow> r = v"
  shows "pane_ok E R s'"
proof -
  have rec: "state_recorded R (pn_agents s') w x = state_recorded R (pn_agents s) w x" for w x using d by (simp add: state_recorded_def)
  have n: "names R (pn_agents s') w x i = names R (pn_agents s) w x i" for w x i by (simp add: names_def rec)
  have le: "ag_t (pn_agents s) \<le> ag_t (pn_agents s')" using t by auto
  have e: "earlier_id E (pn_agents s) x \<Longrightarrow> earlier_id E (pn_agents s') x" for x using le less_le_trans unfolding earlier_id_def by blast
  have dn: "up E s' p \<Longrightarrow> pr_born p \<le> ag_t (pn_agents s) \<Longrightarrow> up E s p" for p using t tick_up [OF E] by (auto simp: up_def)
  have wf: "script_wf E R (pn_agents s) sc \<Longrightarrow> script_wf E R (pn_agents s') sc" for sc using e by (auto simp: script_wf_def)
  have born: "pr_born (ln_shell l) \<le> ag_t (pn_agents s)" if "l \<in> set (pn_lines s)" for l using ok that by (simp add: pane_ok_def line_ok_def)
  have "docs_ok E R (pn_agents s')" using ok e unfolding pane_ok_def docs_ok_def rec by blast
  moreover have "line_ok E R s' l" if "l \<in> set (pn_lines s)" for l
  proof -
    have "line_ok E R s l" using ok that by (simp add: pane_ok_def)
    then show ?thesis using le dn unfolding line_ok_def rec by auto
  qed
  moreover have "file_ok E R s' q sc" if "fmlookup (pn_scripts s) q = Some sc" for q sc
  proof -
    have "file_ok E R s q sc" using ok that by (simp add: pane_ok_def)
    then show ?thesis using wf dn born unfolding file_ok_def n d by blast
  qed
  moreover have "run_ok E R s' x" if x: "x \<in> set (pn_runs s')" for x
  proof -
    from r [OF x] obtain v where v: "v \<in> set (pn_runs s)" "rn_script v = rn_script x" "rn_shell v = rn_shell x"
      and st: "up E s (rn_shell x) \<Longrightarrow> stage_ok E R (pn_agents s) (rn_script x) (rn_stage v) \<Longrightarrow> stage_ok E R (pn_agents s') (rn_script x) (rn_stage x)" by blast
    have k: "run_ok E R s v" using ok v(1) by (simp add: pane_ok_def)
    have b: "pr_born (rn_shell v) \<le> ag_t (pn_agents s)" using run_shell_born [OF ok v(1)] by blast
    show ?thesis using k v(2,3) st wf dn [OF _ b] unfolding run_ok_def d by auto
  qed
  ultimately show ?thesis unfolding pane_ok_def using one g d u by simp
qed

lemma set_stage_runs: "pn_runs (set_stage r g s) = map (\<lambda>x. if x = r then x\<lparr>rn_stage := g\<rparr> else x) (pn_runs s)"
  "pn_agents (set_stage r g s) = pn_agents s" "pn_lines (set_stage r g s) = pn_lines s" "pn_scripts (set_stage r g s) = pn_scripts s"
  "pn_guards (set_stage r g s) = pn_guards s"
  by (simp_all add: set_stage_def)

lemma later_fields [simp]: "pn_agents (later s) = tick_time (pn_agents s)" "pn_runs (later s) = pn_runs s" "pn_lines (later s) = pn_lines s"
  "pn_scripts (later s) = pn_scripts s" "pn_guards (later s) = pn_guards s"
  by (simp_all add: later_def)

lemma run_at: "pane_ok E R s \<Longrightarrow> r \<in> set (pn_runs s) \<Longrightarrow> up E s (rn_shell r) \<Longrightarrow>
    run_ok E R s r \<and> stage_ok E R (pn_agents s) (rn_script r) (rn_stage r)"
  by (simp add: pane_ok_def run_ok_def)

lemma runs_apart:
  "pane_ok E R s \<Longrightarrow> r \<in> set (pn_runs s) \<Longrightarrow> u \<in> set (pn_runs s) \<Longrightarrow> wk (rn_script r) = wk (rn_script u) \<Longrightarrow>
     at (rn_script r) = at (rn_script u) \<Longrightarrow> r = u"
  unfolding pane_ok_def by blast

lemma stage_names: "stage_ok E R a sc g \<Longrightarrow> names R a (wk sc) (at sc) (sf_identity sc)"
  by (auto simp: stage_ok_def prepared_for_iff started_def split: stage.splits)

lemma names_same: "names R a w x i \<Longrightarrow> names R a w y j \<Longrightarrow> x = y"
  by (auto simp: names_def state_recorded_def)

text \<open>Of two live runs of a worker both are the same.\<close>

lemma run_at_work:
  assumes "pane_ok E R s" and "r \<in> set (pn_runs s)" "up E s (rn_shell r)" and "u \<in> set (pn_runs s)" "up E s (rn_shell u)"
    and "wk (rn_script u) = wk (rn_script r)"
  shows "u = r"
proof -
  have "names R (pn_agents s) (wk (rn_script r)) (at (rn_script r)) (sf_identity (rn_script r))"
    "names R (pn_agents s) (wk (rn_script u)) (at (rn_script u)) (sf_identity (rn_script u))"
    using run_at [OF assms(1,2,3)] run_at [OF assms(1,4,5)] stage_names by blast+
  with assms(6) have "at (rn_script u) = at (rn_script r)" using names_same by metis
  then show ?thesis using runs_apart [OF assms(1,4,2)] assms(6) by simp
qed

text \<open>Starting the agent.\<close>

lemma start_step:
  assumes E: "truthful E" and ok: "pane_ok E R s" and r: "r \<in> set (pn_runs s)" "up E s (rn_shell r)" "rn_stage r = Armed"
  defines "q \<equiv> new_agent E s (rn_script r)"
  shows "pane_ok E R (later (set_stage r (Started q) (s\<lparr>pn_agents := (pn_agents s)\<lparr>ag_procs := q # ag_procs (pn_agents s)\<rparr>\<rparr>)))"
    (is "pane_ok E R ?s")
proof -
  let ?a = "pn_agents s" and ?sc = "rn_script r"
  let ?b = "tick_time (?a\<lparr>ag_procs := q # ag_procs ?a\<rparr>)"
  have ro: "run_ok E R s r" and prep: "prepared_for E (sp R) (pp R) (wk ?sc) (at ?sc) (sf_identity ?sc) ?a"
    using run_at [OF ok r(1,2)] r(3) by (simp_all add: stage_ok_def)
  have q: "pr_worker q = wk ?sc" "pr_attempt q = at ?sc" "pr_identity q = sf_identity ?sc" "pr_born q = ag_t ?a"
    by (simp_all add: q_def new_agent_def Let_def)
  note sp = one_each_spawn [OF E prep q]
  have b: "pn_agents ?s = ?b" by (simp add: set_stage_runs)
  have oa: "one_each E (sp R) (pp R) ?a" using ok by (simp add: pane_ok_def)
  have lv: "living E ?b w p \<Longrightarrow> w \<noteq> wk ?sc \<Longrightarrow> living E ?a w p" for w p
    using living_tick [OF E oa, of w p] q(1) by (auto simp: living_def)
  have g: "guarded E R ?s" using ok ro q by (auto simp: pane_ok_def guarded_def run_ok_def set_stage_runs unclaimed_def)
  have st: "stage_ok E R ?b (rn_script u) (rn_stage u)"
    if "u \<in> set (pn_runs s)" "u \<noteq> r" "up E s (rn_shell u)" "stage_ok E R ?a (rn_script u) (rn_stage u)" for u
  proof (rule stage_kept [OF _ _ _ _ _ sp(1) that(4)])
    have "wk (rn_script u) \<noteq> wk ?sc" using run_at_work [OF ok r(1,2) that(1,3)] that(2) by blast
    then show "living E ?b (wk (rn_script u)) p \<Longrightarrow> living E ?a (wk (rn_script u)) p" for p by (rule lv [rotated])
  qed (auto simp: unclaimed_def)
  have new: "stage_ok E R ?b ?sc (Started q)" unfolding stage_ok_def stage.case started_def
  proof (intro conjI allI impI)
    show "p = q" if "living E ?b (wk ?sc) p" for p using sp(2) that by simp
  qed (use prep q in \<open>auto simp: prepared_for_iff names_def state_recorded_def unclaimed_def\<close>)
  show ?thesis
  proof (rule run_step [OF ok E])
    fix x assume "x \<in> set (pn_runs ?s)"
    then obtain u where u: "u \<in> set (pn_runs s)" "x = (if u = r then u\<lparr>rn_stage := Started q\<rparr> else u)" by (auto simp: set_stage_runs)
    then show "\<exists>u\<in>set (pn_runs s). rn_script u = rn_script x \<and> rn_shell u = rn_shell x \<and>
       (up E s (rn_shell x) \<longrightarrow> stage_ok E R (pn_agents s) (rn_script x) (rn_stage u) \<longrightarrow> stage_ok E R (pn_agents ?s) (rn_script x) (rn_stage x))"
      unfolding b using new st by (intro bexI [of _ u]) (auto split: if_splits)
  next
    fix x v assume "x \<in> set (pn_runs ?s)" "v \<in> set (pn_runs ?s)" "wk (rn_script x) = wk (rn_script v)" "at (rn_script x) = at (rn_script v)"
    then show "x = v" using runs_apart [OF ok] by (auto simp: set_stage_runs split: if_splits)
  qed (use sp(1) g in \<open>simp_all add: set_stage_runs\<close>)
qed

text \<open>Reading the start time.\<close>

lemma time_step:
  assumes E: "truthful E" "plain_stats E" and ok: "pane_ok E R s" and r: "r \<in> set (pn_runs s)" "up E s (rn_shell r)" "rn_stage r = Started q"
  shows "pane_ok E R (later (set_stage r (Timed q (read_start (en_table E (sf_op (rn_script r)) (ag_t (pn_agents s)) (stat_path (pr_pid q))))) s))"
    (is "pane_ok E R (later ?s)")
proof -
  let ?a = "pn_agents s" and ?sc = "rn_script r"
  have ro: "run_ok E R s r" and g: "started E R ?a ?sc q" using run_at [OF ok r(1,2)] r(3) by (simp_all add: stage_ok_def)
  have "timed E ?a ?sc q (read_start (en_table E (sf_op ?sc) (ag_t ?a) (stat_path (pr_pid q))))"
    by (rule read_start_timed [OF E]) (use ro g in \<open>simp_all add: run_ok_def script_wf_def started_def\<close>)
  then have new: "stage_ok E R ?a ?sc (Timed q (read_start (en_table E (sf_op ?sc) (ag_t ?a) (stat_path (pr_pid q)))))" using g by (simp add: stage_ok_def)
  have "pane_ok E R ?s"
  proof (rule run_step [OF ok E(1)])
    fix x assume "x \<in> set (pn_runs ?s)"
    then obtain u where u: "u \<in> set (pn_runs s)" "x = (if u = r then u\<lparr>rn_stage := Timed q (read_start (en_table E (sf_op ?sc) (ag_t ?a) (stat_path (pr_pid q))))\<rparr> else u)"
      by (auto simp: set_stage_runs)
    then show "\<exists>u\<in>set (pn_runs s). rn_script u = rn_script x \<and> rn_shell u = rn_shell x \<and>
       (up E s (rn_shell x) \<longrightarrow> stage_ok E R (pn_agents s) (rn_script x) (rn_stage u) \<longrightarrow> stage_ok E R (pn_agents ?s) (rn_script x) (rn_stage x))"
      using new by (intro bexI [of _ u]) (auto simp: set_stage_runs split: if_splits)
  next
    fix x v assume "x \<in> set (pn_runs ?s)" "v \<in> set (pn_runs ?s)" "wk (rn_script x) = wk (rn_script v)" "at (rn_script x) = at (rn_script v)"
    then show "x = v" using runs_apart [OF ok] by (auto simp: set_stage_runs split: if_splits)
  qed (use ok in \<open>simp_all add: set_stage_runs pane_ok_def guarded_def\<close>)
  then show ?thesis unfolding later_def by (rule calm_pane_ok [OF E(1) _ calm_tick one_each_tick [OF E(1)]]) (use ok in \<open>simp add: set_stage_runs pane_ok_def\<close>)
qed

text \<open>Writing the pid file, in whole or in part, with its newline.\<close>

lemma split_ws_end: "split_ws (s @ newline1) = split_ws s"
proof (induction s rule: split_ws.induct)
  case (1 s)
  have n: "is_space CHR 0x0A" by (simp add: is_space_def)
  show ?case
  proof (cases "dropWhile is_space s = []")
    case True
    then have "dropWhile is_space (s @ newline1) = []" using n by (auto simp: newline1_def dropWhile_eq_Nil_conv)
    then show ?thesis using True by (subst (1 2) split_ws.simps) simp
  next
    case False
    then obtain x xs where d: "dropWhile is_space s = x # xs" by (cases "dropWhile is_space s") auto
    then have x: "\<not> is_space x" by (metis hd_dropWhile list.distinct(1) list.sel(1))
    have a: "dropWhile is_space (s @ newline1) = (x # xs) @ newline1"
    proof -
      have "\<not> (\<forall>c\<in>set s. is_space c)" using False by (simp add: dropWhile_eq_Nil_conv)
      then show ?thesis using d by (metis dropWhile_append1)
    qed
    have t: "takeWhile (\<lambda>c. \<not> is_space c) (ys @ newline1) = takeWhile (\<lambda>c. \<not> is_space c) ys" for ys
      using n by (induction ys) (auto simp: newline1_def)
    have w: "dropWhile (\<lambda>c. \<not> is_space c) (ys @ newline1) = dropWhile (\<lambda>c. \<not> is_space c) ys @ newline1" for ys
      using n by (induction ys) (auto simp: newline1_def)
    have "split_ws (s @ newline1) = takeWhile (\<lambda>c. \<not> is_space c) ((x # xs) @ newline1) # split_ws (dropWhile (\<lambda>c. \<not> is_space c) ((x # xs) @ newline1))"
      by (subst split_ws.simps) (use a in \<open>simp only: Let_def, simp\<close>)
    also have "\<dots> = takeWhile (\<lambda>c. \<not> is_space c) (x # xs) # split_ws (dropWhile (\<lambda>c. \<not> is_space c) (x # xs))"
      using "1" [OF refl] d unfolding t w by simp
    also have "\<dots> = split_ws s" using d by (subst (2) split_ws.simps) (simp only: Let_def, simp)
    finally show ?thesis .
  qed
qed

lemma claim_by_words: "split_ws x = split_ws y \<Longrightarrow> pidfile_claim (Seen x) z = pidfile_claim (Seen y) z"
  by (simp add: pidfile_claim_def)

lemma claim_newline:
  "\<exists>j. \<forall>z. pidfile_claim (Seen (take k (s @ newline1))) z = pidfile_claim (Seen (take j s)) z"
proof (cases "k \<le> length s")
  case True
  then show ?thesis by (intro exI [of _ k]) simp
next
  case False
  then have "take k (s @ newline1) = s @ newline1" by (simp add: newline1_def take_Cons')
  then show ?thesis using claim_by_words [OF split_ws_end] by (intro exI [of _ "length s"]) simp
qed

lemma one_each_claims:
  assumes "one_each E x y (a\<lparr>ag_texts := fmupd q u (ag_texts a)\<rparr>)" and "\<And>z. pidfile_claim (Seen v) z = pidfile_claim (Seen u) z"
  shows "one_each E x y (a\<lparr>ag_texts := fmupd q v (ag_texts a)\<rparr>)"
proof -
  have t: "pidfile_claim (text_at (a\<lparr>ag_texts := fmupd q v (ag_texts a)\<rparr>) p) z =
      pidfile_claim (text_at (a\<lparr>ag_texts := fmupd q u (ag_texts a)\<rparr>) p) z" for p z using assms(2) by simp
  show ?thesis using assms(1) unfolding one_each_def accounts_def no_future_claims_def living_def t by simp
qed

lemma name_step:
  assumes E: "truthful E" "fresh_uuids E" and g: "good_paths (sp R) (pp R)" and ok: "pane_ok E R s"
    and r: "r \<in> set (pn_runs s)" "up E s (rn_shell r)" "rn_stage r = Timed q st"
    and x_def: "x = take k (pid_text (pr_pid q) st (sc_attempt (sf_parts (rn_script r))) @ newline1)"
  shows "pane_ok E R (later (s\<lparr>pn_agents := (pn_agents s)\<lparr>ag_texts := fmupd (sc_pid_file (sf_parts (rn_script r))) x (ag_texts (pn_agents s))\<rparr>,
      pn_runs := removeAll r (pn_runs s)\<rparr>))"
    (is "pane_ok E R (later ?s)")
proof -
  let ?a = "pn_agents s" and ?sc = "rn_script r"
  let ?b = "?a\<lparr>ag_texts := fmupd (pp R (wk ?sc)) x (ag_texts ?a)\<rparr>"
  have ro: "run_ok E R s r" and st: "started E R ?a ?sc q" "timed E ?a ?sc q st" using run_at [OF ok r(1,2)] r(3) by (simp_all add: stage_ok_def)
  have pf: "sc_pid_file (sf_parts ?sc) = pp R (wk ?sc)" using ro by (simp add: run_ok_def script_wf_def)
  obtain j where j: "j < ag_t ?a" "at ?sc = en_uuid E j" using ro by (auto simp: run_ok_def script_wf_def earlier_id_def)
  have oa: "one_each E (sp R) (pp R) ?a" using ok by (simp add: pane_ok_def)
  obtain n where n: "\<And>y. pidfile_claim (Seen x) y = pidfile_claim (Seen (take n (pid_text (pr_pid q) st (at ?sc)))) y"
    using claim_newline unfolding x_def by blast
  have solid: "solid st" "st \<noteq> []" "length st < 32" using st(2) by (simp_all add: timed_def)
  have one: "one_each E (sp R) (pp R) ?b"
  proof (rule one_each_claims [OF _ n])
    show "one_each E (sp R) (pp R) (?a\<lparr>ag_texts := fmupd (pp R (wk ?sc)) (take n (pid_text (pr_pid q) st (at ?sc))) (ag_texts ?a)\<rparr>)"
    proof (rule one_each_pid_text [OF E(2) g oa j(2,1) solid])
      fix p assume p: "living E ?a (wk ?sc) p"
      then have "p = q" using st(1) unfolding started_def by blast
      moreover have "pr_attempt q = at ?sc" using st(1) unfolding started_def by blast
      ultimately show "pr_attempt p = at ?sc \<and> pr_pid p = pr_pid q \<and>
         (dget (pr_identity p) ''pid_namespace'' \<noteq> JNull \<longrightarrow> (\<forall>m. int_literal st = Inr m \<longrightarrow> m = pr_start p))"
        using p st(2) unfolding timed_def by blast
    qed
  qed
  have pw: "pp R w = pp R (wk ?sc) \<longleftrightarrow> w = wk ?sc" for w using g by (auto simp: good_paths_def dest: injD)
  have c: "unclaimed R ?b w y = unclaimed R ?a w y" if "w \<noteq> wk ?sc" for w y using that pw by (simp add: unclaimed_def)
  have gd: "guarded E R ?s"
  proof -
    have "guard_of R w (en_uuid E i) |\<in>| pn_guards s" if "\<not> unclaimed R ?b w (en_uuid E i)" for w i
    proof (cases "w = wk ?sc")
      case True
      have "i = j"
      proof (rule ccontr)
        assume "i \<noteq> j"
        have "pidfile_claim (Seen (take n (pid_text (pr_pid q) st (at ?sc)))) (JStr (en_uuid E i)) = None"
        proof (rule no_other_claim [OF solid])
          show "solid (at ?sc)" "32 \<le> length (en_uuid E i)" using E(2) j(2) by (simp_all add: fresh_uuids_def)
          show "take m (at ?sc) \<noteq> en_uuid E i" for m using E(2) j(2) \<open>i \<noteq> j\<close> unfolding fresh_uuids_def by metis
        qed
        then show False using that True n by (simp add: unclaimed_def)
      qed
      then show ?thesis using True ro j(2) by (simp add: run_ok_def)
    next
      case False
      then show ?thesis using that c ok by (auto simp: pane_ok_def guarded_def)
    qed
    then show ?thesis using ok pf by (auto simp: pane_ok_def guarded_def)
  qed
  have "pane_ok E R ?s"
  proof (rule run_step [OF ok E(1)])
    fix u assume u: "u \<in> set (pn_runs ?s)"
    then have m: "u \<in> set (pn_runs s)" "u \<noteq> r" by auto
    have "stage_ok E R ?b (rn_script u) (rn_stage u)" if "up E s (rn_shell u)" "stage_ok E R ?a (rn_script u) (rn_stage u)"
    proof (rule stage_kept [OF _ _ _ _ _ one that(2)])
      have "wk (rn_script u) \<noteq> wk ?sc" using run_at_work [OF ok r(1,2) m(1) that(1)] m(2) by blast
      then show "unclaimed R ?a (wk (rn_script u)) y \<Longrightarrow> unclaimed R ?b (wk (rn_script u)) y" for y by (simp add: c)
    qed (simp_all add: living_def)
    then show "\<exists>v\<in>set (pn_runs s). rn_script v = rn_script u \<and> rn_shell v = rn_shell u \<and>
       (up E s (rn_shell u) \<longrightarrow> stage_ok E R (pn_agents s) (rn_script u) (rn_stage v) \<longrightarrow> stage_ok E R (pn_agents ?s) (rn_script u) (rn_stage u))"
      using m(1) pf by (intro bexI [of _ u]) simp_all
  next
    fix u v assume "u \<in> set (pn_runs ?s)" "v \<in> set (pn_runs ?s)" "wk (rn_script u) = wk (rn_script v)" "at (rn_script u) = at (rn_script v)"
    then show "u = v" using runs_apart [OF ok] by auto
  qed (use one gd pf in simp_all)
  then show ?thesis unfolding later_def by (rule calm_pane_ok [OF E(1) _ calm_tick one_each_tick [OF E(1)]]) (use one pf in simp)
qed

lemma stop_step: "pane_ok E R s \<Longrightarrow> pane_ok E R (s\<lparr>pn_runs := removeAll r (pn_runs s)\<rparr>)"
  by (auto simp: pane_ok_def guarded_def line_ok_def file_ok_def run_ok_def up_def)

text \<open>A step of the shells keeps it all, starts nothing of a quiet worker, and writes no state, line or script.\<close>

definition same_files :: "panes \<Rightarrow> panes \<Rightarrow> bool" where
  "same_files s s' \<longleftrightarrow> ag_docs (pn_agents s') = ag_docs (pn_agents s) \<and> pn_scripts s' = pn_scripts s \<and> pn_lines s' = pn_lines s \<and>
     ag_op (pn_agents s') = ag_op (pn_agents s) \<and> ag_t (pn_agents s) \<le> ag_t (pn_agents s') \<and> pn_guards s |\<subseteq>| pn_guards s'"

lemma pane_step_ok:
  assumes E: "truthful E" "fresh_uuids E" "plain_stats E" and g: "good_paths (sp R) (pp R)"
  shows "pane_step E s s' \<Longrightarrow> pane_ok E R s \<Longrightarrow> pane_ok E R s'"
proof (induction rule: pane_step.induct)
  case (shell_guard l s sc)
  then show ?case unfolding later_def
    by (intro calm_pane_ok [OF E(1) _ calm_tick one_each_tick [OF E(1)]] guard_step(1)) (simp_all add: pane_ok_def)
next
  case (shell_clear r s)
  have "one_each E (sp R) (pp R) (tick_time ((pn_agents s)\<lparr>ag_texts := fmdrop q (ag_texts (pn_agents s))\<rparr>))" for q
    by (intro one_each_tick [OF E(1)] one_each_drop) (use shell_clear in \<open>simp add: pane_ok_def\<close>)
  from calm_pane_ok [OF E(1) shell_clear(3) calm_drop this] show ?case by (simp add: later_def)
next
  case (shell_start r s)
  then show ?case by (intro start_step [OF E(1)])
next
  case (shell_time r s q)
  then show ?case by (intro time_step [OF E(1,3)])
next
  case (shell_name r s q st k)
  then show ?case by (intro name_step [OF E(1,2) g _ _ _ _ refl])
next
  case (shell_stop s r)
  then show ?case by (intro stop_step)
qed

lemma pane_step_files: "pane_step E s s' \<Longrightarrow> same_files s s'"
  by (induction rule: pane_step.induct) (auto simp: same_files_def set_stage_runs)

end
