(* ===== verification/One_Agent.thy ===== *)
theory One_Agent
  imports Panes
begin

text \<open>
  The operations of the tmux executor keep the invariant of \<open>Panes\<close>, whatever the shells do between any two of
  their system calls, whatever tmux answers and wherever they raise: no worker ever has two living agents.
\<close>

subsection \<open>What the shells do in between\<close>

lemma pane_step_quiet:
  assumes E: "truthful E" "fresh_uuids E" "plain_stats E" and g: "good_paths (sp R) (pp R)"
    and st: "pane_step E s s'" and ok: "pane_ok E R s" and q: "quiet E R w s"
  shows "quiet E R w s'"
proof -
  have ok': "pane_ok E R s'" by (rule pane_step_ok [OF E g st ok])
  have born: "pr_born (ln_shell l) \<le> ag_t (pn_agents s)" if "l \<in> set (pn_lines s)" for l using ok that by (simp add: pane_ok_def line_ok_def)
  have rborn: "pr_born (rn_shell r) \<le> ag_t (pn_agents s)" if "r \<in> set (pn_runs s)" for r using run_shell_born [OF ok that] by blast
  have oa: "one_each E (sp R) (pp R) (pn_agents s)" using ok by (simp add: pane_ok_def)
  have other: "wk (rn_script r) \<noteq> w" if "r \<in> set (pn_runs s)" "up E s (rn_shell r)" for r using q that by (auto simp: quiet_def)
  have t: "ag_t (pn_agents s') = ag_t (pn_agents s) \<or> ag_t (pn_agents s') = Suc (ag_t (pn_agents s))"
    using st by cases (simp_all add: set_stage_runs)
  have tk: "up E s' p \<Longrightarrow> pr_born p \<le> ag_t (pn_agents s) \<Longrightarrow> up E s p" for p using t tick_up [OF E(1), of p s s'] by (auto simp: up_def)
  note us = tk [OF _ born] tk [OF _ rborn]
  from st show ?thesis
  proof cases
    case (shell_guard l sc)
    have "pr_worker (ln_shell l) = wk sc" by (rule guard_step(2) [OF ok shell_guard(2,3,4,5)])
    moreover have "dispatch_guard (sf_parts sc) = guard_of R (wk sc) (at sc)"
      using ok shell_guard(4) by (intro guard_of_parts) (auto simp: pane_ok_def file_ok_def)
    ultimately have w: "wk sc \<noteq> w" using q shell_guard(2,3,4,5) by (auto simp: quiet_def)
    show ?thesis
      by (rule quiet_kept [OF q ok']) (use shell_guard(1) w us living_tick [OF E(1) oa] in auto)
  next
    case (shell_clear r)
    show ?thesis
      by (rule quiet_kept [OF q ok']) (use shell_clear(1) us living_tick [OF E(1) oa] in \<open>auto simp: living_def\<close>)
  next
    case (shell_start r)
    have n: "pr_worker (new_agent E s (rn_script r)) \<noteq> w" using other [OF shell_start(2,3)] by (simp add: new_agent_def Let_def)
    have l: "living E (pn_agents s') w p \<Longrightarrow> living E (pn_agents s) w p" for p
      using living_tick [OF E(1) oa, of w p] n shell_start(1) by (auto simp: living_def set_stage_runs)
    show ?thesis
      by (rule quiet_kept [OF q ok' _ _ _ l]) (use shell_start(1) us in \<open>auto simp: set_stage_runs\<close>)
  next
    case (shell_time r u)
    show ?thesis
      by (rule quiet_kept [OF q ok']) (use shell_time(1) us living_tick [OF E(1) oa] in \<open>auto simp: set_stage_runs\<close>)
  next
    case (shell_name r u x k)
    show ?thesis
      by (rule quiet_kept [OF q ok']) (use shell_name(1) us living_tick [OF E(1) oa] in \<open>auto simp: living_def\<close>)
  next
    case (shell_stop r)
    show ?thesis
      by (rule quiet_kept [OF q ok']) (use shell_stop(1) us in auto)
  qed
qed

text \<open>\<open>follows\<close>: the invariant holds still, quiet workers stay quiet, and no state, script or line is new.\<close>

definition follows :: "station \<Rightarrow> string \<Rightarrow> panes \<Rightarrow> panes \<Rightarrow> bool" where
  "follows E R s s' \<longleftrightarrow> pane_ok E R s' \<and> same_files s s' \<and> (\<forall>w. quiet E R w s \<longrightarrow> quiet E R w s') \<and>
     (\<forall>l\<in>set (pn_lines s). up E s' (ln_shell l) \<longrightarrow> up E s (ln_shell l))"

lemma follows_refl: "pane_ok E R s \<Longrightarrow> follows E R s s"
  by (simp add: follows_def same_files_def)

lemma follows_trans: "follows E R s u \<Longrightarrow> follows E R u v \<Longrightarrow> follows E R s v"
  by (auto simp: follows_def same_files_def)

definition passes :: "station \<Rightarrow> terminal \<Rightarrow> bool" where
  "passes E T \<longleftrightarrow> (\<forall>t s. (pane_step E)\<^sup>*\<^sup>* s (tm_pass T t s))"

text \<open>The hypotheses on the outside: the operating system, the ids, the texts of \<open>/proc\<close>, the shells, and a runtime
  directory outside \<open>/proc\<close>.\<close>

definition sane :: "station \<Rightarrow> terminal \<Rightarrow> string \<Rightarrow> bool" where
  "sane E T R \<longleftrightarrow> truthful E \<and> fresh_uuids E \<and> plain_stats E \<and> passes E T \<and> \<not> starts_with ''/proc/'' (R @ ''/codex_workers/'')"

lemma sane_paths: "sane E T R \<Longrightarrow> good_paths (sp R) (pp R)"
  by (simp add: sane_def codex_paths)

lemma step_follows:
  assumes H: "sane E T R" and st: "pane_step E s s'" and ok: "pane_ok E R s"
  shows "follows E R s s'"
proof -
  have E: "truthful E" "fresh_uuids E" "plain_stats E" using H by (simp_all add: sane_def)
  note g = sane_paths [OF H]
  have "ag_t (pn_agents s') = ag_t (pn_agents s) \<or> ag_t (pn_agents s') = Suc (ag_t (pn_agents s))"
    using st by cases (simp_all add: set_stage_runs)
  then have "up E s' (ln_shell l) \<Longrightarrow> up E s (ln_shell l)" if "l \<in> set (pn_lines s)" for l
    using ok that tick_up [OF E(1)] by (auto simp: pane_ok_def line_ok_def up_def)
  then show ?thesis
    using pane_step_ok [OF E g st ok] pane_step_files [OF st] pane_step_quiet [OF E g st ok] by (simp add: follows_def)
qed

lemma pass_follows:
  assumes H: "sane E T R" and ok: "pane_ok E R s"
  shows "follows E R s (tm_pass T t s)"
proof -
  have "(pane_step E)\<^sup>*\<^sup>* s (tm_pass T t s)" using H by (simp add: sane_def passes_def)
  then show ?thesis
  proof (induction rule: rtranclp_induct)
    case base
    then show ?case by (rule follows_refl [OF ok])
  next
    case (step y z)
    then have "pane_ok E R y" by (simp add: follows_def)
    from follows_trans [OF step.IH step_follows [OF H step.hyps(2) this]] show ?case .
  qed
qed

lemma calm_follows:
  assumes E: "truthful E" and ok: "pane_ok E R s" and c: "calm R (pn_agents s) b" and o: "one_each E (sp R) (pp R) b"
    and p: "ag_op b = ag_op (pn_agents s)"
  shows "follows E R s (s\<lparr>pn_agents := b\<rparr>)"
proof -
  have "up E (s\<lparr>pn_agents := b\<rparr>) (ln_shell l) \<Longrightarrow> up E s (ln_shell l)" if "l \<in> set (pn_lines s)" for l
  proof -
    have "pr_born (ln_shell l) \<le> ag_t (pn_agents s)" using ok that by (simp add: pane_ok_def line_ok_def)
    then show "up E (s\<lparr>pn_agents := b\<rparr>) (ln_shell l) \<Longrightarrow> up E s (ln_shell l)" using calm_alive [OF E c] by (simp add: up_def)
  qed
  then show ?thesis using calm_pane_ok [OF E ok c o] calm_quiet [OF E ok c o] c p
    by (auto simp: follows_def same_files_def calm_def)
qed

lemma wp_on_agents:
  "wp (on_agents T m) Q s = wp m (\<lambda>r a. Q r (tm_pass T (ag_t a) (s\<lparr>pn_agents := a\<rparr>))) (pn_agents s)"
  by (simp add: wp_def on_agents_def split: prod.split)

text \<open>A system call that changes nothing of a worker, and the shells after it.\<close>

lemma wp_calm:
  assumes H: "sane E T R" and ok: "pane_ok E R s"
    and m: "wp m (\<lambda>r b. calm R (pn_agents s) b \<and> one_each E (sp R) (pp R) b \<and> ag_op b = ag_op (pn_agents s) \<and>
       (\<forall>s'. follows E R s s' \<longrightarrow> Q r s')) (pn_agents s)"
  shows "wp (on_agents T m) Q s"
proof -
  have E: "truthful E" using H by (simp add: sane_def)
  show ?thesis unfolding wp_on_agents
  proof (rule wp_mono [OF m], elim conjE)
    fix r b
    assume "calm R (pn_agents s) b" "one_each E (sp R) (pp R) b" "ag_op b = ag_op (pn_agents s)" and Q: "\<forall>s'. follows E R s s' \<longrightarrow> Q r s'"
    from calm_follows [OF E ok this(1,2,3)] have f: "follows E R s (s\<lparr>pn_agents := b\<rparr>)" .
    then have "pane_ok E R (s\<lparr>pn_agents := b\<rparr>)" by (simp add: follows_def)
    from follows_trans [OF f pass_follows [OF H this]] show "Q r (tm_pass T (ag_t b) (s\<lparr>pn_agents := b\<rparr>))" using Q by blast
  qed
qed

lemma pane_ok_one: "pane_ok E R s \<Longrightarrow> one_each E (sp R) (pp R) (pn_agents s)"
  by (simp add: pane_ok_def)

lemma wp_observing:
  assumes H: "sane E T R" and ok: "pane_ok E R s" and Q: "\<And>s'. follows E R s s' \<Longrightarrow> Q (f (machine_now E (pn_agents s))) s'"
  shows "wp (on_agents T (observe_at E f)) Q s"
proof -
  have E: "truthful E" using H by (simp add: sane_def)
  show ?thesis by (rule wp_calm [OF H ok]) (use Q one_each_tick [OF E pane_ok_one [OF ok]] in \<open>simp add: wp_rules calm_tick\<close>)
qed

lemma wp_ticking:
  assumes H: "sane E T R" and ok: "pane_ok E R s" and Q: "\<And>s'. follows E R s s' \<Longrightarrow> Q (Inr ()) s'"
  shows "wp (on_agents T (modify tick_time)) Q s"
proof -
  have E: "truthful E" using H by (simp add: sane_def)
  show ?thesis by (rule wp_calm [OF H ok]) (use Q one_each_tick [OF E pane_ok_one [OF ok]] in \<open>simp add: wp_rules calm_tick\<close>)
qed

subsection \<open>Evidence of death\<close>

lemma truthful_boot:
  assumes E: "truthful E" and p: "en_alive E (ag_t a) p" "pr_born p \<le> ag_t a"
    and h: "dget (pr_identity p) ''host'' = JStr (en_host E (ag_op a))"
    and b: "truthy (dget (pr_identity p) ''boot_id'')" "truthy (dget (host_identity (machine_now E a)) ''boot_id'')"
  shows "dget (pr_identity p) ''boot_id'' = dget (host_identity (machine_now E a)) ''boot_id''"
proof -
  have "\<forall>p t n M r. en_alive E t p \<longrightarrow> pr_born p \<le> t \<longrightarrow>
      M = \<lparr>h_name = en_host E n, h_boot = en_boot E n t, h_ns = en_ns E n, h_read = r\<rparr> \<longrightarrow> same_host (pr_identity p) M \<longrightarrow>
      truthy (dget (pr_identity p) ''boot_id'') \<longrightarrow> truthy (dget (host_identity M) ''boot_id'') \<longrightarrow>
             dget (pr_identity p) ''boot_id'' = dget (host_identity M) ''boot_id''"
    using E unfolding truthful_def by (elim conjE) simp
  moreover have "machine_now E a = \<lparr>h_name = en_host E (ag_op a), h_boot = en_boot E (ag_op a) (ag_t a), h_ns = en_ns E (ag_op a),
      h_read = h_read (machine_now E a)\<rparr>" by (simp add: machine_now_def)
  moreover have "same_host (pr_identity p) (machine_now E a)" using h by (simp add: same_host_def machine_now_def)
  ultimately show ?thesis using p b by blast
qed

text \<open>While a shell lives that was given a line for the worker, only a claim of its pid file can prove the agent dead.\<close>

lemma live_shell_claim:
  assumes E: "truthful E" and pid: "\<not> starts_with ''/proc/'' (pp R w)"
    and p: "en_alive E (ag_t a) p" "pr_born p \<le> ag_t a" and o: "origin d (pr_identity p)"
    and dead: "observe_pidfile (machine_now E a) (pp R w) d (dget d ''attempt_id'') = Inr (Some False)"
    and x: "dget d ''attempt_id'' = JStr x"
  shows "\<not> unclaimed R a w x" "dget (pr_identity p) ''host'' = JStr (en_host E (ag_op a))" "truthy (dget (pr_identity p) ''boot_id'')"
proof -
  let ?M = "machine_now E a"
  from observed_evidence [OF dead]
  have host: "dget d ''host'' = JStr (h_name ?M)" and boots: "truthy (dget d ''boot_id'')" "truthy (dget (host_identity ?M) ''boot_id'')"
    and ev: "dget d ''boot_id'' = dget (host_identity ?M) ''boot_id'' \<Longrightarrow>
       \<exists>n t. pidfile_claim (h_read ?M (pp R w)) (dget d ''attempt_id'') = Some (n, t)"
    by (auto split: if_splits)
  have i: "dget (pr_identity p) ''host'' = JStr (h_name ?M)" "dget (pr_identity p) ''boot_id'' = dget d ''boot_id''"
    using o host boots(1) by (simp_all add: origin_def)
  have h: "dget (pr_identity p) ''host'' = JStr (en_host E (ag_op a))" using i(1) by (simp add: machine_now_def)
  have "dget (pr_identity p) ''boot_id'' = dget (host_identity ?M) ''boot_id''"
    by (rule truthful_boot [OF E p h]) (use boots i(2) in simp_all)
  from ev [OF this [unfolded i(2)]] show "\<not> unclaimed R a w x"
    using pid x by (auto simp: unclaimed_def machine_now_def)
  show "dget (pr_identity p) ''host'' = JStr (en_host E (ag_op a))" using i(1) by (simp add: machine_now_def)
  show "truthy (dget (pr_identity p) ''boot_id'')" using i(2) boots(1) by simp
qed

text \<open>\<open>at_rest\<close>: quiet, and the shells that still have a line of the worker are on this operation's host.\<close>

definition at_rest :: "station \<Rightarrow> string \<Rightarrow> string \<Rightarrow> panes \<Rightarrow> bool" where
  "at_rest E R w s \<longleftrightarrow> quiet E R w s \<and> (\<forall>l\<in>set (pn_lines s). pr_worker (ln_shell l) = w \<longrightarrow> up E s (ln_shell l) \<longrightarrow>
     dget (pr_identity (ln_shell l)) ''host'' = JStr (en_host E (ag_op (pn_agents s))) \<and> truthy (dget (pr_identity (ln_shell l)) ''boot_id''))"

lemma at_rest_follows: "at_rest E R w s \<Longrightarrow> follows E R s s' \<Longrightarrow> at_rest E R w s'"
  by (auto simp: at_rest_def follows_def same_files_def)

lemma recorded_same: "state_recorded R a w d \<Longrightarrow> state_recorded R a w e \<Longrightarrow> d = e"
  by (simp add: state_recorded_def)

lemma names_recorded: "names R a w y i \<Longrightarrow> state_recorded R a w d \<Longrightarrow> dget d ''attempt_id'' = JStr y"
  by (auto simp: names_def state_recorded_def)

lemma run_line: "pane_ok E R s \<Longrightarrow> r \<in> set (pn_runs s) \<Longrightarrow>
    \<exists>l\<in>set (pn_lines s). ln_shell l = rn_shell r \<and> pr_worker (ln_shell l) = wk (rn_script r)"
  unfolding pane_ok_def run_ok_def by metis

lemma dead_at_rest:
  assumes H: "sane E T R" and ok: "pane_ok E R s" and d: "state_recorded R (pn_agents s) w d"
    and dead: "observe_pidfile (machine_now E (pn_agents s)) (pp R w) d (dget d ''attempt_id'') = Inr (Some False)"
  shows "at_rest E R w s"
proof -
  let ?a = "pn_agents s"
  have E: "truthful E" using H by (simp add: sane_def)
  note g = sane_paths [OF H]
  have pid: "\<not> starts_with ''/proc/'' (pp R w)" using g by (simp add: good_paths_def)
  obtain x where x: "dget d ''attempt_id'' = JStr x" "earlier_id E ?a x" using ok d unfolding pane_ok_def docs_ok_def by blast
  have claim: "\<not> unclaimed R ?a w x \<and> dget (pr_identity (ln_shell l)) ''host'' = JStr (en_host E (ag_op ?a)) \<and>
      truthy (dget (pr_identity (ln_shell l)) ''boot_id'')"
    if l: "l \<in> set (pn_lines s)" "pr_worker (ln_shell l) = w" "up E s (ln_shell l)" for l
  proof -
    have k: "line_ok E R s l" using ok l(1) by (simp add: pane_ok_def)
    then obtain e where "state_recorded R ?a w e" "origin e (pr_identity (ln_shell l))" using l by (auto simp: line_ok_def)
    then have "origin d (pr_identity (ln_shell l))" using recorded_same [OF d] by blast
    from live_shell_claim [OF E pid _ _ this dead x(1)] show ?thesis using k l(3) by (simp add: up_def line_ok_def)
  qed
  have idle: "idle E (sp R) (pp R) w ?a"
    using d unfolding state_recorded_def by (intro dead_evidence [OF E g pane_ok_one [OF ok] _ dead])
  have guard: "guard_of R w x |\<in>| pn_guards s" if "\<not> unclaimed R ?a w x"
    using ok x(2) that by (auto simp: pane_ok_def guarded_def earlier_id_def)
  have line: "guard_of R w (at sc) |\<in>| pn_guards s"
    if l: "l \<in> set (pn_lines s)" "pr_worker (ln_shell l) = w" "up E s (ln_shell l)" and sc: "fmlookup (pn_scripts s) (ln_path l) = Some sc" for l sc
  proof -
    have "file_ok E R s (ln_path l) sc" "line_ok E R s l" using ok l(1) sc by (simp_all add: pane_ok_def)
    then have f: "wk sc = w" "guard_of R w (at sc) |\<in>| pn_guards s \<or> names R ?a w (at sc) (sf_identity sc)"
      using l by (auto simp: file_ok_def line_ok_def)
    moreover have "at sc = x" if "names R ?a w (at sc) (sf_identity sc)"
      using names_recorded [OF that d] x(1) by simp
    ultimately show ?thesis using guard claim [OF l] by blast
  qed
  have "\<not> up E s (rn_shell r)" if r: "r \<in> set (pn_runs s)" "wk (rn_script r) = w" for r
  proof
    assume u: "up E s (rn_shell r)"
    obtain l where l: "l \<in> set (pn_lines s)" "ln_shell l = rn_shell r" "pr_worker (ln_shell l) = w" using run_line [OF ok r(1)] r(2) by blast
    have st: "stage_ok E R ?a (rn_script r) (rn_stage r)" using run_at [OF ok r(1) u] by blast
    then have "unclaimed R ?a w (at (rn_script r))" using r(2) by (auto simp: stage_ok_def prepared_for_iff started_def split: stage.splits)
    moreover have "at (rn_script r) = x" using names_recorded [OF stage_names [OF st]] d r(2) x(1) by simp
    ultimately show False using claim [OF l(1,3)] l(2) u by simp
  qed
  then show ?thesis using idle line claim by (simp add: at_rest_def quiet_def)
qed

lemma unknown_at_rest:
  assumes ok: "pane_ok E R s" and d: "fmlookup (ag_docs (pn_agents s)) (sp R w) = None"
  shows "at_rest E R w s"
proof -
  have n: "\<not> state_recorded R (pn_agents s) w e" for e using d by (simp add: state_recorded_def)
  have "\<not> living E (pn_agents s) w p" for p
    using pane_ok_one [OF ok] d by (auto simp: one_each_def accounts_def living_def)
  then have i: "idle E (sp R) (pp R) w (pn_agents s)" using pane_ok_one [OF ok] by (simp add: idle_def)
  have l: "\<not> up E s (ln_shell l)" if "l \<in> set (pn_lines s)" "pr_worker (ln_shell l) = w" for l
  proof -
    have "line_ok E R s l" using ok that by (simp add: pane_ok_def)
    then show ?thesis using that(2) n by (auto simp: line_ok_def)
  qed
  have "\<not> up E s (rn_shell r)" if r: "r \<in> set (pn_runs s)" "wk (rn_script r) = w" for r
    using run_line [OF ok r(1)] r(2) l by metis
  then show ?thesis using i l by (auto simp: at_rest_def quiet_def)
qed

subsection \<open>A new attempt\<close>

text \<open>The identity observed now fits every shell that still has a line of the worker.\<close>

definition fits :: "station \<Rightarrow> string \<Rightarrow> dict \<Rightarrow> panes \<Rightarrow> bool" where
  "fits E w i s \<longleftrightarrow> (\<forall>l\<in>set (pn_lines s). pr_worker (ln_shell l) = w \<longrightarrow> up E s (ln_shell l) \<longrightarrow> origin i (pr_identity (ln_shell l)))"

lemma fits_follows: "fits E w i s \<Longrightarrow> follows E R s s' \<Longrightarrow> fits E w i s'"
  by (auto simp: fits_def follows_def same_files_def)

lemma observed_fits:
  assumes E: "truthful E" and ok: "pane_ok E R s" and r: "at_rest E R w s"
  shows "fits E w (host_identity (machine_now E (pn_agents s))) s"
proof -
  let ?a = "pn_agents s" and ?M = "machine_now E (pn_agents s)"
  have "origin (host_identity ?M) (pr_identity (ln_shell l))"
    if l: "l \<in> set (pn_lines s)" "pr_worker (ln_shell l) = w" "up E s (ln_shell l)" for l
  proof -
    have i: "dget (pr_identity (ln_shell l)) ''host'' = JStr (en_host E (ag_op ?a))" "truthy (dget (pr_identity (ln_shell l)) ''boot_id'')"
      using r l by (auto simp: at_rest_def)
    have b: "pr_born (ln_shell l) \<le> ag_t ?a" using ok l(1) by (simp add: pane_ok_def line_ok_def)
    have "truthy (dget (host_identity ?M) ''boot_id'') \<longrightarrow> dget (host_identity ?M) ''boot_id'' = dget (pr_identity (ln_shell l)) ''boot_id''"
      using truthful_boot [OF E _ b i] l(3) by (simp add: up_def)
    then show ?thesis using i(1) by (simp add: origin_def machine_now_def)
  qed
  then show ?thesis by (simp add: fits_def)
qed

text \<open>Saving the state of a new attempt of a worker at rest.\<close>

lemma save_step:
  assumes ok: "pane_ok E R s" and g: "good_paths (sp R) (pp R)" and q: "quiet E R w s" and f: "fits E w d s"
    and d: "dget d ''pid_file'' = JStr (pp R w)" "dget d ''attempt_id'' = JStr x" "earlier_id E (pn_agents s) x"
  shows "pane_ok E R (s\<lparr>pn_agents := (pn_agents s)\<lparr>ag_docs := fmupd (sp R w) (Some (JObj d)) (ag_docs (pn_agents s))\<rparr>\<rparr>)"
    (is "pane_ok E R ?s")
proof -
  let ?a = "pn_agents s" and ?b = "(pn_agents s)\<lparr>ag_docs := fmupd (sp R w) (Some (JObj d)) (ag_docs (pn_agents s))\<rparr>"
  have sw: "sp R v = sp R w \<longleftrightarrow> v = w" for v using g unfolding good_paths_def inj_def by blast
  have rec: "state_recorded R ?b v e = (if v = w then e = d else state_recorded R ?a v e)" for v e using sw [of v] by (cases "v = w") (auto simp: state_recorded_def)
  have nm: "v \<noteq> w \<Longrightarrow> names R ?b v y i = names R ?a v y i" for v y i unfolding names_def rec by simp
  have up: "up E ?s p = up E s p" for p by (simp add: up_def)
  have uc: "unclaimed R ?b v y = unclaimed R ?a v y" for v y by (simp add: unclaimed_def)
  have ei: "earlier_id E ?b y = earlier_id E ?a y" for y by (simp add: earlier_id_def)
  have wf: "script_wf E R ?b sc = script_wf E R ?a sc" for sc by (simp add: script_wf_def ei)
  have "one_each E (sp R) (pp R) ?b" using idle_save_doc [OF g, of E w ?a] q by (simp add: quiet_def idle_def)
  moreover have "docs_ok E R ?b" using ok d by (auto simp: pane_ok_def docs_ok_def rec ei)
  moreover have "guarded E R ?s" using ok by (simp add: pane_ok_def guarded_def uc)
  moreover have "line_ok E R ?s l" if "l \<in> set (pn_lines s)" for l
  proof -
    have "line_ok E R s l" using ok that by (simp add: pane_ok_def)
    then show ?thesis using f that by (auto simp: line_ok_def up rec fits_def)
  qed
  moreover have "file_ok E R ?s y sc" if y: "fmlookup (pn_scripts s) y = Some sc" for y sc
  proof (cases "wk sc = w")
    case False
    have "file_ok E R s y sc" using ok y by (simp add: pane_ok_def)
    then show ?thesis using nm [OF False] by (simp add: file_ok_def up wf)
  next
    case True
    have fo: "file_ok E R s y sc" using ok y by (simp add: pane_ok_def)
    have "guard_of R w (at sc) |\<in>| pn_guards s" if l: "l \<in> set (pn_lines s)" "ln_path l = y" "up E s (ln_shell l)" for l
    proof -
      have "line_ok E R s l" using ok l(1) by (simp add: pane_ok_def)
      then have "pr_worker (ln_shell l) = w" using fo True l(2) by (simp add: file_ok_def line_ok_def)
      then show ?thesis using q l y by (auto simp: quiet_def)
    qed
    then show ?thesis using fo True by (auto simp: file_ok_def up wf)
  qed
  moreover have "run_ok E R ?s r" if r: "r \<in> set (pn_runs s)" for r
  proof (cases "up E s (rn_shell r)")
    case True
    then have "wk (rn_script r) \<noteq> w" using q r by (auto simp: quiet_def)
    note n = nm [OF this]
    have ro: "run_ok E R s r" using ok r by (simp add: pane_ok_def)
    moreover have "stage_ok E R ?b (rn_script r) (rn_stage r)"
    proof -
      have st: "stage_ok E R ?a (rn_script r) (rn_stage r)" using run_at [OF ok r True] by blast
      have lv: "living E ?b v p = living E ?a v p" for v p by (simp add: living_def)
      have id: "idle E (sp R) (pp R) v ?a \<Longrightarrow> idle E (sp R) (pp R) v ?b" for v using \<open>one_each E (sp R) (pp R) ?b\<close> by (simp add: idle_def lv)
      have "started E R ?b (rn_script r) p = started E R ?a (rn_script r) p" for p by (simp add: started_def n uc lv)
      moreover have "timed E ?b (rn_script r) p z = timed E ?a (rn_script r) p z" for p z by (simp add: timed_def lv)
      ultimately show ?thesis using st id by (auto simp: stage_ok_def prepared_for_iff n uc ei split: stage.splits)
    qed
    ultimately show ?thesis by (simp add: run_ok_def up wf)
  next
    case False
    have "run_ok E R s r" using ok r by (simp add: pane_ok_def)
    then show ?thesis using False by (simp add: run_ok_def up wf)
  qed
  ultimately show ?thesis using ok by (simp add: pane_ok_def)
qed

text \<open>Writing a script of the recorded attempt, and typing the line that runs it.\<close>

definition fresh_script :: "station \<Rightarrow> string \<Rightarrow> panes \<Rightarrow> string \<Rightarrow> dict \<Rightarrow> bool" where
  "fresh_script E R s w d \<longleftrightarrow> state_recorded R (pn_agents s) w d \<and> (\<exists>x. dget d ''attempt_id'' = JStr x) \<and>
     dget d ''host'' = JStr (en_host E (ag_op (pn_agents s))) \<and> dget d ''pid_namespace'' = jopt (en_ns E (ag_op (pn_agents s))) \<and>
     dget d ''window'' = JStr w"

lemma fresh_follows: "fresh_script E R s w d \<Longrightarrow> follows E R s s' \<Longrightarrow> fresh_script E R s' w d"
  by (simp add: fresh_script_def follows_def same_files_def state_recorded_def)

lemma script_step:
  assumes ok: "pane_ok E R s" and f: "fresh_script E R s w d" and q: "file_worker q = w"
    and sc: "sc = \<lparr>sf_parts = script_parts d w, sf_text = body, sf_identity = d, sf_op = ag_op (pn_agents s)\<rparr>"
  shows "pane_ok E R (s\<lparr>pn_scripts := fmupd q sc (pn_scripts s)\<rparr>)" (is "pane_ok E R ?s")
    and "wk sc = w" "names R (pn_agents s) w (at sc) (sf_identity sc)"
proof -
  have "dget d ''pid_file'' = JStr (pp R w) \<and> (\<exists>x. dget d ''attempt_id'' = JStr x \<and> earlier_id E (pn_agents s) x)"
    using ok f unfolding pane_ok_def docs_ok_def fresh_script_def by blast
  then obtain x where x: "dget d ''pid_file'' = JStr (pp R w)" "dget d ''attempt_id'' = JStr x" "earlier_id E (pn_agents s) x" by blast
  show w: "wk sc = w" by (simp add: sc script_parts_def)
  have a: "at sc = x" by (simp add: sc script_parts_def field_def x)
  have wf: "script_wf E R (pn_agents s) sc" unfolding script_wf_def w a using x f
    by (simp add: sc script_parts_def field_def fresh_script_def)
  show n: "names R (pn_agents s) w (at sc) (sf_identity sc)" unfolding a using f x(2) by (auto simp: sc names_def fresh_script_def)
  have up: "up E ?s p = up E s p" for p by (simp add: up_def)
  have "line_ok E R ?s l = line_ok E R s l" "run_ok E R ?s r = run_ok E R s r" for l r by (simp_all add: line_ok_def run_ok_def up)
  moreover have "file_ok E R ?s y z = file_ok E R s y z" for y z by (simp add: file_ok_def up)
  moreover have "file_ok E R s q sc" using wf w n q by (simp add: file_ok_def)
  moreover have "guarded E R ?s = guarded E R s" by (simp add: guarded_def)
  ultimately show "pane_ok E R ?s" using ok by (auto simp: pane_ok_def)
qed

lemma line_step:
  assumes ok: "pane_ok E R s" and f: "fresh_script E R s w d" and q: "file_worker q = w"
    and sc: "fmlookup (pn_scripts s) q = Some sc" "wk sc = w" "names R (pn_agents s) w (at sc) (sf_identity sc)"
    and l: "ln_path l = q" "pr_worker (ln_shell l) = w" "pr_identity (ln_shell l) = d" "pr_born (ln_shell l) \<le> ag_t (pn_agents s)"
  shows "pane_ok E R (s\<lparr>pn_lines := l # pn_lines s\<rparr>)" (is "pane_ok E R ?s")
proof -
  have up: "up E ?s p = up E s p" for p by (simp add: up_def)
  have "line_ok E R ?s m = line_ok E R s m" for m by (simp add: line_ok_def up)
  moreover have "line_ok E R s l" using f l q by (auto simp: line_ok_def fresh_script_def origin_def)
  moreover have "run_ok E R ?s r" if "r \<in> set (pn_runs s)" for r
  proof -
    have "run_ok E R s r" using ok that by (simp add: pane_ok_def)
    then show ?thesis by (auto simp: run_ok_def up)
  qed
  moreover have "file_ok E R ?s y z" if y: "fmlookup (pn_scripts s) y = Some z" for y z
  proof (cases "y = q")
    case True
    have "file_ok E R s y z" using ok y by (simp add: pane_ok_def)
    then show ?thesis using True y sc by (simp add: file_ok_def)
  next
    case False
    have "file_ok E R s y z" using ok y by (simp add: pane_ok_def)
    then show ?thesis using False l(1) by (auto simp: file_ok_def up)
  qed
  moreover have "guarded E R ?s = guarded E R s" by (simp add: guarded_def)
  ultimately show ?thesis using ok by (simp add: pane_ok_def)
qed

subsection \<open>The operations\<close>

lemma calls_ok: "pane_ok E R (s\<lparr>pn_calls := c\<rparr>) = pane_ok E R s"
  by (simp add: pane_ok_def guarded_def line_ok_def file_ok_def run_ok_def up_def)

lemma calls_follow: "pane_ok E R s \<Longrightarrow> follows E R s (s\<lparr>pn_calls := c\<rparr>)"
  by (simp add: follows_def same_files_def calls_ok quiet_def up_def)

text \<open>Commands that only look, wait and ask tmux.\<close>

lemma keeps_calm:
  assumes H: "sane E T R" and m: "\<And>u. pane_ok E R u \<Longrightarrow> wp m (\<lambda>r b. calm R (pn_agents u) b \<and> one_each E (sp R) (pp R) b \<and> ag_op b = ag_op (pn_agents u)) (pn_agents u)"
  shows "keeps (follows E R s) (on_agents T m)"
proof (rule keepsI)
  fix u assume u: "follows E R s u"
  then have ok: "pane_ok E R u" by (simp add: follows_def)
  show "wp (on_agents T m) (\<lambda>_. follows E R s) u"
    by (rule wp_calm [OF H ok], rule wp_mono [OF m [OF ok]]) (use follows_trans [OF u] in blast)
qed

lemma keeps_ticking: "sane E T R \<Longrightarrow> keeps (follows E R s) (on_agents T (modify tick_time))"
  by (rule keeps_calm) (simp_all add: wp_rules calm_tick one_each_tick sane_def pane_ok_one)

lemma keeps_looking: "sane E T R \<Longrightarrow> keeps (follows E R s) (on_agents T (observe_at E f))"
  by (rule keeps_calm) (simp_all add: wp_rules calm_tick one_each_tick sane_def pane_ok_one)

lemma keeps_trying: "sane E T R \<Longrightarrow> keeps (follows E R s) (on_agents T (try_step E (\<lambda>a. a)))"
  by (rule keeps_calm) (simp_all add: wp_try_step calm_tick one_each_tick sane_def pane_ok_one)

lemma keeps_calls: "keeps (follows E R s) (modify (\<lambda>s. s\<lparr>pn_calls := f s\<rparr>))"
proof (rule keepsI)
  fix u assume u: "follows E R s u"
  then have "pane_ok E R u" by (simp add: follows_def)
  from follows_trans [OF u calls_follow [OF this]] show "wp (modify (\<lambda>s. s\<lparr>pn_calls := f s\<rparr>)) (\<lambda>_. follows E R s) u" by (simp add: wp_rules)
qed

lemma keeps_tmux_command: "sane E T R \<Longrightarrow> keeps (follows E R s) (tmux_command T X args allow)"
  unfolding tmux_command_def
  by (intro keeps_bnd keeps_gets keeps_seq keeps_calls keeps_ticking) (auto intro: keeps_throw keeps_ret split: answer.split)

lemma keeps_ensure_window: "sane E T R \<Longrightarrow> keeps (follows E R s) (ensure_window T X w cwd)"
  unfolding ensure_window_def
  by (intro keeps_bnd keeps_tmux_command) (auto intro!: keeps_bnd keeps_tmux_command keeps_ret split: prod.split)

lemma keeps_agent_alive: "sane E T R \<Longrightarrow> keeps (follows E R s) (agent_alive E T d)"
  unfolding agent_alive_def by (rule keeps_looking)

lemma keeps_helper:
  assumes H: "sane E T R"
  shows "keeps (follows E R s) (put_helper E T X d)"
proof -
  have E: "truthful E" using H by (simp add: sane_def)
  let ?q = "path_child (field d ''workspace'') ''.farm_receipt.py''"
  have q: "?q \<noteq> pp R w" for w
  proof
    assume "?q = pp R w"
    then have "last ?q = last (pp R w)" by simp
    then show False by (simp add: path_child_def codex_pid_path_def split: if_splits)
  qed
  show ?thesis unfolding put_helper_def
    by (rule keeps_calm [OF H]) (simp add: wp_put_text calm_text q one_each_tick [OF E] one_each_text pane_ok_one)
qed

subsection \<open>Dispatch\<close>

lemma pane_ok_follows: "follows E R s s' \<Longrightarrow> pane_ok E R s'"
  by (simp add: follows_def)

lemma wp_keeps: "keeps P m \<Longrightarrow> P s \<Longrightarrow> (\<And>r s'. P s' \<Longrightarrow> Q r s') \<Longrightarrow> wp m Q s"
  by (rule wp_mono [where Q = "\<lambda>_. P"]) (auto simp: keeps_def)

lemma wp_send_line:
  assumes H: "sane E T R" and ok: "pane_ok E R s" and f: "fresh_script E R s w d" and q: "file_worker q = w"
    and sc: "fmlookup (pn_scripts s) q = Some sc" "wk sc = w" "names R (pn_agents s) w (at sc) (sf_identity sc)"
  shows "wp (send_line E T X d q) (\<lambda>_. pane_ok E R) s"
proof -
  have w: "field d ''window'' = w" using f by (simp add: field_def fresh_script_def)
  have "pane_ok E R (s\<lparr>pn_lines := \<lparr>ln_path = q, ln_shell = \<lparr>pr_worker = w, pr_attempt = field d ''attempt_id'', pr_pid = i,
          pr_start = j, pr_identity = d, pr_born = ag_t (pn_agents s)\<rparr>\<rparr> # pn_lines s\<rparr>)" for i j
    by (rule line_step [OF ok f q sc]) simp_all
  then show ?thesis unfolding send_line_def wp_seq wp_modify w Let_def
    apply (simp del: split_paired_All)
    apply (rule wp_keeps [OF keeps_bnd [OF keeps_tmux_command [OF H] keeps_ret] follows_refl])
     apply simp
    apply (erule pane_ok_follows)
    done
qed

lemma wp_run_script:
  assumes H: "sane E T R" and ok: "pane_ok E R s" and f: "fresh_script E R s w d" and q: "file_worker q = w"
  shows "wp (run_script E T X q d w body) (\<lambda>_. pane_ok E R) s"
proof -
  define sc where "sc b = \<lparr>sf_parts = script_parts d w, sf_text = b, sf_identity = d, sf_op = ag_op (pn_agents s)\<rparr>" for b
  define u where "u b = s\<lparr>pn_scripts := fmupd q (sc b) (pn_scripts s)\<rparr>" for b
  note st = script_step [OF ok f q, of "sc b" b for b, unfolded sc_def, OF refl]
  have uok: "pane_ok E R (u b)" for b using st(1) by (simp add: u_def sc_def)
  have tail: "wp (seq (on_agents T (try_step E (\<lambda>a. a))) (seq (ensure_window T X (field d ''window'') (field d ''workspace'')) (send_line E T X d q)))
      (\<lambda>_. pane_ok E R) v" if v: "follows E R (u b) v" for b v
    unfolding wp_seq
  proof (rule wp_keeps [OF keeps_trying [OF H] v], intro conjI allI impI)
    fix r x assume x: "follows E R (u b) x"
    then show "pane_ok E R x" by (rule pane_ok_follows)
    show "wp (ensure_window T X (field d ''window'') (field d ''workspace''))
       (\<lambda>r s'. (\<forall>e. r = Inl e \<longrightarrow> pane_ok E R s') \<and> (\<forall>x. r = Inr x \<longrightarrow> wp (send_line E T X d q) (\<lambda>_. pane_ok E R) s')) x"
    proof (rule wp_keeps [OF keeps_ensure_window [OF H] x], intro conjI allI impI)
      fix r y assume y: "follows E R (u b) y"
      then show "pane_ok E R y" by (rule pane_ok_follows)
      have "fresh_script E R (u b) w d" using f by (simp add: fresh_script_def u_def)
      from fresh_follows [OF this y] have f': "fresh_script E R y w d" .
      have "fmlookup (pn_scripts y) q = Some (sc b)" using y by (simp add: follows_def same_files_def u_def)
      moreover have "names R (pn_agents y) w (at (sc b)) (sf_identity (sc b))"
        using st(3) [of b] y by (simp add: follows_def same_files_def u_def names_def state_recorded_def sc_def)
      moreover have "wk (sc b) = w" using st(2) [of b] by (simp add: sc_def)
      ultimately show "wp (send_line E T X d q) (\<lambda>_. pane_ok E R) y"
        by (intro wp_send_line [OF H pane_ok_follows [OF y] f' q])
    qed
  qed
  have put: "wp (put_script E T q d w b) (\<lambda>_. follows E R (u b)) s" for b
  proof -
    have "keeps (follows E R (u b)) (seq (on_agents T (modify tick_time)) (case r of None \<Rightarrow> ret () | Some e \<Rightarrow> throw e))" for r :: "exn option"
      by (intro keeps_seq keeps_ticking [OF H] keeps_option keeps_ret keeps_throw)
    then have "wp (seq (on_agents T (modify tick_time)) (case r of None \<Rightarrow> ret () | Some e \<Rightarrow> throw e)) (\<lambda>_. follows E R (u b)) (u b)" for r :: "exn option"
      using follows_refl [OF uok] by (simp add: keeps_def)
    then show ?thesis by (simp add: put_script_def wp_bnd wp_gets wp_seq [where m = "modify f" for f] wp_modify u_def sc_def)
  qed
  show ?thesis unfolding run_script_def wp_bnd wp_pure
    apply (intro conjI allI impI ok)
    apply (subst wp_seq)
    apply (rule wp_mono [OF put])
    using tail pane_ok_follows by blast
qed

lemma prepared_state_simps [simp]:
  "dget (prepared_state d i x prior) ''host'' = dget i ''host''" "dget (prepared_state d i x prior) ''boot_id'' = dget i ''boot_id''"
  "dget (prepared_state d i x prior) ''pid_namespace'' = dget i ''pid_namespace''" "dget (prepared_state d i x prior) ''attempt_id'' = JStr x"
  "dget (prepared_state d i x prior) ''pid_file'' = dget d ''pid_file''" "dget (prepared_state d i x prior) ''window'' = dget d ''window''"
  by (simp_all add: prepared_state_def dget_def)

lemma wp_new_id:
  assumes H: "sane E T R" and ok: "pane_ok E R s"
    and Q: "\<And>s'. follows E R s s' \<Longrightarrow> earlier_id E (pn_agents s') (en_uuid E (ag_t (pn_agents s))) \<Longrightarrow> Q (Inr (en_uuid E (ag_t (pn_agents s)))) s'"
  shows "wp (on_agents T (new_attempt E)) Q s"
proof -
  have E: "truthful E" using H by (simp add: sane_def)
  let ?u = "s\<lparr>pn_agents := tick_time (pn_agents s)\<rparr>"
  have f: "follows E R s ?u" by (rule calm_follows [OF E ok calm_tick one_each_tick [OF E pane_ok_one [OF ok]]]) simp
  note g = pass_follows [OF H pane_ok_follows [OF f]]
  have "earlier_id E (pn_agents (tm_pass T t ?u)) (en_uuid E (ag_t (pn_agents s)))" for t
    using g [of t] by (auto simp: earlier_id_def follows_def same_files_def intro!: exI [of _ "ag_t (pn_agents s)"])
  then show ?thesis unfolding wp_on_agents using Q [OF follows_trans [OF f g]] by (simp add: wp_new_attempt)
qed

lemma wp_save_state:
  assumes H: "sane E T R" and ok: "pane_ok E R s" and q: "quiet E R w s" and f: "fits E w d s"
    and d: "dget d ''pid_file'' = JStr (pp R w)" "dget d ''attempt_id'' = JStr x" "earlier_id E (pn_agents s) x" "dget d ''window'' = JStr w"
      "dget d ''host'' = JStr (en_host E (ag_op (pn_agents s)))" "dget d ''pid_namespace'' = jopt (en_ns E (ag_op (pn_agents s)))"
  shows "wp (on_agents T (save_doc E (codex_state_path R w) d)) (\<lambda>r s'. pane_ok E R s' \<and> (r = Inr () \<longrightarrow> fresh_script E R s' w d)) s"
proof -
  have E: "truthful E" using H by (simp add: sane_def)
  let ?u = "s\<lparr>pn_agents := (pn_agents s)\<lparr>ag_docs := fmupd (sp R w) (Some (JObj d)) (ag_docs (pn_agents s))\<rparr>\<rparr>"
  have uok: "pane_ok E R ?u" by (rule save_step [OF ok sane_paths [OF H] q f d(1,2,3)])
  have fr: "fresh_script E R ?u w d" using d by (simp add: fresh_script_def state_recorded_def)
  have late: "follows E R v (tm_pass T t (v\<lparr>pn_agents := tick_time (pn_agents v)\<rparr>))" if "pane_ok E R v" for v t
  proof -
    have "follows E R v (v\<lparr>pn_agents := tick_time (pn_agents v)\<rparr>)"
      by (rule calm_follows [OF E that calm_tick one_each_tick [OF E pane_ok_one [OF that]]]) simp
    from follows_trans [OF this pass_follows [OF H pane_ok_follows [OF this]]] show ?thesis .
  qed
  show ?thesis unfolding wp_on_agents save_doc_def wp_try_step
    using late [OF ok] late [OF uok] fresh_follows [OF fr late [OF uok]] by (auto simp: follows_def)
qed

lemma wp_prepare_attempt:
  assumes H: "sane E T R" and ok: "pane_ok E R s" and r: "at_rest E R w s"
    and d: "dget d ''pid_file'' = JStr (pp R w)" "dget d ''window'' = JStr w"
  shows "wp (prepare_attempt E T R w d) (\<lambda>r s'. pane_ok E R s' \<and> (\<forall>e. r = Inr e \<longrightarrow> fresh_script E R s' w e)) s"
proof -
  have E: "truthful E" using H by (simp add: sane_def)
  let ?i = "host_identity (machine_now E (pn_agents s))"
  have save: "wp (seq (on_agents T (save_doc E (codex_state_path R w) (prepared_state d ?i x prior))) (ret (prepared_state d ?i x prior)))
      (\<lambda>r s'. pane_ok E R s' \<and> (\<forall>e. r = Inr e \<longrightarrow> fresh_script E R s' w e)) v"
    if v: "follows E R s v" "earlier_id E (pn_agents v) x" for v x prior
  proof -
    have "quiet E R w v" using at_rest_follows [OF r v(1)] by (simp add: at_rest_def)
    moreover have "fits E w (prepared_state d ?i x prior) v"
      using fits_follows [OF observed_fits [OF E ok r] v(1)] by (simp add: fits_def origin_def)
    moreover have "ag_op (pn_agents v) = ag_op (pn_agents s)" using v(1) by (simp add: follows_def same_files_def)
    ultimately have "wp (on_agents T (save_doc E (codex_state_path R w) (prepared_state d ?i x prior)))
        (\<lambda>r s'. pane_ok E R s' \<and> (r = Inr () \<longrightarrow> fresh_script E R s' w (prepared_state d ?i x prior))) v"
      using v d by (intro wp_save_state [OF H pane_ok_follows [OF v(1)], where x = x]) (simp_all add: machine_now_def)
    then show ?thesis unfolding wp_seq by (rule wp_mono) (auto simp: wp_ret)
  qed
  have id: "wp (bnd (on_agents T (new_attempt E)) (\<lambda>x. seq (on_agents T (save_doc E (codex_state_path R w) (prepared_state d ?i x prior)))
      (ret (prepared_state d ?i x prior)))) (\<lambda>r s'. pane_ok E R s' \<and> (\<forall>e. r = Inr e \<longrightarrow> fresh_script E R s' w e)) u" if u: "follows E R s u" for u prior
    unfolding wp_bnd
    by (rule wp_new_id [OF H pane_ok_follows [OF u]]) (use save follows_trans [OF u] in simp)
  show ?thesis unfolding prepare_attempt_def
    apply (subst wp_bnd, subst wp_gets, simp only: sum.simps simp_thms all_simps)
    apply (subst wp_bnd, rule wp_observing [OF H ok])
    using id by simp
qed

text \<open>What follows once the worker is at rest.\<close>

lemma wp_dispatch:
  assumes H: "sane E T R" and ok: "pane_ok E R s" and r: "at_rest E R w s"
    and d: "dget d ''pid_file'' = JStr (pp R w)" "dget d ''window'' = JStr w"
    and m: "\<And>e u. pane_ok E R u \<Longrightarrow> fresh_script E R u w e \<Longrightarrow> wp (m e) (\<lambda>_. pane_ok E R) u"
  shows "wp (bnd (prepare_attempt E T R w d) (\<lambda>e. seq (put_helper E T X e) (m e))) (\<lambda>_. pane_ok E R) s"
proof -
  have "wp (seq (put_helper E T X e) (m e)) (\<lambda>_. pane_ok E R) u" if u: "pane_ok E R u" "fresh_script E R u w e" for e u
    unfolding wp_seq
  proof (rule wp_keeps [OF keeps_helper [OF H] follows_refl [OF u(1)]], intro conjI allI impI)
    fix y v assume v: "follows E R u v"
    then show "pane_ok E R v" by (rule pane_ok_follows)
    show "wp (m e) (\<lambda>_. pane_ok E R) v" by (rule m [OF pane_ok_follows [OF v] fresh_follows [OF u(2) v]])
  qed
  then show ?thesis unfolding wp_bnd [where m = "prepare_attempt E T R w d"]
    by (intro wp_mono [OF wp_prepare_attempt [OF H ok r d]]) auto
qed

lemma wp_begin_codex:
  assumes H: "sane E T R" and ok: "pane_ok E R s"
  shows "wp (on_agents T begin_op) (\<lambda>_. pane_ok E R) s"
proof -
  have E: "truthful E" using H by (simp add: sane_def)
  have "pane_ok E R (s\<lparr>pn_agents := (tick_time (pn_agents s))\<lparr>ag_op := n\<rparr>\<rparr>)" for n
    by (rule calm_pane_ok [OF E ok calm_op]) (use one_each_tick [OF E pane_ok_one [OF ok]] in simp)
  then show ?thesis unfolding wp_on_agents wp_begin_op using pass_follows [OF H] pane_ok_follows by blast
qed

lemma load_state_Inr:
  "load_state R w a = Inr st \<Longrightarrow> (st = None \<and> fmlookup (ag_docs a) (sp R w) = None) \<or>
     (\<exists>d. st = Some d \<and> state_recorded R a w d \<and> dget d ''window'' = JStr w)"
  by (auto simp: load_state_def state_recorded_def split: option.splits json.splits if_splits)

text \<open>Asked whether the agent of a recorded state lives: a no leaves the worker at rest.\<close>

lemma wp_agent_alive:
  assumes H: "sane E T R" and ok: "pane_ok E R s" and d: "state_recorded R (pn_agents s) w d"
  shows "wp (agent_alive E T d) (\<lambda>r s'. pane_ok E R s' \<and> (r = Inr (Some False) \<longrightarrow> at_rest E R w s')) s"
  unfolding agent_alive_def
proof (rule wp_observing [OF H ok])
  fix s' assume f: "follows E R s s'"
  have pf: "field d ''pid_file'' = pp R w" using ok d by (simp add: pane_ok_def docs_ok_def field_def)
  have "at_rest E R w s" if "observe_pidfile (machine_now E (pn_agents s)) (pp R w) d (dget d ''attempt_id'') = Inr (Some False)"
    by (rule dead_at_rest [OF H ok d that])
  then show "pane_ok E R s' \<and> ((if dget d ''host'' \<noteq> JStr (h_name (machine_now E (pn_agents s))) then Inr None
     else observe_pidfile (machine_now E (pn_agents s)) (field d ''pid_file'') d (dget d ''attempt_id'')) = Inr (Some False) \<longrightarrow> at_rest E R w s')"
    using f at_rest_follows [OF _ f] pf by (auto simp: follows_def)
qed

lemma pid_file_recorded: "pane_ok E R s \<Longrightarrow> state_recorded R (pn_agents s) w d \<Longrightarrow> dget d ''pid_file'' = JStr (pp R w)"
  by (simp add: pane_ok_def docs_ok_def)

lemma keeps_codex_launch:
  assumes H: "sane E T (tx_root X)" and w: "CHR ''/'' \<notin> set (l_worker l)"
  shows "keeps (pane_ok E (tx_root X)) (codex_launch E T X t l)"
proof (rule keepsI)
  let ?R = "tx_root X" and ?w = "l_worker l"
  fix s0 assume ok0: "pane_ok E ?R s0"
  have run: "wp (seq (run_script E T X (script_path e ''.farm_launch_'' ?w) e ?w b) (ret z)) (\<lambda>_. pane_ok E ?R) u"
    if u: "pane_ok E ?R u" "fresh_script E ?R u ?w e" for e u b and z :: string
    unfolding wp_seq
    by (rule wp_mono [OF wp_run_script [OF H u file_worker_path [OF w disjI1 [OF refl]]]]) (simp add: wp_ret)
  have first: "dget (first_state X t l ws) ''pid_file'' = JStr (pp ?R ?w)" "dget (first_state X t l ws) ''window'' = JStr ?w" for ws
    by (simp_all add: first_state_def Let_def)
  have go: "wp (case observed of Some True \<Rightarrow> ret z
     | None \<Rightarrow> throw x
     | Some False \<Rightarrow> bnd (prepare_attempt E T ?R ?w (first_state X t l ws)) (\<lambda>d.
         seq (put_helper E T X d) (seq (run_script E T X (script_path d ''.farm_launch_'' ?w) d ?w (b d)) (ret z))))
      (\<lambda>_. pane_ok E ?R) u"
    if "pane_ok E ?R u" "observed = Some False \<Longrightarrow> at_rest E ?R ?w u" for observed u x b ws and z :: string
    using that wp_dispatch [OF H that(1) that(2) first run] by (auto simp: wp_ret wp_throw split: option.split bool.split)
  have ask: "wp (case st of None \<Rightarrow> ret (Some False)
        | Some d \<Rightarrow> seq (guard (same_assignment d t l) x) (agent_alive E T d))
      (\<lambda>r u. pane_ok E ?R u \<and> (r = Inr (Some False) \<longrightarrow> at_rest E ?R ?w u)) s"
    if ok: "pane_ok E ?R s" and st: "load_state ?R ?w (pn_agents s) = Inr st" for st s x
    using load_state_Inr [OF st] unknown_at_rest [OF ok] wp_agent_alive [OF H ok] ok
    by (auto simp: wp_ret wp_seq wp_guard)
  show "wp (codex_launch E T X t l) (\<lambda>_. pane_ok E ?R) s0"
    unfolding codex_launch_def Let_def
    apply (subst wp_seq, rule wp_mono [OF wp_begin_codex [OF H ok0]], intro conjI allI impI, assumption)
    apply (subst wp_bnd, subst wp_pure, intro conjI allI impI, assumption)
    apply (simp only: prod.case_eq_if)
    apply (subst wp_bnd, subst wp_asks, intro conjI allI impI, assumption)
    apply (subst wp_bnd, rule wp_mono [OF ask], assumption, assumption)
    apply (intro conjI allI impI, blast)
    apply (rule go, blast, blast)
    done
qed

lemma keeps_codex_resume:
  assumes H: "sane E T (tx_root X)" and w: "CHR ''/'' \<notin> set w"
  shows "keeps (pane_ok E (tx_root X)) (codex_resume E T X t w l)"
proof (rule keepsI)
  let ?R = "tx_root X"
  fix s0 assume ok0: "pane_ok E ?R s0"
  have run: "wp (bnd (pure c) (\<lambda>x. run_script E T X (script_path e ''.farm_resume_'' w) e w (b e x))) (\<lambda>_. pane_ok E ?R) u"
    if u: "pane_ok E ?R u" "fresh_script E ?R u w e" for e u b and c :: "string res"
    unfolding wp_bnd wp_pure using u wp_run_script [OF H u file_worker_path [OF w disjI2 [OF refl]]] by blast
  have go: "wp (case alive of Some True \<Rightarrow> ret ()
     | None \<Rightarrow> throw y
     | Some False \<Rightarrow> bnd (prepare_attempt E T ?R w d) (\<lambda>e.
         seq (put_helper E T X e) (bnd (pure c) (\<lambda>x. run_script E T X (script_path e ''.farm_resume_'' w) e w (b e x)))))
      (\<lambda>_. pane_ok E ?R) u"
    if "pane_ok E ?R u" "alive = Some False \<Longrightarrow> at_rest E ?R w u" "dget d ''pid_file'' = JStr (pp ?R w)" "dget d ''window'' = JStr w"
    for alive d y u b and c :: "string res"
    using that wp_dispatch [OF H that(1,2,3,4) run] by (auto simp: wp_ret wp_throw split: option.split bool.split)
  show "wp (codex_resume E T X t w l) (\<lambda>_. pane_ok E ?R) s0"
    unfolding codex_resume_def
  proof (subst wp_seq, rule wp_mono [OF wp_begin_codex [OF H ok0]], intro conjI allI impI, assumption, goal_cases)
    case (1 r s)
    then have ok: "pane_ok E ?R s" by simp
    show ?case unfolding wp_bnd [where m = "asks f" for f] wp_asks
    proof (intro conjI allI impI ok, goal_cases)
      case (1 st)
      then show ?case
      proof (cases st)
        case (Some d)
        then have d: "state_recorded ?R (pn_agents s) w d" "dget d ''window'' = JStr w" using load_state_Inr [OF 1] by auto
        note pf = pid_file_recorded [OF ok d(1)]
        show ?thesis unfolding Some option.case wp_seq [where m = "guard b e" for b e] wp_guard wp_bnd [where m = "agent_alive E T d"]
          apply (intro conjI allI impI ok)
          apply (rule wp_mono [OF wp_agent_alive [OF H ok d(1)]])
          apply (intro conjI allI impI, blast)
          apply (rule go [OF _ _ pf d(2)], blast, blast)
          by simp
      qed (simp add: wp_throw ok)
    qed
  qed
qed

lemma keeps_pane_ok:
  assumes "\<And>s. keeps (follows E R s) m"
  shows "keeps (pane_ok E R) m"
proof (rule keepsI)
  fix s assume "pane_ok E R s"
  then show "wp m (\<lambda>_. pane_ok E R) s" by (rule wp_keeps [OF assms follows_refl]) (rule pane_ok_follows)
qed

lemma keeps_begin_codex: "sane E T R \<Longrightarrow> keeps (pane_ok E R) (on_agents T begin_op)"
  by (rule keepsI) (rule wp_begin_codex)

lemma keeps_codex_poll: "sane E T (tx_root X) \<Longrightarrow> keeps (pane_ok E (tx_root X)) (codex_poll E T X w)"
  unfolding codex_poll_def
  by (intro keeps_seq keeps_begin_codex keeps_bnd keeps_asks keeps_option keeps_ret keeps_pane_ok [OF keeps_agent_alive])

lemma keeps_codex_stop: "sane E T (tx_root X) \<Longrightarrow> keeps (pane_ok E (tx_root X)) (codex_stop E T X w)"
  unfolding codex_stop_def
  by (intro keeps_seq keeps_begin_codex keeps_bnd keeps_asks keeps_option keeps_bool keeps_ret keeps_throw
      keeps_pane_ok [OF keeps_agent_alive] keeps_pane_ok [OF keeps_tmux_command])

subsection \<open>One agent for each worker\<close>

text \<open>What happens in a runtime directory: operations, whatever they end in, the shells, receipts of agents and time. Worker
  ids are file names.\<close>

inductive tmux_step :: "station \<Rightarrow> terminal \<Rightarrow> tmux_executor \<Rightarrow> panes \<Rightarrow> panes \<Rightarrow> bool" for E T X where
  tmux_launch: "CHR ''/'' \<notin> set (l_worker l) \<Longrightarrow> tmux_step E T X s (snd (codex_launch E T X t l s))"
| tmux_resume: "CHR ''/'' \<notin> set w \<Longrightarrow> tmux_step E T X s (snd (codex_resume E T X t w l s))"
| tmux_poll: "tmux_step E T X s (snd (codex_poll E T X w s))"
| tmux_stop: "tmux_step E T X s (snd (codex_stop E T X w s))"
| tmux_shell: "pane_step E s s' \<Longrightarrow> tmux_step E T X s s'"
| tmux_report: "(\<And>w. p \<noteq> codex_pid_path (tx_root X) w) \<Longrightarrow>
    tmux_step E T X s (later (s\<lparr>pn_agents := (pn_agents s)\<lparr>ag_texts := fmupd p x (ag_texts (pn_agents s))\<rparr>\<rparr>))"
| tmux_time: "tmux_step E T X s (later s)"

definition no_panes :: panes where
  "no_panes = \<lparr>pn_agents = \<lparr>ag_op = 0, ag_t = 0, ag_docs = fmempty, ag_texts = fmempty, ag_procs = [], ag_signals = []\<rparr>,
     pn_scripts = fmempty, pn_lines = [], pn_runs = [], pn_guards = {||}, pn_calls = []\<rparr>"

lemma pane_ok_init: "pane_ok E R no_panes"
  by (simp add: pane_ok_def no_panes_def one_each_def living_def no_future_claims_def text_at_def docs_ok_def state_recorded_def
      guarded_def unclaimed_def)

lemma tmux_step_ok:
  assumes H: "sane E T (tx_root X)"
  shows "tmux_step E T X s s' \<Longrightarrow> pane_ok E (tx_root X) s \<Longrightarrow> pane_ok E (tx_root X) s'"
proof (induction rule: tmux_step.induct)
  case (tmux_launch l s t)
  then show ?case using keepsD [OF keeps_codex_launch [OF H]] by (metis prod.collapse)
next
  case (tmux_resume w s t l)
  then show ?case using keepsD [OF keeps_codex_resume [OF H]] by (metis prod.collapse)
next
  case (tmux_poll s w)
  then show ?case using keepsD [OF keeps_codex_poll [OF H]] by (metis prod.collapse)
next
  case (tmux_stop s w)
  then show ?case using keepsD [OF keeps_codex_stop [OF H]] by (metis prod.collapse)
next
  case (tmux_shell s s')
  then show ?case using step_follows [OF H] pane_ok_follows by blast
next
  case (tmux_report p s x)
  have E: "truthful E" using H by (simp add: sane_def)
  show ?case unfolding later_def
    using calm_pane_ok [OF E tmux_report(2) calm_text [OF tmux_report(1)]] one_each_tick [OF E one_each_text [OF pane_ok_one [OF tmux_report(2)] tmux_report(1)]]
    by simp
next
  case (tmux_time s)
  have E: "truthful E" using H by (simp add: sane_def)
  show ?case unfolding later_def
    by (rule calm_pane_ok [OF E tmux_time calm_tick one_each_tick [OF E pane_ok_one [OF tmux_time]]])
qed

text \<open>C7: The tmux executor never has two agents of one worker alive. Whatever launches, resumptions, polls and stops are
  run, on whatever hosts and across their reboots, whatever tmux answers, whichever system calls fail, and whenever
  and however often the shells of the windows read the lines typed to them and stop within a script: of all the
  agents ever started for a worker at most one is alive at any time, and the worker's files name it.\<close>

theorem one_agent_per_worker:
  assumes H: "sane E T (tx_root X)" and run: "(tmux_step E T X)\<^sup>*\<^sup>* no_panes s"
    and p: "p \<in> set (ag_procs (pn_agents s))" "en_alive E (ag_t (pn_agents s)) p"
    and q: "q \<in> set (ag_procs (pn_agents s))" "en_alive E (ag_t (pn_agents s)) q"
    and w: "pr_worker p = pr_worker q"
  shows "p = q \<and> accounts (codex_state_path (tx_root X)) (codex_pid_path (tx_root X)) (pn_agents s) p"
proof -
  from run have "pane_ok E (tx_root X) s"
    by (induction rule: rtranclp_induct) (use pane_ok_init tmux_step_ok [OF H] in auto)
  then show ?thesis using p q w unfolding pane_ok_def one_each_def living_def by blast
qed

end
