(* ===== verification/Local.thy ===== *)
theory Local
  imports Workers
begin

text \<open>
  The executor of local subprocesses: \<open>adapters/local_process.py\<close>. A state file is written before the
  process is started and names its attempt; the pid file is written after it. A crash in between leaves a
  worker whose liveness is unknown, and an unknown worker is never started again.
\<close>

subsection \<open>Files\<close>

definition local_receipt_path :: "string \<Rightarrow> string \<Rightarrow> string" where
  "local_receipt_path R w = R @ ''/receipts/'' @ w @ ''.json''"

definition local_pid_path :: "string \<Rightarrow> string \<Rightarrow> string" where
  "local_pid_path R w = R @ ''/procs/'' @ w @ ''.pid''"

definition local_state_path :: "string \<Rightarrow> string \<Rightarrow> string" where
  "local_state_path R w = R @ ''/procs/'' @ w @ ''.json''"

definition local_identity :: "station \<Rightarrow> string \<Rightarrow> string \<Rightarrow> (agents, int option \<times> int option) cmd" where
  "local_identity E R w = bnd (gets (\<lambda>a. fmlookup (ag_texts a) (local_pid_path R w))) (\<lambda>s. case s of
     None \<Rightarrow> ret (None, None)
   | Some t \<Rightarrow> observe_at E (\<lambda>M. read_pidfile M (local_pid_path R w)))"

definition local_state :: "string \<Rightarrow> string \<Rightarrow> agents \<Rightarrow> dict res" where
  "local_state R w a = (case fmlookup (ag_docs a) (local_state_path R w) of
     None \<Rightarrow> Inr fmempty
   | Some (Some (JObj d)) \<Rightarrow> Inr d
   | Some x \<Rightarrow> Inl (ExecutorUnavailable ''unreadable local executor identity''))"

definition local_alive :: "station \<Rightarrow> string \<Rightarrow> string \<Rightarrow> (agents, bool option) cmd" where
  "local_alive E R w = bnd (asks (local_state R w)) (\<lambda>d.
     observe_at E (\<lambda>M. observe_pidfile M (local_pid_path R w) d (dget d ''attempt_id'')))"

subsection \<open>Operations\<close>

definition local_validate :: "station \<Rightarrow> task \<Rightarrow> unit res" where
  "local_validate E t = (let command = meta t ''command''; cwd = meta t ''cwd'' in
     rbind (ensure (case command of JStr c \<Rightarrow> strip c \<noteq> [] | _ \<Rightarrow> False) (ValueError ''local-process requires a nonempty command'')) (\<lambda>_.
     ensure (\<not> truthy cwd \<or> (case cwd of JStr c \<Rightarrow> en_isdir E c | _ \<Rightarrow> False))
       (ValueError ''local-process cwd must be an existing directory'')))"

text \<open>What follows once nothing of the worker can be running: a new attempt is recorded, then started, then named
  in the pid file. The text of the start time is \<open>None\<close> when it cannot be read.\<close>

definition start_text :: "int option \<Rightarrow> string" where
  "start_text st = (case st of None \<Rightarrow> ''None'' | Some n \<Rightarrow> int_str n)"

definition local_start :: "station \<Rightarrow> string \<Rightarrow> task \<Rightarrow> string \<Rightarrow> (agents, string) cmd" where
  "local_start E R t w =
     bnd (gets (\<lambda>a. fmlookup (ag_texts a) (local_receipt_path R w))) (\<lambda>prior.
     bnd (new_attempt E) (\<lambda>attempt.
     bnd (observe_at E (\<lambda>M. Inr (host_identity M))) (\<lambda>i.
     seq (save_doc E (local_state_path R w) (dput i [(''attempt_id'', JStr attempt),
            (''previous_receipt'', jopt (map_option universal_newlines prior))]))
     (seq (drop_text E (local_receipt_path R w))
     (seq (guard (truthy (meta t ''command'')) (ValueError ''task has no metadata.command for LocalProcessExecutor''))
     (bnd (popen E w attempt i) (\<lambda>pid.
      bnd (observe_at E (\<lambda>M. proc_starttime M pid)) (\<lambda>st.
      seq (put_text E (local_pid_path R w) (pid_text pid (start_text st) attempt))
      (ret (''pid:'' @ int_str pid))))))))))"

definition local_launch :: "station \<Rightarrow> string \<Rightarrow> task \<Rightarrow> lease \<Rightarrow> (agents, string) cmd" where
  "local_launch E R t l = (let w = l_worker l in
     seq begin_op
     (bnd (gets (\<lambda>a. fmlookup (ag_docs a) (local_state_path R w) \<noteq> None \<or> fmlookup (ag_texts a) (local_pid_path R w) \<noteq> None)) (\<lambda>known.
      bnd (if known then local_alive E R w else ret (Some False)) (\<lambda>alive. case alive of
        Some True \<Rightarrow> bnd (local_identity E R w) (\<lambda>(pid, st).
          ret (''pid:'' @ (case pid of None \<Rightarrow> ''None'' | Some n \<Rightarrow> int_str n)))
      | None \<Rightarrow> throw (ExecutorUnavailable ''prior local dispatch unverified; launch withheld'')
      | Some False \<Rightarrow> local_start E R t w))))"

definition local_resume :: "station \<Rightarrow> string \<Rightarrow> task \<Rightarrow> string \<Rightarrow> lease \<Rightarrow> (agents, unit) cmd" where
  "local_resume E R t w l = bnd (local_launch E R t l) (\<lambda>_. ret ())"

definition local_poll :: "station \<Rightarrow> string \<Rightarrow> string \<Rightarrow> (agents, observation) cmd" where
  "local_poll E R w =
     seq begin_op
     (bnd (asks (\<lambda>a. fresh_receipt E (fmlookup (ag_texts a) (local_receipt_path R w)) (local_state R w a))) (\<lambda>r.
      bnd (local_alive E R w) (\<lambda>alive.
      ret \<lparr>o_worker = w, o_alive = alive, o_receipt = r,
        o_detail = if alive = None then Some ''local dispatch or host identity unverified'' else None\<rparr>)))"

text \<open>\<open>killpg\<close> of the process; a process that is gone or not ours is ignored.\<close>

definition local_stop :: "station \<Rightarrow> string \<Rightarrow> string \<Rightarrow> (agents, unit) cmd" where
  "local_stop E R w =
     seq begin_op
     (bnd (local_identity E R w) (\<lambda>(pid, st).
      bnd (local_alive E R w) (\<lambda>alive. case alive of
        None \<Rightarrow> throw (ExecutorUnavailable ''cannot verify signal target; stop withheld'')
      | Some False \<Rightarrow> ret ()
      | Some True \<Rightarrow> (case pid of
          None \<Rightarrow> throw TypeError
        | Some n \<Rightarrow> modify (\<lambda>a. a\<lparr>ag_signals := ag_signals a @ [n]\<rparr>)))))"

subsection \<open>One process for each worker\<close>

text \<open>The runtime directory is not inside \<open>/proc\<close>.\<close>

definition outside_proc :: "string \<Rightarrow> bool" where
  "outside_proc R \<longleftrightarrow> \<not> starts_with ''/proc/'' (R @ ''/procs/'')"

lemma local_paths: "outside_proc R \<Longrightarrow> good_paths (local_state_path R) (local_pid_path R)"
proof -
  assume R: "outside_proc R"
  have "starts_with ''/proc/'' (R @ ''/procs/'')" if "starts_with ''/proc/'' ((R @ ''/procs/'') @ z)" for z
    using that unfolding starts_with_def take_append by simp
  from this [of "w @ ''.pid''" for w] show ?thesis using R
    by (auto simp: good_paths_def outside_proc_def local_state_path_def local_pid_path_def inj_def)
qed

lemma receipt_not_pid: "local_receipt_path R v \<noteq> local_pid_path R w"
proof
  assume "local_receipt_path R v = local_pid_path R w"
  then have "last (local_receipt_path R v) = last (local_pid_path R w)" by simp
  then show False by (simp add: local_receipt_path_def local_pid_path_def)
qed

abbreviation local_one :: "station \<Rightarrow> string \<Rightarrow> agents \<Rightarrow> bool" where
  "local_one E R \<equiv> one_each E (local_state_path R) (local_pid_path R)"

abbreviation local_idle :: "station \<Rightarrow> string \<Rightarrow> string \<Rightarrow> agents \<Rightarrow> bool" where
  "local_idle E R \<equiv> idle E (local_state_path R) (local_pid_path R)"

text \<open>The last step of a start: the start time is read and the pid file written.\<close>

lemma name_process:
  assumes E: "truthful E" "fresh_uuids E" and R: "outside_proc R"
    and a: "local_one E R a" "\<And>p. living E a w p \<Longrightarrow> p = q" and q: "pr_attempt q = attempt" "pr_identity q = host_identity (machine_now E b)"
      "ag_op b = ag_op a" "pr_born q < ag_t a" and u: "attempt = en_uuid E k" "k < ag_t a"
  shows "wp (bnd (observe_at E (\<lambda>M. proc_starttime M (pr_pid q))) (\<lambda>st.
      seq (put_text E (local_pid_path R w) (pid_text (pr_pid q) (start_text st) attempt)) (ret x))) (\<lambda>_. local_one E R) a"
proof -
  have I: "local_one E R (tick_time a)" by (rule one_each_tick [OF E(1) a(1)])
  have part: "local_one E R ((tick_time a)\<lparr>ag_texts := fmupd (local_pid_path R w) (take n (pid_text (pr_pid q) (start_text st) attempt)) (ag_texts a)\<rparr>)"
    if st: "proc_starttime (machine_now E a) (pr_pid q) = Inr st" for st n
  proof -
    have "solid (start_text st)" "start_text st \<noteq> []" "length (start_text st) < 32"
      using start_time_short [OF E(1), of a "pr_pid q"] st int_str_solid
      by (auto simp: start_text_def solid_def is_space_def split: option.splits)
    moreover have "pr_attempt p = attempt \<and> pr_pid p = pr_pid q \<and>
       (dget (pr_identity p) ''pid_namespace'' \<noteq> JNull \<longrightarrow> (\<forall>m. int_literal (start_text st) = Inr m \<longrightarrow> m = pr_start p))"
      if "living E (tick_time a) w p" for p
    proof -
      have l: "living E a w p" by (rule living_tick [OF E(1) a(1) that])
      then have p: "p = q" by (rule a(2))
      have alive: "en_alive E (ag_t a) q" using l p by (simp add: living_def)
      have "m = pr_start q" if ns: "dget (pr_identity q) ''pid_namespace'' \<noteq> JNull" and m: "int_literal (start_text st) = Inr m" for m
      proof (cases st)
        case None
        have "\<not> fullmatch int_rx (strip ''None'')" by code_simp
        then show ?thesis using m None by (simp add: start_text_def int_literal_def Let_def)
      next
        case (Some n)
        then have "m = n" using m int_literal_str by (simp add: start_text_def)
        moreover have "n = pr_start q"
          by (rule start_time_right [OF E(1) q(2) _ q(3) alive _ _ ns, where r = "h_read (machine_now E b)"])
            (use st Some q(4) in simp_all)
        ultimately show ?thesis by simp
      qed
      then show ?thesis using p q(1) by simp
    qed
    ultimately have "local_one E R ((tick_time a)\<lparr>ag_texts := fmupd (local_pid_path R w)
        (take n (pid_text (pr_pid q) (start_text st) attempt)) (ag_texts (tick_time a))\<rparr>)"
      using u by (intro one_each_pid_text [OF E(2) local_paths [OF R] I, where j = k]) auto
    then show ?thesis by simp
  qed
  have full: "local_one E R ((tick_time a)\<lparr>ag_texts := fmupd (local_pid_path R w) (pid_text (pr_pid q) (start_text st) attempt) (ag_texts a)\<rparr>)"
    if "proc_starttime (machine_now E a) (pr_pid q) = Inr st" for st
    using part [OF that, of "length (pid_text (pr_pid q) (start_text st) attempt)"] by simp
  show ?thesis using I part full
    by (auto simp: wp_rules wp_put_text intro!: one_each_tick [OF E(1)])
qed

lemma identity_keys_other [simp]: "''attempt_id'' \<notin> set identity_keys" "''previous_receipt'' \<notin> set identity_keys"
  by (simp_all add: identity_keys_def)

lemma wp_local_start:
  assumes E: "truthful E" "fresh_uuids E" and R: "outside_proc R" and a: "local_idle E R w a"
  shows "wp (local_start E R t w) (\<lambda>_. local_one E R) a"
proof -
  let ?sp = "local_state_path R" and ?pp = "local_pid_path R"
  let ?attempt = "en_uuid E (ag_t a)"
  let ?i = "host_identity (machine_now E (tick_time a))"
  let ?d = "\<lambda>prior. dput ?i [(''attempt_id'', JStr ?attempt), (''previous_receipt'', jopt (map_option universal_newlines prior))]"
  note tick = one_each_tick [OF E(1)] and paths = local_paths [OF R]
  have one: "local_one E R u" if "local_idle E R w u" for u using that by (simp add: idle_def)
  have i2: "local_idle E R w (tick_time (tick_time a))" by (intro idle_tick [OF E(1)] a)
  have unclaimed: "pidfile_claim (text_at a (?pp w)) (JStr ?attempt) = None"
    using a by (auto simp: idle_def one_each_def no_future_claims_def)
  have prepared: "prepared_for E ?sp ?pp w ?attempt ?i
      ((tick_time (tick_time a))\<lparr>ag_docs := fmupd (?sp w) (Some (JObj (?d prior))) (ag_docs a)\<rparr>)" for prior
    using idle_save_doc [OF paths i2, of "Some (JObj (?d prior))"] unclaimed
    by (auto simp: prepared_for_def intro!: exI [of _ "ag_t a"])
  have start: "wp (bnd (popen E w ?attempt ?i) (\<lambda>pid. bnd (observe_at E (\<lambda>M. proc_starttime M pid)) (\<lambda>st.
      seq (put_text E (?pp w) (pid_text pid (start_text st) ?attempt)) (ret (''pid:'' @ int_str pid))))) (\<lambda>_. local_one E R) u"
    if u: "prepared_for E ?sp ?pp w ?attempt ?i u" and op: "ag_op u = ag_op a" for u
  proof -
    let ?q = "\<lparr>pr_worker = w, pr_attempt = ?attempt, pr_pid = fst (en_spawn E (ag_t u)), pr_start = snd (en_spawn E (ag_t u)),
         pr_identity = ?i, pr_born = ag_t u\<rparr>"
    let ?v = "tick_time (u\<lparr>ag_procs := ?q # ag_procs u\<rparr>)"
    note sp = one_each_spawn [OF E(1) u, of ?q, simplified]
    have k: "ag_t a < ag_t u" using u uuid_inj [OF E(2)] by (auto simp: prepared_for_def)
    have "wp (bnd (observe_at E (\<lambda>M. proc_starttime M (pr_pid ?q))) (\<lambda>st.
        seq (put_text E (?pp w) (pid_text (pr_pid ?q) (start_text st) ?attempt)) (ret (''pid:'' @ int_str (pr_pid ?q))))) (\<lambda>_. local_one E R) ?v"
      by (rule name_process [OF E R, where q = ?q and b = "tick_time a" and k = "ag_t a"]) (use sp op k in auto)
    moreover have "local_one E R (tick_time u)" using u by (intro tick one) (simp add: prepared_for_def)
    ultimately show ?thesis by (subst wp_bnd) (auto simp: wp_popen)
  qed
  have rest: "wp (seq (drop_text E (local_receipt_path R w))
     (seq (guard c e) (bnd (popen E w ?attempt ?i) (\<lambda>pid. bnd (observe_at E (\<lambda>M. proc_starttime M pid)) (\<lambda>st.
      seq (put_text E (?pp w) (pid_text pid (start_text st) ?attempt)) (ret (''pid:'' @ int_str pid))))))) (\<lambda>_. local_one E R) u"
    if u: "prepared_for E ?sp ?pp w ?attempt ?i u" and op: "ag_op u = ag_op a" for u c e
  proof -
    have f: "local_one E R (tick_time u)" using u by (intro tick one) (simp add: prepared_for_def)
    let ?v = "tick_time (u\<lparr>ag_texts := fmdrop (local_receipt_path R w) (ag_texts u)\<rparr>)"
    have v: "prepared_for E ?sp ?pp w ?attempt ?i ?v" by (intro prepared_tick [OF E(1)] prepared_drop u)
    then have "local_one E R ?v" by (intro one) (simp add: prepared_for_def)
    then show ?thesis unfolding drop_text_def using f start [OF v] op
      by (subst wp_seq, subst wp_try_step) (auto simp: wp_seq wp_guard)
  qed
  show ?thesis unfolding local_start_def
    using rest [OF prepared_tick [OF E(1) prepared]] tick [OF one [OF i2]]
    by (subst wp_bnd, subst wp_gets, subst wp_bnd, subst wp_new_attempt, subst wp_bnd, subst wp_observe_at)
      (auto simp: wp_seq wp_try_step save_doc_def)
qed

lemma local_alive_dead:
  assumes E: "truthful E" and R: "outside_proc R" and a: "local_one E R a"
  shows "wp (local_alive E R w) (\<lambda>r u. local_one E R u \<and> (r = Inr (Some False) \<longrightarrow> local_idle E R w u)) a"
proof -
  have "local_idle E R w (tick_time a)"
    if d: "local_state R w a = Inr d" and r: "observe_pidfile (machine_now E a) (local_pid_path R w) d (dget d ''attempt_id'') = Inr (Some False)" for d
  proof -
    have "d \<noteq> fmempty" using r by (auto simp: observe_pidfile_def Let_def)
    then have "fmlookup (ag_docs a) (local_state_path R w) = Some (Some (JObj d))"
      using d by (auto simp: local_state_def split: option.splits json.splits)
    from dead_evidence [OF E local_paths [OF R] a this r] show ?thesis by (rule idle_tick [OF E])
  qed
  then show ?thesis using a one_each_tick [OF E a]
    by (auto simp: local_alive_def wp_rules)
qed

lemma unknown_idle:
  assumes "local_one E R a" and "fmlookup (ag_docs a) (local_state_path R w) = None"
  shows "local_idle E R w a"
  using assms by (auto simp: idle_def one_each_def accounts_def living_def)

lemma keeps_local_identity: "truthful E \<Longrightarrow> keeps (local_one E R) (local_identity E R w)"
  unfolding local_identity_def by (intro keeps_bnd keeps_gets keeps_option keeps_ret keeps_observe_at)

lemma keeps_local_alive: "truthful E \<Longrightarrow> keeps (local_one E R) (local_alive E R w)"
  unfolding local_alive_def by (intro keeps_bnd keeps_asks keeps_observe_at)

lemma keeps_local_launch:
  assumes E: "truthful E" "fresh_uuids E" and R: "outside_proc R"
  shows "keeps (local_one E R) (local_launch E R t l)"
proof (rule keepsI)
  fix a assume a: "local_one E R a"
  let ?w = "l_worker l" and ?u = "(tick_time a)\<lparr>ag_op := Suc (ag_op a)\<rparr>"
  have u: "local_one E R ?u" using one_each_tick [OF E(1) a] by simp
  have dead: "wp (if k then local_alive E R ?w else ret (Some False))
      (\<lambda>r v. local_one E R v \<and> (r = Inr (Some False) \<longrightarrow> local_idle E R ?w v)) ?u"
    if k: "\<not> k \<Longrightarrow> fmlookup (ag_docs ?u) (local_state_path R ?w) = None" for k
    using local_alive_dead [OF E(1) R u, of ?w] unknown_idle [OF u, of ?w] k by (simp add: wp_ret idle_def)
  have go: "wp (case alive of Some True \<Rightarrow> bnd (local_identity E R ?w) (\<lambda>(pid, st). ret (f pid))
      | None \<Rightarrow> throw e | Some False \<Rightarrow> local_start E R t ?w) (\<lambda>_. local_one E R) v"
    if v: "local_one E R v" "alive = Some False \<Longrightarrow> local_idle E R ?w v" for alive v f and e :: exn
  proof -
    have "keeps (local_one E R) (bnd (local_identity E R ?w) (\<lambda>(pid, st). ret (f pid)))"
      by (intro keeps_bnd keeps_local_identity [OF E(1)]) (simp add: keeps_ret split: prod.split)
    then show ?thesis using v wp_local_start [OF E R, of ?w v t]
      by (auto simp: keeps_def wp_throw split: option.split bool.split)
  qed
  show "wp (local_launch E R t l) (\<lambda>_. local_one E R) a"
    unfolding local_launch_def Let_def wp_seq wp_begin_op wp_bnd wp_gets
    apply (simp only: sum.simps simp_thms all_simps)
    apply (rule wp_mono [OF dead])
     apply blast
    using go by simp
qed

text \<open>What happens to the workers of a runtime directory: operations, whatever they end in, receipts and time.\<close>

inductive local_step :: "station \<Rightarrow> string \<Rightarrow> agents \<Rightarrow> agents \<Rightarrow> bool" for E R where
  step_launch: "local_step E R a (snd (local_launch E R t l a))"
| step_resume: "local_step E R a (snd (local_resume E R t w l a))"
| step_poll: "local_step E R a (snd (local_poll E R w a))"
| step_stop: "local_step E R a (snd (local_stop E R w a))"
| step_report: "local_step E R a (a\<lparr>ag_texts := fmupd (local_receipt_path R w) s (ag_texts a)\<rparr>)"
| step_time: "local_step E R a (tick_time a)"

definition no_agents :: agents where
  "no_agents = \<lparr>ag_op = 0, ag_t = 0, ag_docs = fmempty, ag_texts = fmempty, ag_procs = [], ag_signals = []\<rparr>"

lemma local_one_init: "one_each E sp pp no_agents"
  by (simp add: one_each_def living_def no_future_claims_def no_agents_def text_at_def)

lemma local_step_one:
  assumes E: "truthful E" "fresh_uuids E" and R: "outside_proc R"
  shows "local_step E R a b \<Longrightarrow> local_one E R a \<Longrightarrow> local_one E R b"
proof (induction rule: local_step.induct)
  case (step_launch a t l)
  then show ?case using keepsD [OF keeps_local_launch [OF E R]] by (metis prod.collapse)
next
  case (step_resume a t w l)
  have "keeps (local_one E R) (local_resume E R t w l)" unfolding local_resume_def
    by (intro keeps_bnd keeps_local_launch [OF E R] keeps_ret)
  then show ?case using step_resume keepsD by (metis prod.collapse)
next
  case (step_poll a w)
  have "keeps (local_one E R) (local_poll E R w)" unfolding local_poll_def
    by (intro keeps_seq keeps_begin_op [OF E(1)] keeps_bnd keeps_asks keeps_local_alive [OF E(1)] keeps_ret)
  then show ?case using step_poll keepsD by (metis prod.collapse)
next
  case (step_stop a w)
  have "keeps (local_one E R) (local_stop E R w)" unfolding local_stop_def
    by (intro keeps_seq keeps_begin_op [OF E(1)] keeps_bnd keeps_local_identity [OF E(1)])
      (auto intro!: keeps_bnd keeps_local_alive [OF E(1)] keeps_throw keeps_ret keeps_modify split: option.split bool.split)
  then show ?case using step_stop keepsD by (metis prod.collapse)
next
  case (step_report a w s)
  then show ?case by (intro one_each_text) (use receipt_not_pid in auto)
next
  case (step_time a)
  then show ?case by (rule one_each_tick [OF E(1)])
qed

text \<open>C6: The executor of local processes never has two processes of one worker alive. Whatever sequence of
  launches, resumptions, polls and stops is run, on whatever hosts, whichever of their disk and system calls
  fail or are cut off by a crash, and however much of a pid file was written: of all the processes ever
  started for a worker at most one is alive at any time, and the worker's files name it.\<close>

theorem one_process_per_worker:
  assumes E: "truthful E" "fresh_uuids E" and R: "outside_proc R" and run: "(local_step E R)\<^sup>*\<^sup>* no_agents a"
    and p: "p \<in> set (ag_procs a)" "en_alive E (ag_t a) p" and q: "q \<in> set (ag_procs a)" "en_alive E (ag_t a) q"
    and w: "pr_worker p = pr_worker q"
  shows "p = q \<and> accounts (local_state_path R) (local_pid_path R) a p"
proof -
  from run have "local_one E R a"
    by (induction rule: rtranclp_induct) (use local_one_init local_step_one [OF E R] in auto)
  then show ?thesis using p q w unfolding one_each_def living_def by blast
qed

subsection \<open>At a concrete host\<close>

definition stat_line :: string where
  "stat_line = ''50 (sh) S 0 0 0 0 0 0 0 0 0 0 0 0 0 0 0 0 0 0 7 0''"

definition ident0 :: dict where
  "ident0 = obj [(''host'', JStr ''h''), (''boot_id'', JStr ''b''), (''pid_namespace'', JStr ''n'')]"

definition station0 :: station where
  "station0 = \<lparr>en_host = (\<lambda>_. ''h''), en_boot = (\<lambda>_ _. Some ''b''), en_ns = (\<lambda>_. Some ''n''), en_table = (\<lambda>_ _ _. Seen stat_line),
     en_fails = (\<lambda>_. None), en_torn = (\<lambda>_. 0), en_uuid = (\<lambda>n. replicate (32 + n) (CHR ''a'') @ ''b''), en_spawn = (\<lambda>_. (50, 7)),
     en_alive = (\<lambda>_ p. pr_pid p = 50 \<and> pr_start p = 7 \<and>
       list_all (\<lambda>k. dget (pr_identity p) k = dget ident0 k) identity_keys), en_json = (\<lambda>_. None), en_sha = (\<lambda>s. s),
     en_isdir = (\<lambda>_. True)\<rparr>"

lemma station0_ok: "truthful station0" "fresh_uuids station0"
proof -
  have s: "start_field stat_line = Some 7" "runnable stat_line" "length (int_str 7) < 32" by code_simp+
  have b: "dget ident0 ''boot_id'' = JStr ''b''" "dget ident0 ''pid_namespace'' = JStr ''n''" by code_simp+
  have h: "dget (host_identity \<lparr>h_name = ''h'', h_boot = Some ''b'', h_ns = Some ''n'', h_read = r\<rparr>) ''boot_id'' = JStr ''b''" for r
    by (simp add: host_identity_def strip_def lstrip_def rstrip_def is_space_def)
  show "truthful station0" unfolding truthful_def station0_def by (auto simp: s b h identity_keys_def)
  have r: "i = j" if "take n (replicate (32 + i) (CHR ''a'') @ ''b'') = replicate (32 + j) (CHR ''a'') @ ''b''" for i j n
  proof (cases "n \<le> 32 + i")
    case True
    then have "CHR ''b'' \<notin> set (take n (replicate (32 + i) (CHR ''a'') @ ''b''))" by (auto dest: in_set_takeD)
    then show ?thesis unfolding that by simp
  next
    case False
    then have "replicate (32 + i) (CHR ''a'') @ ''b'' = replicate (32 + j) (CHR ''a'') @ ''b''" using that by simp
    then show ?thesis by (auto dest: arg_cong [where f = length])
  qed
  have u: "en_uuid station0 i = replicate (32 + i) (CHR ''a'') @ ''b''" for i by (simp add: station0_def)
  have sol: "solid (replicate n (CHR ''a'') @ ''b'')" for n by (induction n) (simp_all add: solid_def is_space_def)
  show "fresh_uuids station0" unfolding fresh_uuids_def u
  proof (intro conjI allI impI)
    show "32 \<le> length (replicate (32 + t) (CHR ''a'') @ ''b'')" for t by simp
  qed (rule sol, rule r)
qed

definition shell_task :: task where
  "shell_task = \<lparr>t_id = ''t'', t_objective = ''o'', t_deliverable = ''d'', t_acceptance = ''a'', t_state = READY, t_lease = None,
     t_meta = obj [(''command'', JStr ''sleep 9'')]\<rparr>"

definition shell_lease :: lease where
  "shell_lease = \<lparr>l_worker = ''w'', l_id = ''l'', l_expiry = None\<rparr>"

lemma launched_once:
  "\<exists>a p. local_launch station0 ''/f'' shell_task shell_lease no_agents = (Inr ''pid:50'', a) \<and> ag_procs a = [p] \<and>
     pr_worker p = ''w'' \<and> pr_pid p = 50 \<and> pr_start p = 7 \<and> pr_identity p = ident0"
proof -
  have i: "int_str 50 = ''50''" "truthy (meta shell_task ''command'')" by code_simp+
  have st: "proc_starttime \<lparr>h_name = ''h'', h_boot = Some ''b'', h_ns = Some ''n'', h_read = r\<rparr> 50 = Inr (Some 7)"
    if "r (stat_path 50) = Seen stat_line" for r
  proof -
    have "start_field stat_line = Some 7" by code_simp
    then show ?thesis using that by (simp add: proc_starttime_def)
  qed
  have h: "host_identity \<lparr>h_name = ''h'', h_boot = Some ''b'', h_ns = Some ''n'', h_read = r\<rparr> = ident0" for r
    by (simp add: host_identity_def ident0_def strip_def lstrip_def rstrip_def is_space_def)
  show ?thesis
    by (simp add: local_launch_def Let_def local_start_def begin_op_def new_attempt_def observe_at_def save_doc_def drop_text_def
        popen_def put_text_def try_step_def machine_now_def station0_def no_agents_def shell_lease_def i st h cmd_defs ensure_def)
qed

theorem one_process_per_worker_witness:
  "\<exists>a p. (local_step station0 ''/f'')\<^sup>*\<^sup>* no_agents a \<and> ag_procs a = [p] \<and> en_alive station0 (ag_t a) p \<and>
     accounts (local_state_path ''/f'') (local_pid_path ''/f'') a p"
proof -
  obtain a p where r: "local_launch station0 ''/f'' shell_task shell_lease no_agents = (Inr ''pid:50'', a)"
    and p: "ag_procs a = [p]" "pr_pid p = 50" "pr_start p = 7" "pr_identity p = ident0"
    using launched_once by blast
  have "local_step station0 ''/f'' no_agents a" using step_launch [of station0 "''/f''" no_agents shell_task shell_lease] by (simp add: r)
  then have run: "(local_step station0 ''/f'')\<^sup>*\<^sup>* no_agents a" by blast
  have R: "outside_proc ''/f''" by code_simp
  have al: "en_alive station0 (ag_t a) p" using p by (simp add: station0_def identity_keys_def)
  have m: "p \<in> set (ag_procs a)" using p by simp
  from one_process_per_worker [OF station0_ok R run m al m al refl] show ?thesis using run p(1) al by blast
qed

end
