(* ===== verification/Agent_Witnesses.thy ===== *)
theory Agent_Witnesses
  imports One_Agent Local
begin

text \<open>The properties of the two executors at concrete hosts.\<close>

subsection \<open>A host with tmux\<close>

definition terminal0 :: terminal where
  "terminal0 = \<lparr>tm_answer = (\<lambda>_ _. Answer 0 [] []), tm_pass = (\<lambda>_ s. s)\<rparr>"

definition codex0 :: tmux_executor where
  "codex0 = codex_executor ''/f'' ''farm2'' None codex_defaults ''helper'' (\<lambda>p. p) (\<lambda>_. [])"

definition agent_task :: task where
  "agent_task = \<lparr>t_id = ''t'', t_objective = ''o'', t_deliverable = ''d'', t_acceptance = ''a'', t_state = READY, t_lease = None,
     t_meta = obj [(''workspace'', JStr ''/w''), (''brief'', JStr ''go'')]\<rparr>"

lemma station0_plain: "plain_stats station0"
proof -
  let ?b = "''S 0 0 0 0 0 0 0 0 0 0 0 0 0 0 0 0 0 0 7 0''"
  have "stat_line = ''50 (sh'' @ '') '' @ ?b" by (simp add: stat_line_def)
  moreover have "19 < length (split_ws ?b)" "split_ws ?b ! 19 = ''7''" "int_str 7 = ''7''" "start_field stat_line = Some 7"
    by code_simp+
  moreover have "CHR '')'' \<notin> set ''50 (sh''" by simp
  ultimately have "plain_stat stat_line" unfolding plain_stat_def by metis
  then show ?thesis by (simp add: plain_stats_def station0_def)
qed

lemma sane0: "sane station0 terminal0 ''/f''"
proof -
  have "\<not> starts_with ''/proc/'' (''/f'' @ ''/codex_workers/'')" by code_simp
  moreover have "passes station0 terminal0" by (simp add: passes_def terminal0_def)
  ultimately show ?thesis using station0_ok station0_plain by (simp add: sane_def)
qed

lemma on_agents0 [simp]: "on_agents terminal0 m s = (case m (pn_agents s) of (r, a) \<Rightarrow> (r, s\<lparr>pn_agents := a\<rparr>))"
  by (simp add: on_agents_def terminal0_def)

lemma tmux_command0 [simp]: "tmux_command terminal0 X args b s = (Inr (0, []), s\<lparr>pn_calls := pn_calls s @ [tmux_argv X args],
    pn_agents := tick_time (pn_agents s)\<rparr>)"
  by (simp add: tmux_command_def cmd_defs terminal0_def on_agents_def)

lemma trim_end_le: "length (trim_end s) \<le> length s"
  using length_dropWhile_le [of byte_space "rev s"] by (simp add: trim_end_def)

definition attempt0 :: string where
  "attempt0 = en_uuid station0 (Suc (Suc 0))"

definition state0 :: dict where
  "state0 = prepared_state (first_state codex0 agent_task shell_lease ''/w'') ident0 attempt0 None"

lemma brief0: "\<exists>b. launch_inputs codex0 agent_task = Inr (''/w'', b) \<and> length (trim_end b) \<le> 90000"
proof -
  obtain c where c: "worker_contract (\<lambda>_. []) agent_task = Inr c" "length c \<le> 1000"
    by (simp add: worker_contract_def instruction_part_def checkpoint_part_def agent_task_def rbind_def newline1_def)
  have "length (trim_end (''go'' @ c)) \<le> length (''go'' @ c)" by (rule trim_end_le)
  with c show ?thesis
    by (simp add: launch_inputs_def codex0_def codex_executor_def rbind_def ensure_def) (simp add: agent_task_def)
qed

lemma launched0:
  "\<exists>s l sc. codex_launch station0 terminal0 codex0 agent_task shell_lease no_panes = (Inr ''farm2:w'', s) \<and>
     pn_lines s = [l] \<and> fmlookup (pn_scripts s) (ln_path l) = Some sc \<and> pn_guards s = {||} \<and> ag_procs (pn_agents s) = [] \<and> pn_runs s = [] \<and>
     ln_shell l = \<lparr>pr_worker = ''w'', pr_attempt = attempt0, pr_pid = 50, pr_start = 7, pr_identity = state0, pr_born = pr_born (ln_shell l)\<rparr> \<and>
     sf_identity sc = state0 \<and> sc_worker (sf_parts sc) = ''w''"
proof -
  obtain b where b: "launch_inputs codex0 agent_task = Inr (''/w'', b)" "length (trim_end b) \<le> 90000" using brief0 by blast
  have "field state0 ''receipt_path'' = ''/f/receipts/w.json''"
    by (simp add: field_def state0_def prepared_state_def first_state_def Let_def dget_def codex0_def codex_executor_def codex_receipt_path_def shell_lease_def)
  then have "length (sc_receipt (script_parts state0 ''w'')) \<le> 4000" by (simp add: script_parts_def)
  from launch_script_fits [OF b(2) this] obtain body where
    s: "launch_script codex_defaults (codex_launch_line codex_defaults) codex_sid_pattern (script_parts state0 ''w'') b = Inr body" by blast
  have h: "host_identity \<lparr>h_name = ''h'', h_boot = Some ''b'', h_ns = Some ''n'', h_read = r\<rparr> = ident0" for r
    by (simp add: host_identity_def ident0_def strip_def lstrip_def rstrip_def is_space_def)
  have m: "machine_now station0 a = \<lparr>h_name = ''h'', h_boot = Some ''b'', h_ns = Some ''n'', h_read = h_read (machine_now station0 a)\<rparr>" for a
    by (simp add: machine_now_def station0_def)
  have i: "host_identity (machine_now station0 a) = ident0" for a using h m by metis
  have f: "en_fails station0 t = None" for t by (simp add: station0_def)
  have sp: "en_spawn station0 t = (50, 7)" for t by (simp add: station0_def)
  have w: "l_worker shell_lease = ''w''" by (simp add: shell_lease_def)
  have x: "tx_root codex0 = ''/f''" "tx_session codex0 = ''farm2''" "tx_config codex0 = codex_defaults" "tx_launch_line codex0 = codex_launch_line"
    "tx_sid_pattern codex0 = codex_sid_pattern" by (simp_all add: codex0_def codex_executor_def)
  have st: "prepared_state (first_state codex0 agent_task shell_lease ''/w'') ident0 (en_uuid station0 (Suc (Suc 0))) None = state0"
    by (simp add: state0_def attempt0_def)
  have fw: "field state0 ''window'' = ''w''" "field state0 ''attempt_id'' = attempt0" "sc_worker (script_parts state0 ''w'') = ''w''"
    by (simp_all add: field_def state0_def first_state_def Let_def w script_parts_def)
  show ?thesis
    by (simp add: fw codex_launch_def Let_def w x b(1) load_state_def prepare_attempt_def no_panes_def begin_op_def tick_time_def new_attempt_def
        observe_at_def i save_doc_def try_step_def f st put_helper_def put_text_def run_script_def s put_script_def ensure_window_def
        send_line_def cmd_defs sp)
qed

theorem one_agent_per_worker_witness:
  "\<exists>s p. (tmux_step station0 terminal0 codex0)\<^sup>*\<^sup>* no_panes s \<and> ag_procs (pn_agents s) = [p] \<and> en_alive station0 (ag_t (pn_agents s)) p \<and>
     accounts (codex_state_path ''/f'') (codex_pid_path ''/f'') (pn_agents s) p"
proof -
  obtain s l sc where run: "codex_launch station0 terminal0 codex0 agent_task shell_lease no_panes = (Inr ''farm2:w'', s)"
    and s: "pn_lines s = [l]" "fmlookup (pn_scripts s) (ln_path l) = Some sc" "pn_guards s = {||}" "sf_identity sc = state0" "ag_procs (pn_agents s) = []"
      "pn_runs s = []"
    and l: "ln_shell l = \<lparr>pr_worker = ''w'', pr_attempt = attempt0, pr_pid = 50, pr_start = 7, pr_identity = state0, pr_born = pr_born (ln_shell l)\<rparr>"
    using launched0 by blast
  have alive: "en_alive station0 t p" if "pr_pid p = 50" "pr_start p = 7" "pr_identity p = state0" for t p
    using that by (simp add: station0_def state0_def identity_keys_def)
  define r where "r = \<lparr>rn_script = sc, rn_shell = ln_shell l, rn_stage = Armed\<rparr>"
  define u where "u = later (s\<lparr>pn_runs := [r], pn_guards := {|dispatch_guard (sf_parts sc)|}\<rparr>)"
  define q where "q = new_agent station0 u sc"
  define v where "v = later (set_stage r (Started q) (u\<lparr>pn_agents := (pn_agents u)\<lparr>ag_procs := q # ag_procs (pn_agents u)\<rparr>\<rparr>))"
  have sh: "up station0 x (ln_shell l)" for x unfolding up_def by (rule alive) (subst l, simp)+
  have r: "rn_script r = sc" "rn_shell r = ln_shell l" "rn_stage r = Armed" by (simp_all add: r_def)
  have u: "pn_runs u = [r]" "ag_procs (pn_agents u) = []" by (simp_all add: u_def later_def tick_time_def s)
  have "CHR ''/'' \<notin> set (l_worker shell_lease)" by (simp add: shell_lease_def)
  from tmux_launch [OF this, of station0 terminal0 codex0 no_panes agent_task] have 1: "tmux_step station0 terminal0 codex0 no_panes s" by (simp add: run)
  have 2: "tmux_step station0 terminal0 codex0 s u"
    using shell_guard [of l s station0 sc] s sh by (intro tmux_shell) (simp add: u_def r_def)
  have "r \<in> set (pn_runs u)" and "up station0 u (rn_shell r)" using u sh by (simp_all add: r)
  from shell_start [OF this r(3), unfolded r(1), folded q_def, folded v_def] have "pane_step station0 u v" .
  then have 3: "tmux_step station0 terminal0 codex0 u v" by (rule tmux_shell)
  have "(tmux_step station0 terminal0 codex0)\<^sup>*\<^sup>* no_panes s" by (rule r_into_rtranclp) (rule 1)
  then have "(tmux_step station0 terminal0 codex0)\<^sup>*\<^sup>* no_panes u" by (rule rtranclp.rtrancl_into_rtrancl) (rule 2)
  then have run: "(tmux_step station0 terminal0 codex0)\<^sup>*\<^sup>* no_panes v" by (rule rtranclp.rtrancl_into_rtrancl) (rule 3)
  have q: "en_alive station0 t q" for t by (rule alive) (simp_all add: q_def new_agent_def Let_def s station0_def)
  have m: "ag_procs (pn_agents v) = [q]" by (simp add: v_def later_def tick_time_def set_stage_def u)
  have H: "sane station0 terminal0 (tx_root codex0)" using sane0 by (simp add: codex0_def codex_executor_def)
  from one_agent_per_worker [OF H run, of q q] have "accounts (codex_state_path ''/f'') (codex_pid_path ''/f'') (pn_agents v) q"
    using m q by (simp add: codex0_def codex_executor_def)
  then show ?thesis using run m q by blast
qed

end
