(* ===== verification/Lifecycle.thy ===== *)
theory Lifecycle
  imports Reconciler Access
begin

text \<open>
  The life of a farm's daemon: who may start it (\<open>provenance.py\<close>), what it does when it starts and how long it
  runs (\<open>cmd_reconcile\<close> of \<open>cli.py\<close>), and how it is stopped and replaced (\<open>lifecycle.py\<close>). Every operation but
  the loop runs under the lock of the task files.
\<close>

subsection \<open>Who may write\<close>

definition sha256_rx :: rx where
  "sha256_rx = Rep (Cls (\<lambda>c. is_digit c \<or> c \<in> set ''abcdef'')) 64 64"

text \<open>\<open>all(t.state is READY and t.metadata.get("revision", 0) >= 1 for t in tasks)\<close>\<close>

fun all_created :: "task list \<Rightarrow> bool res" where
  "all_created [] = Inr True"
| "all_created (t # ts) = (if t_state t \<noteq> READY then Inr False
     else rbind (as_int (meta_or t ''revision'' (JInt 0))) (\<lambda>r. if r < 1 then Inr False else all_created ts))"

definition writer_keys :: "string \<Rightarrow> string option \<Rightarrow> string list" where
  "writer_keys policy upgrade = [''protocol_version''] @
     (if policy = ''pinned-host'' then [''host''] @ (if upgrade = None then [''source_sha256''] else []) else [])"

definition compatible_writer :: "env \<Rightarrow> string \<Rightarrow> string option \<Rightarrow> 'z farm_scheme \<Rightarrow> unit res" where
  "compatible_writer E policy upgrade s =
     rbind (require_no_pending_recovery s) (\<lambda>_.
     rbind (ensure (policy = ''compatible'' \<or> policy = ''pinned-host'') (StoreError ''unknown writer policy'')) (\<lambda>_.
     rbind (ensure (case upgrade of None \<Rightarrow> True | Some u \<Rightarrow> policy = ''pinned-host'' \<and> fullmatch sha256_rx u)
       (StoreError ''source upgrade requires pinned-host and the exact previous SHA-256'')) (\<lambda>_.
     case f_deploy s of
       None \<Rightarrow>
         if upgrade \<noteq> None then Inl (StoreError ''source upgrade requires an existing deployment manifest'')
         else if policy = ''compatible'' then Inr ()
         else rbind (all_created (store_list s)) (\<lambda>fresh.
           ensure fresh (StoreError ''daemon version unverified: controlled upgrade/restart required before master writes''))
     | Some (JObj m) \<Rightarrow>
         rbind (ensure (same_build E (writer_keys policy upgrade) m) (StoreError ''writer/daemon mismatch'')) (\<lambda>_.
         case upgrade of None \<Rightarrow> Inr ()
         | Some u \<Rightarrow>
             rbind (ensure (dget m ''source_sha256'' = JStr u) (StoreError ''source upgrade mismatch'')) (\<lambda>_.
             ensure (f_journal s = None)
               (StoreError ''finish/inspect the pending task transaction with its original writer before upgrading'')))
     | Some j \<Rightarrow> Inl (StoreError ''invalid deployment manifest; preserve it and inspect before writing''))))"

definition local_executor_host :: "env \<Rightarrow> 'z farm_scheme \<Rightarrow> unit res" where
  "local_executor_host E s =
     (if list_all (\<lambda>t. t_lease t = None) (store_list s) then Inr ()
      else case f_deploy s of
        None \<Rightarrow> Inl (StoreError ''active leases without verified prior deployment; inspect old writers before restart'')
      | Some (JObj m) \<Rightarrow> ensure (dget m ''host'' = dget (env_identity E) ''host'')
          (StoreError ''active leases belong to another deployment host; no automatic cross-host takeover'')
      | Some j \<Rightarrow> Inl AttributeError)"

subsection \<open>Stopping\<close>

definition current_manifest :: "env \<Rightarrow> ('z farm_scheme, dict) cmd" where
  "current_manifest E =
     bnd (finish_deployment_event E False) (\<lambda>m.
     seq (guard (m \<noteq> fmempty) (StoreError ''no deployment manifest: nothing to stop''))
     (seq (guard (same_build E [''host''] m) (StoreError ''the daemon belongs to another host; stop it there''))
     (seq (guard (same_build E [''protocol_version''] m) (StoreError ''writer/deployment protocol mismatch''))
     (ret m))))"

definition stop_control :: "string \<Rightarrow> json \<Rightarrow> string \<Rightarrow> string \<Rightarrow> dict" where
  "stop_control rid host actor ts = obj [(''id'', JStr rid), (''kind'', JStr ''stop''), (''phase'', JStr ''draining''),
     (''target_host'', JNull), (''from_host'', host), (''actor'', JStr actor), (''ts'', JStr ts)]"

text \<open>\<open>stamp\<close> is \<open>strftime('%Y%m%dT%H%M%SZ')\<close>.\<close>

definition stop_drain :: "env \<Rightarrow> (int \<Rightarrow> string) \<Rightarrow> string \<Rightarrow> ('z farm_scheme, dict) cmd" where
  "stop_drain E stamp actor =
     seq (guard (strip actor \<noteq> []) (StoreError ''stop requires a nonempty actor''))
     (bnd (asks require_no_pending_recovery) (\<lambda>_.
     bnd (current_manifest E) (\<lambda>m.
     if truthy (dget m ''handoff'') \<and> phase_of m \<noteq> JStr ''claimed'' then
       seq (guard (dget (handoff_of m) ''kind'' = JStr ''stop'')
         (StoreConflict ''a node handoff is pending; finish or recover it before stopping''))
       (ret (handoff_of m))
     else
       bnd (now E) (\<lambda>t.
       bnd (now_iso E) (\<lambda>ts.
       let rid = ''stop-'' @ stamp t; control = stop_control rid (dget m ''host'') actor ts in
       bnd (asks log_ids) (\<lambda>ids.
       seq (guard (rid @ ''-FARM_STOP_DRAIN'' \<notin> ids) (StoreConflict ''stop id already used; retry in a second''))
       (seq recover_locked
       (bnd (publish E m control ''FARM_STOP_DRAIN'' actor) (\<lambda>_. ret control)))))))))"

text \<open>A finished stop is over once the daemon starts again. The event is logged first.\<close>

definition stopping :: "dict \<Rightarrow> bool" where
  "stopping m \<longleftrightarrow> truthy (dget m ''handoff'') \<and> dget (handoff_of m) ''kind'' = JStr ''stop''"

definition cleared_event :: "dict \<Rightarrow> string \<Rightarrow> string \<Rightarrow> event res" where
  "cleared_event ctl actor ts = rbind (dindex ctl ''id'') (\<lambda>i.
     Inr \<lparr>e_id = py_str i @ ''-FARM_STOP_CLEARED'', e_task = ''*'', e_type = ''FARM_STOP_CLEARED'', e_actor = actor,
          e_payload = obj [(''handoff'', JObj ctl)], e_ts = ts\<rparr>)"

definition clear_stop_control :: "env \<Rightarrow> string \<Rightarrow> ('z farm_scheme, dict option) cmd" where
  "clear_stop_control E actor =
     bnd (asks deployment) (\<lambda>m.
     if \<not> stopping m then ret None
     else
       bnd (now_iso E) (\<lambda>ts.
       bnd (pure (cleared_event (handoff_of m) actor ts)) (\<lambda>ev.
       bnd (asks log_ids) (\<lambda>ids.
       seq (if e_id ev \<notin> ids then log_append ev else ret ())
       (seq (write_deployment (fmdrop ''handoff'' m))
       (ret (Some (handoff_of m))))))))"

subsection \<open>Stopping at once\<close>

text \<open>The processes and the clock of the host, one reading per instant; \<open>hk_kill\<close> is what \<open>kill\<close> answers.\<close>

datatype signalled = Sent | No_Process | Denied

record host_view =
  hk_machine :: "nat \<Rightarrow> machine"
  hk_clock :: "nat \<Rightarrow> rat"
  hk_kill :: "nat \<Rightarrow> int \<Rightarrow> signalled"
  hk_self :: "int \<times> int"

record stopping_farm = farm +
  sw_t :: nat
  sw_signals :: "(nat \<times> int) list"

record stop_result =
  sr_stopped :: bool
  sr_pid :: "int option"
  sr_reason :: "string option"

definition look_at :: "(nat \<Rightarrow> 'a res) \<Rightarrow> (stopping_farm, 'a) cmd" where
  "look_at f = bnd (gets sw_t) (\<lambda>t. seq (modify (\<lambda>s. s\<lparr>sw_t := Suc t\<rparr>)) (pure (f t)))"

definition send_term :: "host_view \<Rightarrow> int \<Rightarrow> (stopping_farm, signalled) cmd" where
  "send_term H pid = bnd (gets sw_t) (\<lambda>t.
     seq (modify (\<lambda>s. s\<lparr>sw_t := Suc t, sw_signals := sw_signals s @ [(t, pid)]\<rparr>)) (ret (hk_kill H t pid)))"

text \<open>\<open>while time.monotonic() < deadline and _process_alive(pid)\<close>, with fuel; None when it is used up.\<close>

fun await_exit :: "nat \<Rightarrow> host_view \<Rightarrow> int \<Rightarrow> rat \<Rightarrow> (stopping_farm, unit option) cmd" where
  "await_exit 0 H pid deadline = ret None"
| "await_exit (Suc n) H pid deadline =
     bnd (look_at (\<lambda>t. Inr (hk_clock H t))) (\<lambda>clock.
     if clock \<ge> deadline then ret (Some ())
     else bnd (look_at (\<lambda>t. process_alive (hk_machine H t) pid)) (\<lambda>alive.
       if alive then await_exit n H pid deadline else ret (Some ())))"

definition said :: "bool \<Rightarrow> int option \<Rightarrow> string option \<Rightarrow> (stopping_farm, stop_result option) cmd" where
  "said b p reason = ret (Some \<lparr>sr_stopped = b, sr_pid = p, sr_reason = reason\<rparr>)"

definition confirm_exit :: "nat \<Rightarrow> host_view \<Rightarrow> int \<Rightarrow> rat \<Rightarrow> (stopping_farm, stop_result option) cmd" where
  "confirm_exit n H pid wait_seconds =
     bnd (look_at (\<lambda>t. Inr (hk_clock H t + wait_seconds))) (\<lambda>deadline.
     bnd (await_exit n H pid deadline) (\<lambda>waited. case waited of
       None \<Rightarrow> ret None
     | Some _ \<Rightarrow>
         bnd (look_at (\<lambda>t. process_alive (hk_machine H t) pid)) (\<lambda>still.
         said (\<not> still) (Some pid) (if still then Some ''still running after SIGTERM; inspect before repeating'' else None))))"

definition signal_daemon :: "nat \<Rightarrow> host_view \<Rightarrow> rat \<Rightarrow> dict \<Rightarrow> (stopping_farm, stop_result option) cmd" where
  "signal_daemon n H wait_seconds m =
     bnd (pure (daemon_pid m)) (\<lambda>p. case p of
       None \<Rightarrow> said False None (Some ''manifest records no running daemon (pid/started_at absent)'')
     | Some pid \<Rightarrow>
         seq (guard (pid \<noteq> fst (hk_self H) \<and> pid \<noteq> snd (hk_self H)) (StoreError ''manifest pid is this CLI or its parent, not a daemon''))
         (bnd (look_at (\<lambda>t. daemon_alive (hk_machine H t) (Some m))) (\<lambda>alive.
          if alive = None then said False (Some pid) (Some (if dget m ''pid_starttime'' = JNull
             then ''manifest records no verifiable daemon identity'' else ''manifest was written on another host or pid namespace; stop it there''))
          else if alive = Some False then said False (Some pid) (Some ''recorded daemon is not running on this host'')
          else bnd (send_term H pid) (\<lambda>k. case k of
               No_Process \<Rightarrow> said False (Some pid) (Some ''process exited before the signal'')
             | Denied \<Rightarrow> throw (StoreError ''cannot signal pid'')
             | Sent \<Rightarrow> confirm_exit n H pid wait_seconds))))"

definition stop_now :: "nat \<Rightarrow> env \<Rightarrow> host_view \<Rightarrow> string \<Rightarrow> rat \<Rightarrow> (stopping_farm, stop_result option) cmd" where
  "stop_now n E H actor wait_seconds =
     seq (guard (strip actor \<noteq> []) (StoreError ''stop requires a nonempty actor''))
     (bnd (current_manifest E) (signal_daemon n H wait_seconds))"

subsection \<open>Starting\<close>

record daemon_args =
  da_policy :: string
  da_upgrade :: "string option"
  da_executor :: string
  da_session :: string
  da_socket :: "string option"
  da_unblock :: bool
  da_loop :: bool
  da_grace :: pyfloat
  da_interval :: pyfloat
  da_max :: int
  da_log :: "string option"
  da_job :: "string option"
  da_node :: "string option"

text \<open>Where it is started: the process, its environment, and the outside it asks about its allocation.\<close>

record launcher =
  la_site :: site
  la_outside :: outside
  la_seen :: aworld
  la_environ :: "(string, string) fmap"
  la_machine :: machine
  la_pid :: int

definition executor_names :: "string list" where
  "executor_names = [''local-process'', ''codex-tmux'', ''claude-tmux'']"

definition attest :: "launcher \<Rightarrow> env \<Rightarrow> daemon_args \<Rightarrow> dict \<Rightarrow> json \<Rightarrow> json res" where
  "attest L E A previous epoch =
     (case fst (capture_allocation (la_site L) (la_outside L) previous (env_identity E) epoch (da_job A) (da_node A) (la_environ L) (la_seen L)) of
        Inl (AccessError st r) \<Rightarrow> Inl (StoreError st) | x \<Rightarrow> x)"

definition same_backend :: "daemon_args \<Rightarrow> dict \<Rightarrow> bool" where
  "same_backend A m \<longleftrightarrow> dget m ''executor'' = JStr (da_executor A) \<and> dget m ''session'' = JStr (da_session A) \<and>
     dget m ''tmux_socket'' = jopt (da_socket A)"

definition started_deployment :: "launcher \<Rightarrow> env \<Rightarrow> daemon_args \<Rightarrow> string \<Rightarrow> json \<Rightarrow> json \<Rightarrow> string \<Rightarrow> int option \<Rightarrow> dict \<Rightarrow> dict" where
  "started_deployment L E A root epoch attestation ts born previous =
     dput (dput (previous ++\<^sub>f env_identity E) [(''started_at'', JStr ts)] ++\<^sub>f farm_identity (la_site L) root)
       ([(''execution_epoch'', epoch), (''scheduler_attestation'', attestation),
         (''pid_starttime'', (case born of None \<Rightarrow> JNull | Some i \<Rightarrow> JInt i))]
        @ (case da_upgrade A of None \<Rightarrow> [] | Some u \<Rightarrow> [(''upgraded_from_source'', JStr u)])
        @ [(''executor'', JStr (da_executor A)), (''session'', JStr (da_session A)), (''tmux_socket'', jopt (da_socket A)),
           (''auto_unblock'', JBool (da_unblock A)), (''loop'', JBool (da_loop A)), (''writer_policy'', JStr (da_policy A)),
           (''grace_seconds'', JFloat (da_grace A)), (''interval'', JFloat (da_interval A)),
           (''max_auto_restarts'', JInt (da_max A)), (''reconcile_log'', jopt (map_option (env_resolve E) (da_log A)))])"

text \<open>The startup under the lock: the checks and the manifest it continues from, then what it records. \<open>X\<close> is the executor of
  the farm and \<open>ub\<close> the unblock predicate.\<close>

definition previous_deployment :: "env \<Rightarrow> daemon_args \<Rightarrow> ('z farm_scheme, dict) cmd" where
  "previous_deployment E A =
     bnd (asks (compatible_writer E (da_policy A) (da_upgrade A))) (\<lambda>_.
     bnd (asks (local_executor_host E)) (\<lambda>_.
     bnd (finish_deployment_event E False) (\<lambda>m.
     bnd (clear_stop_control E ''reconciler'') (\<lambda>cleared.
     bnd (if cleared = None then ret m else asks deployment) (\<lambda>previous.
     bnd (asks (require_task_writer E False None (da_upgrade A))) (\<lambda>_.
     seq (guard (truthy (dget previous ''handoff'') \<longrightarrow> same_backend A previous)
       (StoreError ''handoff requires unchanged executor/session/socket configuration''))
     (ret previous)))))))"

definition start_daemon ::
    "launcher \<Rightarrow> env \<Rightarrow> daemon_args \<Rightarrow> 'x executor \<Rightarrow> ('x pass \<Rightarrow> task \<Rightarrow> bool res) \<Rightarrow> ('x pass, 'x config) cmd" where
  "start_daemon L E A X ub =
     seq (guard (case da_interval A of Finite i \<Rightarrow> 0 < i | _ \<Rightarrow> False) (ValueError ''reconcile interval must be finite and positive''))
     (bnd (previous_deployment E A) (\<lambda>previous.
     bnd (pure (attest L E A previous (execution_epoch previous))) (\<lambda>attestation.
     seq (guard (da_executor A \<in> set executor_names) (StoreError ''unknown recorded executor; inspect deployment''))
     (bnd (asks (reconciler E X ''reconciler'' (if da_unblock A then Some ub else None) (da_grace A) (da_max A))) (\<lambda>C.
     bnd (now_iso E) (\<lambda>ts.
     bnd (pure (proc_starttime (la_machine L) (la_pid L))) (\<lambda>born.
     bnd (gets f_root) (\<lambda>root.
     seq (write_deployment (started_deployment L E A (env_resolve E root) (execution_epoch previous) attestation ts born previous))
     (ret C)))))))))"

subsection \<open>The loop\<close>

text \<open>What others do to the farm while the daemon sleeps is the argument \<open>others\<close>. The heartbeat file of a pass is not
  part of the state.\<close>

definition drained :: "dict \<Rightarrow> task list \<Rightarrow> bool" where
  "drained m ts \<longleftrightarrow> phase_of m = JStr ''draining'' \<and> list_all (\<lambda>t. t_lease t = None) ts"

fun daemon_loop :: "nat \<Rightarrow> (nat \<Rightarrow> 'x pass \<Rightarrow> 'x pass) \<Rightarrow> 'x config \<Rightarrow> ('x pass, dict option) cmd" where
  "daemon_loop 0 others C = ret None"
| "daemon_loop (Suc n) others C =
     bnd (reconcile_once C) (\<lambda>_.
     bnd (asks deployment) (\<lambda>m.
     bnd (gets store_list) (\<lambda>ts.
     if drained m ts then ret (Some (handoff_of m))
     else seq (modify (others n)) (daemon_loop n others C))))"

subsection \<open>Replacing the release\<close>

text \<open>A candidate release: its identity by its own code and the digest of its \<open>protocol/\<close> directory. \<open>old_digest\<close> is the
  one of the running release.\<close>

definition plan_option :: "(json \<Rightarrow> string) \<Rightarrow> dict \<Rightarrow> string \<times> string \<Rightarrow> string list" where
  "plan_option show_json m kf = (if dget m (fst kf) = JNull then [] else [snd kf, (case dget m (fst kf) of JStr s \<Rightarrow> s | j \<Rightarrow> show_json j)])"

definition carried :: "(string \<times> string) list" where
  "carried = [(''executor'', ''--executor''), (''session'', ''--session''), (''tmux_socket'', ''--tmux-socket''), (''interval'', ''--interval''),
     (''grace_seconds'', ''--grace-seconds''), (''max_auto_restarts'', ''--max-auto-restarts'')]"

definition next_options :: "(json \<Rightarrow> string) \<Rightarrow> dict \<Rightarrow> string list" where
  "next_options show_json m = concat (map (plan_option show_json m) carried) @
     (if dget m ''auto_unblock'' = JBool False then [''--no-auto-unblock''] else [])"

definition next_command :: "(json \<Rightarrow> string) \<Rightarrow> string \<Rightarrow> dict \<Rightarrow> string list" where
  "next_command show_json project m = [''<new-release-farm-wrapper>'', ''--project'', project, ''reconcile'',
     ''--upgrade-from-source'', (case dget m ''source_sha256'' of JStr s \<Rightarrow> s | j \<Rightarrow> show_json j)] @ next_options show_json m @ [''--loop'']"

definition restart_plan ::
    "env \<Rightarrow> (json \<Rightarrow> string) \<Rightarrow> string \<Rightarrow> dict res \<Rightarrow> string \<Rightarrow> string \<Rightarrow> string \<Rightarrow> ('z farm_scheme, string list) cmd" where
  "restart_plan E show_json project candidate old_digest new_digest actor =
     seq (guard (strip actor \<noteq> []) (StoreError ''restart requires a nonempty actor''))
     (bnd (current_manifest E) (\<lambda>m.
     seq (guard (same_build E [''source_root''] m) (StoreError ''run restart from the release the daemon is currently using''))
     (bnd (pure candidate) (\<lambda>c.
     bnd (pure (dindex c ''source_sha256'')) (\<lambda>new.
     bnd (pure (dindex c ''protocol_version'')) (\<lambda>protocol.
     seq (guard (new \<noteq> dget m ''source_sha256'') (StoreError ''candidate is the running release; nothing to restart into''))
     (seq (guard (protocol = dget m ''protocol_version'' \<and> old_digest = new_digest)
       (StoreError ''protocol/ changed between releases: retire this farm and start a new one''))
     (ret (next_command show_json project m)))))))))"

end
