(* ===== verification/Standstill.thy ===== *)
theory Standstill
  imports Lifecycle Ownership
begin

text \<open>
  While the farm drains, or is released, the daemon starts nothing: its loop is the same whatever the launch and the
  resumption of its executor would do.
\<close>

subsection \<open>Commands that agree\<close>

definition agree :: "('s \<Rightarrow> bool) \<Rightarrow> ('s, 'a) cmd \<Rightarrow> ('s, 'a) cmd \<Rightarrow> bool" where
  "agree P m m' \<longleftrightarrow> (\<forall>s. P s \<longrightarrow> m s = m' s \<and> P (snd (m s)))"

named_theorems agreeing

lemma keeps_snd: "keeps P m \<longleftrightarrow> (\<forall>s. P s \<longrightarrow> P (snd (m s)))"
  unfolding keeps_def wp_def case_prod_unfold ..

lemma agree_refl: "keeps P m \<Longrightarrow> agree P m m"
  by (simp add: agree_def keeps_snd)

lemma agree_keeps: "agree P m m' \<Longrightarrow> keeps P m"
  unfolding agree_def keeps_snd by blast

lemma agree_cases:
  assumes "agree P m m'" and "P s"
  obtains r s' where "m s = (r, s')" "m' s = (r, s')" "P s'"
  using assms unfolding agree_def by (metis prod.collapse)

lemma agree_bnd [agreeing]:
  assumes "agree P m m'" and f: "\<And>x. agree P (f x) (f' x)"
  shows "agree P (bnd m f) (bnd m' f')"
  unfolding agree_def
proof (intro allI impI)
  fix s assume "P s"
  then obtain r s' where m: "m s = (r, s')" "m' s = (r, s')" "P s'" by (rule agree_cases [OF assms(1)])
  then show "bnd m f s = bnd m' f' s \<and> P (snd (bnd m f s))"
  proof (cases r)
    case (Inr x)
    then show ?thesis using f [of x] m by (simp add: bnd_def agree_def) (metis)
  qed (use m in \<open>simp add: bnd_def\<close>)
qed

lemma agree_seq [agreeing]: "agree P m m' \<Longrightarrow> agree P k k' \<Longrightarrow> agree P (seq m k) (seq m' k')"
  unfolding seq_def by (rule agree_bnd)

lemma agree_handle [agreeing]:
  assumes "agree P m m'" and h: "\<And>e. agree P (h e) (h' e)"
  shows "agree P (handle m h) (handle m' h')"
  unfolding agree_def
proof (intro allI impI)
  fix s assume "P s"
  then obtain r s' where m: "m s = (r, s')" "m' s = (r, s')" "P s'" by (rule agree_cases [OF assms(1)])
  then show "handle m h s = handle m' h' s \<and> P (snd (handle m h s))"
  proof (cases r)
    case (Inl e)
    then show ?thesis using h [of e] m by (simp add: handle_def agree_def) (metis)
  qed (use m in \<open>simp add: handle_def\<close>)
qed

lemma agree_if [agreeing]: "(b \<Longrightarrow> agree P m m') \<Longrightarrow> (\<not> b \<Longrightarrow> agree P k k') \<Longrightarrow> agree P (if b then m else k) (if b then m' else k')"
  by simp

lemma agree_for_each [agreeing]: "(\<And>x. agree P (f x) (f' x)) \<Longrightarrow> agree P (for_each xs f) (for_each xs f')"
  by (induction xs) (simp_all add: agree_refl keeps_ret agree_seq)

subsection \<open>The farm is held\<close>

definition halted :: "'z farm_scheme \<Rightarrow> bool" where
  "halted s \<longleftrightarrow> withheld s = Inr True"

lemma halted_frame: "f_deploy s' = f_deploy s \<Longrightarrow> halted s' = halted s"
  by (simp add: halted_def withheld_def deployment_frame [of s' s])

lemma halted_iff: "halted s \<longleftrightarrow> (\<exists>m. deployment s = Inr m \<and> (phase_of m = JStr ''draining'' \<or> phase_of m = JStr ''released''))"
  by (auto simp: halted_def withheld_def rbind_Inr_iff)

lemma halted_modify: "(\<And>s. f_deploy (f s) = f_deploy s) \<Longrightarrow> keeps halted (modify f)"
  by (rule keeps_modify) (use halted_frame in blast)

lemma halted_recover_locked [keeps_rules]: "keeps halted recover_locked"
proof (rule keepsI)
  fix s :: "'a farm_scheme" assume h: "halted s"
  obtain r s' where "recover_locked s = (r, s')" by fastforce
  then show "wp recover_locked (\<lambda>_. halted) s" using recover_locked_frame(1) halted_frame h by (simp add: wp_def) blast
qed

lemma halted_exec: "halted (s\<lparr>w_exec := x\<rparr>) = halted s"
  by (rule halted_frame) simp

lemma halted_exec_call [keeps_rules]: "keeps halted (exec_call g)"
  by (simp add: keeps_snd exec_call_def case_prod_unfold halted_exec)

lemma halted_basics [keeps_rules]:
  "keeps halted (fresh_uuid E)" "keeps halted (now E)" "keeps halted (now_iso E)" "keeps halted (put_observed w)"
  "keeps halted (reporting f)" "keeps halted (note_error m)" "keeps halted (recover E)"
  unfolding fresh_uuid_def now_iso_def now_def put_observed_def reporting_def note_error_def recover_def
  by (intro keeps_rules halted_modify; simp)+

lemma halted_commit_locked [keeps_rules]: "keeps halted (commit_locked E u t ev actor payload ts)"
  unfolding commit_locked_unfold Let_def by (intro keeps_rules halted_modify) simp

lemma halted_commit [keeps_rules]:
  assumes "\<And>d x. dispatch = Some d \<Longrightarrow> keeps halted (d x)"
  shows "keeps halted (commit E u t ev actor payload ts dispatch epoch)"
  unfolding commit_def using assms by (intro keeps_rules) auto

text \<open>A commit that would dispatch is refused before it does anything.\<close>

lemma commit_refused:
  assumes "halted s"
  shows "\<exists>e. commit E u t ev actor payload ts (Some d) epoch s = (Inl e, s) \<and>
    commit E u t ev actor payload ts (Some d') epoch s = (Inl e, s)"
proof -
  obtain m where "deployment s = Inr m" "phase_of m = JStr ''draining'' \<or> phase_of m = JStr ''released''"
    using assms halted_iff by blast
  then obtain e where "require_task_writer E True epoch None s = Inl e" using writer_refused [of s m True] by blast
  then show ?thesis by (auto simp: commit_def cmd_defs)
qed

subsection \<open>A pass with other launches\<close>

definition redirected :: "(task \<Rightarrow> lease \<Rightarrow> ('x, string) cmd) \<Rightarrow> (task \<Rightarrow> string \<Rightarrow> lease \<Rightarrow> ('x, unit) cmd) \<Rightarrow> 'x config \<Rightarrow> 'x config" where
  "redirected f g C = C\<lparr>c_exec := (c_exec C)\<lparr>ex_launch := f, ex_resume := g\<rparr>\<rparr>"

lemma redirected_simps [simp]:
  "c_env (redirected f g C) = c_env C" "c_actor (redirected f g C) = c_actor C" "c_unblock (redirected f g C) = c_unblock C"
  "c_grace (redirected f g C) = c_grace C" "c_max (redirected f g C) = c_max C" "c_epoch (redirected f g C) = c_epoch C"
  "ex_poll (c_exec (redirected f g C)) = ex_poll (c_exec C)" "ex_stop (c_exec (redirected f g C)) = ex_stop (c_exec C)"
  "ex_validate (c_exec (redirected f g C)) = ex_validate (c_exec C)"
  by (simp_all add: redirected_def)

text \<open>What does not use the two is the same command.\<close>

lemma redirected_same [simp]:
  "rc_commit (redirected f g C) = rc_commit C" "observe (redirected f g C) = observe C" "heartbeat (redirected f g C) = heartbeat C"
  "apply_receipt (redirected f g C) = apply_receipt C" "surrender (redirected f g C) = surrender C" "drain_request (redirected f g C) = drain_request C"
  "durably_dead (redirected f g C) = durably_dead C" "record_error (redirected f g C) = record_error C" "unblocked (redirected f g C) = unblocked C"
proof -
  show c: "rc_commit (redirected f g C) = rc_commit C" and o: "observe (redirected f g C) = observe C"
    by (intro ext; simp add: rc_commit_def observe_def)+
  have a: "advance (redirected f g C) = advance C" by (intro ext; unfold advance_def c o redirected_simps) (rule refl)
  have b: "baseline (redirected f g C) = baseline C" by (intro ext; unfold baseline_def redirected_simps) (rule refl)
  note u = heartbeat_def apply_receipt_def surrender_def drain_request_def durably_dead_def record_error_def unblocked_def a b c o redirected_simps
  show "heartbeat (redirected f g C) = heartbeat C" "apply_receipt (redirected f g C) = apply_receipt C"
    "surrender (redirected f g C) = surrender C" "drain_request (redirected f g C) = drain_request C"
    "durably_dead (redirected f g C) = durably_dead C" "record_error (redirected f g C) = record_error C" "unblocked (redirected f g C) = unblocked C"
    by (intro ext; unfold u; rule refl)+
qed

lemma keeps_rc [keeps_rules]: "keeps halted (rc_commit C u ev payload t None)"
  unfolding rc_commit_def by (intro keeps_rules) simp

lemma halted_parts [keeps_rules]:
  "keeps halted (observe C w h i lid b)" "keeps halted (heartbeat C t l)" "keeps halted (durably_dead C t l ws)" "keeps halted (unblocked C t)"
  "keeps halted (preflight C t)"
  unfolding observe_def heartbeat_def durably_dead_def unblocked_def preflight_def by (intro keeps_rules)+

lemma halted_advance [keeps_rules]: "keeps halted (advance C t l r alive target patch)"
  unfolding advance_def by (intro keeps_rules)

lemma halted_receipt [keeps_rules]: "keeps halted (apply_receipt C t l r alive)" "keeps halted (surrender C t l)"
  unfolding apply_receipt_def surrender_def Let_def by (intro keeps_rules)+

lemma halted_rotation [keeps_rules]: "keeps halted (request_rotation E i rv rid actor cf)"
  unfolding request_rotation_def Let_def by (intro keeps_rules) simp_all

lemma halted_request [keeps_rules]: "keeps halted (drain_request C t)" "keeps halted (record_error C t e)"
  unfolding drain_request_def record_error_def Let_def by (intro keeps_rules; simp split: exn.split; intro conjI allI impI keeps_rules)+

lemma agree_asks_held:
  "agree halted (bnd (asks withheld) (\<lambda>held. if held then ret () else m)) (bnd (asks withheld) (\<lambda>held. if held then ret () else m'))"
  by (simp add: agree_def halted_def cmd_defs)

lemma agree_start [agreeing]: "agree halted (start C t d) (start (redirected f g C) t d)"
  unfolding start_def Let_def by (rule agree_asks_held)

lemma agree_resume [agreeing]: "agree halted (resume C t l) (resume (redirected f g C) t l)"
  unfolding resume_def by (rule agree_asks_held)

lemma agree_dead [agreeing]: "agree halted (reconcile_dead C ws t l) (reconcile_dead (redirected f g C) ws t l)"
  unfolding reconcile_dead_def redirected_same by (intro agreeing agree_refl keeps_rules)

lemma agree_liveness [agreeing]: "agree halted (by_liveness C ws t l alive) (by_liveness (redirected f g C) ws t l alive)"
  unfolding by_liveness_def redirected_same
  by (auto split: option.split bool.split intro: agreeing agree_refl keeps_rules)

lemma agree_running [agreeing]: "agree halted (reconcile_running C ws t l) (reconcile_running (redirected f g C) ws t l)"
proof -
  have "agree halted (act_on C ws t l obs) (act_on (redirected f g C) ws t l obs)" for obs
    unfolding act_on_def redirected_same
    by (cases "usable_receipt t l obs") (auto intro: agreeing agree_refl keeps_rules)
  then show ?thesis unfolding reconcile_running_def drop_stale_def redirected_simps by (intro agreeing agree_refl keeps_rules)
qed

lemma agree_waiting [agreeing]: "agree halted (reconcile_waiting C t) (reconcile_waiting (redirected f g C) t)"
  unfolding reconcile_waiting_def redirected_same redirected_simps
  by (cases "t_lease t") (auto intro!: agreeing agree_refl keeps_rules)

lemma agree_state [agreeing]: "agree halted (reconcile_state C ws t) (reconcile_state (redirected f g C) ws t)"
  unfolding reconcile_state_def
  by (cases "t_state t"; cases "t_lease t") (auto intro!: agreeing agree_refl keeps_rules)

lemma agree_guarded [agreeing]: "agree halted (reconcile_guarded C ws t) (reconcile_guarded (redirected f g C) ws t)"
  unfolding reconcile_guarded_def reconcile_task_def redirected_same
  by (intro agreeing agree_refl keeps_rules) (auto split: exn.split intro!: keeps_rules)

lemma agree_once: "agree halted (reconcile_once C) (reconcile_once (redirected f g C))"
  unfolding reconcile_once_def redirected_simps by (intro agreeing agree_refl keeps_rules)

text \<open>C11: No worker is started while the farm is held. From a state in which the farm drains, for a handover or a stop, or
  is released, and as long as the others that write meanwhile leave it held, every run of the daemon's loop, whatever
  its workers, receipts, waits and errors are, is the run with any other launch and any other resumption in the
  place of the executor's: neither is ever called. The farm is still held when it ends.\<close>

theorem held_farm_starts_nothing:
  assumes "withheld s = Inr True" and "\<And>k s. withheld s = Inr True \<Longrightarrow> withheld (others k s) = Inr True"
  shows "daemon_loop n others C s =
      daemon_loop n others (C\<lparr>c_exec := (c_exec C)\<lparr>ex_launch := f, ex_resume := g\<rparr>\<rparr>) s \<and>
    withheld (snd (daemon_loop n others C s)) = Inr True"
proof -
  have "agree halted (daemon_loop n others C) (daemon_loop n others (redirected f g C))"
  proof (induction n)
    case 0
    show ?case by (simp add: agree_refl keeps_ret)
  next
    case (Suc n)
    have "keeps halted (modify (others n))" by (rule keeps_modify) (use assms(2) halted_def in blast)
    then show ?case unfolding daemon_loop.simps by (intro agreeing agree_once agree_refl keeps_rules Suc.IH)
  qed
  then show ?thesis using assms(1) unfolding agree_def halted_def redirected_def by blast
qed

end
