(* ===== verification/Restart.thy ===== *)
theory Restart
  imports Standstill
begin

text \<open>Stopping a daemon and starting one again: what a stop leaves behind, who may start, and whom a signal hits.\<close>

subsection \<open>A stopped farm\<close>

lemma current_manifest_Inr [run_Inr]:
  "current_manifest E s = (Inr m, u) \<longleftrightarrow> finish_deployment_event E False s = (Inr m, u) \<and> m \<noteq> fmempty \<and>
     same_build E [''host''] m \<and> same_build E [''protocol_version''] m"
  by (auto simp: current_manifest_def run_Inr)

lemma settled_tasks: "f_tasks u = f_tasks s \<Longrightarrow> f_journal u = f_journal s \<Longrightarrow> f_tasks (recovered u) = f_tasks (recovered s)"
  by (simp add: recovered_def settled_def Let_def split: option.split)

lemma control_frame_tasks: "control_frame s u \<Longrightarrow> f_tasks u = f_tasks s \<and> f_journal u = f_journal s \<and> f_recovery u = f_recovery s"
  by (simp add: control_frame_def)

lemma deployment_phases: "deployment s = Inr m \<Longrightarrow> truthy (dget m ''handoff'') \<Longrightarrow> phase_of m \<in> set phases"
  by (auto simp: deployment_def valid_control_def rbind_Inr_iff phase_of_def handoff_of_def dget_def split: option.splits json.splits)

lemma finish_idle:
  "deployment s = Inr m \<Longrightarrow> \<not> truthy (dget m ''pending_event'') \<Longrightarrow> finish_deployment_event E c s = (Inr m, s)"
  by (simp add: finish_deployment_event_def cmd_defs)

text \<open>What a successful stop leaves, in both of its branches.\<close>

lemma stop_drain_obtain:
  assumes "stop_drain E stamp actor s = (Inr c, s')"
  obtains m where "deployment s' = Inr m" "handoff_of m = c" "truthy (dget m ''handoff'')" "\<not> truthy (dget m ''pending_event'')"
    "dget c ''kind'' = JStr ''stop''" "phase_of m \<noteq> JStr ''claimed''" "same_build E [''host''] m" "same_build E [''protocol_version''] m"
    "f_recovery s' = None" "f_tasks s' = f_tasks s \<or> f_tasks s' = f_tasks (recovered s)"
proof -
  from assms obtain m u where r: "f_recovery s = None" and u: "finish_deployment_event E False s = (Inr m, u)" "m \<noteq> fmempty"
      "same_build E [''host''] m" "same_build E [''protocol_version''] m"
    by (auto simp: stop_drain_def run_Inr require_no_pending_recovery_def)
  note fin = finish_run_Inr [OF u(1)]
  show thesis
  proof (cases "truthy (dget m ''handoff'') \<and> phase_of m \<noteq> JStr ''claimed''")
    case True
    then have "c = handoff_of m" "s' = u" "dget (handoff_of m) ''kind'' = JStr ''stop''"
      using assms u by (auto simp: stop_drain_def run_Inr require_no_pending_recovery_def)
    then show thesis using that [of m] True fin(1,2) u(3,4) control_frame_tasks [OF fin(3)] r by simp
  next
    case False
    with assms u obtain t ts v w m' where "c = stop_control (''stop-'' @ stamp t) (dget m ''host'') actor ts"
      and v: "v = u\<lparr>f_n := Suc (Suc (f_n u))\<rparr>" "recover_locked v = (Inr (), w)" and p: "publish E m c ''FARM_STOP_DRAIN'' actor w = (Inr m', s')"
      by (auto simp: stop_drain_def run_Inr require_no_pending_recovery_def Let_def)
    then have c: "dget c ''kind'' = JStr ''stop''" "dget c ''phase'' = JStr ''draining''" "c \<noteq> fmempty"
      by (auto simp: stop_control_def)
    note pub = publish_run_Inr [OF p]
    have "dget m' ''handoff'' = JObj c"
      using pub(4) c(3) by (auto simp: handoff_of_def dget_def split: option.splits json.splits)
    moreover have "f_tasks s' = f_tasks s \<or> f_tasks s' = f_tasks (recovered s)"
      using recover_locked_outcome [OF v(2)] settled_tasks [of v s] control_frame_tasks [OF pub(3)] control_frame_tasks [OF fin(3)] v(1) by auto
    moreover have "f_recovery s' = None"
      using recover_locked_frame(4) [OF v(2)] control_frame_tasks [OF pub(3)] control_frame_tasks [OF fin(3)] v(1) r by simp
    ultimately show thesis using that [of m'] pub(1,2,4,6) c u(3,4) by (auto simp: phase_of_def same_build_def)
  qed
qed

text \<open>C13: A stop holds. After a stop has been requested, by the first call or by a repeated one, no dispatch
  passes any writer's check, no handover can be released or claimed with the control of the stop, the tasks are those of before
  or those of the commit that was under way, ordinary writers of the recorded build pass, and asking again changes
  nothing and answers the same.\<close>

theorem stop_holds_farm:
  assumes "stop_drain E stamp actor s = (Inr c, s')"
  shows "withheld s' = Inr True \<and> (\<exists>e. require_task_writer E' True epoch up s' = Inl e) \<and>
    (\<exists>e. fst (release_farm E' X rid operator s') = Inl e) \<and> (\<exists>e. fst (claim_farm E' rid operator s') = Inl e) \<and>
    (f_tasks s' = f_tasks s \<or> f_tasks s' = f_tasks (recovered s)) \<and>
    (deployment s' = Inr m \<longrightarrow> same_build E [''source_sha256''] m \<longrightarrow> phase_of m = JStr ''draining'' \<longrightarrow>
       require_task_writer E False None None s' = Inr m) \<and>
    (strip operator \<noteq> [] \<longrightarrow> stop_drain E stamp' operator s' = (Inr c, s'))"
proof -
  obtain d where d: "deployment s' = Inr d" "handoff_of d = c" "truthy (dget d ''handoff'')" "\<not> truthy (dget d ''pending_event'')"
    "dget c ''kind'' = JStr ''stop''" "phase_of d \<noteq> JStr ''claimed''" "same_build E [''host''] d" "same_build E [''protocol_version''] d"
    "f_recovery s' = None" "f_tasks s' = f_tasks s \<or> f_tasks s' = f_tasks (recovered s)"
    using assms by (rule stop_drain_obtain)
  have ph: "phase_of d = JStr ''draining'' \<or> phase_of d = JStr ''released''"
    using deployment_phases [OF d(1,3)] d(6) by (auto simp: phases_def)
  have refused: "\<exists>e. fst x = Inl e" if "\<And>y u. x \<noteq> (Inr y, u)" for x :: "(exn + dict) \<times> 'a world"
    using that by (cases x; cases "fst x") auto
  have "withheld s' = Inr True" using d(1) ph by (auto simp: withheld_def)
  moreover have "\<exists>e. require_task_writer E' True epoch up s' = Inl e" using writer_refused [of s' d True] d(1) ph by auto
  moreover have "\<exists>e. fst (release_farm E' X rid operator s') = Inl e"
    by (rule refused) (use d in \<open>auto simp: release_farm_def run_Inr finish_idle [OF d(1,4)]\<close>)
  moreover have "\<exists>e. fst (claim_farm E' rid operator s') = Inl e"
    by (rule refused) (use d in \<open>auto simp: claim_farm_def run_Inr Let_def\<close>)
  moreover have "require_task_writer E False None None s' = Inr m"
    if "deployment s' = Inr m" "same_build E [''source_sha256''] m" "phase_of m = JStr ''draining''"
    using that d by (auto simp: require_task_writer_def require_no_pending_recovery_def writer_guards_def handoff_guards_def
      rbind_Inr_iff same_build_def expected_source_def jor_def)
  moreover have "stop_drain E stamp' operator s' = (Inr c, s')" if "strip operator \<noteq> []"
  proof -
    have "d \<noteq> fmempty" using d(3) by auto
    then have "current_manifest E s' = (Inr d, s')" using d(7,8) finish_idle [OF d(1,4)] by (simp add: run_Inr)
    then show ?thesis using that d by (simp add: stop_drain_def cmd_defs require_no_pending_recovery_def)
  qed
  ultimately show ?thesis using d(10) by blast
qed

subsection \<open>A stop from another build\<close>

text \<open>
  A stop compares host and protocol with the manifest, but the audit event it publishes needs the recorded source too. A stop
  by another build of the same protocol therefore fails after it has written its control, and every writer, the daemon
  included, is refused until the recorded build finishes the event.
\<close>

lemma stop_from_other_build:
  assumes m: "deployment s = Inr m" "m \<noteq> fmempty" "\<not> truthy (dget m ''handoff'')" "\<not> truthy (dget m ''pending_event'')"
    and b: "same_build E [''host'', ''protocol_version''] m" "\<not> same_build E [''source_sha256''] m"
    and s: "f_recovery s = None" "f_journal s = None" "\<not> f_log_damaged s"
      "''stop-'' @ stamp (env_clock E (f_n s)) @ ''-FARM_STOP_DRAIN'' \<notin> e_id ` set (f_log s)"
    and a: "strip actor \<noteq> []" and id: "fullmatch request_id_rx (''stop-'' @ stamp (env_clock E (f_n s)))"
  shows "\<exists>e u. stop_drain E stamp actor s = (Inl e, u) \<and> (\<forall>E' dispatch epoch up. \<exists>e. require_task_writer E' dispatch epoch up u = Inl e)"
proof -
  let ?rid = "''stop-'' @ stamp (env_clock E (f_n s))"
  let ?c = "stop_control ?rid (dget m ''host'') actor (env_iso E (env_clock E (Suc (f_n s))))"
  let ?v = "s\<lparr>f_n := Suc (Suc (f_n s))\<rparr>"
  obtain ev where ev: "handoff_event ?c ''FARM_STOP_DRAIN'' actor = Inr ev"
    by (simp add: handoff_event_def stop_control_def dindex_def)
  let ?d = "dput m [(''handoff'', JObj ?c), (''pending_event'', JObj (event_to_dict ev))]"
  let ?u = "?v\<lparr>f_deploy := Some (JObj ?d)\<rparr>"
  have valid: "valid_control (JObj ?c)" using id by (simp add: valid_control_def stop_control_def phases_def dget_or_def)
  have d: "deployment ?u = Inr ?d" using valid by (simp add: deployment_def)
  have pending: "truthy (dget ?d ''pending_event'')" by simp
  have "finish_deployment_event E False ?u = (Inl (StoreError ''pending deployment audit requires its recorded host/build (or exact claimant)''), ?u)"
    using d b by (simp add: finish_deployment_event_def cmd_defs same_build_def ensure_def)
  then have p: "\<exists>e. publish E m ?c ''FARM_STOP_DRAIN'' actor ?v = (Inl e, ?u)"
    using ev s by (simp add: publish_def write_deployment_def cmd_defs log_ids_def)
  have cm: "current_manifest E s = (Inr m, s)" using finish_idle [OF m(1,4)] m(2) b(1) by (simp add: run_Inr same_build_def)
  have "\<exists>e. stop_drain E stamp actor s = (Inl e, ?u)"
    using p cm a s m(3) by (auto simp: stop_drain_def cmd_defs require_no_pending_recovery_def Let_def now_def now_iso_def log_ids_def
      recover_locked_eq recover_ops_def ensure_def)
  moreover have "\<exists>e. require_task_writer E' dispatch epoch up ?u = Inl e" for E' dispatch epoch up
    using d s(1) by (auto simp: require_task_writer_def require_no_pending_recovery_def writer_guards_def)
  ultimately show ?thesis by blast
qed

subsection \<open>Who may start\<close>

text \<open>The keys of \<open>runtime_identity()\<close>.\<close>

definition runtime_keys :: "string list" where
  "runtime_keys = [''protocol_version'', ''source_root'', ''source_sha256'', ''python'', ''pid'', ''host'', ''boot_id'',
     ''pid_namespace'', ''capabilities'']"

definition clears :: "dict \<Rightarrow> 'z farm_scheme \<Rightarrow> 'z farm_scheme \<Rightarrow> bool" where
  "clears m s s' \<longleftrightarrow> (if stopping m
     then (\<exists>ev. e_id ev = py_str (dget (handoff_of m) ''id'') @ ''-FARM_STOP_CLEARED'' \<and> ev \<in> set (f_log s')) \<and>
       deployment s' = Inr (fmdrop ''handoff'' m) \<and> control_frame s s'
     else s' = s)"

lemma clear_stop_control_Inr:
  assumes "clear_stop_control E actor s = (Inr r, s')" and m: "deployment s = Inr m"
  shows "clears m s s' \<and> (r = None \<longleftrightarrow> \<not> stopping m)"
proof (cases "stopping m")
  case False
  then show ?thesis using assms by (auto simp: clear_stop_control_def run_Inr clears_def)
next
  case True
  from assms True obtain ts ev u where ev: "cleared_event (handoff_of m) actor ts = Inr ev" and r: "r = Some (handoff_of m)"
    and u: "(if e_id ev \<notin> e_id ` set (f_log s) then log_append ev else ret ()) (s\<lparr>f_n := Suc (f_n s)\<rparr>) = (Inr (), u)"
    and s': "s' = u\<lparr>f_deploy := Some (JObj (fmdrop ''handoff'' m))\<rparr>"
    by (simp add: clear_stop_control_def run_Inr write_deployment_def) blast
  then have u: "u = s\<lparr>f_n := Suc (f_n s), f_log := (if e_id ev \<in> e_id ` set (f_log s) then f_log s else f_log s @ [ev])\<rparr>"
    by (simp add: log_append_def run_Inr split: if_splits)
  have "e_id ev = py_str (dget (handoff_of m) ''id'') @ ''-FARM_STOP_CLEARED''"
    using ev by (auto simp: cleared_event_def rbind_Inr_iff dindex_def dget_def split: option.splits)
  moreover have "\<exists>x. e_id x = e_id ev \<and> x \<in> set (f_log s')"
    by (cases "e_id ev \<in> e_id ` set (f_log s)") (force simp: s' u)+
  moreover have "deployment s' = Inr (fmdrop ''handoff'' m)" by (simp add: s' deployment_def)
  moreover have "control_frame s s'" by (simp add: s' u control_frame_def)
  ultimately show ?thesis using True r by (auto simp: clears_def)
qed

lemma previous_deployment_obtain:
  assumes "previous_deployment E A s = (Inr m, v)"
  obtains m1 u where
    "compatible_writer E (da_policy A) (da_upgrade A) s = Inr ()" "local_executor_host E s = Inr ()"
    "finish_deployment_event E False s = (Inr m1, u)" "clears m1 u v" "deployment v = Inr m"
    "require_task_writer E False None (da_upgrade A) v = Inr m" "truthy (dget m ''handoff'') \<longrightarrow> same_backend A m"
proof -
  from assms obtain m1 u cleared w where
    c: "compatible_writer E (da_policy A) (da_upgrade A) s = Inr ()" "local_executor_host E s = Inr ()"
    and fin: "finish_deployment_event E False s = (Inr m1, u)" and clr: "clear_stop_control E ''reconciler'' u = (Inr cleared, v)"
    and pre: "(if cleared = None then ret m1 else asks deployment) v = (Inr m, v)"
    and w: "require_task_writer E False None (da_upgrade A) v = Inr w" "truthy (dget m ''handoff'') \<longrightarrow> same_backend A m"
    unfolding previous_deployment_def by (auto simp: run_Inr split: if_splits)
  have u: "deployment u = Inr m1" using finish_run_Inr(1) [OF fin] .
  note clears = clear_stop_control_Inr [OF clr u]
  have v: "deployment v = Inr m"
    using pre clears u by (cases "cleared = None") (auto simp: clears_def basic_run_Inr)
  then have "w = m" using require_task_writer_Inr(2) [OF w(1)] by simp
  then show thesis using that [OF c fin _ v _ w(2)] clears w(1) by blast
qed

lemma start_daemon_obtain:
  assumes "start_daemon L E A X ub s = (Inr C, s')"
  obtains v m attestation ts born where "previous_deployment E A s = (Inr m, v)"
    "attest L E A m (execution_epoch m) = Inr attestation"
    "reconciler E X ''reconciler'' (if da_unblock A then Some ub else None) (da_grace A) (da_max A) v = Inr C"
    "s' = v\<lparr>f_n := Suc (f_n v), f_deploy := Some (JObj (started_deployment L E A (env_resolve E (f_root v)) (execution_epoch m) attestation ts born m))\<rparr>"
proof -
  from assms obtain m v attestation u ts born where "previous_deployment E A s = (Inr m, v)" "attest L E A m (execution_epoch m) = Inr attestation"
    "reconciler E X ''reconciler'' (if da_unblock A then Some ub else None) (da_grace A) (da_max A) v = Inr C" "now_iso E v = (Inr ts, u)"
    "write_deployment (started_deployment L E A (env_resolve E (f_root u)) (execution_epoch m) attestation ts born m) u = (Inr (), s')"
    unfolding start_daemon_def by (simp only: run_Inr prod.inject sum.inject simp_thms ex_simps) blast
  then show thesis using that by (simp add: run_Inr write_deployment_def)
qed

lemma started_dget:
  assumes "fmdom (env_identity E) = fset_of_list runtime_keys"
  shows "dget (started_deployment L E A root epoch attestation ts born m) ''host'' = dget (env_identity E) ''host''"
    "dget (started_deployment L E A root epoch attestation ts born m) ''execution_epoch'' = epoch"
    "fmlookup (started_deployment L E A root epoch attestation ts born m) ''handoff'' = fmlookup m ''handoff''"
    "dget (started_deployment L E A root epoch attestation ts born m) ''pending_event'' = dget m ''pending_event''"
proof -
  have k: "fmlookup (env_identity E) k = None \<longleftrightarrow> k \<notin> set runtime_keys" for k
    using fmlookup_dom_iff [of k "env_identity E"] unfolding assms by (auto simp: fset_of_list_elem)
  have "fmlookup (env_identity E) ''host'' \<noteq> None" "fmlookup (env_identity E) ''handoff'' = None" "fmlookup (env_identity E) ''pending_event'' = None"
    unfolding k by (simp_all add: runtime_keys_def)
  then show "dget (started_deployment L E A root epoch attestation ts born m) ''host'' = dget (env_identity E) ''host''"
    "dget (started_deployment L E A root epoch attestation ts born m) ''execution_epoch'' = epoch"
    "fmlookup (started_deployment L E A root epoch attestation ts born m) ''handoff'' = fmlookup m ''handoff''"
    "dget (started_deployment L E A root epoch attestation ts born m) ''pending_event'' = dget m ''pending_event''"
    by (auto simp: started_deployment_def farm_identity_def dget_def split: option.splits)
qed

lemma compatible_protocol:
  assumes "compatible_writer E policy up s = Inr ()" and "deployment s = Inr m" and "f_deploy s \<noteq> None"
  shows "same_build E [''protocol_version''] m"
  using assms by (auto simp: compatible_writer_def deployment_def same_build_def writer_keys_def rbind_Inr_iff split: option.splits json.splits)

text \<open>C12: Starting the daemon takes nothing over. If it starts, the tasks, the journal and the registry of workers are as they were; the
  farm had no manifest or one of this protocol, and no lease of another host; the execution epoch, which the
  reconciler then demands of every commit, is the one recorded, and the manifest now names this host. A finished stop is gone
  from the manifest and its end is in the log; any other handover record is still there, with the same executor, session
  and socket, on its own host, and it is not a sealed release.\<close>

theorem startup_takes_nothing_over:
  assumes run: "start_daemon L E A X ub s = (Inr C, s')" and keys: "fmdom (env_identity E) = fset_of_list runtime_keys"
    and m0: "deployment s = Inr m0"
  shows "\<exists>m. deployment s' = Inr m \<and> f_tasks s' = f_tasks s \<and> f_journal s' = f_journal s \<and> f_workers s' = f_workers s \<and>
    (f_deploy s = None \<or> same_build E [''protocol_version''] m0) \<and>
    (list_all (\<lambda>t. t_lease t = None) (store_list s) \<or> same_build E [''host''] m0) \<and> same_build E [''host''] m \<and>
    execution_epoch m = execution_epoch m0 \<and> c_epoch C = execution_epoch m0 \<and> \<not> truthy (dget m ''pending_event'') \<and>
    phase_of m \<noteq> JStr ''released'' \<and>
    (if stopping m0
     then \<not> truthy (dget m ''handoff'') \<and> (\<exists>ev\<in>set (f_log s'). e_id ev = py_str (dget (handoff_of m0) ''id'') @ ''-FARM_STOP_CLEARED'')
     else handoff_of m = handoff_of m0 \<and> (truthy (dget m0 ''handoff'') \<longrightarrow> same_backend A m0 \<and> same_build E [''host''] m0))"
proof -
  obtain v m a ts born where prev: "previous_deployment E A s = (Inr m, v)"
    and rc: "reconciler E X ''reconciler'' (if da_unblock A then Some ub else None) (da_grace A) (da_max A) v = Inr C"
    and s': "s' = v\<lparr>f_n := Suc (f_n v), f_deploy := Some (JObj (started_deployment L E A (env_resolve E (f_root v)) (execution_epoch m) a ts born m))\<rparr>"
    using run by (rule start_daemon_obtain)
  obtain m1 u where c: "compatible_writer E (da_policy A) (da_upgrade A) s = Inr ()" "local_executor_host E s = Inr ()"
    and fin: "finish_deployment_event E False s = (Inr m1, u)" and clr: "clears m1 u v" and v: "deployment v = Inr m"
    and w: "require_task_writer E False None (da_upgrade A) v = Inr m" "truthy (dget m ''handoff'') \<longrightarrow> same_backend A m"
    using prev by (rule previous_deployment_obtain)
  let ?m = "started_deployment L E A (env_resolve E (f_root v)) (execution_epoch m) a ts born m"
  note f = finish_run_Inr [OF fin] and d = started_dget [OF keys, of L A "env_resolve E (f_root v)" "execution_epoch m" a ts born m]
    and rw = require_task_writer_Inr [OF w(1)]
  have m1: "m1 = (if truthy (dget m0 ''pending_event'') then fmdrop ''pending_event'' m0 else m0)" "handoff_of m1 = handoff_of m0"
    using f(4,5) [OF m0] by simp_all
  then have same: "dget m1 k = dget m0 k" if "k \<noteq> ''pending_event''" for k using that by simp
  have frame: "control_frame s v" using f(3) clr by (auto simp: clears_def control_frame_def split: if_splits)
  have m: "m = (if stopping m1 then fmdrop ''handoff'' m1 else m1)"
    using clr v f(1) by (auto simp: clears_def split: if_splits)
  have st: "stopping m1 = stopping m0" using m1(2) same [of "''handoff''"] by (simp add: stopping_def)
  have dep: "deployment s' = Inr ?m" using v d(3) by (auto simp: s' deployment_def rbind_Inr_iff split: option.splits json.splits)
  have h: "dget ?m ''handoff'' = dget m ''handoff''" "handoff_of ?m = handoff_of m" using d(3) by (simp_all add: dget_def handoff_of_def)
  have "execution_epoch m = execution_epoch m0" using m same by (simp add: execution_epoch_def)
  moreover have "truthy (execution_epoch m)" by (simp add: execution_epoch_def jor_def)
  moreover have "execution_epoch ?m = execution_epoch m" using calculation(2) d(2) by (simp add: execution_epoch_def [of ?m] jor_def)
  moreover have "f_deploy s = None \<or> same_build E [''protocol_version''] m0" using compatible_protocol [OF c(1) m0] by blast
  moreover have "list_all (\<lambda>t. t_lease t = None) (store_list s) \<or> same_build E [''host''] m0"
    using c(2) m0 by (auto simp: local_executor_host_def deployment_def same_build_def rbind_Inr_iff split: if_splits option.splits json.splits)
  moreover have "c_epoch C = execution_epoch m" using rc v by (auto simp: reconciler_def rbind_Inr_iff)
  moreover have "if stopping m0 then \<not> truthy (dget ?m ''handoff'') \<and>
      (\<exists>ev\<in>set (f_log s'). e_id ev = py_str (dget (handoff_of m0) ''id'') @ ''-FARM_STOP_CLEARED'')
     else handoff_of ?m = handoff_of m0 \<and> (truthy (dget m0 ''handoff'') \<longrightarrow> same_backend A m0 \<and> same_build E [''host''] m0)"
  proof (cases "stopping m0")
    case True
    then show ?thesis using clr m st h m1(2) by (auto simp: clears_def s')
  next
    case False
    then have e: "m = m1" using m st by simp
    then have "same_backend A m0 \<and> same_build E [''host''] m0" if "truthy (dget m0 ''handoff'')"
      using that w(2) rw(7) same by (simp add: same_backend_def same_build_def)
    then show ?thesis using False e h(2) m1(2) by simp
  qed
  moreover have "f_tasks s' = f_tasks s" "f_journal s' = f_journal s" "f_workers s' = f_workers s"
    using frame by (simp_all add: s' control_frame_def)
  moreover have "phase_of ?m \<noteq> JStr ''released''" "\<not> truthy (dget ?m ''pending_event'')" "same_build E [''host''] ?m"
    using rw(3,4) d(1,4) h(2) by (simp_all add: phase_of_def same_build_def)
  ultimately show ?thesis using dep by (intro exI [of _ ?m] conjI) simp_all
qed

subsection \<open>Whom a signal hits\<close>

definition waits :: "stopping_farm \<Rightarrow> stopping_farm \<Rightarrow> bool" where
  "waits s u \<longleftrightarrow> (\<exists>t\<ge>sw_t s. u = s\<lparr>sw_t := t\<rparr>)"

lemma waitsI: "sw_t s \<le> t \<Longrightarrow> waits s (s\<lparr>sw_t := t\<rparr>)"
  unfolding waits_def by blast

lemma waits_refl [simp]: "waits s s"
  using waitsI [of s "sw_t s"] by simp

lemma waits_trans:
  assumes "waits s u" and "waits u v"
  shows "waits s v"
proof -
  obtain t t' where "u = s\<lparr>sw_t := t\<rparr>" "sw_t s \<le> t" "v = u\<lparr>sw_t := t'\<rparr>" "sw_t u \<le> t'" using assms by (auto simp: waits_def)
  then show ?thesis using waitsI [of s t'] by simp
qed

lemma look_at_run: "look_at f s = (f (sw_t s), s\<lparr>sw_t := Suc (sw_t s)\<rparr>)"
  by (simp add: look_at_def cmd_defs)

lemma look_at_waits: "waits s (s\<lparr>sw_t := Suc (sw_t s)\<rparr>)"
  by (rule waitsI) simp

lemma await_exit_waits: "await_exit n H pid deadline s = (r, u) \<Longrightarrow> waits s u"
proof (induction n arbitrary: s)
  case 0
  then show ?case by (simp add: cmd_defs)
next
  case (Suc n)
  let ?s1 = "s\<lparr>sw_t := Suc (sw_t s)\<rparr>"
  let ?s2 = "?s1\<lparr>sw_t := Suc (sw_t ?s1)\<rparr>"
  have w: "waits s ?s1" "waits s ?s2" using waitsI [of s "Suc (Suc (sw_t s))"] look_at_waits by simp_all
  from Suc.prems have "u = ?s1 \<or> u = ?s2 \<or> await_exit n H pid deadline ?s2 = (r, u)"
    by (auto simp: look_at_run bnd_def ret_def split: if_splits sum.splits)
  then show ?case using w Suc.IH waits_trans by blast
qed

text \<open>What the answer True about a daemon means.\<close>

definition is_daemon :: "machine \<Rightarrow> dict \<Rightarrow> int \<Rightarrow> bool" where
  "is_daemon M m pid \<longleftrightarrow> dget m ''host'' = JStr (h_name M) \<and>
     (\<exists>x start. h_read M (stat_path pid) = Seen x \<and> start_field x = Some start \<and> int_value (dget m ''pid_starttime'') = Inr start \<and> runnable x)"

lemma daemon_alive_True:
  assumes "daemon_alive M (Some m) = Inr (Some True)" and "daemon_pid m = Inr (Some pid)"
  shows "is_daemon M m pid"
  using assms
  by (auto simp: daemon_alive_def daemon_process_def is_daemon_def host_identity_def rbind_Inr_iff pid_identity_alive_def proc_starttime_def
      process_alive_def Let_def split: if_splits seen.splits option.splits)

lemma confirm_exit_outcome:
  assumes "confirm_exit n H pid w s = (r, s')"
  shows "waits s s' \<and> (\<forall>x. r = Inr (Some x) \<longrightarrow> sr_stopped x \<longrightarrow> (\<exists>t\<ge>sw_t s. t < sw_t s' \<and> process_alive (hk_machine H t) pid = Inr False))"
proof -
  let ?s1 = "s\<lparr>sw_t := Suc (sw_t s)\<rparr>"
  obtain a u where a: "await_exit n H pid (hk_clock H (sw_t s) + w) ?s1 = (a, u)" by fastforce
  have w: "waits s u" using await_exit_waits [OF a] look_at_waits waits_trans by blast
  then have u: "waits s (u\<lparr>sw_t := Suc (sw_t u)\<rparr>)" "sw_t s \<le> sw_t u" using look_at_waits waits_trans by (blast, auto simp: waits_def)
  show ?thesis using assms a u w
    by (auto simp: confirm_exit_def said_def look_at_run bnd_def ret_def split: sum.splits option.splits if_splits)
qed

lemma signal_daemon_outcome:
  assumes "signal_daemon n H w m s = (r, s')"
  obtains (quiet) "waits s s'" "\<And>x. r = Inr (Some x) \<Longrightarrow> \<not> sr_stopped x"
  | (sent) pid u where "u = s\<lparr>sw_t := Suc (Suc (sw_t s)), sw_signals := sw_signals s @ [(Suc (sw_t s), pid)]\<rparr>" "waits u s'"
      "daemon_pid m = Inr (Some pid)" "daemon_alive (hk_machine H (sw_t s)) (Some m) = Inr (Some True)"
      "pid \<noteq> fst (hk_self H)" "pid \<noteq> snd (hk_self H)"
      "\<And>x. r = Inr (Some x) \<Longrightarrow> sr_stopped x \<Longrightarrow> \<exists>t\<ge>sw_t u. t < sw_t s' \<and> process_alive (hk_machine H t) pid = Inr False"
proof -
  let ?s1 = "s\<lparr>sw_t := Suc (sw_t s)\<rparr>"
  show thesis
  proof (cases "\<exists>pid. daemon_pid m = Inr (Some pid) \<and> daemon_alive (hk_machine H (sw_t s)) (Some m) = Inr (Some True) \<and>
      pid \<noteq> fst (hk_self H) \<and> pid \<noteq> snd (hk_self H)")
    case False
    have "(s' = s \<or> s' = ?s1) \<and> (\<forall>x. r = Inr (Some x) \<longrightarrow> \<not> sr_stopped x)"
    proof (cases "daemon_pid m")
      case (Inl e)
      then show ?thesis using assms by (auto simp: signal_daemon_def cmd_defs)
    next
      case (Inr p)
      show ?thesis
      proof (cases p)
        case None
        then show ?thesis using assms Inr by (auto simp: signal_daemon_def said_def cmd_defs)
      next
        case (Some pid)
        show ?thesis
        proof (cases "pid \<noteq> fst (hk_self H) \<and> pid \<noteq> snd (hk_self H)")
          case True
          then show ?thesis using assms False Inr Some
            by (cases "daemon_alive (hk_machine H (sw_t s)) (Some m)")
              (auto simp: signal_daemon_def said_def look_at_run bnd_def seq_def pure_def guard_def ensure_def ret_def split: if_splits)
        qed (use assms Inr Some in \<open>auto simp: signal_daemon_def bnd_def seq_def pure_def guard_def ensure_def\<close>)
      qed
    qed
    then show thesis using quiet look_at_waits by (metis waits_refl)
  next
    case True
    then obtain pid where p: "daemon_pid m = Inr (Some pid)" "daemon_alive (hk_machine H (sw_t s)) (Some m) = Inr (Some True)"
      "pid \<noteq> fst (hk_self H)" "pid \<noteq> snd (hk_self H)" by blast
    let ?u = "s\<lparr>sw_t := Suc (Suc (sw_t s)), sw_signals := sw_signals s @ [(Suc (sw_t s), pid)]\<rparr>"
    have run: "(case hk_kill H (Suc (sw_t s)) pid of
          No_Process \<Rightarrow> said False (Some pid) (Some ''process exited before the signal'')
        | Denied \<Rightarrow> throw (StoreError ''cannot signal pid'')
        | Sent \<Rightarrow> confirm_exit n H pid w) ?u = (r, s')"
      using assms p by (simp add: signal_daemon_def look_at_run send_term_def cmd_defs ensure_def)
    then show thesis
      using sent [OF refl _ p] confirm_exit_outcome [of n H pid w ?u r s']
      by (cases "hk_kill H (Suc (sw_t s)) pid") (auto simp: said_def cmd_defs)
  qed
qed

lemma keeps_control_frame: "keeps (control_frame s) (current_manifest E)"
proof -
  have "keeps (control_frame s) (log_once e)" for e
    unfolding log_once_def log_append_def log_sync_def by (intro keeps_rules keeps_modify) simp_all
  then show ?thesis
    unfolding current_manifest_def finish_deployment_event_def write_deployment_def Let_def
    by (intro keeps_rules keeps_modify) simp_all
qed

text \<open>C14: A stop at once signals nobody but the daemon. Whatever the process table shows from instant to instant, and however the
  call ends, it sends at most one signal, and only to the process id the manifest records, after it has seen at an instant before
  that this process has the recorded start time, on the recorded host, and can run, and that it is neither the caller
  nor its parent. It says stopped only after it saw the process gone since. Of the farm it changes at most the pending audit event.\<close>

theorem stop_signals_the_daemon:
  assumes run: "stop_now n E H actor wait_seconds s = (r, s')"
  shows "f_tasks s' = f_tasks s \<and> f_journal s' = f_journal s \<and> f_workers s' = f_workers s \<and>
    (sw_signals s' = sw_signals s \<or>
     (\<exists>m t pid. sw_signals s' = sw_signals s @ [(Suc t, pid)] \<and> sw_t s \<le> t \<and> deployment s' = Inr m \<and> daemon_pid m = Inr (Some pid) \<and>
       is_daemon (hk_machine H t) m pid \<and> pid \<noteq> fst (hk_self H) \<and> pid \<noteq> snd (hk_self H))) \<and>
    (\<forall>x. r = Inr (Some x) \<longrightarrow> sr_stopped x \<longrightarrow> (\<exists>t t' pid. sw_signals s' = sw_signals s @ [(t, pid)] \<and> t < t' \<and> t' < sw_t s' \<and>
       process_alive (hk_machine H t') pid = Inr False))"
proof -
  have keeps: "control_frame s u" if "current_manifest E s = (q, u)" for q u
    using keepsD [OF keeps_control_frame that] by simp
  have frame: "f_tasks u = f_tasks s \<and> f_journal u = f_journal s \<and> f_workers u = f_workers s \<and> sw_signals u = sw_signals s \<and> sw_t u = sw_t s"
    if "control_frame s u" for u
    using that by (cases u; cases s) (simp add: control_frame_def)
  obtain q u where q: "current_manifest E s = (q, u)" by fastforce
  show ?thesis
  proof (cases "strip actor \<noteq> [] \<and> (\<exists>m. q = Inr m)")
    case False
    then have "s' = s \<and> (\<exists>e. r = Inl e) \<or> s' = u \<and> (\<exists>e. r = Inl e)" using run q
      by (auto simp: stop_now_def cmd_defs ensure_def split: sum.splits if_splits)
    then show ?thesis using frame [OF keeps [OF q]] by auto
  next
    case True
    then obtain m where m: "q = Inr m" and go: "signal_daemon n H wait_seconds m u = (r, s')"
      using run q by (auto simp: stop_now_def cmd_defs ensure_def)
    have dep: "deployment u = Inr m" using q m finish_run_Inr(1) by (auto simp: run_Inr)
    note fr = frame [OF keeps [OF q]]
    have w: "f_tasks b = f_tasks a \<and> f_journal b = f_journal a \<and> f_workers b = f_workers a \<and> sw_signals b = sw_signals a \<and>
        deployment b = deployment a \<and> sw_t a \<le> sw_t b" if "waits a b" for a b
      using that by (auto simp: waits_def deployment_def)
    from go show ?thesis
    proof (cases rule: signal_daemon_outcome)
      case quiet
      then show ?thesis using fr w [OF quiet(1)] by auto
    next
      case (sent pid v)
      have v: "f_tasks v = f_tasks u" "f_journal v = f_journal u" "f_workers v = f_workers u" "deployment v = Inr m"
        "sw_signals v = sw_signals u @ [(Suc (sw_t u), pid)]" "sw_t v = Suc (Suc (sw_t u))"
        using dep by (simp_all add: sent(1) deployment_def)
      have d: "is_daemon (hk_machine H (sw_t u)) m pid" using daemon_alive_True sent(3,4) by blast
      have sig: "sw_signals s' = sw_signals s @ [(Suc (sw_t s), pid)]" using w [OF sent(2)] v(5) fr by simp
      have gone: "\<exists>t t' pid. sw_signals s' = sw_signals s @ [(t, pid)] \<and> t < t' \<and> t' < sw_t s' \<and> process_alive (hk_machine H t') pid = Inr False"
        if st: "r = Inr (Some x)" "sr_stopped x" for x
      proof -
        obtain t where t: "t \<ge> sw_t v" "t < sw_t s'" "process_alive (hk_machine H t) pid = Inr False" using sent(7) [OF st] by blast
        then have "Suc (sw_t s) < t" using v(6) fr by simp
        then show ?thesis using sig t by blast
      qed
      have "\<exists>m t pid. sw_signals s' = sw_signals s @ [(Suc t, pid)] \<and> sw_t s \<le> t \<and> deployment s' = Inr m \<and> daemon_pid m = Inr (Some pid) \<and>
          is_daemon (hk_machine H t) m pid \<and> pid \<noteq> fst (hk_self H) \<and> pid \<noteq> snd (hk_self H)"
        using sig sent(3,5,6) d fr w [OF sent(2)] v(4) by (intro exI [of _ m] exI [of _ "sw_t s"] exI [of _ pid] conjI) simp_all
      moreover have "f_tasks s' = f_tasks s" "f_journal s' = f_journal s" "f_workers s' = f_workers s"
        using fr v w [OF sent(2)] by simp_all
      ultimately show ?thesis using gone by (intro conjI allI impI disjI2)
    qed
  qed
qed

end
