(* ===== verification/Lifecycle_Witnesses.thy ===== *)
theory Lifecycle_Witnesses
  imports Restart Witnesses Access_Witnesses
begin

text \<open>The theorems about the daemon's life at a small farm: a stop, a pass while it holds, a signal, a start.\<close>

definition daemon_deploy :: "(string \<times> json) list \<Rightarrow> (string \<times> json) list" where
  "daemon_deploy xs = [(''host'', JStr ''h1''), (''source_sha256'', JStr ''s''), (''protocol_version'', JStr ''1''),
     (''pid'', JInt 7), (''started_at'', JStr ''now''), (''pid_starttime'', JInt 5), (''executor'', JStr ''local-process''),
     (''session'', JStr ''farm2'')] @ xs"

definition stop0 :: "(string \<times> json) list" where
  "stop0 = [(''handoff'', JObj (stop_control ''stop-1'' (JStr ''h1'') ''op'' ''now''))]"

subsection \<open>Stopping\<close>

lemma demo_stop: "worked (stop_drain demo_env (\<lambda>t. ''1'') ''op'' (demo_world [running_t1] (daemon_deploy [])))"
  by code_simp

theorem stop_holds_farm_witness:
  "\<exists>c s'. stop_drain demo_env (\<lambda>t. ''1'') ''op'' (demo_world [running_t1] (daemon_deploy [])) = (Inr c, s') \<and> withheld s' = Inr True \<and>
     (\<exists>e. fst (release_farm demo_env fake_executor ''stop-1'' ''op'' s') = Inl e) \<and> stop_drain demo_env (\<lambda>t. ''2'') ''op'' s' = (Inr c, s')"
proof -
  let ?s = "demo_world [running_t1] (daemon_deploy [])"
  obtain c where run: "stop_drain demo_env (\<lambda>t. ''1'') ''op'' ?s = (Inr c, snd (stop_drain demo_env (\<lambda>t. ''1'') ''op'' ?s))"
    using demo_stop by (rule workedE)
  have "strip ''op'' \<noteq> []" by code_simp
  with stop_holds_farm [OF run, where E' = demo_env and X = fake_executor and rid = "''stop-1''" and operator = "''op''" and stamp' = "\<lambda>t. ''2''"] run show ?thesis by blast
qed

subsection \<open>A pass of a held farm\<close>

theorem held_farm_starts_nothing_witness:
  "withheld (demo_pass [ready_t1] (daemon_deploy stop0)) = Inr True \<and>
   daemon_loop 3 (\<lambda>_ s. s) demo_config (demo_pass [ready_t1] (daemon_deploy stop0)) =
     daemon_loop 3 (\<lambda>_ s. s) (demo_config\<lparr>c_exec := (c_exec demo_config)\<lparr>ex_launch := (\<lambda>t l. throw (OSError ''never'')),
       ex_resume := (\<lambda>t w l. throw (OSError ''never''))\<rparr>\<rparr>) (demo_pass [ready_t1] (daemon_deploy stop0))"
proof -
  have "worked (bnd (asks withheld) (\<lambda>b. if b then ret () else throw TypeError) (demo_pass [ready_t1] (daemon_deploy stop0)))" by code_simp
  then have held: "withheld (demo_pass [ready_t1] (daemon_deploy stop0)) = Inr True"
    by (auto simp: worked_def cmd_defs split: sum.splits if_splits)
  from held_farm_starts_nothing [OF held, of "\<lambda>_ s. s" 3 demo_config] held show ?thesis by blast
qed

subsection \<open>A signal\<close>

definition busy_machine :: "bool \<Rightarrow> machine" where
  "busy_machine alive = \<lparr>h_name = ''h1'', h_boot = None, h_ns = None,
     h_read = (\<lambda>p. if p = stat_path 7 \<and> alive then Seen (''7 (farm) S '' @ concat (replicate 18 ''0 '') @ ''5 0'') else Gone)\<rparr>"

definition host0 :: host_view where
  "host0 = \<lparr>hk_machine = (\<lambda>t. busy_machine (t < 3)), hk_clock = of_nat, hk_kill = (\<lambda>t p. Sent), hk_self = (20, 21)\<rparr>"

definition stopping0 :: stopping_farm where
  "stopping0 = \<lparr>f_n = 0, f_root = ''/farm'', f_tasks = fmempty, f_workers = fmempty, f_log = [], f_log_damaged = False,
     f_journal = None, f_recovery = None, f_deploy = Some (JObj (obj (daemon_deploy []))), f_handoffs = fmempty, f_recoveries = fmempty,
     sw_t = 0, sw_signals = []\<rparr>"

theorem stop_signals_the_daemon_witness:
  "\<exists>s' x t m pid. stop_now 9 demo_env host0 ''op'' 30 stopping0 = (Inr (Some x), s') \<and> sr_stopped x \<and> sw_signals s' = [(Suc t, pid)] \<and>
     daemon_pid m = Inr (Some pid) \<and> is_daemon (hk_machine host0 t) m pid"
proof -
  have "case stop_now 9 demo_env host0 ''op'' 30 stopping0 of (Inr (Some x), s') \<Rightarrow> sr_stopped x \<and> sw_signals s' \<noteq> [] | _ \<Rightarrow> False"
    by code_simp
  then obtain x s' where run: "stop_now 9 demo_env host0 ''op'' 30 stopping0 = (Inr (Some x), s')" "sr_stopped x" "sw_signals s' \<noteq> []"
    by (auto split: prod.splits sum.splits option.splits)
  have "sw_signals stopping0 = []" by (simp add: stopping0_def)
  with stop_signals_the_daemon [OF run(1)] run show ?thesis by auto
qed

subsection \<open>A start\<close>

definition full_env :: env where
  "full_env = demo_env\<lparr>env_identity := obj [(''protocol_version'', JStr ''1''), (''source_root'', JStr ''/src''), (''source_sha256'', JStr ''s''),
     (''python'', JStr ''/py''), (''pid'', JInt 7), (''host'', JStr ''h1''), (''boot_id'', JNull), (''pid_namespace'', JNull),
     (''capabilities'', JList [])]\<rparr>"

definition daemon_args0 :: daemon_args where
  "daemon_args0 = \<lparr>da_policy = ''compatible'', da_upgrade = None, da_executor = ''local-process'', da_session = ''farm2'', da_socket = None,
     da_unblock = True, da_loop = True, da_grace = Finite 60, da_interval = Finite 10, da_max = 3, da_log = None, da_job = None, da_node = None\<rparr>"

definition launcher0 :: launcher where
  "launcher0 = \<lparr>la_site = site0, la_outside = outside0, la_seen = \<lparr>aw_t = 0, aw_files = fmempty, aw_cmds = [], aw_lock = None\<rparr>,
     la_environ = fmempty, la_machine = busy_machine True, la_pid = 7\<rparr>"

lemma demo_start:
  "worked (start_daemon launcher0 full_env daemon_args0 fake_executor (\<lambda>_ _. Inr False) (demo_pass [running_t1] (daemon_deploy stop0)))"
  by code_simp

theorem startup_takes_nothing_over_witness:
  "\<exists>C s' m. start_daemon launcher0 full_env daemon_args0 fake_executor (\<lambda>_ _. Inr False) (demo_pass [running_t1] (daemon_deploy stop0)) = (Inr C, s') \<and>
     deployment s' = Inr m \<and> \<not> truthy (dget m ''handoff'') \<and> c_epoch C = JStr ''initial''"
proof -
  let ?s = "demo_pass [running_t1] (daemon_deploy stop0)"
  obtain C where run: "start_daemon launcher0 full_env daemon_args0 fake_executor (\<lambda>_ _. Inr False) ?s =
      (Inr C, snd (start_daemon launcher0 full_env daemon_args0 fake_executor (\<lambda>_ _. Inr False) ?s))"
    using demo_start by (rule workedE)
  have keys: "fmdom (env_identity full_env) = fset_of_list runtime_keys" by (simp add: full_env_def runtime_keys_def) auto
  have "case deployment ?s of Inr m \<Rightarrow> stopping m \<and> execution_epoch m = JStr ''initial'' | Inl e \<Rightarrow> False" by code_simp
  then obtain m0 where m0: "deployment ?s = Inr m0" "stopping m0" "execution_epoch m0 = JStr ''initial''"
    by (auto split: sum.splits)
  from startup_takes_nothing_over [OF run keys m0(1)] run m0 show ?thesis by auto
qed

end
