(* ===== verification/Spec2Isabelle.thy ===== *)
theory Spec2Isabelle
  imports Kit_Witnesses Report_Witnesses Access_Witnesses Durable Agent_Witnesses Lifecycle_Witnesses
begin

text \<open>
  A verification of the agent farm (\<open>src/src\<close>): the runtime \<open>agent_farm_runtime\<close>, which owns the tasks
  of a farm and dispatches workers to them, and the \<open>farmkit\<close> with which a worker runs a table of steps on
  Slurm.

  \<^bold>\<open>The program.\<close> A farm is a directory \<open>.farm\<close> with one JSON file per task, a registry of workers,
  an append-only audit log, a deployment manifest and the journal of the task commit under way. Masters record
  decisions; one reconciler at a time observes the workers and moves tasks through their states; an
  executor launches worker processes; turnover hands the farm to another host; offline recovery
  retires the leases of a lost one. A worker of the kit advances a table of steps, each attempt of which
  is a record in a ledger, submits jobs through a write-ahead intent, publishes verified outputs and
  tells the runtime what it waits for. The access layer publishes where the control session of a farm
  lives and certifies it again before anyone attaches.

  \<^bold>\<open>Conventions\<close> (\<open>Prelude\<close>). JSON is a datatype, a dictionary a finite map, a fallible function
  returns \<open>exn + 'a\<close> and every raise and early return of the source is a branch. Stateful code is a
  command \<open>'s \<Rightarrow> (exn + 'a) \<times> 's\<close> (\<open>bnd\<close>, \<open>seq\<close>, \<open>handle\<close>, \<open>for_each\<close>), so that a state left behind by
  an exception is visible; \<open>wp\<close> and \<open>keeps\<close> carry the proofs. Names are those of the source where
  HOL allows it.

  \<^bold>\<open>Theories and the code they model.\<close>
  \<^item> \<open>Models\<close> (\<open>models.py\<close>), \<open>Transitions\<close> (\<open>transitions.py\<close>): tasks, leases, workers, events, receipts; the
    table of legal transitions and the mutations of one task. Theorems: the round trip of a task, no dead end, and
    the life of a task under any sequence of calls (\<open>lived\<close>): its arrows, what led to DONE, what a lease fences.
  \<^item> \<open>Farm\<close>, \<open>Deployment\<close> (\<open>turnover.py\<close>: the writer's guards), \<open>Store\<close> (\<open>store.py\<close>): the durable state, the
    journal, commits and recovery. The code that writes takes its way of writing as an argument (\<open>recover_on\<close>,
    \<open>commit_on\<close>, in \<open>Recovery\<close> \<open>finish_on\<close>): with writes that happen it is the program, with \<open>dying\<close> writes it is a run
    of the same code that may die, or be refused by the system, before any write an arbitrary predicate picks.
    Theorems: compare-and-set, atomicity under a crash, idempotent recovery. A torn append to the log is
    the subject of \<open>Eventlog\<close>: it is noticed, and the recovery then refuses to write.
  \<^item> \<open>Slurm\<close> (\<open>adapters/slurm.py\<close>, \<open>farmkit/observe.py\<close>), \<open>Observers\<close> (\<open>observers.py\<close>), \<open>Master\<close>
    (\<open>master.py\<close>), \<open>Executor\<close> (\<open>adapters/base.py\<close>, \<open>fake.py\<close>, \<open>multi.py\<close>): observation, waits and notes,
    decisions, and the executor contract as a locale with its implementations.
  \<^item> \<open>Reconciler\<close> (\<open>reconciler.py\<close>) with \<open>Ownership\<close>, \<open>Leases\<close> and \<open>Invariant\<close>: every method of the control
    loop and what holds over whole passes: the store stays sound, a lease is revoked on evidence only,
    a launch is durable before it is dispatched, restarts are bounded.
  \<^item> \<open>Turnover\<close> (\<open>turnover.py\<close>), \<open>Recovery\<close> (\<open>recovery.py\<close>): drain, release, claim, rotation, and the
    resumable offline recovery.
  \<^item> \<open>Eventlog\<close> (\<open>events.py\<close>, \<open>status.py\<close>): the bytes of the log, torn appends, paging and tail reads.
  \<^item> \<open>Verify\<close>, \<open>Classify\<close>, \<open>Ledger\<close>, \<open>Steps\<close>, \<open>Health\<close>, \<open>Watch\<close> (the \<open>farmkit\<close> modules of these
    names, \<open>waits.py\<close> in \<open>Classify\<close>): verdicts, failure classes and rulings, attempt records, the step
    table and its progress, the health report, the polling watch.
  \<^item> \<open>Files\<close>, \<open>Rundir\<close> (\<open>snapshot.py\<close>, \<open>runner.py\<close>), \<open>Publish\<close> (\<open>runner.py\<close>), \<open>Intent\<close> (\<open>intent.py\<close>,
    \<open>adopt.py\<close>), \<open>Runner\<close> (\<open>runner.py\<close>, \<open>evidence.py\<close>) with \<open>Ticks\<close>: a file system with links, run
    directories, crash-safe publication, the submission protocol, and the tick that composes them, with its
    checkpoint file (\<open>write_checkpoint\<close>) and its report; \<open>Runner._launch\<close> is \<open>runner_launch\<close>, the dispatch in
    \<open>Reconciler._start\<close> is \<open>launch\<close>. \<open>Ticks\<close> carries the invariants over any sequence of ticks, adoptions and releases.
  \<^item> \<open>Process\<close> (\<open>procutil.py\<close>, \<open>lifecycle.py\<close>), \<open>Contract\<close> (\<open>access/contract.py\<close>), \<open>Probes\<close>
    (\<open>access/observations.py\<close>, \<open>roles.py\<close>), \<open>Registry\<close> (\<open>access/registry.py\<close>), \<open>Access\<close>
    (\<open>access/allocation.py\<close>, \<open>access/__init__.py\<close>) with \<open>Published\<close> and \<open>Certified\<close>: identity of processes,
    access records, the observations, the registry, publication and verification. Every observation
    happens at its own instant of a stream, so the outside may change between any two; other publishers
    move the registry whenever the lock of the target is not held. The commands that only ask are listed one by
    one (\<open>reads_only\<close>), and what a verification observed it observed in worlds reached from its own start by only
    looking (\<open>observed_at\<close>).
  \<^item> \<open>Durable\<close> (\<open>adapters/posix_filesystem.py\<close>, \<open>locking.py\<close>): the durable write of a JSON file as its system calls on
    a disk with a page cache, with a power failure between any two of them, and the polling lock.
  \<^item> \<open>Workers\<close>, \<open>Local\<close> (\<open>adapters/local_process.py\<close>): worker processes and the files that identify them, on
    hosts whose disk and system calls may fail at any instant. No worker ever has two living processes.
  \<^item> \<open>Shell\<close>, \<open>Scripts\<close>, \<open>Helper\<close> (\<open>adapters/codex.py\<close>, \<open>claude.py\<close>, \<open>prompts.py\<close>): quoting, the texts of the
    launch and resume scripts and of the prompts, how a shell reads the former, and the helper an agent
    reports with. \<open>Tmux\<close>, \<open>Panes\<close>, \<open>One_Agent\<close>: the executor that starts agents in tmux windows. A typed line
    is run by the shell of its window at any later time, also more than once, and step by step between
    the system calls of the executor; the directory a script makes first keeps an attempt from
    starting twice. No worker ever has two living agents. \<open>Report\<close>: from the command a tick of the kit prints, through
    the shell and the helper, to the receipt the reconciler accepts.
  \<^item> \<open>Lifecycle\<close> (\<open>lifecycle.py\<close>, \<open>provenance.py\<close>, \<open>cmd_reconcile\<close> of \<open>cli.py\<close>) with \<open>Standstill\<close> and \<open>Restart\<close>: who may
    start the daemon and what it records, its loop, both ways to stop it and the plan to replace it. While the farm is held the
    daemon never calls the launch or the resumption of its executor; a start takes nothing over; a signal hits
    nobody but the recorded daemon.
  \<^item> \<open>Regex\<close>, \<open>Fixtures\<close> and the \<open>Witnesses\<close> theories: regular expressions, and the properties
    applied to concrete farms, step tables and registries.

  \<^bold>\<open>Bounds and fuel.\<close> The loops over tasks, steps, attempts, rows and bytes are structural or have a
  measure. The launches of one tick are bounded by the number of steps, as each is tried once
  (\<open>launches_complete\<close>). The polling watch has fuel for its polls; \<open>watch_returns\<close> gives the amount that
  suffices for its deadline. The walk up the parents of a process is bounded by 256, as in the code.

  \<^bold>\<open>What is approximated.\<close> The texts of exceptions are constants, an \<open>AccessError\<close> carries its state and
  reason. Equality of JSON is structural (Python's \<open>1 == True == 1.0\<close> is not reproduced). Character
  classes, upper and lower case are ASCII. Time stamps, hashes, UUIDs, TOML, JSON text and ISO dates are parameters
  with named hypotheses where one is needed; floats are rationals with infinities and NaN. A lock is
  exclusion: a run under a lock is not interleaved with other holders; when a lock is not obtained the
  operation does nothing. Outside \<open>Durable\<close>, writing a JSON file is one disk operation that happens, does not happen, or
  happens and then raises. Texts for a shell are UTF-8 bytes with ASCII white space; a shell text that would be
  expanded has no reading; a script file that could not be written in full is a script whose runs stop early, as
  every run may. In the access layer one judgement of a process reads one state of the process table,
  and the target of a held lock has no nested target being published at the same time. In \<open>Durable\<close> the
    directory of the file is there: \<open>mkdir\<close> of its parents is a system call without effect, and that the entry of a new
    directory survives a power failure is not claimed. In \<open>Panes\<close> a run of a script works on the text the script had when
    the run began; a shell that reads on in a script overwritten under it is outside the model. A step of a table
    can be \<open>barred\<close> for good, as \<open>table_progress\<close> says; the check of a table does not exclude it.

  \<^bold>\<open>Not modelled.\<close> The command lines (\<open>cli.py\<close>, \<open>access/cli.py\<close>, \<open>farmkit/cli.py\<close>, \<open>farmboard/cli.py\<close>), which
  parse arguments and print; attaching over ssh (\<open>connect.py\<close>); the terminal interface
  (\<open>farmboard/tui.py\<close>, \<open>render.py\<close>); packaging (\<open>tools/release.py\<close>); logging set-up
  (\<open>reconcile_logging.py\<close>). Of a tick, the printed summary and the file of modification times behind its list
  of changed files (\<open>Runner._summary\<close>, \<open>Runner._changed_files\<close>).
\<close>

end
